(* ===== verification/Prelude.thy ===== *)
theory Prelude
  imports
    Complex_Main
    "HOL-Library.AList"
    "HOL-Library.Multiset"
    "HOL-Library.Char_ord"
    "HOL-Library.List_Lexorder"
    "HOL-Library.Product_Lexorder"
begin

text \<open>
  Shared vocabulary of the development.

  \<^item> Python strings are \<open>string\<close>s whose characters are ASCII; \<open>strip\<close>, \<open>lower\<close> and
    \<open>upper\<close> are the standard methods on such strings, and comparison is the code-point
    order of \<open>List_Lexorder\<close>.
  \<^item> Python dicts are insertion-ordered association lists (\<open>dict\<close>): an assignment keeps
    the position of an existing key and appends a new one, as CPython does. The locale
    \<open>py_dict\<close> states the laws the components rely on; its interpretation discharges
    them for the association lists.
  \<^item> A raised exception is a value of \<open>py_error\<close> on the left of a sum; its string is the
    fixed part of the message.
  \<^item> Python floats and instants are exact rationals (\<open>instant\<close>, in seconds): rounding of
    binary floating point is outside the model.
\<close>

section \<open>Hint collections\<close>

named_theorems dict_simps \<open>lookup and key equations of dict updates\<close>
named_theorems frame_simps \<open>fields an operation leaves alone\<close>
named_theorems invs \<open>preservation of the component invariants\<close>

type_synonym instant = rat

section \<open>Exceptions\<close>

datatype py_error =
    ValueError string
  | KeyError string
  | RuntimeError string
  | PermissionError string
  | TimeoutError string
  | OverflowError string
  | TypeError string
  | OtherError string

definition is_error :: "py_error + 'a \<Rightarrow> bool" where
  "is_error r \<longleftrightarrow> (case r of Inl _ \<Rightarrow> True | Inr _ \<Rightarrow> False)"

lemma is_error_simps [simp]:
  "is_error (Inl e)" "\<not> is_error (Inr x)"
  by (simp_all add: is_error_def)

text \<open>Sequencing: an exception skips the rest.\<close>

definition ebind :: "py_error + 'a \<Rightarrow> ('a \<Rightarrow> py_error + 'b) \<Rightarrow> py_error + 'b" where
  "ebind x f = (case x of Inl e \<Rightarrow> Inl e | Inr a \<Rightarrow> f a)"

lemma ebind_simps [simp]: "ebind (Inl e) f = Inl e" "ebind (Inr a) f = f a"
  by (simp_all add: ebind_def)

lemma ebind_eq_Inr: "ebind x f = Inr b \<longleftrightarrow> (\<exists>a. x = Inr a \<and> f a = Inr b)"
  by (cases x) auto

lemma not_is_errorE:
  assumes "\<not> is_error r"
  obtains x where "r = Inr x"
  using assms by (cases r) auto

section \<open>Strings\<close>

definition py_space :: "char \<Rightarrow> bool" where
  "py_space c \<longleftrightarrow> (let n = (of_char c :: nat) in n = 32 \<or> (9 \<le> n \<and> n \<le> 13) \<or> (28 \<le> n \<and> n \<le> 31))"

text \<open>Both ends freed of the elements that satisfy a test; \<open>s.strip()\<close> frees them of white space.\<close>

definition strip_by :: "('a \<Rightarrow> bool) \<Rightarrow> 'a list \<Rightarrow> 'a list" where
  "strip_by P s = rev (dropWhile P (rev (dropWhile P s)))"

definition strip :: "string \<Rightarrow> string" where
  "strip s = strip_by py_space s"

definition lower_char :: "char \<Rightarrow> char" where
  "lower_char c = (let n = (of_char c :: nat) in if 65 \<le> n \<and> n \<le> 90 then char_of (n + 32) else c)"

definition upper_char :: "char \<Rightarrow> char" where
  "upper_char c = (let n = (of_char c :: nat) in if 97 \<le> n \<and> n \<le> 122 then char_of (n - 32) else c)"

definition lower :: "string \<Rightarrow> string" where
  "lower s = map lower_char s"

definition upper :: "string \<Rightarrow> string" where
  "upper s = map upper_char s"

text \<open>The idiom \<open>a or b\<close> on strings: the first one that is not empty.\<close>

definition str_or :: "string \<Rightarrow> string \<Rightarrow> string" where
  "str_or a b = (if a = [] then b else a)"

text \<open>The idiom \<open>a or b\<close> on numbers.\<close>

definition num_or :: "'a::zero \<Rightarrow> 'a \<Rightarrow> 'a" where
  "num_or x y = (if x = 0 then y else x)"

text \<open>The test \<open>marker in text\<close> on strings.\<close>

fun contains :: "string \<Rightarrow> string \<Rightarrow> bool" where
  "contains m [] = (m = [])"
| "contains m (c # cs) = (take (length m) (c # cs) = m \<or> contains m cs)"

lemma strip_Nil [simp]: "strip [] = []"
  by (simp add: strip_def strip_by_def)

lemma lower_Nil [simp]: "lower [] = []" and upper_Nil [simp]: "upper [] = []"
  by (simp_all add: lower_def upper_def)

lemma dropWhile_fixed:
  assumes "\<And>x. xs \<noteq> [] \<Longrightarrow> \<not> P (hd xs)"
  shows "dropWhile P xs = xs"
  using assms by (cases xs) auto

lemma strip_by_ends:
  assumes "strip_by P s \<noteq> []"
  shows "\<not> P (hd (strip_by P s))" and "\<not> P (last (strip_by P s))"
proof -
  let ?d = "dropWhile P s"
  let ?e = "dropWhile P (rev ?d)"
  have ne: "?e \<noteq> []" using assms by (simp add: strip_by_def)
  then show "\<not> P (last (strip_by P s))"
    by (simp add: strip_by_def last_rev hd_dropWhile)
  have "?d \<noteq> []" using ne by (metis dropWhile.simps(1) rev.simps(1))
  then have hd: "\<not> P (hd ?d)" by (simp add: hd_dropWhile)
  obtain p where p: "rev ?d = p @ ?e"
    by (metis takeWhile_dropWhile_id)
  then have "?d = rev ?e @ rev p" by (metis rev_append rev_rev_ident)
  then have "hd ?d = hd (rev ?e)" using ne by (metis hd_append2 rev_is_Nil_conv)
  with hd show "\<not> P (hd (strip_by P s))" by (simp add: strip_by_def)
qed

lemma strip_by_idem [simp]: "strip_by P (strip_by P s) = strip_by P s"
proof (cases "strip_by P s = []")
  case True
  show ?thesis unfolding True by (simp add: strip_by_def)
next
  case False
  note ends = strip_by_ends [OF False]
  have 1: "dropWhile P (strip_by P s) = strip_by P s"
    by (rule dropWhile_fixed) (use ends in simp)
  have 2: "dropWhile P (rev (strip_by P s)) = rev (strip_by P s)"
    by (rule dropWhile_fixed) (use ends False in \<open>simp add: hd_rev\<close>)
  show ?thesis by (subst strip_by_def) (simp add: 1 2)
qed

lemma strip_idem [simp]: "strip (strip s) = strip s"
  by (simp add: strip_def)

lemma set_strip_by: "set (strip_by P s) \<subseteq> set s"
  unfolding strip_by_def by (metis set_dropWhileD set_rev subsetI)

lemma strip_by_none: "(\<And>x. x \<in> set s \<Longrightarrow> \<not> P x) \<Longrightarrow> strip_by P s = s"
proof -
  assume none: "\<And>x. x \<in> set s \<Longrightarrow> \<not> P x"
  have 1: "dropWhile P s = s" by (rule dropWhile_fixed) (use none in auto)
  have 2: "dropWhile P (rev s) = rev s" by (rule dropWhile_fixed) (use none in \<open>metis hd_in_set set_rev\<close>)
  show ?thesis by (simp add: strip_by_def 1 2)
qed

lemma strip_by_map:
  assumes "\<And>x. P (f x) = P x"
  shows "strip_by P (map f s) = map f (strip_by P s)"
  using assms by (simp add: strip_by_def dropWhile_map comp_def rev_map)

lemma py_space_lower_char [simp]: "py_space (lower_char c) = py_space c"
  by (cases "65 \<le> (of_char c :: nat) \<and> (of_char c :: nat) \<le> 90")
    (auto simp: lower_char_def py_space_def Let_def)

lemma strip_lower: "strip (lower s) = lower (strip s)"
  by (simp add: strip_def lower_def strip_by_map)

lemma lower_char_idem: "lower_char (lower_char c) = lower_char c"
  by (cases "65 \<le> (of_char c :: nat) \<and> (of_char c :: nat) \<le> 90")
    (auto simp: lower_char_def Let_def)

lemma lower_idem [simp]: "lower (lower s) = lower s"
  by (simp add: lower_def lower_char_idem)

lemma strip_lower_strip [simp]: "strip (lower (strip s)) = lower (strip s)"
  by (simp add: strip_lower)

lemma lower_strip_eq_Nil [simp]: "lower s = [] \<longleftrightarrow> s = []"
  by (simp add: lower_def)

lemma str_or_simps [simp]: "str_or [] b = b" "a \<noteq> [] \<Longrightarrow> str_or a b = a"
  by (simp_all add: str_or_def)

lemma contains_iff: "contains m s \<longleftrightarrow> (\<exists>xs ys. s = xs @ m @ ys)"
proof (induction s)
  case Nil
  then show ?case by auto
next
  case (Cons c cs)
  have "take (length m) (c # cs) = m \<longleftrightarrow> (\<exists>ys. c # cs = m @ ys)"
    by (metis append_eq_conv_conj)
  moreover have "(\<exists>xs ys. c # cs = xs @ m @ ys) \<longleftrightarrow>
      (\<exists>ys. c # cs = m @ ys) \<or> (\<exists>xs ys. cs = xs @ m @ ys)"
    by (auto simp: Cons_eq_append_conv)
  ultimately show ?case using Cons.IH by simp
qed

section \<open>Python values\<close>

text \<open>
  JSON-like values the program receives and stores: task values, job payloads, metadata. The
  fields of \<open>data_ref\<close> are those of the class \<open>DataRef\<close>, whose instances may stand anywhere in
  a payload.
\<close>

record data_ref =
  ref_id :: string
  ref_storage_id :: string
  ref_logical_type :: string
  ref_format :: string
  ref_size_bytes :: int
  ref_materialize_as :: string
  ref_locator_kind :: string
  ref_locator_token :: string
  ref_consume_on_read :: bool
  ref_node_id :: string
  ref_node_instance_id :: string
  ref_control_addr :: string

datatype pyval =
    PNone
  | PBool bool
  | PInt int
  | PFloat rat
  | PStr string
  | PList "pyval list"
  | PDict "(string \<times> pyval) list"
  | PRef data_ref

type_synonym payload = "(string \<times> pyval) list"

definition truthy :: "pyval \<Rightarrow> bool" where
  "truthy v = (case v of
     PNone \<Rightarrow> False | PBool b \<Rightarrow> b | PInt i \<Rightarrow> i \<noteq> 0 | PFloat x \<Rightarrow> x \<noteq> 0 | PStr s \<Rightarrow> s \<noteq> []
   | PList xs \<Rightarrow> xs \<noteq> [] | PDict d \<Rightarrow> d \<noteq> [] | PRef _ \<Rightarrow> True)"

text \<open>The idiom \<open>a or b\<close> on values.\<close>

definition val_or :: "pyval \<Rightarrow> pyval \<Rightarrow> pyval" where
  "val_or a b = (if truthy a then a else b)"

definition digit_value :: "char \<Rightarrow> int" where
  "digit_value c = of_char c - 48"

definition is_digit :: "char \<Rightarrow> bool" where
  "is_digit c \<longleftrightarrow> 48 \<le> (of_char c :: nat) \<and> (of_char c :: nat) \<le> 57"

text \<open>Decimal digits with single underscores between them, as \<open>int\<close> accepts.\<close>

fun digits_ok :: "bool \<Rightarrow> string \<Rightarrow> bool" where
  "digits_ok after_digit [] = after_digit"
| "digits_ok after_digit (c # cs) =
    (if is_digit c then digits_ok True cs else c = CHR ''_'' \<and> after_digit \<and> digits_ok False cs)"

definition parse_int :: "string \<Rightarrow> int option" where
  "parse_int s0 =
    (let s = strip s0;
         neg = (case s of c # _ \<Rightarrow> c = CHR ''-'' | [] \<Rightarrow> False);
         body = (case s of c # cs \<Rightarrow> if c = CHR ''-'' \<or> c = CHR ''+'' then cs else s | [] \<Rightarrow> [])
     in if digits_ok False body
        then Some ((if neg then - 1 else 1) *
          foldl (\<lambda>n c. 10 * n + digit_value c) 0 (filter is_digit body))
        else None)"

text \<open>\<open>int(v)\<close>: truncation of floats, parsing of strings, an exception otherwise.\<close>

definition py_int :: "pyval \<Rightarrow> py_error + int" where
  "py_int v = (case v of
     PInt i \<Rightarrow> Inr i
   | PBool b \<Rightarrow> Inr (if b then 1 else 0)
   | PFloat x \<Rightarrow> Inr (if 0 \<le> x then \<lfloor>x\<rfloor> else \<lceil>x\<rceil>)
   | PStr s \<Rightarrow> (case parse_int s of Some i \<Rightarrow> Inr i
       | None \<Rightarrow> Inl (ValueError ''invalid literal for int() with base 10''))
   | _ \<Rightarrow> Inl (TypeError ''int() argument''))"

fun digits_of :: "nat \<Rightarrow> nat \<Rightarrow> string" where
  "digits_of 0 n = []"
| "digits_of (Suc fuel) n =
    (if n < 10 then [char_of (48 + n)] else digits_of fuel (n div 10) @ [char_of (48 + n mod 10)])"

definition str_int :: "int \<Rightarrow> string" where
  "str_int i = (if i < 0 then ''-'' else []) @ digits_of (nat \<bar>i\<bar> + 1) (nat \<bar>i\<bar>)"

text \<open>
  \<open>str(v)\<close>. The argument \<open>rep\<close> stands for \<open>repr\<close> of floats, containers and references, whose
  text the program never looks into.
\<close>

definition py_str :: "(pyval \<Rightarrow> string) \<Rightarrow> pyval \<Rightarrow> string" where
  "py_str rep v = (case v of
     PStr s \<Rightarrow> s
   | PNone \<Rightarrow> ''None''
   | PBool b \<Rightarrow> (if b then ''True'' else ''False'')
   | PInt i \<Rightarrow> str_int i
   | _ \<Rightarrow> rep v)"

lemma py_str_PStr [simp]: "py_str rep (PStr s) = s"
  by (simp add: py_str_def)

lemma truthy_simps [simp]:
  "\<not> truthy PNone" "truthy (PBool b) = b" "truthy (PInt i) \<longleftrightarrow> i \<noteq> 0" "truthy (PStr s) \<longleftrightarrow> s \<noteq> []"
  "truthy (PList xs) \<longleftrightarrow> xs \<noteq> []" "truthy (PDict d) \<longleftrightarrow> d \<noteq> []" "truthy (PFloat x) \<longleftrightarrow> x \<noteq> 0" "truthy (PRef r)"
  by (simp_all add: truthy_def)

section \<open>Dicts\<close>

type_synonym ('k, 'v) dict = "('k \<times> 'v) list"

abbreviation dget :: "('k, 'v) dict \<Rightarrow> 'k \<Rightarrow> 'v option" where
  "dget d k \<equiv> map_of d k"

abbreviation dset :: "'k \<Rightarrow> 'v \<Rightarrow> ('k, 'v) dict \<Rightarrow> ('k, 'v) dict" where
  "dset k v d \<equiv> AList.update k v d"

abbreviation dpop :: "'k \<Rightarrow> ('k, 'v) dict \<Rightarrow> ('k, 'v) dict" where
  "dpop k d \<equiv> AList.delete k d"

definition dget_or :: "('k, 'v) dict \<Rightarrow> 'k \<Rightarrow> 'v \<Rightarrow> 'v" where
  "dget_or d k v = (case dget d k of None \<Rightarrow> v | Some x \<Rightarrow> x)"

definition dkeys :: "('k, 'v) dict \<Rightarrow> 'k list" where
  "dkeys d = map fst d"

definition dvals :: "('k, 'v) dict \<Rightarrow> 'v list" where
  "dvals d = map snd d"

definition dict_of :: "('k \<times> 'v) list \<Rightarrow> ('k, 'v) dict" where
  "dict_of kvs = fold (\<lambda>(k, v). dset k v) kvs []"

text \<open>Every value of the dict replaced, the keys and their order kept.\<close>

definition dmap :: "('k \<Rightarrow> 'v \<Rightarrow> 'w) \<Rightarrow> ('k, 'v) dict \<Rightarrow> ('k, 'w) dict" where
  "dmap f d = map (\<lambda>(k, v). (k, f k v)) d"

definition dwf :: "('k, 'v) dict \<Rightarrow> bool" where
  "dwf d \<longleftrightarrow> distinct (map fst d)"

text \<open>\<open>str(d.get(key, "") or "")\<close>, the idiom by which payload fields are read.\<close>

definition get_str :: "(pyval \<Rightarrow> string) \<Rightarrow> payload \<Rightarrow> string \<Rightarrow> string" where
  "get_str rep d k = py_str rep (val_or (dget_or d k (PStr [])) (PStr []))"

lemma dwf_Nil [simp]: "dwf []"
  by (simp add: dwf_def)

lemma dwf_dset [simp]: "dwf d \<Longrightarrow> dwf (dset k v d)"
  by (simp add: dwf_def distinct_update)

lemma dwf_dpop [simp]: "dwf d \<Longrightarrow> dwf (dpop k d)"
  by (simp add: dwf_def distinct_delete)

lemma dwf_filter [simp]: "dwf d \<Longrightarrow> dwf (filter P d)"
  unfolding dwf_def by (rule distinct_map_filter)

lemma dget_dset [dict_simps]: "dget (dset k v d) k' = (if k' = k then Some v else dget d k')"
  by (simp add: update_conv')

lemma dget_dpop [dict_simps]: "dget (dpop k d) k' = (if k' = k then None else dget d k')"
  by (simp add: delete_conv')

lemma dwf_dmap [simp]: "dwf (dmap f d) = dwf d"
proof -
  have "map fst (dmap f d) = map fst d" by (auto simp: dmap_def)
  then show ?thesis by (simp add: dwf_def)
qed

lemma dget_dmap [dict_simps]: "dget (dmap f d) k = map_option (f k) (dget d k)"
  by (induction d) (auto simp: dmap_def)

lemma dget_in: "dget d k = Some v \<Longrightarrow> (k, v) \<in> set d"
  by (rule map_of_SomeD)

lemma in_dget: "dwf d \<Longrightarrow> (k, v) \<in> set d \<Longrightarrow> dget d k = Some v"
  by (simp add: dwf_def)

lemma in_dset:
  assumes "dwf d"
  shows "(k', v') \<in> set (dset k v d) \<longleftrightarrow> (if k' = k then v' = v else (k', v') \<in> set d)"
  using assms by (metis dget_dset dget_in dwf_dset in_dget option.inject)

lemma in_dpop:
  assumes "dwf d"
  shows "(k', v') \<in> set (dpop k d) \<longleftrightarrow> k' \<noteq> k \<and> (k', v') \<in> set d"
  using assms by (metis dget_dpop dget_in dwf_dpop in_dget option.distinct(1))

lemma dget_filter:
  "dwf d \<Longrightarrow> dget (filter (\<lambda>(k, v). P k v) d) k =
     (case dget d k of None \<Rightarrow> None | Some v \<Rightarrow> if P k v then Some v else None)"
  by (induction d) (force simp: dwf_def split: option.splits dest: map_of_SomeD intro: map_of_eq_None_iff [THEN iffD2])+

lemma set_dkeys: "set (dkeys d) = dom (map_of d)"
  by (simp add: dkeys_def dom_map_of_conv_image_fst)

lemma set_dvals:
  assumes "dwf d"
  shows "v \<in> set (dvals d) \<longleftrightarrow> (\<exists>k. dget d k = Some v)"
proof
  assume "v \<in> set (dvals d)"
  then obtain k where "(k, v) \<in> set d" by (auto simp: dvals_def)
  with assms show "\<exists>k. dget d k = Some v" using in_dget by metis
next
  assume "\<exists>k. dget d k = Some v"
  then obtain k where "(k, v) \<in> set d" using dget_in by metis
  then show "v \<in> set (dvals d)" by (force simp: dvals_def)
qed

lemma dwf_dict_of [simp]: "dwf (dict_of kvs)"
proof -
  have "dwf d \<Longrightarrow> dwf (fold (\<lambda>(k, v). dset k v) kvs d)" for d :: "('a, 'b) dict"
    by (induction kvs arbitrary: d) auto
  then show ?thesis by (simp add: dict_of_def)
qed

text \<open>The laws the components use of a dict, as an interface.\<close>

locale py_dict =
  fixes get :: "'d \<Rightarrow> 'k \<Rightarrow> 'v option"
    and put :: "'k \<Rightarrow> 'v \<Rightarrow> 'd \<Rightarrow> 'd"
    and del :: "'k \<Rightarrow> 'd \<Rightarrow> 'd"
    and wf :: "'d \<Rightarrow> bool"
  assumes get_put: "get (put k v d) k' = (if k' = k then Some v else get d k')"
    and get_del: "get (del k d) k' = (if k' = k then None else get d k')"
    and wf_put: "wf d \<Longrightarrow> wf (put k v d)"
    and wf_del: "wf d \<Longrightarrow> wf (del k d)"
begin

definition dels :: "'k list \<Rightarrow> 'd \<Rightarrow> 'd" where
  "dels ks d = fold del ks d"

lemma get_dels: "get (dels ks d) k = (if k \<in> set ks then None else get d k)"
  by (induction ks arbitrary: d) (auto simp: dels_def get_del)

lemma wf_dels: "wf d \<Longrightarrow> wf (dels ks d)"
  by (induction ks arbitrary: d) (auto simp: dels_def wf_del)

lemma put_dom: "{k. get (put k' v d) k \<noteq> None} = insert k' {k. get d k \<noteq> None}"
  by (auto simp: get_put)

lemma put_all:
  assumes "\<And>k v. get d k = Some v \<Longrightarrow> P k v" "P k' v'"
  shows "get (put k' v' d) k = Some v \<Longrightarrow> P k v"
  using assms by (auto simp: get_put split: if_splits)

lemma del_all:
  assumes "\<And>k v. get d k = Some v \<Longrightarrow> P k v"
  shows "get (del k' d) k = Some v \<Longrightarrow> P k v"
  using assms by (auto simp: get_del split: if_splits)

end

interpretation dict: py_dict "map_of :: ('k \<times> 'v) list \<Rightarrow> 'k \<Rightarrow> 'v option" AList.update AList.delete dwf
  by unfold_locales (simp_all add: dget_dset dget_dpop)

definition dpops :: "'k list \<Rightarrow> ('k, 'v) dict \<Rightarrow> ('k, 'v) dict" where
  "dpops ks d = fold AList.delete ks d"

lemma dpops_eq: "dpops ks d = dict.dels ks d"
  by (simp add: dpops_def dict.dels_def)

lemma dget_dpops [dict_simps]: "dget (dpops ks d) k = (if k \<in> set ks then None else dget d k)"
  by (simp add: dpops_eq dict.get_dels)

lemma dwf_dpops [simp]: "dwf d \<Longrightarrow> dwf (dpops ks d)"
  by (simp add: dpops_eq dict.wf_dels)

section \<open>Sorting\<close>

text \<open>\<open>sorted(xs, key=f)\<close> is \<open>sort_key f xs\<close>; the head of a non-empty result is minimal.\<close>

lemma sort_key_hd_min:
  assumes "xs \<noteq> []" and "x \<in> set xs"
  shows "f (hd (sort_key f xs)) \<le> f x"
proof -
  let ?ys = "sort_key f xs"
  have "x \<in> set ?ys" using assms(2) by simp
  moreover have "sorted (map f ?ys)" by simp
  moreover obtain z zs where "?ys = z # zs"
    using assms(1) by (metis neq_Nil_conv set_empty set_sort)
  ultimately show ?thesis by auto
qed

lemma sort_key_eq_Nil [simp]: "sort_key f xs = [] \<longleftrightarrow> xs = []"
  by (metis set_empty set_sort)

lemma set_take_sort_key: "set (take n (sort_key f xs)) \<subseteq> set xs"
  by (metis set_sort set_take_subset)

lemma mset_rotate: "mset (rotate n xs) = mset xs"
  unfolding rotate_drop_take by (metis append_take_drop_id mset_append union_commute)

end
