(* ===== verification/Scheduler.thy ===== *)
theory Scheduler
  imports Prelude
begin

text \<open>
  The candidate scheduler, \<open>src/src/pycloud_parallel/execution/scheduler.py\<close>: filtering
  of candidates, min-max normalisation of their features, weighted scores with a failure
  penalty, and the choice of one candidate with a round-robin tie break. Services, task
  pools and the job queue all pick their target through \<open>select_one_candidate\<close>.
\<close>

section \<open>Data\<close>

record scheduler_candidate =
  cand_id :: string
  cand_kind :: string
  cand_node_id :: string
  cand_node_instance_id :: string
  cand_healthy :: bool
  cand_schedulable :: bool
  cand_drain :: bool
  cand_breaker_state :: string
  cand_predicted_busy :: rat
  cand_node_inflight :: int
  cand_alive_workers :: int
  cand_worker_capacity :: int
  cand_credit :: int
  cand_recent_failures :: int
  cand_metadata :: "(string, pyval) dict"

record scheduler_state =
  local_inflight_by_candidate :: "(string, int) dict"
  disabled_candidates :: "string list"
  recent_submit_failures :: "(string, int) dict"

record strategy_profile =
  sp_name :: string
  sp_weights :: "(string, rat) dict"
  sp_tie_break :: string
  sp_failure_penalty :: rat

definition SERVICE_DEFAULT :: strategy_profile where
  "SERVICE_DEFAULT = \<lparr>sp_name = ''service_default'',
     sp_weights = [(''predicted_busy'', 5), (''node_inflight'', 2), (''alive_workers'', 3 / 2),
       (''worker_capacity'', 1 / 2), (''recent_failures'', 3 / 2)],
     sp_tie_break = ''round_robin'', sp_failure_penalty = 10\<rparr>"

definition SERVICE_LATENCY_FIRST :: strategy_profile where
  "SERVICE_LATENCY_FIRST = \<lparr>sp_name = ''service_latency_first'',
     sp_weights = [(''predicted_busy'', 6), (''node_inflight'', 5 / 2), (''alive_workers'', 1),
       (''recent_failures'', 3 / 2)],
     sp_tie_break = ''round_robin'', sp_failure_penalty = 10\<rparr>"

definition TASKPOOL_DEFAULT :: strategy_profile where
  "TASKPOOL_DEFAULT = \<lparr>sp_name = ''taskpool_default'',
     sp_weights = [(''local_inflight'', 6), (''predicted_busy'', 3), (''node_inflight'', 3 / 2),
       (''alive_workers'', 1), (''worker_capacity'', 3 / 4), (''recent_failures'', 2)],
     sp_tie_break = ''round_robin'', sp_failure_penalty = 10\<rparr>"

definition TASKPOOL_THROUGHPUT :: strategy_profile where
  "TASKPOOL_THROUGHPUT = \<lparr>sp_name = ''taskpool_throughput'',
     sp_weights = [(''local_inflight'', 5), (''alive_workers'', 2), (''worker_capacity'', 3 / 2),
       (''predicted_busy'', 2), (''recent_failures'', 2)],
     sp_tie_break = ''round_robin'', sp_failure_penalty = 10\<rparr>"

definition JOBQUEUE_DEFAULT :: strategy_profile where
  "JOBQUEUE_DEFAULT = \<lparr>sp_name = ''jobqueue_default'',
     sp_weights = [(''predicted_busy'', 4), (''node_inflight'', 2), (''alive_workers'', 3 / 2),
       (''worker_capacity'', 1), (''credit'', 1), (''recent_failures'', 3 / 2)],
     sp_tie_break = ''round_robin'', sp_failure_penalty = 10\<rparr>"

definition HIGHER_IS_BETTER :: "string list" where
  "HIGHER_IS_BETTER = [''alive_workers'', ''worker_capacity'', ''credit'']"

section \<open>Strategy names\<close>

definition resolve_service_strategy :: "string \<Rightarrow> string \<times> strategy_profile option" where
  "resolve_service_strategy strategy =
    (let normalized = str_or (lower (strip strategy)) ''predicted_busy'' in
     if normalized \<in> {''predicted_busy'', ''service_default''}
     then (''predicted_busy'', Some SERVICE_DEFAULT)
     else if normalized = ''service_latency_first''
     then (''service_latency_first'', Some SERVICE_LATENCY_FIRST)
     else if normalized \<in> {''least_inflight'', ''round_robin''} then (normalized, None)
     else (''predicted_busy'', Some SERVICE_DEFAULT))"

definition resolve_taskpool_strategy :: "string \<Rightarrow> strategy_profile" where
  "resolve_taskpool_strategy strategy =
    (let normalized = str_or (lower (strip strategy)) ''taskpool_default'' in
     if normalized \<in> {''taskpool_default'', ''least_inflight'', ''predicted_busy''}
     then TASKPOOL_DEFAULT
     else if normalized \<in> {''taskpool_throughput'', ''throughput''} then TASKPOOL_THROUGHPUT
     else if normalized = ''round_robin''
     then \<lparr>sp_name = ''taskpool_round_robin'', sp_weights = sp_weights TASKPOOL_DEFAULT,
            sp_tie_break = ''round_robin'',
            sp_failure_penalty = sp_failure_penalty TASKPOOL_DEFAULT\<rparr>
     else TASKPOOL_DEFAULT)"

section \<open>Filtering\<close>

definition candidate_ok :: "scheduler_state \<Rightarrow> scheduler_candidate \<Rightarrow> bool" where
  "candidate_ok st c \<longleftrightarrow>
     cand_id c \<notin> set (disabled_candidates st) \<and> cand_healthy c \<and> cand_schedulable c \<and>
     \<not> cand_drain c \<and> lower (strip (cand_breaker_state c)) \<noteq> ''open'' \<and>
     \<not> (cand_worker_capacity c \<le> 0 \<and> cand_alive_workers c \<le> 0)"

definition filter_candidates ::
  "scheduler_candidate list \<Rightarrow> scheduler_state \<Rightarrow> scheduler_candidate list" where
  "filter_candidates candidates st = filter (candidate_ok st) candidates"

section \<open>Features and scores\<close>

definition raw_feature_value ::
  "scheduler_candidate \<Rightarrow> string \<Rightarrow> scheduler_state \<Rightarrow> rat" where
  "raw_feature_value c feature st =
    (if feature = ''local_inflight''
     then of_int (dget_or (local_inflight_by_candidate st) (cand_id c) 0)
     else if feature = ''node_inflight'' then of_int (cand_node_inflight c)
     else if feature = ''predicted_busy'' then cand_predicted_busy c
     else if feature = ''alive_workers'' then of_int (cand_alive_workers c)
     else if feature = ''worker_capacity'' then of_int (cand_worker_capacity c)
     else if feature = ''credit'' then of_int (cand_credit c)
     else if feature = ''recent_failures''
     then (case dget (recent_submit_failures st) (cand_id c) of
             None \<Rightarrow> of_int (cand_recent_failures c) | Some v \<Rightarrow> of_int v)
     else 0)"

definition normalize_feature_values ::
  "scheduler_candidate list \<Rightarrow> string \<Rightarrow> scheduler_state \<Rightarrow> (string, rat) dict" where
  "normalize_feature_values candidates feature st =
    (let raw_values = dict_of (map (\<lambda>c. (cand_id c, raw_feature_value c feature st)) candidates)
     in if raw_values = [] then []
        else
          let minimum = Min (set (dvals raw_values));
              maximum = Max (set (dvals raw_values))
          in if maximum \<le> minimum then dmap (\<lambda>_ _. 0) raw_values
             else dmap (\<lambda>_ v. let ratio = (v - minimum) / (maximum - minimum)
                               in if feature \<in> set HIGHER_IS_BETTER then 1 - ratio else ratio)
                    raw_values)"

definition normalize_features ::
  "scheduler_candidate list \<Rightarrow> string list \<Rightarrow> scheduler_state
    \<Rightarrow> (string, (string, rat) dict) dict" where
  "normalize_features candidates features st =
     dict_of (map (\<lambda>f. (f, normalize_feature_values candidates f st)) features)"

definition score_candidate ::
  "scheduler_candidate \<Rightarrow> strategy_profile \<Rightarrow> scheduler_state \<Rightarrow> scheduler_candidate list
    \<Rightarrow> (string, (string, rat) dict) dict option \<Rightarrow> rat" where
  "score_candidate c profile st candidates normalized_features =
    (let feature_maps = (case normalized_features of
           Some m \<Rightarrow> if m = [] then normalize_features candidates (dkeys (sp_weights profile)) st else m
         | None \<Rightarrow> normalize_features candidates (dkeys (sp_weights profile)) st);
         weighted = fold (\<lambda>(feature, weight) s.
           s + weight * dget_or (dget_or feature_maps feature []) (cand_id c) 0)
           (sp_weights profile) 0;
         failures = raw_feature_value c ''recent_failures'' st
     in weighted + sp_failure_penalty profile * max 0 failures)"

section \<open>Selection\<close>

definition scored_candidates ::
  "scheduler_candidate list \<Rightarrow> strategy_profile \<Rightarrow> scheduler_state
    \<Rightarrow> (rat \<times> scheduler_candidate) list" where
  "scored_candidates filtered profile st =
    (let nf = normalize_features filtered (dkeys (sp_weights profile)) st
     in map (\<lambda>c. (score_candidate c profile st filtered (Some nf), c)) filtered)"

definition best_candidates ::
  "scheduler_candidate list \<Rightarrow> strategy_profile \<Rightarrow> scheduler_state \<Rightarrow> scheduler_candidate list" where
  "best_candidates filtered profile st =
    (let scored = scored_candidates filtered profile st;
         best_score = Min (set (map fst scored))
     in map snd (filter (\<lambda>(score, _). \<bar>score - best_score\<bar> \<le> 1 / 1000000000) scored))"

definition candidate_order :: "scheduler_candidate \<Rightarrow> string \<times> string" where
  "candidate_order c = (str_or (cand_node_instance_id c) (cand_id c), cand_id c)"

definition select_one_candidate ::
  "scheduler_candidate list \<Rightarrow> strategy_profile \<Rightarrow> scheduler_state \<Rightarrow> int
    \<Rightarrow> py_error + scheduler_candidate" where
  "select_one_candidate candidates profile st round_robin_counter =
    (let filtered = filter_candidates candidates st in
     if filtered = [] then Inl (RuntimeError ''no available scheduler candidates'')
     else
       let best = best_candidates filtered profile st in
       if sp_tie_break profile = ''round_robin'' \<and> best \<noteq> []
       then let ordered = sort_key candidate_order best
            in Inr (ordered ! nat (round_robin_counter mod int (length ordered)))
       else Inr (sort_key candidate_order best ! 0))"

section \<open>Lemmas on dict building\<close>

lemma dget_fold_dset:
  assumes "distinct (map fst kvs)"
  shows "dget (fold (\<lambda>(k, v). dset k v) kvs d) k =
    (case dget kvs k of None \<Rightarrow> dget d k | Some v \<Rightarrow> Some v)"
  using assms
proof (induction kvs arbitrary: d)
  case Nil
  then show ?case by simp
next
  case (Cons kv kvs)
  obtain k' v' where kv: "kv = (k', v')" by (cases kv)
  have "dget kvs k' = None" using Cons.prems kv by (simp add: map_of_eq_None_iff)
  then show ?case using Cons kv by (auto simp: dict_simps split: option.splits)
qed

lemma dget_dict_of:
  "distinct (map fst kvs) \<Longrightarrow> dget (dict_of kvs) k = dget kvs k"
  unfolding dict_of_def by (subst dget_fold_dset) (auto split: option.splits)

lemma dkeys_fold_dset:
  "fst ` set (fold (\<lambda>(k, v). dset k v) kvs d) = fst ` set d \<union> fst ` set kvs"
proof (induction kvs arbitrary: d)
  case Nil
  then show ?case by simp
next
  case (Cons kv kvs)
  then show ?case by (cases kv) (auto simp: dom_update)
qed

lemma dict_of_eq_Nil: "dict_of kvs = [] \<longleftrightarrow> kvs = []"
proof -
  have "fst ` set (dict_of kvs) = fst ` set kvs"
    unfolding dict_of_def by (subst dkeys_fold_dset) simp
  then show ?thesis by (metis image_is_empty set_empty)
qed

section \<open>Normalised features\<close>

lemma normalize_values_bounds:
  assumes "dget (normalize_feature_values cs f st) k = Some v"
  shows "0 \<le> v \<and> v \<le> 1"
proof -
  let ?raw = "dict_of (map (\<lambda>c. (cand_id c, raw_feature_value c f st)) cs)"
  let ?lo = "Min (set (dvals ?raw))" and ?hi = "Max (set (dvals ?raw))"
  from assms have ne: "?raw \<noteq> []" by (auto simp: normalize_feature_values_def)
  show ?thesis
  proof (cases "?hi \<le> ?lo")
    case True
    with assms ne show ?thesis
      by (auto simp: normalize_feature_values_def Let_def dict_simps)
  next
    case False
    with assms ne obtain w where w: "dget ?raw k = Some w"
      and v: "v = (if f \<in> set HIGHER_IS_BETTER then 1 - (w - ?lo) / (?hi - ?lo)
                   else (w - ?lo) / (?hi - ?lo))"
      by (auto simp: normalize_feature_values_def Let_def dict_simps split: if_splits)
    have "w \<in> set (dvals ?raw)" using w by (subst set_dvals) auto
    then have "?lo \<le> w" "w \<le> ?hi" by (simp_all)
    moreover from this False have "0 \<le> (w - ?lo) / (?hi - ?lo)" "(w - ?lo) / (?hi - ?lo) \<le> 1"
      by (simp_all add: field_simps)
    ultimately show ?thesis using v by auto
  qed
qed

lemma normalize_values_get:
  assumes "distinct (map cand_id cs)" and "cs \<noteq> []"
  shows "\<exists>lo hi. \<forall>c \<in> set cs. dget (normalize_feature_values cs f st) (cand_id c) = Some
      (if hi \<le> lo then 0
       else if f \<in> set HIGHER_IS_BETTER then 1 - (raw_feature_value c f st - lo) / (hi - lo)
       else (raw_feature_value c f st - lo) / (hi - lo))"
proof -
  let ?kvs = "map (\<lambda>c. (cand_id c, raw_feature_value c f st)) cs"
  let ?raw = "dict_of ?kvs"
  let ?lo = "Min (set (dvals ?raw))" and ?hi = "Max (set (dvals ?raw))"
  have d: "distinct (map fst ?kvs)" using assms(1) by (simp add: comp_def)
  have get: "dget ?raw (cand_id c) = Some (raw_feature_value c f st)" if "c \<in> set cs" for c
    using that d by (auto simp: dget_dict_of [OF d] intro: map_of_is_SomeI)
  have ne: "?raw \<noteq> []" using assms(2) by (simp add: dict_of_eq_Nil)
  show ?thesis
  proof (rule exI [of _ ?lo], rule exI [of _ ?hi], rule ballI)
    fix c assume c: "c \<in> set cs"
    show "dget (normalize_feature_values cs f st) (cand_id c) = Some
      (if ?hi \<le> ?lo then 0
       else if f \<in> set HIGHER_IS_BETTER then 1 - (raw_feature_value c f st - ?lo) / (?hi - ?lo)
       else (raw_feature_value c f st - ?lo) / (?hi - ?lo))"
      using get [OF c] ne by (simp add: normalize_feature_values_def Let_def dict_simps)
  qed
qed

definition feature_norm :: "scheduler_candidate list \<Rightarrow> scheduler_state \<Rightarrow> string \<Rightarrow> scheduler_candidate \<Rightarrow> rat" where
  "feature_norm cs st f c = dget_or (normalize_feature_values cs f st) (cand_id c) 0"

lemma feature_norm_bounds: "0 \<le> feature_norm cs st f c" "feature_norm cs st f c \<le> 1"
  using normalize_values_bounds [of cs f st "cand_id c"]
  by (auto simp: feature_norm_def dget_or_def split: option.splits)

lemma feature_norm_mono:
  assumes "distinct (map cand_id cs)" "c \<in> set cs" "d \<in> set cs" "f \<notin> set HIGHER_IS_BETTER"
    and le: "raw_feature_value c f st \<le> raw_feature_value d f st"
  shows "feature_norm cs st f c \<le> feature_norm cs st f d"
proof -
  have "cs \<noteq> []" using assms(2) by auto
  obtain lo hi where *:
    "\<forall>c \<in> set cs. dget (normalize_feature_values cs f st) (cand_id c) = Some
      (if hi \<le> lo then 0
       else if f \<in> set HIGHER_IS_BETTER then 1 - (raw_feature_value c f st - lo) / (hi - lo)
       else (raw_feature_value c f st - lo) / (hi - lo))"
    using normalize_values_get [OF assms(1) \<open>cs \<noteq> []\<close>, of f st] by (elim exE) (rule that)
  show ?thesis
  proof (cases "hi \<le> lo")
    case True
    then show ?thesis using * assms by (simp add: feature_norm_def dget_or_def)
  next
    case False
    then have "(raw_feature_value c f st - lo) / (hi - lo) \<le> (raw_feature_value d f st - lo) / (hi - lo)"
      using le by (intro divide_right_mono) auto
    then show ?thesis using False * assms by (simp add: feature_norm_def dget_or_def)
  qed
qed

section \<open>Scores as sums\<close>

lemma fold_sum: "fold (\<lambda>(k, w) s. s + h k w) ws a = a + (\<Sum>(k, w)\<leftarrow>ws. h k w)"
  for h :: "'k \<Rightarrow> 'w \<Rightarrow> rat"
  by (induction ws arbitrary: a) auto

definition weighted_sum ::
  "strategy_profile \<Rightarrow> scheduler_candidate list \<Rightarrow> scheduler_state \<Rightarrow> scheduler_candidate \<Rightarrow> rat" where
  "weighted_sum profile cs st c = (\<Sum>(f, w)\<leftarrow>sp_weights profile. w * feature_norm cs st f c)"

lemma normalize_features_get:
  assumes "distinct fs" "f \<in> set fs"
  shows "dget_or (normalize_features cs fs st) f [] = normalize_feature_values cs f st"
proof -
  let ?kvs = "map (\<lambda>f. (f, normalize_feature_values cs f st)) fs"
  have d: "distinct (map fst ?kvs)" using assms by (simp add: comp_def)
  have "dget ?kvs f = Some (normalize_feature_values cs f st)"
    using assms d by (auto intro: map_of_is_SomeI)
  then show ?thesis by (simp add: normalize_features_def dget_or_def dget_dict_of [OF d])
qed

lemma score_candidate_sum:
  assumes "dwf (sp_weights profile)"
  shows "score_candidate c profile st cs (Some (normalize_features cs (dkeys (sp_weights profile)) st)) =
    weighted_sum profile cs st c +
    sp_failure_penalty profile * max 0 (raw_feature_value c ''recent_failures'' st)"
proof -
  let ?fs = "dkeys (sp_weights profile)"
  have d: "distinct ?fs" using assms by (simp add: dwf_def dkeys_def)
  have "(\<Sum>(f, w)\<leftarrow>sp_weights profile. w * dget_or (dget_or (normalize_features cs ?fs st) f []) (cand_id c) 0)
      = weighted_sum profile cs st c"
    unfolding weighted_sum_def
  proof (rule arg_cong [where f = sum_list], rule map_cong, rule refl)
    fix p assume "p \<in> set (sp_weights profile)"
    then have "fst p \<in> set ?fs" by (simp add: dkeys_def)
    then show "(case p of (f, w) \<Rightarrow> w * dget_or (dget_or (normalize_features cs ?fs st) f []) (cand_id c) 0)
      = (case p of (f, w) \<Rightarrow> w * feature_norm cs st f c)"
      using normalize_features_get [OF d] by (cases p) (simp add: feature_norm_def)
  qed
  then show ?thesis by (simp add: score_candidate_def Let_def fold_sum)
qed

section \<open>The candidates with the best score\<close>

definition candidate_score ::
  "scheduler_candidate list \<Rightarrow> strategy_profile \<Rightarrow> scheduler_state \<Rightarrow> scheduler_candidate \<Rightarrow> rat" where
  "candidate_score filtered profile st c = score_candidate c profile st filtered
     (Some (normalize_features filtered (dkeys (sp_weights profile)) st))"

lemma scored_candidates_eq:
  "scored_candidates filtered profile st = map (\<lambda>c. (candidate_score filtered profile st c, c)) filtered"
  by (simp add: scored_candidates_def candidate_score_def Let_def)

lemma best_candidates_eq:
  "best_candidates cs profile st =
     filter (\<lambda>c. \<bar>candidate_score cs profile st c - Min (candidate_score cs profile st ` set cs)\<bar>
       \<le> 1 / 1000000000) cs"
  by (simp add: best_candidates_def scored_candidates_eq Let_def filter_map comp_def image_image)

lemma in_best_candidates:
  assumes "c \<in> set (best_candidates cs profile st)"
  shows "c \<in> set cs"
    and "d \<in> set cs \<Longrightarrow> candidate_score cs profile st c \<le> candidate_score cs profile st d + 1 / 1000000000"
proof -
  let ?m = "Min (candidate_score cs profile st ` set cs)"
  from assms show "c \<in> set cs" by (simp add: best_candidates_eq)
  from assms have "\<bar>candidate_score cs profile st c - ?m\<bar> \<le> 1 / 1000000000"
    unfolding best_candidates_eq set_filter by blast
  then have "candidate_score cs profile st c \<le> ?m + 1 / 1000000000" by linarith
  moreover assume "d \<in> set cs"
  then have "?m \<le> candidate_score cs profile st d" by simp
  ultimately show "candidate_score cs profile st c \<le> candidate_score cs profile st d + 1 / 1000000000"
    by simp
qed

lemma best_candidates_nonempty:
  assumes "cs \<noteq> []"
  shows "best_candidates cs profile st \<noteq> []"
proof -
  have "Min (candidate_score cs profile st ` set cs) \<in> candidate_score cs profile st ` set cs"
    using assms by (intro Min_in) auto
  then obtain c where "c \<in> set cs"
    "Min (candidate_score cs profile st ` set cs) = candidate_score cs profile st c" by auto
  then have "c \<in> set (best_candidates cs profile st)" by (simp add: best_candidates_eq)
  then show ?thesis by auto
qed

lemma select_one_cases:
  shows "filter_candidates cs st = [] \<Longrightarrow>
      select_one_candidate cs profile st n = Inl (RuntimeError ''no available scheduler candidates'')"
    and "filter_candidates cs st \<noteq> [] \<Longrightarrow> \<exists>c \<in> set (best_candidates (filter_candidates cs st) profile st).
      select_one_candidate cs profile st n = Inr c"
proof -
  show "filter_candidates cs st = [] \<Longrightarrow>
      select_one_candidate cs profile st n = Inl (RuntimeError ''no available scheduler candidates'')"
    by (simp add: select_one_candidate_def)
  assume ne: "filter_candidates cs st \<noteq> []"
  let ?best = "best_candidates (filter_candidates cs st) profile st"
  let ?o = "sort_key candidate_order ?best"
  have best: "?best \<noteq> []" using best_candidates_nonempty [OF ne] .
  then have len: "0 < length ?o" by simp
  then have "nat (n mod int (length ?o)) < length ?o"
    by (simp add: nat_less_iff)
  then have "?o ! nat (n mod int (length ?o)) \<in> set ?best" "?o ! 0 \<in> set ?best"
    using len by (metis nth_mem set_sort)+
  then show "\<exists>c \<in> set ?best. select_one_candidate cs profile st n = Inr c"
    using ne best by (auto simp: select_one_candidate_def Let_def)
qed

section \<open>The interface of a selector\<close>

text \<open>
  What the callers rely on: a choice is one of the eligible candidates, and there is one
  whenever some candidate is eligible.
\<close>

locale selector =
  fixes eligible :: "'s \<Rightarrow> 'c \<Rightarrow> bool"
    and pick :: "'c list \<Rightarrow> 's \<Rightarrow> int \<Rightarrow> py_error + 'c"
  assumes pick_sound: "pick cs s n = Inr c \<Longrightarrow> c \<in> set cs \<and> eligible s c"
    and pick_total: "c \<in> set cs \<Longrightarrow> eligible s c \<Longrightarrow> \<not> is_error (pick cs s n)"
begin

lemma pick_error_iff: "is_error (pick cs s n) \<longleftrightarrow> (\<forall>c \<in> set cs. \<not> eligible s c)"
proof
  assume "is_error (pick cs s n)"
  then show "\<forall>c \<in> set cs. \<not> eligible s c" using pick_total by blast
next
  assume none: "\<forall>c \<in> set cs. \<not> eligible s c"
  show "is_error (pick cs s n)"
  proof (rule ccontr)
    assume "\<not> is_error (pick cs s n)"
    then obtain c where "pick cs s n = Inr c" by (rule not_is_errorE)
    with none pick_sound show False by blast
  qed
qed

lemma pick_sublist:
  assumes "set cs \<subseteq> set ds" and "\<not> is_error (pick cs s n)"
  shows "\<not> is_error (pick ds s n)"
  using assms pick_error_iff by (metis subsetD)

end

lemma filter_candidates_iff: "c \<in> set (filter_candidates cs st) \<longleftrightarrow> c \<in> set cs \<and> candidate_ok st c"
  by (auto simp: filter_candidates_def)

interpretation sel: selector candidate_ok "\<lambda>cs st n. select_one_candidate cs profile st n"
  for profile :: strategy_profile
proof unfold_locales
  fix cs st n c
  assume "select_one_candidate cs profile st n = Inr c"
  then have "c \<in> set (filter_candidates cs st)"
    using select_one_cases [of cs st profile n] in_best_candidates(1) by (metis sum.inject(2) sum.distinct(1))
  then show "c \<in> set cs \<and> candidate_ok st c" by (simp add: filter_candidates_iff)
next
  fix c cs st n
  assume "c \<in> set cs" "candidate_ok st c"
  then have "filter_candidates cs st \<noteq> []" by (auto simp: filter_candidates_def filter_empty_conv)
  then show "\<not> is_error (select_one_candidate cs profile st n)"
    using select_one_cases(2) [of cs st profile n] by auto
qed

section \<open>The gap between two scores\<close>

definition other_weights :: "strategy_profile \<Rightarrow> rat" where
  "other_weights profile = (\<Sum>(f, w)\<leftarrow>sp_weights profile. if f = ''recent_failures'' then 0 else w)"

lemma sum_list_gap:
  fixes n m :: "string \<Rightarrow> rat"
  assumes "\<And>f w. (f, w) \<in> set ws \<Longrightarrow> 0 \<le> w" and "n r \<le> m r"
    and "\<And>f. n f \<le> 1" "\<And>f. 0 \<le> m f"
  shows "(\<Sum>(f, w)\<leftarrow>ws. w * n f) \<le> (\<Sum>(f, w)\<leftarrow>ws. w * m f) + (\<Sum>(f, w)\<leftarrow>ws. if f = r then 0 else w)"
  using assms(1)
proof (induction ws)
  case Nil
  then show ?case by simp
next
  case (Cons p ws)
  obtain f w where p: "p = (f, w)" by (cases p)
  have w: "0 \<le> w" using Cons.prems [of f w] p by simp
  have "w * n f \<le> w * m f + (if f = r then 0 else w)"
  proof (cases "f = r")
    case True
    then show ?thesis using assms(2) w by (simp add: mult_left_mono)
  next
    case False
    have "w * n f \<le> w" using assms(3) w by (simp add: mult_left_le)
    moreover have "0 \<le> w * m f" using assms(4) w by simp
    ultimately show ?thesis using False by simp
  qed
  moreover have "(\<Sum>(f, w)\<leftarrow>ws. w * n f) \<le> (\<Sum>(f, w)\<leftarrow>ws. w * m f) + (\<Sum>(f, w)\<leftarrow>ws. if f = r then 0 else w)"
    using Cons.prems by (intro Cons.IH) auto
  ultimately show ?case by (simp add: p)
qed

lemma candidate_score_gap:
  assumes wf: "dwf (sp_weights profile)" and pos: "\<And>f w. (f, w) \<in> set (sp_weights profile) \<Longrightarrow> 0 \<le> w"
    and ids: "distinct (map cand_id cs)" and c: "c \<in> set cs" and d: "d \<in> set cs"
    and clean: "raw_feature_value c ''recent_failures'' st \<le> 0"
    and failing: "1 \<le> raw_feature_value d ''recent_failures'' st"
    and pen: "other_weights profile + 1 / 1000000000 < sp_failure_penalty profile"
    and nonneg: "0 \<le> sp_failure_penalty profile"
  shows "candidate_score cs profile st c + 1 / 1000000000 < candidate_score cs profile st d"
proof -
  have "feature_norm cs st ''recent_failures'' c \<le> feature_norm cs st ''recent_failures'' d"
    by (rule feature_norm_mono [OF ids c d]) (use clean failing in \<open>auto simp: HIGHER_IS_BETTER_def\<close>)
  then have "weighted_sum profile cs st c \<le> weighted_sum profile cs st d + other_weights profile"
    unfolding weighted_sum_def other_weights_def
    by (intro sum_list_gap [where n = "\<lambda>f. feature_norm cs st f c" and m = "\<lambda>f. feature_norm cs st f d"])
      (use pos in \<open>auto simp: feature_norm_bounds\<close>)
  moreover have "sp_failure_penalty profile * 1 \<le>
      sp_failure_penalty profile * max 0 (raw_feature_value d ''recent_failures'' st)"
    using failing nonneg by (intro mult_left_mono) auto
  moreover have "max 0 (raw_feature_value c ''recent_failures'' st) = 0" using clean by simp
  ultimately show ?thesis
    using pen by (simp add: candidate_score_def score_candidate_sum [OF wf])
qed

lemma strict_profiles:
  assumes "profile \<in> {SERVICE_DEFAULT, SERVICE_LATENCY_FIRST, JOBQUEUE_DEFAULT}"
  shows "dwf (sp_weights profile)" "(f, w) \<in> set (sp_weights profile) \<Longrightarrow> 0 \<le> w"
    "other_weights profile + 1 / 1000000000 < sp_failure_penalty profile"
    "0 \<le> sp_failure_penalty profile"
  using assms
  by (auto simp: SERVICE_DEFAULT_def SERVICE_LATENCY_FIRST_def JOBQUEUE_DEFAULT_def dwf_def other_weights_def)

section \<open>Properties of the scheduler\<close>

text \<open>
  C8: selection is total and near-optimal. \<open>select_one_candidate\<close> raises exactly when no
  candidate passes the filter, with the documented message; otherwise it returns a candidate
  of the list that passes every filter condition (not disabled, healthy, schedulable, not
  draining, breaker not open, some worker) and whose score is within 1e-9 of every other
  eligible candidate's.
\<close>
theorem select_one_candidate_optimal:
  "(case select_one_candidate cs profile st n of
      Inl e \<Rightarrow> e = RuntimeError ''no available scheduler candidates'' \<and> (\<forall>c \<in> set cs. \<not> candidate_ok st c)
    | Inr c \<Rightarrow> c \<in> set cs \<and> candidate_ok st c \<and>
        (\<forall>d \<in> set cs. candidate_ok st d \<longrightarrow>
           candidate_score (filter_candidates cs st) profile st c
             \<le> candidate_score (filter_candidates cs st) profile st d + 1 / 1000000000))"
proof (cases "filter_candidates cs st = []")
  case True
  then show ?thesis
    using select_one_cases(1) [OF True] by (auto simp: filter_candidates_def filter_empty_conv)
next
  case False
  then obtain c where "c \<in> set (best_candidates (filter_candidates cs st) profile st)"
    "select_one_candidate cs profile st n = Inr c"
    using select_one_cases(2) by blast
  then show ?thesis
    using in_best_candidates [of c "filter_candidates cs st" profile st]
    by (auto simp: filter_candidates_iff)
qed

definition sample_candidate :: "string \<Rightarrow> rat \<Rightarrow> int \<Rightarrow> scheduler_candidate" where
  "sample_candidate i busy fails = \<lparr>cand_id = i, cand_kind = ''service'', cand_node_id = ''n'',
     cand_node_instance_id = i, cand_healthy = True, cand_schedulable = True, cand_drain = False,
     cand_breaker_state = ''closed'', cand_predicted_busy = busy, cand_node_inflight = 0,
     cand_alive_workers = 2, cand_worker_capacity = 4, cand_credit = 0, cand_recent_failures = fails,
     cand_metadata = []\<rparr>"

definition sample_state :: scheduler_state where
  "sample_state = \<lparr>local_inflight_by_candidate = [], disabled_candidates = [], recent_submit_failures = []\<rparr>"

lemma sample_candidate_sels [simp]:
  "cand_id (sample_candidate i b f) = i" "cand_node_instance_id (sample_candidate i b f) = i"
  "candidate_ok sample_state (sample_candidate i b f)"
  by (simp_all add: sample_candidate_def sample_state_def candidate_ok_def lower_def lower_char_def
      strip_def strip_by_def py_space_def)

theorem select_one_candidate_optimal_witness:
  "\<exists>c. select_one_candidate [sample_candidate ''a'' 1 0, sample_candidate ''b'' 0 0] SERVICE_DEFAULT sample_state 0 = Inr c
     \<and> candidate_ok sample_state c"
  using select_one_candidate_optimal [where cs = "[sample_candidate ''a'' 1 0, sample_candidate ''b'' 0 0]"
      and profile = SERVICE_DEFAULT and st = sample_state and n = 0]
  by (auto split: sum.splits)

text \<open>
  the round-robin tie break is fair. With the tie break \<open>round_robin\<close> and an eligible
  candidate, as the caller's counter runs through as many consecutive values as there are
  best candidates, from any start, every best candidate is chosen exactly once.
\<close>
theorem select_round_robin_fair:
  assumes "sp_tie_break profile = ''round_robin''" and "filter_candidates cs st \<noteq> []"
  shows "mset (map (\<lambda>i. select_one_candidate cs profile st (n + int i))
        [0..<length (best_candidates (filter_candidates cs st) profile st)])
      = mset (map Inr (best_candidates (filter_candidates cs st) profile st))"
proof -
  define best where "best = best_candidates (filter_candidates cs st) profile st"
  let ?o = "sort_key candidate_order best"
  let ?L = "length best"
  have ne: "best \<noteq> []" using best_candidates_nonempty [OF assms(2)] by (simp add: best_def)
  then have L: "0 < ?L" by simp
  have idx: "nat ((n + int i) mod int ?L) = (nat (n mod int ?L) + i) mod ?L" for i
  proof -
    have "int ((nat (n mod int ?L) + i) mod ?L) = (n mod int ?L + int i) mod int ?L"
      using L by (simp add: zmod_int)
    also have "\<dots> = (n + int i) mod int ?L" by (simp add: mod_add_left_eq)
    finally show ?thesis by (metis nat_int)
  qed
  have "select_one_candidate cs profile st (n + int i) = Inr (?o ! ((nat (n mod int ?L) + i) mod ?L))" for i
    using assms(1,2) ne by (simp add: select_one_candidate_def Let_def best_def [symmetric] idx)
  then have "map (\<lambda>i. select_one_candidate cs profile st (n + int i)) [0..<?L] =
      map Inr (map (\<lambda>i. ?o ! ((nat (n mod int ?L) + i) mod ?L)) [0..<?L])" by simp
  also have "map (\<lambda>i. ?o ! ((nat (n mod int ?L) + i) mod ?L)) [0..<?L] = rotate (nat (n mod int ?L)) ?o"
    by (rule nth_equalityI) (auto simp: nth_rotate)
  finally have "mset (map (\<lambda>i. select_one_candidate cs profile st (n + int i)) [0..<?L]) =
      image_mset Inr (mset (rotate (nat (n mod int ?L)) ?o))" by simp
  also have "mset (rotate (nat (n mod int ?L)) ?o) = mset best"
    by (simp add: mset_rotate)
  finally show ?thesis by (simp add: best_def)
qed

theorem select_round_robin_fair_witness:
  "mset (map (\<lambda>i. select_one_candidate [sample_candidate ''a'' 1 0, sample_candidate ''b'' 1 0] SERVICE_DEFAULT
        sample_state (5 + int i)) [0..<2])
     = mset [Inr (sample_candidate ''a'' 1 0), Inr (sample_candidate ''b'' 1 0)]"
proof -
  let ?cs = "[sample_candidate ''a'' 1 0, sample_candidate ''b'' 1 0]"
  have f: "filter_candidates ?cs sample_state = ?cs" by (simp add: filter_candidates_def)
  have b: "best_candidates ?cs SERVICE_DEFAULT sample_state = ?cs" by code_simp
  have "sp_tie_break SERVICE_DEFAULT = ''round_robin''" by (simp add: SERVICE_DEFAULT_def)
  moreover have "filter_candidates ?cs sample_state \<noteq> []" by (simp add: f)
  ultimately show ?thesis
    using select_round_robin_fair [where cs = ?cs and profile = SERVICE_DEFAULT and st = sample_state and n = 5]
    by (simp add: f b numeral_2_eq_2)
qed

text \<open>
  a failing candidate loses to a clean one. Under the service and job-queue profiles, when
  the candidates have distinct ids, a candidate with at least one recent failure is never
  chosen while an eligible candidate without failures exists: the failure penalty outweighs
  every other weighted feature together.
\<close>
theorem select_avoids_failing:
  assumes "profile \<in> {SERVICE_DEFAULT, SERVICE_LATENCY_FIRST, JOBQUEUE_DEFAULT}"
    and "distinct (map cand_id cs)"
    and "c \<in> set cs" and "candidate_ok st c" and "raw_feature_value c ''recent_failures'' st \<le> 0"
    and "select_one_candidate cs profile st n = Inr d"
  shows "raw_feature_value d ''recent_failures'' st < 1"
proof (rule ccontr)
  assume "\<not> raw_feature_value d ''recent_failures'' st < 1"
  then have failing: "1 \<le> raw_feature_value d ''recent_failures'' st" by simp
  let ?f = "filter_candidates cs st"
  have c: "c \<in> set ?f" using assms(3,4) by (simp add: filter_candidates_iff)
  then have d: "d \<in> set (best_candidates ?f profile st)"
    using select_one_cases(2) [of cs st profile n] assms(6) by fastforce
  have ids: "distinct (map cand_id ?f)"
    using assms(2) unfolding filter_candidates_def by (rule distinct_map_filter)
  have "candidate_score ?f profile st c + 1 / 1000000000 < candidate_score ?f profile st d"
    using strict_profiles [OF assms(1)] ids c in_best_candidates(1) [OF d] assms(5) failing
    by (intro candidate_score_gap)
  with in_best_candidates(2) [OF d c] show False by linarith
qed

theorem select_avoids_failing_witness:
  "raw_feature_value (sample_candidate ''b'' 5 0) ''recent_failures'' sample_state < 1"
proof (rule select_avoids_failing [where profile = SERVICE_DEFAULT and n = 0 and c = "sample_candidate ''b'' 5 0"
      and cs = "[sample_candidate ''a'' 0 1, sample_candidate ''b'' 5 0]"])
  show "select_one_candidate [sample_candidate ''a'' 0 1, sample_candidate ''b'' 5 0] SERVICE_DEFAULT sample_state 0
      = Inr (sample_candidate ''b'' 5 0)" by code_simp
  show "raw_feature_value (sample_candidate ''b'' 5 0) ''recent_failures'' sample_state \<le> 0" by code_simp
qed simp_all

text \<open>The task-pool profiles give no such guarantee: their weights exceed the penalty.\<close>

lemma taskpool_default_may_choose_failing:
  "select_one_candidate
     [sample_candidate ''a'' 0 1, (sample_candidate ''b'' 5 0)\<lparr>cand_node_inflight := 9, cand_alive_workers := 1,
        cand_worker_capacity := 1\<rparr>]
     TASKPOOL_DEFAULT (sample_state\<lparr>local_inflight_by_candidate := [(''b'', 3)]\<rparr>) 0
   = Inr (sample_candidate ''a'' 0 1)"
  by code_simp

end
