(* ===== verification/Breaker.thy ===== *)
theory Breaker
  imports Prelude
begin

text \<open>
  Failure classification and the candidate circuit breaker,
  \<open>src/src/pycloud_parallel/execution/failover.py\<close>. The breaker is the per-candidate state
  machine closed / open / half_open; every operation takes the instant the code reads from
  the monotonic clock as an argument and returns the updated state.
\<close>

section \<open>Failure kinds\<close>

definition ROUTE_UNAVAILABLE :: string where "ROUTE_UNAVAILABLE = ''ROUTE_UNAVAILABLE''"
definition STAGING_FAILED :: string where "STAGING_FAILED = ''STAGING_FAILED''"
definition STATUS_LOOKUP_FAILED :: string where "STATUS_LOOKUP_FAILED = ''STATUS_LOOKUP_FAILED''"
definition CONTROLPLANE_UNAVAILABLE :: string where "CONTROLPLANE_UNAVAILABLE = ''CONTROLPLANE_UNAVAILABLE''"
definition SUBMIT_FAILED :: string where "SUBMIT_FAILED = ''SUBMIT_FAILED''"
definition REMOTE_INFRA_FAILED :: string where "REMOTE_INFRA_FAILED = ''REMOTE_INFRA_FAILED''"
definition REMOTE_USER_FAILED :: string where "REMOTE_USER_FAILED = ''REMOTE_USER_FAILED''"

lemmas failure_kind_defs = ROUTE_UNAVAILABLE_def STAGING_FAILED_def STATUS_LOOKUP_FAILED_def
  CONTROLPLANE_UNAVAILABLE_def SUBMIT_FAILED_def REMOTE_INFRA_FAILED_def REMOTE_USER_FAILED_def

text \<open>An exception is its \<open>str\<close> and, where it has a dict \<open>data\<close> attribute, that dict.\<close>

record service_exception =
  exc_message :: string
  exc_data :: "(string, string) dict option"

definition join_nonempty :: "string list \<Rightarrow> string" where
  "join_nonempty parts = (case filter (\<lambda>p. p \<noteq> []) parts of [] \<Rightarrow> []
     | p # ps \<Rightarrow> p @ concat (map (\<lambda>q. '' '' @ q) ps))"

definition classify_service_error :: "service_exception \<Rightarrow> bool \<Rightarrow> string" where
  "classify_service_error exc route_failure =
    (let stripped = strip (exc_message exc);
         message = (case exc_data exc of None \<Rightarrow> stripped
           | Some data \<Rightarrow> join_nonempty [stripped, dget_or data ''error_type'' [], dget_or data ''error'' []]);
         lowered = lower message
     in if route_failure then ROUTE_UNAVAILABLE
        else if contains ''dependencyerror'' lowered \<or> contains ''failed_dependency'' lowered
          \<or> contains ''dependency runtime error'' lowered then REMOTE_INFRA_FAILED
        else if contains ''usererror'' lowered \<or> contains ''failed_user'' lowered
          \<or> contains ''user error'' lowered then REMOTE_USER_FAILED
        else if contains ''infraerror'' lowered \<or> contains ''failed_infra'' lowered
          \<or> contains ''infra failure'' lowered then REMOTE_INFRA_FAILED
        else CONTROLPLANE_UNAVAILABLE)"

definition classify_task_result_status :: "string \<Rightarrow> string" where
  "classify_task_result_status status_name =
    (let normalized = upper (strip status_name) in
     if normalized \<in> {''FAILED_INFRA'', ''FAILED_DEPENDENCY''} then REMOTE_INFRA_FAILED
     else if normalized = ''FAILED_USER'' then REMOTE_USER_FAILED
     else [])"

definition should_failover :: "string \<Rightarrow> bool \<Rightarrow> bool" where
  "should_failover failure_kind has_alternative_candidate =
    (if \<not> has_alternative_candidate then False
     else upper (strip failure_kind) \<in> {ROUTE_UNAVAILABLE, STAGING_FAILED, STATUS_LOOKUP_FAILED,
       CONTROLPLANE_UNAVAILABLE, SUBMIT_FAILED, REMOTE_INFRA_FAILED})"

definition should_degrade :: "string \<Rightarrow> bool \<Rightarrow> bool \<Rightarrow> bool" where
  "should_degrade failure_kind has_cached_candidate requires_route_aware_staging =
    (if upper (strip failure_kind) = STATUS_LOOKUP_FAILED
     then if requires_route_aware_staging then has_cached_candidate else True
     else False)"

section \<open>The breaker\<close>

record breaker =
  br_state :: string
  br_consecutive_failures :: int
  br_disabled_until :: instant
  br_open_count :: int
  br_probe_in_flight :: bool
  br_last_error :: string
  br_last_failure_kind :: string

definition fresh_breaker :: breaker where
  "fresh_breaker = \<lparr>br_state = ''closed'', br_consecutive_failures = 0, br_disabled_until = 0,
     br_open_count = 0, br_probe_in_flight = False, br_last_error = [], br_last_failure_kind = []\<rparr>"

definition mark_candidate_success :: "breaker \<Rightarrow> breaker" where
  "mark_candidate_success b = b\<lparr>br_state := ''closed'', br_consecutive_failures := 0,
     br_disabled_until := 0, br_open_count := 0, br_probe_in_flight := False,
     br_last_error := [], br_last_failure_kind := []\<rparr>"

text \<open>\<open>2.0 ** exp\<close> raises \<open>OverflowError\<close> from the exponent 1024 on.\<close>

definition cooldown :: "int \<Rightarrow> rat \<Rightarrow> rat \<Rightarrow> py_error + rat" where
  "cooldown open_count cooldown_sec max_cooldown_sec =
    (let exponent = max 0 (open_count - 1) in
     if 1024 \<le> exponent then Inl (OverflowError ''Numerical result out of range'')
     else
       let value = max (1 / 10) cooldown_sec * 2 ^ nat exponent
       in Inr (min (max (1 / 10) max_cooldown_sec) value))"

definition open_breaker :: "instant \<Rightarrow> rat \<Rightarrow> rat \<Rightarrow> breaker \<Rightarrow> breaker \<times> py_error option" where
  "open_breaker now cooldown_sec max_cooldown_sec b =
    (let b1 = b\<lparr>br_state := ''open'', br_open_count := br_open_count b + 1\<rparr> in
     case cooldown (br_open_count b1) (max (1 / 10) (num_or cooldown_sec (1 / 10)))
       (max (1 / 10) (num_or max_cooldown_sec (num_or cooldown_sec (1 / 10)))) of
       Inl e \<Rightarrow> (b1, Some e)
     | Inr d \<Rightarrow> (b1\<lparr>br_disabled_until := now + d\<rparr>, None))"

definition mark_candidate_failure ::
  "string \<Rightarrow> string \<Rightarrow> int \<Rightarrow> rat \<Rightarrow> rat \<Rightarrow> instant \<Rightarrow> breaker \<Rightarrow> breaker \<times> py_error option" where
  "mark_candidate_failure failure_kind error failure_threshold cooldown_sec max_cooldown_sec now b =
    (let b1 = b\<lparr>br_last_failure_kind := failure_kind, br_last_error := error\<rparr>;
         b2 = (if br_state b1 = ''half_open''
           then b1\<lparr>br_consecutive_failures := max (br_consecutive_failures b1) (num_or failure_threshold 1)\<rparr>
           else if br_state b1 = ''closed''
           then b1\<lparr>br_consecutive_failures := br_consecutive_failures b1 + 1\<rparr>
           else b1);
         b3 = b2\<lparr>br_probe_in_flight := False\<rparr>
     in if br_consecutive_failures b3 < max 1 (num_or failure_threshold 1) then (b3, None)
        else open_breaker now cooldown_sec max_cooldown_sec b3)"

definition candidate_allowed :: "instant \<Rightarrow> breaker \<Rightarrow> breaker \<times> bool" where
  "candidate_allowed current b =
    (if br_state b = ''open'' \<and> \<not> br_disabled_until b \<le> current then (b, False)
     else
       let b1 = (if br_state b = ''open'' then b\<lparr>br_state := ''half_open'', br_probe_in_flight := False\<rparr>
                 else b)
       in if br_state b1 = ''half_open'' \<and> br_probe_in_flight b1 then (b1, False) else (b1, True))"

definition before_probe :: "instant \<Rightarrow> breaker \<Rightarrow> breaker \<times> bool" where
  "before_probe current b =
    (case candidate_allowed current b of
       (b1, allowed) \<Rightarrow>
         if \<not> allowed then (b1, False)
         else if br_state b1 = ''half_open''
         then if br_probe_in_flight b1 then (b1, False) else (b1\<lparr>br_probe_in_flight := True\<rparr>, True)
         else (b1, True))"

section \<open>The breaker as a state machine\<close>

datatype breaker_event =
    Success
  | Failure string string instant
  | Allowed instant
  | Probe instant

record breaker_config =
  cfg_threshold :: int
  cfg_cooldown :: rat
  cfg_max_cooldown :: rat

fun breaker_step :: "breaker_config \<Rightarrow> breaker_event \<Rightarrow> breaker \<Rightarrow> breaker" where
  "breaker_step cfg Success b = mark_candidate_success b"
| "breaker_step cfg (Failure kind err now) b =
     fst (mark_candidate_failure kind err (cfg_threshold cfg) (cfg_cooldown cfg) (cfg_max_cooldown cfg) now b)"
| "breaker_step cfg (Allowed now) b = fst (candidate_allowed now b)"
| "breaker_step cfg (Probe now) b = fst (before_probe now b)"

inductive breaker_reachable :: "breaker_config \<Rightarrow> breaker \<Rightarrow> bool" for cfg where
  start: "breaker_reachable cfg fresh_breaker"
| step: "breaker_reachable cfg b \<Longrightarrow> breaker_reachable cfg (breaker_step cfg e b)"

definition effective_threshold :: "breaker_config \<Rightarrow> int" where
  "effective_threshold cfg = max 1 (num_or (cfg_threshold cfg) 1)"

definition breaker_ok :: "breaker_config \<Rightarrow> breaker \<Rightarrow> bool" where
  "breaker_ok cfg b \<longleftrightarrow>
     br_state b \<in> {''closed'', ''open'', ''half_open''} \<and>
     (br_probe_in_flight b \<longrightarrow> br_state b = ''half_open'') \<and>
     0 \<le> br_consecutive_failures b \<and>
     (br_state b = ''closed'' \<longrightarrow> br_consecutive_failures b < effective_threshold cfg \<and>
        br_open_count b = 0 \<and> br_disabled_until b = 0) \<and>
     (br_state b \<noteq> ''closed'' \<longrightarrow> effective_threshold cfg \<le> br_consecutive_failures b \<and>
        1 \<le> br_open_count b)"

lemma success_ok [invs]: "breaker_ok cfg (mark_candidate_success b)"
  by (simp add: breaker_ok_def mark_candidate_success_def effective_threshold_def)

lemma open_breaker_simps [frame_simps]:
  "br_state (fst (open_breaker now c m b)) = ''open''"
  "br_open_count (fst (open_breaker now c m b)) = br_open_count b + 1"
  "br_consecutive_failures (fst (open_breaker now c m b)) = br_consecutive_failures b"
  "br_probe_in_flight (fst (open_breaker now c m b)) = br_probe_in_flight b"
  by (simp_all add: open_breaker_def Let_def split: sum.splits)

lemma failure_ok [invs]:
  assumes "breaker_ok cfg b"
  shows "breaker_ok cfg
    (fst (mark_candidate_failure kind err (cfg_threshold cfg) c m now b))"
  using assms
  by (auto simp: breaker_ok_def mark_candidate_failure_def effective_threshold_def Let_def frame_simps)

lemma allowed_ok [invs]: "breaker_ok cfg b \<Longrightarrow> breaker_ok cfg (fst (candidate_allowed now b))"
  by (auto simp: breaker_ok_def candidate_allowed_def Let_def)

lemma probe_ok [invs]: "breaker_ok cfg b \<Longrightarrow> breaker_ok cfg (fst (before_probe now b))"
  by (auto simp: breaker_ok_def before_probe_def candidate_allowed_def Let_def)

lemma fresh_ok [invs]: "breaker_ok cfg fresh_breaker"
  by (simp add: breaker_ok_def fresh_breaker_def effective_threshold_def)

section \<open>The interface of a circuit breaker\<close>

text \<open>
  What the route caches rely on: a breaker answers whether a call may go out now
  (\<open>admit\<close>), grants the call (\<open>probe\<close>) exactly then, and asking changes nothing for later
  questions. \<open>scan\<close> is a cache's pass over its routes: every route with a breaker is asked.
\<close>

definition blocked :: "instant \<Rightarrow> breaker \<Rightarrow> bool" where
  "blocked now b \<longleftrightarrow> (br_state b = ''open'' \<and> now < br_disabled_until b) \<or>
     (br_state b = ''half_open'' \<and> br_probe_in_flight b)"

locale circuit_breaker =
  fixes fresh :: 'b
    and admit :: "instant \<Rightarrow> 'b \<Rightarrow> 'b \<times> bool"
    and probe :: "instant \<Rightarrow> 'b \<Rightarrow> 'b \<times> bool"
    and succeed :: "'b \<Rightarrow> 'b"
    and shut :: "instant \<Rightarrow> 'b \<Rightarrow> bool"
  assumes admit_iff: "snd (admit t b) \<longleftrightarrow> \<not> shut t b"
    and probe_iff: "snd (probe t b) \<longleftrightarrow> \<not> shut t b"
    and admit_keeps: "t \<le> t' \<Longrightarrow> shut t' (fst (admit t b)) = shut t' b"
    and fresh_open: "\<not> shut t fresh"
    and succeed_open: "\<not> shut t (succeed b)"
begin

fun scan :: "instant \<Rightarrow> 'k list \<Rightarrow> ('k, 'b) dict \<Rightarrow> ('k, 'b) dict \<times> 'k list" where
  "scan t [] d = (d, [])"
| "scan t (k # ks) d =
    (case dget d k of
       None \<Rightarrow> (case scan t ks d of (d', ok) \<Rightarrow> (d', k # ok))
     | Some b \<Rightarrow> (case scan t ks (dset k (fst (admit t b)) d) of
         (d', ok) \<Rightarrow> (d', if snd (admit t b) then k # ok else ok)))"

definition free_at :: "instant \<Rightarrow> ('k, 'b) dict \<Rightarrow> 'k \<Rightarrow> bool" where
  "free_at t d k \<longleftrightarrow> (case dget d k of None \<Rightarrow> True | Some b \<Rightarrow> \<not> shut t b)"

lemma free_at_admit:
  assumes "dget d k = Some b" and "t \<le> t'"
  shows "free_at t' (dset k (fst (admit t b)) d) k' = free_at t' d k'"
  using assms admit_keeps [OF assms(2)] by (simp add: free_at_def dict_simps)

lemma scan_filter: "snd (scan t ks d) = filter (free_at t d) ks"
proof (induction ks arbitrary: d)
  case Nil
  then show ?case by simp
next
  case (Cons k ks)
  show ?case
  proof (cases "dget d k")
    case None
    then show ?thesis using Cons [of d] by (auto simp: free_at_def split: prod.splits)
  next
    case (Some b)
    have "snd (scan t ks (dset k (fst (admit t b)) d)) = filter (free_at t d) ks"
      using Cons [of "dset k (fst (admit t b)) d"] free_at_admit [OF Some order_refl]
      by (metis (mono_tags, lifting) filter_cong)
    moreover have "free_at t d k \<longleftrightarrow> snd (admit t b)" using Some by (simp add: free_at_def admit_iff)
    ultimately show ?thesis using Some by (auto split: prod.splits)
  qed
qed

lemma scan_keeps:
  assumes "t \<le> t'"
  shows "free_at t' (fst (scan t ks d)) k = free_at t' d k"
proof (induction ks arbitrary: d)
  case Nil
  then show ?case by simp
next
  case (Cons k' ks)
  show ?case
  proof (cases "dget d k'")
    case None
    then show ?thesis using Cons [of d] by (simp add: case_prod_beta)
  next
    case (Some b)
    then show ?thesis
      using Cons [of "dset k' (fst (admit t b)) d"] free_at_admit [OF Some assms, of k]
      by (simp add: case_prod_beta)
  qed
qed

lemma probe_after_scan:
  assumes "k \<in> set (snd (scan t ks d))" and "dget (fst (scan t ks d)) k = Some b"
  shows "snd (probe t b)"
proof -
  have "free_at t d k" using assms(1) by (simp add: scan_filter)
  then have "free_at t (fst (scan t ks d)) k" by (simp add: scan_keeps)
  then show ?thesis using assms(2) by (simp add: free_at_def probe_iff)
qed

end

interpretation cb: circuit_breaker fresh_breaker candidate_allowed before_probe mark_candidate_success blocked
proof unfold_locales
  fix t t' :: instant and b :: breaker
  show "snd (candidate_allowed t b) \<longleftrightarrow> \<not> blocked t b"
    by (auto simp: candidate_allowed_def blocked_def Let_def)
  show "snd (before_probe t b) \<longleftrightarrow> \<not> blocked t b"
    by (auto simp: before_probe_def candidate_allowed_def blocked_def Let_def)
  show "blocked t' (fst (candidate_allowed t b)) = blocked t' b" if "t \<le> t'"
    using that by (auto simp: candidate_allowed_def blocked_def Let_def)
  show "\<not> blocked t fresh_breaker" by (simp add: blocked_def fresh_breaker_def)
  show "\<not> blocked t (mark_candidate_success b)" by (simp add: blocked_def mark_candidate_success_def)
qed

section \<open>Behaviour of the cooldown\<close>

lemma cooldown_eq:
  assumes "cooldown n c m = Inr d"
  shows "d = min (max (1 / 10) m) (max (1 / 10) c * 2 ^ nat (max 0 (n - 1)))"
  using assms by (simp add: cooldown_def Let_def split: if_split_asm)

lemma cooldown_bounds:
  assumes "cooldown n c m = Inr d"
  shows "1 / 10 \<le> d" and "d \<le> max (1 / 10) m"
proof -
  have "(1 / 10 :: rat) * 1 \<le> max (1 / 10) c * 2 ^ nat (max 0 (n - 1))"
    by (intro mult_mono) auto
  then show "1 / 10 \<le> d" unfolding cooldown_eq [OF assms] by (intro min.boundedI) auto
  show "d \<le> max (1 / 10) m" unfolding cooldown_eq [OF assms] by (rule min.cobounded1)
qed

lemma cooldown_mono:
  assumes "cooldown n c m = Inr d" "cooldown n' c m = Inr d'" "n \<le> n'"
  shows "d \<le> d'"
proof -
  have "max (1 / 10) c * 2 ^ nat (max 0 (n - 1)) \<le> max (1 / 10) c * (2 :: rat) ^ nat (max 0 (n' - 1))"
    using assms(3) by (intro mult_left_mono power_increasing) auto
  then show ?thesis unfolding cooldown_eq [OF assms(1)] cooldown_eq [OF assms(2)]
    by (intro min.mono order_refl)
qed

lemma open_breaker_cooldown:
  assumes "open_breaker now c m b = (b', None)"
  obtains d where "br_disabled_until b' = now + d" "1 / 10 \<le> d"
    "d \<le> max (1 / 10) (num_or m (num_or c (1 / 10)))" "br_state b' = ''open''"
proof -
  let ?c = "max (1 / 10) (num_or c (1 / 10))"
  let ?m = "max (1 / 10) (num_or m (num_or c (1 / 10)))"
  from assms obtain d where d: "cooldown (br_open_count b + 1) ?c ?m = Inr d"
    and "br_disabled_until b' = now + d" "br_state b' = ''open''"
    by (auto simp: open_breaker_def Let_def split: sum.splits)
  then show ?thesis using that cooldown_bounds [OF d] by simp
qed

lemma failure_closed:
  assumes "br_state b = ''closed''" "br_consecutive_failures b + 1 < effective_threshold cfg"
  shows "breaker_step cfg (Failure kind err now) b = b\<lparr>br_last_failure_kind := kind, br_last_error := err,
     br_consecutive_failures := br_consecutive_failures b + 1, br_probe_in_flight := False\<rparr>"
  using assms by (simp add: mark_candidate_failure_def effective_threshold_def Let_def)

lemma failure_opens:
  assumes "br_state b \<noteq> ''half_open''"
    and "effective_threshold cfg \<le> br_consecutive_failures b + (if br_state b = ''closed'' then 1 else 0)"
  shows "br_state (breaker_step cfg (Failure kind err now) b) = ''open''"
    "br_open_count (breaker_step cfg (Failure kind err now) b) = br_open_count b + 1"
    "br_consecutive_failures (breaker_step cfg (Failure kind err now) b) =
       br_consecutive_failures b + (if br_state b = ''closed'' then 1 else 0)"
  using assms by (auto simp: mark_candidate_failure_def effective_threshold_def Let_def frame_simps split: if_splits)

fun is_failure :: "breaker_event \<Rightarrow> bool" where
  "is_failure (Failure _ _ _) = True"
| "is_failure _ = False"

lemma failure_run:
  assumes "\<forall>e \<in> set es. is_failure e"
  shows "let b = fold (breaker_step cfg) es fresh_breaker; n = int (length es); th = effective_threshold cfg in
    br_state b = (if n < th then ''closed'' else ''open'') \<and>
    br_consecutive_failures b = min n th \<and> br_open_count b = max 0 (n - th + 1)"
  using assms
proof (induction es rule: rev_induct)
  case Nil
  then show ?case by (simp add: fresh_breaker_def effective_threshold_def)
next
  case (snoc e es)
  then obtain kind err now where e: "e = Failure kind err now" by (cases e) auto
  let ?b = "fold (breaker_step cfg) es fresh_breaker"
  have th: "1 \<le> effective_threshold cfg" by (simp add: effective_threshold_def)
  consider (low) "int (length es) + 1 < effective_threshold cfg"
    | (hit) "int (length es) + 1 = effective_threshold cfg"
    | (high) "effective_threshold cfg \<le> int (length es)" by linarith
  then show ?case
  proof cases
    case low
    then show ?thesis using snoc e failure_closed [of ?b cfg kind err now] by (simp add: Let_def)
  next
    case hit
    then show ?thesis using snoc e th failure_opens [of ?b cfg kind err now] by (auto simp: Let_def)
  next
    case high
    then show ?thesis using snoc e th failure_opens [of ?b cfg kind err now] by (auto simp: Let_def)
  qed
qed

lemma failure_kinds_normal:
  "upper (strip ROUTE_UNAVAILABLE) = ROUTE_UNAVAILABLE"
  "upper (strip REMOTE_INFRA_FAILED) = REMOTE_INFRA_FAILED"
  "upper (strip REMOTE_USER_FAILED) = REMOTE_USER_FAILED"
  "upper (strip CONTROLPLANE_UNAVAILABLE) = CONTROLPLANE_UNAVAILABLE"
  by code_simp+

lemma should_failover_kinds:
  "should_failover ROUTE_UNAVAILABLE a = a" "ROUTE_UNAVAILABLE \<noteq> REMOTE_USER_FAILED"
  "should_failover REMOTE_INFRA_FAILED a = a" "REMOTE_INFRA_FAILED \<noteq> REMOTE_USER_FAILED"
  "should_failover CONTROLPLANE_UNAVAILABLE a = a" "CONTROLPLANE_UNAVAILABLE \<noteq> REMOTE_USER_FAILED"
  "\<not> should_failover REMOTE_USER_FAILED a"
  by (simp_all add: should_failover_def failure_kinds_normal) (simp_all add: failure_kind_defs)

lemma classify_service_error_range:
  "classify_service_error exc r = ROUTE_UNAVAILABLE \<or> classify_service_error exc r = REMOTE_INFRA_FAILED \<or>
   classify_service_error exc r = REMOTE_USER_FAILED \<or> classify_service_error exc r = CONTROLPLANE_UNAVAILABLE"
  by (simp only: classify_service_error_def Let_def split: if_split) simp

section \<open>Properties of the breaker\<close>

text \<open>
  C20: the breaker invariant. In every state reached from a fresh breaker by successes,
  failures, availability questions and probes in any order: the state is one of the three
  names; a probe in flight implies half_open; a closed breaker is below its threshold with no
  open count and no pending cooldown; an open or half-open one has reached the threshold and
  has been opened at least once.
\<close>
theorem breaker_invariant:
  assumes "breaker_reachable cfg b"
  shows "breaker_ok cfg b"
  using assms
proof (induction rule: breaker_reachable.induct)
  case start
  then show ?case by (rule fresh_ok)
next
  case (step b e)
  then show ?case by (cases e) (simp_all add: invs)
qed

definition sample_config :: breaker_config where
  "sample_config = \<lparr>cfg_threshold = 2, cfg_cooldown = 1, cfg_max_cooldown = 30\<rparr>"

definition sample_failure :: "instant \<Rightarrow> breaker_event" where
  "sample_failure t = Failure ''SUBMIT_FAILED'' ''e'' t"

definition sample_open :: breaker where
  "sample_open = breaker_step sample_config (sample_failure 11) (breaker_step sample_config (sample_failure 10) fresh_breaker)"

theorem breaker_invariant_witness:
  "breaker_ok sample_config sample_open \<and> br_state sample_open = ''open''"
proof
  show "breaker_ok sample_config sample_open"
    unfolding sample_open_def
    by (rule breaker_invariant) (intro breaker_reachable.intros)
  show "br_state sample_open = ''open''" by code_simp
qed

text \<open>
  one probe at a time. Once a call has been granted to a half-open breaker, whatever
  availability questions and probes follow, at any instants, leave the breaker as it is and
  refuse every further call, until a success or a failure is recorded.
\<close>
theorem breaker_single_probe:
  assumes "before_probe t b = (b', True)" and "br_state b' = ''half_open''"
    and "\<forall>e \<in> set es. \<exists>u. e = Allowed u \<or> e = Probe u"
  shows "fold (breaker_step cfg) es b' = b' \<and> before_probe t' b' = (b', False)"
proof -
  have p: "br_probe_in_flight b'"
    using assms(1,2) by (auto simp: before_probe_def split: prod.splits if_splits)
  have "breaker_step cfg e b' = b'" if "e \<in> set es" for e
    using assms(2,3) p that by (auto simp: before_probe_def candidate_allowed_def Let_def)
  then have "fold (breaker_step cfg) es b' = b'" by (induction es) auto
  then show ?thesis using p assms(2) by (simp add: before_probe_def candidate_allowed_def)
qed

theorem breaker_single_probe_witness:
  "fold (breaker_step sample_config) [Allowed 13, Probe 14] (fst (before_probe 12 sample_open))
     = fst (before_probe 12 sample_open)
   \<and> before_probe 15 (fst (before_probe 12 sample_open)) = (fst (before_probe 12 sample_open), False)"
proof (rule breaker_single_probe [where t = 12 and b = sample_open])
  show "before_probe 12 sample_open = (fst (before_probe 12 sample_open), True)" by code_simp
  show "br_state (fst (before_probe 12 sample_open)) = ''half_open''" by code_simp
  show "\<forall>e \<in> set [Allowed 13, Probe 14]. \<exists>u. e = Allowed u \<or> e = Probe u" by simp
qed

text \<open>
  an opened breaker blocks for its cooldown and then recovers. When recording a failure
  opens the breaker without raising, there is a cooldown of at least 0.1 s and at most the
  configured maximum such that every question before its end is refused and changes nothing,
  and the first question at or after its end is granted and moves to half_open.
\<close>
theorem breaker_cooldown_blocks:
  assumes "mark_candidate_failure kind err th c m now b = (b', None)" and "br_state b' = ''open''"
    and "max 1 (num_or th 1) \<le> br_consecutive_failures b'"
  shows "\<exists>d. 1 / 10 \<le> d \<and> d \<le> max (1 / 10) (num_or m (num_or c (1 / 10))) \<and>
    (\<forall>t. t < now + d \<longrightarrow> candidate_allowed t b' = (b', False) \<and> before_probe t b' = (b', False)) \<and>
    (\<forall>t. now + d \<le> t \<longrightarrow> snd (before_probe t b') \<and> br_state (fst (before_probe t b')) = ''half_open'')"
proof -
  obtain b3 where "open_breaker now c m b3 = (b', None)"
    using assms(1,3) by (auto simp: mark_candidate_failure_def Let_def split: if_splits)
  then obtain d where d: "br_disabled_until b' = now + d" "1 / 10 \<le> d"
    "d \<le> max (1 / 10) (num_or m (num_or c (1 / 10)))"
    by (rule open_breaker_cooldown)
  have "candidate_allowed t b' = (b', False) \<and> before_probe t b' = (b', False)" if "t < now + d" for t
    using that assms(2) d(1) by (simp add: candidate_allowed_def before_probe_def)
  moreover have "snd (before_probe t b') \<and> br_state (fst (before_probe t b')) = ''half_open''"
    if "now + d \<le> t" for t
    using that assms(2) d(1) by (simp add: candidate_allowed_def before_probe_def Let_def)
  ultimately show ?thesis using d(2,3) by blast
qed

theorem breaker_cooldown_blocks_witness:
  "\<exists>d. 1 / 10 \<le> d \<and> d \<le> (5 :: rat) \<and>
    (\<forall>t. t < 7 + d \<longrightarrow> candidate_allowed t (fst (mark_candidate_failure ''X'' ''e'' 1 5 5 7 fresh_breaker)) =
       (fst (mark_candidate_failure ''X'' ''e'' 1 5 5 7 fresh_breaker), False))"
proof -
  let ?b = "fst (mark_candidate_failure ''X'' ''e'' 1 5 5 7 fresh_breaker)"
  have "mark_candidate_failure ''X'' ''e'' 1 5 5 7 fresh_breaker = (?b, None)" by code_simp
  moreover have "br_state ?b = ''open''" by code_simp
  moreover have "max 1 (num_or 1 1) \<le> br_consecutive_failures ?b" by code_simp
  ultimately show ?thesis
    using breaker_cooldown_blocks [of "''X''" "''e''" 1 5 5 7 fresh_breaker ?b]
    by (auto simp: num_or_def)
qed

text \<open>
  the breaker opens exactly at its threshold. After any run of failures from a fresh
  breaker, at any instants, it is closed while the run is shorter than the threshold and open
  from then on; the failure count saturates at the threshold and each further failure opens
  the breaker once more.
\<close>
theorem breaker_opens_at_threshold:
  assumes "\<forall>e \<in> set es. is_failure e"
  shows "br_state (fold (breaker_step cfg) es fresh_breaker)
        = (if int (length es) < effective_threshold cfg then ''closed'' else ''open'')
    \<and> br_consecutive_failures (fold (breaker_step cfg) es fresh_breaker) = min (int (length es)) (effective_threshold cfg)
    \<and> br_open_count (fold (breaker_step cfg) es fresh_breaker) = max 0 (int (length es) - effective_threshold cfg + 1)"
  using failure_run [OF assms, of cfg] by (simp add: Let_def)

theorem breaker_opens_at_threshold_witness:
  "br_state (fold (breaker_step sample_config) [sample_failure 10, sample_failure 11] fresh_breaker) = ''open''"
  using breaker_opens_at_threshold [of "[sample_failure 10, sample_failure 11]" sample_config]
  by (simp add: sample_failure_def sample_config_def effective_threshold_def num_or_def)

text \<open>
  a long outage makes the breaker raise. After a run of failures that is at least 1023
  longer than the threshold, with no success between, recording one more failure raises
  \<open>OverflowError\<close> from \<open>2.0 ** exp\<close>; the breaker is left open with its old deadline, which is
  not moved past the failure.
\<close>
theorem breaker_failure_overflows:
  assumes "\<forall>e \<in> set es. is_failure e" and "effective_threshold cfg + 1023 \<le> int (length es)"
    and "b = fold (breaker_step cfg) es fresh_breaker"
  shows "snd (mark_candidate_failure kind err (cfg_threshold cfg) c m now b)
        = Some (OverflowError ''Numerical result out of range'')
    \<and> br_state (fst (mark_candidate_failure kind err (cfg_threshold cfg) c m now b)) = ''open''
    \<and> br_disabled_until (fst (mark_candidate_failure kind err (cfg_threshold cfg) c m now b)) = br_disabled_until b"
proof -
  have b: "br_state b = ''open''" "br_consecutive_failures b = effective_threshold cfg" "1024 \<le> br_open_count b"
    using failure_run [OF assms(1), of cfg] assms(2,3) by (auto simp: Let_def)
  then have "\<not> br_consecutive_failures b < max 1 (num_or (cfg_threshold cfg) 1)"
    by (simp add: effective_threshold_def)
  then show ?thesis
    using b by (simp add: mark_candidate_failure_def open_breaker_def cooldown_def Let_def)
qed

theorem breaker_failure_overflows_witness:
  "snd (mark_candidate_failure ''X'' ''e'' 1 5 5 9000
     (fold (breaker_step (sample_config\<lparr>cfg_threshold := 1\<rparr>)) (replicate 1024 (sample_failure 10)) fresh_breaker))
   = Some (OverflowError ''Numerical result out of range'')"
  using breaker_failure_overflows [where es = "replicate 1024 (sample_failure 10)" and cfg = "sample_config\<lparr>cfg_threshold := 1\<rparr>"
      and kind = "''X''" and err = "''e''" and c = 5 and m = 5 and now = 9000, OF _ _ refl]
  by (simp add: sample_failure_def sample_config_def effective_threshold_def num_or_def)

text \<open>
  failover follows the classification. For every exception a service call may raise and
  every flag, failing over to another candidate is decided exactly by the existence of an
  alternative and by the failure not being the user's: user errors are never retried
  elsewhere, and every other class is.
\<close>
theorem service_failover_decision:
  "should_failover (classify_service_error exc route_failure) alternative
     \<longleftrightarrow> alternative \<and> classify_service_error exc route_failure \<noteq> REMOTE_USER_FAILED"
proof -
  consider "classify_service_error exc route_failure = ROUTE_UNAVAILABLE"
    | "classify_service_error exc route_failure = REMOTE_INFRA_FAILED"
    | "classify_service_error exc route_failure = REMOTE_USER_FAILED"
    | "classify_service_error exc route_failure = CONTROLPLANE_UNAVAILABLE"
    using classify_service_error_range [of exc route_failure] by argo
  then show ?thesis by cases (simp_all add: should_failover_kinds)
qed

end
