(* ===== verification/DataRefs.thy ===== *)
theory DataRefs
  imports Prelude
begin

text \<open>
  The large-object reference model, \<open>src/src/pycloud_parallel/data/ref.py\<close>: object ids, formats
  and storage paths, the normalising constructor of \<open>DataRef\<close> (\<open>data_ref_post_init\<close>), its payload
  form and the functions that rewrite the locator of a reference.
\<close>

section \<open>Text helpers of the standard library\<close>

definition split_on :: "char \<Rightarrow> string \<Rightarrow> string list" where
  "split_on sep s = foldr (\<lambda>c acc. if c = sep then [] # acc else (c # hd acc) # tl acc) s [[]]"

definition join_with :: "string \<Rightarrow> string list \<Rightarrow> string" where
  "join_with sep parts = (case parts of [] \<Rightarrow> [] | p # ps \<Rightarrow> p @ concat (map (\<lambda>q. sep @ q) ps))"

definition strip_chars :: "string \<Rightarrow> string \<Rightarrow> string" where
  "strip_chars cs s = strip_by (\<lambda>c. c \<in> set cs) s"

text \<open>\<open>Path(name).suffixes\<close> for a POSIX path.\<close>

definition path_name :: "string \<Rightarrow> string" where
  "path_name s = (case rev (filter (\<lambda>p. p \<noteq> [] \<and> p \<noteq> ''.'') (split_on (CHR ''/'') s)) of
     [] \<Rightarrow> [] | p # _ \<Rightarrow> p)"

definition path_suffixes :: "string \<Rightarrow> string list" where
  "path_suffixes s =
    (let name = path_name s in
     if name \<noteq> [] \<and> last name = CHR ''.'' then []
     else map (\<lambda>p. CHR ''.'' # p) (tl (split_on (CHR ''.'') (dropWhile (\<lambda>c. c = CHR ''.'') name))))"

section \<open>Object ids, formats and paths\<close>

definition DATA_REF_SENTINEL :: string where
  "DATA_REF_SENTINEL = ''__pycloud_data_ref__''"

definition MATERIALIZE_PREFS :: "string list" where
  "MATERIALIZE_PREFS = [''auto'', ''path'', ''dataframe'', ''series'', ''ndarray'', ''json'', ''bytes'', ''text'']"

definition hex_char :: "char \<Rightarrow> bool" where
  "hex_char c \<longleftrightarrow> c \<in> set ''0123456789abcdef''"

definition object_id_re :: "string \<Rightarrow> bool" where
  "object_id_re s \<longleftrightarrow> take 7 s = ''sha256:'' \<and> length (drop 7 s) = 64 \<and> list_all hex_char (drop 7 s)"

definition normalize_object_id :: "string \<Rightarrow> py_error + string" where
  "normalize_object_id object_id =
    (let txt = lower (strip object_id) in
     if txt = [] then Inl (ValueError ''DataRef object reference requires object_id'')
     else if \<not> object_id_re txt then Inl (ValueError ''invalid object_id'')
     else Inr txt)"

definition object_id_from_sha256_hex :: "string \<Rightarrow> py_error + string" where
  "object_id_from_sha256_hex digest =
    (let hex_text = lower (strip digest) in
     if length hex_text \<noteq> 64 \<or> \<not> list_all hex_char hex_text
     then Inl (ValueError ''invalid sha256 digest'')
     else Inr (''sha256:'' @ hex_text))"

text \<open>The characters outside the class of \<open>_OBJECT_FORMAT_RE\<close>, and its substitution by one underscore per run.\<close>

definition format_char :: "char \<Rightarrow> bool" where
  "format_char c \<longleftrightarrow> (let n = (of_char c :: nat) in
     (65 \<le> n \<and> n \<le> 90) \<or> (97 \<le> n \<and> n \<le> 122) \<or> (48 \<le> n \<and> n \<le> 57) \<or> c \<in> set ''._-'')"

fun format_sub :: "bool \<Rightarrow> string \<Rightarrow> string" where
  "format_sub in_run [] = []"
| "format_sub in_run (c # cs) =
    (if format_char c then c # format_sub False cs
     else if in_run then format_sub True cs
     else CHR ''_'' # format_sub True cs)"

definition normalize_object_format :: "string \<Rightarrow> string \<Rightarrow> string \<Rightarrow> string" where
  "normalize_object_format fmt source_name dflt =
    (let txt = dropWhile (\<lambda>c. c = CHR ''.'') (lower (strip fmt)) in
     if txt \<noteq> [] then str_or (strip_chars ''._'' (format_sub False txt)) (str_or dflt ''bin'')
     else
       let suffixes = map (\<lambda>p. lower (dropWhile (\<lambda>c. c = CHR ''.'') p)) (path_suffixes source_name) in
       if suffixes \<noteq> []
       then str_or (strip_chars ''._'' (format_sub False (join_with ''.'' suffixes))) (str_or dflt ''bin'')
       else str_or (lower (strip (str_or dflt ''bin''))) ''bin'')"

definition object_format_suffix :: "string \<Rightarrow> string" where
  "object_format_suffix fmt =
    (let normalized = normalize_object_format fmt [] ''bin'' in
     if normalized \<noteq> [] then CHR ''.'' # normalized else [])"

text \<open>The path below the base directory: directory and file name.\<close>

definition object_storage_path :: "string \<Rightarrow> string \<Rightarrow> py_error + string \<times> string" where
  "object_storage_path object_id fmt =
    (case normalize_object_id object_id of
       Inl e \<Rightarrow> Inl e
     | Inr normalized_id \<Rightarrow>
         (let digest = drop 7 normalized_id
          in Inr (take 2 digest, drop 2 digest @ object_format_suffix fmt)))"

definition normalize_data_ref_id :: "string \<Rightarrow> py_error + string" where
  "normalize_data_ref_id rid =
    (if strip rid = [] then Inl (ValueError ''DataRef payload requires ref_id'') else Inr (strip rid))"

definition normalize_data_ref_materialize_as :: "string \<Rightarrow> string \<Rightarrow> py_error + string" where
  "normalize_data_ref_materialize_as v dflt =
    (let t0 = lower (strip v);
         txt = (if t0 = [] then str_or (lower (strip (str_or dflt ''auto''))) ''auto'' else t0)
     in if txt \<notin> set MATERIALIZE_PREFS then Inl (ValueError ''unsupported data ref materialize_as'') else Inr txt)"

definition normalize_storage_id :: "string \<Rightarrow> string \<Rightarrow> py_error + string" where
  "normalize_storage_id storage_id fallback =
    (let txt = strip (str_or storage_id fallback) in
     if txt = [] then Inl (ValueError ''DataRef payload requires storage_id'')
     else if take 7 txt = ''sha256:'' then normalize_object_id txt
     else Inr txt)"

definition infer_logical_type :: "string \<Rightarrow> string \<Rightarrow> string \<Rightarrow> py_error + string" where
  "infer_logical_type logical_type fmt materialize_as =
    (let normalized = lower (strip logical_type) in
     if normalized \<noteq> [] then Inr normalized
     else
       let nf = normalize_object_format fmt [] ''bin'' in
       case normalize_data_ref_materialize_as materialize_as ''auto'' of
         Inl e \<Rightarrow> Inl e
       | Inr nm \<Rightarrow>
           (if nm \<noteq> ''auto'' then
              (if nm = ''path'' then Inr (if nf \<in> {''zip'', ''tar.gz'', ''whl''} then ''archive'' else ''file'')
               else if nm = ''text'' then Inr ''text''
               else Inr nm)
            else if nf = ''dfbundle'' then Inr ''dataframe''
            else if nf = ''seriesbundle'' then Inr ''series''
            else if nf = ''npy'' then Inr ''ndarray''
            else if nf = ''json'' then Inr ''json''
            else if nf \<in> {''txt'', ''text'', ''log'', ''md'', ''sql''} then Inr ''text''
            else if nf \<in> {''zip'', ''tar.gz'', ''whl''} then Inr ''archive''
            else Inr ''bytes''))"

section \<open>The constructor\<close>

definition data_ref_post_init :: "data_ref \<Rightarrow> py_error + data_ref" where
  "data_ref_post_init r =
    ebind (normalize_data_ref_id (str_or (ref_id r) (ref_storage_id r))) (\<lambda>rid.
    ebind (normalize_storage_id (ref_storage_id r) rid) (\<lambda>sid.
    let fmt = normalize_object_format (ref_format r) [] ''bin'' in
    ebind (normalize_data_ref_materialize_as (ref_materialize_as r) ''auto'') (\<lambda>mat.
    let kind0 = str_or (lower (strip (str_or (ref_locator_kind r) ''controlplane''))) ''controlplane'';
        addr = strip (ref_control_addr r);
        token = strip (str_or (ref_locator_token r) addr);
        kind = (if addr \<noteq> [] \<and> kind0 = ''controlplane'' then ''node_control'' else kind0) in
    ebind (infer_logical_type (ref_logical_type r) fmt mat) (\<lambda>lt.
    Inr \<lparr>ref_id = rid, ref_storage_id = sid, ref_logical_type = lt, ref_format = fmt,
          ref_size_bytes = max 0 (ref_size_bytes r), ref_materialize_as = mat, ref_locator_kind = kind,
          ref_locator_token = token, ref_consume_on_read = ref_consume_on_read r,
          ref_node_id = strip (ref_node_id r), ref_node_instance_id = strip (ref_node_instance_id r),
          ref_control_addr = (if kind = ''node_control'' then str_or addr token else addr)\<rparr>))))"

definition data_ref_object_id :: "data_ref \<Rightarrow> py_error + string" where
  "data_ref_object_id r = normalize_storage_id (ref_storage_id r) (ref_id r)"

definition data_ref_to_payload :: "data_ref \<Rightarrow> pyval" where
  "data_ref_to_payload r = PDict [(DATA_REF_SENTINEL, PDict [
     (''ref_id'', PStr (ref_id r)), (''storage_id'', PStr (ref_storage_id r)),
     (''logical_type'', PStr (ref_logical_type r)), (''format'', PStr (ref_format r)),
     (''size_bytes'', PInt (ref_size_bytes r)), (''materialize_as'', PStr (ref_materialize_as r)),
     (''locator_kind'', PStr (ref_locator_kind r)), (''locator_token'', PStr (ref_locator_token r)),
     (''consume_on_read'', PBool (ref_consume_on_read r)), (''node_id'', PStr (ref_node_id r)),
     (''node_instance_id'', PStr (ref_node_instance_id r)), (''control_addr'', PStr (ref_control_addr r))])]"

definition is_data_ref_payload :: "pyval \<Rightarrow> bool" where
  "is_data_ref_payload v = (case v of
     PDict [(k, PDict _)] \<Rightarrow> k = DATA_REF_SENTINEL | _ \<Rightarrow> False)"

definition data_ref_from_payload :: "(pyval \<Rightarrow> string) \<Rightarrow> pyval \<Rightarrow> py_error + data_ref" where
  "data_ref_from_payload rep v = (case v of
     PDict [(k, PDict p)] \<Rightarrow>
       (if k \<noteq> DATA_REF_SENTINEL then Inl (OtherError ''DataRefPayloadError'')
        else case py_int (val_or (dget_or p ''size_bytes'' (PInt 0)) (PInt 0)) of
          Inl e \<Rightarrow> Inl e
        | Inr sz \<Rightarrow> data_ref_post_init \<lparr>
            ref_id = str_or (get_str rep p ''ref_id'') (get_str rep p ''storage_id''),
            ref_storage_id = str_or (get_str rep p ''storage_id'') (get_str rep p ''ref_id''),
            ref_logical_type = get_str rep p ''logical_type'',
            ref_format = get_str rep p ''format'',
            ref_size_bytes = sz,
            ref_materialize_as = str_or (get_str rep p ''materialize_as'') ''auto'',
            ref_locator_kind = str_or (get_str rep p ''locator_kind'') ''controlplane'',
            ref_locator_token = get_str rep p ''locator_token'',
            ref_consume_on_read = truthy (dget_or p ''consume_on_read'' (PBool False)),
            ref_node_id = get_str rep p ''node_id'',
            ref_node_instance_id = get_str rep p ''node_instance_id'',
            ref_control_addr = get_str rep p ''control_addr''\<rparr>)
   | _ \<Rightarrow> Inl (OtherError ''DataRefPayloadError''))"

definition coerce_data_ref :: "(pyval \<Rightarrow> string) \<Rightarrow> pyval \<Rightarrow> py_error + data_ref" where
  "coerce_data_ref rep v = (case v of
     PRef r \<Rightarrow> Inr r
   | PDict _ \<Rightarrow> if is_data_ref_payload v then data_ref_from_payload rep v else Inl (OtherError ''DataRefPayloadError'')
   | _ \<Rightarrow> Inl (OtherError ''DataRefPayloadError''))"

definition maybe_data_ref :: "(pyval \<Rightarrow> string) \<Rightarrow> pyval \<Rightarrow> data_ref option" where
  "maybe_data_ref rep v = (case coerce_data_ref rep v of Inl _ \<Rightarrow> None | Inr r \<Rightarrow> Some r)"

definition resolve_data_ref_materialize_as :: "data_ref \<Rightarrow> string \<Rightarrow> py_error + string" where
  "resolve_data_ref_materialize_as r dflt =
    (case normalize_data_ref_materialize_as (ref_materialize_as r) ''auto'' of
       Inl e \<Rightarrow> Inl e
     | Inr preference \<Rightarrow>
         (if preference \<noteq> ''auto'' then Inr preference
          else
            let lt = lower (strip (ref_logical_type r)) in
            if lt \<in> {''dataframe'', ''series'', ''ndarray'', ''json'', ''text''} then Inr lt
            else if lt \<in> {''file'', ''archive''} then Inr ''path''
            else if lt = ''bytes'' then Inr ''bytes''
            else normalize_data_ref_materialize_as dflt ''path''))"

section \<open>Rewriting the locator\<close>

definition as_value :: "py_error + data_ref \<Rightarrow> py_error + pyval" where
  "as_value x = (case x of Inl e \<Rightarrow> Inl e | Inr r \<Rightarrow> Inr (PRef r))"

definition with_data_ref_control_addr :: "(pyval \<Rightarrow> string) \<Rightarrow> pyval \<Rightarrow> string \<Rightarrow> py_error + pyval" where
  "with_data_ref_control_addr rep v control_addr =
    (let addr = strip control_addr in
     if addr = [] then Inr v
     else case maybe_data_ref rep v of
       None \<Rightarrow> Inr v
     | Some r \<Rightarrow> if ref_control_addr r \<noteq> [] then Inr v
         else as_value (data_ref_post_init
           (r\<lparr>ref_locator_kind := ''node_control'', ref_locator_token := addr, ref_control_addr := addr\<rparr>)))"

definition with_data_ref_locator ::
  "(pyval \<Rightarrow> string) \<Rightarrow> pyval \<Rightarrow> string \<Rightarrow> string \<Rightarrow> string \<Rightarrow> string \<Rightarrow> string \<Rightarrow> py_error + pyval" where
  "with_data_ref_locator rep v locator_kind locator_token node_id node_instance_id control_addr =
    (let kind = lower (strip locator_kind); token = strip locator_token in
     if kind = [] \<or> token = [] then Inr v
     else case maybe_data_ref rep v of
       None \<Rightarrow> Inr v
     | Some r \<Rightarrow> as_value (data_ref_post_init (r\<lparr>
         ref_locator_kind := kind, ref_locator_token := token,
         ref_node_id := strip (str_or node_id (ref_node_id r)),
         ref_node_instance_id := strip (str_or node_instance_id (ref_node_instance_id r)),
         ref_control_addr := (if kind = ''controlplane'' \<and> strip control_addr = [] then []
           else strip (str_or control_addr (ref_control_addr r)))\<rparr>)))"

definition with_data_ref_public_controlplane_locator ::
  "(pyval \<Rightarrow> string) \<Rightarrow> pyval \<Rightarrow> string \<Rightarrow> string \<Rightarrow> string \<Rightarrow> py_error + pyval" where
  "with_data_ref_public_controlplane_locator rep v locator_token node_id node_instance_id =
    (let token = strip locator_token in
     if token = [] then Inr v
     else case maybe_data_ref rep v of
       None \<Rightarrow> Inr v
     | Some r \<Rightarrow> as_value (data_ref_post_init (r\<lparr>
         ref_locator_kind := ''controlplane'', ref_locator_token := token,
         ref_node_id := strip (str_or node_id (ref_node_id r)),
         ref_node_instance_id := strip (str_or node_instance_id (ref_node_instance_id r)),
         ref_control_addr := []\<rparr>)))"

section \<open>Normalisation is idempotent\<close>

lemma take_sha: "take 7 s = ''sha256:'' \<Longrightarrow> s \<noteq> []"
  by auto

lemma normalize_object_id_Inr:
  assumes "normalize_object_id x = Inr y"
  shows "object_id_re y" "normalize_object_id y = Inr y" "y \<noteq> []"
  using assms by (auto simp: normalize_object_id_def Let_def object_id_re_def split: if_splits)

lemma normalize_data_ref_id_Inr:
  assumes "normalize_data_ref_id x = Inr y"
  shows "y \<noteq> []" "strip y = y" "normalize_data_ref_id y = Inr y"
  using assms by (auto simp: normalize_data_ref_id_def split: if_splits)

lemma normalize_storage_id_Inr:
  assumes "normalize_storage_id x f = Inr y"
  shows "y \<noteq> []" "normalize_storage_id y f' = Inr y"
proof -
  show "y \<noteq> []"
    using assms normalize_object_id_Inr(3)
    by (auto simp: normalize_storage_id_def Let_def split: if_splits)
  show "normalize_storage_id y f' = Inr y"
  proof (cases "take 7 (strip (str_or x f)) = ''sha256:''")
    case True
    then have "normalize_object_id (strip (str_or x f)) = Inr y"
      using assms by (auto simp: normalize_storage_id_def Let_def split: if_splits)
    note n = normalize_object_id_Inr [OF this]
    moreover have "strip y = y"
      using n(2) by (auto simp: normalize_object_id_def Let_def split: if_splits) (metis strip_lower_strip)
    ultimately show ?thesis by (simp add: normalize_storage_id_def object_id_re_def Let_def)
  next
    case False
    then have "y = strip (str_or x f)" "y \<noteq> []"
      using assms by (auto simp: normalize_storage_id_def Let_def split: if_splits)
    then show ?thesis using False by (simp add: normalize_storage_id_def Let_def)
  qed
qed

lemma materialize_prefs_normal: "list_all (\<lambda>m. lower (strip m) = m) MATERIALIZE_PREFS"
  by code_simp

definition LOGICAL_TYPES :: "string list" where
  "LOGICAL_TYPES = [''archive'', ''file'', ''text'', ''dataframe'', ''series'', ''ndarray'', ''json'', ''bytes'']"

lemma logical_types_normal: "list_all (\<lambda>m. m \<noteq> [] \<and> lower (strip m) = m) LOGICAL_TYPES"
  by code_simp

lemma normalize_materialize_Inr:
  assumes "normalize_data_ref_materialize_as x d = Inr y"
  shows "y \<in> set MATERIALIZE_PREFS" "y \<noteq> []" "normalize_data_ref_materialize_as y d' = Inr y"
proof -
  show pref: "y \<in> set MATERIALIZE_PREFS"
    using assms by (auto simp: normalize_data_ref_materialize_as_def Let_def split: if_splits)
  then show "y \<noteq> []" by (auto simp: MATERIALIZE_PREFS_def)
  have "lower (strip y) = y"
    using pref materialize_prefs_normal by (auto simp: list_all_iff)
  then show "normalize_data_ref_materialize_as y d' = Inr y"
    using pref \<open>y \<noteq> []\<close> by (simp add: normalize_data_ref_materialize_as_def Let_def)
qed

lemma set_format_sub: "c \<in> set (format_sub b s) \<Longrightarrow> format_char c \<and> (c \<in> set s \<or> c = CHR ''_'')"
  by (induction b s rule: format_sub.induct) (auto simp: format_char_def split: if_splits)

lemma format_sub_id: "(\<And>c. c \<in> set s \<Longrightarrow> format_char c) \<Longrightarrow> format_sub b s = s"
  by (induction s arbitrary: b) auto

lemma format_char_not_space: "format_char c \<Longrightarrow> \<not> py_space c"
  by (auto simp: format_char_def py_space_def Let_def)

lemma format_result:
  assumes "\<And>c. c \<in> set t \<Longrightarrow> lower_char c = c"
    and "g = strip_chars ''._'' (format_sub False t)" and "g \<noteq> []"
  shows "normalize_object_format g sn d = g"
proof -
  have sub: "set g \<subseteq> set (format_sub False t)" using assms(2) set_strip_by by (metis strip_chars_def)
  have fc: "format_char c" if "c \<in> set g" for c using that sub set_format_sub by blast
  have "lower_char c = c" if "c \<in> set g" for c
  proof -
    have "c \<in> set t \<or> c = CHR ''_''" using that sub set_format_sub by blast
    then show ?thesis using assms(1) by (auto simp: lower_char_def)
  qed
  then have low: "lower g = g" by (simp add: lower_def map_idI)
  have str: "strip g = g" unfolding strip_def by (rule strip_by_none) (use fc format_char_not_space in blast)
  have "hd g \<notin> set ''._''"
    using strip_by_ends(1) [of "\<lambda>c. c \<in> set ''._''" "format_sub False t"] assms(2,3) by (simp add: strip_chars_def)
  then have "dropWhile (\<lambda>c. c = CHR ''.'') g = g" by (intro dropWhile_fixed) auto
  moreover have "format_sub False g = g" by (rule format_sub_id) (rule fc)
  moreover have "strip_chars ''._'' g = g" using assms(2) by (simp add: strip_chars_def)
  ultimately show ?thesis using assms(3) low str by (simp add: normalize_object_format_def Let_def)
qed

lemma lower_char_lower: "c \<in> set (lower s) \<Longrightarrow> lower_char c = c"
  by (auto simp: lower_def lower_char_idem)

lemma path_suffixes_Nil [simp]: "path_suffixes [] = []"
  by (simp add: path_suffixes_def path_name_def split_on_def)

lemma normalize_object_format_idem:
  "normalize_object_format (normalize_object_format f [] ''bin'') [] ''bin'' = normalize_object_format f [] ''bin''"
proof -
  let ?t = "dropWhile (\<lambda>c. c = CHR ''.'') (lower (strip f))"
  let ?g = "strip_chars ''._'' (format_sub False ?t)"
  have bin: "normalize_object_format ''bin'' [] ''bin'' = ''bin''" by code_simp
  have t: "lower_char c = c" if "c \<in> set ?t" for c
    using that lower_char_lower by (meson set_dropWhileD)
  have binary: "str_or (lower (strip (str_or ''bin'' ''bin''))) ''bin'' = ''bin''" by code_simp
  consider "?t = []" | "?t \<noteq> []" "?g = []" | "?t \<noteq> []" "?g \<noteq> []" by blast
  then show ?thesis
  proof cases
    case 1
    then have "normalize_object_format f [] ''bin'' = ''bin''"
      using binary by (simp add: normalize_object_format_def Let_def)
    then show ?thesis using bin by simp
  next
    case 2
    then have "normalize_object_format f [] ''bin'' = ''bin''" by (simp add: normalize_object_format_def Let_def)
    then show ?thesis using bin by simp
  next
    case 3
    then have "normalize_object_format f [] ''bin'' = ?g" by (simp add: normalize_object_format_def Let_def)
    then show ?thesis using format_result [OF t refl] 3 by simp
  qed
qed

lemma infer_logical_type_range:
  assumes "infer_logical_type lt f m = Inr y"
  shows "y = lower (strip lt) \<and> y \<noteq> [] \<or> y \<in> set LOGICAL_TYPES \<or> y \<in> set MATERIALIZE_PREFS"
  using assms normalize_materialize_Inr(1) [of m "''auto''"]
  unfolding infer_logical_type_def Let_def LOGICAL_TYPES_def
  by (auto split: if_split_asm sum.split_asm)

lemma infer_logical_type_Inr:
  assumes "infer_logical_type lt f m = Inr y"
  shows "infer_logical_type y f' m' = Inr y" "y \<noteq> []"
proof -
  have n: "y \<noteq> [] \<and> lower (strip y) = y"
    using infer_logical_type_range [OF assms] logical_types_normal materialize_prefs_normal
    by (auto simp: list_all_iff MATERIALIZE_PREFS_def)
  then show "y \<noteq> []" by simp
  from n show "infer_logical_type y f' m' = Inr y" by (simp add: infer_logical_type_def Let_def)
qed

lemma post_init_Inr:
  assumes "data_ref_post_init r = Inr r'"
  shows "normalize_data_ref_id (str_or (ref_id r) (ref_storage_id r)) = Inr (ref_id r')"
    "normalize_storage_id (ref_storage_id r) (ref_id r') = Inr (ref_storage_id r')"
    "normalize_data_ref_materialize_as (ref_materialize_as r) ''auto'' = Inr (ref_materialize_as r')"
    "infer_logical_type (ref_logical_type r) (ref_format r') (ref_materialize_as r') = Inr (ref_logical_type r')"
    "ref_format r' = normalize_object_format (ref_format r) [] ''bin''"
    "ref_size_bytes r' = max 0 (ref_size_bytes r)"
    "ref_locator_kind r' = (let k = str_or (lower (strip (str_or (ref_locator_kind r) ''controlplane''))) ''controlplane''
       in if strip (ref_control_addr r) \<noteq> [] \<and> k = ''controlplane'' then ''node_control'' else k)"
    "ref_locator_token r' = strip (str_or (ref_locator_token r) (strip (ref_control_addr r)))"
    "ref_consume_on_read r' = ref_consume_on_read r"
    "ref_node_id r' = strip (ref_node_id r)" "ref_node_instance_id r' = strip (ref_node_instance_id r)"
    "ref_control_addr r' = (if ref_locator_kind r' = ''node_control''
       then str_or (strip (ref_control_addr r)) (ref_locator_token r') else strip (ref_control_addr r))"
  using assms by (auto simp: data_ref_post_init_def ebind_eq_Inr Let_def)

lemma post_init_idem:
  assumes "data_ref_post_init r = Inr r'"
    and "strip (ref_locator_token r) = [] \<longrightarrow> ref_locator_token r = []"
  shows "data_ref_post_init r' = Inr r'"
proof -
  note f = post_init_Inr [OF assms(1)]
  have id: "ref_id r' \<noteq> []" "normalize_data_ref_id (ref_id r') = Inr (ref_id r')"
    using normalize_data_ref_id_Inr [OF f(1)] by blast+
  have sid: "normalize_storage_id (ref_storage_id r') (ref_id r') = Inr (ref_storage_id r')"
    using normalize_storage_id_Inr [OF f(2)] by blast
  have mat: "normalize_data_ref_materialize_as (ref_materialize_as r') ''auto'' = Inr (ref_materialize_as r')"
    using normalize_materialize_Inr [OF f(3)] by blast
  have lt: "infer_logical_type (ref_logical_type r') (ref_format r') (ref_materialize_as r') = Inr (ref_logical_type r')"
    using infer_logical_type_Inr [OF f(4)] by blast
  have fmt: "normalize_object_format (ref_format r') [] ''bin'' = ref_format r'"
    by (simp add: f(5) normalize_object_format_idem)
  define k :: string where "k = str_or (lower (strip (str_or (ref_locator_kind r) ''controlplane''))) ''controlplane''"
  have words: "lower (strip ''controlplane'') = ''controlplane''" "lower (strip ''node_control'') = ''node_control''"
    by code_simp+
  have k: "k \<noteq> []" "lower (strip k) = k"
    by (auto simp: k_def str_or_def words)
  have kind: "ref_locator_kind r' = (if strip (ref_control_addr r) \<noteq> [] \<and> k = ''controlplane'' then ''node_control'' else k)"
    using f(7) by (simp add: k_def Let_def)
  then have kind': "ref_locator_kind r' \<noteq> []" "lower (strip (ref_locator_kind r')) = ref_locator_kind r'"
    using k words by auto
  have token: "strip (ref_locator_token r') = ref_locator_token r'" by (simp add: f(8))
  have empty: "ref_locator_token r' = [] \<Longrightarrow> strip (ref_control_addr r) = []"
    using assms(2) by (auto simp: f(8) str_or_def split: if_splits)
  have addr: "strip (ref_control_addr r') = ref_control_addr r'"
    by (simp add: f(12) str_or_def token)
  have ctl: "ref_control_addr r' \<noteq> [] \<Longrightarrow> ref_locator_kind r' \<noteq> ''controlplane''"
    by (auto simp: f(12) kind split: if_splits)
  have stays: "ref_locator_kind r' = ''node_control'' \<Longrightarrow> str_or (ref_control_addr r') (ref_locator_token r') = ref_control_addr r'"
    by (auto simp: f(12) str_or_def)
  have tok: "str_or (ref_locator_token r') (ref_control_addr r') = ref_locator_token r'"
    using empty by (auto simp: str_or_def f(12))
  have rest: "max 0 (ref_size_bytes r') = ref_size_bytes r'" "strip (ref_node_id r') = ref_node_id r'"
    "strip (ref_node_instance_id r') = ref_node_instance_id r'"
    by (simp_all add: f(6,10,11))
  show ?thesis
    using id sid mat lt fmt kind' token addr ctl stays tok rest
    by (cases r') (auto simp: data_ref_post_init_def Let_def)
qed

lemma get_str_PStr: "dget p k = Some (PStr v) \<Longrightarrow> get_str rep p k = v"
  by (simp add: get_str_def dget_or_def val_or_def)

section \<open>Properties of references\<close>

text \<open>
  C21: references survive their payload form. For every reference the constructor builds from
  arguments whose locator token is not made of white space only, reading back its payload
  yields the same reference, field by field.
\<close>
theorem data_ref_payload_roundtrip:
  assumes "data_ref_post_init r0 = Inr r"
    and "strip (ref_locator_token r0) = [] \<longrightarrow> ref_locator_token r0 = []"
  shows "data_ref_from_payload rep (data_ref_to_payload r) = Inr r"
proof -
  note f = post_init_Inr [OF assms(1)]
  have id: "ref_id r \<noteq> []" using normalize_data_ref_id_Inr [OF f(1)] by blast
  have sid: "ref_storage_id r \<noteq> []" using normalize_storage_id_Inr [OF f(2)] by blast
  have mat: "ref_materialize_as r \<noteq> []" using normalize_materialize_Inr [OF f(3)] by blast
  have kind: "ref_locator_kind r \<noteq> []" by (auto simp: f(7) str_or_def Let_def)
  have "data_ref_from_payload rep (data_ref_to_payload r) = data_ref_post_init r"
    using id sid mat kind
    by (cases r) (auto simp: data_ref_from_payload_def data_ref_to_payload_def get_str_PStr dget_or_def val_or_def py_int_def)
  then show ?thesis using post_init_idem [OF assms] by simp
qed

definition sample_ref_args :: data_ref where
  "sample_ref_args = \<lparr>ref_id = '' r1 '', ref_storage_id = [], ref_logical_type = [], ref_format = ''.JSON'',
     ref_size_bytes = 7, ref_materialize_as = [], ref_locator_kind = [], ref_locator_token = [],
     ref_consume_on_read = False, ref_node_id = ''n1'', ref_node_instance_id = [], ref_control_addr = ''h:1''\<rparr>"

definition sample_ref :: data_ref where
  "sample_ref = \<lparr>ref_id = ''r1'', ref_storage_id = ''r1'', ref_logical_type = ''json'', ref_format = ''json'',
     ref_size_bytes = 7, ref_materialize_as = ''auto'', ref_locator_kind = ''node_control'',
     ref_locator_token = ''h:1'', ref_consume_on_read = False, ref_node_id = ''n1'',
     ref_node_instance_id = [], ref_control_addr = ''h:1''\<rparr>"

lemma sample_ref_built: "data_ref_post_init sample_ref_args = Inr sample_ref"
  by code_simp

theorem data_ref_payload_roundtrip_witness:
  "data_ref_from_payload (\<lambda>_. []) (data_ref_to_payload sample_ref) = Inr sample_ref"
  by (rule data_ref_payload_roundtrip [OF sample_ref_built]) (simp add: sample_ref_args_def)

text \<open>
  a blank locator token does not survive. A reference constructed with a control address
  and a locator token of white space keeps an empty token, but reading its payload back
  fills the token with the control address: the two references differ.
\<close>
theorem data_ref_blank_token_changes:
  "\<exists>r r'. data_ref_post_init (sample_ref_args\<lparr>ref_locator_token := '' ''\<rparr>) = Inr r \<and>
     data_ref_from_payload rep (data_ref_to_payload r) = Inr r' \<and>
     ref_locator_token r = [] \<and> ref_locator_token r' = ''h:1''"
proof -
  let ?r = "sample_ref\<lparr>ref_locator_token := []\<rparr>"
  have 1: "data_ref_post_init (sample_ref_args\<lparr>ref_locator_token := '' ''\<rparr>) = Inr ?r" by code_simp
  have "data_ref_post_init ?r = Inr sample_ref" by code_simp
  moreover have "data_ref_from_payload rep (data_ref_to_payload ?r) = data_ref_post_init ?r"
    by (simp add: data_ref_from_payload_def data_ref_to_payload_def get_str_PStr dget_or_def val_or_def py_int_def
        sample_ref_def)
  ultimately show ?thesis using 1 by (auto simp: sample_ref_def)
qed

lemma maybe_data_ref_PRef [simp]: "maybe_data_ref rep (PRef r) = Some r"
  by (simp add: maybe_data_ref_def coerce_data_ref_def)

lemma maybe_data_ref_PDict:
  "maybe_data_ref rep (PDict d) = Some r \<Longrightarrow> data_ref_from_payload rep (PDict d) = Inr r"
  by (simp add: maybe_data_ref_def coerce_data_ref_def split: if_split_asm sum.split_asm)

text \<open>
  a public reference hides the node. Whatever value holds a reference, rewriting it to a
  public control-plane locator with a token that is not blank, when it returns, gives a
  reference that is located through the control plane by that token and whose control address
  is empty.
\<close>
theorem public_locator_hides_node:
  assumes "maybe_data_ref rep v = Some r" and "strip token \<noteq> []"
    and "with_data_ref_public_controlplane_locator rep v token node_id inst = Inr w"
  shows "\<exists>r'. w = PRef r' \<and> ref_locator_kind r' = ''controlplane'' \<and> ref_locator_token r' = strip token
    \<and> ref_control_addr r' = [] \<and> ref_id r' = strip (str_or (ref_id r) (ref_storage_id r))"
proof -
  let ?a = "r\<lparr>ref_locator_kind := ''controlplane'', ref_locator_token := strip token,
     ref_node_id := strip (str_or node_id (ref_node_id r)),
     ref_node_instance_id := strip (str_or inst (ref_node_instance_id r)), ref_control_addr := []\<rparr>"
  obtain r' where r': "data_ref_post_init ?a = Inr r'" and w: "w = PRef r'"
    using assms
    by (auto simp: with_data_ref_public_controlplane_locator_def Let_def as_value_def split: sum.splits)
  have "lower (strip ''controlplane'') = ''controlplane''" by code_simp
  then have "ref_locator_kind r' = ''controlplane''" using post_init_Inr(7) [OF r'] by simp
  moreover have "ref_locator_token r' = strip token" using post_init_Inr(8) [OF r'] assms(2) by simp
  moreover have "ref_id r' = strip (str_or (ref_id r) (ref_storage_id r))"
    using post_init_Inr(1) [OF r'] by (auto simp: normalize_data_ref_id_def split: if_splits)
  ultimately show ?thesis using w post_init_Inr(12) [OF r'] by simp
qed

theorem public_locator_hides_node_witness:
  "\<exists>w. with_data_ref_public_controlplane_locator (\<lambda>_. []) (PRef sample_ref) ''tok'' [] [] = Inr w \<and>
    (\<exists>r'. w = PRef r' \<and> ref_control_addr r' = [])"
proof -
  have w: "with_data_ref_public_controlplane_locator (\<lambda>_. []) (PRef sample_ref) ''tok'' [] []
      = Inr (PRef (sample_ref\<lparr>ref_locator_kind := ''controlplane'', ref_locator_token := ''tok'', ref_control_addr := []\<rparr>))"
    by code_simp
  have "strip ''tok'' \<noteq> []" by code_simp
  from public_locator_hides_node [OF maybe_data_ref_PRef this w] w show ?thesis by blast
qed

lemma take_drop_eq: "take n xs = take n ys \<Longrightarrow> drop n xs = drop n ys \<Longrightarrow> xs = ys"
  by (metis append_take_drop_id)

lemma sha_id_digest:
  "normalize_object_id x = Inr i \<Longrightarrow> i = ''sha256:'' @ drop 7 i \<and> length (drop 7 i) = 64"
  using normalize_object_id_Inr(1) [of x i] by (metis append_take_drop_id object_id_re_def)

text \<open>
  storage paths identify objects. Two object ids that have storage paths in one format
  have the same path exactly when they normalise to the same id.
\<close>
theorem object_storage_path_injective:
  assumes "object_storage_path x fmt = Inr p" and "object_storage_path y fmt = Inr q"
  shows "p = q \<longleftrightarrow> normalize_object_id x = normalize_object_id y"
proof -
  obtain i where i: "normalize_object_id x = Inr i"
    and p: "p = (take 2 (drop 7 i), drop 2 (drop 7 i) @ object_format_suffix fmt)"
    using assms(1) by (auto simp: object_storage_path_def Let_def split: sum.splits)
  obtain j where j: "normalize_object_id y = Inr j"
    and q: "q = (take 2 (drop 7 j), drop 2 (drop 7 j) @ object_format_suffix fmt)"
    using assms(2) by (auto simp: object_storage_path_def Let_def split: sum.splits)
  have "p = q \<longleftrightarrow> drop 7 i = drop 7 j"
    unfolding p q by (metis append_same_eq prod.inject take_drop_eq)
  also have "\<dots> \<longleftrightarrow> i = j" using sha_id_digest [OF i] sha_id_digest [OF j] by metis
  finally show ?thesis using i j by simp
qed

theorem object_storage_path_injective_witness:
  "\<exists>p q. object_storage_path (''sha256:'' @ replicate 64 (CHR ''a'')) ''json'' = Inr p \<and>
     object_storage_path (''SHA256:'' @ replicate 64 (CHR ''b'')) ''json'' = Inr q \<and> p \<noteq> q"
proof -
  let ?x = "''sha256:'' @ replicate 64 (CHR ''a'')" and ?y = "''SHA256:'' @ replicate 64 (CHR ''b'')"
  have x: "object_storage_path ?x ''json'' = Inr (''aa'', replicate 62 (CHR ''a'') @ ''.json'')" by code_simp
  have y: "object_storage_path ?y ''json'' = Inr (''bb'', replicate 62 (CHR ''b'') @ ''.json'')" by code_simp
  have "normalize_object_id ?x \<noteq> normalize_object_id ?y" by code_simp
  with object_storage_path_injective [OF x y] x y show ?thesis by blast
qed

end
