(* ===== verification/Policy.thy ===== *)
theory Policy
  imports Prelude
begin

text \<open>
  Serialization modes and the policies that restrict them:
  \<open>controlplane/serialization_mode.py\<close>, \<open>controlplane/policy_profile.py\<close> and
  \<open>controlplane/effective_policy.py\<close>. The size limits that \<open>controlplane/config.py\<close> reads from
  the environment and the environment's default mode are arguments.
\<close>

section \<open>Serialization modes\<close>

definition SUPPORTED_SERIALIZATION_MODES :: "string list" where
  "SUPPORTED_SERIALIZATION_MODES = [''legacy_v1'', ''structured_v1'', ''pickle_stable_v1'', ''pickle_native_v1'']"

definition PICKLE_SERIALIZATION_MODES :: "string list" where
  "PICKLE_SERIALIZATION_MODES = [''pickle_stable_v1'', ''pickle_native_v1'']"

definition PICKLE_RESTRICTED_CONTEXTS :: "string list" where
  "PICKLE_RESTRICTED_CONTEXTS = [''gateway_public'', ''untrusted_transport'']"

definition normalize_serialization_mode :: "string \<Rightarrow> py_error + string" where
  "normalize_serialization_mode v =
    (let normalized = lower (strip v) in
     if normalized = [] then Inr []
     else if normalized \<notin> set SUPPORTED_SERIALIZATION_MODES then Inl (ValueError ''unsupported serialization_mode'')
     else Inr normalized)"

definition validate_mode_for_context :: "string \<Rightarrow> string \<Rightarrow> bool \<Rightarrow> py_error + string" where
  "validate_mode_for_context mode context strict =
    ebind (normalize_serialization_mode mode) (\<lambda>m.
    let normalized = str_or m ''legacy_v1''; normalized_context = lower (strip context) in
    if normalized \<in> set PICKLE_SERIALIZATION_MODES \<and> normalized_context \<in> set PICKLE_RESTRICTED_CONTEXTS
    then (if \<not> strict then Inr ''structured_v1'' else Inl (ValueError ''mode is not allowed for restricted transport''))
    else Inr normalized)"

text \<open>The set of normalised allowed modes, as a list without duplicates.\<close>

fun normalize_all :: "string list \<Rightarrow> py_error + string list" where
  "normalize_all [] = Inr []"
| "normalize_all (x # xs) =
    ebind (normalize_serialization_mode x) (\<lambda>m.
    ebind (normalize_all xs) (\<lambda>ms. Inr (if m = [] then ms else List.insert m ms)))"

text \<open>The loop over the candidates of \<open>resolve_effective_serialization_mode\<close>.\<close>

fun pick_candidate_mode ::
  "string \<Rightarrow> string list \<Rightarrow> string \<Rightarrow> bool \<Rightarrow> string list \<Rightarrow> py_error + string" where
  "pick_candidate_mode request_mode allowed context strict [] = Inr ''legacy_v1''"
| "pick_candidate_mode request_mode allowed context strict (candidate # rest) =
    ebind (normalize_serialization_mode candidate) (\<lambda>normalized.
    if allowed \<noteq> [] \<and> normalized \<noteq> [] \<and> normalized \<notin> set allowed then
      (if candidate = request_mode then
         (if \<not> strict then
            validate_mode_for_context
              (if ''structured_v1'' \<in> set allowed then ''structured_v1'' else hd (sort allowed)) context strict
          else Inl (ValueError ''serialization_mode is not allowed''))
       else pick_candidate_mode request_mode allowed context strict rest)
    else if normalized \<noteq> [] then validate_mode_for_context normalized context strict
    else pick_candidate_mode request_mode allowed context strict rest)"

definition resolve_effective_serialization_mode ::
  "string \<Rightarrow> string \<Rightarrow> string \<Rightarrow> string \<Rightarrow> string \<Rightarrow> string list \<Rightarrow> string \<Rightarrow> bool \<Rightarrow> py_error + string" where
  "resolve_effective_serialization_mode env_mode request_mode session_mode default_mode context allowed_modes frozen_mode strict =
    ebind (normalize_serialization_mode frozen_mode) (\<lambda>frozen.
    if frozen \<noteq> [] then
      ebind (normalize_serialization_mode request_mode) (\<lambda>req.
      if req \<noteq> [] \<and> req \<noteq> frozen then
        (if \<not> strict then validate_mode_for_context frozen context strict
         else Inl (ValueError ''serialization_mode is frozen for this session''))
      else validate_mode_for_context frozen context strict)
    else
      ebind (normalize_all allowed_modes) (\<lambda>allowed.
      pick_candidate_mode request_mode allowed context strict
        [request_mode, session_mode, default_mode, env_mode, ''legacy_v1'']))"

definition resolve_declared_transport_mode :: "string \<Rightarrow> string \<Rightarrow> py_error + string" where
  "resolve_declared_transport_mode declared_mode default_mode =
    ebind (normalize_serialization_mode declared_mode) (\<lambda>declared.
    if declared \<noteq> [] then Inr declared
    else ebind (normalize_serialization_mode default_mode) (\<lambda>fallback.
      Inr (if fallback \<noteq> [] then fallback else ''legacy_v1'')))"

definition resolve_received_transport_mode :: "string \<Rightarrow> string \<Rightarrow> string \<Rightarrow> py_error + string" where
  "resolve_received_transport_mode declared_mode default_mode context =
    ebind (resolve_declared_transport_mode declared_mode default_mode) (\<lambda>resolved.
    validate_mode_for_context resolved context True)"

section \<open>Policy profiles\<close>

record policy_profile =
  pp_policy_id :: string
  pp_version :: int
  pp_allowed_modes :: "string list"
  pp_default_mode :: string
  pp_payload_threshold :: int
  pp_payload_hard :: int
  pp_result_threshold :: int
  pp_result_hard :: int
  pp_use_raw_bytes_payload :: bool
  pp_use_http_raw_bytes_body :: bool
  pp_allow_pickle_stable :: bool
  pp_force_dataref_above_threshold :: bool
  pp_public_gateway_allow_pickle :: bool

record policy_binding =
  pb_binding_id :: string
  pb_policy_id :: string
  pb_default_mode :: string

type_synonym limit_values = "int \<times> int \<times> int \<times> int"

definition normalize_policy_limit_values :: "int \<Rightarrow> int \<Rightarrow> int \<Rightarrow> int \<Rightarrow> limit_values" where
  "normalize_policy_limit_values payload_threshold payload_hard result_threshold result_hard =
    (let payload_hard_value = max 1 (num_or payload_hard 1);
         result_hard_value = max 1 (num_or result_hard 1)
     in (min (max 1 (num_or payload_threshold 1)) payload_hard_value, payload_hard_value,
         min (max 1 (num_or result_threshold 1)) result_hard_value, result_hard_value))"

definition effective_limits_from_profile :: "policy_profile \<Rightarrow> limit_values" where
  "effective_limits_from_profile p =
     normalize_policy_limit_values (num_or (pp_payload_threshold p) 1) (num_or (pp_payload_hard p) 1)
       (num_or (pp_result_threshold p) 1) (num_or (pp_result_hard p) 1)"

fun normalize_modes_loop :: "string list \<Rightarrow> string list \<Rightarrow> py_error + string list" where
  "normalize_modes_loop out [] = Inr out"
| "normalize_modes_loop out (x # xs) =
    ebind (normalize_serialization_mode x) (\<lambda>m.
    normalize_modes_loop (if m = [] \<or> m \<in> set out then out else out @ [m]) xs)"

definition normalize_modes :: "string list \<Rightarrow> py_error + string list" where
  "normalize_modes xs = ebind (normalize_modes_loop [] xs) (\<lambda>out.
     if out = [] then Inl (ValueError ''allowed_modes must not be empty'') else Inr out)"

definition no_pickle :: "string list \<Rightarrow> string list" where
  "no_pickle ms = filter (\<lambda>m. m \<notin> set PICKLE_SERIALIZATION_MODES) ms"

definition policy_profile_post_init :: "policy_profile \<Rightarrow> py_error + policy_profile" where
  "policy_profile_post_init p =
    (let pid = lower (strip (pp_policy_id p)) in
     if pid = [] then Inl (ValueError ''policy_id is required'')
     else
       ebind (normalize_modes (pp_allowed_modes p)) (\<lambda>modes.
       ebind (normalize_serialization_mode (pp_default_mode p)) (\<lambda>d0.
       let dflt = (if d0 = [] then hd modes else d0) in
       if dflt \<notin> set modes then Inl (ValueError ''default_mode must be included in allowed_modes'')
       else
         let restrict = (\<not> pp_allow_pickle_stable p \<and> (\<exists>m \<in> set modes. m \<in> set PICKLE_SERIALIZATION_MODES));
             modes' = (if restrict then no_pickle modes else modes)
         in if modes' = [] then Inl (ValueError ''allowed_modes cannot become empty after pickle restriction'')
         else
           let dflt' = (if restrict \<and> dflt \<in> set PICKLE_SERIALIZATION_MODES then hd modes' else dflt) in
           case normalize_policy_limit_values (num_or (pp_payload_threshold p) 1) (num_or (pp_payload_hard p) 1)
             (num_or (pp_result_threshold p) 1) (num_or (pp_result_hard p) 1) of
             (pt, ph, rt, rh) \<Rightarrow> Inr (p\<lparr>pp_policy_id := pid, pp_version := max 1 (num_or (pp_version p) 1),
               pp_allowed_modes := modes', pp_default_mode := dflt', pp_payload_threshold := pt,
               pp_payload_hard := ph, pp_result_threshold := rt, pp_result_hard := rh\<rparr>))))"

definition policy_binding_post_init :: "policy_binding \<Rightarrow> py_error + policy_binding" where
  "policy_binding_post_init b =
    (let bid = lower (strip (pb_binding_id b)); pid = lower (strip (pb_policy_id b)) in
     ebind (normalize_serialization_mode (pb_default_mode b)) (\<lambda>m.
     if bid = [] then Inl (ValueError ''binding_id is required'')
     else if pid = [] then Inl (ValueError ''policy_id is required'')
     else Inr \<lparr>pb_binding_id = bid, pb_policy_id = pid, pb_default_mode = str_or m ''legacy_v1''\<rparr>))"

text \<open>The built-in profiles over the limits of the two limit groups, and the bindings.\<close>

definition profile_args ::
  "string \<Rightarrow> string list \<Rightarrow> string \<Rightarrow> limit_values \<Rightarrow> bool \<Rightarrow> policy_profile" where
  "profile_args pid modes dflt lims trusted = (case lims of (pt, ph, rt, rh) \<Rightarrow>
     \<lparr>pp_policy_id = pid, pp_version = 1, pp_allowed_modes = modes, pp_default_mode = dflt,
      pp_payload_threshold = pt, pp_payload_hard = ph, pp_result_threshold = rt, pp_result_hard = rh,
      pp_use_raw_bytes_payload = trusted, pp_use_http_raw_bytes_body = trusted,
      pp_allow_pickle_stable = trusted, pp_force_dataref_above_threshold = True,
      pp_public_gateway_allow_pickle = False\<rparr>)"

definition builtin_policy_profiles :: "limit_values \<Rightarrow> limit_values \<Rightarrow> (string, py_error + policy_profile) dict" where
  "builtin_policy_profiles safe_limits trusted_limits =
    [(''default_safe'', policy_profile_post_init
        (profile_args ''default_safe'' [''legacy_v1'', ''structured_v1''] ''legacy_v1'' safe_limits False)),
     (''trusted_internal'', policy_profile_post_init
        (profile_args ''trusted_internal'' [''legacy_v1'', ''structured_v1'', ''pickle_stable_v1'', ''pickle_native_v1'']
          ''pickle_stable_v1'' trusted_limits True)),
     (''pickle_internal_heavy'', policy_profile_post_init
        (profile_args ''pickle_internal_heavy'' [''pickle_stable_v1'', ''pickle_native_v1'', ''structured_v1'', ''legacy_v1'']
          ''pickle_stable_v1'' trusted_limits True))]"

definition builtin_policy_bindings :: "(string, policy_binding) dict" where
  "builtin_policy_bindings =
    [(''gateway_public'', \<lparr>pb_binding_id = ''gateway_public'', pb_policy_id = ''default_safe'', pb_default_mode = ''legacy_v1''\<rparr>),
     (''service_internal'', \<lparr>pb_binding_id = ''service_internal'', pb_policy_id = ''trusted_internal'',
        pb_default_mode = ''pickle_stable_v1''\<rparr>),
     (''taskpool_default'', \<lparr>pb_binding_id = ''taskpool_default'', pb_policy_id = ''trusted_internal'',
        pb_default_mode = ''pickle_stable_v1''\<rparr>),
     (''taskpool_heavy_dataframe_numpy'', \<lparr>pb_binding_id = ''taskpool_heavy_dataframe_numpy'',
        pb_policy_id = ''pickle_internal_heavy'', pb_default_mode = ''pickle_stable_v1''\<rparr>),
     (''jobqueue_controlplane_transport'', \<lparr>pb_binding_id = ''jobqueue_controlplane_transport'',
        pb_policy_id = ''default_safe'', pb_default_mode = ''structured_v1''\<rparr>)]"

definition get_policy_profile :: "limit_values \<Rightarrow> limit_values \<Rightarrow> string \<Rightarrow> py_error + policy_profile" where
  "get_policy_profile safe_limits trusted_limits policy_id =
    (case dget (builtin_policy_profiles safe_limits trusted_limits) (str_or (lower (strip policy_id)) ''default_safe'') of
       None \<Rightarrow> Inl (KeyError ''unknown policy profile'') | Some p \<Rightarrow> p)"

definition get_policy_binding :: "string \<Rightarrow> py_error + policy_binding" where
  "get_policy_binding binding_id =
    (case dget builtin_policy_bindings (lower (strip binding_id)) of
       None \<Rightarrow> Inl (KeyError ''unknown policy binding'') | Some b \<Rightarrow> Inr b)"

section \<open>Effective policies\<close>

record effective_policy =
  ep_policy_id :: string
  ep_version :: int
  ep_resolved_mode :: string
  ep_allowed_modes :: "string list"
  ep_payload_threshold :: int
  ep_payload_hard :: int
  ep_result_threshold :: int
  ep_result_hard :: int
  ep_use_raw_bytes_payload :: bool
  ep_use_http_raw_bytes_body :: bool
  ep_allow_pickle_stable :: bool
  ep_fallback :: bool

text \<open>Every mode that is not blank normalised, duplicates kept.\<close>

fun normalize_all_kept :: "string list \<Rightarrow> py_error + string list" where
  "normalize_all_kept [] = Inr []"
| "normalize_all_kept (x # xs) =
    (if strip x = [] then normalize_all_kept xs
     else ebind (normalize_serialization_mode x) (\<lambda>m.
       ebind (normalize_all_kept xs) (\<lambda>ms. Inr (m # ms))))"

text \<open>\<open>ep_fallback\<close> stands for a \<open>fallback_warning\<close> that is not empty.\<close>

definition effective_policy_post_init :: "effective_policy \<Rightarrow> py_error + effective_policy" where
  "effective_policy_post_init e =
    ebind (normalize_all_kept (ep_allowed_modes e)) (\<lambda>allowed.
    ebind (normalize_serialization_mode (ep_resolved_mode e)) (\<lambda>m0.
    if allowed = [] then Inl (ValueError ''allowed_modes must not be empty'')
    else
      let m = (if m0 = [] then hd allowed else m0) in
      if m \<notin> set allowed then Inl (ValueError ''resolved_mode must be allowed by effective policy'')
      else case normalize_policy_limit_values (num_or (ep_payload_threshold e) 1) (num_or (ep_payload_hard e) 1)
             (num_or (ep_result_threshold e) 1) (num_or (ep_result_hard e) 1) of
        (pt, ph, rt, rh) \<Rightarrow> Inr (e\<lparr>ep_policy_id := lower (strip (ep_policy_id e)),
          ep_version := max 1 (num_or (ep_version e) 1), ep_resolved_mode := m, ep_allowed_modes := allowed,
          ep_payload_threshold := pt, ep_payload_hard := ph, ep_result_threshold := rt, ep_result_hard := rh\<rparr>)))"

definition allowed_modes_for_context :: "policy_profile \<Rightarrow> string \<Rightarrow> py_error + string list" where
  "allowed_modes_for_context p context =
    (let normalized_context = lower (strip context);
         allowed = (if \<not> pp_allow_pickle_stable p \<or>
             (normalized_context = ''gateway_public'' \<and> \<not> pp_public_gateway_allow_pickle p)
           then no_pickle (pp_allowed_modes p) else pp_allowed_modes p)
     in if allowed = [] then Inl (ValueError ''policy profile does not allow any serialization modes'') else Inr allowed)"

definition RAW_BODY_CONTEXTS :: "string list" where
  "RAW_BODY_CONTEXTS = [''gateway_public'', ''service_connect'', ''http_call'', ''jobqueue_session'', ''taskpool_owner'']"

definition resolve_effective_policy ::
  "policy_profile \<Rightarrow> string \<Rightarrow> string \<Rightarrow> bool \<Rightarrow> py_error + effective_policy" where
  "resolve_effective_policy p requested_mode context strict =
    ebind (allowed_modes_for_context p context) (\<lambda>allowed.
    ebind (normalize_serialization_mode requested_mode) (\<lambda>req.
    let fallback_mode = (if ''structured_v1'' \<in> set allowed then ''structured_v1'' else hd allowed) in
    if req \<noteq> [] \<and> req \<notin> set allowed \<and> strict then Inl (ValueError ''requested_mode is not allowed by profile'')
    else
      let resolved = (if req \<noteq> [] then (if req \<notin> set allowed then fallback_mode else req)
            else if pp_default_mode p \<in> set allowed then pp_default_mode p else hd allowed);
          raw = (pp_use_raw_bytes_payload p \<and> resolved \<noteq> ''legacy_v1'');
          raw_body = (raw \<and> pp_use_http_raw_bytes_body p \<and> lower (strip context) \<in> set RAW_BODY_CONTEXTS)
      in case effective_limits_from_profile p of (pt, ph, rt, rh) \<Rightarrow>
        effective_policy_post_init \<lparr>ep_policy_id = pp_policy_id p, ep_version = pp_version p,
          ep_resolved_mode = resolved, ep_allowed_modes = allowed, ep_payload_threshold = pt,
          ep_payload_hard = ph, ep_result_threshold = rt, ep_result_hard = rh,
          ep_use_raw_bytes_payload = raw, ep_use_http_raw_bytes_body = raw_body,
          ep_allow_pickle_stable = ((\<exists>m \<in> set allowed. m \<in> set PICKLE_SERIALIZATION_MODES) \<and> pp_allow_pickle_stable p),
          ep_fallback = (req \<noteq> [] \<and> req \<notin> set allowed)\<rparr>))"

definition assert_frozen_mode :: "effective_policy \<Rightarrow> string \<Rightarrow> bool \<Rightarrow> py_error + string" where
  "assert_frozen_mode e request_mode strict =
    ebind (normalize_serialization_mode request_mode) (\<lambda>req.
    if req \<noteq> [] \<and> req \<noteq> ep_resolved_mode e
    then (if \<not> strict then Inr (ep_resolved_mode e)
          else Inl (ValueError ''serialization_mode is frozen for this session''))
    else Inr (ep_resolved_mode e))"

section \<open>Modes are normal\<close>

lemma supported_modes_normal: "list_all (\<lambda>m. m \<noteq> [] \<and> lower (strip m) = m) SUPPORTED_SERIALIZATION_MODES"
  by code_simp

lemma pickle_supported: "set PICKLE_SERIALIZATION_MODES \<subseteq> set SUPPORTED_SERIALIZATION_MODES"
  by (simp add: PICKLE_SERIALIZATION_MODES_def SUPPORTED_SERIALIZATION_MODES_def)

lemma normalize_mode_Inr:
  assumes "normalize_serialization_mode x = Inr m"
  shows "m = [] \<or> m \<in> set SUPPORTED_SERIALIZATION_MODES" "normalize_serialization_mode m = Inr m"
  using assms by (auto simp: normalize_serialization_mode_def Let_def split: if_splits)

lemma normalize_supported:
  "m \<in> set SUPPORTED_SERIALIZATION_MODES \<Longrightarrow> normalize_serialization_mode m = Inr m \<and> m \<noteq> [] \<and> strip m \<noteq> []"
  using supported_modes_normal by (auto simp: normalize_serialization_mode_def list_all_iff Let_def)

lemma legacy_structured:
  "''legacy_v1'' \<in> set SUPPORTED_SERIALIZATION_MODES" "''structured_v1'' \<in> set SUPPORTED_SERIALIZATION_MODES"
  "''legacy_v1'' \<notin> set PICKLE_SERIALIZATION_MODES" "''structured_v1'' \<notin> set PICKLE_SERIALIZATION_MODES"
  by (simp_all add: SUPPORTED_SERIALIZATION_MODES_def PICKLE_SERIALIZATION_MODES_def)

definition safe_mode :: "string \<Rightarrow> string \<Rightarrow> bool" where
  "safe_mode context m \<longleftrightarrow> m \<in> set SUPPORTED_SERIALIZATION_MODES \<and>
     (lower (strip context) \<in> set PICKLE_RESTRICTED_CONTEXTS \<longrightarrow> m \<notin> set PICKLE_SERIALIZATION_MODES)"

lemma validate_mode_safe:
  assumes "validate_mode_for_context mode context strict = Inr m"
  shows "safe_mode context m"
proof -
  obtain n where n: "normalize_serialization_mode mode = Inr n"
    using assms by (auto simp: validate_mode_for_context_def ebind_eq_Inr)
  have "str_or n ''legacy_v1'' \<in> set SUPPORTED_SERIALIZATION_MODES"
    using normalize_mode_Inr(1) [OF n] legacy_structured by (auto simp: str_or_def)
  then show ?thesis
    using assms n legacy_structured by (auto simp: validate_mode_for_context_def safe_mode_def Let_def split: if_splits)
qed

lemma pick_candidate_mode_safe:
  "pick_candidate_mode req allowed ctx strict cands = Inr m \<Longrightarrow> safe_mode ctx m"
proof (induction req allowed ctx strict cands rule: pick_candidate_mode.induct)
  case (1 req allowed ctx strict)
  then show ?case using legacy_structured by (auto simp: safe_mode_def)
next
  case (2 req allowed ctx strict c rest)
  then show ?case using validate_mode_safe by (auto simp: ebind_eq_Inr split: if_split_asm)
qed

lemma normalize_modes_loop_Inr:
  "normalize_modes_loop out xs = Inr ms \<Longrightarrow> set out \<subseteq> set SUPPORTED_SERIALIZATION_MODES \<Longrightarrow> distinct out
    \<Longrightarrow> set ms \<subseteq> set SUPPORTED_SERIALIZATION_MODES \<and> distinct ms"
proof (induction out xs rule: normalize_modes_loop.induct)
  case (2 out x xs)
  then obtain n where n: "normalize_serialization_mode x = Inr n"
    and rest: "normalize_modes_loop (if n = [] \<or> n \<in> set out then out else out @ [n]) xs = Inr ms"
    by (auto simp: ebind_eq_Inr)
  show ?case
    using normalize_mode_Inr(1) [OF n] "2.prems" by (intro "2.IH" [OF rest]) auto
qed auto

lemma normalize_all_kept_id:
  "set xs \<subseteq> set SUPPORTED_SERIALIZATION_MODES \<Longrightarrow> normalize_all_kept xs = Inr xs"
  using normalize_supported by (induction xs) auto

lemma policy_limits_ok:
  assumes "normalize_policy_limit_values a b c d = (pt, ph, rt, rh)"
  shows "1 \<le> pt \<and> pt \<le> ph \<and> 1 \<le> rt \<and> rt \<le> rh"
  using assms by (auto simp: normalize_policy_limit_values_def Let_def)

lemma profile_post_init_modes:
  assumes "policy_profile_post_init p0 = Inr p"
  shows "set (pp_allowed_modes p) \<subseteq> set SUPPORTED_SERIALIZATION_MODES" "pp_allowed_modes p \<noteq> []"
    "pp_default_mode p \<in> set (pp_allowed_modes p)"
proof -
  obtain modes d0 where m: "normalize_modes (pp_allowed_modes p0) = Inr modes"
    and d0: "normalize_serialization_mode (pp_default_mode p0) = Inr d0"
    using assms by (auto simp: policy_profile_post_init_def Let_def ebind_eq_Inr split: if_splits)
  have sup: "set modes \<subseteq> set SUPPORTED_SERIALIZATION_MODES" "modes \<noteq> []"
    using m normalize_modes_loop_Inr [of "[]" "pp_allowed_modes p0" modes]
    by (auto simp: normalize_modes_def ebind_eq_Inr split: if_splits)
  define R where "R = (\<not> pp_allow_pickle_stable p0 \<and> (\<exists>m \<in> set modes. m \<in> set PICKLE_SERIALIZATION_MODES))"
  define modes' where "modes' = (if R then no_pickle modes else modes)"
  define d where "d = (if d0 = [] then hd modes else d0)"
  have "d \<in> set modes \<and> modes' \<noteq> [] \<and> pp_allowed_modes p = modes' \<and>
      pp_default_mode p = (if R \<and> d \<in> set PICKLE_SERIALIZATION_MODES then hd modes' else d)"
    using assms m d0 unfolding policy_profile_post_init_def
    by (simp add: Let_def R_def [symmetric] modes'_def [symmetric] d_def [symmetric] split: if_split_asm prod.splits)
      (force simp: modes'_def)+
  moreover have "set (no_pickle modes) = set modes - set PICKLE_SERIALIZATION_MODES" by (auto simp: no_pickle_def)
  ultimately show "set (pp_allowed_modes p) \<subseteq> set SUPPORTED_SERIALIZATION_MODES" "pp_allowed_modes p \<noteq> []"
    "pp_default_mode p \<in> set (pp_allowed_modes p)"
    using sup hd_in_set [of modes'] by (auto simp: modes'_def split: if_splits)
qed

lemma allowed_modes_Inr:
  assumes "allowed_modes_for_context p ctx = Inr allowed"
  shows "allowed \<noteq> []" "set allowed \<subseteq> set (pp_allowed_modes p)"
    "\<not> pp_allow_pickle_stable p \<or> (lower (strip ctx) = ''gateway_public'' \<and> \<not> pp_public_gateway_allow_pickle p)
      \<Longrightarrow> set allowed \<inter> set PICKLE_SERIALIZATION_MODES = {}"
  using assms by (auto simp: allowed_modes_for_context_def no_pickle_def Let_def split: if_splits)

lemma effective_post_init_Inr:
  assumes "effective_policy_post_init e = Inr e'" and "set (ep_allowed_modes e) \<subseteq> set SUPPORTED_SERIALIZATION_MODES"
    and "ep_resolved_mode e \<in> set (ep_allowed_modes e)"
  shows "ep_allowed_modes e' = ep_allowed_modes e" "ep_resolved_mode e' = ep_resolved_mode e"
    "1 \<le> ep_payload_threshold e' \<and> ep_payload_threshold e' \<le> ep_payload_hard e' \<and>
     1 \<le> ep_result_threshold e' \<and> ep_result_threshold e' \<le> ep_result_hard e'"
    "ep_use_http_raw_bytes_body e' = ep_use_http_raw_bytes_body e"
    "ep_use_raw_bytes_payload e' = ep_use_raw_bytes_payload e"
proof -
  have "normalize_serialization_mode (ep_resolved_mode e) = Inr (ep_resolved_mode e)" "ep_resolved_mode e \<noteq> []"
    using assms(2,3) normalize_supported by blast+
  with assms show "ep_allowed_modes e' = ep_allowed_modes e" "ep_resolved_mode e' = ep_resolved_mode e"
    "1 \<le> ep_payload_threshold e' \<and> ep_payload_threshold e' \<le> ep_payload_hard e' \<and>
     1 \<le> ep_result_threshold e' \<and> ep_result_threshold e' \<le> ep_result_hard e'"
    "ep_use_http_raw_bytes_body e' = ep_use_http_raw_bytes_body e"
    "ep_use_raw_bytes_payload e' = ep_use_raw_bytes_payload e"
    using policy_limits_ok
    by (auto simp: effective_policy_post_init_def normalize_all_kept_id Let_def split: if_splits prod.splits)
qed

text \<open>What an effective policy promises, as the interface its users rely on.\<close>

locale mode_policy =
  fixes resolve :: "'p \<Rightarrow> string \<Rightarrow> string \<Rightarrow> py_error + 'e"
    and permitted :: "'p \<Rightarrow> string \<Rightarrow> string set"
    and mode_of :: "'e \<Rightarrow> string"
    and good :: "'p \<Rightarrow> bool"
  assumes resolve_permitted: "good p \<Longrightarrow> resolve p req ctx = Inr e \<Longrightarrow> mode_of e \<in> permitted p ctx"
    and permitted_normal: "good p \<Longrightarrow> m \<in> permitted p ctx \<Longrightarrow> normalize_serialization_mode m = Inr m"
    and resolve_again: "good p \<Longrightarrow> m \<in> permitted p ctx \<Longrightarrow> \<exists>e. resolve p m ctx = Inr e \<and> mode_of e = m"
begin

text \<open>A mode once resolved is a fixed point: asking for it again yields it.\<close>

lemma resolve_stable:
  assumes "good p" and "resolve p req ctx = Inr e"
  shows "\<exists>e'. resolve p (mode_of e) ctx = Inr e' \<and> mode_of e' = mode_of e"
  using resolve_again [OF assms(1) resolve_permitted [OF assms]] .

end

definition profile_ok :: "policy_profile \<Rightarrow> bool" where
  "profile_ok p \<longleftrightarrow> set (pp_allowed_modes p) \<subseteq> set SUPPORTED_SERIALIZATION_MODES"

definition permitted_modes :: "policy_profile \<Rightarrow> string \<Rightarrow> string set" where
  "permitted_modes p ctx = (case allowed_modes_for_context p ctx of Inl _ \<Rightarrow> {} | Inr ms \<Rightarrow> set ms)"

lemma resolve_effective_Inr:
  assumes ok: "profile_ok p" and e: "resolve_effective_policy p req ctx strict = Inr e"
  obtains allowed r where "allowed_modes_for_context p ctx = Inr allowed"
    and "normalize_serialization_mode req = Inr r"
    and "ep_allowed_modes e = allowed" and "ep_resolved_mode e \<in> set allowed"
    and "r \<in> set allowed \<Longrightarrow> ep_resolved_mode e = r"
    and "strict \<Longrightarrow> r \<noteq> [] \<Longrightarrow> ep_resolved_mode e = r"
    and "1 \<le> ep_payload_threshold e \<and> ep_payload_threshold e \<le> ep_payload_hard e \<and>
         1 \<le> ep_result_threshold e \<and> ep_result_threshold e \<le> ep_result_hard e"
    and "ep_use_http_raw_bytes_body e \<Longrightarrow> ep_use_raw_bytes_payload e \<and> ep_resolved_mode e \<noteq> ''legacy_v1''"
proof -
  obtain allowed r where a: "allowed_modes_for_context p ctx = Inr allowed"
    and r: "normalize_serialization_mode req = Inr r"
    using e by (auto simp: resolve_effective_policy_def ebind_eq_Inr)
  define res where "res = (if r \<noteq> [] then (if r \<notin> set allowed then
      (if ''structured_v1'' \<in> set allowed then ''structured_v1'' else hd allowed) else r)
    else if pp_default_mode p \<in> set allowed then pp_default_mode p else hd allowed)"
  note al = allowed_modes_Inr [OF a]
  have sup: "set allowed \<subseteq> set SUPPORTED_SERIALIZATION_MODES"
    using al ok by (auto simp: profile_ok_def)
  have res: "res \<in> set allowed" using al(1) by (auto simp: res_def)
  have nonempty: "[] \<notin> set allowed" using sup normalize_supported by blast
  have strict: "strict \<Longrightarrow> r \<noteq> [] \<Longrightarrow> r \<in> set allowed"
    using e a r by (auto simp: resolve_effective_policy_def Let_def split: if_splits)
  obtain e0 where e0: "effective_policy_post_init e0 = Inr e" "ep_allowed_modes e0 = allowed"
    "ep_resolved_mode e0 = res" "ep_use_raw_bytes_payload e0 = (pp_use_raw_bytes_payload p \<and> res \<noteq> ''legacy_v1'')"
    "ep_use_http_raw_bytes_body e0 \<longrightarrow> ep_use_raw_bytes_payload e0"
    using e a r unfolding resolve_effective_policy_def Let_def res_def
    by (simp split: if_split_asm prod.splits)
  note post = effective_post_init_Inr [OF e0(1)]
  show ?thesis
    by (rule that [OF a r]) (use post e0 res sup nonempty strict in \<open>auto simp: res_def\<close>)
qed

lemma resolve_permitted_again:
  assumes ok: "profile_ok p" and m: "m \<in> permitted_modes p ctx"
  shows "\<exists>e. resolve_effective_policy p m ctx strict = Inr e \<and> ep_resolved_mode e = m"
proof -
  obtain allowed where a: "allowed_modes_for_context p ctx = Inr allowed" and m': "m \<in> set allowed"
    using m by (auto simp: permitted_modes_def split: sum.splits)
  have sup: "set allowed \<subseteq> set SUPPORTED_SERIALIZATION_MODES"
    using allowed_modes_Inr(2) [OF a] ok by (auto simp: profile_ok_def)
  have nm: "normalize_serialization_mode m = Inr m" "m \<noteq> []" using sup m' normalize_supported by blast+
  have "\<exists>e. resolve_effective_policy p m ctx strict = Inr e"
    using a m' nm normalize_all_kept_id [OF sup]
    by (auto simp: resolve_effective_policy_def effective_policy_post_init_def Let_def split: prod.splits)
  then obtain e where e: "resolve_effective_policy p m ctx strict = Inr e" ..
  have "ep_resolved_mode e = m"
    by (rule resolve_effective_Inr [OF ok e]) (use nm a m' in auto)
  with e show ?thesis by blast
qed

interpretation policy: mode_policy "\<lambda>p req ctx. resolve_effective_policy p req ctx strict" permitted_modes
    ep_resolved_mode profile_ok
  for strict :: bool
proof unfold_locales
  fix p :: policy_profile and req ctx e
  assume ok: "profile_ok p" and e: "resolve_effective_policy p req ctx strict = Inr e"
  show "ep_resolved_mode e \<in> permitted_modes p ctx"
    by (rule resolve_effective_Inr [OF ok e]) (simp add: permitted_modes_def)
next
  fix p :: policy_profile and m ctx
  assume ok: "profile_ok p" and m: "m \<in> permitted_modes p ctx"
  then show "normalize_serialization_mode m = Inr m"
    using normalize_supported allowed_modes_Inr(2)
    by (force simp: permitted_modes_def profile_ok_def split: sum.splits)
  show "\<exists>e. resolve_effective_policy p m ctx strict = Inr e \<and> ep_resolved_mode e = m"
    by (rule resolve_permitted_again [OF ok m])
qed

section \<open>Properties of policies\<close>

text \<open>
  C22: an effective policy is sound. For a profile the constructor accepted, when resolving a
  requested mode in a context returns, the resolved mode is among the policy's allowed modes,
  these are supported modes of the profile, pickle modes are absent when the profile forbids
  them or the context is the public gateway and the profile does not open it, the inline
  thresholds lie between 1 and their hard limits, raw HTTP bodies imply raw payloads and a
  mode other than legacy, and under strict resolution a request that is not blank is honoured.
\<close>
theorem effective_policy_sound:
  assumes "policy_profile_post_init p0 = Inr p" and "resolve_effective_policy p req ctx strict = Inr e"
  shows "ep_resolved_mode e \<in> set (ep_allowed_modes e)
    \<and> set (ep_allowed_modes e) \<subseteq> set (pp_allowed_modes p)
    \<and> set (pp_allowed_modes p) \<subseteq> set SUPPORTED_SERIALIZATION_MODES
    \<and> (\<not> pp_allow_pickle_stable p \<or> (lower (strip ctx) = ''gateway_public'' \<and> \<not> pp_public_gateway_allow_pickle p)
         \<longrightarrow> set (ep_allowed_modes e) \<inter> set PICKLE_SERIALIZATION_MODES = {})
    \<and> 1 \<le> ep_payload_threshold e \<and> ep_payload_threshold e \<le> ep_payload_hard e
    \<and> 1 \<le> ep_result_threshold e \<and> ep_result_threshold e \<le> ep_result_hard e
    \<and> (ep_use_http_raw_bytes_body e \<longrightarrow> ep_use_raw_bytes_payload e \<and> ep_resolved_mode e \<noteq> ''legacy_v1'')
    \<and> (strict \<and> strip req \<noteq> [] \<longrightarrow> ep_resolved_mode e = lower (strip req))"
proof -
  have ok: "profile_ok p" using profile_post_init_modes(1) [OF assms(1)] by (simp add: profile_ok_def)
  have req: "r = lower (strip req)" if "normalize_serialization_mode req = Inr r" for r
    using that by (auto simp: normalize_serialization_mode_def Let_def split: if_splits)
  obtain allowed r where f: "allowed_modes_for_context p ctx = Inr allowed"
    "normalize_serialization_mode req = Inr r" "ep_allowed_modes e = allowed" "ep_resolved_mode e \<in> set allowed"
    "strict \<longrightarrow> r \<noteq> [] \<longrightarrow> ep_resolved_mode e = r"
    "1 \<le> ep_payload_threshold e \<and> ep_payload_threshold e \<le> ep_payload_hard e \<and>
         1 \<le> ep_result_threshold e \<and> ep_result_threshold e \<le> ep_result_hard e"
    "ep_use_http_raw_bytes_body e \<longrightarrow> ep_use_raw_bytes_payload e \<and> ep_resolved_mode e \<noteq> ''legacy_v1''"
    by (rule resolve_effective_Inr [OF ok assms(2)]) blast
  have "strict \<and> strip req \<noteq> [] \<longrightarrow> ep_resolved_mode e = lower (strip req)"
    using req [OF f(2)] f(5) by simp
  then show ?thesis
    using f allowed_modes_Inr(2,3) [OF f(1)] profile_post_init_modes(1) [OF assms(1)] by simp
qed

definition sample_trusted :: policy_profile where
  "sample_trusted = profile_args ''trusted_internal''
     [''legacy_v1'', ''structured_v1'', ''pickle_stable_v1'', ''pickle_native_v1''] ''pickle_stable_v1'' (10, 50, 100, 100) True"

theorem effective_policy_sound_witness:
  "\<exists>e. resolve_effective_policy sample_trusted ''pickle_stable_v1'' ''gateway_public'' False = Inr e
    \<and> set (ep_allowed_modes e) \<inter> set PICKLE_SERIALIZATION_MODES = {}"
proof -
  have p: "policy_profile_post_init sample_trusted = Inr sample_trusted" by code_simp
  have "\<not> is_error (resolve_effective_policy sample_trusted ''pickle_stable_v1'' ''gateway_public'' False)"
    by code_simp
  then obtain e where e: "resolve_effective_policy sample_trusted ''pickle_stable_v1'' ''gateway_public'' False = Inr e"
    by (rule not_is_errorE)
  have "lower (strip ''gateway_public'') = ''gateway_public'' \<and> \<not> pp_public_gateway_allow_pickle sample_trusted"
    by code_simp
  with effective_policy_sound [OF p e] e show ?thesis by blast
qed

text \<open>
  resolved modes respect restricted transports. Whatever the environment's mode, the
  requested, session and default modes, the allowed set, the frozen mode and strictness, when
  the resolution returns it returns a supported mode, and in a restricted context (public
  gateway, untrusted transport) never a pickle mode.
\<close>
theorem resolved_mode_safe:
  assumes "resolve_effective_serialization_mode env req session dflt ctx allowed frozen strict = Inr m"
  shows "m \<in> set SUPPORTED_SERIALIZATION_MODES
    \<and> (lower (strip ctx) \<in> set PICKLE_RESTRICTED_CONTEXTS \<longrightarrow> m \<notin> set PICKLE_SERIALIZATION_MODES)"
proof -
  obtain f where f: "normalize_serialization_mode frozen = Inr f"
    using assms by (auto simp: resolve_effective_serialization_mode_def ebind_eq_Inr)
  have "safe_mode ctx m"
  proof (cases "f = []")
    case True
    then obtain ms where "pick_candidate_mode req ms ctx strict [req, session, dflt, env, ''legacy_v1''] = Inr m"
      using assms f unfolding resolve_effective_serialization_mode_def
      by (simp only: ebind_simps if_False if_True simp_thms ebind_eq_Inr) blast
    then show ?thesis by (rule pick_candidate_mode_safe)
  next
    case False
    then have "validate_mode_for_context f ctx strict = Inr m"
      using assms f unfolding resolve_effective_serialization_mode_def
      by (auto simp del: pick_candidate_mode.simps simp add: ebind_eq_Inr split: if_split_asm)
    then show ?thesis by (rule validate_mode_safe)
  qed
  then show ?thesis by (simp add: safe_mode_def)
qed

theorem resolved_mode_safe_witness:
  "resolve_effective_serialization_mode ''legacy_v1'' ''pickle_stable_v1'' [] [] ''gateway_public'' [] [] False = Inr ''structured_v1''
    \<and> ''structured_v1'' \<notin> set PICKLE_SERIALIZATION_MODES"
proof -
  have r: "resolve_effective_serialization_mode ''legacy_v1'' ''pickle_stable_v1'' [] [] ''gateway_public'' [] [] False
      = Inr ''structured_v1''" by code_simp
  have "lower (strip ''gateway_public'') \<in> set PICKLE_RESTRICTED_CONTEXTS" by code_simp
  with resolved_mode_safe [OF r] r show ?thesis by blast
qed

text \<open>
  an allowed set is not binding by default. With no requested, session or default mode and
  the environment at its default, the resolution returns legacy_v1 even when a set of allowed
  modes is given that does not contain it, strict or not.
\<close>
theorem default_mode_escapes_allowed:
  assumes "normalize_all allowed = Inr ms" and "''legacy_v1'' \<notin> set ms"
  shows "resolve_effective_serialization_mode ''legacy_v1'' [] [] [] ctx allowed [] strict
    = (if ms = [] then validate_mode_for_context ''legacy_v1'' ctx strict else Inr ''legacy_v1'')"
proof -
  have "normalize_serialization_mode ''legacy_v1'' = Inr ''legacy_v1''" "normalize_serialization_mode [] = Inr []"
    by code_simp+
  then show ?thesis using assms by (simp add: resolve_effective_serialization_mode_def)
qed

theorem default_mode_escapes_allowed_witness:
  "resolve_effective_serialization_mode ''legacy_v1'' [] [] [] ''taskpool_session'' [''structured_v1''] [] True = Inr ''legacy_v1''"
proof -
  have "normalize_all [''structured_v1''] = Inr [''structured_v1'']" by code_simp
  from default_mode_escapes_allowed [OF this] show ?thesis by simp
qed

end
