(* ===== verification/JobPayload.thy ===== *)
theory JobPayload
  imports DataRefs
begin

text \<open>
  The payload functions of the job queue, \<open>src/src/pycloud_parallel/controlplane/job_queue.py\<close>
  lines 60 to 580: data references inside a payload, their delayed validation and their
  resolution with retries, previews, timing values, the test for hook jobs. The clients of
  the data registry and of the nodes are arguments; each attempt may answer differently.
\<close>

section \<open>Small helpers\<close>

definition artifact_suffix :: "string \<Rightarrow> string" where
  "artifact_suffix package_format =
    (let normalized = lower (strip package_format) in
     if normalized = ''tar.gz'' then ''.tar.gz''
     else if normalized = ''zip'' then ''.zip''
     else if normalized = ''whl'' then ''.whl''
     else ''.py'')"

definition round_half_even :: "rat \<Rightarrow> int" where
  "round_half_even x =
    (let f = \<lfloor>x\<rfloor>; r = x - of_int f in
     if r < 1 / 2 then f else if 1 / 2 < r then f + 1 else if even f then f else f + 1)"

definition round3 :: "rat \<Rightarrow> rat" where
  "round3 x = of_int (round_half_even (x * 1000)) / 1000"

text \<open>\<open>_ms\<close>: seconds to milliseconds, never negative.\<close>

definition ms :: "rat \<Rightarrow> rat" where
  "ms delta_sec = round3 (max 0 delta_sec * 1000)"

definition artifact_key_preview :: "string \<Rightarrow> string" where
  "artifact_key_preview v =
    (let txt = strip v in if length txt \<le> 24 then txt else take 24 txt @ ''...'')"

text \<open>\<open>s.split()\<close>.\<close>

fun words :: "string \<Rightarrow> string \<Rightarrow> string list" where
  "words acc [] = (if acc = [] then [] else [acc])"
| "words acc (c # cs) =
    (if py_space c then (if acc = [] then words [] cs else acc # words [] cs)
     else words (acc @ [c]) cs)"

definition preview_job_value :: "(pyval \<Rightarrow> string) \<Rightarrow> pyval \<Rightarrow> int \<Rightarrow> string" where
  "preview_job_value dumps v limit =
    (if v = PNone then []
     else
       let normalized = join_with '' '' (words [] (dumps v)) in
       if int (length normalized) \<le> max 16 limit then normalized
       else take (nat (max 13 (limit - 3))) normalized @ ''...'')"

definition default_timing_summary :: payload where
  "default_timing_summary =
    [(''queue_wait_ms'', PFloat 0), (''resolve_refs_ms'', PFloat 0), (''select_nodes_ms'', PFloat 0),
     (''pool_prepare_ms'', PFloat 0), (''executor_create_ms'', PFloat 0), (''executor_rebuild_ms'', PFloat 0),
     (''warmup_ms'', PFloat 0), (''fanout_globals_ms'', PFloat 0), (''running_tasks_ms'', PFloat 0),
     (''first_result_wait_ms'', PFloat 0), (''finalize_ms'', PFloat 0), (''terminal_writeback_ms'', PFloat 0),
     (''total_ms'', PFloat 0), (''executor_create_count'', PInt 0), (''executor_rebuild_count'', PInt 0),
     (''pool_reuse_count'', PInt 0), (''result_count'', PInt 0), (''task_count'', PInt 0),
     (''pool_action'', PStr [])]"

definition uses_job_hooks :: "(pyval \<Rightarrow> string) \<Rightarrow> payload \<Rightarrow> bool" where
  "uses_job_hooks rep p \<longleftrightarrow>
     lower (strip (get_str rep p ''job_mode'')) = ''hooks'' \<or>
     (\<exists>name \<in> set [''task_generator_callable'', ''handle_result_callable'', ''finalize_callable'', ''update_globals''].
        strip (get_str rep p name) \<noteq> [])"

definition job_source_mode :: "(pyval \<Rightarrow> string) \<Rightarrow> payload \<Rightarrow> string" where
  "job_source_mode rep p = lower (strip (get_str rep p ''source_mode''))"

definition is_local_module_import_job :: "(pyval \<Rightarrow> string) \<Rightarrow> payload \<Rightarrow> string \<Rightarrow> bool" where
  "is_local_module_import_job rep p controlplane_target \<longleftrightarrow>
     lower (strip controlplane_target) = ''local'' \<and> job_source_mode rep p = ''module_import''"

definition auth_token_digest :: "(string \<Rightarrow> string) \<Rightarrow> string \<Rightarrow> string" where
  "auth_token_digest sha256_hex token =
    (let normalized = strip token in if normalized = [] then [] else sha256_hex normalized)"

text \<open>The two environment variables in the order they are tried.\<close>

definition job_auth_ttl_sec :: "string list \<Rightarrow> int" where
  "job_auth_ttl_sec env_values =
    (case List.map_filter (\<lambda>raw. if strip raw = [] then None else parse_int raw) env_values of
       [] \<Rightarrow> 24 * 60 * 60 | n # _ \<Rightarrow> max 60 n)"

definition default_job_worker_count :: "int \<Rightarrow> int" where
  "default_job_worker_count cpu_count = max 1 \<lfloor>of_int (num_or cpu_count 1) * (1 / 2 :: rat)\<rfloor>"

text \<open>
  \<open>pool_workers\<close> is the list of worker counts of the executor's pools, where it has pools;
  \<open>resolved\<close> the answer of the executor's own resolver, where it has one that does not raise.
\<close>

definition resolve_job_executor_max_in_flight ::
  "int list \<Rightarrow> int option \<Rightarrow> int \<Rightarrow> pyval \<Rightarrow> int" where
  "resolve_job_executor_max_in_flight pool_workers resolved worker_count requested =
    (let normalized = (if requested = PNone then 0 else case py_int requested of Inl _ \<Rightarrow> 0 | Inr n \<Rightarrow> n);
         total = sum_list (map (max 0) pool_workers)
     in if normalized > 0 then max 1 normalized
        else if pool_workers \<noteq> [] \<and> total > 0 then max 1 \<lceil>of_int total * (3 / 2 :: rat)\<rceil>
        else case resolved of
          Some r \<Rightarrow> max 1 r
        | None \<Rightarrow> max 1 (num_or (max 0 worker_count) 1))"

definition normalize_job_payload :: "pyval \<Rightarrow> py_error + payload" where
  "normalize_job_payload v = (case v of
     PNone \<Rightarrow> Inr [] | PDict d \<Rightarrow> Inr d | _ \<Rightarrow> Inl (RuntimeError ''job_payload must be dict''))"

section \<open>References inside a payload\<close>

definition DELAYED_RESOLVE_SKIP_KEYS :: "string list" where
  "DELAYED_RESOLVE_SKIP_KEYS = [''blob_ref'', ''blob_b64'', ''blob_control_addr'']"

definition should_skip_delayed_resolve_key :: "string \<Rightarrow> string \<Rightarrow> bool" where
  "should_skip_delayed_resolve_key path key \<longleftrightarrow> strip path = ''payload'' \<and> strip key \<in> set DELAYED_RESOLVE_SKIP_KEYS"

fun collect_walk :: "(pyval \<Rightarrow> string) \<Rightarrow> string \<Rightarrow> pyval \<Rightarrow> string list \<Rightarrow> string list"
  and collect_items :: "(pyval \<Rightarrow> string) \<Rightarrow> string \<Rightarrow> (string \<times> pyval) list \<Rightarrow> string list \<Rightarrow> string list"
  and collect_elems :: "(pyval \<Rightarrow> string) \<Rightarrow> string \<Rightarrow> nat \<Rightarrow> pyval list \<Rightarrow> string list \<Rightarrow> string list" where
  "collect_walk rep path v out =
    (case maybe_data_ref rep v of
       Some r \<Rightarrow> (let rid = strip (ref_id r) in if rid \<noteq> [] \<and> rid \<notin> set out then out @ [rid] else out)
     | None \<Rightarrow> (case v of
         PDict d \<Rightarrow> collect_items rep path d out
       | PList xs \<Rightarrow> collect_elems rep path 0 xs out
       | _ \<Rightarrow> out))"
| "collect_items rep path [] out = out"
| "collect_items rep path ((k, v) # d) out =
    collect_items rep path d
      (if should_skip_delayed_resolve_key path k then out else collect_walk rep (path @ ''.'' @ k) v out)"
| "collect_elems rep path i [] out = out"
| "collect_elems rep path i (v # xs) out =
    collect_elems rep path (Suc i) xs (collect_walk rep (path @ ''['' @ str_int (int i) @ '']'') v out)"

definition collect_payload_data_ref_ids :: "(pyval \<Rightarrow> string) \<Rightarrow> pyval \<Rightarrow> string list" where
  "collect_payload_data_ref_ids rep v = collect_walk rep ''payload'' v []"

text \<open>The two conditions under which a reference cannot be resolved later.\<close>

definition validate_ref :: "data_ref \<Rightarrow> py_error + unit" where
  "validate_ref r =
    (let locator_kind = lower (strip (ref_locator_kind r));
         nowhere = (strip (ref_locator_token r) = [] \<and> strip (ref_control_addr r) = [])
     in if locator_kind = ''node_local'' \<and> nowhere
        then Inl (ValueError ''large-data reference without a resolvable locator'')
        else if locator_kind = ''node_control'' \<and> nowhere
        then Inl (ValueError ''node_control DataRef without control_addr'')
        else Inr ())"

fun validate_walk :: "(pyval \<Rightarrow> string) \<Rightarrow> string \<Rightarrow> pyval \<Rightarrow> py_error + unit"
  and validate_items :: "(pyval \<Rightarrow> string) \<Rightarrow> string \<Rightarrow> (string \<times> pyval) list \<Rightarrow> py_error + unit"
  and validate_elems :: "(pyval \<Rightarrow> string) \<Rightarrow> string \<Rightarrow> nat \<Rightarrow> pyval list \<Rightarrow> py_error + unit" where
  "validate_walk rep path v =
    (case maybe_data_ref rep v of
       Some r \<Rightarrow> validate_ref r
     | None \<Rightarrow> (case v of
         PDict d \<Rightarrow> validate_items rep path d
       | PList xs \<Rightarrow> validate_elems rep path 0 xs
       | _ \<Rightarrow> Inr ()))"
| "validate_items rep path [] = Inr ()"
| "validate_items rep path ((k, v) # d) =
    (if should_skip_delayed_resolve_key path k then validate_items rep path d
     else ebind (validate_walk rep (path @ ''.'' @ k) v) (\<lambda>_. validate_items rep path d))"
| "validate_elems rep path i [] = Inr ()"
| "validate_elems rep path i (v # xs) =
    ebind (validate_walk rep (path @ ''['' @ str_int (int i) @ '']'') v) (\<lambda>_. validate_elems rep path (Suc i) xs)"

definition validate_delayed_resolve_refs :: "(pyval \<Rightarrow> string) \<Rightarrow> pyval \<Rightarrow> py_error + unit" where
  "validate_delayed_resolve_refs rep v = validate_walk rep ''payload'' v"

section \<open>Resolving references\<close>

record resolved_ref =
  res_replica_addrs :: "string list"
  res_control_addr :: string

definition RESOLVE_BACKOFFS :: "rat list" where
  "RESOLVE_BACKOFFS = [0, 1 / 2, 1, 2]"

text \<open>One pass over the replicas: the value of the first that answers, or the last error.\<close>

fun fetch_from_replicas ::
  "(string \<Rightarrow> py_error + pyval) \<Rightarrow> string list \<Rightarrow> py_error option \<Rightarrow> py_error option + pyval" where
  "fetch_from_replicas fetch [] last_exc = Inl last_exc"
| "fetch_from_replicas fetch (a # as) last_exc =
    (if strip a = [] then fetch_from_replicas fetch as last_exc
     else case fetch (strip a) of
       Inr v \<Rightarrow> Inr v
     | Inl e \<Rightarrow> fetch_from_replicas fetch as (Some e))"

definition replica_addrs :: "resolved_ref \<Rightarrow> string list" where
  "replica_addrs res =
    (let replicas = filter (\<lambda>a. strip a \<noteq> []) (res_replica_addrs res) in
     if replicas = [] \<and> strip (res_control_addr res) \<noteq> [] then [strip (res_control_addr res)] else replicas)"

fun resolve_attempts ::
  "(nat \<Rightarrow> py_error + resolved_ref) \<Rightarrow> (nat \<Rightarrow> string \<Rightarrow> py_error + pyval) \<Rightarrow> nat \<Rightarrow> rat list
    \<Rightarrow> py_error option \<Rightarrow> py_error + pyval" where
  "resolve_attempts resolve fetch n [] last_exc = Inl (RuntimeError ''staging data unavailable'')"
| "resolve_attempts resolve fetch n (backoff # rest) last_exc =
    (case resolve n of
       Inl e \<Rightarrow> resolve_attempts resolve fetch (Suc n) rest (Some e)
     | Inr res \<Rightarrow>
         (case fetch_from_replicas (fetch n) (replica_addrs res) last_exc of
            Inr v \<Rightarrow> Inr v
          | Inl last' \<Rightarrow> resolve_attempts resolve fetch (Suc n) rest last'))"

fun resolve_walk ::
  "(pyval \<Rightarrow> string) \<Rightarrow> (data_ref \<Rightarrow> py_error + pyval) \<Rightarrow> string \<Rightarrow> pyval \<Rightarrow> py_error + pyval"
  and resolve_items ::
  "(pyval \<Rightarrow> string) \<Rightarrow> (data_ref \<Rightarrow> py_error + pyval) \<Rightarrow> string \<Rightarrow> (string \<times> pyval) list \<Rightarrow> py_error + (string \<times> pyval) list"
  and resolve_elems ::
  "(pyval \<Rightarrow> string) \<Rightarrow> (data_ref \<Rightarrow> py_error + pyval) \<Rightarrow> string \<Rightarrow> nat \<Rightarrow> pyval list \<Rightarrow> py_error + pyval list" where
  "resolve_walk rep get path v =
    (case maybe_data_ref rep v of
       Some r \<Rightarrow> get r
     | None \<Rightarrow> (case v of
         PDict d \<Rightarrow> ebind (resolve_items rep get path d) (\<lambda>d'. Inr (PDict d'))
       | PList xs \<Rightarrow> ebind (resolve_elems rep get path 0 xs) (\<lambda>xs'. Inr (PList xs'))
       | _ \<Rightarrow> Inr v))"
| "resolve_items rep get path [] = Inr []"
| "resolve_items rep get path ((k, v) # d) =
    ebind (if should_skip_delayed_resolve_key path k then Inr v else resolve_walk rep get (path @ ''.'' @ k) v)
      (\<lambda>v'. ebind (resolve_items rep get path d) (\<lambda>d'. Inr ((k, v') # d')))"
| "resolve_elems rep get path i [] = Inr []"
| "resolve_elems rep get path i (v # xs) =
    ebind (resolve_walk rep get (path @ ''['' @ str_int (int i) @ '']'') v)
      (\<lambda>v'. ebind (resolve_elems rep get path (Suc i) xs) (\<lambda>xs'. Inr (v' # xs')))"

text \<open>
  \<open>defer\<close> is the configuration \<open>defer_to_worker\<close>; \<open>resolve\<close> and \<open>fetch\<close> are the registry and
  node clients, by reference and attempt.
\<close>

definition resolve_payload_data_refs ::
  "(pyval \<Rightarrow> string) \<Rightarrow> bool \<Rightarrow> (data_ref \<Rightarrow> nat \<Rightarrow> py_error + resolved_ref)
    \<Rightarrow> (data_ref \<Rightarrow> nat \<Rightarrow> string \<Rightarrow> py_error + pyval) \<Rightarrow> pyval \<Rightarrow> py_error + pyval" where
  "resolve_payload_data_refs rep defer resolve fetch v =
    (if defer then ebind (validate_delayed_resolve_refs rep v) (\<lambda>_. Inr v)
     else resolve_walk rep (\<lambda>r. resolve_attempts (resolve r) (fetch r) 0 RESOLVE_BACKOFFS None) ''payload'' v)"

section \<open>The references a payload holds\<close>

text \<open>All references a walk meets, in order, duplicates kept: the specification of the walks.\<close>

fun refs_walk :: "(pyval \<Rightarrow> string) \<Rightarrow> string \<Rightarrow> pyval \<Rightarrow> data_ref list"
  and refs_items :: "(pyval \<Rightarrow> string) \<Rightarrow> string \<Rightarrow> (string \<times> pyval) list \<Rightarrow> data_ref list"
  and refs_elems :: "(pyval \<Rightarrow> string) \<Rightarrow> string \<Rightarrow> nat \<Rightarrow> pyval list \<Rightarrow> data_ref list" where
  "refs_walk rep path v =
    (case maybe_data_ref rep v of
       Some r \<Rightarrow> [r]
     | None \<Rightarrow> (case v of PDict d \<Rightarrow> refs_items rep path d | PList xs \<Rightarrow> refs_elems rep path 0 xs | _ \<Rightarrow> []))"
| "refs_items rep path [] = []"
| "refs_items rep path ((k, v) # d) =
    (if should_skip_delayed_resolve_key path k then [] else refs_walk rep (path @ ''.'' @ k) v) @ refs_items rep path d"
| "refs_elems rep path i [] = []"
| "refs_elems rep path i (v # xs) =
    refs_walk rep (path @ ''['' @ str_int (int i) @ '']'') v @ refs_elems rep path (Suc i) xs"

definition payload_refs :: "(pyval \<Rightarrow> string) \<Rightarrow> pyval \<Rightarrow> data_ref list" where
  "payload_refs rep v = refs_walk rep ''payload'' v"

definition add_ref_id :: "data_ref \<Rightarrow> string list \<Rightarrow> string list" where
  "add_ref_id r out = (let rid = strip (ref_id r) in if rid \<noteq> [] \<and> rid \<notin> set out then out @ [rid] else out)"

lemma collect_fold:
  "collect_walk rep path v out = fold add_ref_id (refs_walk rep path v) out"
  "collect_items rep path d out = fold add_ref_id (refs_items rep path d) out"
  "collect_elems rep path i xs out = fold add_ref_id (refs_elems rep path i xs) out"
proof (induction rep path v out and rep path d out and rep path i xs out
    rule: collect_walk_collect_items_collect_elems.induct)
  case (1 rep path v out)
  then show ?case by (auto simp: add_ref_id_def split: option.split pyval.split)
qed auto

lemma validate_all:
  "validate_walk rep path v = Inr () \<longleftrightarrow> (\<forall>r \<in> set (refs_walk rep path v). validate_ref r = Inr ())"
  "validate_items rep path d = Inr () \<longleftrightarrow> (\<forall>r \<in> set (refs_items rep path d). validate_ref r = Inr ())"
  "validate_elems rep path i xs = Inr () \<longleftrightarrow> (\<forall>r \<in> set (refs_elems rep path i xs). validate_ref r = Inr ())"
proof (induction rep path v and rep path d and rep path i xs
    rule: validate_walk_validate_items_validate_elems.induct)
  case (1 rep path v)
  then show ?case by (auto split: option.split pyval.split)
qed (auto simp: ebind_eq_Inr)

lemma fold_add_ref_id:
  "set (fold add_ref_id rs out) = set out \<union> {strip (ref_id r) |r. r \<in> set rs \<and> strip (ref_id r) \<noteq> []}"
  "distinct out \<Longrightarrow> distinct (fold add_ref_id rs out)"
  by (induction rs arbitrary: out) (auto simp: add_ref_id_def Let_def)

lemma replica_addrs_nonblank: "a \<in> set (replica_addrs res) \<Longrightarrow> strip a \<noteq> []"
  by (auto simp: replica_addrs_def Let_def split: if_splits)

lemma fetch_from_replicas_ok:
  assumes "\<And>a. a \<in> set as \<Longrightarrow> strip a \<noteq> []"
  shows "(\<exists>v. fetch_from_replicas fetch as le = Inr v) \<longleftrightarrow> (\<exists>a \<in> set as. \<not> is_error (fetch (strip a)))"
  using assms by (induction as arbitrary: le) (auto split: sum.split)

lemma resolve_attempts_ok:
  "(\<exists>v. resolve_attempts resolve fetch n backoffs le = Inr v) \<longleftrightarrow>
     (\<exists>i < length backoffs. \<exists>res. resolve (n + i) = Inr res \<and>
        (\<exists>a \<in> set (replica_addrs res). \<not> is_error (fetch (n + i) (strip a))))"
proof (induction backoffs arbitrary: n le)
  case Nil
  then show ?case by simp
next
  case (Cons b bs)
  let ?hit = "\<lambda>i. \<exists>res. resolve i = Inr res \<and> (\<exists>a \<in> set (replica_addrs res). \<not> is_error (fetch i (strip a)))"
  have split: "(\<exists>i < length (b # bs). ?hit (n + i)) \<longleftrightarrow> ?hit n \<or> (\<exists>i < length bs. ?hit (Suc n + i))"
    by (simp add: Ex_less_Suc2)
  show ?case
  proof (cases "resolve n")
    case (Inl e)
    then show ?thesis unfolding split using Cons.IH [of "Suc n" "Some e"] by simp
  next
    case (Inr res)
    have ok: "(\<exists>v. fetch_from_replicas (fetch n) (replica_addrs res) le = Inr v) \<longleftrightarrow>
        (\<exists>a \<in> set (replica_addrs res). \<not> is_error (fetch n (strip a)))"
      by (rule fetch_from_replicas_ok) (rule replica_addrs_nonblank)
    show ?thesis
    proof (cases "fetch_from_replicas (fetch n) (replica_addrs res) le")
      case (Inl le')
      then have "\<not> ?hit n" using Inr ok by auto
      then show ?thesis unfolding split using Cons.IH [of "Suc n" le'] Inr Inl by simp
    next
      case (Inr v)
      then have "?hit n" using \<open>resolve n = Inr res\<close> ok by auto
      then show ?thesis unfolding split using Inr \<open>resolve n = Inr res\<close> by simp
    qed
  qed
qed

declare collect_walk.simps [simp del] validate_walk.simps [simp del] refs_walk.simps [simp del]
  resolve_attempts.simps(2) [simp del]

lemma resolve_walk_PRef: "resolve_walk rep get path (PRef r) = get r"
  by simp

section \<open>Properties of job payloads\<close>

text \<open>
  the collected reference ids are exact. The ids recorded for a payload are, without
  duplicates, the stripped ids of the references the payload holds outside the skipped blob
  fields, the blank ones left out.
\<close>
theorem collected_ref_ids_exact:
  "distinct (collect_payload_data_ref_ids rep v) \<and>
   set (collect_payload_data_ref_ids rep v) = (\<lambda>r. strip (ref_id r)) ` set (payload_refs rep v) - {[]}"
  using fold_add_ref_id [where rs = "payload_refs rep v" and out = "[]"]
  by (auto simp: collect_payload_data_ref_ids_def payload_refs_def collect_fold)

text \<open>
  the delayed validation is exact. Submitting a payload is accepted by the validation
  exactly when every reference it holds outside the skipped fields has a locator token or a
  control address, or is not of a node kind.
\<close>
theorem delayed_validation_exact:
  "validate_delayed_resolve_refs rep v = Inr () \<longleftrightarrow>
     (\<forall>r \<in> set (payload_refs rep v).
        lower (strip (ref_locator_kind r)) \<in> {''node_local'', ''node_control''} \<longrightarrow>
        strip (ref_locator_token r) \<noteq> [] \<or> strip (ref_control_addr r) \<noteq> [])"
proof -
  have "validate_ref r = Inr () \<longleftrightarrow> (lower (strip (ref_locator_kind r)) \<in> {''node_local'', ''node_control''} \<longrightarrow>
      strip (ref_locator_token r) \<noteq> [] \<or> strip (ref_control_addr r) \<noteq> [])" for r
    by (auto simp: validate_ref_def Let_def)
  then show ?thesis by (simp add: validate_delayed_resolve_refs_def payload_refs_def validate_all)
qed

definition lost_ref :: data_ref where
  "lost_ref = \<lparr>ref_id = ''r9'', ref_storage_id = ''r9'', ref_logical_type = ''bytes'', ref_format = ''bin'',
     ref_size_bytes = 1, ref_materialize_as = ''auto'', ref_locator_kind = ''node_local'', ref_locator_token = [],
     ref_consume_on_read = False, ref_node_id = [], ref_node_instance_id = [], ref_control_addr = []\<rparr>"

theorem delayed_validation_exact_witness:
  "validate_delayed_resolve_refs (\<lambda>_. []) (PDict [(''xs'', PList [PRef lost_ref])]) \<noteq> Inr ()
   \<and> validate_delayed_resolve_refs (\<lambda>_. []) (PDict [(''blob_ref'', PRef lost_ref)]) = Inr ()"
proof
  have "payload_refs (\<lambda>_. []) (PDict [(''xs'', PList [PRef lost_ref])]) = [lost_ref]" by code_simp
  then show "validate_delayed_resolve_refs (\<lambda>_. []) (PDict [(''xs'', PList [PRef lost_ref])]) \<noteq> Inr ()"
    unfolding delayed_validation_exact by (simp add: lost_ref_def) code_simp
  have "payload_refs (\<lambda>_. []) (PDict [(''blob_ref'', PRef lost_ref)]) = []" by code_simp
  then show "validate_delayed_resolve_refs (\<lambda>_. []) (PDict [(''blob_ref'', PRef lost_ref)]) = Inr ()"
    unfolding delayed_validation_exact by simp
qed

text \<open>
  resolution retries long enough and not longer. A reference is resolved exactly when in
  one of the four attempts the registry answers and one of the replicas it names answers;
  otherwise the resolution raises.
\<close>
theorem reference_resolution_exact:
  "(\<exists>w. resolve_payload_data_refs rep False resolve fetch (PRef r) = Inr w) \<longleftrightarrow>
     (\<exists>n < 4. \<exists>res. resolve r n = Inr res \<and>
        (\<exists>a \<in> set (replica_addrs res). \<not> is_error (fetch r n (strip a))))"
  using resolve_attempts_ok [of "resolve r" "fetch r" 0 RESOLVE_BACKOFFS None]
  by (simp add: resolve_payload_data_refs_def resolve_walk_PRef RESOLVE_BACKOFFS_def numeral_eq_Suc
      del: resolve_walk.simps)

theorem reference_resolution_exact_witness:
  "\<exists>w. resolve_payload_data_refs (\<lambda>_. []) False
     (\<lambda>_ n. if n < 3 then Inl (TimeoutError []) else Inr \<lparr>res_replica_addrs = [], res_control_addr = ''h:1''\<rparr>)
     (\<lambda>_ _ a. if a = ''h:1'' then Inr (PStr ''x'') else Inl (TimeoutError [])) (PRef lost_ref) = Inr w"
proof -
  have "replica_addrs \<lparr>res_replica_addrs = [], res_control_addr = ''h:1''\<rparr> = [''h:1'']" "strip ''h:1'' = ''h:1''"
    by code_simp+
  then show ?thesis unfolding reference_resolution_exact by (auto intro!: exI [of _ "3 :: nat"])
qed

end
