(* ===== verification/JobQueue.thy ===== *)
theory JobQueue
  imports JobPayload Policy
begin

text \<open>
  The job queue manager, \<open>src/src/pycloud_parallel/controlplane/job_queue.py\<close> from line 582: the
  jobs, the waiting order, the scheduler thread and the shared task pool. Every block the code
  runs under its lock is one operation on the state; what it does to the outside (closing or
  cancelling an executor, touching or releasing references) is a list of effects in order.
  Executors are numbered; \<open>now\<close> is the wall clock and \<open>clock\<close> the monotonic clock the block reads.
\<close>

section \<open>State\<close>

record job_state =
  job_id :: string
  job_client_id :: string
  job_priority :: int
  job_status :: string
  job_submitted_at :: instant
  job_started_at :: "instant option"
  job_finished_at :: "instant option"
  job_code_version :: string
  job_entry_module :: string
  job_entry_callable :: string
  job_payload :: payload
  job_checkpoint :: payload
  job_cancel_requested :: bool
  job_error :: string
  job_results :: "pyval list"
  job_final_result :: pyval
  job_enqueue_seq :: int
  job_owner_digest :: string
  job_owner_expires :: "instant option"
  job_staged_ref_ids :: "string list"
  job_last_ref_touch :: "instant option"
  job_schema_version :: int
  job_timing :: payload
  job_final_preview :: string
  job_error_preview :: string
  job_marks :: "(string, instant) dict"

type_synonym executor = nat

record shared_pool =
  spool_executor :: executor
  spool_artifact_key :: string
  spool_policy_id :: string
  spool_current_mode :: string
  spool_last_used_at :: instant

record waiting_row =
  wr_job_id :: string
  wr_priority :: int
  wr_submitted_at :: instant
  wr_position :: nat

record job_summary =
  sum_job_count :: nat
  sum_waiting :: nat
  sum_running :: nat
  sum_succeeded :: nat
  sum_failed :: nat
  sum_cancelled :: nat
  sum_terminal :: nat
  sum_current_job_id :: string
  sum_current_job_status :: string
  sum_current_job_phase :: string
  sum_current_job_timing :: payload
  sum_recent_jobs :: "string list"
  sum_waiting_jobs :: "waiting_row list"
  sum_timing :: payload

text \<open>
  Where a scheduler thread stands: before its locked section, inside \<open>_run_job\<close>, after it,
  between the look at the finished job and the last section, or ended.
\<close>

datatype sched_pc = AtTop | Executing string | Returned string | Closing string | Dead

record job_queue =
  jq_jobs :: "(string, job_state) dict"
  jq_waiting :: "string list"
  jq_enqueue_seq :: int
  jq_running :: string
  jq_executor :: "executor option"
  jq_executor_jobs :: "(executor, string) dict"
  jq_shared :: "shared_pool option"
  jq_target :: string
  jq_stop :: bool
  jq_started :: bool
  jq_threads :: "sched_pc list"
  jq_handle :: "nat option"
  jq_cache :: "(job_summary \<times> instant) option"
  jq_revision :: int
  jq_cache_ttl :: rat
  jq_retention :: int
  jq_idle_ttl :: int

datatype effect =
    CloseExecutor executor
  | CancelOnExecutor executor string
  | ReleaseRefs string "string list"
  | TouchRefs string "string list"

definition new_job_queue :: "rat \<Rightarrow> int \<Rightarrow> int \<Rightarrow> job_queue" where
  "new_job_queue cache_ttl retention_sec pool_idle_ttl_sec =
    \<lparr>jq_jobs = [], jq_waiting = [], jq_enqueue_seq = 0, jq_running = [], jq_executor = None,
     jq_executor_jobs = [], jq_shared = None, jq_target = [], jq_stop = False, jq_started = False,
     jq_threads = [], jq_handle = None, jq_cache = None, jq_revision = 0,
     jq_cache_ttl = max 0 cache_ttl, jq_retention = max 60 retention_sec,
     jq_idle_ttl = max 0 pool_idle_ttl_sec\<rparr>"

definition is_terminal :: "string \<Rightarrow> bool" where
  "is_terminal s \<longleftrightarrow> s \<in> {''SUCCEEDED'', ''FAILED'', ''CANCELLED''}"

definition job_eligible :: "job_state \<Rightarrow> bool" where
  "job_eligible j \<longleftrightarrow> job_status j = ''WAITING'' \<and> \<not> job_cancel_requested j"

definition get_job_state :: "job_queue \<Rightarrow> string \<Rightarrow> job_state option" where
  "get_job_state q jid = dget (jq_jobs q) jid"

definition upd_job :: "string \<Rightarrow> (job_state \<Rightarrow> job_state) \<Rightarrow> job_queue \<Rightarrow> job_queue" where
  "upd_job jid f q = (case get_job_state q jid of
     None \<Rightarrow> q | Some j \<Rightarrow> q\<lparr>jq_jobs := dset jid (f j) (jq_jobs q)\<rparr>)"

definition opt_effect :: "executor option \<Rightarrow> effect list" where
  "opt_effect e = (case e of None \<Rightarrow> [] | Some x \<Rightarrow> [CloseExecutor x])"

section \<open>Summary cache and timing\<close>

definition invalidate_summary :: "job_queue \<Rightarrow> job_queue" where
  "invalidate_summary q = q\<lparr>jq_revision := jq_revision q + 1, jq_cache := None\<rparr>"

definition job_timing_mark :: "string \<Rightarrow> string \<Rightarrow> instant \<Rightarrow> job_queue \<Rightarrow> job_queue" where
  "job_timing_mark jid mark clock q =
     upd_job (strip jid) (\<lambda>j. j\<lparr>job_marks := dset mark clock (job_marks j)\<rparr>) q"

definition job_timing_finish :: "string \<Rightarrow> string \<Rightarrow> string \<Rightarrow> instant \<Rightarrow> job_queue \<Rightarrow> job_queue \<times> rat" where
  "job_timing_finish jid mark metric_key clock q =
    (case get_job_state q (strip jid) of
       None \<Rightarrow> (q, 0)
     | Some j \<Rightarrow>
         (case dget (job_marks j) mark of
            None \<Rightarrow> (q, 0)
          | Some started \<Rightarrow>
              (let elapsed_ms = ms (clock - started);
                   j' = j\<lparr>job_marks := dpop mark (job_marks j),
                          job_timing := dset metric_key (PFloat elapsed_ms) (job_timing j)\<rparr>
               in (invalidate_summary (q\<lparr>jq_jobs := dset (strip jid) j' (jq_jobs q)\<rparr>), elapsed_ms))))"

definition job_timing_finalize :: "string \<Rightarrow> instant \<Rightarrow> job_queue \<Rightarrow> job_queue" where
  "job_timing_finalize jid clock q =
    (case get_job_state q (strip jid) of
       None \<Rightarrow> q
     | Some j \<Rightarrow>
         (case dget (job_marks j) ''submitted_at_monotonic'' of
            None \<Rightarrow> q
          | Some submitted \<Rightarrow> invalidate_summary (upd_job (strip jid)
              (\<lambda>j. j\<lparr>job_timing := dset ''total_ms'' (PFloat (ms (clock - submitted))) (job_timing j)\<rparr>) q)))"

definition refresh_job_previews :: "(pyval \<Rightarrow> string) \<Rightarrow> string \<Rightarrow> job_queue \<Rightarrow> job_queue" where
  "refresh_job_previews dumps jid q =
    (case get_job_state q (strip jid) of
       None \<Rightarrow> q
     | Some _ \<Rightarrow> invalidate_summary (upd_job (strip jid)
         (\<lambda>j. j\<lparr>job_error_preview := preview_job_value dumps (PStr (job_error j)) 160,
                job_final_preview := preview_job_value dumps (job_final_result j) 160\<rparr>) q))"

section \<open>The waiting order\<close>

definition job_key :: "job_state \<Rightarrow> int \<times> instant \<times> int \<times> string" where
  "job_key j = (- job_priority j, job_submitted_at j, job_enqueue_seq j, job_id j)"

definition remove_waiting_job :: "string \<Rightarrow> job_queue \<Rightarrow> job_queue" where
  "remove_waiting_job jid q =
    (if strip jid = [] then q else q\<lparr>jq_waiting := filter (\<lambda>x. x \<noteq> strip jid) (jq_waiting q)\<rparr>)"

fun prune_loop :: "(string, job_state) dict \<Rightarrow> string list \<Rightarrow> string list \<Rightarrow> string list" where
  "prune_loop jobs seen [] = []"
| "prune_loop jobs seen (x # xs) =
    (if x \<in> set seen then prune_loop jobs seen xs
     else case dget jobs x of
       None \<Rightarrow> prune_loop jobs (x # seen) xs
     | Some j \<Rightarrow> if job_eligible j then x # prune_loop jobs (x # seen) xs else prune_loop jobs (x # seen) xs)"

definition prune_waiting_order :: "job_queue \<Rightarrow> job_queue" where
  "prune_waiting_order q = q\<lparr>jq_waiting := prune_loop (jq_jobs q) [] (jq_waiting q)\<rparr>"

text \<open>The first position whose job has a greater key, else the end.\<close>

fun insert_before_greater :: "(string, job_state) dict \<Rightarrow> job_state \<Rightarrow> string list \<Rightarrow> string list" where
  "insert_before_greater jobs j [] = [job_id j]"
| "insert_before_greater jobs j (x # xs) =
    (case dget jobs x of
       None \<Rightarrow> x # insert_before_greater jobs j xs
     | Some other \<Rightarrow> if job_key j < job_key other then job_id j # x # xs
         else x # insert_before_greater jobs j xs)"

definition insert_waiting_job :: "job_state \<Rightarrow> job_queue \<Rightarrow> job_queue" where
  "insert_waiting_job j q =
    (let q1 = prune_waiting_order q
     in q1\<lparr>jq_waiting := insert_before_greater (jq_jobs q1) j (jq_waiting q1)\<rparr>)"

definition pick_next_job :: "job_queue \<Rightarrow> job_queue \<times> string option" where
  "pick_next_job q =
    (let q1 = prune_waiting_order q;
         usable = filter (\<lambda>x. case get_job_state q1 x of None \<Rightarrow> False | Some j \<Rightarrow> job_eligible j) (jq_waiting q1)
     in case usable of
       x # _ \<Rightarrow> (q1, Some x)
     | [] \<Rightarrow>
         (let waiting = sort_key job_key (filter job_eligible (dvals (jq_jobs q1)))
          in case waiting of
            [] \<Rightarrow> (q1, None)
          | j # _ \<Rightarrow> (q1\<lparr>jq_waiting := map job_id waiting\<rparr>, Some (job_id j))))"

fun index_of :: "string \<Rightarrow> string list \<Rightarrow> nat" where
  "index_of x [] = 0"
| "index_of x (y # ys) = (if y = x then 0 else Suc (index_of x ys))"

definition swap_at :: "nat \<Rightarrow> nat \<Rightarrow> 'a list \<Rightarrow> 'a list" where
  "swap_at i k xs = xs[i := xs ! k, k := xs ! i]"

definition reorder_job :: "string \<Rightarrow> string \<Rightarrow> job_queue \<Rightarrow> job_queue \<times> (py_error + job_state option)" where
  "reorder_job jid direction q =
    (let normalized = strip jid; move = lower (strip direction) in
     case get_job_state q normalized of
       None \<Rightarrow> (q, Inr None)
     | Some j \<Rightarrow>
       if \<not> job_eligible j then (q, Inr (Some j))
       else
         let q1 = prune_waiting_order q;
             q2 = (if normalized \<notin> set (jq_waiting q1) then insert_waiting_job j q1 else q1);
             idx = index_of normalized (jq_waiting q2)
         in if move = ''up'' \<and> 0 < idx
            then (invalidate_summary (q2\<lparr>jq_waiting := swap_at (idx - 1) idx (jq_waiting q2)\<rparr>), Inr (Some j))
            else if move = ''down'' \<and> idx < length (jq_waiting q2) - 1
            then (invalidate_summary (q2\<lparr>jq_waiting := swap_at (idx + 1) idx (jq_waiting q2)\<rparr>), Inr (Some j))
            else if move \<notin> {''up'', ''down''} then (q2, Inl (ValueError ''direction must be up or down''))
            else (invalidate_summary q2, Inr (Some j)))"

section \<open>Threads and executors\<close>

definition handle_alive :: "job_queue \<Rightarrow> bool" where
  "handle_alive q \<longleftrightarrow> (case jq_handle q of None \<Rightarrow> False
     | Some i \<Rightarrow> i < length (jq_threads q) \<and> jq_threads q ! i \<noteq> Dead)"

definition spawn_thread :: "job_queue \<Rightarrow> job_queue" where
  "spawn_thread q = q\<lparr>jq_threads := jq_threads q @ [AtTop], jq_handle := Some (length (jq_threads q))\<rparr>"

definition ensure_scheduler_thread :: "job_queue \<Rightarrow> job_queue" where
  "ensure_scheduler_thread q =
    (if jq_stop q \<or> \<not> jq_started q \<or> jq_target q = [] then q
     else if handle_alive q then q
     else spawn_thread q)"

definition start_queue :: "string \<Rightarrow> job_queue \<Rightarrow> job_queue" where
  "start_queue controlplane_target q =
    (let q1 = q\<lparr>jq_target := strip controlplane_target, jq_started := True\<rparr>
     in if handle_alive q1 then q1 else spawn_thread (q1\<lparr>jq_stop := False\<rparr>))"

definition detach_stale_running :: "job_queue \<Rightarrow> job_queue \<times> executor option" where
  "detach_stale_running q =
    (let current = strip (jq_running q) in
     if current = [] then (q, None)
     else
       let finished = (case get_job_state q current of None \<Rightarrow> True | Some j \<Rightarrow> is_terminal (job_status j)) in
       if \<not> finished then (q, None)
       else
         let ex = jq_executor q; q1 = q\<lparr>jq_running := [], jq_executor := None\<rparr>
         in case jq_shared q of
           Some sp \<Rightarrow> (q1, if ex = Some (spool_executor sp) then None else ex)
         | None \<Rightarrow> (q1, ex))"

definition close_shared_pool :: "job_queue \<Rightarrow> job_queue \<times> executor option" where
  "close_shared_pool q = (q\<lparr>jq_shared := None\<rparr>, map_option spool_executor (jq_shared q))"

definition shared_pool_idle_expired :: "instant \<Rightarrow> job_queue \<Rightarrow> bool" where
  "shared_pool_idle_expired now q =
    (case jq_shared q of
       None \<Rightarrow> False
     | Some sp \<Rightarrow> if jq_idle_ttl q \<le> 0 then False else of_int (jq_idle_ttl q) \<le> now - spool_last_used_at sp)"

definition cancel_waiting :: "instant \<Rightarrow> job_state \<Rightarrow> job_state" where
  "cancel_waiting now j =
    (if job_status j = ''WAITING''
     then j\<lparr>job_cancel_requested := True, job_status := ''CANCELLED'',
            job_finished_at := (case job_finished_at j of None \<Rightarrow> Some now | Some t \<Rightarrow> Some t)\<rparr>
     else j)"

text \<open>The first locked section of \<open>close\<close>; the code then joins the thread for at most five seconds.\<close>

definition close_begin :: "instant \<Rightarrow> job_queue \<Rightarrow> job_queue" where
  "close_begin now q =
    (let q1 = q\<lparr>jq_stop := True, jq_started := False, jq_jobs := dmap (\<lambda>_. cancel_waiting now) (jq_jobs q)\<rparr>
     in if jq_running q1 = [] then q1
        else upd_job (jq_running q1) (\<lambda>j. j\<lparr>job_cancel_requested := True\<rparr>) q1)"

definition job_ref_snapshot :: "job_state option \<Rightarrow> string \<times> string list" where
  "job_ref_snapshot j = (case j of None \<Rightarrow> ([], [])
     | Some j \<Rightarrow> (strip (job_id j), filter (\<lambda>r. r \<noteq> []) (map strip (job_staged_ref_ids j))))"

definition close_end :: "job_queue \<Rightarrow> job_queue \<times> effect list" where
  "close_end q =
    (let shared_executor = map_option spool_executor (jq_shared q);
         releases = filter (\<lambda>j. job_staged_ref_ids j \<noteq> []) (dvals (jq_jobs q))
     in (q\<lparr>jq_handle := None, jq_shared := None\<rparr>,
         opt_effect (jq_executor q) @
         (if shared_executor \<noteq> None \<and> shared_executor \<noteq> jq_executor q then opt_effect shared_executor else []) @
         map (\<lambda>j. case job_ref_snapshot (Some j) of (i, rs) \<Rightarrow> ReleaseRefs i rs) releases))"

section \<open>The shared task pool\<close>

definition artifact_key_from_code_key ::
  "string \<Rightarrow> string \<Rightarrow> string \<Rightarrow> string \<Rightarrow> string \<Rightarrow> string list \<Rightarrow> string list \<Rightarrow> string list \<Rightarrow> string" where
  "artifact_key_from_code_key code_key runtime entry_module entry_callable package_format
      dependency_allowlist managed_global_names task_resource_paths =
    (let norm = (\<lambda>xs. join_with '','' (sort (filter (\<lambda>x. x \<noteq> []) (map strip xs))))
     in join_with ''|'' [strip code_key, strip runtime, strip entry_module, strip entry_callable, strip package_format,
          norm dependency_allowlist, norm managed_global_names, norm task_resource_paths])"

definition shared_pool_artifact_key ::
  "string option \<Rightarrow> string \<Rightarrow> string \<Rightarrow> string \<Rightarrow> string \<Rightarrow> string \<Rightarrow> string list \<Rightarrow> string list \<Rightarrow> string list
    \<Rightarrow> (string \<Rightarrow> string) \<Rightarrow> string" where
  "shared_pool_artifact_key blob artifact_path runtime entry_module entry_callable package_format
      dependency_allowlist managed_global_names task_resource_paths sha256_hex =
    artifact_key_from_code_key
      (case blob of
         Some b \<Rightarrow> sha256_hex b
       | None \<Rightarrow> if artifact_path \<noteq> [] then ''path:'' @ strip artifact_path else ''module:'' @ strip entry_module)
      runtime entry_module entry_callable package_format dependency_allowlist managed_global_names task_resource_paths"

definition resolve_requested_task_mode :: "(pyval \<Rightarrow> string) \<Rightarrow> policy_profile \<Rightarrow> payload \<Rightarrow> py_error + string" where
  "resolve_requested_task_mode rep taskpool_profile p =
    ebind (resolve_effective_policy taskpool_profile
        (str_or (strip (get_str rep p ''task_serialization_mode'')) ''pickle_stable_v1'') ''taskpool_session'' False)
      (\<lambda>e. Inr (ep_resolved_mode e))"

text \<open>\<open>pending\<close> is the number of results the pool has not delivered.\<close>

definition switch_pool_mode_for_job ::
  "policy_profile \<Rightarrow> int \<Rightarrow> string \<Rightarrow> bool \<Rightarrow> instant \<Rightarrow> shared_pool option \<Rightarrow> py_error + shared_pool" where
  "switch_pool_mode_for_job taskpool_profile pending requested_mode reset_pool now shared =
    (case shared of
       None \<Rightarrow> Inl (RuntimeError ''shared task pool is not initialized'')
     | Some sp \<Rightarrow>
         if 0 < pending then Inl (RuntimeError ''shared task pool still has pending results'')
         else if reset_pool then Inl (RuntimeError ''shared task pool backend does not support reset_pool'')
         else ebind (resolve_effective_policy taskpool_profile (str_or requested_mode ''pickle_stable_v1'')
             ''taskpool_session'' False)
           (\<lambda>e. Inr (sp\<lparr>spool_current_mode := ep_resolved_mode e, spool_last_used_at := now\<rparr>)))"

text \<open>
  The first locked section: the pool to reuse, or the state without it and the pool to close.
\<close>

definition try_reuse_shared_pool ::
  "policy_profile \<Rightarrow> int \<Rightarrow> string \<Rightarrow> string \<Rightarrow> bool \<Rightarrow> instant \<Rightarrow> job_queue \<Rightarrow> job_queue \<times> executor option \<times> effect list" where
  "try_reuse_shared_pool taskpool_profile pending artifact_key requested_mode reset_pool now q =
    (case jq_shared q of
       None \<Rightarrow> (q, None, [])
     | Some sp \<Rightarrow>
         if spool_artifact_key sp = artifact_key
         then (case switch_pool_mode_for_job taskpool_profile pending requested_mode reset_pool now (Some sp) of
             Inr sp' \<Rightarrow> (q\<lparr>jq_shared := Some sp'\<rparr>, Some (spool_executor sp), [])
           | Inl _ \<Rightarrow> (case close_shared_pool q of (q', e) \<Rightarrow> (q', None, opt_effect e)))
         else (case close_shared_pool q of (q', e) \<Rightarrow> (q', None, opt_effect e)))"

text \<open>\<open>created\<close> is the answer of the pool constructor: a raise or a new executor.\<close>

definition get_or_create_shared_pool ::
  "policy_profile \<Rightarrow> string \<Rightarrow> int \<Rightarrow> string \<Rightarrow> string \<Rightarrow> bool \<Rightarrow> py_error + executor \<Rightarrow> instant \<Rightarrow> job_queue
    \<Rightarrow> job_queue \<times> effect list \<times> (py_error + executor)" where
  "get_or_create_shared_pool taskpool_profile policy_id pending artifact_key requested_mode reset_pool created now q =
    (case try_reuse_shared_pool taskpool_profile pending artifact_key requested_mode reset_pool now q of
       (q1, Some ex, effs) \<Rightarrow> (q1, effs, Inr ex)
     | (q1, None, effs) \<Rightarrow>
         (case ebind created (\<lambda>ex. ebind (resolve_effective_policy taskpool_profile
               (str_or requested_mode ''pickle_stable_v1'') ''taskpool_session'' False) (\<lambda>e. Inr (ex, ep_resolved_mode e))) of
            Inl err \<Rightarrow> (q1, effs, Inl err)
          | Inr (ex, mode) \<Rightarrow>
              (q1\<lparr>jq_shared := Some \<lparr>spool_executor = ex, spool_artifact_key = artifact_key,
                 spool_policy_id = policy_id, spool_current_mode = mode, spool_last_used_at = now\<rparr>\<rparr>, effs, Inr ex)))"

definition record_pool_prepare_timing :: "string \<Rightarrow> rat \<Rightarrow> job_state \<Rightarrow> job_state" where
  "record_pool_prepare_timing action pool_prepare_ms j =
    (let is = (\<lambda>a. PInt (if action = a then 1 else 0)) in
     j\<lparr>job_timing :=
        dset ''pool_reuse_count'' (is ''reuse'')
       (dset ''executor_rebuild_count'' (is ''rebuild'')
       (dset ''executor_create_count'' (is ''create'')
       (dset ''executor_rebuild_ms'' (PFloat (if action = ''rebuild'' then pool_prepare_ms else 0))
       (dset ''executor_create_ms'' (PFloat (if action = ''create'' then pool_prepare_ms else 0))
       (dset ''pool_prepare_ms'' (PFloat pool_prepare_ms)
       (dset ''pool_action'' (PStr action) (job_timing j)))))))\<rparr>)"

definition prepare_shared_pool_for_job ::
  "policy_profile \<Rightarrow> string \<Rightarrow> int \<Rightarrow> string \<Rightarrow> string \<Rightarrow> string \<Rightarrow> bool \<Rightarrow> py_error + executor \<Rightarrow> instant \<Rightarrow> rat
    \<Rightarrow> job_queue \<Rightarrow> job_queue \<times> effect list \<times> (py_error + executor)" where
  "prepare_shared_pool_for_job taskpool_profile policy_id pending jid artifact_key requested_mode reset_pool created now elapsed q =
    (let shared_before = map_option spool_executor (jq_shared q) in
     case get_or_create_shared_pool taskpool_profile policy_id pending artifact_key requested_mode reset_pool created now q of
       (q1, effs, Inl err) \<Rightarrow> (q1, effs, Inl err)
     | (q1, effs, Inr ex) \<Rightarrow>
         (let action = (if shared_before = Some ex then ''reuse''
                else if shared_before \<noteq> None then ''rebuild'' else ''create'');
              q2 = q1\<lparr>jq_executor := Some ex, jq_executor_jobs := dset ex jid (jq_executor_jobs q1)\<rparr>
          in (upd_job jid (record_pool_prepare_timing action (ms elapsed)) q2, effs, Inr ex)))"

section \<open>Submitting, reading and cancelling\<close>

text \<open>What submitting reads from outside: text and digest functions, fresh ids, the clocks.\<close>

record submit_env =
  se_rep :: "pyval \<Rightarrow> string"
  se_sha256 :: "string \<Rightarrow> string"
  se_fresh_job_id :: string
  se_fresh_client_id :: string
  se_auth_ttl :: int
  se_now :: instant
  se_clock :: instant

definition checked_submission :: "submit_env \<Rightarrow> py_error + pyval \<Rightarrow> py_error + payload" where
  "checked_submission env normalized =
    ebind normalized (\<lambda>v. case v of
      PDict p \<Rightarrow>
        if strip (get_str (se_rep env) p ''policy_id'') \<noteq> [] \<or> strip (get_str (se_rep env) p ''taskpool_policy_id'') \<noteq> []
        then Inl (ValueError ''job submit policy_id/taskpool_policy_id is not supported'')
        else if \<not> uses_job_hooks (se_rep env) p then Inl (ValueError ''job submit requires hook mode'')
        else ebind (validate_delayed_resolve_refs (se_rep env) (PDict p)) (\<lambda>_. Inr p)
    | _ \<Rightarrow> Inl (ValueError ''job payload must resolve to a dict''))"

definition submitted_job :: "submit_env \<Rightarrow> payload \<Rightarrow> int \<Rightarrow> string \<Rightarrow> int \<Rightarrow> job_state" where
  "submitted_job env p priority auth_token enqueue_seq =
    (let rep = se_rep env; digest = auth_token_digest (se_sha256 env) auth_token;
         refs = collect_payload_data_ref_ids rep (PDict p)
     in \<lparr>job_id = str_or (strip (get_str rep p ''job_id'')) (se_fresh_job_id env),
         job_client_id = str_or (strip (get_str rep p ''client_id'')) (se_fresh_client_id env),
         job_priority = priority, job_status = ''WAITING'', job_submitted_at = se_now env,
         job_started_at = None, job_finished_at = None,
         job_code_version = strip (get_str rep p ''code_version''),
         job_entry_module = strip (get_str rep p ''entry_module''),
         job_entry_callable = str_or (strip (str_or (get_str rep p ''entry_callable'') ''run'')) ''run'',
         job_payload = p, job_checkpoint = [], job_cancel_requested = False, job_error = [],
         job_results = [], job_final_result = PNone, job_enqueue_seq = enqueue_seq,
         job_owner_digest = digest,
         job_owner_expires = (if digest \<noteq> [] then Some (se_now env + of_int (se_auth_ttl env)) else None),
         job_staged_ref_ids = refs,
         job_last_ref_touch = (if refs \<noteq> [] then Some (se_now env) else None),
         job_schema_version = (if refs \<noteq> [] then 2 else 1),
         job_timing = default_timing_summary, job_final_preview = [], job_error_preview = [],
         job_marks = [(''submitted_at_monotonic'', se_clock env)]\<rparr>)"

definition enqueue_job :: "(int \<Rightarrow> job_state) \<Rightarrow> job_queue \<Rightarrow> job_queue \<times> effect list \<times> job_state" where
  "enqueue_job mk q =
    (case detach_stale_running q of
       (q1, ex) \<Rightarrow>
         (let sq = jq_enqueue_seq q1 + 1; j = mk sq;
              q2 = q1\<lparr>jq_enqueue_seq := sq, jq_jobs := dset (job_id j) j (jq_jobs q1)\<rparr>;
              q3 = ensure_scheduler_thread (invalidate_summary (insert_waiting_job j q2))
          in (q3, opt_effect ex, j)))"

definition submit_job ::
  "submit_env \<Rightarrow> py_error + pyval \<Rightarrow> string \<Rightarrow> job_queue \<Rightarrow> job_queue \<times> effect list \<times> (py_error + job_state)" where
  "submit_job env normalized auth_token q =
    (case ebind (checked_submission env normalized) (\<lambda>p.
        ebind (py_int (val_or (dget_or p ''priority'' (PInt 0)) (PInt 0))) (\<lambda>n. Inr (p, max 0 n))) of
       Inl e \<Rightarrow> (q, [], Inl e)
     | Inr (p, priority) \<Rightarrow>
         (case enqueue_job (submitted_job env p priority auth_token) q of
            (q', effs, j) \<Rightarrow> (q', effs, Inr j)))"

definition nudge_scheduler :: "job_queue \<Rightarrow> job_queue" where
  "nudge_scheduler q =
    (if \<exists>j \<in> set (dvals (jq_jobs q)). job_eligible j then ensure_scheduler_thread q else q)"

definition get_job :: "string \<Rightarrow> job_queue \<Rightarrow> job_queue \<times> effect list \<times> job_state option" where
  "get_job jid q =
    (case detach_stale_running q of
       (q1, ex) \<Rightarrow> (let q2 = nudge_scheduler q1 in (q2, opt_effect ex, get_job_state q2 (strip jid))))"

definition release_refs_for_job :: "string \<Rightarrow> string list \<Rightarrow> bool \<Rightarrow> job_queue \<Rightarrow> job_queue \<times> effect list" where
  "release_refs_for_job jid ref_ids invalidate q =
    (let snapshot = filter (\<lambda>r. r \<noteq> []) (map strip ref_ids) in
     if jq_target q = [] \<or> snapshot = [] then (q, [])
     else
       let q1 = (case get_job_state q (strip jid) of
           None \<Rightarrow> q
         | Some _ \<Rightarrow>
             (let q' = upd_job (strip jid)
                 (\<lambda>j. j\<lparr>job_staged_ref_ids := filter (\<lambda>r. r \<notin> set snapshot) (job_staged_ref_ids j)\<rparr>) q
              in if invalidate then invalidate_summary q' else q'))
       in (q1, [ReleaseRefs (strip jid) snapshot]))"

text \<open>\<open>touched\<close> says whether the registry accepted at least one touch.\<close>

definition touch_refs_for_job :: "string \<Rightarrow> string list \<Rightarrow> bool \<Rightarrow> instant \<Rightarrow> job_queue \<Rightarrow> job_queue \<times> effect list" where
  "touch_refs_for_job jid ref_ids touched now q =
    (let snapshot = filter (\<lambda>r. r \<noteq> []) (map strip ref_ids) in
     if jq_target q = [] \<or> snapshot = [] then (q, [])
     else (if touched then upd_job (strip jid) (\<lambda>j. j\<lparr>job_last_ref_touch := Some now\<rparr>) q else q,
           [TouchRefs (strip jid) snapshot]))"

definition job_ref_touch_interval_sec :: "int \<Rightarrow> job_state \<Rightarrow> py_error + rat" where
  "job_ref_touch_interval_sec default_ttl j =
    ebind (py_int (val_or (dget_or (job_payload j) ''staging_ttl_sec'' (PInt 0)) (PInt 0))) (\<lambda>n.
    let ttl_sec = max 1 (max 1 (if n = 0 then default_ttl else n))
    in Inr (max 1 (min (of_int ttl_sec / 3) 300)))"

definition cancel_authorised :: "(string \<Rightarrow> string) \<Rightarrow> string \<Rightarrow> instant \<Rightarrow> job_state \<Rightarrow> py_error + unit" where
  "cancel_authorised sha256 auth_token now j =
    (if job_owner_digest j = [] then Inr ()
     else if (case job_owner_expires j of None \<Rightarrow> False | Some t \<Rightarrow> t < now)
     then Inl (PermissionError ''cancel auth expired'')
     else
       let provided = auth_token_digest sha256 auth_token in
       if provided = [] \<or> provided \<noteq> job_owner_digest j then Inl (PermissionError ''cancel auth failed'')
       else Inr ())"

definition cancel_job ::
  "(pyval \<Rightarrow> string) \<Rightarrow> (string \<Rightarrow> string) \<Rightarrow> string \<Rightarrow> string \<Rightarrow> instant \<Rightarrow> job_queue
    \<Rightarrow> job_queue \<times> effect list \<times> (py_error + job_state option)" where
  "cancel_job dumps sha256 jid auth_token now q =
    (let normalized = strip jid in
     case get_job_state q normalized of
       None \<Rightarrow> (q, [], Inr None)
     | Some j \<Rightarrow>
         (case cancel_authorised sha256 auth_token now j of
            Inl e \<Rightarrow> (q, [], Inl e)
          | Inr _ \<Rightarrow>
              if job_status j = ''WAITING'' then
                let q1 = upd_job normalized (\<lambda>j. j\<lparr>job_status := ''CANCELLED'', job_finished_at := Some now,
                       job_cancel_requested := True\<rparr>) q;
                    q2 = invalidate_summary (remove_waiting_job (job_id j) (refresh_job_previews dumps normalized q1))
                in (case release_refs_for_job (fst (job_ref_snapshot (Some j))) (snd (job_ref_snapshot (Some j))) True q2 of
                     (q3, effs) \<Rightarrow> (case get_job normalized q3 of
                       (q4, effs', r) \<Rightarrow> (q4, effs @ effs', Inr r)))
              else if job_status j = ''RUNNING'' then
                let q1 = invalidate_summary (upd_job normalized (\<lambda>j. j\<lparr>job_cancel_requested := True\<rparr>) q)
                in (q1,
                    (case jq_executor q of
                       None \<Rightarrow> []
                     | Some ex \<Rightarrow> if dget_or (jq_executor_jobs q) ex [] = job_id j then [CancelOnExecutor ex (job_id j)] else []),
                    Inr (get_job_state q1 normalized))
              else (q, [], Inr (Some j))))"

definition cleanup_jobs :: "instant \<Rightarrow> job_queue \<Rightarrow> job_queue \<times> job_state list" where
  "cleanup_jobs now q =
    (if jq_retention q \<le> 0 then (q, [])
     else
       let old = (\<lambda>j. is_terminal (job_status j) \<and>
             of_int (jq_retention q) < now - (case job_finished_at j of None \<Rightarrow> job_submitted_at j | Some t \<Rightarrow> t));
           expired = map fst (filter (\<lambda>(_, j). old j) (jq_jobs q));
           released = map snd (filter (\<lambda>(_, j). old j) (jq_jobs q));
           q1 = (fold remove_waiting_job expired q)\<lparr>jq_jobs := dpops expired (jq_jobs q)\<rparr>
       in (if released \<noteq> [] then invalidate_summary q1 else q1, released))"

fun needing_ref_touch :: "int \<Rightarrow> instant \<Rightarrow> job_state list \<Rightarrow> py_error + job_state list" where
  "needing_ref_touch default_ttl now [] = Inr []"
| "needing_ref_touch default_ttl now (j # js) =
    (if \<not> job_eligible j \<or> job_staged_ref_ids j = [] then needing_ref_touch default_ttl now js
     else ebind (job_ref_touch_interval_sec default_ttl j) (\<lambda>interval.
       let last_touch = (case job_last_ref_touch j of None \<Rightarrow> job_submitted_at j | Some t \<Rightarrow> t) in
       ebind (needing_ref_touch default_ttl now js) (\<lambda>rest.
       Inr (if interval \<le> now - last_touch then j # rest else rest))))"

definition jobs_needing_ref_touch :: "int \<Rightarrow> instant \<Rightarrow> job_queue \<Rightarrow> py_error + job_state list" where
  "jobs_needing_ref_touch default_ttl now q = needing_ref_touch default_ttl now (dvals (jq_jobs q))"

section \<open>The scheduler thread\<close>

definition touch_shared_pool :: "instant \<Rightarrow> job_queue \<Rightarrow> job_queue" where
  "touch_shared_pool now q = q\<lparr>jq_shared := map_option (\<lambda>sp. sp\<lparr>spool_last_used_at := now\<rparr>) (jq_shared q)\<rparr>"

definition release_running :: "instant \<Rightarrow> job_queue \<Rightarrow> job_queue" where
  "release_running now q =
     invalidate_summary ((touch_shared_pool now q)\<lparr>jq_running := [], jq_executor := None\<rparr>)"

definition start_job :: "string \<Rightarrow> instant \<Rightarrow> instant \<Rightarrow> job_queue \<Rightarrow> job_queue" where
  "start_job jid now clock q =
    (let q1 = upd_job jid (\<lambda>j. j\<lparr>job_status := ''RUNNING'', job_started_at := Some now,
           job_checkpoint := dset ''phase'' (PStr ''preparing'') (job_checkpoint j),
           job_timing := (case dget (job_marks j) ''submitted_at_monotonic'' of
             None \<Rightarrow> job_timing j
           | Some m \<Rightarrow> dset ''queue_wait_ms'' (PFloat (ms (clock - m))) (job_timing j))\<rparr>) q
     in invalidate_summary ((remove_waiting_job jid q1)\<lparr>jq_running := jid\<rparr>))"

text \<open>
  The locked section of \<open>_loop\<close> for one pass: the new state, where the thread stands afterwards
  and the work it hands out. An exception in the section ends the thread.
\<close>

definition loop_pass ::
  "int \<Rightarrow> instant \<Rightarrow> instant \<Rightarrow> job_queue \<Rightarrow> job_queue \<times> sched_pc \<times> effect list" where
  "loop_pass default_ttl now clock q =
    (case cleanup_jobs now q of
       (q2, released) \<Rightarrow>
         (case jobs_needing_ref_touch default_ttl now q2 of
            Inl _ \<Rightarrow> (q2, Dead, [])
          | Inr touch \<Rightarrow>
              (let releases = map (\<lambda>j. ReleaseRefs (job_id j) (job_staged_ref_ids j))
                     (filter (\<lambda>j. job_staged_ref_ids j \<noteq> []) released);
                   touches = map (\<lambda>j. TouchRefs (job_id j) (job_staged_ref_ids j)) touch
               in case pick_next_job q2 of
                 (q3, None) \<Rightarrow>
                   (case (if jq_running q3 = [] \<and> shared_pool_idle_expired now q3
                          then close_shared_pool q3 else (q3, None)) of
                      (q4, ex) \<Rightarrow> (q4, AtTop, releases @ touches @ opt_effect ex))
               | (q3, Some jid) \<Rightarrow> (start_job jid now clock q3, Executing jid, releases @ touches))))"

definition running_finished :: "job_queue \<Rightarrow> bool" where
  "running_finished q =
    (case get_job_state q (jq_running q) of None \<Rightarrow> True | Some j \<Rightarrow> is_terminal (job_status j))"

definition loop_select ::
  "int \<Rightarrow> instant \<Rightarrow> instant \<Rightarrow> job_queue \<Rightarrow> job_queue \<times> sched_pc \<times> effect list" where
  "loop_select default_ttl now clock q =
    (if jq_stop q then (q, Dead, [])
     else if jq_running q \<noteq> []
     then (if running_finished q then loop_pass default_ttl now clock (release_running now q) else (q, AtTop, []))
     else loop_pass default_ttl now clock q)"

text \<open>The section after \<open>_run_job\<close>: a look at the job and, when it is terminal, the release of its references.\<close>

definition loop_look :: "string \<Rightarrow> job_queue \<Rightarrow> job_queue \<times> effect list" where
  "loop_look jid q =
    (case get_job jid q of
       (q1, effs, None) \<Rightarrow> (q1, effs)
     | (q1, effs, Some j) \<Rightarrow>
         if is_terminal (job_status j)
         then (case release_refs_for_job (fst (job_ref_snapshot (Some j))) (snd (job_ref_snapshot (Some j))) True q1 of
           (q2, effs') \<Rightarrow> (q2, effs @ effs'))
         else (q1, effs))"

section \<open>The locked sections of a run\<close>

definition set_phase :: "string \<Rightarrow> string \<Rightarrow> job_queue \<Rightarrow> job_queue" where
  "set_phase phase jid q = upd_job jid (\<lambda>j. j\<lparr>job_checkpoint := dset ''phase'' (PStr phase) (job_checkpoint j)\<rparr>) q"

definition set_timings :: "(string \<times> pyval) list \<Rightarrow> string \<Rightarrow> job_queue \<Rightarrow> job_queue" where
  "set_timings kvs jid q = upd_job jid (\<lambda>j. j\<lparr>job_timing := fold (\<lambda>(k, v). dset k v) kvs (job_timing j)\<rparr>) q"

definition run_resolving :: "string \<Rightarrow> instant \<Rightarrow> job_queue \<Rightarrow> job_queue" where
  "run_resolving jid clock q = job_timing_mark jid ''resolve_refs'' clock (set_phase ''resolving_refs'' jid q)"

definition run_resolved :: "string \<Rightarrow> instant \<Rightarrow> job_queue \<Rightarrow> job_queue" where
  "run_resolved jid clock q =
    (case get_job_state q jid of
       None \<Rightarrow> q
     | Some _ \<Rightarrow> set_phase ''selecting_nodes'' jid (fst (job_timing_finish jid ''resolve_refs'' ''resolve_refs_ms'' clock q)))"

definition fail_job :: "string \<Rightarrow> instant \<Rightarrow> job_state \<Rightarrow> job_state" where
  "fail_job message now j = j\<lparr>job_status := ''FAILED'', job_finished_at := Some now, job_error := message\<rparr>"

text \<open>False says that the section raised: \<open>state\<close> is \<open>None\<close> and has no attribute \<open>status\<close>.\<close>

definition run_resolve_failed :: "string \<Rightarrow> string \<Rightarrow> instant \<Rightarrow> instant \<Rightarrow> job_queue \<Rightarrow> job_queue \<times> bool" where
  "run_resolve_failed message jid now clock q =
    (case get_job_state q jid of
       None \<Rightarrow> (q, False)
     | Some _ \<Rightarrow>
         (let q1 = job_timing_finalize jid clock (fst (job_timing_finish jid ''resolve_refs'' ''resolve_refs_ms'' clock q))
          in (invalidate_summary (upd_job jid (fail_job message now) q1), True)))"

definition run_failed :: "(pyval \<Rightarrow> string) \<Rightarrow> string \<Rightarrow> string \<Rightarrow> instant \<Rightarrow> instant \<Rightarrow> job_queue \<Rightarrow> job_queue" where
  "run_failed dumps message jid now clock q =
    (case get_job_state q jid of
       None \<Rightarrow> q
     | Some _ \<Rightarrow> refresh_job_previews dumps jid (upd_job jid (fail_job message now) (job_timing_finalize jid clock q)))"

definition run_no_blob :: "string \<Rightarrow> instant \<Rightarrow> job_queue \<Rightarrow> job_queue" where
  "run_no_blob jid now q =
    (case get_job_state q jid of
       None \<Rightarrow> q
     | Some _ \<Rightarrow> invalidate_summary (upd_job jid (fail_job ''job hook mode requires blob_b64/blob_ref'' now) q))"

definition written_job :: "pyval list \<Rightarrow> pyval \<Rightarrow> instant \<Rightarrow> rat \<Rightarrow> job_state \<Rightarrow> job_state" where
  "written_job results final_result now elapsed j =
     j\<lparr>job_results := results, job_final_result := final_result, job_finished_at := Some now,
       job_status := (if job_cancel_requested j then ''CANCELLED'' else ''SUCCEEDED''),
       job_checkpoint := dset ''phase'' (PStr ''terminal_done'') (job_checkpoint j),
       job_timing := dset ''terminal_writeback_ms'' (PFloat (ms elapsed)) (job_timing j)\<rparr>"

definition run_writeback ::
  "(pyval \<Rightarrow> string) \<Rightarrow> pyval list \<Rightarrow> pyval \<Rightarrow> string \<Rightarrow> instant \<Rightarrow> instant \<Rightarrow> rat \<Rightarrow> job_queue \<Rightarrow> job_queue" where
  "run_writeback dumps results final_result jid now clock elapsed q =
    (case get_job_state q jid of
       None \<Rightarrow> q
     | Some _ \<Rightarrow> job_timing_finalize jid clock (refresh_job_previews dumps jid
         (upd_job jid (written_job results final_result now elapsed) q)))"

text \<open>
  The answers of the outside world to one run, and \<open>_run_job\<close> with \<open>_run_job_with_hooks\<close> as the
  composition of their sections. The result says whether the call returned; when it raised,
  the scheduler thread ends. \<open>PrepRaises\<close> is an exception of the code between the hook test and
  the \<open>try\<close>: the job's blob or its requested serialization mode.
\<close>

datatype run_outcome =
    ResolveRaises string
  | PrepRaises
  | NoBlob
  | HookRaises string
  | HookDone "pyval list" pyval

definition run_job ::
  "(pyval \<Rightarrow> string) \<Rightarrow> (pyval \<Rightarrow> string) \<Rightarrow> payload \<Rightarrow> run_outcome \<Rightarrow> string \<Rightarrow> instant \<Rightarrow> instant \<Rightarrow> job_queue \<Rightarrow> job_queue \<times> bool" where
  "run_job rep dumps resolved_payload outcome jid now clock q =
    (case get_job_state q jid of
       None \<Rightarrow> (q, True)
     | Some _ \<Rightarrow>
         (let q1 = run_resolving jid clock q in
          case outcome of
            ResolveRaises message \<Rightarrow> run_resolve_failed message jid now clock q1
          | _ \<Rightarrow>
            (let q2 = run_resolved jid clock q1 in
             if \<not> uses_job_hooks rep resolved_payload
             then (run_failed dumps ''job submit requires hook mode'' jid now clock q2, True)
             else case outcome of
               ResolveRaises message \<Rightarrow> (q2, True)
             | PrepRaises \<Rightarrow> (q2, False)
             | NoBlob \<Rightarrow> (run_no_blob jid now q2, True)
             | HookRaises message \<Rightarrow> (run_failed dumps message jid now clock q2, True)
             | HookDone results final \<Rightarrow>
                 (run_writeback dumps results final jid now clock 0
                   (set_phase ''terminal_writeback'' jid (set_timings [(''result_count'', PInt (int (length results)))] jid
                     (set_phase ''running_tasks'' jid q2))), True))))"

section \<open>What an operation may change\<close>

definition job_core :: "job_state \<Rightarrow> string \<times> string \<times> bool \<times> int \<times> instant \<times> int" where
  "job_core j = (job_id j, job_status j, job_cancel_requested j, job_priority j, job_submitted_at j, job_enqueue_seq j)"

text \<open>
  Two states that agree on ids, statuses, cancel flags and keys of all jobs and on the scheduling
  fields: the invariants below cannot tell them apart.
\<close>

definition same_view :: "job_queue \<Rightarrow> job_queue \<Rightarrow> bool" where
  "same_view q q' \<longleftrightarrow>
     (dwf (jq_jobs q) \<longrightarrow> dwf (jq_jobs q')) \<and>
     (\<forall>k. map_option job_core (get_job_state q' k) = map_option job_core (get_job_state q k)) \<and>
     jq_waiting q' = jq_waiting q \<and> jq_running q' = jq_running q \<and> jq_threads q' = jq_threads q \<and>
     jq_handle q' = jq_handle q \<and> jq_stop q' = jq_stop q"

lemma same_view_refl [simp]: "same_view q q"
  by (simp add: same_view_def)

lemma same_view_trans: "same_view q q' \<Longrightarrow> same_view q' q'' \<Longrightarrow> same_view q q''"
  by (simp add: same_view_def)

lemma upd_job_sels [frame_simps]:
  "jq_waiting (upd_job jid f q) = jq_waiting q" "jq_running (upd_job jid f q) = jq_running q"
  "jq_threads (upd_job jid f q) = jq_threads q" "jq_handle (upd_job jid f q) = jq_handle q"
  "jq_stop (upd_job jid f q) = jq_stop q" "jq_executor (upd_job jid f q) = jq_executor q"
  "jq_shared (upd_job jid f q) = jq_shared q" "jq_retention (upd_job jid f q) = jq_retention q"
  "jq_started (upd_job jid f q) = jq_started q" "jq_target (upd_job jid f q) = jq_target q"
  by (simp_all add: upd_job_def split: option.split)

lemma get_upd_job [frame_simps]:
  "get_job_state (upd_job jid f q) k = (if k = jid then map_option f (get_job_state q k) else get_job_state q k)"
  by (auto simp: upd_job_def get_job_state_def dict_simps split: option.split)

lemma dwf_upd_job [simp]: "dwf (jq_jobs q) \<Longrightarrow> dwf (jq_jobs (upd_job jid f q))"
  by (simp add: upd_job_def split: option.split)

lemma invalidate_sels [frame_simps]:
  "jq_waiting (invalidate_summary q) = jq_waiting q" "jq_running (invalidate_summary q) = jq_running q"
  "jq_threads (invalidate_summary q) = jq_threads q" "jq_handle (invalidate_summary q) = jq_handle q"
  "jq_stop (invalidate_summary q) = jq_stop q" "jq_jobs (invalidate_summary q) = jq_jobs q"
  "jq_shared (invalidate_summary q) = jq_shared q" "jq_executor (invalidate_summary q) = jq_executor q"
  "jq_retention (invalidate_summary q) = jq_retention q" "jq_started (invalidate_summary q) = jq_started q"
  "jq_target (invalidate_summary q) = jq_target q"
  "get_job_state (invalidate_summary q) k = get_job_state q k"
  by (simp_all add: invalidate_summary_def get_job_state_def)

lemma same_view_upd:
  "(\<And>j. job_core (f j) = job_core j) \<Longrightarrow> same_view q (upd_job jid f q)"
  by (auto simp: same_view_def frame_simps option.map_comp comp_def)

lemma same_view_invalidate [simp]: "same_view q (invalidate_summary q') = same_view q q'"
  by (simp add: same_view_def frame_simps)

lemma same_view_timing_mark: "same_view q (job_timing_mark jid m c q)"
  unfolding job_timing_mark_def by (rule same_view_upd) (simp add: job_core_def)

lemma same_view_timing_finish: "same_view q (fst (job_timing_finish jid m k c q))"
proof -
  have "same_view q (q\<lparr>jq_jobs := dset jid j' (jq_jobs q)\<rparr>)"
    if "get_job_state q jid = Some j" "job_core j' = job_core j" for jid j j'
    using that by (auto simp: same_view_def get_job_state_def dict_simps)
  then show ?thesis
    by (auto simp: job_timing_finish_def Let_def job_core_def split: option.split)
qed

lemma same_view_timing_finalize: "same_view q (job_timing_finalize jid c q)"
  by (auto simp: job_timing_finalize_def job_core_def split: option.split intro!: same_view_upd)

lemma same_view_previews: "same_view q (refresh_job_previews dumps jid q)"
  by (auto simp: refresh_job_previews_def job_core_def split: option.split intro!: same_view_upd)

lemma same_view_set_phase: "same_view q (set_phase ph jid q)"
  unfolding set_phase_def by (rule same_view_upd) (simp add: job_core_def)

lemma same_view_set_timings: "same_view q (set_timings kvs jid q)"
  unfolding set_timings_def by (rule same_view_upd) (simp add: job_core_def)

lemma same_view_touch: "same_view q (fst (touch_refs_for_job jid rs t now q))"
  by (auto simp: touch_refs_for_job_def Let_def job_core_def intro!: same_view_upd)

lemma same_view_release: "same_view q (fst (release_refs_for_job jid rs drop_cache q))"
  by (auto simp: release_refs_for_job_def Let_def job_core_def split: option.split intro!: same_view_upd)

lemma same_view_resolving: "same_view q (run_resolving jid c q)"
  unfolding run_resolving_def using same_view_set_phase same_view_timing_mark same_view_trans by blast

lemma same_view_resolved: "same_view q (run_resolved jid c q)"
  unfolding run_resolved_def
  by (auto split: option.split intro: same_view_trans [OF same_view_timing_finish same_view_set_phase])

lemma same_view_pool:
  "same_view q (fst (prepare_shared_pool_for_job prof pol pending jid key mode reset created now el q))"
proof -
  have g: "same_view q (fst (get_or_create_shared_pool prof pol pending key mode reset created now q))"
    by (auto simp: get_or_create_shared_pool_def try_reuse_shared_pool_def close_shared_pool_def same_view_def
        get_job_state_def split: option.split sum.split prod.split)
  have "same_view q (upd_job jid (record_pool_prepare_timing a m)
      (q1\<lparr>jq_executor := e, jq_executor_jobs := x\<rparr>))" if "same_view q q1" for q1 a m e x
  proof (rule same_view_trans)
    show "same_view q (q1\<lparr>jq_executor := e, jq_executor_jobs := x\<rparr>)"
      using that by (simp add: same_view_def get_job_state_def)
    show "same_view (q1\<lparr>jq_executor := e, jq_executor_jobs := x\<rparr>)
      (upd_job jid (record_pool_prepare_timing a m) (q1\<lparr>jq_executor := e, jq_executor_jobs := x\<rparr>))"
      by (rule same_view_upd) (simp add: job_core_def record_pool_prepare_timing_def Let_def)
  qed
  then show ?thesis using g
    by (auto simp: prepare_shared_pool_for_job_def Let_def split: prod.split sum.split)
qed

lemmas same_view_sections = same_view_timing_mark same_view_timing_finish same_view_timing_finalize
  same_view_previews same_view_set_phase same_view_set_timings same_view_touch same_view_release
  same_view_resolving same_view_resolved same_view_pool

section \<open>The waiting order\<close>

lemma prune_loop_set:
  "set (prune_loop jobs seen xs) =
     {x \<in> set xs. x \<notin> set seen \<and> (\<exists>j. dget jobs x = Some j \<and> job_eligible j)}"
  by (induction jobs seen xs rule: prune_loop.induct) (auto split: option.split)

lemma prune_loop_distinct: "distinct (prune_loop jobs seen xs)"
  by (induction jobs seen xs rule: prune_loop.induct) (auto simp: prune_loop_set split: option.split)

lemma prune_sels [frame_simps]:
  "jq_jobs (prune_waiting_order q) = jq_jobs q" "jq_running (prune_waiting_order q) = jq_running q"
  "jq_threads (prune_waiting_order q) = jq_threads q" "jq_handle (prune_waiting_order q) = jq_handle q"
  "jq_stop (prune_waiting_order q) = jq_stop q" "get_job_state (prune_waiting_order q) k = get_job_state q k"
  "jq_started (prune_waiting_order q) = jq_started q" "jq_target (prune_waiting_order q) = jq_target q"
  by (simp_all add: prune_waiting_order_def get_job_state_def)

lemma prune_waiting_set:
  "set (jq_waiting (prune_waiting_order q)) =
     {x \<in> set (jq_waiting q). \<exists>j. get_job_state q x = Some j \<and> job_eligible j}"
  by (simp add: prune_waiting_order_def prune_loop_set get_job_state_def)

lemma prune_waiting_distinct [simp]: "distinct (jq_waiting (prune_waiting_order q))"
  by (simp add: prune_waiting_order_def prune_loop_distinct)

lemma insert_before_greater_set: "set (insert_before_greater jobs j xs) = insert (job_id j) (set xs)"
  by (induction jobs j xs rule: insert_before_greater.induct) (auto split: option.split)

lemma insert_before_greater_mset: "mset (insert_before_greater jobs j xs) = add_mset (job_id j) (mset xs)"
  by (induction jobs j xs rule: insert_before_greater.induct) (auto split: option.split)

text \<open>The waiting order is sorted when the keys of its jobs ascend.\<close>

definition key_of :: "(string, job_state) dict \<Rightarrow> string \<Rightarrow> int \<times> instant \<times> int \<times> string" where
  "key_of jobs x = (case dget jobs x of None \<Rightarrow> (0, 0, 0, []) | Some j \<Rightarrow> job_key j)"

definition keys_sorted :: "(string, job_state) dict \<Rightarrow> string list \<Rightarrow> bool" where
  "keys_sorted jobs xs \<longleftrightarrow> sorted (map (key_of jobs) xs) \<and> (\<forall>x \<in> set xs. dget jobs x \<noteq> None)"

lemma insert_before_greater_sorted:
  assumes "keys_sorted jobs xs" and "dget jobs (job_id j) = Some j"
  shows "keys_sorted jobs (insert_before_greater jobs j xs)"
proof -
  have "sorted (map (key_of jobs) (insert_before_greater jobs j xs))"
    using assms
  proof (induction xs)
    case Nil
    then show ?case by simp
  next
    case (Cons x xs)
    then obtain other where x: "dget jobs x = Some other" by (auto simp: keys_sorted_def)
    have IH: "sorted (map (key_of jobs) (insert_before_greater jobs j xs))"
      using Cons by (auto simp: keys_sorted_def)
    have kx: "key_of jobs x = job_key other" and kj: "key_of jobs (job_id j) = job_key j"
      using x assms(2) by (simp_all add: key_of_def)
    show ?case
    proof (cases "job_key j < job_key other")
      case True
      have "\<forall>y \<in> set xs. key_of jobs x \<le> key_of jobs y" using Cons.prems(1) by (auto simp: keys_sorted_def)
      then show ?thesis using True x Cons.prems(1) kx kj
        by (auto simp: keys_sorted_def intro: order.trans less_imp_le)
    next
      case False
      then have "key_of jobs x \<le> key_of jobs (job_id j)" using kx kj by simp
      moreover have "\<forall>y \<in> set xs. key_of jobs x \<le> key_of jobs y" using Cons.prems(1) by (auto simp: keys_sorted_def)
      ultimately show ?thesis using False x IH by (auto simp: insert_before_greater_set)
    qed
  qed
  then show ?thesis using assms by (auto simp: keys_sorted_def insert_before_greater_set)
qed

lemma prune_loop_sorted: "keys_sorted jobs xs \<Longrightarrow> keys_sorted jobs (prune_loop jobs seen xs)"
proof (induction jobs seen xs rule: prune_loop.induct)
  case (2 jobs seen x xs)
  have tl: "keys_sorted jobs xs" using "2.prems" by (simp add: keys_sorted_def)
  have hd: "\<forall>y \<in> set xs. key_of jobs x \<le> key_of jobs y" using "2.prems" by (simp add: keys_sorted_def)
  obtain j where j: "dget jobs x = Some j" using "2.prems" by (auto simp: keys_sorted_def)
  show ?case
  proof (cases "x \<in> set seen \<or> \<not> job_eligible j")
    case True
    then show ?thesis using "2.IH" j tl by auto
  next
    case False
    then have "keys_sorted jobs (prune_loop jobs (x # seen) xs)" using "2.IH"(3) j tl by auto
    then show ?thesis using False j hd by (auto simp: keys_sorted_def prune_loop_set)
  qed
qed (simp add: keys_sorted_def)

section \<open>Picking\<close>

definition ids_ok :: "job_queue \<Rightarrow> bool" where
  "ids_ok q \<longleftrightarrow> (\<forall>k j. get_job_state q k = Some j \<longrightarrow> job_id j = k \<and> k \<noteq> [] \<and> strip k = k)"

lemma pick_next_usable:
  assumes "dwf (jq_jobs q)" and "ids_ok q"
  shows "pick_next_job q =
    (case jq_waiting (prune_waiting_order q) of
       x # _ \<Rightarrow> (prune_waiting_order q, Some x)
     | [] \<Rightarrow>
         (case sort_key job_key (filter job_eligible (dvals (jq_jobs q))) of
            [] \<Rightarrow> (prune_waiting_order q, None)
          | j # js \<Rightarrow> ((prune_waiting_order q)\<lparr>jq_waiting := map job_id (j # js)\<rparr>, Some (job_id j))))"
proof -
  let ?q = "prune_waiting_order q"
  have "filter (\<lambda>x. case get_job_state ?q x of None \<Rightarrow> False | Some j \<Rightarrow> job_eligible j) (jq_waiting ?q) = jq_waiting ?q"
    by (rule filter_True) (auto simp: prune_waiting_set frame_simps)
  then show ?thesis by (simp add: pick_next_job_def Let_def frame_simps split: list.split)
qed

lemma pick_next_sound:
  assumes wf: "dwf (jq_jobs q)" and ids: "ids_ok q"
    and p: "pick_next_job q = (q', Some jid)"
  shows "\<exists>j. get_job_state q jid = Some j \<and> job_eligible j"
    and "get_job_state q' = get_job_state q"
    and "set (jq_waiting q') \<subseteq> {k. \<exists>j. get_job_state q k = Some j \<and> job_eligible j}"
proof -
  have vals: "j \<in> set (dvals (jq_jobs q)) \<Longrightarrow> get_job_state q (job_id j) = Some j" for j
    using ids set_dvals [OF wf] by (metis get_job_state_def ids_ok_def)
  have "(\<exists>j. get_job_state q jid = Some j \<and> job_eligible j) \<and> get_job_state q' = get_job_state q \<and>
    set (jq_waiting q') \<subseteq> {k. \<exists>j. get_job_state q k = Some j \<and> job_eligible j}"
  proof (cases "jq_waiting (prune_waiting_order q)")
    case (Cons x xs)
    then have q': "q' = prune_waiting_order q" "jid = x" using p unfolding pick_next_usable [OF wf ids] Cons by simp_all
    then show ?thesis using Cons prune_waiting_set [of q] by (auto simp: frame_simps fun_eq_iff)
  next
    case Nil
    define s where "s = sort_key job_key (filter job_eligible (dvals (jq_jobs q)))"
    have eq: "pick_next_job q = (case s of [] \<Rightarrow> (prune_waiting_order q, None)
        | j # js \<Rightarrow> ((prune_waiting_order q)\<lparr>jq_waiting := map job_id (j # js)\<rparr>, Some (job_id j)))"
      unfolding pick_next_usable [OF wf ids] Nil s_def by simp
    obtain j js where s: "s = j # js" using p unfolding eq by (cases s) simp_all
    then have q': "q' = (prune_waiting_order q)\<lparr>jq_waiting := map job_id (j # js)\<rparr>" "jid = job_id j"
      using p unfolding eq by auto
    have "set (j # js) = {j \<in> set (dvals (jq_jobs q)). job_eligible j}" using s s_def by (metis set_filter set_sort)
    then show ?thesis using vals q' by (auto simp: frame_simps get_job_state_def prune_waiting_order_def)
  qed
  then show "\<exists>j. get_job_state q jid = Some j \<and> job_eligible j" "get_job_state q' = get_job_state q"
    "set (jq_waiting q') \<subseteq> {k. \<exists>j. get_job_state q k = Some j \<and> job_eligible j}"
    by blast+
qed

lemma pick_next_none:
  assumes wf: "dwf (jq_jobs q)" and ids: "ids_ok q"
  shows "snd (pick_next_job q) = None \<longleftrightarrow> (\<forall>k j. get_job_state q k = Some j \<longrightarrow> \<not> job_eligible j)"
proof
  assume none: "snd (pick_next_job q) = None"
  show "\<forall>k j. get_job_state q k = Some j \<longrightarrow> \<not> job_eligible j"
  proof (intro allI impI notI)
    fix k j assume j: "get_job_state q k = Some j" "job_eligible j"
    then have "j \<in> set (filter job_eligible (dvals (jq_jobs q)))"
      using set_dvals [OF wf] by (auto simp: get_job_state_def)
    then have "sort_key job_key (filter job_eligible (dvals (jq_jobs q))) \<noteq> []"
      by (metis empty_iff empty_set set_sort)
    then show False using none unfolding pick_next_usable [OF wf ids] by (simp split: list.splits)
  qed
next
  assume none: "\<forall>k j. get_job_state q k = Some j \<longrightarrow> \<not> job_eligible j"
  show "snd (pick_next_job q) = None"
  proof (cases "pick_next_job q")
    case (Pair q' r)
    then show ?thesis using pick_next_sound(1) [OF wf ids] none by (cases r) auto
  qed
qed

end
