(* ===== verification/JobScheduler.thy ===== *)
theory JobScheduler
  imports JobQueue
begin

text \<open>
  The job queue as a state machine: clients and the scheduler thread take the lock in any
  order. \<open>jq_step\<close> is one locked section of one of them; its label names the section. The
  scheduler thread may be restarted, as \<open>_ensure_scheduler_thread_locked\<close> does, once the old one
  has ended. The invariant \<open>jq_inv\<close> is kept by every step; the properties at the end say what the
  queue guarantees and what it does not.
\<close>

section \<open>Steps\<close>

text \<open>The sections of a run that leave the job running.\<close>

inductive run_section :: "string \<Rightarrow> job_queue \<Rightarrow> job_queue \<Rightarrow> bool" where
  resolving: "run_section jid q (run_resolving jid clock q)"
| resolved: "run_section jid q (run_resolved jid clock q)"
| mark: "run_section jid q (job_timing_mark jid m clock q)"
| finish: "run_section jid q (fst (job_timing_finish jid m k clock q))"
| prepare_pool: "run_section jid q
    (fst (prepare_shared_pool_for_job prof pol pending jid key mode reset created now elapsed q))"
| phase: "run_section jid q (set_phase ph jid q)"
| timings: "run_section jid q (set_timings kvs jid q)"

text \<open>The sections with which a run returns.\<close>

inductive run_end :: "string \<Rightarrow> job_queue \<Rightarrow> job_queue \<Rightarrow> bool" where
  gone: "get_job_state q jid = None \<Longrightarrow> run_end jid q q"
| resolve_failed: "run_resolve_failed msg jid now clock q = (q', True) \<Longrightarrow> run_end jid q q'"
| failed: "run_end jid q (run_failed dumps msg jid now clock q)"
| no_blob: "run_end jid q (run_no_blob jid now q)"
| writeback: "run_end jid q (run_writeback dumps results final jid now clock elapsed q)"

datatype jq_label =
    LSubmit string | LGet | LCancel | LReorder | LRefs | LStart | LClose
  | LSelect | LSection | LEnd | LDie | LLook | LLast

definition set_thread :: "nat \<Rightarrow> sched_pc \<Rightarrow> job_queue \<Rightarrow> job_queue" where
  "set_thread i pc q = q\<lparr>jq_threads := (jq_threads q)[i := pc]\<rparr>"

definition thread_at :: "job_queue \<Rightarrow> nat \<Rightarrow> sched_pc \<Rightarrow> bool" where
  "thread_at q i pc \<longleftrightarrow> i < length (jq_threads q) \<and> jq_threads q ! i = pc"

definition all_dead :: "job_queue \<Rightarrow> bool" where
  "all_dead q \<longleftrightarrow> (\<forall>pc \<in> set (jq_threads q). pc = Dead)"

inductive jq_step :: "jq_label \<Rightarrow> job_queue \<Rightarrow> job_queue \<Rightarrow> bool" where
  submit: "strip (se_fresh_job_id env) = se_fresh_job_id env \<Longrightarrow> se_fresh_job_id env \<noteq> [] \<Longrightarrow>
    submit_job env normalized token q = (q', effs, Inr j) \<Longrightarrow> jq_step (LSubmit (job_id j)) q q'"
| get: "jq_step LGet q (fst (get_job jid q))"
| cancel: "jq_step LCancel q (fst (cancel_job dumps sha jid token now q))"
| reorder: "jq_step LReorder q (fst (reorder_job jid direction q))"
| touch_refs: "jq_step LRefs q (fst (touch_refs_for_job jid refs touched now q))"
| release_refs: "jq_step LRefs q (fst (release_refs_for_job jid refs drop_cache q))"
| start: "all_dead q \<or> handle_alive q \<Longrightarrow> jq_step LStart q (start_queue target q)"
| close_first: "jq_step LClose q (close_begin now q)"
| close_last: "jq_stop q \<Longrightarrow> jq_step LClose q (fst (close_end q))"
| select: "thread_at q i AtTop \<Longrightarrow> loop_select ttl now clock q = (q', pc, effs) \<Longrightarrow>
    jq_step LSelect q (set_thread i pc q')"
| run_on: "thread_at q i (Executing jid) \<Longrightarrow> run_section jid q q' \<Longrightarrow> jq_step LSection q q'"
| run_returns: "thread_at q i (Executing jid) \<Longrightarrow> run_end jid q q' \<Longrightarrow> jq_step LEnd q (set_thread i (Returned jid) q')"
| run_dies: "thread_at q i (Executing jid) \<Longrightarrow> jq_step LDie q (set_thread i Dead q)"
| look: "thread_at q i (Returned jid) \<Longrightarrow> jq_step LLook q (set_thread i (Closing jid) (fst (loop_look jid q)))"
| last: "thread_at q i (Closing jid) \<Longrightarrow> jq_step LLast q (set_thread i AtTop (release_running now q))"

inductive jq_reachable :: "job_queue \<Rightarrow> bool" where
  init: "jq_reachable (new_job_queue cache_ttl retention idle_ttl)"
| step: "jq_reachable q \<Longrightarrow> jq_step l q q' \<Longrightarrow> jq_reachable q'"

inductive_cases run_endE: "run_end jid q q'"
inductive_cases run_sectionE: "run_section jid q q'"

section \<open>The invariant\<close>

definition is_running :: "job_queue \<Rightarrow> string \<Rightarrow> bool" where
  "is_running q k \<longleftrightarrow> (\<exists>j. get_job_state q k = Some j \<and> job_status j = ''RUNNING'')"

definition is_eligible :: "job_queue \<Rightarrow> string \<Rightarrow> bool" where
  "is_eligible q k \<longleftrightarrow> (\<exists>j. get_job_state q k = Some j \<and> job_eligible j)"

definition alive :: "job_queue \<Rightarrow> nat \<Rightarrow> bool" where
  "alive q i \<longleftrightarrow> i < length (jq_threads q) \<and> jq_threads q ! i \<noteq> Dead"

definition jobs_inv :: "job_queue \<Rightarrow> bool" where
  "jobs_inv q \<longleftrightarrow> dwf (jq_jobs q) \<and> ids_ok q \<and> strip (jq_running q) = jq_running q \<and>
     (\<forall>k. is_running q k \<longrightarrow> jq_running q = k) \<and>
     (\<forall>k. is_eligible q k \<longrightarrow> k \<in> set (jq_waiting q))"

definition threads_inv :: "job_queue \<Rightarrow> bool" where
  "threads_inv q \<longleftrightarrow>
     (\<forall>i i'. alive q i \<and> alive q i' \<longrightarrow> i = i') \<and>
     (\<forall>i. alive q i \<longrightarrow> jq_handle q = Some i \<or> jq_stop q)"

definition pcs_inv :: "job_queue \<Rightarrow> bool" where
  "pcs_inv q \<longleftrightarrow>
     (\<forall>i jid. thread_at q i (Executing jid) \<longrightarrow> (\<forall>k. is_running q k \<longrightarrow> k = jid)) \<and>
     (\<forall>i jid. thread_at q i (Returned jid) \<or> thread_at q i (Closing jid) \<longrightarrow> (\<forall>k. \<not> is_running q k))"

definition jq_inv :: "job_queue \<Rightarrow> bool" where
  "jq_inv q \<longleftrightarrow> jobs_inv q \<and> threads_inv q \<and> pcs_inv q"

lemma jq_inv_init: "jq_inv (new_job_queue cache_ttl retention idle_ttl)"
  by (simp add: jq_inv_def jobs_inv_def threads_inv_def pcs_inv_def new_job_queue_def ids_ok_def get_job_state_def
      is_running_def is_eligible_def alive_def thread_at_def)

lemma core_facts:
  assumes "map_option job_core (get_job_state q' k) = map_option job_core (get_job_state q k)"
  shows "is_running q' k = is_running q k" "is_eligible q' k = is_eligible q k"
    "(\<exists>j. get_job_state q' k = Some j \<and> job_id j = x) = (\<exists>j. get_job_state q k = Some j \<and> job_id j = x)"
  using assms
  by (auto simp: is_running_def is_eligible_def job_eligible_def job_core_def map_option_case split: option.splits)

lemma same_view_core:
  "same_view q q' \<Longrightarrow> map_option job_core (get_job_state q' k) = map_option job_core (get_job_state q k)"
  by (simp add: same_view_def)

lemma ids_ok_iff:
  "ids_ok q \<longleftrightarrow> (\<forall>k x. (\<exists>j. get_job_state q k = Some j \<and> job_id j = x) \<longrightarrow> x = k \<and> k \<noteq> [] \<and> strip k = k)"
  by (auto simp: ids_ok_def)

lemma same_view_ids: "same_view q q' \<Longrightarrow> ids_ok q' = ids_ok q"
  unfolding ids_ok_iff using core_facts(3) [OF same_view_core] by simp

lemma same_view_preds:
  assumes "same_view q q'"
  shows "is_running q' = is_running q" "is_eligible q' = is_eligible q" "alive q' = alive q"
    "thread_at q' = thread_at q"
proof -
  show "is_running q' = is_running q" "is_eligible q' = is_eligible q"
    using core_facts(1,2) [OF same_view_core [OF assms]] by (simp_all add: fun_eq_iff)
  have "jq_threads q' = jq_threads q" using assms by (simp add: same_view_def)
  then show "alive q' = alive q" "thread_at q' = thread_at q"
    by (simp_all add: fun_eq_iff alive_def thread_at_def)
qed

lemma same_view_inv [invs]:
  assumes "same_view q q'" and "jq_inv q"
  shows "jq_inv q'"
proof -
  note p = same_view_preds [OF assms(1)]
  have "dwf (jq_jobs q')" "ids_ok q'"
    using assms same_view_ids by (auto simp: jq_inv_def jobs_inv_def same_view_def)
  then show ?thesis
    using assms by (auto simp: jq_inv_def jobs_inv_def threads_inv_def pcs_inv_def p same_view_def)
qed

lemma run_section_view: "run_section jid q q' \<Longrightarrow> same_view q q'"
  by (induction rule: run_section.induct) (rule same_view_sections)+

section \<open>Every step keeps the invariant\<close>

text \<open>Operations that start no job and no thread.\<close>

lemma inv_shrink:
  assumes "jq_inv q" and "dwf (jq_jobs q')" and "ids_ok q'" and "strip (jq_running q') = jq_running q'"
    and run: "\<And>k. is_running q' k \<Longrightarrow> is_running q k \<and> jq_running q' = k"
    and "\<And>k. is_eligible q' k \<Longrightarrow> k \<in> set (jq_waiting q')"
    and th: "jq_threads q' = jq_threads q" and "jq_handle q' = jq_handle q" and "jq_stop q \<Longrightarrow> jq_stop q'"
  shows "jq_inv q'"
proof -
  have al: "alive q' = alive q" "thread_at q' = thread_at q"
    using th by (simp_all add: fun_eq_iff alive_def thread_at_def)
  have "jobs_inv q'" using assms by (auto simp: jobs_inv_def)
  moreover have "threads_inv q'" using assms al by (auto simp: jq_inv_def threads_inv_def)
  moreover have "pcs_inv q'" using assms(1) run al by (auto simp: jq_inv_def pcs_inv_def)
  ultimately show ?thesis by (simp add: jq_inv_def)
qed

lemma jq_invD:
  assumes "jq_inv q"
  shows "dwf (jq_jobs q)" "ids_ok q" "strip (jq_running q) = jq_running q"
    "is_running q k \<Longrightarrow> jq_running q = k" "is_eligible q k \<Longrightarrow> k \<in> set (jq_waiting q)"
    "alive q i \<Longrightarrow> alive q i' \<Longrightarrow> i = i'" "alive q i \<Longrightarrow> jq_handle q = Some i \<or> jq_stop q"
    "thread_at q i (Executing jid) \<Longrightarrow> is_running q k \<Longrightarrow> k = jid"
    "thread_at q i (Returned jid) \<or> thread_at q i (Closing jid) \<Longrightarrow> \<not> is_running q k"
  using assms unfolding jq_inv_def jobs_inv_def threads_inv_def pcs_inv_def by blast+

lemma preds_cong:
  assumes "jq_jobs q' = jq_jobs q"
  shows "is_running q' = is_running q" "is_eligible q' = is_eligible q" "ids_ok q' = ids_ok q"
    "get_job_state q' = get_job_state q"
  using assms by (simp_all add: is_running_def is_eligible_def ids_ok_def get_job_state_def fun_eq_iff)

lemma detach_sels [frame_simps]:
  "jq_jobs (fst (detach_stale_running q)) = jq_jobs q" "jq_waiting (fst (detach_stale_running q)) = jq_waiting q"
  "jq_threads (fst (detach_stale_running q)) = jq_threads q" "jq_handle (fst (detach_stale_running q)) = jq_handle q"
  "jq_stop (fst (detach_stale_running q)) = jq_stop q" "jq_started (fst (detach_stale_running q)) = jq_started q"
  "jq_target (fst (detach_stale_running q)) = jq_target q"
  "jq_enqueue_seq (fst (detach_stale_running q)) = jq_enqueue_seq q"
  by (simp_all add: detach_stale_running_def Let_def split: option.split)

lemma not_terminal_running: "\<not> is_terminal ''RUNNING''" "\<not> is_terminal ''WAITING''"
  by (simp_all add: is_terminal_def)

lemma detach_running:
  "jq_running (fst (detach_stale_running q)) = jq_running q \<or>
   jq_running (fst (detach_stale_running q)) = [] \<and> \<not> is_running q (strip (jq_running q))"
  by (auto simp: detach_stale_running_def Let_def is_running_def not_terminal_running split: option.split)

lemma detach_inv [invs]:
  assumes "jq_inv q"
  shows "jq_inv (fst (detach_stale_running q))"
proof (rule inv_shrink [OF assms])
  let ?q = "fst (detach_stale_running q)"
  note d = jq_invD [OF assms]
  note c = preds_cong [of ?q q, OF detach_sels(1)]
  show "dwf (jq_jobs ?q)" "ids_ok ?q" using d c by (simp_all add: frame_simps)
  show "strip (jq_running ?q) = jq_running ?q" using detach_running [of q] d(3) by auto
  show "is_running q k \<and> jq_running ?q = k" if "is_running ?q k" for k
    using that detach_running [of q] d(3,4) c by auto
  show "k \<in> set (jq_waiting ?q)" if "is_eligible ?q k" for k
    using that d(5) c by (simp add: frame_simps)
qed (simp_all add: frame_simps)

lemma spawn_inv:
  assumes inv: "jq_inv q" and dead: "\<And>i. \<not> alive q i"
  shows "jq_inv (spawn_thread q)"
proof -
  let ?q = "spawn_thread q"
  have c: "is_running ?q = is_running q" "is_eligible ?q = is_eligible q" "ids_ok ?q = ids_ok q"
    by (rule preds_cong, simp add: spawn_thread_def)+
  have at: "thread_at ?q i pc \<longleftrightarrow> thread_at q i pc \<or> (i = length (jq_threads q) \<and> pc = AtTop)" for i pc
    by (auto simp: thread_at_def spawn_thread_def nth_append)
  have al: "alive ?q i \<longleftrightarrow> i = length (jq_threads q)" for i
    using dead by (auto simp: alive_def spawn_thread_def nth_append)
  have "jobs_inv ?q" using inv c by (simp add: jq_inv_def jobs_inv_def spawn_thread_def)
  moreover have "threads_inv ?q" using al by (simp add: threads_inv_def spawn_thread_def)
  moreover have "pcs_inv ?q" using inv c at by (auto simp: jq_inv_def pcs_inv_def)
  ultimately show ?thesis by (simp add: jq_inv_def)
qed

lemma ensure_inv [invs]:
  assumes "jq_inv q"
  shows "jq_inv (ensure_scheduler_thread q)"
proof (cases "jq_stop q \<or> \<not> jq_started q \<or> jq_target q = [] \<or> handle_alive q")
  case True
  then show ?thesis using assms by (auto simp: ensure_scheduler_thread_def)
next
  case False
  have "\<not> alive q i" for i
  proof
    assume "alive q i"
    then have "jq_handle q = Some i" using jq_invD(7) [OF assms] False by blast
    then show False using \<open>alive q i\<close> False by (simp add: handle_alive_def alive_def)
  qed
  then show ?thesis using spawn_inv [OF assms] False by (simp add: ensure_scheduler_thread_def)
qed

lemma nudge_inv [invs]: "jq_inv q \<Longrightarrow> jq_inv (nudge_scheduler q)"
  by (simp add: nudge_scheduler_def ensure_inv)

lemma get_job_inv [invs]: "jq_inv q \<Longrightarrow> jq_inv (fst (get_job jid q))"
  using detach_inv [of q] nudge_inv by (auto simp: get_job_def Let_def split: prod.split)

lemma invalidate_inv [invs]: "jq_inv q \<Longrightarrow> jq_inv (invalidate_summary q)"
  by (rule same_view_inv [of q]) simp_all

lemma start_inv [invs]:
  assumes inv: "jq_inv q" and "all_dead q \<or> handle_alive q"
  shows "jq_inv (start_queue target q)"
proof -
  let ?q = "q\<lparr>jq_target := strip target, jq_started := True\<rparr>"
  have v: "same_view q ?q" by (simp add: same_view_def get_job_state_def)
  have h: "handle_alive ?q = handle_alive q" by (simp add: handle_alive_def split: option.split)
  show ?thesis
  proof (cases "handle_alive q")
    case True
    then show ?thesis using same_view_inv [OF v inv] by (simp add: start_queue_def Let_def h)
  next
    case False
    have dead: "\<not> alive q i" for i using assms(2) False by (auto simp: all_dead_def alive_def)
    let ?r = "?q\<lparr>jq_stop := False\<rparr>"
    have c: "is_running ?r = is_running q" "is_eligible ?r = is_eligible q" "ids_ok ?r = ids_ok q"
      by (rule preds_cong, simp)+
    have "jobs_inv ?r" using inv c by (simp add: jq_inv_def jobs_inv_def)
    moreover have "alive ?r = alive q" by (simp add: fun_eq_iff alive_def)
    then have "threads_inv ?r" using dead by (simp add: threads_inv_def)
    moreover have "pcs_inv ?r" using inv c by (simp add: jq_inv_def pcs_inv_def thread_at_def)
    ultimately have "jq_inv ?r" by (simp add: jq_inv_def)
    moreover have "\<not> alive ?r i" for i using dead by (simp add: alive_def)
    ultimately have "jq_inv (spawn_thread ?r)" by (rule spawn_inv)
    then show ?thesis using False by (simp add: start_queue_def Let_def h)
  qed
qed

lemma preds_upd:
  "is_running (upd_job jid f q) k \<longleftrightarrow> (if k = jid then (\<exists>j. get_job_state q k = Some j \<and> job_status (f j) = ''RUNNING'')
     else is_running q k)"
  "is_eligible (upd_job jid f q) k \<longleftrightarrow> (if k = jid then (\<exists>j. get_job_state q k = Some j \<and> job_eligible (f j))
     else is_eligible q k)"
  by (auto simp: is_running_def is_eligible_def frame_simps)

lemma ids_upd: "(\<And>j. job_id (f j) = job_id j) \<Longrightarrow> ids_ok q \<Longrightarrow> ids_ok (upd_job jid f q)"
  by (auto simp: ids_ok_def frame_simps)

lemma remove_waiting_sels [frame_simps]:
  "jq_jobs (remove_waiting_job x q) = jq_jobs q" "jq_running (remove_waiting_job x q) = jq_running q"
  "jq_threads (remove_waiting_job x q) = jq_threads q" "jq_handle (remove_waiting_job x q) = jq_handle q"
  "jq_stop (remove_waiting_job x q) = jq_stop q" "jq_retention (remove_waiting_job x q) = jq_retention q"
  "get_job_state (remove_waiting_job x q) k = get_job_state q k"
  by (simp_all add: remove_waiting_job_def get_job_state_def)

lemma remove_waiting_set:
  "y \<in> set (jq_waiting (remove_waiting_job x q)) \<longleftrightarrow> y \<in> set (jq_waiting q) \<and> (strip x = [] \<or> y \<noteq> strip x)"
  by (auto simp: remove_waiting_job_def)

text \<open>A job leaves the set of running and eligible jobs.\<close>

lemma retire_inv:
  assumes inv: "jq_inv q" and "\<And>j. job_id (f j) = job_id j"
    and "\<And>j. get_job_state q jid = Some j \<Longrightarrow> job_status (f j) \<noteq> ''RUNNING'' \<and> \<not> job_eligible (f j)"
  shows "jq_inv (upd_job jid f q)"
  by (rule inv_shrink [OF inv])
    (use assms jq_invD [OF inv] in \<open>auto simp: frame_simps preds_upd ids_upd split: if_splits\<close>)

lemma submitted_job_facts:
  "job_status (submitted_job env p pr tok n) = ''WAITING''"
  "job_cancel_requested (submitted_job env p pr tok n) = False"
  "job_enqueue_seq (submitted_job env p pr tok n) = n"
  by (simp_all add: submitted_job_def Let_def)

lemma submitted_job_id:
  assumes "strip (se_fresh_job_id env) = se_fresh_job_id env" "se_fresh_job_id env \<noteq> []"
  shows "strip (job_id (submitted_job env p pr tok n)) = job_id (submitted_job env p pr tok n)"
    "job_id (submitted_job env p pr tok n) \<noteq> []"
  using assms by (simp_all add: submitted_job_def Let_def str_or_def)

lemma insert_waiting_sels [frame_simps]:
  "jq_jobs (insert_waiting_job j q) = jq_jobs q" "jq_running (insert_waiting_job j q) = jq_running q"
  "jq_threads (insert_waiting_job j q) = jq_threads q" "jq_handle (insert_waiting_job j q) = jq_handle q"
  "jq_stop (insert_waiting_job j q) = jq_stop q"
  by (simp_all add: insert_waiting_job_def Let_def frame_simps)

lemma insert_waiting_set:
  "set (jq_waiting (insert_waiting_job j q)) = insert (job_id j) {x \<in> set (jq_waiting q). is_eligible q x}"
  by (simp add: insert_waiting_job_def Let_def insert_before_greater_set prune_waiting_set is_eligible_def)

lemma insert_job_inv:
  assumes inv: "jq_inv q" and j: "job_status j = ''WAITING''" "strip (job_id j) = job_id j" "job_id j \<noteq> []"
  shows "jq_inv (insert_waiting_job j (q\<lparr>jq_enqueue_seq := n, jq_jobs := dset (job_id j) j (jq_jobs q)\<rparr>))"
    (is "jq_inv (insert_waiting_job j ?q)")
proof (rule inv_shrink [OF inv])
  note d = jq_invD [OF inv]
  have get: "get_job_state ?q k = (if k = job_id j then Some j else get_job_state q k)" for k
    by (simp add: get_job_state_def dict_simps)
  have c: "is_running (insert_waiting_job j ?q) = is_running ?q" "is_eligible (insert_waiting_job j ?q) = is_eligible ?q"
    "ids_ok (insert_waiting_job j ?q) = ids_ok ?q"
    by (rule preds_cong, simp add: frame_simps)+
  show "dwf (jq_jobs (insert_waiting_job j ?q))" using d(1) by (simp add: frame_simps)
  show "ids_ok (insert_waiting_job j ?q)"
    using d(2) j unfolding c by (auto simp: ids_ok_def get split: if_splits)
  show "strip (jq_running (insert_waiting_job j ?q)) = jq_running (insert_waiting_job j ?q)"
    using d(3) by (simp add: frame_simps)
  show "is_running q k \<and> jq_running (insert_waiting_job j ?q) = k" if "is_running (insert_waiting_job j ?q) k" for k
    using that d(4) j(1) unfolding c by (auto simp: is_running_def get frame_simps split: if_splits)
  show "k \<in> set (jq_waiting (insert_waiting_job j ?q))" if "is_eligible (insert_waiting_job j ?q) k" for k
  proof (cases "k = job_id j")
    case False
    then have "is_eligible q k" using that unfolding c by (auto simp: is_eligible_def get)
    then show ?thesis using that d(5) unfolding c by (simp add: insert_waiting_set)
  qed (simp add: insert_waiting_set)
qed (simp_all add: frame_simps)

lemma submit_inv [invs]:
  assumes inv: "jq_inv q" and "strip (se_fresh_job_id env) = se_fresh_job_id env" "se_fresh_job_id env \<noteq> []"
  shows "jq_inv (fst (submit_job env normalized token q))"
proof -
  have "jq_inv (fst (enqueue_job (submitted_job env p pr token) q))" for p pr
  proof -
    let ?q1 = "fst (detach_stale_running q)"
    let ?j = "submitted_job env p pr token (jq_enqueue_seq ?q1 + 1)"
    have "jq_inv (insert_waiting_job ?j (?q1\<lparr>jq_enqueue_seq := jq_enqueue_seq ?q1 + 1,
        jq_jobs := dset (job_id ?j) ?j (jq_jobs ?q1)\<rparr>))"
      by (rule insert_job_inv [OF detach_inv [OF inv] submitted_job_facts(1) submitted_job_id [OF assms(2,3)]])
    then show ?thesis
      by (simp add: enqueue_job_def Let_def case_prod_beta invs)
  qed
  then show ?thesis
    using inv by (auto simp: submit_job_def split: sum.split prod.split) (metis fst_conv)
qed

lemma cancel_inv [invs]:
  assumes inv: "jq_inv q"
  shows "jq_inv (fst (cancel_job dumps sha jid token now q))"
proof -
  let ?n = "strip jid"
  let ?f = "\<lambda>j. j\<lparr>job_status := ''CANCELLED'', job_finished_at := Some now, job_cancel_requested := True\<rparr>"
  have "jq_inv (invalidate_summary (remove_waiting_job (job_id j) (refresh_job_previews dumps ?n (upd_job ?n ?f q))))"
    (is "jq_inv (invalidate_summary (remove_waiting_job _ ?q))") if j: "get_job_state q ?n = Some j" for j
  proof -
    have idj: "job_id j = ?n" using j jq_invD(2) [OF inv] by (simp add: ids_ok_def)
    have "jq_inv (upd_job ?n ?f q)" by (rule retire_inv [OF inv]) (simp_all add: job_eligible_def)
    then have q: "jq_inv ?q" by (rule same_view_inv [OF same_view_previews])
    have ne: "\<not> is_eligible ?q ?n"
      using same_view_preds(2) [OF same_view_previews] by (simp add: preds_upd job_eligible_def)
    have "jq_inv (remove_waiting_job (job_id j) ?q)"
    proof (rule inv_shrink [OF q])
      have c: "jq_jobs (remove_waiting_job (job_id j) ?q) = jq_jobs ?q" by (simp add: frame_simps)
      note c = preds_cong [OF c] and d = jq_invD [OF q]
      show "dwf (jq_jobs (remove_waiting_job (job_id j) ?q))" using d(1) by (simp add: frame_simps)
      show "ids_ok (remove_waiting_job (job_id j) ?q)" using d(2) c by simp
      show "strip (jq_running (remove_waiting_job (job_id j) ?q)) = jq_running (remove_waiting_job (job_id j) ?q)"
        using d(3) by (simp add: frame_simps)
      show "is_running ?q k \<and> jq_running (remove_waiting_job (job_id j) ?q) = k"
        if "is_running (remove_waiting_job (job_id j) ?q) k" for k
        using that d(4) c by (simp add: frame_simps)
      show "k \<in> set (jq_waiting (remove_waiting_job (job_id j) ?q))"
        if "is_eligible (remove_waiting_job (job_id j) ?q) k" for k
        using that d(5) c ne idj by (auto simp: remove_waiting_set)
    qed (simp_all add: frame_simps)
    then show ?thesis by (rule invalidate_inv)
  qed
  moreover have "jq_inv (invalidate_summary (upd_job ?n (\<lambda>j. j\<lparr>job_cancel_requested := True\<rparr>) q))"
  proof -
    have "jq_inv (upd_job ?n (\<lambda>j. j\<lparr>job_cancel_requested := True\<rparr>) q)"
      by (rule inv_shrink [OF inv])
        (use jq_invD [OF inv] in \<open>auto simp: frame_simps preds_upd ids_upd job_eligible_def is_running_def split: if_splits\<close>)
    then show ?thesis by (rule invalidate_inv)
  qed
  ultimately show ?thesis
    using inv get_job_inv same_view_inv [OF same_view_release]
    by (auto simp: cancel_job_def Let_def split: option.split sum.split prod.split) (metis fst_conv)+
qed

text \<open>Reordering, closing and the cleanup.\<close>

lemma swap_at_mset:
  assumes "i < length xs" "k < length xs"
  shows "mset (swap_at i k xs) = mset xs"
  unfolding swap_at_def by (rule mset_swap [OF assms(2,1)])

lemma index_of_less: "x \<in> set xs \<Longrightarrow> index_of x xs < length xs \<and> xs ! index_of x xs = x"
  by (induction xs) auto

lemma waiting_inv:
  assumes inv: "jq_inv q" and "\<And>k. is_eligible q k \<Longrightarrow> k \<in> set ws"
  shows "jq_inv (q\<lparr>jq_waiting := ws\<rparr>)"
proof (rule inv_shrink [OF inv])
  have c: "is_running (q\<lparr>jq_waiting := ws\<rparr>) = is_running q" "is_eligible (q\<lparr>jq_waiting := ws\<rparr>) = is_eligible q"
    "ids_ok (q\<lparr>jq_waiting := ws\<rparr>) = ids_ok q"
    by (rule preds_cong, simp)+
  note d = jq_invD [OF inv]
  show "dwf (jq_jobs (q\<lparr>jq_waiting := ws\<rparr>))" "ids_ok (q\<lparr>jq_waiting := ws\<rparr>)"
    "strip (jq_running (q\<lparr>jq_waiting := ws\<rparr>)) = jq_running (q\<lparr>jq_waiting := ws\<rparr>)"
    using d c by simp_all
  show "is_running q k \<and> jq_running (q\<lparr>jq_waiting := ws\<rparr>) = k" if "is_running (q\<lparr>jq_waiting := ws\<rparr>) k" for k
    using that d(4) c by simp
  show "k \<in> set (jq_waiting (q\<lparr>jq_waiting := ws\<rparr>))" if "is_eligible (q\<lparr>jq_waiting := ws\<rparr>) k" for k
    using that assms(2) c by simp
qed simp_all

lemma prune_eq: "prune_waiting_order q = q\<lparr>jq_waiting := jq_waiting (prune_waiting_order q)\<rparr>"
  by (simp add: prune_waiting_order_def)

lemma prune_inv [invs]: "jq_inv q \<Longrightarrow> jq_inv (prune_waiting_order q)"
  by (subst prune_eq, rule waiting_inv) (auto simp: prune_waiting_set is_eligible_def jq_invD(5) dest: jq_invD(5))

lemma insert_waiting_eq: "insert_waiting_job j q = q\<lparr>jq_waiting := jq_waiting (insert_waiting_job j q)\<rparr>"
  by (simp add: insert_waiting_job_def prune_waiting_order_def Let_def)

lemma insert_waiting_inv [invs]: "jq_inv q \<Longrightarrow> jq_inv (insert_waiting_job j q)"
  by (subst insert_waiting_eq, rule waiting_inv) (auto simp: insert_waiting_set dest: jq_invD(5))

lemma reorder_inv [invs]:
  assumes inv: "jq_inv q"
  shows "jq_inv (fst (reorder_job jid direction q))"
proof (cases "get_job_state q (strip jid)")
  case None
  then show ?thesis using inv by (simp add: reorder_job_def Let_def)
next
  case (Some j)
  let ?n = "strip jid"
  define q1 where "q1 = prune_waiting_order q"
  define q2 where "q2 = (if ?n \<notin> set (jq_waiting q1) then insert_waiting_job j q1 else q1)"
  have q2: "jq_inv q2" using inv by (simp add: q1_def q2_def invs)
  have "job_id j = ?n" using Some jq_invD(2) [OF inv] by (simp add: ids_ok_def)
  then have "?n \<in> set (jq_waiting q2)" by (simp add: q2_def insert_waiting_set)
  then have idx: "index_of ?n (jq_waiting q2) < length (jq_waiting q2)" using index_of_less by blast
  have swap: "jq_inv (q2\<lparr>jq_waiting := swap_at i k (jq_waiting q2)\<rparr>)"
    if "i < length (jq_waiting q2)" "k < length (jq_waiting q2)" for i k
  proof (rule waiting_inv [OF q2])
    have "set (swap_at i k (jq_waiting q2)) = set (jq_waiting q2)"
      using swap_at_mset [OF that] mset_eq_setD by blast
    then show "x \<in> set (swap_at i k (jq_waiting q2))" if "is_eligible q2 x" for x
      using jq_invD(5) [OF q2 that] by simp
  qed
  show ?thesis
    using inv idx q2 swap Some
    by (auto simp: reorder_job_def Let_def q1_def [symmetric] q2_def [symmetric] intro!: invalidate_inv)
qed

lemma close_begin_inv [invs]:
  assumes inv: "jq_inv q"
  shows "jq_inv (close_begin now q)"
proof -
  let ?q = "q\<lparr>jq_stop := True, jq_started := False, jq_jobs := dmap (\<lambda>_. cancel_waiting now) (jq_jobs q)\<rparr>"
  have get: "get_job_state ?q k = map_option (cancel_waiting now) (get_job_state q k)" for k
    by (simp add: get_job_state_def dict_simps)
  note d = jq_invD [OF inv]
  have cw: "job_id (cancel_waiting now j) = job_id j" "\<not> job_eligible (cancel_waiting now j)"
    "job_status (cancel_waiting now j) = ''RUNNING'' \<longleftrightarrow> job_status j = ''RUNNING''" for j
    by (simp_all add: cancel_waiting_def job_eligible_def)
  have q: "jq_inv ?q"
  proof (rule inv_shrink [OF inv])
    show "ids_ok ?q" using d(2) by (auto simp: ids_ok_def get cw)
    show "is_running q k \<and> jq_running ?q = k" if "is_running ?q k" for k
      using that d(4) by (auto simp: is_running_def get cw)
    show "k \<in> set (jq_waiting ?q)" if "is_eligible ?q k" for k
      using that by (auto simp: is_eligible_def get cw)
  qed (use d in simp_all)
  have "jq_inv (upd_job (jq_running ?q) (\<lambda>j. j\<lparr>job_cancel_requested := True\<rparr>) ?q)"
    by (rule inv_shrink [OF q])
      (use jq_invD [OF q] in \<open>auto simp: frame_simps preds_upd ids_upd job_eligible_def is_running_def split: if_splits\<close>)
  then show ?thesis using q by (simp add: close_begin_def Let_def)
qed

lemma close_end_inv [invs]:
  assumes inv: "jq_inv q" and "jq_stop q"
  shows "jq_inv (fst (close_end q))"
proof -
  let ?q = "q\<lparr>jq_handle := None, jq_shared := None\<rparr>"
  have c: "is_running ?q = is_running q" "is_eligible ?q = is_eligible q" "ids_ok ?q = ids_ok q"
    by (rule preds_cong, simp)+
  have "jobs_inv ?q" using inv c by (simp add: jq_inv_def jobs_inv_def)
  moreover have "threads_inv ?q" using inv assms(2) by (simp add: jq_inv_def threads_inv_def alive_def)
  moreover have "pcs_inv ?q" using inv c by (simp add: jq_inv_def pcs_inv_def thread_at_def)
  ultimately show ?thesis by (simp add: close_end_def jq_inv_def Let_def)
qed

lemma fold_remove_waiting_ex: "\<exists>ws. fold remove_waiting_job xs q = q\<lparr>jq_waiting := ws\<rparr>"
proof (induction xs arbitrary: q)
  case Nil
  show ?case by (rule exI [of _ "jq_waiting q"]) simp
next
  case (Cons x xs)
  obtain ws where "fold remove_waiting_job xs (remove_waiting_job x q) = (remove_waiting_job x q)\<lparr>jq_waiting := ws\<rparr>"
    using Cons by blast
  moreover have "(remove_waiting_job x q)\<lparr>jq_waiting := ws\<rparr> = q\<lparr>jq_waiting := ws\<rparr>"
    by (simp add: remove_waiting_job_def)
  ultimately show ?case by auto
qed

lemma fold_remove_waiting:
  "fold remove_waiting_job xs q = q\<lparr>jq_waiting := jq_waiting (fold remove_waiting_job xs q)\<rparr>"
proof -
  obtain ws where "fold remove_waiting_job xs q = q\<lparr>jq_waiting := ws\<rparr>" using fold_remove_waiting_ex by blast
  then show ?thesis by simp
qed

lemma fold_remove_waiting_mem:
  "y \<in> set (jq_waiting q) \<Longrightarrow> y \<notin> strip ` set xs \<Longrightarrow> y \<in> set (jq_waiting (fold remove_waiting_job xs q))"
  by (induction xs arbitrary: q) (auto simp: remove_waiting_set)

definition is_old :: "instant \<Rightarrow> job_queue \<Rightarrow> job_state \<Rightarrow> bool" where
  "is_old now q j \<longleftrightarrow> is_terminal (job_status j) \<and>
     of_int (jq_retention q) < now - (case job_finished_at j of None \<Rightarrow> job_submitted_at j | Some t \<Rightarrow> t)"

definition expired_ids :: "instant \<Rightarrow> job_queue \<Rightarrow> string list" where
  "expired_ids now q = map fst (filter (\<lambda>(_, j). is_old now q j) (jq_jobs q))"

lemma cleanup_eq:
  "cleanup_jobs now q =
    (if jq_retention q \<le> 0 then (q, [])
     else let released = map snd (filter (\<lambda>(_, j). is_old now q j) (jq_jobs q));
            q1 = q\<lparr>jq_waiting := jq_waiting (fold remove_waiting_job (expired_ids now q) q),
                   jq_jobs := dpops (expired_ids now q) (jq_jobs q)\<rparr>
          in (if released \<noteq> [] then invalidate_summary q1 else q1, released))"
proof -
  let ?e = "expired_ids now q"
  have "(fold remove_waiting_job ?e q)\<lparr>jq_jobs := dpops ?e (jq_jobs q)\<rparr> =
    q\<lparr>jq_waiting := jq_waiting (fold remove_waiting_job ?e q), jq_jobs := dpops ?e (jq_jobs q)\<rparr>"
    by (subst fold_remove_waiting) simp
  then show ?thesis
    unfolding cleanup_jobs_def Let_def is_old_def [abs_def] expired_ids_def by simp
qed

lemma expired_iff:
  assumes "dwf (jq_jobs q)"
  shows "k \<in> set (expired_ids now q) \<longleftrightarrow> (\<exists>j. get_job_state q k = Some j \<and> is_old now q j)"
proof -
  have "k \<in> set (expired_ids now q) \<longleftrightarrow> (\<exists>j. (k, j) \<in> set (jq_jobs q) \<and> is_old now q j)"
    by (force simp: expired_ids_def)
  then show ?thesis using dget_in in_dget [OF assms] by (metis get_job_state_def)
qed

lemma cleanup_get:
  assumes "dwf (jq_jobs q)"
  shows "get_job_state (fst (cleanup_jobs now q)) k =
    (case get_job_state q k of None \<Rightarrow> None | Some j \<Rightarrow> if 0 < jq_retention q \<and> is_old now q j then None else Some j)"
proof -
  let ?r = "q\<lparr>jq_waiting := jq_waiting (fold remove_waiting_job (expired_ids now q) q),
    jq_jobs := dpops (expired_ids now q) (jq_jobs q)\<rparr>"
  have "get_job_state (fst (cleanup_jobs now q)) k = (if jq_retention q \<le> 0 then get_job_state q k else get_job_state ?r k)"
    unfolding cleanup_eq Let_def by (simp add: frame_simps)
  moreover have "get_job_state ?r k = (if k \<in> set (expired_ids now q) then None else get_job_state q k)"
    by (simp add: get_job_state_def dict_simps)
  ultimately show ?thesis
    using expired_iff [OF assms, of k now] by (simp split: option.split)
qed

lemma cleanup_frame: "\<exists>ws js n c. fst (cleanup_jobs now q) =
    q\<lparr>jq_waiting := ws, jq_jobs := js, jq_revision := n, jq_cache := c\<rparr>"
proof (cases "jq_retention q \<le> 0")
  case True
  then have "fst (cleanup_jobs now q) = q\<lparr>jq_waiting := jq_waiting q, jq_jobs := jq_jobs q,
      jq_revision := jq_revision q, jq_cache := jq_cache q\<rparr>"
    by (simp add: cleanup_eq)
  then show ?thesis by blast
next
  case False
  let ?ws = "jq_waiting (fold remove_waiting_job (expired_ids now q) q)"
  let ?js = "dpops (expired_ids now q) (jq_jobs q)"
  let ?old = "map snd (filter (\<lambda>(_, j). is_old now q j) (jq_jobs q))"
  have "fst (cleanup_jobs now q) = (if ?old \<noteq> [] then invalidate_summary (q\<lparr>jq_waiting := ?ws, jq_jobs := ?js\<rparr>)
      else q\<lparr>jq_waiting := ?ws, jq_jobs := ?js\<rparr>)"
    using False by (simp only: cleanup_eq Let_def if_False fst_conv)
  also have "\<dots> = q\<lparr>jq_waiting := ?ws, jq_jobs := ?js,
      jq_revision := (if ?old \<noteq> [] then jq_revision q + 1 else jq_revision q),
      jq_cache := (if ?old \<noteq> [] then None else jq_cache q)\<rparr>"
    by (cases "?old \<noteq> []") (simp_all only: if_True if_False, simp_all add: invalidate_summary_def)
  finally show ?thesis by blast
qed

lemma cleanup_sels [frame_simps]:
  "jq_running (fst (cleanup_jobs now q)) = jq_running q" "jq_threads (fst (cleanup_jobs now q)) = jq_threads q"
  "jq_handle (fst (cleanup_jobs now q)) = jq_handle q" "jq_stop (fst (cleanup_jobs now q)) = jq_stop q"
  using cleanup_frame [of now q] by auto

lemma cleanup_inv [invs]:
  assumes inv: "jq_inv q"
  shows "jq_inv (fst (cleanup_jobs now q))"
proof (rule inv_shrink [OF inv])
  let ?q = "fst (cleanup_jobs now q)"
  note d = jq_invD [OF inv] and get = cleanup_get [OF jq_invD(1) [OF inv], of now]
  show "dwf (jq_jobs ?q)" unfolding cleanup_eq Let_def using d(1) by (simp add: frame_simps)
  show "ids_ok ?q" using d(2) by (auto simp: ids_ok_def get split: option.splits if_splits)
  show "strip (jq_running ?q) = jq_running ?q" using d(3) by (simp add: frame_simps)
  show "is_running q k \<and> jq_running ?q = k" if "is_running ?q k" for k
    using that d(4) by (auto simp: is_running_def get frame_simps split: option.splits if_splits)
  show "k \<in> set (jq_waiting ?q)" if "is_eligible ?q k" for k
  proof (cases "0 < jq_retention q")
    case True
    have k: "is_eligible q k" "k \<notin> set (expired_ids now q)"
      using that True expired_iff [OF d(1), of k now]
      by (auto simp: is_eligible_def get split: option.splits if_splits)
    have "strip x = x" if "x \<in> set (expired_ids now q)" for x
      using that expired_iff [OF d(1)] d(2) by (auto simp: ids_ok_def)
    then have "k \<notin> strip ` set (expired_ids now q)" using k(2) by auto
    then show ?thesis
      unfolding cleanup_eq Let_def using True fold_remove_waiting_mem [OF d(5) [OF k(1)]] by (simp add: frame_simps)
  next
    case False
    then show ?thesis using that d(5) by (simp add: cleanup_eq)
  qed
qed (simp_all add: frame_simps)

text \<open>The scheduler thread: selecting, running, looking, releasing.\<close>

lemma set_thread_sels [frame_simps]:
  "jq_jobs (set_thread i pc q) = jq_jobs q" "jq_waiting (set_thread i pc q) = jq_waiting q"
  "jq_running (set_thread i pc q) = jq_running q" "jq_handle (set_thread i pc q) = jq_handle q"
  "jq_stop (set_thread i pc q) = jq_stop q" "get_job_state (set_thread i pc q) k = get_job_state q k"
  by (simp_all add: set_thread_def get_job_state_def)

lemma set_thread_inv:
  assumes inv: "jq_inv q" and al: "alive q i"
    and ex: "\<And>jid k. pc = Executing jid \<Longrightarrow> is_running q k \<Longrightarrow> k = jid"
    and re: "\<And>jid k. pc = Returned jid \<or> pc = Closing jid \<Longrightarrow> \<not> is_running q k"
  shows "jq_inv (set_thread i pc q)"
proof -
  let ?q = "set_thread i pc q"
  note c = preds_cong [of ?q q, OF set_thread_sels(1)]
  have alive: "alive ?q k \<longleftrightarrow> (if k = i then pc \<noteq> Dead else alive q k)" for k
    using al by (auto simp: alive_def set_thread_def nth_list_update)
  have at: "thread_at ?q k p \<longleftrightarrow> (if k = i then p = pc else thread_at q k p)" for k p
    using al by (auto simp: thread_at_def alive_def set_thread_def nth_list_update)
  have "k = jid" if "thread_at ?q i' (Executing jid)" "is_running q k" for i' jid k
    using that ex jq_invD(8) [OF inv, of i' jid k] by (auto simp: at split: if_splits)
  moreover have "\<not> is_running q k" if "thread_at ?q i' (Returned jid) \<or> thread_at ?q i' (Closing jid)" for i' jid k
    using that re [of jid k] jq_invD(9) [OF inv, of i' jid k] by (cases "i' = i") (auto simp: at)
  ultimately have "pcs_inv ?q" by (simp add: pcs_inv_def c(1))
  moreover have "jobs_inv ?q" using inv c by (simp add: jq_inv_def jobs_inv_def frame_simps)
  moreover have "threads_inv ?q"
    using jq_invD(6,7) [OF inv] al alive by (auto simp: threads_inv_def frame_simps split: if_splits)
  ultimately show ?thesis by (simp add: jq_inv_def)
qed

lemma release_inv:
  assumes inv: "jq_inv q" and idle: "\<And>k. \<not> is_running q k"
  shows "jq_inv (release_running now q)"
proof -
  let ?q = "(touch_shared_pool now q)\<lparr>jq_running := [], jq_executor := None\<rparr>"
  have j: "jq_jobs ?q = jq_jobs q" by (simp add: touch_shared_pool_def)
  note c = preds_cong [OF j] and d = jq_invD [OF inv]
  have "jq_inv ?q"
    by (rule inv_shrink [OF inv], unfold c) (use d idle in \<open>simp_all add: touch_shared_pool_def\<close>)
  then show ?thesis by (simp add: release_running_def invs)
qed

lemma release_sels [frame_simps]:
  "jq_jobs (release_running now q) = jq_jobs q" "jq_running (release_running now q) = []"
  "jq_threads (release_running now q) = jq_threads q" "jq_stop (release_running now q) = jq_stop q"
  "jq_waiting (release_running now q) = jq_waiting q" "jq_handle (release_running now q) = jq_handle q"
  by (simp_all add: release_running_def touch_shared_pool_def frame_simps)

lemma pick_frame: "\<exists>ws. fst (pick_next_job q) = q\<lparr>jq_waiting := ws\<rparr>"
proof -
  have "(prune_waiting_order q)\<lparr>jq_waiting := ws\<rparr> = q\<lparr>jq_waiting := ws\<rparr>" for ws
    by (simp add: prune_waiting_order_def)
  then show ?thesis using prune_eq [of q]
    by (simp add: pick_next_job_def Let_def split: list.split) metis
qed

lemma pick_sels [frame_simps]:
  "jq_jobs (fst (pick_next_job q)) = jq_jobs q" "jq_running (fst (pick_next_job q)) = jq_running q"
  "jq_threads (fst (pick_next_job q)) = jq_threads q" "jq_handle (fst (pick_next_job q)) = jq_handle q"
  "jq_stop (fst (pick_next_job q)) = jq_stop q"
  using pick_frame [of q] by auto

lemma pick_waiting:
  assumes inv: "jq_inv q" and "is_eligible q k"
  shows "k \<in> set (jq_waiting (fst (pick_next_job q)))"
proof -
  note d = jq_invD [OF inv]
  have "k \<in> set (jq_waiting (prune_waiting_order q))"
    using assms(2) d(5) [of k] by (auto simp: prune_waiting_set is_eligible_def)
  then show ?thesis
    unfolding pick_next_usable [OF d(1,2)] by (cases "jq_waiting (prune_waiting_order q)") auto
qed

lemma pick_inv [invs]:
  assumes inv: "jq_inv q"
  shows "jq_inv (fst (pick_next_job q))"
proof -
  obtain ws where ws: "fst (pick_next_job q) = q\<lparr>jq_waiting := ws\<rparr>" using pick_frame by blast
  then have "k \<in> set ws" if "is_eligible q k" for k using pick_waiting [OF inv that] by simp
  then show ?thesis unfolding ws by (rule waiting_inv [OF inv])
qed

lemma start_job_get: "get_job_state (start_job jid now clock q) k =
    (if k = jid then map_option (\<lambda>j. j\<lparr>job_status := ''RUNNING'', job_started_at := Some now,
           job_checkpoint := dset ''phase'' (PStr ''preparing'') (job_checkpoint j),
           job_timing := (case dget (job_marks j) ''submitted_at_monotonic'' of
             None \<Rightarrow> job_timing j
           | Some m \<Rightarrow> dset ''queue_wait_ms'' (PFloat (ms (clock - m))) (job_timing j))\<rparr>) (get_job_state q k)
     else get_job_state q k)"
proof -
  have [simp]: "get_job_state (q\<lparr>jq_running := x\<rparr>) k = get_job_state q k" for q x by (simp add: get_job_state_def)
  show ?thesis by (simp add: start_job_def Let_def frame_simps)
qed

lemma start_job_sels [frame_simps]:
  "jq_running (start_job jid now clock q) = jid" "jq_threads (start_job jid now clock q) = jq_threads q"
  "jq_handle (start_job jid now clock q) = jq_handle q" "jq_stop (start_job jid now clock q) = jq_stop q"
  by (simp_all add: start_job_def Let_def frame_simps)

lemma start_job_inv:
  assumes inv: "jq_inv q" and idle: "\<And>k. \<not> is_running q k" and at: "thread_at q i AtTop"
    and el: "is_eligible q jid"
  shows "jq_inv (start_job jid now clock q)" and "is_running (start_job jid now clock q) k \<longleftrightarrow> k = jid"
proof -
  let ?q = "start_job jid now clock q"
  note d = jq_invD [OF inv]
  obtain j where j: "get_job_state q jid = Some j" "job_id j = jid" "jid \<noteq> []" "strip jid = jid"
    using el d(2) by (auto simp: is_eligible_def ids_ok_def)
  have run: "is_running ?q k \<longleftrightarrow> k = jid" for k
    using idle [of k] j(1) by (auto simp: is_running_def start_job_get)
  then show "is_running ?q k \<longleftrightarrow> k = jid" .
  have elig: "is_eligible ?q k \<longleftrightarrow> k \<noteq> jid \<and> is_eligible q k" for k
    by (auto simp: is_eligible_def job_eligible_def start_job_get)
  have "dwf (jq_jobs ?q)" using d(1) by (simp add: start_job_def Let_def frame_simps)
  moreover have "ids_ok ?q" using d(2) by (auto simp: ids_ok_def start_job_get split: if_splits)
  moreover have "k \<in> set (jq_waiting ?q)" if "is_eligible ?q k" for k
    using that elig d(5) [of k] j(4) by (simp add: start_job_def Let_def frame_simps remove_waiting_set)
  ultimately have "jobs_inv ?q" using run j(4) by (simp add: jobs_inv_def frame_simps)
  moreover have al: "alive ?q = alive q" "thread_at ?q = thread_at q"
    by (simp_all add: fun_eq_iff alive_def thread_at_def frame_simps)
  then have "threads_inv ?q" using inv by (simp add: jq_inv_def threads_inv_def frame_simps)
  moreover have "thread_at q i' pc \<Longrightarrow> pc = AtTop \<or> pc = Dead" for i' pc
    using at d(6) [of i i'] by (auto simp: thread_at_def alive_def)
  then have "pcs_inv ?q" unfolding pcs_inv_def al by blast
  ultimately show "jq_inv ?q" by (simp add: jq_inv_def)
qed

lemma view_cleanup:
  assumes inv: "jq_inv q"
  shows "is_running (fst (cleanup_jobs now q)) = is_running q"
    "is_eligible (fst (cleanup_jobs now q)) = is_eligible q"
    "thread_at (fst (cleanup_jobs now q)) = thread_at q"
  using cleanup_get [OF jq_invD(1) [OF inv], of now]
  by (auto simp: is_running_def is_eligible_def is_old_def is_terminal_def job_eligible_def thread_at_def
      fun_eq_iff frame_simps split: option.splits)

lemma idle_running:
  assumes inv: "jq_inv q" and "jq_running q = []"
  shows "\<not> is_running q k"
  using jq_invD(2) [OF inv] jq_invD(4) [OF inv, of k] assms(2) by (auto simp: is_running_def ids_ok_def)

lemma pick_eligible:
  assumes inv: "jq_inv q" and "pick_next_job q = (q', Some jid)"
  shows "is_eligible q jid"
  using pick_next_sound(1) [OF jq_invD(1,2) [OF inv] assms(2)] by (simp add: is_eligible_def)

text \<open>What one pass does: on the cleaned queue it dies, finds nothing or starts a job.\<close>

lemma loop_pass_cases:
  assumes "loop_pass ttl now clock q = (q', pc, effs)"
  defines "q2 \<equiv> fst (cleanup_jobs now q)"
  obtains (dies) e where "jobs_needing_ref_touch ttl now q2 = Inl e" "q' = q2" "pc = Dead"
  | (none) touch where "jobs_needing_ref_touch ttl now q2 = Inr touch" "snd (pick_next_job q2) = None"
      "q' = fst (pick_next_job q2) \<or> q' = fst (close_shared_pool (fst (pick_next_job q2)))" "pc = AtTop"
  | (starts) touch jid where "jobs_needing_ref_touch ttl now q2 = Inr touch"
      "pick_next_job q2 = (fst (pick_next_job q2), Some jid)"
      "q' = start_job jid now clock (fst (pick_next_job q2))" "pc = Executing jid"
proof -
  obtain released where c: "cleanup_jobs now q = (q2, released)" by (metis q2_def prod.collapse)
  show ?thesis
  proof (cases "jobs_needing_ref_touch ttl now q2")
    case (Inl e)
    note pass = assms(1) [unfolded loop_pass_def c Inl prod.case sum.case]
    show ?thesis by (rule dies [OF Inl]) (use pass in simp_all)
  next
    case (Inr touch)
    note pass = assms(1) [unfolded loop_pass_def c Inr Let_def prod.case sum.case]
    obtain q3 r where p: "pick_next_job q2 = (q3, r)" by (cases "pick_next_job q2")
    show ?thesis
    proof (cases r)
      case None
      have "(q' = q3 \<or> q' = fst (close_shared_pool q3)) \<and> pc = AtTop"
        using pass unfolding p None prod.case option.case by (simp add: close_shared_pool_def split: if_splits)
      then show ?thesis by (intro none [OF Inr]) (simp_all add: p None)
    next
      case (Some jid)
      note res = pass [unfolded p Some prod.case option.case]
      show ?thesis by (rule starts [OF Inr, of jid]) (use res in \<open>simp_all add: p Some\<close>)
    qed
  qed
qed

lemma close_pool_view: "same_view q (fst (close_shared_pool q))"
  by (simp add: close_shared_pool_def same_view_def get_job_state_def)

lemma loop_pass_inv:
  assumes inv: "jq_inv q" and idle: "\<And>k. \<not> is_running q k" and at: "thread_at q i AtTop"
    and pass: "loop_pass ttl now clock q = (q', pc, effs)"
  shows "jq_inv (set_thread i pc q')"
proof -
  let ?q2 = "fst (cleanup_jobs now q)" and ?q3 = "fst (pick_next_job (fst (cleanup_jobs now q)))"
  have inv2: "jq_inv ?q2" using inv by (rule cleanup_inv)
  have inv3: "jq_inv ?q3" using inv2 by (rule pick_inv)
  have idle3: "\<not> is_running ?q3 k" for k
    using idle view_cleanup(1) [OF inv] preds_cong(1) [OF pick_sels(1)] by simp
  have at2: "thread_at ?q2 i AtTop" using at view_cleanup(3) [OF inv] by simp
  then have at3: "thread_at ?q3 i AtTop" by (simp add: thread_at_def frame_simps)
  have al: "alive q i" if "thread_at q i AtTop" for q using that by (simp add: alive_def thread_at_def)
  from pass show ?thesis
  proof (cases rule: loop_pass_cases)
    case dies
    have "jq_inv (set_thread i Dead ?q2)" by (rule set_thread_inv [OF inv2 al [OF at2]]) simp_all
    then show ?thesis using dies by simp
  next
    case (none touch)
    have v: "same_view ?q3 q'" using none(3) close_pool_view by auto
    have "thread_at q' i AtTop" using at3 same_view_preds(4) [OF v] by simp
    then have "jq_inv (set_thread i AtTop q')" by (intro set_thread_inv [OF same_view_inv [OF v inv3] al]) simp_all
    then show ?thesis using none(4) by simp
  next
    case (starts touch jid)
    have el: "is_eligible ?q3 jid"
      using pick_eligible [OF inv2 starts(2)] preds_cong(2) [OF pick_sels(1)] by simp
    note s = start_job_inv [OF inv3 idle3 at3 el, of now clock]
    have "thread_at q' i AtTop" using at3 starts(3) by (simp add: thread_at_def frame_simps)
    then show ?thesis unfolding starts(4) using s starts(3) by (intro set_thread_inv al) auto
  qed
qed

lemma loop_select_inv:
  assumes inv: "jq_inv q" and at: "thread_at q i AtTop" and sel: "loop_select ttl now clock q = (q', pc, effs)"
  shows "jq_inv (set_thread i pc q')"
proof -
  have al: "alive q i" using at by (simp add: alive_def thread_at_def)
  show ?thesis
  proof (cases "jq_stop q \<or> jq_running q \<noteq> [] \<and> \<not> running_finished q")
    case True
    then have "q' = q \<and> (pc = Dead \<or> pc = AtTop)" using sel by (auto simp: loop_select_def split: if_splits)
    moreover have "jq_inv (set_thread i Dead q)" "jq_inv (set_thread i AtTop q)"
      by (rule set_thread_inv [OF inv al], simp_all)+
    ultimately show ?thesis by auto
  next
    case False
    have idle: "\<not> is_running q k" for k
    proof (cases "jq_running q = []")
      case True
      then show ?thesis by (rule idle_running [OF inv])
    next
      case run: False
      show ?thesis
      proof
        assume k: "is_running q k"
        then have "jq_running q = k" by (rule jq_invD(4) [OF inv])
        then show False using False run k
          by (auto simp: running_finished_def is_running_def not_terminal_running)
      qed
    qed
    define q1 where "q1 = (if jq_running q \<noteq> [] then release_running now q else q)"
    have "jq_inv q1" using inv release_inv [OF inv idle] by (simp add: q1_def)
    moreover have j: "jq_jobs q1 = jq_jobs q" and "jq_threads q1 = jq_threads q" by (simp_all add: q1_def frame_simps)
    then have "thread_at q1 i AtTop" using at by (simp add: thread_at_def)
    moreover have "\<not> is_running q1 k" for k using idle preds_cong(1) [OF j] by simp
    moreover have "loop_pass ttl now clock q1 = (q', pc, effs)"
      using sel False by (auto simp: loop_select_def q1_def split: if_splits)
    ultimately show ?thesis using loop_pass_inv by blast
  qed
qed

text \<open>A run that returns leaves its job in a terminal state and touches no other job.\<close>

lemma fail_job_core: "job_id (fail_job m now j) = job_id j" "job_status (fail_job m now j) = ''FAILED''"
  by (simp_all add: fail_job_def)

lemma retire_then_view:
  assumes inv: "jq_inv q" and v: "same_view (upd_job jid f q1) q'" "same_view q q1"
    and f: "\<And>j. job_id (f j) = job_id j" "\<And>j. is_terminal (job_status (f j))"
  shows "jq_inv q'" "is_running q' k \<longleftrightarrow> k \<noteq> jid \<and> is_running q k"
    "jq_threads q' = jq_threads q" "jq_running q' = jq_running q"
proof -
  have t: "job_status (f j) \<noteq> ''RUNNING'' \<and> \<not> job_eligible (f j)" for j
    using f(2) [of j] by (auto simp: is_terminal_def job_eligible_def)
  have "jq_inv q1" using v(2) inv by (rule same_view_inv)
  then have "jq_inv (upd_job jid f q1)" by (rule retire_inv) (use f(1) t in simp_all)
  then show "jq_inv q'" by (rule same_view_inv [OF v(1)])
  show "is_running q' k \<longleftrightarrow> k \<noteq> jid \<and> is_running q k"
    using t same_view_preds(1) [OF v(1)] same_view_preds(1) [OF v(2)] by (simp add: preds_upd)
  show "jq_threads q' = jq_threads q" "jq_running q' = jq_running q"
    using v by (simp_all add: same_view_def frame_simps)
qed

text \<open>Up to what the invariants see, a run ends by one update of its job.\<close>

definition ends_job :: "(job_state \<Rightarrow> job_state) \<Rightarrow> bool" where
  "ends_job f \<longleftrightarrow> (\<forall>j. job_key (f j) = job_key j \<and> job_id (f j) = job_id j \<and> is_terminal (job_status (f j)))"

lemma run_end_shape:
  assumes "run_end jid q q'"
  shows "get_job_state q jid = None \<and> q' = q \<or>
    (\<exists>f q1. ends_job f \<and> same_view q q1 \<and> same_view (upd_job jid f q1) q')"
proof (cases "get_job_state q jid")
  case None
  with assms show ?thesis
    by (cases rule: run_end.cases)
      (simp_all add: run_resolve_failed_def run_failed_def run_no_blob_def run_writeback_def)
next
  case (Some j)
  have shape: ?thesis if "ends_job f" "same_view q q1" "same_view (upd_job jid f q1) q'" for f q1
    using that by blast
  have fail: "ends_job (fail_job msg now)" for msg now
    by (simp add: ends_job_def fail_job_core job_key_def fail_job_def is_terminal_def)
  from assms show ?thesis
  proof (cases rule: run_end.cases)
    case gone
    then show ?thesis by simp
  next
    case (resolve_failed msg now clock)
    let ?q1 = "job_timing_finalize jid clock (fst (job_timing_finish jid ''resolve_refs'' ''resolve_refs_ms'' clock q))"
    have v: "same_view q ?q1" by (rule same_view_trans [OF same_view_timing_finish same_view_timing_finalize])
    have "q' = invalidate_summary (upd_job jid (fail_job msg now) ?q1)"
      using resolve_failed Some by (simp add: run_resolve_failed_def Let_def)
    then show ?thesis by (intro shape [OF fail [of msg now] v]) simp
  next
    case (failed dumps msg now clock)
    then show ?thesis
      by (intro shape [OF fail [of msg now] same_view_timing_finalize [of q jid clock]]) (simp add: failed run_failed_def Some same_view_previews)
  next
    case (no_blob now)
    show ?thesis by (intro shape [OF fail [of "''job hook mode requires blob_b64/blob_ref''" now] same_view_refl]) (simp add: no_blob run_no_blob_def Some)
  next
    case (writeback dumps results final now clock elapsed)
    have f: "ends_job (written_job results final now elapsed)"
      by (simp add: ends_job_def written_job_def job_key_def is_terminal_def)
    have "same_view (upd_job jid (written_job results final now elapsed) q) q'"
      unfolding writeback run_writeback_def Some option.case
      by (rule same_view_trans [OF same_view_previews same_view_timing_finalize])
    with f show ?thesis by (rule shape [OF _ same_view_refl])
  qed
qed

lemma run_end_facts:
  assumes "run_end jid q q'" and inv: "jq_inv q"
  shows "jq_inv q' \<and> is_running q' k = (k \<noteq> jid \<and> is_running q k) \<and> jq_threads q' = jq_threads q \<and>
    jq_running q' = jq_running q"
  using run_end_shape [OF assms(1)]
proof (elim disjE exE conjE)
  assume "get_job_state q jid = None" "q' = q"
  then show ?thesis using inv by (auto simp: is_running_def)
next
  fix f q1
  assume f: "ends_job f" and v: "same_view q q1" "same_view (upd_job jid f q1) q'"
  show ?thesis using retire_then_view [OF inv v(2,1)] f by (simp add: ends_job_def)
qed

lemma get_job_keeps:
  "is_running (fst (get_job jid q)) = is_running q"
  "thread_at q i pc \<Longrightarrow> thread_at (fst (get_job jid q)) i pc"
proof -
  have e: "jq_jobs (ensure_scheduler_thread q) = jq_jobs q" for q
    by (simp add: ensure_scheduler_thread_def spawn_thread_def)
  have "jq_jobs (fst (get_job jid q)) = jq_jobs q"
    by (simp add: get_job_def nudge_scheduler_def Let_def case_prod_beta e frame_simps)
  then show "is_running (fst (get_job jid q)) = is_running q" by (rule preds_cong(1))
  have "thread_at q i pc \<Longrightarrow> thread_at (ensure_scheduler_thread q) i pc" for q
    by (simp add: ensure_scheduler_thread_def spawn_thread_def thread_at_def nth_append)
  moreover have "thread_at (fst (detach_stale_running q)) i pc = thread_at q i pc"
    by (simp add: thread_at_def frame_simps)
  ultimately show "thread_at q i pc \<Longrightarrow> thread_at (fst (get_job jid q)) i pc"
    by (simp add: get_job_def nudge_scheduler_def Let_def case_prod_beta)
qed

lemma look_view: "\<exists>q1. q1 = fst (get_job jid q) \<and> same_view q1 (fst (loop_look jid q))"
  using same_view_release
  by (auto simp: loop_look_def Let_def split: prod.split option.split) (metis fst_conv)

lemma jq_step_inv:
  assumes "jq_step l q q'" and inv: "jq_inv q"
  shows "jq_inv q'"
  using assms(1)
proof (cases rule: jq_step.cases)
  case (submit env normalized token effs j)
  then show ?thesis using submit_inv [OF inv, of env normalized token] by simp
next
  case (run_on i jid)
  then show ?thesis using same_view_inv [OF run_section_view inv] by simp
next
  case (run_returns i jid q1)
  note f = run_end_facts [OF run_returns(4) inv]
  have "alive q1 i" using run_returns(3) f by (simp add: thread_at_def alive_def)
  moreover have "\<not> is_running q1 k" for k using f [of k] jq_invD(8) [OF inv run_returns(3)] by auto
  ultimately show ?thesis unfolding run_returns using f by (intro set_thread_inv) auto
next
  case (run_dies i jid)
  have "jq_inv (set_thread i Dead q)"
    by (rule set_thread_inv [OF inv]) (use run_dies in \<open>simp_all add: thread_at_def alive_def\<close>)
  then show ?thesis using run_dies by simp
next
  case (look i jid)
  have v: "same_view (fst (get_job jid q)) (fst (loop_look jid q))" using look_view by blast
  note p = same_view_preds [OF v]
  have "thread_at (fst (loop_look jid q)) i (Returned jid)" using get_job_keeps(2) look p(4) by simp
  moreover have "\<not> is_running (fst (loop_look jid q)) k" for k
    using jq_invD(9) [OF inv, of i jid k] look get_job_keeps(1) p(1) by simp
  ultimately show ?thesis unfolding look
    by (intro set_thread_inv same_view_inv [OF v get_job_inv [OF inv]]) (simp_all add: alive_def thread_at_def)
next
  case (last i jid now)
  have idle: "\<not> is_running q k" for k using jq_invD(9) [OF inv, of i jid k] last by simp
  have "alive (release_running now q) i" using last by (simp add: alive_def thread_at_def frame_simps)
  then have "jq_inv (set_thread i AtTop (release_running now q))"
    by (intro set_thread_inv release_inv [OF inv idle]) simp_all
  then show ?thesis using last by simp
qed (use inv in \<open>auto intro: invs same_view_inv same_view_sections loop_select_inv close_end_inv start_inv\<close>)

lemma jq_reachable_inv: "jq_reachable q \<Longrightarrow> jq_inv q"
  by (induction rule: jq_reachable.induct) (auto intro: jq_inv_init jq_step_inv)

end
