(* ===== verification/JobDemo.thy ===== *)
theory JobDemo
  imports JobScheduler
begin

text \<open>
  A sample history of the queue, step by step, on which the properties of the queue are
  exercised: it is started, two jobs are submitted, and the scheduler starts the urgent one.
\<close>

section \<open>A sample run\<close>

definition demo_env :: "string \<Rightarrow> instant \<Rightarrow> submit_env" where
  "demo_env fresh now = \<lparr>se_rep = (\<lambda>_. []), se_sha256 = rev, se_fresh_job_id = fresh, se_fresh_client_id = ''c'',
     se_auth_ttl = 60, se_now = now, se_clock = now\<rparr>"

definition demo_payload :: "int \<Rightarrow> payload" where
  "demo_payload priority = [(''job_mode'', PStr ''hooks''), (''priority'', PInt priority)]"

definition demo_submit :: "string \<Rightarrow> int \<Rightarrow> instant \<Rightarrow> job_queue \<Rightarrow> job_queue" where
  "demo_submit jid priority now q = fst (submit_job (demo_env jid now) (Inr (PDict (demo_payload priority))) ''tok'' q)"

definition demo_started :: job_queue where
  "demo_started = start_queue ''cp'' (new_job_queue 0 60 0)"

definition demo_waiting :: job_queue where
  "demo_waiting = demo_submit ''b'' 5 2 (demo_submit ''a'' 1 1 demo_started)"

definition demo_running :: job_queue where
  "demo_running = set_thread 0 (Executing ''b'') (fst (loop_select 60 3 3 demo_waiting))"

lemma demo_submit_step:
  assumes "strip jid = jid" "jid \<noteq> []"
    "snd (snd (submit_job (demo_env jid now) (Inr (PDict (demo_payload p))) ''tok'' q)) = Inr j"
  shows "jq_step (LSubmit (job_id j)) q (demo_submit jid p now q)"
proof -
  let ?r = "submit_job (demo_env jid now) (Inr (PDict (demo_payload p))) ''tok'' q"
  have "?r = (demo_submit jid p now q, fst (snd ?r), Inr j)"
    using assms(3) by (simp add: demo_submit_def prod_eq_iff)
  then show ?thesis using assms(1,2) by (intro jq_step.submit [of "demo_env jid now"]) (simp_all add: demo_env_def)
qed

lemma demo_submits:
  "snd (snd (submit_job (demo_env ''a'' 1) (Inr (PDict (demo_payload 1))) ''tok'' demo_started)) =
     Inr (the (get_job_state demo_waiting ''a''))"
  "snd (snd (submit_job (demo_env ''b'' 2) (Inr (PDict (demo_payload 5))) ''tok'' (demo_submit ''a'' 1 1 demo_started))) =
     Inr (the (get_job_state demo_waiting ''b''))"
  by code_simp+

lemma demo_steps:
  "jq_step LStart (new_job_queue 0 60 0) demo_started"
  "jq_step (LSubmit ''a'') demo_started (demo_submit ''a'' 1 1 demo_started)"
  "jq_step (LSubmit ''b'') (demo_submit ''a'' 1 1 demo_started) demo_waiting"
  "jq_step LSelect demo_waiting demo_running"
proof -
  show "jq_step LStart (new_job_queue 0 60 0) demo_started"
    unfolding demo_started_def by (rule jq_step.start) (simp add: all_dead_def new_job_queue_def)
  have ids: "job_id (the (get_job_state demo_waiting ''a'')) = ''a''"
    "job_id (the (get_job_state demo_waiting ''b'')) = ''b''" by code_simp+
  have st: "strip ''a'' = ''a''" "strip ''b'' = ''b''" by code_simp+
  show "jq_step (LSubmit ''a'') demo_started (demo_submit ''a'' 1 1 demo_started)"
    using demo_submit_step [OF st(1) _ demo_submits(1)] ids by simp
  show "jq_step (LSubmit ''b'') (demo_submit ''a'' 1 1 demo_started) demo_waiting"
    using demo_submit_step [OF st(2) _ demo_submits(2)] ids by (simp add: demo_waiting_def)
  have "fst (snd (loop_select 60 3 3 demo_waiting)) = Executing ''b''" by code_simp
  then have "loop_select 60 3 3 demo_waiting = (fst (loop_select 60 3 3 demo_waiting), Executing ''b'',
      snd (snd (loop_select 60 3 3 demo_waiting)))" by (metis prod.collapse)
  moreover have "thread_at demo_waiting 0 AtTop" by code_simp
  ultimately show "jq_step LSelect demo_waiting demo_running"
    unfolding demo_running_def using jq_step.select by blast
qed

lemma demo_reachable: "jq_reachable demo_waiting" "jq_reachable demo_running"
proof -
  have "jq_reachable demo_started" using jq_reachable.init demo_steps(1) by (rule jq_reachable.step)
  then show w: "jq_reachable demo_waiting" using demo_steps(2,3) jq_reachable.step by blast
  show "jq_reachable demo_running" using w demo_steps(4) by (rule jq_reachable.step)
qed

lemma demo_running_facts:
  "is_running demo_running ''b''" "thread_at demo_running 0 (Executing ''b'')" "is_eligible demo_running ''a''"
proof -
  have "get_job_state demo_running ''b'' = Some (the (get_job_state demo_running ''b''))"
    "job_status (the (get_job_state demo_running ''b'')) = ''RUNNING''"
    "get_job_state demo_running ''a'' = Some (the (get_job_state demo_running ''a''))"
    "job_eligible (the (get_job_state demo_running ''a''))" by code_simp+
  then show "is_running demo_running ''b''" "is_eligible demo_running ''a''"
    unfolding is_running_def is_eligible_def by blast+
  show "thread_at demo_running 0 (Executing ''b'')" by code_simp
qed

end
