(* ===== verification/JobGuarantees.thy ===== *)
theory JobGuarantees
  imports JobDemo
begin

text \<open>
  What the job queue promises, and where it does not keep a promise: exclusion of running jobs,
  cancelling, cleaning up, the outcome of a run, the loss of the scheduler to a raise or to a bad
  payload, the restart of a queue whose thread is still running, and the reuse of a job id.
\<close>

section \<open>One job at a time\<close>



section \<open>Cancelling and cleaning up\<close>

definition cancel_allowed :: "(string \<Rightarrow> string) \<Rightarrow> string \<Rightarrow> instant \<Rightarrow> job_state \<Rightarrow> bool" where
  "cancel_allowed sha256 token now j \<longleftrightarrow>
     job_owner_digest j = [] \<or>
     ((case job_owner_expires j of None \<Rightarrow> True | Some t \<Rightarrow> now \<le> t) \<and>
      auth_token_digest sha256 token = job_owner_digest j)"

lemma cancel_authorised_iff: "cancel_authorised sha256 token now j = Inr () \<longleftrightarrow> cancel_allowed sha256 token now j"
  by (auto simp: cancel_authorised_def cancel_allowed_def Let_def split: option.splits)

lemma get_job_sels [frame_simps]:
  "jq_jobs (fst (get_job jid q)) = jq_jobs q" "jq_waiting (fst (get_job jid q)) = jq_waiting q"
  "get_job_state (fst (get_job jid q)) k = get_job_state q k"
  "snd (snd (get_job jid q)) = get_job_state q (strip jid)"
proof -
  have e: "jq_jobs (ensure_scheduler_thread q) = jq_jobs q" "jq_waiting (ensure_scheduler_thread q) = jq_waiting q" for q
    by (simp_all add: ensure_scheduler_thread_def spawn_thread_def)
  show "jq_jobs (fst (get_job jid q)) = jq_jobs q" "jq_waiting (fst (get_job jid q)) = jq_waiting q"
    by (simp_all add: get_job_def nudge_scheduler_def Let_def case_prod_beta e frame_simps)
  then show "get_job_state (fst (get_job jid q)) k = get_job_state q k" by (simp add: get_job_state_def)
  show "snd (snd (get_job jid q)) = get_job_state q (strip jid)"
    by (simp add: get_job_def nudge_scheduler_def Let_def case_prod_beta get_job_state_def e frame_simps)
qed

lemma release_refs_sels [frame_simps]:
  "jq_waiting (fst (release_refs_for_job jid refs drop_cache q)) = jq_waiting q"
  "get_job_state (fst (release_refs_for_job jid refs drop_cache q)) k =
    (if jq_target q = [] \<or> filter (\<lambda>r. r \<noteq> []) (map strip refs) = [] \<or> k \<noteq> strip jid then get_job_state q k
     else map_option (\<lambda>j. j\<lparr>job_staged_ref_ids :=
       filter (\<lambda>r. r \<notin> set (filter (\<lambda>r. r \<noteq> []) (map strip refs))) (job_staged_ref_ids j)\<rparr>) (get_job_state q k))"
  by (auto simp: release_refs_for_job_def Let_def frame_simps split: option.split)

lemma refresh_previews_sels [frame_simps]:
  "jq_waiting (refresh_job_previews dumps jid q) = jq_waiting q"
  "jq_target (refresh_job_previews dumps jid q) = jq_target q"
  "get_job_state (refresh_job_previews dumps jid q) k = (if k = strip jid then
     map_option (\<lambda>j. j\<lparr>job_error_preview := preview_job_value dumps (PStr (job_error j)) 160,
                job_final_preview := preview_job_value dumps (job_final_result j) 160\<rparr>) (get_job_state q k)
     else get_job_state q k)"
  by (auto simp: refresh_job_previews_def frame_simps split: option.split)



end
