(* ===== verification/JobRuns.thy ===== *)
theory JobRuns
  imports JobScheduler
begin

text \<open>
  Single operations of the job queue: what the cleanup removes, how a run ends its job, what
  happens to a job whose id is submitted again, and the failures the scheduler does not survive.
\<close>

section \<open>Sample states\<close>

definition demo_job :: "string \<Rightarrow> string \<Rightarrow> job_state" where
  "demo_job jid status =
    (submitted_job \<lparr>se_rep = (\<lambda>_. []), se_sha256 = (\<lambda>s. s), se_fresh_job_id = jid, se_fresh_client_id = ''c'',
       se_auth_ttl = 60, se_now = 1, se_clock = 1\<rparr> [(''job_mode'', PStr ''hooks'')] 0 [] 1)\<lparr>job_status := status\<rparr>"

definition demo_queue :: "(string \<times> string) list \<Rightarrow> job_queue" where
  "demo_queue jobs = (new_job_queue 0 60 0)\<lparr>jq_jobs := map (\<lambda>(k, s). (k, demo_job k s)) jobs,
     jq_waiting := map fst (filter (\<lambda>(k, s). s = ''WAITING'') jobs)\<rparr>"

lemma demo_queue_get:
  "get_job_state (demo_queue jobs) k = map_option (demo_job k) (map_of jobs k)"
  by (induction jobs) (auto simp: get_job_state_def demo_queue_def)

lemma demo_job_sels [simp]:
  "strip jid = jid \<Longrightarrow> jid \<noteq> [] \<Longrightarrow> job_id (demo_job jid s) = jid" "job_status (demo_job jid s) = s"
  "job_cancel_requested (demo_job jid s) = False" "job_finished_at (demo_job jid s) = None"
  "job_submitted_at (demo_job jid s) = 1"
  by (simp_all add: demo_job_def submitted_job_def Let_def str_or_def get_str_def dget_or_def val_or_def)

lemma demo_queue_inv:
  assumes "distinct (map fst jobs)" and "\<forall>k \<in> set (map fst jobs). k \<noteq> [] \<and> strip k = k"
    and "\<forall>s \<in> set (map snd jobs). s \<noteq> ''RUNNING''"
  shows "jq_inv (demo_queue jobs)"
proof -
  let ?q = "demo_queue jobs"
  have get: "\<exists>s. (k, s) \<in> set jobs \<and> j = demo_job k s" if "get_job_state ?q k = Some j" for k j
    using that map_of_SomeD [of jobs k] by (auto simp: demo_queue_get)
  have "dwf (jq_jobs ?q)" using assms(1) by (simp add: demo_queue_def dwf_def comp_def case_prod_beta)
  moreover have "ids_ok ?q" unfolding ids_ok_def
  proof (intro allI impI)
    fix k j assume "get_job_state ?q k = Some j"
    then obtain s where s: "(k, s) \<in> set jobs" "j = demo_job k s" using get by blast
    from s(1) have "k \<in> set (map fst jobs)" by force
    then have "k \<noteq> [] \<and> strip k = k" using assms(2) by blast
    then show "job_id j = k \<and> k \<noteq> [] \<and> strip k = k" using s(2) by simp
  qed
  moreover have "\<not> is_running ?q k" for k
  proof
    assume "is_running ?q k"
    then obtain j where j: "get_job_state ?q k = Some j" "job_status j = ''RUNNING''" by (auto simp: is_running_def)
    then obtain s where s: "(k, s) \<in> set jobs" "j = demo_job k s" using get by blast
    from s(1) have "s \<in> set (map snd jobs)" by force
    then show False using assms(3) j(2) s(2) by auto
  qed
  moreover have "k \<in> set (jq_waiting ?q)" if el: "is_eligible ?q k" for k
  proof -
    obtain j where j: "get_job_state ?q k = Some j" "job_eligible j"
      using el unfolding is_eligible_def by blast
    then have w: "job_status j = ''WAITING''" by (simp add: job_eligible_def)
    obtain s where s: "(k, s) \<in> set jobs" "j = demo_job k s" using get [OF j(1)] by blast
    then have "(k, s) \<in> set (filter (\<lambda>(k, s). s = ''WAITING'') jobs)" using w by simp
    then have "fst (k, s) \<in> fst ` set (filter (\<lambda>(k, s). s = ''WAITING'') jobs)" by (rule imageI)
    then show ?thesis by (simp add: demo_queue_def)
  qed
  moreover have "jq_threads ?q = []" "jq_running ?q = []" by (simp_all add: demo_queue_def new_job_queue_def)
  ultimately show ?thesis
    by (simp add: jq_inv_def jobs_inv_def threads_inv_def pcs_inv_def alive_def thread_at_def)
qed

section \<open>Cleaning up\<close>

lemma get_job_iff: "dwf (jq_jobs q) \<Longrightarrow> get_job_state q k = Some j \<longleftrightarrow> (k, j) \<in> set (jq_jobs q)"
  using dget_in in_dget unfolding get_job_state_def by metis

lemma in_map_snd_filter: "j \<in> set (map snd (filter (\<lambda>(_, j). P j) d)) \<longleftrightarrow> (\<exists>k. (k, j) \<in> set d \<and> P j)"
  by (induction d) auto

text \<open>
  the cleanup removes exactly the finished jobs that ended longer ago than the retention time
  (a job without an end time counts from its submission), and reports exactly those, so that
  their references are released; waiting and running jobs stay however old they are.
\<close>
theorem cleanup_exact:
  assumes "jq_inv q" and "cleanup_jobs now q = (q', released)"
  defines "old \<equiv> \<lambda>j. 0 < jq_retention q \<and> job_status j \<in> {''SUCCEEDED'', ''FAILED'', ''CANCELLED''} \<and>
      of_int (jq_retention q) < now - (case job_finished_at j of None \<Rightarrow> job_submitted_at j | Some t \<Rightarrow> t)"
  shows "(\<forall>k j. get_job_state q' k = Some j \<longleftrightarrow> get_job_state q k = Some j \<and> \<not> old j) \<and>
    (\<forall>j. j \<in> set released \<longleftrightarrow> (\<exists>k. get_job_state q k = Some j \<and> old j))"
proof -
  have wf: "dwf (jq_jobs q)" using jq_invD(1) [OF assms(1)] .
  have old: "old j \<longleftrightarrow> 0 < jq_retention q \<and> is_old now q j" for j
    by (simp add: old_def is_old_def is_terminal_def)
  have q': "q' = fst (cleanup_jobs now q)" and rel: "released = snd (cleanup_jobs now q)" using assms(2) by simp_all
  have "get_job_state q' k = Some j \<longleftrightarrow> get_job_state q k = Some j \<and> \<not> old j" for k j
    unfolding q' cleanup_get [OF wf] old by (auto split: option.splits)
  moreover have "j \<in> set released \<longleftrightarrow> (\<exists>k. get_job_state q k = Some j \<and> old j)" for j
  proof (cases "jq_retention q \<le> 0")
    case True
    then show ?thesis by (simp add: rel cleanup_eq old)
  next
    case False
    then have "released = map snd (filter (\<lambda>(_, j). is_old now q j) (jq_jobs q))"
      unfolding rel cleanup_eq Let_def by simp
    then have "j \<in> set released \<longleftrightarrow> (\<exists>k. (k, j) \<in> set (jq_jobs q) \<and> is_old now q j)"
      by (simp only: in_map_snd_filter)
    also have "\<dots> \<longleftrightarrow> (\<exists>k. get_job_state q k = Some j \<and> is_old now q j)"
      by (simp only: get_job_iff [OF wf])
    finally show ?thesis using False old by simp
  qed
  ultimately show ?thesis by blast
qed

theorem cleanup_exact_witness:
  "get_job_state (fst (cleanup_jobs 100 (demo_queue [(''a'', ''FAILED''), (''b'', ''WAITING'')]))) ''a'' = None \<and>
   get_job_state (fst (cleanup_jobs 100 (demo_queue [(''a'', ''FAILED''), (''b'', ''WAITING'')]))) ''b'' = Some (demo_job ''b'' ''WAITING'')"
proof -
  let ?q = "demo_queue [(''a'', ''FAILED''), (''b'', ''WAITING'')]"
  have "strip ''a'' = ''a''" "strip ''b'' = ''b''" by code_simp+
  then have "jq_inv ?q" by (intro demo_queue_inv) simp_all
  moreover obtain q' released where c: "cleanup_jobs 100 ?q = (q', released)" by (cases "cleanup_jobs 100 ?q")
  ultimately have all: "get_job_state q' k = Some j \<longleftrightarrow> get_job_state ?q k = Some j \<and>
      \<not> (0 < jq_retention ?q \<and> job_status j \<in> {''SUCCEEDED'', ''FAILED'', ''CANCELLED''} \<and>
      of_int (jq_retention ?q) < 100 - (case job_finished_at j of None \<Rightarrow> job_submitted_at j | Some t \<Rightarrow> t))" for k j
    using cleanup_exact [of ?q 100 q' released] by blast
  have "jq_retention ?q = 60" by (simp add: demo_queue_def new_job_queue_def)
  then show ?thesis using all [of "''a''" "demo_job ''a'' ''FAILED''"] all [of "''b''" "demo_job ''b'' ''WAITING''"]
    all [of "''a''" "the (get_job_state q' ''a'')"]
    by (cases "get_job_state q' ''a''") (simp_all add: c demo_queue_get)
qed

section \<open>How a run ends\<close>

lemma timing_sels [frame_simps]:
  "map_option job_status (get_job_state (job_timing_finalize jid c q) k) = map_option job_status (get_job_state q k)"
  "map_option job_error (get_job_state (job_timing_finalize jid c q) k) = map_option job_error (get_job_state q k)"
  "map_option job_results (get_job_state (job_timing_finalize jid c q) k) = map_option job_results (get_job_state q k)"
  "map_option job_final_result (get_job_state (job_timing_finalize jid c q) k) =
     map_option job_final_result (get_job_state q k)"
  "map_option job_cancel_requested (get_job_state (job_timing_finalize jid c q) k) =
     map_option job_cancel_requested (get_job_state q k)"
  by (simp_all add: job_timing_finalize_def frame_simps option.map_comp comp_def split: option.split)

definition job_outcome :: "job_state \<Rightarrow> string \<times> string \<times> pyval list \<times> pyval" where
  "job_outcome j = (job_status j, job_error j, job_results j, job_final_result j)"

text \<open>Sections that keep what a caller reads of a finished job.\<close>

definition outcome_view :: "job_queue \<Rightarrow> job_queue \<Rightarrow> bool" where
  "outcome_view q q' \<longleftrightarrow> (\<forall>k. map_option (\<lambda>j. (job_outcome j, job_cancel_requested j)) (get_job_state q' k) =
     map_option (\<lambda>j. (job_outcome j, job_cancel_requested j)) (get_job_state q k))"

lemma outcome_view_refl [simp]: "outcome_view q q"
  by (simp add: outcome_view_def)

lemma outcome_view_trans: "outcome_view q q' \<Longrightarrow> outcome_view q' q'' \<Longrightarrow> outcome_view q q''"
  by (simp add: outcome_view_def)

lemma outcome_view_upd:
  "(\<And>j. job_outcome (f j) = job_outcome j \<and> job_cancel_requested (f j) = job_cancel_requested j) \<Longrightarrow>
    outcome_view q (upd_job jid f q)"
  by (auto simp: outcome_view_def frame_simps option.map_comp comp_def)

lemma outcome_view_invalidate [simp]: "outcome_view q (invalidate_summary q') = outcome_view q q'"
  by (simp add: outcome_view_def frame_simps)

lemma outcome_view_sections:
  "outcome_view q (job_timing_mark jid m c q)" "outcome_view q (job_timing_finalize jid c q)"
  "outcome_view q (refresh_job_previews dumps jid q)" "outcome_view q (set_phase ph jid q)"
  "outcome_view q (set_timings kvs jid q)" "outcome_view q (fst (job_timing_finish jid m key c q))"
proof -
  show "outcome_view q (job_timing_mark jid m c q)" "outcome_view q (job_timing_finalize jid c q)"
    "outcome_view q (refresh_job_previews dumps jid q)" "outcome_view q (set_phase ph jid q)"
    "outcome_view q (set_timings kvs jid q)"
    by (auto simp: job_timing_mark_def job_timing_finalize_def refresh_job_previews_def set_phase_def set_timings_def
        job_outcome_def split: option.split intro!: outcome_view_upd)
  have "outcome_view q (q\<lparr>jq_jobs := dset jid j' (jq_jobs q)\<rparr>)"
    if "get_job_state q jid = Some j" "job_outcome j' = job_outcome j \<and> job_cancel_requested j' = job_cancel_requested j"
    for jid j j'
    using that by (auto simp: outcome_view_def get_job_state_def dict_simps)
  then show "outcome_view q (fst (job_timing_finish jid m key c q))"
    by (auto simp: job_timing_finish_def Let_def job_outcome_def split: option.split)
qed

lemma outcome_view_resolved:
  "outcome_view q (run_resolving jid clock q)" "outcome_view q (run_resolved jid clock q)"
proof -
  show "outcome_view q (run_resolving jid clock q)"
    unfolding run_resolving_def using outcome_view_sections(4,1) by (rule outcome_view_trans)
  show "outcome_view q (run_resolved jid clock q)"
    unfolding run_resolved_def using outcome_view_trans [OF outcome_view_sections(6,4)] by (simp split: option.split)
qed

lemma outcome_after_upd:
  assumes "outcome_view (upd_job jid f q1) q'" and "outcome_view q q1" and "get_job_state q jid = Some j"
    and "\<And>j'. job_outcome j' = job_outcome j \<Longrightarrow> job_cancel_requested j' = job_cancel_requested j \<Longrightarrow>
      job_outcome (f j') = v"
  shows "map_option job_outcome (get_job_state q' jid) = Some v"
    "k \<noteq> jid \<Longrightarrow> map_option job_outcome (get_job_state q' k) = map_option job_outcome (get_job_state q k)"
proof -
  have o: "map_option (\<lambda>j. (job_outcome j, job_cancel_requested j)) (get_job_state q1 k) =
    map_option (\<lambda>j. (job_outcome j, job_cancel_requested j)) (get_job_state q k)"
    "map_option (\<lambda>j. (job_outcome j, job_cancel_requested j)) (get_job_state q' k) =
    map_option (\<lambda>j. (job_outcome j, job_cancel_requested j)) (get_job_state (upd_job jid f q1) k)" for k
    using assms(1,2) by (simp_all add: outcome_view_def)
  obtain j1 where j1: "get_job_state q1 jid = Some j1" "job_outcome j1 = job_outcome j"
    "job_cancel_requested j1 = job_cancel_requested j"
    using o(1) [of jid] assms(3) by (cases "get_job_state q1 jid") simp_all
  then have "job_outcome (f j1) = v" using assms(4) by blast
  then show "map_option job_outcome (get_job_state q' jid) = Some v"
    using o(2) [of jid] j1(1) by (cases "get_job_state q' jid") (simp_all add: frame_simps)
  show "map_option job_outcome (get_job_state q' k) = map_option job_outcome (get_job_state q k)" if "k \<noteq> jid"
    using o(2) [of k] o(1) [of k] that
    by (cases "get_job_state q' k"; cases "get_job_state q k"; cases "get_job_state q1 k") (simp_all add: frame_simps)
qed

text \<open>The outcome a run should leave, from the answers of the outside world.\<close>

definition expected_outcome ::
  "(pyval \<Rightarrow> string) \<Rightarrow> payload \<Rightarrow> run_outcome \<Rightarrow> job_state \<Rightarrow> string \<times> string \<times> pyval list \<times> pyval" where
  "expected_outcome rep resolved outcome j =
    (let failed = (\<lambda>m. (''FAILED'', m, job_results j, job_final_result j)) in
     case outcome of
       ResolveRaises m \<Rightarrow> failed m
     | _ \<Rightarrow>
       if \<not> uses_job_hooks rep resolved then failed ''job submit requires hook mode''
       else case outcome of
         NoBlob \<Rightarrow> failed ''job hook mode requires blob_b64/blob_ref''
       | HookRaises m \<Rightarrow> failed m
       | HookDone results final \<Rightarrow>
           (if job_cancel_requested j then ''CANCELLED'' else ''SUCCEEDED'', job_error j, results, final)
       | _ \<Rightarrow> job_outcome j)"

lemma outcome_view_some:
  assumes "outcome_view q q'" and "get_job_state q jid = Some j"
  shows "\<exists>j'. get_job_state q' jid = Some j' \<and> job_outcome j' = job_outcome j"
proof -
  have "map_option (\<lambda>j. (job_outcome j, job_cancel_requested j)) (get_job_state q' jid) =
    map_option (\<lambda>j. (job_outcome j, job_cancel_requested j)) (get_job_state q jid)"
    using assms(1) unfolding outcome_view_def by (rule spec)
  then show ?thesis using assms(2) by (cases "get_job_state q' jid") simp_all
qed

text \<open>What a run leaves: an outcome for its own job, the others as they were.\<close>

definition leaves :: "job_queue \<Rightarrow> string \<Rightarrow> string \<times> string \<times> pyval list \<times> pyval \<Rightarrow> job_queue \<Rightarrow> bool" where
  "leaves q jid v q' \<longleftrightarrow> map_option job_outcome (get_job_state q' jid) = Some v \<and>
     (\<forall>k. k \<noteq> jid \<longrightarrow> map_option job_outcome (get_job_state q' k) = map_option job_outcome (get_job_state q k))"

lemma leaves_upd:
  assumes "get_job_state q jid = Some j" and "outcome_view q q1" and "outcome_view (upd_job jid f q1) q'"
    and "\<And>j'. job_outcome j' = job_outcome j \<Longrightarrow> job_cancel_requested j' = job_cancel_requested j \<Longrightarrow>
      job_outcome (f j') = v"
  shows "leaves q jid v q'"
  using outcome_after_upd [OF assms(3,2,1,4)] by (simp add: leaves_def)

lemma leaves_same:
  assumes "get_job_state q jid = Some j" and "outcome_view q q'"
  shows "leaves q jid (job_outcome j) q'"
proof -
  have "outcome_view (upd_job jid (\<lambda>j. j) q) q'"
    using assms(2) by (simp add: outcome_view_def frame_simps option.map_id0 id_def [symmetric])
  from leaves_upd [OF assms(1) outcome_view_refl this] show ?thesis by simp
qed

lemma leaves_failed:
  assumes "get_job_state q jid = Some j" and v: "outcome_view q q2"
  shows "leaves q jid (''FAILED'', m, job_results j, job_final_result j) (run_failed dumps m jid now clock q2)"
proof -
  obtain j2 where j2: "get_job_state q2 jid = Some j2" using outcome_view_some [OF v assms(1)] by blast
  have w: "outcome_view (upd_job jid (fail_job m now) (job_timing_finalize jid clock q2)) (run_failed dumps m jid now clock q2)"
    by (simp add: run_failed_def j2 outcome_view_sections)
  show ?thesis
    by (rule leaves_upd [OF assms(1) outcome_view_trans [OF v outcome_view_sections(2)] w])
      (simp add: job_outcome_def fail_job_def)
qed

lemma leaves_no_blob:
  assumes "get_job_state q jid = Some j" and v: "outcome_view q q2"
  shows "leaves q jid (''FAILED'', ''job hook mode requires blob_b64/blob_ref'', job_results j, job_final_result j)
    (run_no_blob jid now q2)"
proof -
  obtain j2 where j2: "get_job_state q2 jid = Some j2" using outcome_view_some [OF v assms(1)] by blast
  have w: "outcome_view (upd_job jid (fail_job ''job hook mode requires blob_b64/blob_ref'' now) q2) (run_no_blob jid now q2)"
    by (simp add: run_no_blob_def j2)
  show ?thesis by (rule leaves_upd [OF assms(1) v w]) (simp add: job_outcome_def fail_job_def)
qed

lemma leaves_resolve_failed:
  assumes "get_job_state q jid = Some j" and v: "outcome_view q q1"
  shows "leaves q jid (''FAILED'', m, job_results j, job_final_result j) (fst (run_resolve_failed m jid now clock q1))"
    and "snd (run_resolve_failed m jid now clock q1)"
proof -
  obtain j1 where j1: "get_job_state q1 jid = Some j1" using outcome_view_some [OF v assms(1)] by blast
  let ?q = "job_timing_finalize jid clock (fst (job_timing_finish jid ''resolve_refs'' ''resolve_refs_ms'' clock q1))"
  have u: "outcome_view q ?q"
    using v outcome_view_trans [OF outcome_view_sections(6,2)] by (rule outcome_view_trans)
  have w: "outcome_view (upd_job jid (fail_job m now) ?q) (fst (run_resolve_failed m jid now clock q1))"
    by (simp add: run_resolve_failed_def j1 Let_def)
  show "leaves q jid (''FAILED'', m, job_results j, job_final_result j) (fst (run_resolve_failed m jid now clock q1))"
    by (rule leaves_upd [OF assms(1) u w]) (simp add: job_outcome_def fail_job_def)
  show "snd (run_resolve_failed m jid now clock q1)" by (simp add: run_resolve_failed_def j1 Let_def)
qed

lemma leaves_writeback:
  assumes "get_job_state q jid = Some j" and v: "outcome_view q q2"
  shows "leaves q jid (if job_cancel_requested j then ''CANCELLED'' else ''SUCCEEDED'', job_error j, results, final)
    (run_writeback dumps results final jid now clock elapsed q2)"
proof -
  obtain j2 where j2: "get_job_state q2 jid = Some j2" using outcome_view_some [OF v assms(1)] by blast
  have w: "outcome_view (upd_job jid (written_job results final now elapsed) q2)
      (run_writeback dumps results final jid now clock elapsed q2)"
    using outcome_view_trans [OF outcome_view_sections(3,2)] by (simp add: run_writeback_def j2)
  show ?thesis by (rule leaves_upd [OF assms(1) v w]) (simp add: job_outcome_def written_job_def)
qed

text \<open>The sections of a run, after the ones that resolve the references.\<close>

lemma run_job_sections:
  assumes "get_job_state q jid = Some j" and "q1 = run_resolving jid clock q" and "q2 = run_resolved jid clock q1"
  shows "run_job rep dumps resolved outcome jid now clock q =
    (case outcome of
       ResolveRaises message \<Rightarrow> run_resolve_failed message jid now clock q1
     | _ \<Rightarrow>
       if \<not> uses_job_hooks rep resolved
       then (run_failed dumps ''job submit requires hook mode'' jid now clock q2, True)
       else case outcome of
         ResolveRaises message \<Rightarrow> (q2, True)
       | PrepRaises \<Rightarrow> (q2, False)
       | NoBlob \<Rightarrow> (run_no_blob jid now q2, True)
       | HookRaises message \<Rightarrow> (run_failed dumps message jid now clock q2, True)
       | HookDone results final \<Rightarrow> (run_writeback dumps results final jid now clock 0
           (set_phase ''terminal_writeback'' jid (set_timings [(''result_count'', PInt (int (length results)))] jid
             (set_phase ''running_tasks'' jid q2))), True))"
  by (simp only: run_job_def assms Let_def option.case)

text \<open>
  C17: how a run ends. Unless the code raises between the hook test and its \<open>try\<close>, the call
  returns and the job is terminal: FAILED with the message of what went wrong (references,
  hook mode, blob, hook), SUCCEEDED with the collected results, or CANCELLED with them when a
  cancel arrived while it ran. In the remaining case the call raises and the job stays as it was.
  No other job changes its outcome.
\<close>
theorem run_job_exact:
  assumes "get_job_state q jid = Some j" and "run_job rep dumps resolved outcome jid now clock q = (q', returned)"
  shows "(returned \<longleftrightarrow> \<not> (outcome = PrepRaises \<and> uses_job_hooks rep resolved)) \<and>
    map_option job_outcome (get_job_state q' jid) = Some (expected_outcome rep resolved outcome j) \<and>
    (returned \<longrightarrow> (\<exists>j'. get_job_state q' jid = Some j' \<and> is_terminal (job_status j'))) \<and>
    (\<forall>k. k \<noteq> jid \<longrightarrow> map_option job_outcome (get_job_state q' k) = map_option job_outcome (get_job_state q k))"
proof -
  define q1 where "q1 = run_resolving jid clock q"
  define q2 where "q2 = run_resolved jid clock q1"
  have v1: "outcome_view q q1" unfolding q1_def by (rule outcome_view_resolved)
  have v2: "outcome_view q q2" using v1 outcome_view_resolved(2) unfolding q2_def by (rule outcome_view_trans)
  note run = run_job_sections [OF assms(1) q1_def q2_def, of rep dumps resolved outcome now]
  have v3: "outcome_view q (set_phase ''terminal_writeback'' jid (set_timings kvs jid (set_phase ''running_tasks'' jid q2)))" for kvs
    by (rule outcome_view_trans [OF v2 outcome_view_trans [OF outcome_view_sections(4)
        outcome_view_trans [OF outcome_view_sections(5) outcome_view_sections(4)]]])
  let ?e = "expected_outcome rep resolved outcome j"
  have "leaves q jid ?e q' \<and> (returned \<longleftrightarrow> \<not> (outcome = PrepRaises \<and> uses_job_hooks rep resolved)) \<and>
    (returned \<longrightarrow> is_terminal (fst ?e))"
  proof (cases outcome)
    case (ResolveRaises m)
    then show ?thesis using assms(2) leaves_resolve_failed [OF assms(1) v1, of m now clock] unfolding run
      by (simp add: expected_outcome_def is_terminal_def)
  next
    case PrepRaises
    then show ?thesis using assms(2) leaves_same [OF assms(1) v2] leaves_failed [OF assms(1) v2] unfolding run
      by (auto simp: expected_outcome_def is_terminal_def)
  next
    case NoBlob
    then show ?thesis using assms(2) leaves_no_blob [OF assms(1) v2] leaves_failed [OF assms(1) v2] unfolding run
      by (auto simp: expected_outcome_def is_terminal_def)
  next
    case (HookRaises m)
    then show ?thesis using assms(2) leaves_failed [OF assms(1) v2] unfolding run
      by (auto simp: expected_outcome_def is_terminal_def)
  next
    case (HookDone results final)
    then show ?thesis using assms(2) leaves_writeback [OF assms(1) v3] leaves_failed [OF assms(1) v2] unfolding run
      by (auto simp: expected_outcome_def is_terminal_def)
  qed
  moreover from this obtain j' where "get_job_state q' jid = Some j'" "job_outcome j' = ?e"
    by (auto simp: leaves_def)
  moreover from this(2) have "job_status j' = fst ?e" by (metis fst_conv job_outcome_def)
  ultimately show ?thesis by (auto simp: leaves_def)
qed

theorem run_job_exact_witness:
  "map_option job_status (get_job_state (fst (run_job (\<lambda>_. []) (\<lambda>_. []) [(''job_mode'', PStr ''hooks'')]
     (HookDone [PInt 7] PNone) ''a'' 5 6 (demo_queue [(''a'', ''RUNNING'')]))) ''a'') = Some ''SUCCEEDED''"
proof -
  let ?p = "[(''job_mode'', PStr ''hooks'')]" and ?q = "demo_queue [(''a'', ''RUNNING'')]"
  have a: "get_job_state ?q ''a'' = Some (demo_job ''a'' ''RUNNING'')" by (simp add: demo_queue_get)
  obtain q' r where run: "run_job (\<lambda>_. []) (\<lambda>_. []) ?p (HookDone [PInt 7] PNone) ''a'' 5 6 ?q = (q', r)" by fastforce
  have "uses_job_hooks (\<lambda>_. []) ?p" by code_simp
  then have "expected_outcome (\<lambda>_. []) ?p (HookDone [PInt 7] PNone) (demo_job ''a'' ''RUNNING'') =
      (''SUCCEEDED'', job_error (demo_job ''a'' ''RUNNING''), [PInt 7], PNone)"
    by (simp add: expected_outcome_def)
  then show ?thesis using run_job_exact [OF a run]
    by (cases "get_job_state q' ''a''") (auto simp: run job_outcome_def)
qed

section \<open>Submitting an id again\<close>

text \<open>
  submitting a job under the id of a job that is running replaces the running job in the table;
  when the old run then writes its results back, the new job, which never ran, is reported
  SUCCEEDED with the results of the old one.
\<close>
theorem resubmission_takes_old_results:
  assumes "submit_job env normalized token q = (q1, effs, Inr j)"
    and "strip (job_id j) = job_id j"
  shows "get_job_state q1 (job_id j) = Some j \<and> job_status j = ''WAITING'' \<and> job_results j = [] \<and>
    map_option job_outcome (get_job_state (run_writeback dumps results final (job_id j) now clock elapsed q1) (job_id j)) =
      Some (''SUCCEEDED'', [], results, final) \<and>
    map_option job_payload (get_job_state (run_writeback dumps results final (job_id j) now clock elapsed q1) (job_id j)) =
      Some (job_payload j)"
proof -
  obtain p n where sub: "j = submitted_job env p n token (jq_enqueue_seq (fst (detach_stale_running q)) + 1)"
    and q1: "q1 = fst (enqueue_job (submitted_job env p n token) q)"
    using assms(1) by (auto simp: submit_job_def enqueue_job_def Let_def split: sum.splits prod.splits)
  have new: "job_status j = ''WAITING''" "job_results j = []" "job_error j = []" "job_cancel_requested j = False"
    by (simp_all add: sub submitted_job_def Let_def)
  have e: "get_job_state (ensure_scheduler_thread q) k = get_job_state q k" for q k
    by (simp add: ensure_scheduler_thread_def spawn_thread_def get_job_state_def)
  have g: "get_job_state q1 (job_id j) = Some j"
    unfolding q1 sub by (simp add: enqueue_job_def Let_def case_prod_beta e frame_simps)
      (simp add: get_job_state_def dict_simps frame_simps)
  have "leaves q1 (job_id j) (''SUCCEEDED'', [], results, final)
      (run_writeback dumps results final (job_id j) now clock elapsed q1)"
    using leaves_writeback [OF g outcome_view_refl] new by simp
  moreover have "map_option job_payload (get_job_state (job_timing_finalize (job_id j) c q) k) =
      map_option job_payload (get_job_state q k)"
    "map_option job_payload (get_job_state (refresh_job_previews dumps (job_id j) q) k) =
      map_option job_payload (get_job_state q k)"
    "map_option job_payload (get_job_state (upd_job (job_id j) (written_job results final now elapsed) q) k) =
      map_option job_payload (get_job_state q k)" for q c k
    by (simp_all add: job_timing_finalize_def refresh_job_previews_def written_job_def frame_simps option.map_comp
        comp_def split: option.split)
  then have "map_option job_payload (get_job_state (run_writeback dumps results final (job_id j) now clock elapsed q1) (job_id j)) =
      Some (job_payload j)"
    by (simp add: run_writeback_def g)
  ultimately show ?thesis using g new by (simp add: leaves_def)
qed

definition demo_resubmit :: submit_env where
  "demo_resubmit = \<lparr>se_rep = (\<lambda>v. case v of PStr s \<Rightarrow> s | _ \<Rightarrow> []), se_sha256 = (\<lambda>s. s), se_fresh_job_id = ''n'',
     se_fresh_client_id = ''c'', se_auth_ttl = 60, se_now = 9, se_clock = 9\<rparr>"

theorem resubmission_takes_old_results_witness:
  "\<exists>q1 j. is_running (demo_queue [(''a'', ''RUNNING'')]) ''a'' \<and> get_job_state q1 ''a'' = Some j \<and>
     job_status j = ''WAITING'' \<and>
     map_option job_status (get_job_state (run_writeback (\<lambda>_. []) [PInt 7] PNone ''a'' 10 10 0 q1) ''a'') = Some ''SUCCEEDED''"
proof -
  let ?p = "[(''job_id'', PStr ''a''), (''job_mode'', PStr ''hooks'')]" and ?q = "demo_queue [(''a'', ''RUNNING'')]"
  have run: "is_running ?q ''a''" by (simp add: is_running_def demo_queue_get)
  let ?r = "submit_job demo_resubmit (Inr (PDict ?p)) [] ?q"
  have "\<not> is_error (snd (snd ?r))" by code_simp
  then obtain j where "snd (snd ?r) = Inr j" by (cases "snd (snd ?r)") simp_all
  then have sub: "?r = (fst ?r, fst (snd ?r), Inr j)" by (simp add: prod_eq_iff)
  have "(case snd (snd ?r) of Inl _ \<Rightarrow> [] | Inr j \<Rightarrow> job_id j) = ''a''" by code_simp
  then have id: "job_id j = ''a''" using sub by (metis prod.sel(2) sum.simps(6))
  have "strip ''a'' = ''a''" by code_simp
  then have "strip (job_id j) = job_id j" by (simp add: id)
  note r = resubmission_takes_old_results [OF sub this, of "\<lambda>_. []" "[PInt 7]" PNone 10 10 0]
  have "map_option job_status m = Some s" if "map_option job_outcome m = Some (s, x)" for m s x
    using that by (cases m) (simp_all add: job_outcome_def)
  then show ?thesis using r run unfolding id by blast
qed

end
