(* ===== verification/JobOrder.thy ===== *)
theory JobOrder
  imports JobDemo
begin

text \<open>
  The order in which jobs start. As long as nobody reorders the queue and no job id is used
  twice, the waiting order stays sorted by priority, submission time and sequence number, so the
  scheduler always starts a least job; and an idle scheduler starts one whenever there is one.
\<close>

section \<open>Sorted waiting orders\<close>

definition job_keys :: "job_queue \<Rightarrow> string \<Rightarrow> int \<times> instant \<times> int \<times> string" where
  "job_keys q = key_of (jq_jobs q)"

definition order_ok :: "job_queue \<Rightarrow> bool" where
  "order_ok q \<longleftrightarrow> distinct (jq_waiting q) \<and> (\<forall>k \<in> set (jq_waiting q). get_job_state q k \<noteq> None) \<and>
     sorted (map (job_keys q) (filter (is_eligible q) (jq_waiting q)))"

text \<open>What most operations do: drop ids from the order, and make no job eligible.\<close>

definition order_le :: "job_queue \<Rightarrow> job_queue \<Rightarrow> bool" where
  "order_le q q' \<longleftrightarrow> (\<exists>P. jq_waiting q' = filter P (jq_waiting q)) \<and>
     (\<forall>k. is_eligible q' k \<longrightarrow> is_eligible q k \<and> job_keys q' k = job_keys q k) \<and>
     (\<forall>k \<in> set (jq_waiting q'). get_job_state q k \<noteq> None \<longrightarrow> get_job_state q' k \<noteq> None)"

lemma order_leI:
  assumes "jq_waiting q' = filter P (jq_waiting q)"
    and "\<And>k. is_eligible q' k \<Longrightarrow> is_eligible q k \<and> job_keys q' k = job_keys q k"
    and "\<And>k. k \<in> set (jq_waiting q') \<Longrightarrow> get_job_state q k \<noteq> None \<Longrightarrow> get_job_state q' k \<noteq> None"
  shows "order_le q q'"
  using assms unfolding order_le_def by blast

lemma order_le_refl [simp]: "order_le q q"
  by (rule order_leI [where P = "\<lambda>_. True"]) simp_all

lemma order_le_trans:
  assumes "order_le q q'" and "order_le q' q''"
  shows "order_le q q''"
proof -
  obtain P P' where "jq_waiting q' = filter P (jq_waiting q)" "jq_waiting q'' = filter P' (jq_waiting q')"
    using assms unfolding order_le_def by blast
  then have "jq_waiting q'' = filter (\<lambda>k. P k \<and> P' k) (jq_waiting q)" by simp
  then show ?thesis
    by (rule order_leI) (use assms in \<open>auto simp: order_le_def\<close>)
qed

lemma sorted_filter_map: "sorted (map f xs) \<Longrightarrow> sorted (map f (filter P xs))"
  by (induction xs) auto

lemma order_le_ok:
  assumes le: "order_le q q'" and ok: "order_ok q"
  shows "order_ok q'"
proof -
  obtain P where w: "jq_waiting q' = filter P (jq_waiting q)" using le unfolding order_le_def by blast
  let ?ws = "filter (\<lambda>k. P k \<and> is_eligible q' k) (filter (is_eligible q) (jq_waiting q))"
  have e1: "filter (is_eligible q') (jq_waiting q') = ?ws"
    unfolding w using le by (auto simp: order_le_def intro!: filter_cong)
  have e2: "map (job_keys q') ?ws = map (job_keys q) ?ws" using le by (auto simp: order_le_def)
  have "sorted (map (job_keys q) ?ws)" by (rule sorted_filter_map) (use ok in \<open>simp only: order_ok_def\<close>)
  then have "sorted (map (job_keys q') (filter (is_eligible q') (jq_waiting q')))" unfolding e1 e2 .
  moreover have "\<forall>k \<in> set (jq_waiting q'). get_job_state q' k \<noteq> None"
    using ok le w by (auto simp: order_ok_def order_le_def)
  moreover have "distinct (jq_waiting q')" using ok w by (simp add: order_ok_def)
  ultimately show ?thesis unfolding order_ok_def by blast
qed

lemma job_keys_eq: "get_job_state q k = Some j \<Longrightarrow> job_keys q k = job_key j"
  by (simp add: job_keys_def key_of_def get_job_state_def)

lemma order_le_view:
  assumes v: "same_view q q'"
  shows "order_le q q'"
proof (rule order_leI [where P = "\<lambda>_. True"])
  note core = same_view_core [OF v]
  show "jq_waiting q' = filter (\<lambda>_. True) (jq_waiting q)" using v by (simp add: same_view_def)
  show "get_job_state q' k \<noteq> None" if "get_job_state q k \<noteq> None" for k
    using that core [of k] by (cases "get_job_state q' k") auto
  show "is_eligible q k \<and> job_keys q' k = job_keys q k" if el: "is_eligible q' k" for k
  proof -
    obtain j' where j': "get_job_state q' k = Some j'" using el unfolding is_eligible_def by blast
    then obtain j where j: "get_job_state q k = Some j" "job_core j' = job_core j"
      using core [of k] by (cases "get_job_state q k") auto
    then show ?thesis using el j' same_view_preds(2) [OF v] by (simp add: job_keys_eq job_key_def job_core_def)
  qed
qed

lemma order_le_upd:
  assumes "\<And>j. job_key (f j) = job_key j" and "\<And>j. job_eligible (f j) \<Longrightarrow> job_eligible j"
  shows "order_le q (upd_job jid f q)"
proof (rule order_leI [where P = "\<lambda>_. True"])
  show "is_eligible q k \<and> job_keys (upd_job jid f q) k = job_keys q k" if el: "is_eligible (upd_job jid f q) k" for k
  proof -
    obtain j' where j': "get_job_state (upd_job jid f q) k = Some j'" "job_eligible j'"
      using el unfolding is_eligible_def by blast
    then obtain j where "get_job_state q k = Some j" "j' = (if k = jid then f j else j)"
      by (cases "get_job_state q k") (auto simp: frame_simps split: if_splits)
    then show ?thesis using j' assms by (auto simp: is_eligible_def job_keys_eq split: if_splits)
  qed
qed (auto simp: frame_simps)

lemma order_le_waiting:
  assumes "jq_jobs q' = jq_jobs q" and "jq_waiting q' = filter P (jq_waiting q)"
  shows "order_le q q'"
  by (rule order_leI [OF assms(2)])
    (use assms(1) in \<open>simp_all add: preds_cong [OF assms(1)] job_keys_def\<close>)

lemma order_le_frame: "jq_jobs q' = jq_jobs q \<Longrightarrow> jq_waiting q' = jq_waiting q \<Longrightarrow> order_le q q'"
  by (rule order_le_waiting [where P = "\<lambda>_. True"]) simp_all

section \<open>Every operation but a submission drops ids only\<close>

lemma prune_loop_filter:
  "distinct xs \<Longrightarrow> set seen \<inter> set xs = {} \<Longrightarrow>
    prune_loop jobs seen xs = filter (\<lambda>x. \<exists>j. dget jobs x = Some j \<and> job_eligible j) xs"
  by (induction jobs seen xs rule: prune_loop.induct) (auto split: option.split)

lemma prune_waiting_filter:
  "distinct (jq_waiting q) \<Longrightarrow> jq_waiting (prune_waiting_order q) = filter (is_eligible q) (jq_waiting q)"
  by (simp add: prune_waiting_order_def prune_loop_filter is_eligible_def [abs_def] get_job_state_def)

lemma order_le_remove: "order_le q (remove_waiting_job jid q)"
  by (rule order_le_waiting [where P = "\<lambda>x. strip jid = [] \<or> x \<noteq> strip jid"])
    (simp_all add: remove_waiting_job_def)

lemma order_le_invalidate: "order_le q (invalidate_summary q)"
  by (rule order_le_view) simp

lemma order_le_detach: "order_le q (fst (detach_stale_running q))"
  by (rule order_le_frame) (simp_all add: frame_simps)

lemma order_le_ensure: "order_le q (ensure_scheduler_thread q)"
  by (rule order_le_frame) (simp_all add: ensure_scheduler_thread_def spawn_thread_def)

lemma order_le_get_job: "order_le q (fst (get_job jid q))"
proof -
  have "order_le q (nudge_scheduler q)" for q by (simp add: nudge_scheduler_def order_le_ensure)
  then show ?thesis
    using order_le_trans [OF order_le_detach] by (simp add: get_job_def Let_def case_prod_beta)
qed

lemma order_le_cancel: "order_le q (fst (cancel_job dumps sha jid token now q))"
proof -
  let ?n = "strip jid"
  let ?q1 = "upd_job ?n (\<lambda>j. j\<lparr>job_status := ''CANCELLED'', job_finished_at := Some now, job_cancel_requested := True\<rparr>) q"
  have "order_le q ?q1" by (rule order_le_upd) (simp_all add: job_key_def job_eligible_def)
  also have "order_le ?q1 (refresh_job_previews dumps ?n ?q1)" by (rule order_le_view [OF same_view_previews])
  finally (order_le_trans) have le2: "order_le q (refresh_job_previews dumps ?n ?q1)" .
  have le3: "order_le q (invalidate_summary (remove_waiting_job x (refresh_job_previews dumps ?n ?q1)))" for x
    by (rule order_le_trans [OF order_le_trans [OF le2 order_le_remove] order_le_invalidate])
  have le4: "order_le q (fst (get_job ?n (fst (release_refs_for_job i rs True
      (invalidate_summary (remove_waiting_job x (refresh_job_previews dumps ?n ?q1)))))))" for x i rs
    by (rule order_le_trans [OF order_le_trans [OF le3 order_le_view [OF same_view_release]] order_le_get_job])
  have flag: "order_le q (invalidate_summary (upd_job ?n (\<lambda>j. j\<lparr>job_cancel_requested := True\<rparr>) q))"
  proof (rule order_le_trans)
    show "order_le q (upd_job ?n (\<lambda>j. j\<lparr>job_cancel_requested := True\<rparr>) q)"
      by (rule order_le_upd) (simp_all add: job_key_def job_eligible_def)
    show "order_le (upd_job ?n (\<lambda>j. j\<lparr>job_cancel_requested := True\<rparr>) q)
        (invalidate_summary (upd_job ?n (\<lambda>j. j\<lparr>job_cancel_requested := True\<rparr>) q))"
      by (rule order_le_invalidate)
  qed
  show ?thesis
    using flag le4 by (auto simp: cancel_job_def Let_def case_prod_beta split: option.split sum.split)
qed

lemma order_le_close: "order_le q (close_begin now q)"
proof -
  let ?q = "q\<lparr>jq_stop := True, jq_started := False, jq_jobs := dmap (\<lambda>_. cancel_waiting now) (jq_jobs q)\<rparr>"
  have get: "get_job_state ?q k = map_option (cancel_waiting now) (get_job_state q k)" for k
    by (simp add: get_job_state_def dict_simps)
  have c: "\<not> job_eligible (cancel_waiting now j)" for j by (simp add: cancel_waiting_def job_eligible_def)
  have "order_le q ?q"
    by (rule order_leI [where P = "\<lambda>_. True"]) (use c in \<open>auto simp: is_eligible_def get\<close>)
  moreover have "order_le ?q (upd_job (jq_running ?q) (\<lambda>j. j\<lparr>job_cancel_requested := True\<rparr>) ?q)"
    by (rule order_le_upd) (simp_all add: job_key_def job_eligible_def)
  ultimately show ?thesis using order_le_trans by (auto simp: close_begin_def Let_def)
qed

lemma fold_remove_filter: "\<exists>P. jq_waiting (fold remove_waiting_job xs q) = filter P (jq_waiting q) \<and>
    (\<forall>x \<in> set xs. strip x = x \<and> x \<noteq> [] \<longrightarrow> \<not> P x)"
proof (induction xs arbitrary: q)
  case Nil
  show ?case by (rule exI [of _ "\<lambda>_. True"]) simp
next
  case (Cons x xs)
  obtain P where P: "jq_waiting (fold remove_waiting_job xs (remove_waiting_job x q)) = filter P (jq_waiting (remove_waiting_job x q))"
    "\<forall>y \<in> set xs. strip y = y \<and> y \<noteq> [] \<longrightarrow> \<not> P y" using Cons.IH by blast
  have "jq_waiting (fold remove_waiting_job (x # xs) q) = filter (\<lambda>y. (strip x = [] \<or> y \<noteq> strip x) \<and> P y) (jq_waiting q)"
    using P(1) by (auto simp: remove_waiting_job_def)
  then show ?case using P(2) by (intro exI [of _ "\<lambda>y. (strip x = [] \<or> y \<noteq> strip x) \<and> P y"]) auto
qed

lemma order_le_cleanup:
  assumes inv: "jq_inv q"
  shows "order_le q (fst (cleanup_jobs now q))"
proof (cases "jq_retention q \<le> 0")
  case True
  then show ?thesis by (simp add: cleanup_eq)
next
  case False
  note d = jq_invD [OF inv] and get = cleanup_get [OF jq_invD(1) [OF inv], of now]
  obtain P where P: "jq_waiting (fold remove_waiting_job (expired_ids now q) q) = filter P (jq_waiting q)"
    "\<forall>x \<in> set (expired_ids now q). strip x = x \<and> x \<noteq> [] \<longrightarrow> \<not> P x" using fold_remove_filter by blast
  have w: "jq_waiting (fst (cleanup_jobs now q)) = filter P (jq_waiting q)"
    using False P(1) by (simp add: cleanup_eq Let_def frame_simps)
  have gone: "\<not> P k" if "get_job_state q k = Some j" "is_old now q j" for k j
    using P(2) that expired_iff [OF d(1)] d(2) by (auto simp: ids_ok_def)
  show ?thesis
  proof (rule order_leI [OF w])
    show "is_eligible q k \<and> job_keys (fst (cleanup_jobs now q)) k = job_keys q k"
      if "is_eligible (fst (cleanup_jobs now q)) k" for k
      using that by (auto simp: is_eligible_def get job_keys_eq split: option.splits if_splits)
    show "get_job_state (fst (cleanup_jobs now q)) k \<noteq> None"
      if "k \<in> set (jq_waiting (fst (cleanup_jobs now q)))" "get_job_state q k \<noteq> None" for k
      using that gone w by (auto simp: get split: option.splits)
  qed
qed

lemma order_le_pick:
  assumes ok: "order_ok q" and inv: "jq_inv q"
  shows "order_le q (fst (pick_next_job q))"
proof -
  note d = jq_invD [OF inv]
  have pruned: "jq_waiting (prune_waiting_order q) = filter (is_eligible q) (jq_waiting q)"
    using ok by (intro prune_waiting_filter) (simp add: order_ok_def)
  have "jq_waiting (fst (pick_next_job q)) = filter (is_eligible q) (jq_waiting q)"
  proof (cases "jq_waiting (prune_waiting_order q)")
    case (Cons x xs)
    then show ?thesis using pruned unfolding pick_next_usable [OF d(1,2)] by simp
  next
    case Nil
    then have "\<not> is_eligible q k" for k using pruned d(5) [of k] by (auto simp: filter_empty_conv)
    then have "filter job_eligible (dvals (jq_jobs q)) = []"
      using set_dvals [OF d(1)] by (auto simp: filter_empty_conv is_eligible_def get_job_state_def)
    then show ?thesis using Nil pruned unfolding pick_next_usable [OF d(1,2)] by simp
  qed
  then show ?thesis by (intro order_le_waiting pick_sels)
qed

lemma order_le_start_job: "order_le q (start_job jid now clock q)"
proof -
  let ?f = "\<lambda>j. j\<lparr>job_status := ''RUNNING'', job_started_at := Some now,
           job_checkpoint := dset ''phase'' (PStr ''preparing'') (job_checkpoint j),
           job_timing := (case dget (job_marks j) ''submitted_at_monotonic'' of
             None \<Rightarrow> job_timing j
           | Some m \<Rightarrow> dset ''queue_wait_ms'' (PFloat (ms (clock - m))) (job_timing j))\<rparr>"
  have a: "order_le q (upd_job jid ?f q)" by (rule order_le_upd) (simp_all add: job_key_def job_eligible_def)
  have b: "order_le q' (q'\<lparr>jq_running := jid\<rparr>)" for q' by (rule order_le_frame) simp_all
  show ?thesis unfolding start_job_def Let_def
    by (rule order_le_trans [OF a order_le_trans [OF order_le_remove order_le_trans [OF b order_le_invalidate]]])
qed

lemma order_le_release: "order_le q (release_running now q)"
  by (rule order_le_frame) (simp_all add: frame_simps)

lemma order_le_thread: "order_le q (set_thread i pc q)"
  by (rule order_le_frame) (simp_all add: frame_simps)

lemma order_le_pass:
  assumes ok: "order_ok q" and inv: "jq_inv q" and p: "loop_pass ttl now clock q = (q', pc, effs)"
  shows "order_le q q'"
proof -
  let ?q2 = "fst (cleanup_jobs now q)"
  have c: "order_le q ?q2" using inv by (rule order_le_cleanup)
  have pick: "order_le q (fst (pick_next_job ?q2))"
    using order_le_trans [OF c order_le_pick [OF order_le_ok [OF c ok] cleanup_inv [OF inv]]] .
  have pool: "order_le q1 (fst (close_shared_pool q1))" for q1
    by (rule order_le_frame) (simp_all add: close_shared_pool_def)
  from p show ?thesis
  proof (cases rule: loop_pass_cases)
    case dies
    then show ?thesis using c by simp
  next
    case none
    then show ?thesis using pick order_le_trans [OF pick pool] by auto
  next
    case starts
    then show ?thesis using order_le_trans [OF pick order_le_start_job] by simp
  qed
qed

lemma order_le_select:
  assumes ok: "order_ok q" and inv: "jq_inv q" and s: "loop_select ttl now clock q = (q', pc, effs)"
  shows "order_le q q'"
proof (cases "jq_stop q \<or> jq_running q \<noteq> [] \<and> \<not> running_finished q")
  case True
  then have "q' = q" using s by (auto simp: loop_select_def split: if_splits)
  then show ?thesis by simp
next
  case False
  show ?thesis
  proof (cases "jq_running q = []")
    case True
    then show ?thesis using False s order_le_pass [OF ok inv] by (simp add: loop_select_def)
  next
    case busy: False
    have idle: "\<not> is_running q k" for k
      using False busy jq_invD(4) [OF inv, of k]
      by (auto simp: running_finished_def is_running_def not_terminal_running)
    have "order_le (release_running now q) q'"
      using False busy s by (intro order_le_pass [OF order_le_ok [OF order_le_release ok] release_inv [OF inv idle]])
        (auto simp: loop_select_def)
    then show ?thesis by (rule order_le_trans [OF order_le_release])
  qed
qed

section \<open>A submission inserts in order\<close>

lemma insert_waiting_order:
  assumes ok: "order_ok q" and new: "get_job_state q (job_id j) = None"
  shows "order_ok (insert_waiting_job j (q\<lparr>jq_enqueue_seq := n, jq_jobs := dset (job_id j) j (jq_jobs q)\<rparr>))"
    (is "order_ok (insert_waiting_job j ?q)")
proof -
  have get: "get_job_state ?q k = (if k = job_id j then Some j else get_job_state q k)" for k
    by (simp add: get_job_state_def dict_simps)
  have keys: "job_keys ?q k = job_keys q k" "is_eligible ?q k = is_eligible q k" if "k \<noteq> job_id j" for k
    using that by (simp_all add: job_keys_def key_of_def is_eligible_def get get_job_state_def dict_simps)
  have fresh: "job_id j \<notin> set (jq_waiting q)" using ok new by (auto simp: order_ok_def)
  then have ne: "k \<noteq> job_id j" if "k \<in> set (jq_waiting q)" for k using that by blast
  have d: "distinct (jq_waiting ?q)" using ok by (simp add: order_ok_def)
  let ?ws = "filter (is_eligible q) (jq_waiting q)"
  have w: "jq_waiting (prune_waiting_order ?q) = ?ws"
    unfolding prune_waiting_filter [OF d] by (simp add: keys(2) ne cong: filter_cong)
  have eq: "jq_waiting (insert_waiting_job j ?q) = insert_before_greater (jq_jobs ?q) j ?ws"
    using w by (simp add: insert_waiting_job_def Let_def frame_simps)
  have m: "map (job_keys ?q) ?ws = map (job_keys q) ?ws" by (simp add: keys(1) ne)
  have "sorted (map (job_keys ?q) ?ws)" unfolding m using ok unfolding order_ok_def by blast
  then have "sorted (map (key_of (jq_jobs ?q)) ?ws)" unfolding job_keys_def .
  moreover have "\<forall>k \<in> set ?ws. dget (jq_jobs ?q) k \<noteq> None"
    using ok fresh get by (auto simp: order_ok_def get_job_state_def)
  ultimately have "keys_sorted (jq_jobs ?q) (insert_before_greater (jq_jobs ?q) j ?ws)"
    by (intro insert_before_greater_sorted) (simp_all add: keys_sorted_def dict_simps)
  then have s: "sorted (map (job_keys ?q) (jq_waiting (insert_waiting_job j ?q)))"
      "\<forall>k \<in> set (jq_waiting (insert_waiting_job j ?q)). get_job_state ?q k \<noteq> None"
    unfolding eq by (simp_all add: keys_sorted_def job_keys_def get_job_state_def)
  have "mset (jq_waiting (insert_waiting_job j ?q)) = mset (job_id j # ?ws)"
    unfolding eq by (simp add: insert_before_greater_mset)
  from mset_eq_imp_distinct_iff [OF this] have "distinct (jq_waiting (insert_waiting_job j ?q))"
    using fresh d by simp
  moreover have j: "jq_jobs (insert_waiting_job j ?q) = jq_jobs ?q" by (rule insert_waiting_sels)
  moreover have "job_keys (insert_waiting_job j ?q) = job_keys ?q" unfolding job_keys_def j ..
  ultimately show ?thesis unfolding order_ok_def
    using s sorted_filter_map by (simp add: preds_cong(4) [OF j])
qed

lemma submit_order:
  assumes ok: "order_ok q" and sub: "submit_job env normalized token q = (q', effs, Inr j)"
    and new: "get_job_state q (job_id j) = None"
  shows "order_ok q'"
proof -
  let ?q1 = "fst (detach_stale_running q)"
  obtain p n where j: "j = submitted_job env p n token (jq_enqueue_seq ?q1 + 1)"
    and q': "q' = fst (enqueue_job (submitted_job env p n token) q)"
    using sub by (auto simp: submit_job_def enqueue_job_def Let_def split: sum.splits prod.splits)
  let ?q2 = "insert_waiting_job j (?q1\<lparr>jq_enqueue_seq := jq_enqueue_seq ?q1 + 1, jq_jobs := dset (job_id j) j (jq_jobs ?q1)\<rparr>)"
  have eq: "q' = ensure_scheduler_thread (invalidate_summary ?q2)"
    unfolding q' j by (simp add: enqueue_job_def Let_def case_prod_beta)
  have "get_job_state ?q1 (job_id j) = None" using new preds_cong(4) [OF detach_sels(1)] by simp
  then have "order_ok ?q2" by (rule insert_waiting_order [OF order_le_ok [OF order_le_detach ok]])
  then show ?thesis unfolding eq
    by (rule order_le_ok [OF order_le_trans [OF order_le_invalidate order_le_ensure]])
qed

section \<open>Histories without reordering and without reused ids\<close>

inductive jq_fifo :: "job_queue \<Rightarrow> bool" where
  init: "jq_fifo (new_job_queue cache_ttl retention idle_ttl)"
| step: "jq_fifo q \<Longrightarrow> jq_step l q q' \<Longrightarrow> l \<noteq> LReorder \<Longrightarrow>
    (\<forall>jid. l = LSubmit jid \<longrightarrow> get_job_state q jid = None) \<Longrightarrow> jq_fifo q'"

lemma jq_fifo_reachable: "jq_fifo q \<Longrightarrow> jq_reachable q"
  by (induction rule: jq_fifo.induct) (auto intro: jq_reachable.intros)

lemma step_order:
  assumes "jq_step l q q'" and ok: "order_ok q" and inv: "jq_inv q"
    and "l \<noteq> LReorder" and new: "\<forall>jid. l = LSubmit jid \<longrightarrow> get_job_state q jid = None"
  shows "order_ok q'"
  using assms(1)
proof (cases rule: jq_step.cases)
  case (submit env normalized token effs j)
  then show ?thesis using submit_order [OF ok] new by blast
next
  case (select i ttl now clock q1 pc effs)
  then show ?thesis
    using order_le_ok [OF order_le_trans [OF order_le_select [OF ok inv] order_le_thread] ok] by blast
next
  case (run_returns i jid q1)
  have "order_le q q1"
    using run_end_shape [OF run_returns(4)]
  proof (elim disjE exE conjE)
    fix f q0 assume f: "ends_job f" and v: "same_view q q0" "same_view (upd_job jid f q0) q1"
    have "is_terminal (job_status (f j))" for j using f by (simp add: ends_job_def)
    then have "\<not> job_eligible (f j)" for j by (metis job_eligible_def not_terminal_running(2))
    then have "order_le q0 (upd_job jid f q0)" using f by (intro order_le_upd) (simp_all add: ends_job_def)
    then show ?thesis using order_le_trans order_le_view v by blast
  qed simp
  then show ?thesis unfolding run_returns using order_le_ok [OF order_le_trans [OF _ order_le_thread] ok] by blast
next
  case (look i jid)
  have "order_le q (fst (loop_look jid q))"
    using look_view [of jid q] order_le_trans [OF order_le_get_job order_le_view] by blast
  then show ?thesis unfolding look using order_le_ok [OF order_le_trans [OF _ order_le_thread] ok] by blast
next
  case (start target)
  have "order_le q (start_queue target q)"
    by (rule order_le_frame) (simp_all add: start_queue_def spawn_thread_def Let_def)
  then show ?thesis using start order_le_ok [OF _ ok] by simp
next
  case close_last
  have "order_le q (fst (close_end q))" by (rule order_le_frame) (simp_all add: close_end_def Let_def)
  then show ?thesis using close_last order_le_ok [OF _ ok] by simp
qed (use assms(4) order_le_ok [OF _ ok] order_le_trans [OF order_le_release order_le_thread]
    in \<open>auto intro: order_le_get_job order_le_cancel order_le_close order_le_thread order_le_view
      same_view_sections run_section_view\<close>)

lemma jq_fifo_order: "jq_fifo q \<Longrightarrow> order_ok q"
proof (induction rule: jq_fifo.induct)
  case (init cache_ttl retention idle_ttl)
  show ?case by (simp add: order_ok_def new_job_queue_def)
next
  case (step q l q')
  then show ?case using step_order jq_reachable_inv [OF jq_fifo_reachable] by blast
qed

lemma demo_fifo: "jq_fifo demo_waiting"
proof -
  have "jq_fifo demo_started" using jq_fifo.init demo_steps(1) by (rule jq_fifo.step) simp_all
  moreover have "get_job_state demo_started ''a'' = None" by code_simp
  ultimately have "jq_fifo (demo_submit ''a'' 1 1 demo_started)" using demo_steps(2) by (auto intro: jq_fifo.step)
  moreover have "get_job_state (demo_submit ''a'' 1 1 demo_started) ''b'' = None" by code_simp
  ultimately show ?thesis using demo_steps(3) by (auto intro: jq_fifo.step)
qed

lemma demo_waiting_eligible: "is_eligible demo_waiting ''a''"
proof -
  have "get_job_state demo_waiting ''a'' = Some (the (get_job_state demo_waiting ''a''))"
    "job_eligible (the (get_job_state demo_waiting ''a''))" by code_simp+
  then show ?thesis unfolding is_eligible_def by blast
qed

lemma loop_select_starts:
  assumes "loop_select ttl now clock q = (q', Executing jid, effs)"
  defines "q1 \<equiv> (if jq_running q \<noteq> [] then release_running now q else q)"
  shows "\<not> jq_stop q" "jq_running q = [] \<or> running_finished q" "loop_pass ttl now clock q1 = (q', Executing jid, effs)"
  using assms(1) by (auto simp: loop_select_def q1_def split: if_splits)

text \<open>The released queue of a pass keeps jobs and waiting order.\<close>

lemma released_facts:
  fixes now :: instant
  assumes inv: "jq_inv q" and "jq_running q = [] \<or> running_finished q"
  defines "q1 \<equiv> (if jq_running q \<noteq> [] then release_running now q else q)"
  shows "jq_jobs q1 = jq_jobs q" "jq_inv q1" "order_le q q1" "\<not> is_running q k"
proof -
  have idle: "\<not> is_running q k" for k
  proof (cases "jq_running q = []")
    case True
    then show ?thesis by (rule idle_running [OF inv])
  next
    case False
    then have "running_finished q" using assms(2) by simp
    then show ?thesis using jq_invD(4) [OF inv, of k]
      by (auto simp: running_finished_def is_running_def not_terminal_running)
  qed
  then show "\<not> is_running q k" .
  show "jq_jobs q1 = jq_jobs q" by (simp add: q1_def frame_simps)
  show "jq_inv q1" using release_inv [OF inv idle] inv by (simp add: q1_def)
  show "order_le q q1" using order_le_release by (simp add: q1_def)
qed

text \<open>
  C16: jobs start by priority, then in the order of submission. In every history without a reorder
  and without a reused job id, whichever way submissions, cancels, closes and the scheduler
  interleave, the job the scheduler starts has the least key (higher priority first, then earlier
  submission, then smaller sequence number) of all jobs that may run at that moment.
\<close>
theorem starts_least_job:
  assumes "jq_fifo q" and "loop_select ttl now clock q = (q', Executing jid, effs)"
  shows "is_eligible q jid \<and> (\<forall>k. is_eligible q k \<longrightarrow> job_keys q jid \<le> job_keys q k)"
proof -
  note inv = jq_reachable_inv [OF jq_fifo_reachable [OF assms(1)]]
  note st = loop_select_starts [OF assms(2)]
  define q1 where "q1 = (if jq_running q \<noteq> [] then release_running now q else q)"
  note r = released_facts(1-3) [OF inv st(2), of now, folded q1_def] and idle = released_facts(4) [OF inv st(2)]
  let ?q2 = "fst (cleanup_jobs now q1)"
  have c: "order_le q ?q2" using r(3) order_le_cleanup [OF r(2)] by (rule order_le_trans)
  have ok2: "order_ok ?q2" using c jq_fifo_order [OF assms(1)] by (rule order_le_ok)
  have inv2: "jq_inv ?q2" using r(2) by (rule cleanup_inv)
  have el: "is_eligible ?q2 k = is_eligible q k" for k
    using view_cleanup(2) [OF r(2)] preds_cong(2) [OF r(1)] by simp
  from st(3) [folded q1_def] obtain p where p: "pick_next_job ?q2 = (p, Some jid)"
    by (cases rule: loop_pass_cases) auto
  have pruned: "jq_waiting (prune_waiting_order ?q2) = filter (is_eligible ?q2) (jq_waiting ?q2)"
    using ok2 by (intro prune_waiting_filter) (simp add: order_ok_def)
  have jid: "is_eligible ?q2 jid" using inv2 p by (rule pick_eligible)
  then have "jq_waiting (prune_waiting_order ?q2) \<noteq> []"
    using jq_invD(5) [OF inv2 jid] unfolding pruned by (auto simp: filter_empty_conv)
  then obtain xs where xs: "filter (is_eligible ?q2) (jq_waiting ?q2) = jid # xs"
    using p pruned unfolding pick_next_usable [OF jq_invD(1,2) [OF inv2]] by (auto split: list.splits)
  then have "\<forall>k \<in> set (jid # xs). job_keys ?q2 jid \<le> job_keys ?q2 k" using ok2 by (auto simp: order_ok_def)
  moreover have "k \<in> set (jid # xs)" if "is_eligible ?q2 k" for k
    unfolding xs [symmetric] using that jq_invD(5) [OF inv2 that] by simp
  moreover have "job_keys ?q2 k = job_keys q k" if "is_eligible ?q2 k" for k
    using c that unfolding order_le_def by blast
  ultimately show ?thesis using jid el by (metis (no_types, lifting))
qed

lemma ref_touch_checked:
  assumes "\<forall>j \<in> set js. job_eligible j \<and> job_staged_ref_ids j \<noteq> [] \<longrightarrow> \<not> is_error (job_ref_touch_interval_sec ttl j)"
  shows "\<exists>t. needing_ref_touch ttl now js = Inr t"
  using assms
proof (induction js)
  case (Cons j js)
  then obtain t where t: "needing_ref_touch ttl now js = Inr t" by auto
  show ?case
  proof (cases "job_eligible j \<and> job_staged_ref_ids j \<noteq> []")
    case True
    then obtain i where "job_ref_touch_interval_sec ttl j = Inr i" using Cons.prems by (auto elim: not_is_errorE)
    then show ?thesis using True t by (simp add: Let_def)
  next
    case False
    then show ?thesis using t by auto
  qed
qed simp



theorem starts_least_job_witness: "job_keys demo_waiting ''b'' \<le> job_keys demo_waiting ''a''"
proof -
  have "fst (snd (loop_select 60 3 3 demo_waiting)) = Executing ''b''" by code_simp
  then have "loop_select 60 3 3 demo_waiting = (fst (loop_select 60 3 3 demo_waiting), Executing ''b'',
      snd (snd (loop_select 60 3 3 demo_waiting)))" by (simp add: prod_eq_iff)
  from starts_least_job [OF demo_fifo this] show ?thesis using demo_waiting_eligible by blast
qed

end
