(* ===== verification/JobFailures.thy ===== *)
theory JobFailures
  imports JobDemo JobRuns
begin

text \<open>
  Failures the scheduler does not survive: an exception in a run outside its \<open>try\<close> ends the
  thread and leaves the job RUNNING for ever; a job whose time to live cannot be read ends every
  thread that looks at the queue; a restart while the old thread is still at work leaves two
  threads, and two running jobs.
\<close>

section \<open>A dead scheduler\<close>

definition wedged :: "string \<Rightarrow> job_queue \<Rightarrow> bool" where
  "wedged jid q \<longleftrightarrow> is_running q jid \<and> jq_running q = jid \<and> \<not> jq_stop q \<and> strip jid = jid \<and> jid \<noteq> [] \<and>
     (\<forall>pc \<in> set (jq_threads q). pc = AtTop \<or> pc = Dead)"

lemma wedgedI:
  assumes "wedged jid q" and "get_job_state q' jid = get_job_state q jid" and "jq_running q' = jq_running q"
    and "jq_stop q' = jq_stop q" and "\<forall>pc \<in> set (jq_threads q'). pc = AtTop \<or> pc = Dead"
  shows "wedged jid q'"
  using assms by (simp add: wedged_def is_running_def)

lemma wedged_view:
  assumes v: "same_view q q'" and w: "wedged jid q"
  shows "wedged jid q'"
proof -
  have "is_running q' jid" using w same_view_preds(1) [OF v] by (simp add: wedged_def)
  then show ?thesis using w v by (simp add: wedged_def same_view_def)
qed

lemma wedged_thread:
  assumes "wedged jid q"
  shows "thread_at q i pc \<Longrightarrow> pc = AtTop \<or> pc = Dead"
  using assms nth_mem [of i "jq_threads q"] by (auto simp: wedged_def thread_at_def)

lemma wedged_detach: "wedged jid q \<Longrightarrow> detach_stale_running q = (q, None)"
  by (auto simp: wedged_def detach_stale_running_def Let_def is_running_def not_terminal_running)

lemma wedged_ensure: "wedged jid q \<Longrightarrow> wedged jid (ensure_scheduler_thread q)"
  by (auto simp: ensure_scheduler_thread_def spawn_thread_def wedged_def is_running_def get_job_state_def)

lemma wedged_get_job: "wedged jid q \<Longrightarrow> wedged jid (fst (get_job k q))"
  by (simp add: get_job_def wedged_detach nudge_scheduler_def Let_def wedged_ensure)

lemma wedged_upd:
  "wedged jid q \<Longrightarrow> (\<And>j. job_status j = ''RUNNING'' \<Longrightarrow> job_status (f j) = ''RUNNING'') \<Longrightarrow> wedged jid (upd_job k f q)"
  by (auto simp: wedged_def preds_upd frame_simps is_running_def)

lemma wedged_other: "wedged jid q \<Longrightarrow> k \<noteq> jid \<Longrightarrow> wedged jid (upd_job k f q)"
  by (auto simp: wedged_def preds_upd frame_simps)

lemma wedged_remove: "wedged jid q \<Longrightarrow> wedged jid (remove_waiting_job k q)"
  by (auto simp: wedged_def frame_simps is_running_def)

lemma wedged_waiting: "wedged jid q \<Longrightarrow> wedged jid (q\<lparr>jq_waiting := ws\<rparr>)"
  by (auto simp: wedged_def is_running_def get_job_state_def)

lemma wedged_invalidate: "wedged jid q \<Longrightarrow> wedged jid (invalidate_summary q)"
  by (auto simp: wedged_def frame_simps is_running_def)

lemma wedged_cancel:
  assumes w: "wedged jid q" and "ids_ok q"
  shows "wedged jid (fst (cancel_job dumps sha k token now q))"
proof (cases "get_job_state q (strip k)")
  case None
  then show ?thesis using w by (simp add: cancel_job_def Let_def)
next
  case (Some j)
  have flag: "wedged jid (invalidate_summary (upd_job (strip k) (\<lambda>j. j\<lparr>job_cancel_requested := True\<rparr>) q))"
    using w by (intro wedged_invalidate wedged_upd) simp_all
  have "wedged jid (fst (get_job (strip k) (fst (release_refs_for_job i rs True (invalidate_summary
      (remove_waiting_job x (refresh_job_previews dumps (strip k) (upd_job (strip k) f q))))))))"
    if "job_status j = ''WAITING''" for i rs x f
  proof -
    have "strip k \<noteq> jid" using w Some that by (auto simp: wedged_def is_running_def)
    then have "wedged jid (upd_job (strip k) f q)" by (rule wedged_other [OF w])
    then show ?thesis
      by (intro wedged_get_job wedged_view [OF same_view_release] wedged_invalidate wedged_remove
          wedged_view [OF same_view_previews])
  qed
  then show ?thesis using w flag
    by (auto simp: cancel_job_def Let_def Some case_prod_beta split: sum.split)
qed

lemma wedged_reorder: "wedged jid q \<Longrightarrow> wedged jid (fst (reorder_job k direction q))"
proof -
  assume w: "wedged jid q"
  have p: "wedged jid (prune_waiting_order q)" using wedged_waiting [OF w] by (subst prune_eq)
  have i: "wedged jid (insert_waiting_job j (prune_waiting_order q))" for j
    using wedged_waiting [OF p] by (subst insert_waiting_eq)
  show ?thesis
    using w p i by (auto simp: reorder_job_def Let_def intro!: wedged_invalidate wedged_waiting split: option.split)
qed

lemma wedged_submit:
  assumes w: "wedged jid q" and sub: "submit_job env normalized token q = (q', effs, Inr j)" and other: "job_id j \<noteq> jid"
  shows "wedged jid q'"
proof -
  obtain p n where j: "j = submitted_job env p n token (jq_enqueue_seq q + 1)"
    and q': "q' = fst (enqueue_job (submitted_job env p n token) q)"
    using sub by (auto simp: submit_job_def enqueue_job_def Let_def wedged_detach [OF w] split: sum.splits prod.splits)
  let ?q2 = "insert_waiting_job j (q\<lparr>jq_enqueue_seq := jq_enqueue_seq q + 1, jq_jobs := dset (job_id j) j (jq_jobs q)\<rparr>)"
  have "wedged jid (q\<lparr>jq_enqueue_seq := jq_enqueue_seq q + 1, jq_jobs := dset (job_id j) j (jq_jobs q)\<rparr>)"
    using w other by (auto simp: wedged_def is_running_def get_job_state_def dict_simps)
  then have "wedged jid ?q2" by (subst insert_waiting_eq) (rule wedged_waiting)
  moreover have "q' = ensure_scheduler_thread (invalidate_summary ?q2)"
    unfolding q' j by (simp add: enqueue_job_def Let_def wedged_detach [OF w])
  ultimately show ?thesis by (simp add: wedged_ensure wedged_invalidate)
qed

lemma wedged_select:
  assumes w: "wedged jid q"
  shows "loop_select ttl now clock q = (q, AtTop, [])"
  using w by (auto simp: wedged_def loop_select_def running_finished_def is_running_def not_terminal_running)

lemma wedged_step:
  assumes w: "wedged jid q" and inv: "ids_ok q" and "jq_step l q q'" and l: "l \<noteq> LClose" "l \<noteq> LSubmit jid"
  shows "wedged jid q'"
  using assms(3)
proof (cases rule: jq_step.cases)
  case (submit env normalized token effs j)
  then show ?thesis using wedged_submit [OF w] l by blast
next
  case (start target)
  then show ?thesis using w
    by (auto simp: start_queue_def spawn_thread_def Let_def wedged_def is_running_def get_job_state_def)
next
  case (select i ttl now clock q1 pc effs)
  then have "q' = set_thread i AtTop q" using wedged_select [OF w, of ttl now clock] by simp
  moreover have "set ((jq_threads q)[i := AtTop]) \<subseteq> insert AtTop (set (jq_threads q))" by (rule set_update_subset_insert)
  ultimately show ?thesis using w by (intro wedgedI [OF w]) (auto simp: frame_simps wedged_def set_thread_def get_job_state_def)
next
  case (run_on i jid')
  then show ?thesis using wedged_thread [OF w] by blast
next
  case (run_returns i jid' q1)
  then show ?thesis using wedged_thread [OF w] by blast
next
  case (run_dies i jid')
  then show ?thesis using wedged_thread [OF w] by blast
next
  case (look i jid')
  then show ?thesis using wedged_thread [OF w] by blast
next
  case (last i jid' now)
  then show ?thesis using wedged_thread [OF w] by blast
qed (use w inv l in \<open>auto intro: wedged_get_job wedged_cancel wedged_reorder
  wedged_view [OF same_view_touch] wedged_view [OF same_view_release]\<close>)

text \<open>Histories in which some steps do not occur.\<close>

inductive jq_steps_without :: "(jq_label \<Rightarrow> bool) \<Rightarrow> job_queue \<Rightarrow> job_queue \<Rightarrow> bool" for bad where
  none: "jq_steps_without bad q q"
| more: "jq_steps_without bad q q' \<Longrightarrow> jq_step l q' q'' \<Longrightarrow> \<not> bad l \<Longrightarrow> jq_steps_without bad q q''"

lemma wedged_steps:
  assumes "jq_steps_without (\<lambda>l. l = LClose \<or> l = LSubmit jid) q q'" and "wedged jid q" and "jq_inv q"
  shows "wedged jid q' \<and> jq_inv q'"
  using assms
proof (induction rule: jq_steps_without.induct)
  case (more q q' l q'')
  then show ?case using wedged_step [of jid q' l q''] jq_step_inv jq_invD(2) by blast
qed simp

text \<open>
  C23: an exception in a run outside its try wedges the queue. When the thread that executes a job
  dies in a queue that is not being closed, then after every further history without a close and
  without a submission of that very id (submissions, queries, cancels, even new scheduler
  threads) the job is still RUNNING, no other job has started, and every pass of every scheduler
  thread does nothing.
\<close>
theorem scheduler_death_wedges_queue:
  assumes "jq_reachable q" and "thread_at q i (Executing jid)" and "is_running q jid" and "\<not> jq_stop q"
    and "jq_steps_without (\<lambda>l. l = LClose \<or> l = LSubmit jid) (set_thread i Dead q) q'"
  shows "is_running q' jid \<and> (\<forall>k. is_running q' k \<longrightarrow> k = jid) \<and>
    (\<forall>ttl now clock. loop_select ttl now clock q' = (q', AtTop, []))"
proof -
  let ?q = "set_thread i Dead q"
  have inv: "jq_inv q" using assms(1) by (rule jq_reachable_inv)
  have inv': "jq_inv ?q" by (rule jq_step_inv [OF jq_step.run_dies [OF assms(2)] inv])
  have run: "is_running ?q jid" using assms(3) preds_cong(1) [OF set_thread_sels(1)] by simp
  have "pc = AtTop \<or> pc = Dead" if pc: "pc \<in> set (jq_threads ?q)" for pc
  proof -
    obtain k where k: "k < length (jq_threads q)" "jq_threads ?q ! k = pc"
      using pc by (auto simp: in_set_conv_nth set_thread_def)
    show ?thesis
    proof (cases "k = i")
      case True
      then show ?thesis using k by (simp add: set_thread_def)
    next
      case False
      then have "\<not> alive q k" using jq_invD(6) [OF inv, of i k] assms(2) by (auto simp: alive_def thread_at_def)
      then show ?thesis using k False by (simp add: alive_def set_thread_def)
    qed
  qed
  then have "wedged jid ?q"
    using run jq_invD(4) [OF inv' run] jq_invD(2) [OF inv'] assms(4)
    by (auto simp: wedged_def frame_simps is_running_def ids_ok_def)
  then have w: "wedged jid q'" "jq_inv q'" using wedged_steps [OF assms(5)] inv' by blast+
  have "k = jid" if "is_running q' k" for k
    using jq_invD(4) [OF w(2) that] w(1) by (simp add: wedged_def)
  then show ?thesis using w(1) wedged_select [OF w(1)] by (auto simp: wedged_def)
qed

theorem scheduler_death_wedges_queue_witness:
  "is_running (fst (get_job ''a'' (set_thread 0 Dead demo_running))) ''b'' \<and>
   loop_select 60 9 9 (fst (get_job ''a'' (set_thread 0 Dead demo_running))) =
     (fst (get_job ''a'' (set_thread 0 Dead demo_running)), AtTop, [])"
proof -
  have "\<not> jq_stop demo_running" by code_simp
  moreover have "jq_steps_without (\<lambda>l. l = LClose \<or> l = LSubmit ''b'') (set_thread 0 Dead demo_running)
      (fst (get_job ''a'' (set_thread 0 Dead demo_running)))"
    by (rule jq_steps_without.more [OF jq_steps_without.none jq_step.get]) simp
  ultimately show ?thesis
    using scheduler_death_wedges_queue [OF demo_reachable(2) demo_running_facts(2,1)] by blast
qed

section \<open>A job nobody can look at\<close>

lemma needing_ref_touch_error:
  assumes "j \<in> set js" and "job_eligible j" and "job_staged_ref_ids j \<noteq> []" and "is_error (job_ref_touch_interval_sec ttl j)"
  shows "is_error (needing_ref_touch ttl now js)"
  using assms(1)
proof (induction js)
  case (Cons x js)
  show ?case
  proof (cases "j = x")
    case True
    then obtain e where "job_ref_touch_interval_sec ttl x = Inl e"
      using assms(4) by (cases "job_ref_touch_interval_sec ttl x") simp_all
    then show ?thesis using True assms(2,3) by simp
  next
    case False
    then obtain e where "needing_ref_touch ttl now js = Inl e"
      using Cons by (cases "needing_ref_touch ttl now js") auto
    then show ?thesis by (cases "job_ref_touch_interval_sec ttl x") simp_all
  qed
qed simp

text \<open>
  one waiting job with an unreadable \<open>staging_ttl_sec\<close> stops the queue. As long as an eligible
  job has staged references and a time to live that \<open>int()\<close> rejects, every pass of the scheduler in
  an idle queue ends its thread, starts nothing, and leaves the job where it is, so the next thread
  ends the same way.
\<close>
theorem unreadable_ttl_kills_scheduler:
  assumes "jq_inv q" and "\<not> jq_stop q" and "jq_running q = []" and "get_job_state q k = Some j"
    and "job_eligible j" and "job_staged_ref_ids j \<noteq> []" and "is_error (job_ref_touch_interval_sec ttl j)"
  shows "\<exists>q' effs. loop_select ttl now clock q = (q', Dead, effs) \<and> get_job_state q' k = Some j \<and>
    jq_running q' = [] \<and> \<not> jq_stop q' \<and> jq_inv q'"
proof -
  let ?q2 = "fst (cleanup_jobs now q)"
  have get: "get_job_state ?q2 k = Some j"
    using cleanup_get [OF jq_invD(1) [OF assms(1)]] assms(4,5)
    by (simp add: is_old_def is_terminal_def job_eligible_def)
  have inv: "jq_inv ?q2" using assms(1) by (rule cleanup_inv)
  then have "j \<in> set (dvals (jq_jobs ?q2))"
    using get set_dvals [OF jq_invD(1) [OF inv]] by (auto simp: get_job_state_def)
  then have "is_error (jobs_needing_ref_touch ttl now ?q2)"
    unfolding jobs_needing_ref_touch_def by (rule needing_ref_touch_error [OF _ assms(5-7)])
  then obtain e where e: "jobs_needing_ref_touch ttl now ?q2 = Inl e"
    by (cases "jobs_needing_ref_touch ttl now ?q2") simp_all
  have "loop_pass ttl now clock q = (?q2, Dead, [])" by (simp add: loop_pass_def e case_prod_beta)
  then have "loop_select ttl now clock q = (?q2, Dead, [])" using assms(2,3) by (simp add: loop_select_def)
  then show ?thesis using get inv assms(2,3) by (simp add: frame_simps)
qed

definition poisoned :: job_queue where
  "poisoned = (demo_queue [(''a'', ''WAITING'')])\<lparr>jq_jobs := [(''a'', (demo_job ''a'' ''WAITING'')
     \<lparr>job_payload := [(''staging_ttl_sec'', PStr ''soon'')], job_staged_ref_ids := [''r1'']\<rparr>)]\<rparr>"

theorem unreadable_ttl_kills_scheduler_witness:
  "\<exists>q' effs. loop_select 60 5 5 poisoned = (q', Dead, effs) \<and> is_eligible q' ''a''"
proof -
  let ?j = "(demo_job ''a'' ''WAITING'')\<lparr>job_payload := [(''staging_ttl_sec'', PStr ''soon'')], job_staged_ref_ids := [''r1'']\<rparr>"
  have st: "strip ''a'' = ''a''" by code_simp
  have get: "get_job_state poisoned k = (if k = ''a'' then Some ?j else None)" for k
    by (simp add: poisoned_def get_job_state_def)
  have el: "job_eligible ?j" by (simp add: job_eligible_def)
  have inv: "jq_inv poisoned"
  proof -
    have "job_id ?j = ''a''" using st by simp
    then have "ids_ok poisoned" using st by (simp add: ids_ok_def get)
    moreover have "\<not> is_running poisoned k" for k by (simp add: is_running_def get)
    moreover have "k \<in> set (jq_waiting poisoned)" if "is_eligible poisoned k" for k
    proof -
      have "k = ''a''" using that get [of k] by (auto simp: is_eligible_def split: if_splits)
      then show ?thesis by (simp add: poisoned_def demo_queue_def)
    qed
    moreover have "jq_threads poisoned = []" "jq_running poisoned = []" "dwf (jq_jobs poisoned)"
      by (simp_all add: poisoned_def demo_queue_def new_job_queue_def dwf_def)
    ultimately show ?thesis by (simp add: jq_inv_def jobs_inv_def threads_inv_def pcs_inv_def alive_def thread_at_def)
  qed
  have "is_error (job_ref_touch_interval_sec 60 ?j)" by code_simp
  moreover have "\<not> jq_stop poisoned" "jq_running poisoned = []" "get_job_state poisoned ''a'' = Some ?j"
    "job_staged_ref_ids ?j \<noteq> []"
    by (simp add: poisoned_def demo_queue_def new_job_queue_def, simp add: poisoned_def demo_queue_def new_job_queue_def,
      simp add: get, simp)
  ultimately have "\<exists>q' effs. loop_select 60 5 5 poisoned = (q', Dead, effs) \<and> get_job_state q' ''a'' = Some ?j"
    using unreadable_ttl_kills_scheduler [OF inv _ _ _ el, of "''a''" 60 5 5] by blast
  then show ?thesis using el by (auto simp: is_eligible_def)
qed

section \<open>A restart beside a thread at work\<close>

text \<open>
  The sections of the history: the run of ''b'' has written back, but its thread has not come to
  its last section when \<open>close\<close> gives up waiting for it; the queue is started again and two jobs
  are submitted; the new thread sees the finished run and starts ''c''; then the old thread reaches
  its last section, forgets the running job, and takes the next one.
\<close>

definition restart_before :: job_queue where
  "restart_before = (demo_queue [(''b'', ''SUCCEEDED'')])\<lparr>jq_running := ''b'', jq_target := ''cp'', jq_started := True,
     jq_threads := [Returned ''b''], jq_handle := Some 0\<rparr>"

definition restart_submitted :: job_queue where
  "restart_submitted = fst (enqueue_job (\<lambda>_. demo_job ''d'' ''WAITING'') (fst (enqueue_job (\<lambda>_. demo_job ''c'' ''WAITING'')
     (start_queue ''cp'' (fst (close_end (close_begin 5 restart_before)))))))"

definition select_thread :: "nat \<Rightarrow> instant \<Rightarrow> job_queue \<Rightarrow> job_queue" where
  "select_thread i now q = (case loop_select 60 now now q of (q', pc, _) \<Rightarrow> set_thread i pc q')"

definition restart_second :: job_queue where
  "restart_second = select_thread 0 10 (release_running 9 (fst (loop_look ''b'' (select_thread 1 8 restart_submitted))))"

text \<open>
  closing a queue and starting it again while its thread is still at work (the close waits five
  seconds for it and then goes on) breaks the exclusion: both the old and the new thread execute a
  job, and two jobs are RUNNING.
\<close>
theorem restart_runs_two_jobs:
  "map (\<lambda>(k, j). (k, job_status j)) (jq_jobs restart_second) =
     [(''b'', ''SUCCEEDED''), (''c'', ''RUNNING''), (''d'', ''RUNNING'')] \<and>
   jq_threads restart_second = [Executing ''d'', Executing ''c'']"
  by code_simp

end
