(* ===== verification/Routes.thy ===== *)
theory Routes
  imports Scheduler Breaker
begin

text \<open>
  What the two route caches share: the scheduling predicates of
  \<open>controlplane/scheduling_policy.py\<close>, routes with their sort keys (\<open>infocenter_client.py\<close>), and
  the book a cache keeps of its routes: a circuit breaker and a count of calls in flight for each
  pair of service name and service id.
\<close>

section \<open>Scheduling predicates\<close>

definition SERVICE_STATUS_STARTING :: int where "SERVICE_STATUS_STARTING = 1"
definition SERVICE_STATUS_RUNNING :: int where "SERVICE_STATUS_RUNNING = 2"
definition SERVICE_STATUS_DRAINING :: int where "SERVICE_STATUS_DRAINING = 3"

lemmas service_status_defs = SERVICE_STATUS_STARTING_def SERVICE_STATUS_RUNNING_def SERVICE_STATUS_DRAINING_def

definition ACTIVE_SERVICE_STATUSES :: "int list" where
  "ACTIVE_SERVICE_STATUSES = [SERVICE_STATUS_STARTING, SERVICE_STATUS_RUNNING, SERVICE_STATUS_DRAINING]"

definition is_call_route :: "bool \<Rightarrow> int \<Rightarrow> bool \<Rightarrow> bool" where
  "is_call_route healthy service_status node_drain \<longleftrightarrow>
     healthy \<and> service_status = SERVICE_STATUS_RUNNING \<and> \<not> node_drain"

definition is_owner_target :: "bool \<Rightarrow> int \<Rightarrow> bool" where
  "is_owner_target healthy service_status \<longleftrightarrow> healthy \<and> service_status \<in> set ACTIVE_SERVICE_STATUSES"

definition is_conflict_scope :: "bool \<Rightarrow> int \<Rightarrow> bool" where
  "is_conflict_scope healthy service_status \<longleftrightarrow> healthy \<and> service_status \<in> set ACTIVE_SERVICE_STATUSES"

record node_admission =
  na_healthy :: bool
  na_schedulable :: bool
  na_drain :: bool
  na_accept_service_deploy :: bool
  na_control_addr :: string
  na_credit :: int

definition deploy_candidate_block_reason :: "node_admission \<Rightarrow> bool \<Rightarrow> bool \<Rightarrow> string" where
  "deploy_candidate_block_reason n require_control_addr require_credit =
    (if \<not> na_healthy n then ''unhealthy''
     else if \<not> na_schedulable n then ''cordon''
     else if na_drain n then ''drain''
     else if \<not> na_accept_service_deploy n then ''accept_service_deploy=false''
     else if require_control_addr \<and> strip (na_control_addr n) = [] then ''missing_control_addr''
     else if require_credit \<and> na_credit n \<le> 0 then ''no_credit''
     else [])"

definition is_admitted_node :: "node_admission \<Rightarrow> bool \<Rightarrow> bool \<Rightarrow> bool" where
  "is_admitted_node n require_control_addr require_credit \<longleftrightarrow>
     deploy_candidate_block_reason n require_control_addr require_credit = []"

section \<open>Routes\<close>

record service_route =
  rt_service_name :: string
  rt_service_id :: string
  rt_status :: int
  rt_node_instance_id :: string
  rt_node_id :: string
  rt_control_addr :: string
  rt_node_healthy :: bool
  rt_worker_count :: int
  rt_alive_workers :: int
  rt_in_flight :: int
  rt_http_base_url :: string
  rt_predicted_busy :: rat
  rt_node_drain :: bool
  rt_blocked_methods :: "string list"

text \<open>\<open>node_instance_id or node_id or control_addr\<close>; the key of the client module is stripped.\<close>

definition route_instance :: "service_route \<Rightarrow> string" where
  "route_instance r = str_or (rt_node_instance_id r) (str_or (rt_node_id r) (rt_control_addr r))"

definition node_instance_key_from_route :: "service_route \<Rightarrow> string" where
  "node_instance_key_from_route r = strip (route_instance r)"

definition route_predicted_busy :: "service_route \<Rightarrow> rat" where
  "route_predicted_busy r =
    (if 0 < rt_predicted_busy r then rt_predicted_busy r
     else of_int (max 0 (rt_in_flight r)) / of_int (max 1 (rt_alive_workers r)))"

type_synonym busy_key = "rat \<times> int \<times> int \<times> string \<times> string"
type_synonym inflight_key = "int \<times> int \<times> string \<times> string"

definition busy_route_key :: "service_route \<Rightarrow> busy_key" where
  "busy_route_key r = (route_predicted_busy r, rt_in_flight r, - rt_alive_workers r,
     node_instance_key_from_route r, rt_service_id r)"

definition inflight_route_key :: "service_route \<Rightarrow> inflight_key" where
  "inflight_route_key r = (rt_in_flight r, - rt_alive_workers r, node_instance_key_from_route r, rt_service_id r)"

definition dependency_method_blocked :: "string list \<Rightarrow> string \<Rightarrow> bool" where
  "dependency_method_blocked method_failures method \<longleftrightarrow>
     strip method \<noteq> [] \<and> strip method \<in> set method_failures"

text \<open>The routes a call may use, before breakers are asked.\<close>

definition call_candidates :: "string list \<Rightarrow> service_route list \<Rightarrow> service_route list" where
  "call_candidates excluded routes =
     filter (\<lambda>r. is_call_route (rt_node_healthy r) (rt_status r) (rt_node_drain r) \<and>
       rt_http_base_url r \<noteq> [] \<and> rt_service_id r \<notin> set excluded) routes"

section \<open>The book of a cache\<close>

type_synonym route_key = "string \<times> string"

record route_book =
  bk_breakers :: "(route_key, breaker) dict"
  bk_inflight :: "(route_key, int) dict"

definition empty_book :: route_book where
  "empty_book = \<lparr>bk_breakers = [], bk_inflight = []\<rparr>"

definition breaker_key :: "service_route \<Rightarrow> route_key" where
  "breaker_key r = (rt_service_name r, rt_service_id r)"

definition inflight_key_of :: "service_route \<Rightarrow> route_key" where
  "inflight_key_of r = (strip (rt_service_name r), strip (rt_service_id r))"

definition inflight_count :: "route_book \<Rightarrow> route_key \<Rightarrow> int" where
  "inflight_count b k = dget_or (bk_inflight b) k 0"

definition reserve_route :: "service_route \<Rightarrow> route_book \<Rightarrow> route_book" where
  "reserve_route r b =
    (let k = inflight_key_of r in
     if fst k = [] \<or> snd k = [] then b
     else b\<lparr>bk_inflight := dset k (inflight_count b k + 1) (bk_inflight b)\<rparr>)"

definition release_route :: "service_route \<Rightarrow> route_book \<Rightarrow> route_book" where
  "release_route r b =
    (let k = inflight_key_of r in
     if fst k = [] \<or> snd k = [] then b
     else if inflight_count b k \<le> 1 then b\<lparr>bk_inflight := dpop k (bk_inflight b)\<rparr>
     else b\<lparr>bk_inflight := dset k (inflight_count b k - 1) (bk_inflight b)\<rparr>)"

definition route_available :: "instant \<Rightarrow> route_key \<Rightarrow> route_book \<Rightarrow> route_book \<times> bool" where
  "route_available now k b =
    (case dget (bk_breakers b) k of
       None \<Rightarrow> (b, True)
     | Some s \<Rightarrow> (b\<lparr>bk_breakers := dset k (fst (candidate_allowed now s)) (bk_breakers b)\<rparr>, snd (candidate_allowed now s)))"

text \<open>The availability test of a comprehension over the candidates, in their order.\<close>

fun available_routes :: "string \<Rightarrow> instant \<Rightarrow> service_route list \<Rightarrow> route_book \<Rightarrow> route_book \<times> service_route list" where
  "available_routes name now [] b = (b, [])"
| "available_routes name now (r # rs) b =
    (case route_available now (name, rt_service_id r) b of
       (b1, ok) \<Rightarrow> (case available_routes name now rs b1 of
         (b2, oks) \<Rightarrow> (b2, if ok then r # oks else oks)))"

definition probe_route :: "instant \<Rightarrow> service_route \<Rightarrow> route_book \<Rightarrow> route_book \<times> bool" where
  "probe_route now r b =
    (let s = dget_or (bk_breakers b) (breaker_key r) fresh_breaker; (s', ok) = before_probe now s
     in (b\<lparr>bk_breakers := dset (breaker_key r) s' (bk_breakers b)\<rparr>, ok))"

definition mark_success :: "service_route \<Rightarrow> route_book \<Rightarrow> route_book" where
  "mark_success r b =
     release_route r (case dget (bk_breakers b) (breaker_key r) of
       None \<Rightarrow> b
     | Some s \<Rightarrow> b\<lparr>bk_breakers := dset (breaker_key r) (mark_candidate_success s) (bk_breakers b)\<rparr>)"

text \<open>The threshold is the literal 1 of the code; when the breaker raises, the release is skipped.\<close>

definition mark_failure :: "rat \<Rightarrow> string \<Rightarrow> instant \<Rightarrow> service_route \<Rightarrow> route_book \<Rightarrow> route_book \<times> py_error option" where
  "mark_failure open_sec error now r b =
    (let s = dget_or (bk_breakers b) (breaker_key r) fresh_breaker;
         (s', exc) = mark_candidate_failure ROUTE_UNAVAILABLE error 1 open_sec open_sec now s;
         b1 = b\<lparr>bk_breakers := dset (breaker_key r) s' (bk_breakers b)\<rparr>
     in case exc of Some e \<Rightarrow> (b1, Some e) | None \<Rightarrow> (release_route r b1, None))"

text \<open>After a refresh only the routes of the answer keep their entries; an empty answer keeps none.\<close>

definition drop_stale :: "string \<Rightarrow> string list \<Rightarrow> (route_key, 'v) dict \<Rightarrow> (route_key, 'v) dict" where
  "drop_stale name valid_ids d =
     dpops (filter (\<lambda>k. fst k = name \<and> (valid_ids = [] \<or> snd k \<notin> set valid_ids)) (dkeys d)) d"

definition drop_stale_book :: "string \<Rightarrow> string list \<Rightarrow> route_book \<Rightarrow> route_book" where
  "drop_stale_book name valid_ids b =
     b\<lparr>bk_breakers := drop_stale name valid_ids (bk_breakers b), bk_inflight := drop_stale name valid_ids (bk_inflight b)\<rparr>"

section \<open>Candidates for the scheduler\<close>

text \<open>\<open>xs[idx % len(xs)]\<close> of the rotations over candidates, a list that is not empty.\<close>

definition next_of :: "'a list \<Rightarrow> int \<Rightarrow> 'a" where
  "next_of xs idx = xs ! nat (idx mod int (length xs))"

definition route_profile :: "string \<Rightarrow> strategy_profile option \<Rightarrow> strategy_profile" where
  "route_profile prefix profile =
    (let p = (case profile of None \<Rightarrow> SERVICE_DEFAULT | Some p \<Rightarrow> p) in
     \<lparr>sp_name = prefix @ sp_name p,
      sp_weights = dict_of ((''local_inflight'', 8) # sp_weights p),
      sp_tie_break = sp_tie_break p, sp_failure_penalty = sp_failure_penalty p\<rparr>)"

definition recent_failures_of :: "route_book \<Rightarrow> string \<Rightarrow> service_route \<Rightarrow> int" where
  "recent_failures_of b name r =
    (case dget (bk_breakers b) (name, rt_service_id r) of None \<Rightarrow> 0 | Some s \<Rightarrow> br_consecutive_failures s)"

definition route_candidate :: "(service_route \<Rightarrow> string) \<Rightarrow> route_book \<Rightarrow> string \<Rightarrow> service_route \<Rightarrow> scheduler_candidate" where
  "route_candidate instance_of b name r =
     \<lparr>cand_id = rt_service_id r, cand_kind = ''service'', cand_node_id = rt_node_id r,
      cand_node_instance_id = instance_of r, cand_healthy = rt_node_healthy r,
      cand_schedulable = (rt_http_base_url r \<noteq> []), cand_drain = rt_node_drain r,
      cand_breaker_state = (case dget (bk_breakers b) (name, rt_service_id r) of
        None \<Rightarrow> ''closed'' | Some s \<Rightarrow> br_state s),
      cand_predicted_busy = rt_predicted_busy r, cand_node_inflight = rt_in_flight r,
      cand_alive_workers = max 1 (num_or (rt_alive_workers r) 1),
      cand_worker_capacity = max 1 (num_or (rt_worker_count r) 1), cand_credit = 1,
      cand_recent_failures = recent_failures_of b name r, cand_metadata = []\<rparr>"

definition route_state :: "route_book \<Rightarrow> string \<Rightarrow> service_route list \<Rightarrow> scheduler_state" where
  "route_state b name rs =
     \<lparr>local_inflight_by_candidate = dict_of (map (\<lambda>r. (rt_service_id r, inflight_count b (name, rt_service_id r))) rs),
      disabled_candidates = [],
      recent_submit_failures = dict_of (map (\<lambda>r. (rt_service_id r, recent_failures_of b name r)) rs)\<rparr>"

section \<open>The book and the breaker contract\<close>

definition route_free :: "instant \<Rightarrow> route_book \<Rightarrow> route_key \<Rightarrow> bool" where
  "route_free now b k \<longleftrightarrow> cb.free_at now (bk_breakers b) k"

lemma route_free_code [code]:
  "route_free now b k = (case dget (bk_breakers b) k of None \<Rightarrow> True | Some s \<Rightarrow> \<not> blocked now s)"
  by (simp add: route_free_def cb.free_at_def)

lemma available_scan:
  "available_routes name now rs b =
    (b\<lparr>bk_breakers := fst (cb.scan now (map (\<lambda>r. (name, rt_service_id r)) rs) (bk_breakers b))\<rparr>,
     filter (\<lambda>r. route_free now b (name, rt_service_id r)) rs)"
proof (induction rs arbitrary: b)
  case Nil
  show ?case by simp
next
  case (Cons r rs)
  let ?k = "(name, rt_service_id r)"
  show ?case
  proof (cases "dget (bk_breakers b) ?k")
    case None
    then show ?thesis using Cons [of b]
      by (simp add: route_available_def route_free_def cb.free_at_def case_prod_beta)
  next
    case (Some s)
    let ?b = "b\<lparr>bk_breakers := dset ?k (fst (candidate_allowed now s)) (bk_breakers b)\<rparr>"
    have "route_free now ?b k = route_free now b k" for k
      using cb.free_at_admit [OF Some order_refl] by (simp add: route_free_def)
    moreover have "route_free now b ?k = snd (candidate_allowed now s)"
      using Some by (simp add: route_free_def cb.free_at_def cb.admit_iff)
    ultimately show ?thesis using Cons [of ?b] Some by (simp add: route_available_def case_prod_beta)
  qed
qed

lemma available_free:
  "now \<le> t \<Longrightarrow> route_free t (fst (available_routes name now rs b)) k = route_free t b k"
  unfolding available_scan by (simp add: route_free_def cb.scan_keeps)

lemma available_inflight [frame_simps]:
  "bk_inflight (fst (available_routes name now rs b)) = bk_inflight b"
  by (simp add: available_scan)

lemma reserve_sels [frame_simps]:
  "bk_breakers (reserve_route r b) = bk_breakers b" "bk_breakers (release_route r b) = bk_breakers b"
  "route_free t (reserve_route r b) k = route_free t b k" "route_free t (release_route r b) k = route_free t b k"
  by (simp_all add: reserve_route_def release_route_def route_free_def Let_def)

lemma probe_inflight [frame_simps]:
  "bk_inflight (fst (probe_route now r b)) = bk_inflight b"
  "inflight_count (fst (probe_route now r b)) k = inflight_count b k"
  by (simp_all add: probe_route_def Let_def case_prod_beta inflight_count_def)

lemma probe_route_iff: "snd (probe_route now r b) \<longleftrightarrow> route_free now b (breaker_key r)"
  by (auto simp: probe_route_def Let_def case_prod_beta route_free_def cb.free_at_def cb.probe_iff dget_or_def
      cb.fresh_open split: option.split)

definition counted :: "service_route \<Rightarrow> bool" where
  "counted r \<longleftrightarrow> fst (inflight_key_of r) \<noteq> [] \<and> snd (inflight_key_of r) \<noteq> []"

lemma reserve_count: "inflight_count (reserve_route r b) k =
    inflight_count b k + (if counted r \<and> k = inflight_key_of r then 1 else 0)"
  by (simp add: reserve_route_def Let_def counted_def inflight_count_def dget_or_def dict_simps)

lemma release_count: "inflight_count (release_route r b) k =
    (if counted r \<and> k = inflight_key_of r then max 0 (inflight_count b k - 1) else inflight_count b k)"
  if "0 \<le> inflight_count b (inflight_key_of r)"
  using that by (auto simp: release_route_def Let_def counted_def inflight_count_def dget_or_def dict_simps)

text \<open>Counts are positive where they are stored.\<close>

definition known_state :: "breaker \<Rightarrow> bool" where
  "known_state s \<longleftrightarrow> br_state s \<in> {''closed'', ''open'', ''half_open''}"

definition book_ok :: "route_book \<Rightarrow> bool" where
  "book_ok b \<longleftrightarrow> dwf (bk_inflight b) \<and> dwf (bk_breakers b) \<and>
     (\<forall>k n. dget (bk_inflight b) k = Some n \<longrightarrow> 1 \<le> n) \<and>
     (\<forall>k s. dget (bk_breakers b) k = Some s \<longrightarrow> known_state s)"

lemma known_state_ops [invs]:
  "known_state fresh_breaker" "known_state (mark_candidate_success s)"
  "known_state s \<Longrightarrow> known_state (fst (candidate_allowed now s))"
  "known_state s \<Longrightarrow> known_state (fst (before_probe now s))"
  "known_state s \<Longrightarrow> known_state (fst (mark_candidate_failure kind e thr c m now s))"
proof -
  show "known_state fresh_breaker" "known_state (mark_candidate_success s)"
    by (simp_all add: known_state_def fresh_breaker_def mark_candidate_success_def)
  have allowed: "known_state (fst (candidate_allowed now s))" if "known_state s" for s
    using that by (auto simp: known_state_def candidate_allowed_def Let_def)
  then show "known_state s \<Longrightarrow> known_state (fst (candidate_allowed now s))" .
  show "known_state (fst (before_probe now s))" if "known_state s"
    using allowed [OF that] by (auto simp: before_probe_def case_prod_beta known_state_def)
  show "known_state (fst (mark_candidate_failure kind e thr c m now s))" if "known_state s"
    using that by (auto simp: mark_candidate_failure_def open_breaker_def Let_def known_state_def split: sum.split)
qed

lemma book_ok_count: "book_ok b \<Longrightarrow> 0 \<le> inflight_count b k"
proof (cases "dget (bk_inflight b) k")
  case (Some n)
  assume "book_ok b"
  then have "1 \<le> n" using Some unfolding book_ok_def by blast
  then show ?thesis using Some by (simp add: inflight_count_def dget_or_def)
qed (simp add: inflight_count_def dget_or_def)

lemma book_ok_empty [invs]: "book_ok empty_book"
  by (simp add: book_ok_def empty_book_def dwf_def)

lemma book_ok_reserve [invs]: "book_ok b \<Longrightarrow> book_ok (reserve_route r b)"
  using book_ok_count [of b "inflight_key_of r"]
  by (auto simp: book_ok_def reserve_route_def Let_def dict_simps)

lemma book_ok_release [invs]: "book_ok b \<Longrightarrow> book_ok (release_route r b)"
  by (auto simp: book_ok_def release_route_def Let_def dict_simps)

lemma drop_stale_get:
  "dget (drop_stale name ids d) k =
    (if fst k = name \<and> (ids = [] \<or> snd k \<notin> set ids) then None else dget d k)"
proof -
  have "dget d k = None" if "k \<notin> set (dkeys d)" using that by (simp add: map_of_eq_None_iff dkeys_def)
  then show ?thesis by (auto simp: drop_stale_def dict_simps)
qed

lemma book_ok_drop [invs]: "book_ok b \<Longrightarrow> book_ok (drop_stale_book name ids b)"
  by (auto simp: book_ok_def drop_stale_book_def drop_stale_get) (simp_all add: drop_stale_def)

lemma book_ok_breakers [invs]:
  "book_ok b \<Longrightarrow> known_state s \<Longrightarrow> book_ok (b\<lparr>bk_breakers := dset k s (bk_breakers b)\<rparr>)"
  by (auto simp: book_ok_def dict_simps)

lemma book_known: "book_ok b \<Longrightarrow> dget (bk_breakers b) k = Some s \<Longrightarrow> known_state s"
  unfolding book_ok_def by blast

lemma book_known_or_fresh: "book_ok b \<Longrightarrow> known_state (dget_or (bk_breakers b) k fresh_breaker)"
  using book_known [of b k] invs(1) known_state_ops(1) by (auto simp: dget_or_def split: option.split)

lemma book_ok_probe [invs]: "book_ok b \<Longrightarrow> book_ok (fst (probe_route now r b))"
  by (simp add: probe_route_def Let_def case_prod_beta book_ok_breakers known_state_ops(4) book_known_or_fresh)

lemma book_ok_available [invs]: "book_ok b \<Longrightarrow> book_ok (fst (available_routes name now rs b))"
proof (induction rs arbitrary: b)
  case (Cons r rs)
  have "book_ok (fst (route_available now (name, rt_service_id r) b))"
    using Cons.prems book_known by (auto simp: route_available_def book_ok_breakers known_state_ops(3) split: option.split)
  then show ?case using Cons.IH by (simp add: case_prod_beta)
qed simp

lemma book_ok_success [invs]: "book_ok b \<Longrightarrow> book_ok (mark_success r b)"
  by (auto simp: mark_success_def book_ok_release book_ok_breakers known_state_ops(2) split: option.split)

lemma book_ok_failure [invs]:
  assumes ok: "book_ok b"
  shows "book_ok (fst (mark_failure open_sec e now r b))"
proof -
  have "book_ok (b\<lparr>bk_breakers := dset (breaker_key r) (fst (mark_candidate_failure ROUTE_UNAVAILABLE e 1 open_sec open_sec now
      (dget_or (bk_breakers b) (breaker_key r) fresh_breaker))) (bk_breakers b)\<rparr>)"
    using ok by (intro book_ok_breakers known_state_ops(5) book_known_or_fresh)
  then show ?thesis
    by (auto simp: mark_failure_def Let_def case_prod_beta book_ok_release split: option.split)
qed

text \<open>A free breaker is not open once its availability was asked.\<close>

lemma available_state:
  assumes "book_ok b" and "r \<in> set (snd (available_routes name now rs b))"
    and "dget (bk_breakers (fst (available_routes name now rs b))) (name, rt_service_id r) = Some s"
  shows "br_state s \<in> {''closed'', ''half_open''}"
proof -
  have settled: "br_state s \<noteq> ''open'' \<or> blocked now s" if "s = fst (candidate_allowed now s0)" for s s0
    using that by (auto simp: candidate_allowed_def blocked_def Let_def)
  have "\<forall>r \<in> set rs. \<forall>s. dget (bk_breakers (fst (available_routes name now rs b))) (name, rt_service_id r) = Some s \<longrightarrow>
      (\<exists>s0. s = fst (candidate_allowed now s0))"
  proof -
    have keep: "\<exists>s0. s = fst (candidate_allowed now s0)"
      if "dget (bk_breakers (fst (available_routes name now rs b))) k = Some s"
        "\<forall>s. dget (bk_breakers b) k = Some s \<longrightarrow> (\<exists>s0. s = fst (candidate_allowed now s0))" for rs b k s
      using that
    proof (induction rs arbitrary: b)
      case (Cons r rs)
      let ?b = "fst (route_available now (name, rt_service_id r) b)"
      have "\<forall>s. dget (bk_breakers ?b) k = Some s \<longrightarrow> (\<exists>s0. s = fst (candidate_allowed now s0))"
        using Cons.prems(2) by (auto simp: route_available_def dict_simps split: option.splits)
      then show ?case using Cons.IH [of ?b] Cons.prems(1) by (simp add: case_prod_beta)
    qed auto
    show ?thesis
    proof (induction rs arbitrary: b)
      case (Cons r rs)
      let ?b = "fst (route_available now (name, rt_service_id r) b)"
      have "\<forall>s. dget (bk_breakers ?b) (name, rt_service_id r) = Some s \<longrightarrow> (\<exists>s0. s = fst (candidate_allowed now s0))"
        by (auto simp: route_available_def dict_simps split: option.splits)
      then have "\<forall>s. dget (bk_breakers (fst (available_routes name now rs ?b))) (name, rt_service_id r) = Some s \<longrightarrow>
          (\<exists>s0. s = fst (candidate_allowed now s0))" using keep by blast
      then show ?case using Cons.IH [of ?b] by (auto simp: case_prod_beta)
    qed simp
  qed
  moreover have r: "r \<in> set rs" "route_free now b (name, rt_service_id r)" using assms(2) by (auto simp: available_scan)
  ultimately obtain s0 where "s = fst (candidate_allowed now s0)" using assms(3) by blast
  moreover have "route_free now (fst (available_routes name now rs b)) (name, rt_service_id r)"
    using r(2) available_free [OF order_refl] by blast
  then have "\<not> blocked now s" using assms(3) by (simp add: route_free_def cb.free_at_def)
  ultimately have "br_state s \<noteq> ''open''" using settled by blast
  moreover have "known_state s" using book_known [OF book_ok_available [OF assms(1)] assms(3)] .
  ultimately show ?thesis by (auto simp: known_state_def)
qed

lemma available_mem:
  "r \<in> set (snd (available_routes name now rs b)) \<longleftrightarrow> r \<in> set rs \<and> route_free now b (name, rt_service_id r)"
  by (auto simp: available_scan)

lemma available_later:
  assumes "book_ok b" and r: "r \<in> set (snd (available_routes name now rs b))"
  shows "route_free t (fst (available_routes name now rs b)) (name, rt_service_id r)"
proof -
  have "route_free now (fst (available_routes name now rs b)) (name, rt_service_id r)"
    using r available_mem available_free [OF order_refl] by blast
  then show ?thesis using available_state [OF assms]
    by (auto simp: route_free_def cb.free_at_def blocked_def split: option.splits)
qed

text \<open>A breaker that was open and is asked after its deadline is half-open from then on.\<close>

lemma scan_domain:
  "dget (bk_breakers (fst (available_routes name now rs b))) k = None \<longleftrightarrow> dget (bk_breakers b) k = None"
proof (induction rs arbitrary: b)
  case (Cons r rs)
  have "dget (bk_breakers (fst (route_available now (name, rt_service_id r) b))) k = None \<longleftrightarrow> dget (bk_breakers b) k = None"
    by (auto simp: route_available_def dict_simps split: option.split)
  then show ?case using Cons.IH by (simp add: case_prod_beta)
qed simp

lemma scan_not_closed:
  assumes "dget (bk_breakers b) k = Some s" and "br_state s \<noteq> ''closed''"
  shows "\<exists>s'. dget (bk_breakers (fst (available_routes name now rs b))) k = Some s' \<and> br_state s' \<noteq> ''closed''"
  using assms
proof (induction rs arbitrary: b s)
  case (Cons r rs)
  have "\<exists>s'. dget (bk_breakers (fst (route_available now (name, rt_service_id r) b))) k = Some s' \<and> br_state s' \<noteq> ''closed''"
    using Cons.prems by (auto simp: route_available_def dict_simps candidate_allowed_def Let_def split: option.split)
  then show ?case using Cons.IH by (force simp: case_prod_beta)
qed auto

lemma available_half_open:
  assumes "book_ok b" and "r \<in> set (snd (available_routes name now rs b))"
    and "dget (bk_breakers b) (name, rt_service_id r) = Some s" and "br_state s \<noteq> ''closed''"
  obtains s' where "dget (bk_breakers (fst (available_routes name now rs b))) (name, rt_service_id r) = Some s'"
    "br_state s' = ''half_open''"
  using scan_not_closed [OF assms(3,4)] available_state [OF assms(1,2)] by blast

text \<open>A granted probe closes a half-open route to everyone else.\<close>

lemma probe_takes:
  assumes "snd (probe_route now r b)" and "dget (bk_breakers b) (breaker_key r) = Some s" and "br_state s = ''half_open''"
  shows "\<not> route_free t (fst (probe_route now r b)) (breaker_key r)"
proof -
  have "blocked t (fst (before_probe now s))"
    using assms by (auto simp: probe_route_def Let_def case_prod_beta dget_or_def before_probe_def
        candidate_allowed_def blocked_def split: if_splits)
  then show ?thesis
    using assms(2) by (simp add: route_free_def cb.free_at_def probe_route_def Let_def case_prod_beta dget_or_def dict_simps)
qed

lemma not_open_candidate:
  assumes call: "is_call_route (rt_node_healthy r) (rt_status r) (rt_node_drain r)" "rt_http_base_url r \<noteq> []"
    and state: "\<forall>s. dget (bk_breakers b) (name, rt_service_id r) = Some s \<longrightarrow> br_state s \<in> {''closed'', ''half_open''}"
  shows "candidate_ok (route_state b name cs) (route_candidate f b name r)"
proof -
  have names: "lower (strip ''closed'') \<noteq> ''open''" "lower (strip ''half_open'') \<noteq> ''open''" by code_simp+
  have "lower (strip (cand_breaker_state (route_candidate f b name r))) \<noteq> ''open''"
  proof (cases "dget (bk_breakers b) (name, rt_service_id r)")
    case None
    then show ?thesis using names(1) by (simp add: route_candidate_def)
  next
    case (Some s)
    then have "br_state s = ''closed'' \<or> br_state s = ''half_open''" using state by simp
    then show ?thesis using names Some by (auto simp: route_candidate_def)
  qed
  then show ?thesis using call
    by (simp add: candidate_ok_def is_call_route_def) (simp add: route_candidate_def route_state_def)
qed

lemma usable_candidate:
  assumes "book_ok b" and "r \<in> set (snd (available_routes name now rs b))"
    and "is_call_route (rt_node_healthy r) (rt_status r) (rt_node_drain r)" "rt_http_base_url r \<noteq> []"
    and "b' = fst (available_routes name now rs b)"
  shows "candidate_ok (route_state b' name cs) (route_candidate f b' name r)"
  using not_open_candidate [OF assms(3,4)] available_state [OF assms(1,2)] assms(5) by blast

text \<open>The routes left to a caller: those whose breaker is free.\<close>

definition usable_routes :: "string \<Rightarrow> instant \<Rightarrow> route_book \<Rightarrow> service_route list \<Rightarrow> service_route list" where
  "usable_routes name now b candidates = filter (\<lambda>r. route_free now b (name, rt_service_id r)) candidates"

definition probing_strategy :: "string \<Rightarrow> bool" where
  "probing_strategy strategy \<longleftrightarrow> fst (resolve_service_strategy strategy) \<notin> {''round_robin'', ''least_inflight''}"

lemma next_of_mem: "xs \<noteq> [] \<Longrightarrow> next_of xs idx \<in> set xs"
  unfolding next_of_def by (rule nth_mem) (simp add: nat_less_iff)

lemma tier_mem:
  assumes "rs \<noteq> []"
  shows "next_of (filter (\<lambda>r. f r = f (hd (sort_key f rs))) (sort_key f rs)) idx \<in> set rs"
proof -
  let ?o = "sort_key f rs"
  have "hd ?o \<in> set (filter (\<lambda>r. f r = f (hd ?o)) ?o)" using assms hd_in_set [of ?o] by simp
  then have "filter (\<lambda>r. f r = f (hd ?o)) ?o \<noteq> []" by (metis empty_iff empty_set)
  then have "next_of (filter (\<lambda>r. f r = f (hd ?o)) ?o) idx \<in> set (filter (\<lambda>r. f r = f (hd ?o)) ?o)"
    by (rule next_of_mem)
  then show ?thesis by simp
qed

end
