(* ===== verification/Urls.thy ===== *)
theory Urls
  imports Prelude
begin

text \<open>
  What the control plane uses of \<open>urllib.parse\<close> on ASCII text: the scheme and network location that
  \<open>urlsplit\<close> cuts out, and \<open>hostname\<close> and \<open>port\<close> of the result. Of the check of bracketed hosts only
  the balance of the brackets is written out. On top of it the endpoints by which the info centre
  identifies a node (\<open>controlplane/infocenter_state.py\<close>).
\<close>

section \<open>Cutting strings\<close>

text \<open>\<open>s.partition(ch)\<close> and \<open>s.rpartition(ch)\<close>; where \<open>ch\<close> is missing the part before is all of \<open>s\<close> in
  the first and the part after in the second.\<close>

definition before_first :: "char \<Rightarrow> string \<Rightarrow> string" where
  "before_first ch s = takeWhile (\<lambda>c. c \<noteq> ch) s"

definition after_first :: "char \<Rightarrow> string \<Rightarrow> string" where
  "after_first ch s = drop 1 (dropWhile (\<lambda>c. c \<noteq> ch) s)"

definition after_last :: "char \<Rightarrow> string \<Rightarrow> string" where
  "after_last ch s = rev (takeWhile (\<lambda>c. c \<noteq> ch) (rev s))"

definition before_last :: "char \<Rightarrow> string \<Rightarrow> string" where
  "before_last ch s = rev (drop 1 (dropWhile (\<lambda>c. c \<noteq> ch) (rev s)))"

definition rstrip_char :: "char \<Rightarrow> string \<Rightarrow> string" where
  "rstrip_char ch s = rev (dropWhile (\<lambda>c. c = ch) (rev s))"

section \<open>urlsplit\<close>

definition scheme_char :: "char \<Rightarrow> bool" where
  "scheme_char ch \<longleftrightarrow> (let n = (of_char ch :: nat) in
     (65 \<le> n \<and> n \<le> 90) \<or> (97 \<le> n \<and> n \<le> 122) \<or> (48 \<le> n \<and> n \<le> 57) \<or> ch \<in> set ''+-.'')"

definition ascii_letter :: "char \<Rightarrow> bool" where
  "ascii_letter ch \<longleftrightarrow> (let n = (of_char ch :: nat) in (65 \<le> n \<and> n \<le> 90) \<or> (97 \<le> n \<and> n \<le> 122))"

definition split_scheme :: "string \<Rightarrow> string \<times> string" where
  "split_scheme url =
    (let scheme = takeWhile (\<lambda>ch. ch \<noteq> CHR '':'') url in
     if scheme \<noteq> [] \<and> length scheme < length url \<and> ascii_letter (hd scheme) \<and> (\<forall>ch \<in> set scheme. scheme_char ch)
     then (lower scheme, drop (Suc (length scheme)) url) else ([], url))"

definition split_netloc :: "string \<Rightarrow> string" where
  "split_netloc rest = (if take 2 rest = ''//'' then takeWhile (\<lambda>ch. ch \<notin> set ''/?#'') (drop 2 rest) else [])"

text \<open>Leading control characters go, as do tabs and line ends anywhere.\<close>

definition url_split :: "string \<Rightarrow> py_error + (string \<times> string)" where
  "url_split text =
    (let url = filter (\<lambda>ch. (of_char ch :: nat) \<notin> {9, 10, 13}) (dropWhile (\<lambda>ch. (of_char ch :: nat) \<le> 32) text);
         (scheme, rest) = split_scheme url; netloc = split_netloc rest
     in if (CHR ''['' \<in> set netloc) \<noteq> (CHR '']'' \<in> set netloc) then Inl (ValueError ''Invalid IPv6 URL'')
        else Inr (scheme, netloc))"

definition host_info :: "string \<Rightarrow> string \<times> string" where
  "host_info netloc =
    (let info = after_last (CHR ''@'') netloc in
     if CHR ''['' \<in> set info
     then let bracketed = after_first (CHR ''['') info
       in (before_first (CHR '']'') bracketed, after_first (CHR '':'') (after_first (CHR '']'') bracketed))
     else (before_first (CHR '':'') info, after_first (CHR '':'') info))"

text \<open>The zone of a scoped address keeps its case.\<close>

definition url_hostname :: "string \<Rightarrow> string" where
  "url_hostname netloc =
    (let host = fst (host_info netloc)
     in lower (before_first (CHR ''%'') host) @ dropWhile (\<lambda>c. c \<noteq> CHR ''%'') host)"

text \<open>A missing port is 0, which its only caller cannot tell apart.\<close>

definition url_port :: "string \<Rightarrow> py_error + int" where
  "url_port netloc =
    (let port = snd (host_info netloc); n = foldl (\<lambda>n c. 10 * n + digit_value c) 0 port in
     if port = [] then Inr 0
     else if \<not> (\<forall>c \<in> set port. is_digit c) then Inl (ValueError ''Port could not be cast to integer value'')
     else if 65535 < n then Inl (ValueError ''Port out of range 0-65535'')
     else Inr n)"

section \<open>Endpoints of nodes\<close>

type_synonym endpoint = "string \<times> int"

definition endpoint_of_addr :: "string \<Rightarrow> endpoint" where
  "endpoint_of_addr text =
    (let addr = before_first (CHR ''/'') text in
     if CHR '':'' \<notin> set addr then ([], 0)
     else case parse_int (after_last (CHR '':'') addr) of
       None \<Rightarrow> ([], 0)
     | Some port \<Rightarrow> (lower (strip_by (\<lambda>c. c \<in> set ''[]'') (before_last (CHR '':'') addr)), port))"

definition endpoint_from_url_or_addr :: "string \<Rightarrow> py_error + endpoint" where
  "endpoint_from_url_or_addr v =
    (let text = rstrip_char (CHR ''/'') (strip v) in
     if text = [] then Inr ([], 0)
     else ebind (url_split text) (\<lambda>(scheme, netloc).
       if url_hostname netloc = [] then Inr (endpoint_of_addr text)
       else ebind (url_port netloc) (\<lambda>port.
         if port \<noteq> 0 then Inr (lower (strip (url_hostname netloc)), port) else Inr (endpoint_of_addr text))))"

definition normalize_node_profile_key :: "string \<Rightarrow> py_error + string" where
  "normalize_node_profile_key v =
    ebind (endpoint_from_url_or_addr v) (\<lambda>(host, port).
    Inr (if host = [] \<or> port \<le> 0 then [] else host @ '':'' @ str_int port))"

definition wildcard_hosts :: "string list" where
  "wildcard_hosts = [[], ''0.0.0.0'', ''::'', ''[::]'']"

definition endpoint_matches :: "endpoint \<Rightarrow> endpoint \<Rightarrow> bool" where
  "endpoint_matches left right \<longleftrightarrow>
     \<not> (snd left \<le> 0 \<or> snd right \<le> 0 \<or> snd left \<noteq> snd right) \<and>
     (fst left \<in> set wildcard_hosts \<or> fst right \<in> set wildcard_hosts \<or> fst left = fst right)"

lemma profile_key_blank [simp]: "normalize_node_profile_key [] = Inr []"
  by (simp add: normalize_node_profile_key_def endpoint_from_url_or_addr_def rstrip_char_def Let_def)

lemma profile_key_strip: "normalize_node_profile_key (strip v) = normalize_node_profile_key v"
  by (simp add: normalize_node_profile_key_def endpoint_from_url_or_addr_def)

end
