(* ===== verification/DiscoveryCache.thy ===== *)
theory DiscoveryCache
  imports Routes Urls
begin

text \<open>
  The route cache of a discovery client, \<open>controlplane/discovery_route_cache.py\<close>: snapshots of
  routes per service, refreshed by one caller at a time, and the choice of a route, which the code
  makes under its lock. Every section under the lock is one operation; the answer of the info
  centre is an argument.
\<close>

section \<open>State\<close>

record route_snapshot =
  sn_routes :: "service_route list"
  sn_refreshed_at :: instant

record call_observation =
  co_route_attempt_count :: int
  co_failed_route_count :: int
  co_last_failed_route_id :: string
  co_selected_route_id :: string
  co_updated_at :: instant

record discovery_cache =
  dc_snapshots :: "(string, route_snapshot) dict"
  dc_book :: route_book
  dc_last_call :: "(string, call_observation) dict"
  dc_route_index :: "(string, int) dict"
  dc_refreshing :: "string list"
  dc_refresh_interval :: rat
  dc_open_sec :: rat

definition new_discovery_cache :: "rat \<Rightarrow> rat \<Rightarrow> discovery_cache" where
  "new_discovery_cache refresh_interval_sec open_sec =
    \<lparr>dc_snapshots = [], dc_book = empty_book, dc_last_call = [], dc_route_index = [], dc_refreshing = [],
     dc_refresh_interval = max (1 / 5) refresh_interval_sec, dc_open_sec = max (1 / 10) open_sec\<rparr>"

section \<open>Refreshing\<close>

definition snapshot_fresh :: "rat \<Rightarrow> instant \<Rightarrow> route_snapshot option \<Rightarrow> bool" where
  "snapshot_fresh refresh_interval now snapshot =
    (case snapshot of None \<Rightarrow> False | Some sn \<Rightarrow> max 0 (now - sn_refreshed_at sn) < refresh_interval)"

datatype refresh_role = Fresh "service_route list" | Owner | Waiter "instant option"

definition refresh_begin :: "string \<Rightarrow> bool \<Rightarrow> instant \<Rightarrow> discovery_cache \<Rightarrow> discovery_cache \<times> refresh_role" where
  "refresh_begin name force now c =
    (let snapshot = dget (dc_snapshots c) name in
     case (if \<not> force \<and> snapshot_fresh (dc_refresh_interval c) now snapshot then snapshot else None) of
       Some sn \<Rightarrow> (c, Fresh (sn_routes sn))
     | None \<Rightarrow>
         if name \<in> set (dc_refreshing c) then (c, Waiter (map_option sn_refreshed_at snapshot))
         else (c\<lparr>dc_refreshing := name # dc_refreshing c\<rparr>, Owner))"

text \<open>A caller that found a refresh under way; \<open>finished\<close> says that its event was set in time.\<close>

definition refresh_wait :: "string \<Rightarrow> instant option \<Rightarrow> bool \<Rightarrow> discovery_cache \<Rightarrow> py_error + service_route list" where
  "refresh_wait name previous finished c =
    (if \<not> finished then Inl (TimeoutError ''route refresh timed out'')
     else case dget (dc_snapshots c) name of
       Some sn \<Rightarrow> if Some (sn_refreshed_at sn) \<noteq> previous then Inr (sn_routes sn)
         else Inl (RuntimeError ''route refresh failed to update snapshot'')
     | None \<Rightarrow> Inl (RuntimeError ''route refresh failed to update snapshot''))"

definition refresh_finish ::
  "string \<Rightarrow> py_error + service_route list \<Rightarrow> instant \<Rightarrow> discovery_cache \<Rightarrow> discovery_cache \<times> (py_error + service_route list)" where
  "refresh_finish name answer now c =
    (case answer of
       Inl e \<Rightarrow> (c\<lparr>dc_refreshing := removeAll name (dc_refreshing c)\<rparr>, Inl e)
     | Inr rows \<Rightarrow>
         (c\<lparr>dc_snapshots := dset name \<lparr>sn_routes = rows, sn_refreshed_at = now\<rparr> (dc_snapshots c),
            dc_book := drop_stale_book name (map rt_service_id rows) (dc_book c),
            dc_refreshing := removeAll name (dc_refreshing c)\<rparr>, Inr rows))"

definition routes_for_method :: "string \<Rightarrow> service_route list \<Rightarrow> service_route list" where
  "routes_for_method method routes =
    (if strip method = [] then routes
     else filter (\<lambda>r. \<not> dependency_method_blocked (rt_blocked_methods r) (strip method)) routes)"

definition record_call_observation :: "string \<Rightarrow> call_observation \<Rightarrow> discovery_cache \<Rightarrow> discovery_cache" where
  "record_call_observation service_name obs c =
    (if strip service_name = [] then c else c\<lparr>dc_last_call := dset (strip service_name) obs (dc_last_call c)\<rparr>)"

section \<open>Endpoints claimed by several nodes\<close>

definition http_endpoint_key :: "string \<Rightarrow> py_error + string" where
  "http_endpoint_key http_base_url =
    ebind (url_split (strip http_base_url)) (\<lambda>(scheme, netloc).
    Inr (if scheme = [] \<or> netloc = [] then [] else lower scheme @ ''://'' @ lower netloc))"

fun endpoint_owners :: "service_route list \<Rightarrow> py_error + (string \<times> string) list" where
  "endpoint_owners [] = Inr []"
| "endpoint_owners (r # rs) =
    ebind (http_endpoint_key (rt_http_base_url r)) (\<lambda>key.
    ebind (endpoint_owners rs) (\<lambda>owners.
    Inr (if key = [] \<or> node_instance_key_from_route r = [] then owners
         else (key, node_instance_key_from_route r) # owners)))"

definition conflicting_http_endpoint_keys :: "service_route list \<Rightarrow> py_error + string list" where
  "conflicting_http_endpoint_keys routes =
    ebind (endpoint_owners routes) (\<lambda>owners.
    Inr (filter (\<lambda>key. 1 < length (remdups (map snd (filter (\<lambda>(k, _). k = key) owners))))
      (remdups (map fst owners))))"

definition unconflicted :: "service_route list \<Rightarrow> py_error + service_route list" where
  "unconflicted candidates =
    ebind (conflicting_http_endpoint_keys candidates) (\<lambda>conflicts.
    Inr (filter (\<lambda>r. case http_endpoint_key (rt_http_base_url r) of Inl _ \<Rightarrow> True | Inr key \<Rightarrow> key \<notin> set conflicts)
      candidates))"

section \<open>Choosing a route\<close>

definition round_robin_route :: "int \<Rightarrow> service_route list \<Rightarrow> service_route" where
  "round_robin_route idx rs = next_of (sort_key (\<lambda>r. (node_instance_key_from_route r, rt_service_id r)) rs) idx"

definition least_inflight_route :: "route_book \<Rightarrow> string \<Rightarrow> int \<Rightarrow> service_route list \<Rightarrow> service_route" where
  "least_inflight_route b name idx rs =
    (let key = (\<lambda>r. (inflight_count b (name, strip (rt_service_id r)), inflight_route_key r));
         ordered = sort_key key rs
     in next_of (filter (\<lambda>r. key r = key (hd ordered)) ordered) idx)"

definition least_busy_route :: "int \<Rightarrow> service_route list \<Rightarrow> service_route" where
  "least_busy_route idx rs =
    (let ordered = sort_key busy_route_key rs
     in next_of (filter (\<lambda>r. busy_route_key r = busy_route_key (hd ordered)) ordered) idx)"

text \<open>The loop over the candidates with the selected id: the first whose probe is granted.\<close>

fun probe_selected :: "instant \<Rightarrow> string \<Rightarrow> service_route list \<Rightarrow> route_book \<Rightarrow> route_book \<times> service_route option" where
  "probe_selected now sel [] b = (b, None)"
| "probe_selected now sel (r # rs) b =
    (if rt_service_id r = sel
     then case probe_route now r b of
       (b1, True) \<Rightarrow> (b1, Some r)
     | (b1, False) \<Rightarrow> probe_selected now sel rs b1
     else probe_selected now sel rs b)"

text \<open>The choice among the available candidates; \<open>now\<close> is the clock the probe reads.\<close>

definition choose_route ::
  "string \<Rightarrow> string \<Rightarrow> strategy_profile option \<Rightarrow> int \<Rightarrow> instant \<Rightarrow> service_route list \<Rightarrow> route_book
    \<Rightarrow> route_book \<times> (py_error + service_route)" where
  "choose_route name strategy profile idx now candidates b =
    (if strategy = ''round_robin''
     then let r = round_robin_route idx candidates in (reserve_route r b, Inr r)
     else if strategy = ''least_inflight''
     then let r = least_inflight_route b name idx candidates in (reserve_route r b, Inr r)
     else
       case select_one_candidate (map (route_candidate node_instance_key_from_route b name) candidates)
         (route_profile ''route_cache_'' profile) (route_state b name candidates) idx of
         Inl e \<Rightarrow> (b, Inl e)
       | Inr selected \<Rightarrow>
           (case probe_selected now (cand_id selected) candidates b of
              (b1, Some r) \<Rightarrow> (reserve_route r b1, Inr r)
            | (b1, None) \<Rightarrow> let r = least_busy_route idx candidates in (reserve_route r b1, Inr r)))"

definition select_route ::
  "string \<Rightarrow> string list \<Rightarrow> string \<Rightarrow> instant \<Rightarrow> instant \<Rightarrow> service_route list \<Rightarrow> discovery_cache
    \<Rightarrow> discovery_cache \<times> (py_error + service_route)" where
  "select_route service_name excluded strategy now probe_now routes c =
    (let name = strip service_name in
     case unconflicted (call_candidates excluded routes) of
       Inl e \<Rightarrow> (c, Inl e)
     | Inr candidates \<Rightarrow>
         (case available_routes name now candidates (dc_book c) of
            (b, available) \<Rightarrow>
              if available = [] then (c\<lparr>dc_book := b\<rparr>, Inl (RuntimeError ''no available route''))
              else
                let idx = dget_or (dc_route_index c) name 0; (normalized, profile) = resolve_service_strategy strategy;
                    (b', res) = choose_route name normalized profile idx probe_now available b
                in (c\<lparr>dc_book := b', dc_route_index := dset name (idx + 1) (dc_route_index c)\<rparr>, res)))"

section \<open>The choice is one of the usable routes\<close>

lemma round_robin_mem: "rs \<noteq> [] \<Longrightarrow> round_robin_route idx rs \<in> set rs"
  using next_of_mem [of "sort_key (\<lambda>r. (node_instance_key_from_route r, rt_service_id r)) rs" idx]
  by (simp add: round_robin_route_def)

lemma least_mem:
  "rs \<noteq> [] \<Longrightarrow> least_inflight_route b name idx rs \<in> set rs"
  "rs \<noteq> [] \<Longrightarrow> least_busy_route idx rs \<in> set rs"
  using tier_mem [of rs "\<lambda>r. (inflight_count b (name, strip (rt_service_id r)), inflight_route_key r)" idx]
    tier_mem [of rs busy_route_key idx]
  by (simp_all add: least_inflight_route_def least_busy_route_def Let_def)

lemma probe_selected_first:
  assumes "\<forall>r \<in> set rs. rt_service_name r = name \<and> route_free now b (name, rt_service_id r)"
    and "\<exists>r \<in> set rs. rt_service_id r = sel"
  shows "\<exists>r \<in> set rs. rt_service_id r = sel \<and> probe_selected now sel rs b = (fst (probe_route now r b), Some r)"
  using assms
proof (induction rs)
  case (Cons r rs)
  show ?case
  proof (cases "rt_service_id r = sel")
    case True
    have "snd (probe_route now r b)" using Cons.prems(1) by (simp add: probe_route_iff breaker_key_def)
    then have "probe_selected now sel (r # rs) b = (fst (probe_route now r b), Some r)"
      using True by (cases "probe_route now r b") simp
    then show ?thesis using True by auto
  next
    case False
    then show ?thesis using Cons by auto
  qed
qed simp

lemma unconflicted_subset: "unconflicted rs = Inr cs \<Longrightarrow> set cs \<subseteq> set rs"
  by (auto simp: unconflicted_def ebind_eq_Inr)

lemma choose_route_sound:
  assumes ok: "book_ok b0" and av: "available_routes name now cands b0 = (b, rs)" and ne: "rs \<noteq> []"
    and call: "\<forall>r \<in> set cands. is_call_route (rt_node_healthy r) (rt_status r) (rt_node_drain r) \<and> rt_http_base_url r \<noteq> []"
    and names: "\<forall>r \<in> set cands. rt_service_name r = name"
  shows "\<exists>r \<in> set rs. \<exists>b1. choose_route name strategy profile idx t rs b = (reserve_route r b1, Inr r) \<and>
    (if strategy = ''round_robin'' \<or> strategy = ''least_inflight'' then b1 = b else b1 = fst (probe_route t r b))"
proof (cases "strategy = ''round_robin'' \<or> strategy = ''least_inflight''")
  case True
  then show ?thesis using round_robin_mem [OF ne] least_mem(1) [OF ne] by (auto simp: choose_route_def Let_def)
next
  case False
  have rs: "rs = snd (available_routes name now cands b0)" and bk: "b = fst (available_routes name now cands b0)"
    using av by simp_all
  have free: "\<forall>r \<in> set rs. rt_service_name r = name \<and> route_free t b (name, rt_service_id r)"
    using available_later [OF ok] names available_mem unfolding rs bk by blast
  let ?cs = "map (route_candidate node_instance_key_from_route b name) rs" and ?st = "route_state b name rs"
  let ?p = "route_profile ''route_cache_'' profile"
  have elig: "candidate_ok ?st (route_candidate node_instance_key_from_route b name r)" if "r \<in> set rs" for r
    using usable_candidate [OF ok _ _ _ bk] that call rs available_mem by blast
  obtain r0 where r0: "r0 \<in> set rs" using ne by (cases rs) auto
  have "\<not> is_error (select_one_candidate ?cs ?p ?st idx)"
    by (rule sel.pick_total [OF _ elig [OF r0]]) (use r0 in simp)
  then obtain c where c: "select_one_candidate ?cs ?p ?st idx = Inr c" by (rule not_is_errorE)
  then have "c \<in> set ?cs" using sel.pick_sound by blast
  then have "\<exists>r \<in> set rs. rt_service_id r = cand_id c" by (auto simp: route_candidate_def)
  from probe_selected_first [OF free this] obtain r where r: "r \<in> set rs"
    "probe_selected t (cand_id c) rs b = (fst (probe_route t r b), Some r)" by blast
  then have "choose_route name strategy profile idx t rs b = (reserve_route r (fst (probe_route t r b)), Inr r)"
    using False c by (simp add: choose_route_def)
  then show ?thesis using r(1) False by auto
qed

text \<open>One locked section of \<open>select_route\<close>, with the routes it may hand out.\<close>

lemma unconflicted_calls:
  assumes "unconflicted (call_candidates excluded routes) = Inr cands"
  shows "\<forall>r \<in> set cands. is_call_route (rt_node_healthy r) (rt_status r) (rt_node_drain r) \<and> rt_http_base_url r \<noteq> []"
    and "set cands \<subseteq> set routes"
  using unconflicted_subset [OF assms] by (auto simp: call_candidates_def)

lemma select_route_cases:
  assumes ok: "book_ok (dc_book c)" and names: "\<forall>r \<in> set routes. rt_service_name r = strip service_name"
    and cands: "unconflicted (call_candidates excluded routes) = Inr cands"
    and usable: "usable_routes (strip service_name) now (dc_book c) cands \<noteq> []"
    and sel: "select_route service_name excluded strategy now t routes c = (c', res)"
  obtains r b b1 where
    "r \<in> set (usable_routes (strip service_name) now (dc_book c) cands)"
    "b = fst (available_routes (strip service_name) now cands (dc_book c))"
    "b1 = (if probing_strategy strategy then fst (probe_route t r b) else b)"
    "c' = c\<lparr>dc_book := reserve_route r b1,
       dc_route_index := dset (strip service_name) (dget_or (dc_route_index c) (strip service_name) 0 + 1) (dc_route_index c)\<rparr>"
    "res = Inr r"
proof -
  let ?name = "strip service_name"
  obtain b rs where av: "available_routes ?name now cands (dc_book c) = (b, rs)" by fastforce
  have rs: "rs = usable_routes ?name now (dc_book c) cands"
    using av by (simp add: available_scan usable_routes_def)
  obtain st pr where resolved: "resolve_service_strategy strategy = (st, pr)" by fastforce
  note calls = unconflicted_calls [OF cands]
  have "\<forall>r \<in> set cands. rt_service_name r = ?name" using names calls(2) by blast
  from choose_route_sound [OF ok av usable [folded rs] calls(1) this, of st pr "dget_or (dc_route_index c) ?name 0" t]
  obtain r b1 where r: "r \<in> set rs"
    "choose_route ?name st pr (dget_or (dc_route_index c) ?name 0) t rs b = (reserve_route r b1, Inr r)"
    "if st = ''round_robin'' \<or> st = ''least_inflight'' then b1 = b else b1 = fst (probe_route t r b)"
    by blast
  have "c' = c\<lparr>dc_book := reserve_route r b1,
      dc_route_index := dset ?name (dget_or (dc_route_index c) ?name 0 + 1) (dc_route_index c)\<rparr>" "res = Inr r"
    using sel cands av usable rs resolved r(2) by (simp_all add: select_route_def Let_def)
  moreover have "b1 = (if probing_strategy strategy then fst (probe_route t r b) else b)"
    using r(3) resolved by (auto simp: probing_strategy_def)
  moreover have "b = fst (available_routes ?name now cands (dc_book c))" using av by simp
  ultimately show ?thesis using that r(1) rs by blast
qed

section \<open>What a selection guarantees\<close>

text \<open>C24: Selecting a route fails exactly when every callable route is excluded, claimed by two
  nodes or behind a breaker that refuses; otherwise the route handed out is one of those left, its
  count of calls in flight is one more and no other count changes.\<close>

theorem discovery_select_exact:
  assumes "book_ok (dc_book c)" and "\<forall>r \<in> set routes. rt_service_name r = strip service_name"
    and "unconflicted (call_candidates excluded routes) = Inr cands"
    and "usable = usable_routes (strip service_name) now (dc_book c) cands"
    and "select_route service_name excluded strategy now t routes c = (c', res)"
  shows "book_ok (dc_book c') \<and>
    (if usable = [] then is_error res \<and> (\<forall>k. inflight_count (dc_book c') k = inflight_count (dc_book c) k)
     else \<exists>r \<in> set usable. res = Inr r \<and> (\<forall>k. inflight_count (dc_book c') k =
       inflight_count (dc_book c) k + (if counted r \<and> k = inflight_key_of r then 1 else 0)))"
proof (cases "usable = []")
  case True
  obtain b rs where av: "available_routes (strip service_name) now cands (dc_book c) = (b, rs)" by fastforce
  have b: "b = fst (available_routes (strip service_name) now cands (dc_book c))" using av by simp
  have "rs = []" using True av assms(4) by (simp add: available_scan usable_routes_def)
  then have "c' = c\<lparr>dc_book := b\<rparr>" "is_error res" using assms(3,5) av by (auto simp: select_route_def Let_def)
  moreover have "inflight_count b k = inflight_count (dc_book c) k" for k
    using b by (simp add: inflight_count_def frame_simps)
  moreover have "book_ok b" using book_ok_available [OF assms(1)] b by blast
  ultimately show ?thesis using True by simp
next
  case False
  then have "usable_routes (strip service_name) now (dc_book c) cands \<noteq> []" using assms(4) by simp
  from select_route_cases [OF assms(1-3) this assms(5)] obtain r b b1 where
    r: "r \<in> set usable" and b: "b = fst (available_routes (strip service_name) now cands (dc_book c))"
    and b1: "b1 = (if probing_strategy strategy then fst (probe_route t r b) else b)"
    and sel: "c' = c\<lparr>dc_book := reserve_route r b1,
       dc_route_index := dset (strip service_name) (dget_or (dc_route_index c) (strip service_name) 0 + 1) (dc_route_index c)\<rparr>"
      "res = Inr r" unfolding assms(4) .
  have "book_ok b1" using b1 b book_ok_available [OF assms(1)] book_ok_probe by simp
  moreover have "inflight_count b1 k = inflight_count (dc_book c) k" for k
    using b1 b by (simp add: inflight_count_def frame_simps)
  ultimately show ?thesis using False r sel by (auto simp: reserve_count book_ok_reserve)
qed

text \<open>A route whose breaker is half-open is withheld from everyone else once the default
  strategies hand it out; \<open>round_robin\<close> and \<open>least_inflight\<close> hand it out without taking its probe,
  so that it stays free for any number of further callers.\<close>

theorem discovery_probe_guard:
  assumes "book_ok (dc_book c)" and "\<forall>r \<in> set routes. rt_service_name r = strip service_name"
    and "unconflicted (call_candidates excluded routes) = Inr cands"
    and "select_route service_name excluded strategy now t routes c = (c', Inr r)"
    and "dget (bk_breakers (dc_book c)) (breaker_key r) = Some s" and "br_state s \<noteq> ''closed''"
  shows "route_free u (dc_book c') (breaker_key r) \<longleftrightarrow> \<not> probing_strategy strategy"
proof -
  let ?name = "strip service_name"
  have ne: "usable_routes ?name now (dc_book c) cands \<noteq> []"
    using discovery_select_exact [OF assms(1-3) refl assms(4)] by (auto split: if_splits)
  from select_route_cases [OF assms(1-3) ne assms(4)] obtain q b b1 where
    q: "q \<in> set (usable_routes ?name now (dc_book c) cands)" and b: "b = fst (available_routes ?name now cands (dc_book c))"
    and b1: "b1 = (if probing_strategy strategy then fst (probe_route t q b) else b)"
    and c': "c' = c\<lparr>dc_book := reserve_route q b1,
      dc_route_index := dset ?name (dget_or (dc_route_index c) ?name 0 + 1) (dc_route_index c)\<rparr>" and qr: "Inr r = (Inr q :: py_error + service_route)" .
  then have r: "r \<in> set (usable_routes ?name now (dc_book c) cands)" and q: "q = r" by simp_all
  have av: "r \<in> set (snd (available_routes ?name now cands (dc_book c)))"
    using r by (simp add: available_scan usable_routes_def)
  have key: "breaker_key r = (?name, rt_service_id r)"
    using assms(2) r unconflicted_calls(2) [OF assms(3)] by (auto simp: breaker_key_def usable_routes_def)
  have free: "route_free v b (breaker_key r)" for v using available_later [OF assms(1) av] b key by simp
  obtain s' where s': "dget (bk_breakers b) (breaker_key r) = Some s'" "br_state s' = ''half_open''"
    using available_half_open [OF assms(1) av] assms(5,6) b key by auto
  have "\<not> route_free u (fst (probe_route t r b)) (breaker_key r)"
    by (rule probe_takes [OF _ s']) (simp add: probe_route_iff free)
  then show ?thesis using b1 c' q free by (simp add: frame_simps)
qed

text \<open>A refresh that fails leaves every route, breaker and count of the cache as it was, and
  one that succeeds installs the answer and forgets exactly the service's routes it does not name.\<close>

theorem discovery_refresh_exact:
  assumes "refresh_finish name answer now c = (c', res)"
  shows "res = answer \<and> dc_refreshing c' = removeAll name (dc_refreshing c) \<and>
    (case answer of
       Inl e \<Rightarrow> c' = c\<lparr>dc_refreshing := removeAll name (dc_refreshing c)\<rparr>
     | Inr rows \<Rightarrow>
         dget (dc_snapshots c') name = Some \<lparr>sn_routes = rows, sn_refreshed_at = now\<rparr> \<and>
         (\<forall>k. inflight_count (dc_book c') k =
            (if fst k = name \<and> snd k \<notin> rt_service_id ` set rows then 0 else inflight_count (dc_book c) k)) \<and>
         (\<forall>k. dget (bk_breakers (dc_book c')) k =
            (if fst k = name \<and> snd k \<notin> rt_service_id ` set rows then None else dget (bk_breakers (dc_book c)) k)))"
proof (cases answer)
  case (Inl e)
  then show ?thesis using assms by (auto simp: refresh_finish_def)
next
  case (Inr rows)
  have "(rows = [] \<or> x \<notin> rt_service_id ` set rows) = (x \<notin> rt_service_id ` set rows)" for x by auto
  then show ?thesis using assms Inr
    by (auto simp: refresh_finish_def dict_simps drop_stale_book_def drop_stale_get inflight_count_def dget_or_def)
qed

section \<open>Witnesses\<close>

definition sample_route :: "string \<Rightarrow> string \<Rightarrow> service_route" where
  "sample_route sid url =
    \<lparr>rt_service_name = ''svc'', rt_service_id = sid, rt_status = 2, rt_node_instance_id = ''i'' @ sid, rt_node_id = ''n'' @ sid,
     rt_control_addr = ''a'' @ sid, rt_node_healthy = True, rt_worker_count = 2, rt_alive_workers = 2, rt_in_flight = 0,
     rt_http_base_url = url, rt_predicted_busy = 0, rt_node_drain = False, rt_blocked_methods = []\<rparr>"

definition sample_routes :: "service_route list" where
  "sample_routes = [sample_route ''s1'' ''http://h1'', sample_route ''s2'' ''http://h2'', sample_route ''s3'' ''http://h2'']"

text \<open>The first route has failed; its breaker is open until 5.\<close>

definition sample_cache :: discovery_cache where
  "sample_cache = (new_discovery_cache 3 5)\<lparr>dc_book :=
     fst (mark_failure 5 ''refused'' 0 (sample_route ''s1'' ''http://h1'') empty_book)\<rparr>"

lemma sample_cache_ok: "book_ok (dc_book sample_cache)"
  unfolding sample_cache_def by (simp add: book_ok_failure book_ok_empty)

lemma sample_names: "\<forall>r \<in> set sample_routes. rt_service_name r = strip ''svc''"
  by (simp add: sample_routes_def sample_route_def) code_simp

lemma sample_unconflicted:
  "unconflicted (call_candidates [] sample_routes) = Inr [sample_route ''s1'' ''http://h1'']"
  by code_simp

theorem discovery_select_exact_witness:
  "is_error (snd (select_route ''svc'' [] ''predicted_busy'' 1 1 sample_routes sample_cache)) \<and>
   \<not> is_error (snd (select_route ''svc'' [] ''predicted_busy'' 6 6 sample_routes sample_cache))"
proof -
  note exact = discovery_select_exact [OF sample_cache_ok sample_names sample_unconflicted refl surjective_pairing]
  have "usable_routes (strip ''svc'') 1 (dc_book sample_cache) [sample_route ''s1'' ''http://h1''] = []" by code_simp
  moreover have "usable_routes (strip ''svc'') 6 (dc_book sample_cache) [sample_route ''s1'' ''http://h1''] \<noteq> []" by code_simp
  ultimately show ?thesis using exact [where now = 1 and t = 1 and strategy = "''predicted_busy''"]
    exact [where now = 6 and t = 6 and strategy = "''predicted_busy''"] by auto
qed

theorem discovery_probe_guard_witness:
  "\<not> route_free 7 (dc_book (fst (select_route ''svc'' [] ''predicted_busy'' 6 6 sample_routes sample_cache))) (''svc'', ''s1'') \<and>
   route_free 7 (dc_book (fst (select_route ''svc'' [] ''round_robin'' 6 6 sample_routes sample_cache))) (''svc'', ''s1'')"
proof -
  let ?r = "sample_route ''s1'' ''http://h1''"
  have key: "breaker_key ?r = (''svc'', ''s1'')" by code_simp
  obtain s where s: "dget (bk_breakers (dc_book sample_cache)) (breaker_key ?r) = Some s" "br_state s \<noteq> ''closed''"
  proof
    show "dget (bk_breakers (dc_book sample_cache)) (breaker_key ?r) =
      Some (fst (mark_candidate_failure ROUTE_UNAVAILABLE ''refused'' 1 5 5 0 fresh_breaker))" by code_simp
    show "br_state (fst (mark_candidate_failure ROUTE_UNAVAILABLE ''refused'' 1 5 5 0 fresh_breaker)) \<noteq> ''closed''" by code_simp
  qed
  have res: "snd (select_route ''svc'' [] st 6 6 sample_routes sample_cache) = Inr ?r" if "st \<in> {''predicted_busy'', ''round_robin''}" for st
    using that by (elim insertE) (simp_all, code_simp+)
  have prob: "probing_strategy ''predicted_busy''" "\<not> probing_strategy ''round_robin''" by code_simp+
  have guard: "route_free 7 (dc_book (fst (select_route ''svc'' [] st 6 6 sample_routes sample_cache))) (breaker_key ?r)
      \<longleftrightarrow> \<not> probing_strategy st" if "st \<in> {''predicted_busy'', ''round_robin''}" for st
    by (rule discovery_probe_guard [OF sample_cache_ok sample_names sample_unconflicted _ s])
      (use res [OF that] in \<open>simp add: prod_eq_iff\<close>)
  show ?thesis using guard [of "''predicted_busy''"] guard [of "''round_robin''"] prob unfolding key by simp
qed

theorem discovery_refresh_exact_witness:
  "bk_breakers (dc_book (fst (refresh_finish ''svc'' (Inl (OtherError ''down'')) 1 sample_cache))) =
     bk_breakers (dc_book sample_cache) \<and>
   dget (bk_breakers (dc_book (fst (refresh_finish ''svc'' (Inr []) 1 sample_cache)))) (''svc'', ''s1'') = None"
proof
  show "bk_breakers (dc_book (fst (refresh_finish ''svc'' (Inl (OtherError ''down'')) 1 sample_cache))) =
      bk_breakers (dc_book sample_cache)"
    using discovery_refresh_exact [OF surjective_pairing, of "''svc''" "Inl (OtherError ''down'')" 1 sample_cache] by simp
  show "dget (bk_breakers (dc_book (fst (refresh_finish ''svc'' (Inr []) 1 sample_cache)))) (''svc'', ''s1'') = None"
    using discovery_refresh_exact [OF surjective_pairing, of "''svc''" "Inr []" 1 sample_cache] by simp
qed

end
