(* ===== verification/GatewayCache.thy ===== *)
theory GatewayCache
  imports Routes
begin

text \<open>
  The route cache of the gateway, \<open>controlplane/gateway_cache.py\<close>. It shares the book of
  \<open>Routes\<close> with the discovery cache, but takes its lock once per step of a selection: the scan of
  the breakers, the turn of the rotation, the probe and the reservation are sections of their own,
  so that other callers may run between \<open>gateway_scan\<close> and \<open>gateway_choose\<close>.
\<close>

section \<open>State\<close>

record gateway_snapshot =
  gs_routes :: "service_route list"
  gs_refreshed_at :: instant

record gateway_observation =
  go_route_attempt_count :: int
  go_failed_route_count :: int
  go_last_failed_route_id :: string
  go_selected_route_id :: string
  go_updated_at :: instant

record gateway_cache =
  gc_snapshots :: "(string, gateway_snapshot) dict"
  gc_book :: route_book
  gc_last_call :: "(string, gateway_observation) dict"
  gc_refresh_events :: "string list"
  gc_round_robin :: int
  gc_refresh_interval :: rat
  gc_failure_threshold :: int
  gc_open_sec :: rat

definition new_gateway_cache :: "rat \<Rightarrow> int \<Rightarrow> rat \<Rightarrow> gateway_cache" where
  "new_gateway_cache refresh_interval_sec failure_threshold open_sec =
    \<lparr>gc_snapshots = [], gc_book = empty_book, gc_last_call = [], gc_refresh_events = [], gc_round_robin = 0,
     gc_refresh_interval = max (1 / 5) refresh_interval_sec, gc_failure_threshold = max 1 failure_threshold,
     gc_open_sec = max (1 / 10) open_sec\<rparr>"

section \<open>Refreshing\<close>

text \<open>
  \<open>answer\<close> is what the route source returned or raised. On an exception \<open>rows\<close> is the empty list
  with which the rest of the section goes on.
\<close>

definition gateway_refresh ::
  "string \<Rightarrow> bool \<Rightarrow> py_error + service_route list \<Rightarrow> instant \<Rightarrow> gateway_cache \<Rightarrow> gateway_cache \<times> (py_error + service_route list)" where
  "gateway_refresh name force answer now c =
    (let rows = (case answer of Inl _ \<Rightarrow> [] | Inr rs \<Rightarrow> rs);
         store = (\<not> is_error answer \<and> (force \<or> dget (gc_snapshots c) name = None \<or> rows \<noteq> []));
         snapshots = (if store then dset name \<lparr>gs_routes = rows, gs_refreshed_at = now\<rparr> (gc_snapshots c) else gc_snapshots c)
     in (c\<lparr>gc_snapshots := snapshots, gc_book := drop_stale_book name (map rt_service_id rows) (gc_book c),
           gc_refresh_events := removeAll name (gc_refresh_events c)\<rparr>, answer))"

datatype gateway_role = Cached "service_route list" | Refresher | Bystander

definition coalesced_begin :: "string \<Rightarrow> gateway_cache \<Rightarrow> gateway_cache \<times> gateway_role" where
  "coalesced_begin name c =
    (case dget (gc_snapshots c) name of
       Some sn \<Rightarrow> if gs_routes sn \<noteq> [] then (c, Cached (gs_routes sn))
         else if name \<in> set (gc_refresh_events c) then (c, Bystander)
         else (c\<lparr>gc_refresh_events := name # gc_refresh_events c\<rparr>, Refresher)
     | None \<Rightarrow> if name \<in> set (gc_refresh_events c) then (c, Bystander)
         else (c\<lparr>gc_refresh_events := name # gc_refresh_events c\<rparr>, Refresher))"

text \<open>A bystander after its wait: a snapshot whatever its age, or a refresh of its own.\<close>

definition coalesced_end ::
  "string \<Rightarrow> py_error + service_route list \<Rightarrow> instant \<Rightarrow> gateway_cache \<Rightarrow> gateway_cache \<times> (py_error + service_route list)" where
  "coalesced_end name answer now c =
    (case dget (gc_snapshots c) name of
       Some sn \<Rightarrow> (c, Inr (gs_routes sn))
     | None \<Rightarrow> gateway_refresh name True answer now c)"

text \<open>A source without a method argument answers with \<open>TypeError\<close>: then the cache filters itself.\<close>

definition gateway_refresh_for_method ::
  "string \<Rightarrow> string \<Rightarrow> py_error + service_route list \<Rightarrow> py_error + service_route list \<Rightarrow> instant \<Rightarrow> gateway_cache
    \<Rightarrow> gateway_cache \<times> (py_error + service_route list)" where
  "gateway_refresh_for_method name method method_answer answer now c =
    (case method_answer of
       Inl (TypeError _) \<Rightarrow>
         (case gateway_refresh name True answer now c of
            (c', res) \<Rightarrow> (c', ebind res (\<lambda>rows. Inr
              (if strip method = [] then rows
               else filter (\<lambda>r. \<not> dependency_method_blocked (rt_blocked_methods r) (strip method)) rows))))
     | res \<Rightarrow> (c, res))"

definition gateway_record_call :: "string \<Rightarrow> gateway_observation \<Rightarrow> gateway_cache \<Rightarrow> gateway_cache" where
  "gateway_record_call service_name obs c =
    (if strip service_name = [] then c else c\<lparr>gc_last_call := dset (strip service_name) obs (gc_last_call c)\<rparr>)"

section \<open>Choosing a route\<close>

definition gateway_sort_key :: "service_route \<Rightarrow> busy_key" where
  "gateway_sort_key r = (route_predicted_busy r, rt_in_flight r, - rt_alive_workers r, route_instance r, rt_service_id r)"

definition gateway_scan ::
  "string \<Rightarrow> string list \<Rightarrow> instant \<Rightarrow> service_route list \<Rightarrow> gateway_cache \<Rightarrow> gateway_cache \<times> service_route list" where
  "gateway_scan name excluded now routes c =
    (case available_routes name now (call_candidates excluded routes) (gc_book c) of
       (b, cands) \<Rightarrow> (c\<lparr>gc_book := b\<rparr>, cands))"

definition take_turn :: "gateway_cache \<Rightarrow> gateway_cache \<times> int" where
  "take_turn c = (c\<lparr>gc_round_robin := gc_round_robin c + 1\<rparr>, gc_round_robin c)"

definition gateway_reserve :: "service_route \<Rightarrow> gateway_cache \<Rightarrow> gateway_cache" where
  "gateway_reserve r c = c\<lparr>gc_book := reserve_route r (gc_book c)\<rparr>"

definition gateway_round_robin :: "int \<Rightarrow> service_route list \<Rightarrow> service_route" where
  "gateway_round_robin rr rs = next_of (sort_key (\<lambda>r. (route_instance r, rt_service_id r)) rs) rr"

definition gateway_least_inflight :: "route_book \<Rightarrow> string \<Rightarrow> int \<Rightarrow> service_route list \<Rightarrow> service_route" where
  "gateway_least_inflight b name rr rs =
    (let key = (\<lambda>r. (inflight_count b (name, strip (rt_service_id r)), gateway_sort_key r));
         ordered = sort_key key rs
     in next_of (filter (\<lambda>r. key r = key (hd ordered)) ordered) rr)"

definition gateway_least_busy :: "int \<Rightarrow> service_route list \<Rightarrow> service_route" where
  "gateway_least_busy rr rs =
    (let ordered = sort_key gateway_sort_key rs
     in next_of (filter (\<lambda>r. gateway_sort_key r = gateway_sort_key (hd ordered)) ordered) rr)"

text \<open>Only the first route of the selected id is probed.\<close>

fun probe_first :: "instant \<Rightarrow> string \<Rightarrow> service_route list \<Rightarrow> route_book \<Rightarrow> route_book \<times> service_route option" where
  "probe_first now sel [] b = (b, None)"
| "probe_first now sel (r # rs) b =
    (if rt_service_id r = sel
     then (case probe_route now r b of (b1, ok) \<Rightarrow> (b1, if ok then Some r else None))
     else probe_first now sel rs b)"

definition gateway_choose ::
  "string \<Rightarrow> string \<Rightarrow> instant \<Rightarrow> service_route list \<Rightarrow> gateway_cache \<Rightarrow> gateway_cache \<times> (py_error + service_route)" where
  "gateway_choose name strategy now cands c =
    (if cands = [] then (c, Inl (RuntimeError ''no available route''))
     else
       case resolve_service_strategy strategy of
         (normalized, profile) \<Rightarrow>
           (case take_turn c of
              (c1, rr) \<Rightarrow>
                if normalized = ''round_robin''
                then let r = gateway_round_robin rr cands in (gateway_reserve r c1, Inr r)
                else if normalized = ''least_inflight''
                then let r = gateway_least_inflight (gc_book c) name rr cands in (gateway_reserve r c1, Inr r)
                else
                  case select_one_candidate (map (route_candidate route_instance (gc_book c) name) cands)
                    (route_profile ''gateway_route_cache_'' profile) (route_state (gc_book c) name cands) rr of
                    Inl e \<Rightarrow> (c1, Inl e)
                  | Inr selected \<Rightarrow>
                      (case probe_first now (cand_id selected) cands (gc_book c1) of
                         (b, Some r) \<Rightarrow> (gateway_reserve r (c1\<lparr>gc_book := b\<rparr>), Inr r)
                       | (b, None) \<Rightarrow>
                           let r = gateway_least_busy rr cands in (gateway_reserve r (c1\<lparr>gc_book := b\<rparr>), Inr r))))"

definition gateway_select ::
  "string \<Rightarrow> string list \<Rightarrow> string \<Rightarrow> instant \<Rightarrow> instant \<Rightarrow> service_route list \<Rightarrow> gateway_cache
    \<Rightarrow> gateway_cache \<times> (py_error + service_route)" where
  "gateway_select service_name excluded strategy now t routes c =
    (case gateway_scan (strip service_name) excluded now routes c of
       (c1, cands) \<Rightarrow> gateway_choose (strip service_name) strategy t cands c1)"

text \<open>The outcomes of a call; the threshold the constructor was given is not consulted.\<close>

definition gateway_mark_success :: "service_route \<Rightarrow> gateway_cache \<Rightarrow> gateway_cache" where
  "gateway_mark_success r c = c\<lparr>gc_book := mark_success r (gc_book c)\<rparr>"

definition gateway_mark_failure :: "string \<Rightarrow> instant \<Rightarrow> service_route \<Rightarrow> gateway_cache \<Rightarrow> gateway_cache \<times> py_error option" where
  "gateway_mark_failure error now r c =
    (case mark_failure (gc_open_sec c) error now r (gc_book c) of (b, exc) \<Rightarrow> (c\<lparr>gc_book := b\<rparr>, exc))"

section \<open>Selections\<close>

lemma gateway_members:
  "rs \<noteq> [] \<Longrightarrow> gateway_round_robin rr rs \<in> set rs"
  "rs \<noteq> [] \<Longrightarrow> gateway_least_inflight b name rr rs \<in> set rs"
  "rs \<noteq> [] \<Longrightarrow> gateway_least_busy rr rs \<in> set rs"
  using next_of_mem [of "sort_key (\<lambda>r. (route_instance r, rt_service_id r)) rs" rr]
    tier_mem [of rs "\<lambda>r. (inflight_count b (name, strip (rt_service_id r)), gateway_sort_key r)" rr]
    tier_mem [of rs gateway_sort_key rr]
  by (simp_all add: gateway_round_robin_def gateway_least_inflight_def gateway_least_busy_def Let_def)

lemma probe_first_inflight [frame_simps]: "bk_inflight (fst (probe_first now sel rs b)) = bk_inflight b"
  by (induction rs) (simp_all add: case_prod_beta frame_simps)

lemma probe_first_ok: "book_ok b \<Longrightarrow> book_ok (fst (probe_first now sel rs b))"
  by (induction rs) (simp_all add: case_prod_beta book_ok_probe)

lemma probe_first_mem: "probe_first now sel rs b = (b1, Some r) \<Longrightarrow> r \<in> set rs \<and> rt_service_id r = sel"
  by (induction rs) (auto simp: case_prod_beta split: if_splits)

text \<open>Whatever happened since the scan: one of its candidates is reserved, or nothing is.\<close>

lemma gateway_choose_cases:
  assumes "gateway_choose name strategy now cands c = (c', res)"
  shows "(is_error res \<and> gc_book c' = gc_book c) \<or>
    (\<exists>r \<in> set cands. \<exists>b. res = Inr r \<and> gc_book c' = reserve_route r b \<and> bk_inflight b = bk_inflight (gc_book c) \<and>
       (book_ok (gc_book c) \<longrightarrow> book_ok b))"
proof (cases "cands = []")
  case True
  then show ?thesis using assms by (auto simp: gateway_choose_def)
next
  case ne: False
  obtain st pr where res: "resolve_service_strategy strategy = (st, pr)" by fastforce
  let ?rr = "gc_round_robin c"
  have given: ?thesis if "gc_book c' = reserve_route r b" "res = Inr r" "r \<in> set cands"
    "bk_inflight b = bk_inflight (gc_book c)" "book_ok (gc_book c) \<Longrightarrow> book_ok b" for r b
    using that by blast
  consider "st = ''round_robin''" | "st \<noteq> ''round_robin''" "st = ''least_inflight''"
    | "st \<noteq> ''round_robin''" "st \<noteq> ''least_inflight''" by blast
  then show ?thesis
  proof cases
    case 1
    then show ?thesis using assms ne res gateway_members(1) [OF ne]
      by (intro given [of "gateway_round_robin ?rr cands" "gc_book c"])
        (auto simp: gateway_choose_def take_turn_def gateway_reserve_def Let_def)
  next
    case 2
    then show ?thesis using assms ne res gateway_members(2) [OF ne]
      by (intro given [of "gateway_least_inflight (gc_book c) name ?rr cands" "gc_book c"])
        (auto simp: gateway_choose_def take_turn_def gateway_reserve_def Let_def)
  next
    case 3
    show ?thesis
    proof (cases "select_one_candidate (map (route_candidate route_instance (gc_book c) name) cands)
        (route_profile ''gateway_route_cache_'' pr) (route_state (gc_book c) name cands) ?rr")
      case (Inl e)
      then show ?thesis using assms ne res 3 by (auto simp: gateway_choose_def take_turn_def)
    next
      case (Inr sel)
      obtain b o1 where p: "probe_first now (cand_id sel) cands (gc_book c) = (b, o1)" by fastforce
      have b: "bk_inflight b = bk_inflight (gc_book c)" "book_ok (gc_book c) \<Longrightarrow> book_ok b"
        using probe_first_inflight [of now "cand_id sel" cands "gc_book c"] probe_first_ok [of "gc_book c" now "cand_id sel" cands] p
        by simp_all
      show ?thesis
      proof (cases o1)
        case None
        then show ?thesis using assms ne res 3 Inr p b gateway_members(3) [OF ne]
          by (intro given [of "gateway_least_busy ?rr cands" b])
            (auto simp: gateway_choose_def take_turn_def gateway_reserve_def Let_def)
      next
        case (Some r)
        then show ?thesis using assms ne res 3 Inr p b probe_first_mem [of now "cand_id sel" cands "gc_book c" b r]
          by (intro given [of r b]) (auto simp: gateway_choose_def take_turn_def gateway_reserve_def Let_def)
      qed
    qed
  qed
qed

section \<open>What a selection guarantees\<close>

lemma call_candidates_iff:
  "r \<in> set (call_candidates excluded routes) \<longleftrightarrow> r \<in> set routes \<and>
     is_call_route (rt_node_healthy r) (rt_status r) (rt_node_drain r) \<and> rt_http_base_url r \<noteq> [] \<and> rt_service_id r \<notin> set excluded"
  by (auto simp: call_candidates_def)

lemma gateway_scan_eq:
  "gateway_scan name excluded now routes c =
    (c\<lparr>gc_book := fst (available_routes name now (call_candidates excluded routes) (gc_book c))\<rparr>,
     usable_routes name now (gc_book c) (call_candidates excluded routes))"
  by (simp add: gateway_scan_def available_scan usable_routes_def)

lemma gateway_choose_total:
  assumes "r \<in> set cands" and "candidate_ok (route_state (gc_book c) name cands) (route_candidate route_instance (gc_book c) name r)"
  shows "\<not> is_error (snd (gateway_choose name strategy t cands c))"
proof -
  obtain st pr where res: "resolve_service_strategy strategy = (st, pr)" by fastforce
  have "\<not> is_error (select_one_candidate (map (route_candidate route_instance (gc_book c) name) cands)
      (route_profile ''gateway_route_cache_'' pr) (route_state (gc_book c) name cands) (gc_round_robin c))"
    by (rule sel.pick_total [OF _ assms(2)]) (use assms(1) in simp)
  then obtain s where s: "select_one_candidate (map (route_candidate route_instance (gc_book c) name) cands)
      (route_profile ''gateway_route_cache_'' pr) (route_state (gc_book c) name cands) (gc_round_robin c) = Inr s"
    by (rule not_is_errorE)
  have "cands \<noteq> []" using assms(1) by auto
  then show ?thesis using res s
    by (auto simp: gateway_choose_def take_turn_def Let_def split: prod.split option.split)
qed

text \<open>With no other caller in between, the gateway hands out a route exactly when one that may
  be called, is not excluded and whose breaker is free is left; it is one of these, its count of
  calls in flight is one more and no other count changes.\<close>

theorem gateway_select_exact:
  assumes "book_ok (gc_book c)"
    and "usable = usable_routes (strip service_name) now (gc_book c) (call_candidates excluded routes)"
    and "gateway_select service_name excluded strategy now t routes c = (c', res)"
  shows "book_ok (gc_book c') \<and>
    (if usable = [] then is_error res \<and> (\<forall>k. inflight_count (gc_book c') k = inflight_count (gc_book c) k)
     else \<exists>r \<in> set usable. res = Inr r \<and> (\<forall>k. inflight_count (gc_book c') k =
       inflight_count (gc_book c) k + (if counted r \<and> k = inflight_key_of r then 1 else 0)))"
proof -
  let ?name = "strip service_name"
  obtain b where b: "b = fst (available_routes ?name now (call_candidates excluded routes) (gc_book c))" by blast
  then have scan: "gateway_scan ?name excluded now routes c = (c\<lparr>gc_book := b\<rparr>, usable)"
    using assms(2) by (simp add: gateway_scan_eq)
  then have ch: "gateway_choose ?name strategy t usable (c\<lparr>gc_book := b\<rparr>) = (c', res)"
    using assms(3) by (simp add: gateway_select_def)
  have ok: "book_ok b" using b book_ok_available [OF assms(1)] by simp
  have count: "inflight_count b k = inflight_count (gc_book c) k" for k by (simp add: b inflight_count_def frame_simps)
  have err: "is_error res \<longleftrightarrow> usable = []"
  proof
    show "is_error res" if "usable = []" using that ch by (auto simp: gateway_choose_def)
    show "usable = []" if "is_error res"
    proof (rule ccontr)
      assume "usable \<noteq> []"
      then obtain r where r: "r \<in> set usable" by (cases usable) auto
      then have m: "r \<in> set (call_candidates excluded routes)" "r \<in> set (snd (available_routes ?name now (call_candidates excluded routes) (gc_book c)))"
        using assms(2) by (simp_all add: available_scan usable_routes_def)
      have "candidate_ok (route_state b ?name usable) (route_candidate route_instance b ?name r)"
        using usable_candidate [OF assms(1) m(2) _ _ b] m(1) by (simp add: call_candidates_iff)
      then have "\<not> is_error (snd (gateway_choose ?name strategy t usable (c\<lparr>gc_book := b\<rparr>)))"
        using gateway_choose_total [OF r] by simp
      then show False using ch that by simp
    qed
  qed
  show ?thesis
  proof (cases "usable = []")
    case True
    then show ?thesis using gateway_choose_cases [OF ch] err ok count by auto
  next
    case False
    then obtain r b' where r: "r \<in> set usable" "res = Inr r" "gc_book c' = reserve_route r b'" "bk_inflight b' = bk_inflight b" "book_ok b'"
      using gateway_choose_cases [OF ch] err ok by auto
    have "inflight_count b' k = inflight_count (gc_book c) k" for k
      using r(4) count by (simp add: inflight_count_def)
    then show ?thesis using False r by (auto simp: reserve_count book_ok_reserve)
  qed
qed

text \<open>C25: When the route source fails, the gateway keeps the stale snapshot and goes on serving it,
  but forgets every breaker and every count of calls in flight of the service.\<close>

theorem gateway_refresh_failure_forgets:
  assumes "dget (gc_snapshots c) name = Some sn" and "gs_routes sn \<noteq> []"
    and "gateway_refresh name force (Inl e) now c = (c', res)"
  shows "res = Inl e \<and> snd (coalesced_begin name c') = Cached (gs_routes sn) \<and>
    (\<forall>t sid. route_free t (gc_book c') (name, sid) \<and> inflight_count (gc_book c') (name, sid) = 0)"
proof -
  have c': "c' = c\<lparr>gc_book := drop_stale_book name [] (gc_book c), gc_refresh_events := removeAll name (gc_refresh_events c)\<rparr>"
    "res = Inl e" using assms(3) by (auto simp: gateway_refresh_def Let_def)
  show ?thesis using assms(1,2) c'
    by (simp add: coalesced_begin_def drop_stale_book_def route_free_code inflight_count_def dget_or_def drop_stale_get)
qed

section \<open>Two callers at once\<close>

lemma gateway_choose_single:
  assumes "probing_strategy strategy"
    and "candidate_ok (route_state (gc_book c) name [r]) (route_candidate route_instance (gc_book c) name r)"
  shows "gateway_choose name strategy t [r] c =
    (gateway_reserve r (c\<lparr>gc_round_robin := gc_round_robin c + 1, gc_book := fst (probe_route t r (gc_book c))\<rparr>), Inr r)"
proof -
  obtain st pr where res: "resolve_service_strategy strategy = (st, pr)" by fastforce
  let ?cand = "route_candidate route_instance (gc_book c) name r" and ?st = "route_state (gc_book c) name [r]"
  have "\<not> is_error (select_one_candidate [?cand] (route_profile ''gateway_route_cache_'' pr) ?st (gc_round_robin c))"
    by (rule sel.pick_total [OF _ assms(2)]) simp
  then obtain s where s: "select_one_candidate [?cand] (route_profile ''gateway_route_cache_'' pr) ?st (gc_round_robin c) = Inr s"
    by (rule not_is_errorE)
  then have "s \<in> set [?cand]" using sel.pick_sound by blast
  then have "cand_id s = rt_service_id r" by (simp add: route_candidate_def)
  moreover have "gateway_least_busy rr [r] = r" for rr using gateway_members(3) [of "[r]" rr] by simp
  ultimately show ?thesis using assms(1) res s
    by (cases "probe_route t r (gc_book c)")
      (auto simp: probing_strategy_def gateway_choose_def take_turn_def Let_def split: bool.split)
qed

text \<open>Two callers who scanned before either of them chose both receive a route whose breaker is
  half-open, although the first takes its one probe and the breaker refuses the second.\<close>

theorem gateway_probe_race:
  assumes "book_ok (gc_book c)" and "call_candidates excluded routes = [r]" and "rt_service_name r = name"
    and "dget (bk_breakers (gc_book c)) (name, rt_service_id r) = Some s" and "br_state s \<noteq> ''closed''"
    and "route_free now (gc_book c) (name, rt_service_id r)" and "probing_strategy strategy" and "probing_strategy strategy'"
    and "gateway_scan name excluded now routes c = (c1, cands)" and "gateway_scan name excluded now routes c1 = (c2, cands')"
    and "gateway_choose name strategy t cands c2 = (c3, res)" and "gateway_choose name strategy' t' cands' c3 = (c4, res')"
  shows "res = Inr r \<and> \<not> route_free t' (gc_book c3) (name, rt_service_id r) \<and> res' = Inr r"
proof -
  let ?k = "(name, rt_service_id r)"
  let ?b1 = "fst (available_routes name now [r] (gc_book c))"
  have call: "is_call_route (rt_node_healthy r) (rt_status r) (rt_node_drain r)" "rt_http_base_url r \<noteq> []"
    using assms(2) call_candidates_iff [of r excluded routes] by simp_all
  have mem: "r \<in> set (snd (available_routes name now [r] (gc_book c)))" using assms(6) by (simp add: available_scan)
  have ok1: "book_ok ?b1" by (rule book_ok_available [OF assms(1)])
  have free1: "route_free u ?b1 ?k" for u by (rule available_later [OF assms(1) mem])
  obtain s1 where s1: "dget (bk_breakers ?b1) ?k = Some s1" "br_state s1 = ''half_open''"
    by (rule available_half_open [OF assms(1) mem assms(4,5)])
  have c1: "c1 = c\<lparr>gc_book := ?b1\<rparr>" "cands = [r]"
    using assms(6,9) unfolding gateway_scan_eq assms(2) by (auto simp: usable_routes_def simp del: available_routes.simps)
  let ?b2 = "fst (available_routes name now [r] ?b1)"
  have mem2: "r \<in> set (snd (available_routes name now [r] ?b1))" using free1 by (simp only: available_mem) simp
  have c2: "c2 = c\<lparr>gc_book := ?b2\<rparr>" "cands' = [r]"
    using assms(10) free1 [of now] unfolding gateway_scan_eq assms(2) c1(1) by (auto simp: usable_routes_def simp del: available_routes.simps)
  have free2: "route_free u ?b2 ?k" for u by (rule available_later [OF ok1 mem2])
  obtain s2 where s2: "dget (bk_breakers ?b2) ?k = Some s2" "br_state s2 = ''half_open''"
    using available_half_open [OF ok1 mem2 s1(1)] s1(2) by auto
  have key: "breaker_key r = ?k" using assms(3) by (simp add: breaker_key_def)
  have ok2: "candidate_ok (route_state ?b2 name [r]) (route_candidate route_instance ?b2 name r)"
    by (rule not_open_candidate [OF call]) (use s2 in simp)
  have c3: "res = Inr r" "gc_book c3 = reserve_route r (fst (probe_route t r ?b2))"
    using gateway_choose_single [OF assms(7), of c2 name r t] ok2 assms(11) c1(2) c2(1) by (auto simp: gateway_reserve_def)
  have refused: "\<not> route_free t' (gc_book c3) ?k"
    using probe_takes [of t r ?b2 s2 t'] s2 free2 key c3(2) by (simp add: probe_route_iff frame_simps)
  have "\<forall>s3. dget (bk_breakers (gc_book c3)) ?k = Some s3 \<longrightarrow> br_state s3 \<in> {''closed'', ''half_open''}"
    using s2 key c3(2) by (auto simp: frame_simps probe_route_def Let_def case_prod_beta dget_or_def dict_simps before_probe_def candidate_allowed_def)
  from not_open_candidate [OF call this]
  have "candidate_ok (route_state (gc_book c3) name [r]) (route_candidate route_instance (gc_book c3) name r)" by blast
  then have "res' = Inr r" using gateway_choose_single [OF assms(8), of c3 name r t'] assms(12) c2(2) by auto
  then show ?thesis using c3(1) refused by blast
qed

section \<open>Witnesses\<close>

definition gateway_route :: service_route where
  "gateway_route =
    \<lparr>rt_service_name = ''svc'', rt_service_id = ''s1'', rt_status = 2, rt_node_instance_id = ''i1'', rt_node_id = ''n1'',
     rt_control_addr = ''a1'', rt_node_healthy = True, rt_worker_count = 2, rt_alive_workers = 2, rt_in_flight = 0,
     rt_http_base_url = ''http://h1'', rt_predicted_busy = 0, rt_node_drain = False, rt_blocked_methods = []\<rparr>"

text \<open>A gateway that knows one route, which failed at time 0 and is disabled until 5.\<close>

definition gateway_sample :: gateway_cache where
  "gateway_sample = fst (gateway_mark_failure ''refused'' 0 gateway_route
     (fst (gateway_refresh ''svc'' True (Inr [gateway_route]) 0 (new_gateway_cache 3 3 5))))"

lemma gateway_sample_ok: "book_ok (gc_book gateway_sample)"
proof -
  have "book_ok (gc_book (fst (gateway_refresh ''svc'' True (Inr [gateway_route]) 0 (new_gateway_cache 3 3 5))))"
    by (simp add: gateway_refresh_def new_gateway_cache_def Let_def book_ok_drop book_ok_empty)
  then show ?thesis
    unfolding gateway_sample_def gateway_mark_failure_def by (simp add: case_prod_beta book_ok_failure)
qed

lemma gateway_sample_facts:
  "strip ''svc'' = ''svc''" "call_candidates [] [gateway_route] = [gateway_route]" "breaker_key gateway_route = (''svc'', ''s1'')"
  "usable_routes ''svc'' 1 (gc_book gateway_sample) [gateway_route] = []"
  "usable_routes ''svc'' 6 (gc_book gateway_sample) [gateway_route] = [gateway_route]"
  "probing_strategy ''predicted_busy''"
  by code_simp+

theorem gateway_select_exact_witness:
  "is_error (snd (gateway_select ''svc'' [] ''predicted_busy'' 1 1 [gateway_route] gateway_sample)) \<and>
   snd (gateway_select ''svc'' [] ''predicted_busy'' 6 6 [gateway_route] gateway_sample) = Inr gateway_route"
  using gateway_select_exact [OF gateway_sample_ok refl surjective_pairing,
      where service_name = "''svc''" and excluded = "[]" and routes = "[gateway_route]" and now = 1 and t = 1 and strategy = "''predicted_busy''"]
    gateway_select_exact [OF gateway_sample_ok refl surjective_pairing,
      where service_name = "''svc''" and excluded = "[]" and routes = "[gateway_route]" and now = 6 and t = 6 and strategy = "''predicted_busy''"]
  by (simp add: gateway_sample_facts)

theorem gateway_refresh_failure_forgets_witness:
  "route_free 1 (gc_book (fst (gateway_refresh ''svc'' True (Inl (OtherError ''down'')) 1 gateway_sample))) (''svc'', ''s1'') \<and>
   snd (coalesced_begin ''svc'' (fst (gateway_refresh ''svc'' True (Inl (OtherError ''down'')) 1 gateway_sample))) = Cached [gateway_route]"
proof -
  have "dget (gc_snapshots gateway_sample) ''svc'' = Some \<lparr>gs_routes = [gateway_route], gs_refreshed_at = 0\<rparr>" by code_simp
  from gateway_refresh_failure_forgets [OF this _ surjective_pairing] show ?thesis by simp
qed

theorem gateway_probe_race_witness:
  "let (c1, cands) = gateway_scan ''svc'' [] 6 [gateway_route] gateway_sample;
       (c2, cands') = gateway_scan ''svc'' [] 6 [gateway_route] c1;
       (c3, res) = gateway_choose ''svc'' ''predicted_busy'' 6 cands c2
   in res = Inr gateway_route \<and> snd (gateway_choose ''svc'' ''predicted_busy'' 7 cands' c3) = Inr gateway_route"
proof -
  obtain s where s: "dget (bk_breakers (gc_book gateway_sample)) (''svc'', rt_service_id gateway_route) = Some s" "br_state s \<noteq> ''closed''"
  proof
    show "dget (bk_breakers (gc_book gateway_sample)) (''svc'', rt_service_id gateway_route) =
      Some (fst (mark_candidate_failure ROUTE_UNAVAILABLE ''refused'' 1 5 5 0 fresh_breaker))" by code_simp
    show "br_state (fst (mark_candidate_failure ROUTE_UNAVAILABLE ''refused'' 1 5 5 0 fresh_breaker)) \<noteq> ''closed''" by code_simp
  qed
  have free: "route_free 6 (gc_book gateway_sample) (''svc'', rt_service_id gateway_route)" by code_simp
  have name: "rt_service_name gateway_route = ''svc''" by (simp add: gateway_route_def)
  show ?thesis unfolding Let_def case_prod_beta
    using gateway_probe_race [OF gateway_sample_ok gateway_sample_facts(2) name s free gateway_sample_facts(6) gateway_sample_facts(6)
        surjective_pairing surjective_pairing surjective_pairing surjective_pairing, of 6 7] by blast
qed

end
