(* ===== verification/NodeRegistry.thy ===== *)
theory NodeRegistry
  imports Routes Urls
begin

text \<open>
  The registry of the info centre, \<open>controlplane/infocenter_state.py\<close> with the records of
  \<open>controlplane/infocenter/models.py\<close>: nodes, their services and pools, node profiles and the
  index from service names to nodes. Every method takes the registry's lock once and is one
  function on the state; the clock is an argument. Metadata values are strings, a set of node
  keys is a list without duplicates, and fields that the registry only hands through are left out
  of the records (\<open>node_info\<close> stands for those of a node).
\<close>

section \<open>Records\<close>

record node_service =
  ns_service_name :: string
  ns_service_id :: string
  ns_status :: int
  ns_policy_id :: string
  ns_status_text :: string
  ns_resource_health :: string
  ns_degraded :: bool
  ns_worker_count :: int
  ns_alive_workers :: int
  ns_in_flight :: int
  ns_received_count :: int
  ns_returned_count :: int
  ns_ema_child_invoke_ms :: rat
  ns_ema_samples :: int
  ns_created_at :: "instant option"
  ns_lease_expire_at :: instant
  ns_http_base_url :: string
  ns_stop_reason :: string
  ns_failure_at :: "instant option"
  ns_readiness :: string
  ns_readiness_reason :: string
  ns_method_failures :: "(string, payload) dict"

record node_task_pool =
  np_pool_id :: string
  np_stop_reason :: string
  np_failure_reason :: string
  np_failure_at :: "instant option"

record node_profile =
  pf_profile_key :: string
  pf_managed_tags :: "string list"
  pf_enabled :: bool
  pf_drain :: bool
  pf_notes :: string

record node_capacity =
  nc_capacity :: int
  nc_queue_capacity :: int
  nc_credit :: int
  nc_service_worker_capacity :: int
  nc_service_worker_used :: int
  nc_task_pool_worker_capacity :: int
  nc_task_pool_worker_used :: int

record node_tags =
  nt_profile_key :: string
  nt_tags :: "string list"
  nt_managed :: "string list"
  nt_capability :: "string list"
  nt_legacy :: "string list"
  nt_enabled :: bool
  nt_notes :: string

record node_info =
  ni_version :: string
  ni_python_version :: string
  ni_metadata :: "(string, string) dict"
  ni_active_runtimes :: "string list"

record node_state =
  nd_node_instance_id :: string
  nd_node_id :: string
  nd_control_addr :: string
  nd_capacity :: node_capacity
  nd_tags :: node_tags
  nd_info :: node_info
  nd_healthy :: bool
  nd_last_seen_at :: instant
  nd_services :: "(string, node_service) dict"
  nd_task_pools :: "(string, node_task_pool) dict"
  nd_accept_service_deploy :: bool
  nd_schedulable :: bool
  nd_drain :: bool
  nd_reason :: string

record registry =
  rg_lease_ttl_sec :: int
  rg_nodes :: "(string, node_state) dict"
  rg_services_by_name :: "(string, string list) dict"
  rg_profiles :: "(string, node_profile) dict"

definition new_registry :: "int \<Rightarrow> (string, node_profile) dict \<Rightarrow> registry" where
  "new_registry lease_ttl_sec profiles =
    \<lparr>rg_lease_ttl_sec = max 1 lease_ttl_sec, rg_nodes = [], rg_services_by_name = [], rg_profiles = profiles\<rparr>"

definition fresh_node :: "string \<Rightarrow> string \<Rightarrow> string \<Rightarrow> int \<Rightarrow> int \<Rightarrow> string \<Rightarrow> instant \<Rightarrow> node_state" where
  "fresh_node instance_id node_id control_addr capacity queue_capacity python_version now =
    \<lparr>nd_node_instance_id = instance_id, nd_node_id = node_id, nd_control_addr = control_addr,
     nd_capacity = \<lparr>nc_capacity = capacity, nc_queue_capacity = queue_capacity, nc_credit = 0, nc_service_worker_capacity = 0,
       nc_service_worker_used = 0, nc_task_pool_worker_capacity = 0, nc_task_pool_worker_used = 0\<rparr>,
     nd_tags = \<lparr>nt_profile_key = [], nt_tags = [], nt_managed = [], nt_capability = [], nt_legacy = [], nt_enabled = True, nt_notes = []\<rparr>,
     nd_info = \<lparr>ni_version = [], ni_python_version = python_version, ni_metadata = [], ni_active_runtimes = []\<rparr>,
     nd_healthy = True, nd_last_seen_at = now, nd_services = [], nd_task_pools = [], nd_accept_service_deploy = True,
     nd_schedulable = True, nd_drain = False, nd_reason = []\<rparr>"

section \<open>Health, tags and profiles\<close>

definition coerce_bool :: "string option \<Rightarrow> bool \<Rightarrow> bool" where
  "coerce_bool v dflt =
    (case v of None \<Rightarrow> dflt
     | Some s \<Rightarrow> let text = lower (strip s) in
         if text \<in> set [''1'', ''true'', ''yes'', ''y'', ''on''] then True
         else if text \<in> set [''0'', ''false'', ''no'', ''n'', ''off''] then False
         else dflt)"

definition node_is_stale :: "int \<Rightarrow> instant \<Rightarrow> node_state \<Rightarrow> bool" where
  "node_is_stale ttl now n \<longleftrightarrow> of_int ttl < now - nd_last_seen_at n"

definition node_is_healthy :: "int \<Rightarrow> instant \<Rightarrow> node_state \<Rightarrow> bool" where
  "node_is_healthy ttl now n \<longleftrightarrow> nd_healthy n \<and> \<not> node_is_stale ttl now n"

definition normalize_tags :: "string list \<Rightarrow> string list" where
  "normalize_tags tags = sort (remdups (filter (\<lambda>t. t \<noteq> []) (map strip tags)))"

definition capability_tags_for_state :: "node_state \<Rightarrow> string list" where
  "capability_tags_for_state n =
    (let major = before_first (CHR ''.'') (strip (ni_python_version (nd_info n)));
         python = (if major \<noteq> [] \<and> (\<forall>c \<in> set major. is_digit c) then ''python:'' @ major @ ''.x'' else ''python:3.x'');
         component = strip (dget_or (ni_metadata (nd_info n)) ''component'' []);
         role = (if component = ''job-orchestrator'' \<or> \<not> nd_accept_service_deploy n then ''role:job'' else ''role:compute'')
     in normalize_tags [''runtime:py3'', python, role])"

text \<open>
  The profile key of a registered node; its address was parsed when it registered, so that
  the exception cannot occur (\<open>registry_ok\<close> below).
\<close>

definition addr_key :: "string \<Rightarrow> string" where
  "addr_key addr = (case normalize_node_profile_key addr of Inl _ \<Rightarrow> [] | Inr k \<Rightarrow> k)"

definition DISABLED_REASON :: string where
  "DISABLED_REASON = ''disabled by managed node profile''"

definition apply_profile :: "(string, node_profile) dict \<Rightarrow> string list option \<Rightarrow> node_state \<Rightarrow> node_state" where
  "apply_profile profiles registration_tags n =
    (let key = addr_key (nd_control_addr n);
         profile = (if key = [] then None else dget profiles key);
         legacy = (case registration_tags of None \<Rightarrow> nt_legacy (nd_tags n) | Some ts \<Rightarrow> normalize_tags ts);
         managed = (case profile of None \<Rightarrow> [] | Some p \<Rightarrow> pf_managed_tags p);
         capability = capability_tags_for_state n;
         n1 = n\<lparr>nd_tags := \<lparr>nt_profile_key = key, nt_tags = normalize_tags (capability @ managed @ legacy), nt_managed = managed,
           nt_capability = capability, nt_legacy = legacy, nt_enabled = (case profile of None \<Rightarrow> True | Some p \<Rightarrow> pf_enabled p),
           nt_notes = (case profile of None \<Rightarrow> [] | Some p \<Rightarrow> pf_notes p)\<rparr>\<rparr>
     in case profile of
          None \<Rightarrow> n1
        | Some p \<Rightarrow>
            let n2 = n1\<lparr>nd_drain := pf_drain p\<rparr> in
            if \<not> pf_enabled p then n2\<lparr>nd_schedulable := False, nd_reason := str_or (nd_reason n2) DISABLED_REASON\<rparr>
            else if nd_reason n2 = DISABLED_REASON then n2\<lparr>nd_schedulable := True, nd_reason := []\<rparr>
            else n2)"

text \<open>Every read of a node that has missed its lease marks it.\<close>

definition fence_if_stale :: "int \<Rightarrow> instant \<Rightarrow> node_state \<Rightarrow> node_state" where
  "fence_if_stale ttl now n =
    (if node_is_stale ttl now n
     then n\<lparr>nd_healthy := False, nd_schedulable := False, nd_reason := str_or (nd_reason n) ''node heartbeat timeout''\<rparr>
     else n)"

definition stamp_failure :: "instant \<Rightarrow> string \<Rightarrow> string \<Rightarrow> instant option \<Rightarrow> instant option \<Rightarrow> instant option" where
  "stamp_failure now reason previous_reason previous_at failure_at =
    (if reason = [] then None
     else case failure_at of
       Some t \<Rightarrow> Some t
     | None \<Rightarrow> (case if previous_reason = reason then previous_at else None of Some t \<Rightarrow> Some t | None \<Rightarrow> Some now))"

definition stamp_service :: "instant \<Rightarrow> node_service option \<Rightarrow> node_service \<Rightarrow> node_service" where
  "stamp_service now previous s =
    (let created = (case (ns_created_at s, previous) of (None, Some p) \<Rightarrow> ns_created_at p | (c, _) \<Rightarrow> c);
         previous_reason = (case previous of None \<Rightarrow> [] | Some p \<Rightarrow> strip (ns_stop_reason p));
         previous_at = (case previous of None \<Rightarrow> None | Some p \<Rightarrow> ns_failure_at p)
     in s\<lparr>ns_created_at := created,
          ns_failure_at := stamp_failure now (strip (ns_stop_reason s)) previous_reason previous_at (ns_failure_at s)\<rparr>)"

definition stamp_pool :: "instant \<Rightarrow> node_task_pool option \<Rightarrow> node_task_pool \<Rightarrow> node_task_pool" where
  "stamp_pool now previous p =
    (let reason = strip (str_or (np_stop_reason p) (np_failure_reason p));
         previous_reason = (case previous of None \<Rightarrow> [] | Some q \<Rightarrow> strip (str_or (np_stop_reason q) (np_failure_reason q)));
         previous_at = (case previous of None \<Rightarrow> None | Some q \<Rightarrow> np_failure_at q)
     in p\<lparr>np_stop_reason := reason, np_failure_reason := reason,
          np_failure_at := stamp_failure now reason previous_reason previous_at (np_failure_at p)\<rparr>)"

definition with_failure_timestamps ::
  "instant \<Rightarrow> node_state \<Rightarrow> (string, node_service) dict \<Rightarrow> (string, node_task_pool) dict
    \<Rightarrow> (string, node_service) dict \<times> (string, node_task_pool) dict" where
  "with_failure_timestamps now previous services pools =
    (dmap (\<lambda>k s. stamp_service now (dget (nd_services previous) k) s) services,
     dmap (\<lambda>k p. stamp_pool now (dget (nd_task_pools previous) k) p) pools)"

section \<open>The index of service names\<close>

definition service_names :: "node_state \<Rightarrow> string list" where
  "service_names n = remdups (filter (\<lambda>s. s \<noteq> []) (map (\<lambda>s. strip (ns_service_name s)) (dvals (nd_services n))))"

definition index_discard :: "string \<Rightarrow> string \<Rightarrow> (string, string list) dict \<Rightarrow> (string, string list) dict" where
  "index_discard node_key name0 ix =
    (let name = strip name0 in
     if name = [] then ix
     else case dget ix name of
       None \<Rightarrow> ix
     | Some members \<Rightarrow>
         let rest = removeAll node_key members in if rest = [] then dpop name ix else dset name rest ix)"

definition remove_services_index :: "string \<Rightarrow> string list \<Rightarrow> (string, string list) dict \<Rightarrow> (string, string list) dict" where
  "remove_services_index node_key names ix = (if strip node_key = [] then ix else fold (index_discard (strip node_key)) names ix)"

definition index_add :: "string \<Rightarrow> string \<Rightarrow> (string, string list) dict \<Rightarrow> (string, string list) dict" where
  "index_add node_key name ix =
    (let members = dget_or ix name [] in
     dset name (if node_key \<in> set members then members else members @ [node_key]) ix)"

definition reindex_node_services :: "node_state \<Rightarrow> string list \<Rightarrow> (string, string list) dict \<Rightarrow> (string, string list) dict" where
  "reindex_node_services n previous_names ix =
    (let node_key = strip (nd_node_instance_id n) in
     if node_key = [] then ix
     else fold (index_add node_key) (service_names n) (remove_services_index node_key previous_names ix))"

definition drop_node :: "string \<Rightarrow> registry \<Rightarrow> registry" where
  "drop_node key r =
    (case dget (rg_nodes r) key of
       None \<Rightarrow> r
     | Some n \<Rightarrow> r\<lparr>rg_nodes := dpop key (rg_nodes r),
         rg_services_by_name := remove_services_index (nd_node_instance_id n) (service_names n) (rg_services_by_name r)\<rparr>)"

section \<open>Registration\<close>

definition same_endpoint :: "string \<Rightarrow> string \<Rightarrow> node_state \<Rightarrow> bool" where
  "same_endpoint addr key n \<longleftrightarrow>
     strip (nd_control_addr n) = addr \<or> (key \<noteq> [] \<and> addr_key (nd_control_addr n) = key)"

definition prune_replaced_nodes :: "string \<Rightarrow> string \<Rightarrow> registry \<Rightarrow> registry \<times> py_error option" where
  "prune_replaced_nodes node_instance_id control_addr r =
    (let addr = strip control_addr in
     if strip node_instance_id = [] \<or> addr = [] then (r, None)
     else case normalize_node_profile_key addr of
       Inl e \<Rightarrow> (r, Some e)
     | Inr key \<Rightarrow>
         (fold drop_node (map fst (filter (\<lambda>(k, n). k \<noteq> strip node_instance_id \<and> same_endpoint addr key n) (rg_nodes r))) r, None))"

definition control_addr_conflicting_instances :: "string \<Rightarrow> string \<Rightarrow> registry \<Rightarrow> py_error + node_state list" where
  "control_addr_conflicting_instances node_instance_id control_addr r =
    (let addr = strip control_addr; inst = strip node_instance_id in
     if inst = [] \<or> addr = [] then Inr []
     else ebind (normalize_node_profile_key addr) (\<lambda>key.
       case dget (rg_nodes r) inst of
         Some n \<Rightarrow> if addr_key (nd_control_addr n) = key then Inr []
           else Inr (map snd (filter (\<lambda>(k, n). k \<noteq> inst \<and> same_endpoint addr key n) (rg_nodes r)))
       | None \<Rightarrow> Inr (map snd (filter (\<lambda>(k, n). k \<noteq> inst \<and> same_endpoint addr key n) (rg_nodes r)))))"

definition startup_service_endpoint :: "string \<Rightarrow> node_service \<Rightarrow> py_error + endpoint" where
  "startup_service_endpoint control_addr s =
    ebind (endpoint_from_url_or_addr (ns_http_base_url s)) (\<lambda>endpoint.
    if 0 < snd endpoint then Inr endpoint else endpoint_from_url_or_addr control_addr)"

fun incoming_by_name :: "node_service list \<Rightarrow> (string, node_service) dict \<Rightarrow> py_error + (string, node_service) dict" where
  "incoming_by_name [] acc = Inr acc"
| "incoming_by_name (s # ss) acc =
    (let name = strip (ns_service_name s) in
     if \<not> is_conflict_scope True (ns_status s) \<or> name = [] then incoming_by_name ss acc
     else case dget acc name of
       Some e \<Rightarrow> if strip (ns_service_id e) \<noteq> strip (ns_service_id s)
         then Inl (ValueError ''startup service_name already exists in node registration'')
         else incoming_by_name ss (dset name s acc)
     | None \<Rightarrow> incoming_by_name ss (dset name s acc))"

text \<open>The services of one other node: whether the node is to be replaced.\<close>

fun startup_clash :: "string \<Rightarrow> (string, node_service) dict \<Rightarrow> node_state \<Rightarrow> node_service list \<Rightarrow> py_error + bool" where
  "startup_clash control_addr incoming n [] = Inr False"
| "startup_clash control_addr incoming n (s # ss) =
    (if \<not> is_conflict_scope True (ns_status s) then startup_clash control_addr incoming n ss
     else case dget incoming (strip (ns_service_name s)) of
       None \<Rightarrow> startup_clash control_addr incoming n ss
     | Some i \<Rightarrow>
         if \<not> coerce_bool (dget (ni_metadata (nd_info n)) ''startup_service'') False
         then Inl (ValueError ''startup service_name already exists'')
         else ebind (startup_service_endpoint control_addr i) (\<lambda>left.
           ebind (startup_service_endpoint (nd_control_addr n) s) (\<lambda>right.
           if endpoint_matches left right then Inr True
           else Inl (ValueError ''startup service_name already exists''))))"

fun startup_replaced ::
  "int \<Rightarrow> instant \<Rightarrow> string \<Rightarrow> string \<Rightarrow> (string, node_service) dict \<Rightarrow> (string \<times> node_state) list \<Rightarrow> py_error + string list" where
  "startup_replaced ttl now inst control_addr incoming [] = Inr []"
| "startup_replaced ttl now inst control_addr incoming ((k, n) # ns) =
    (if k = inst \<or> \<not> node_is_healthy ttl now n then startup_replaced ttl now inst control_addr incoming ns
     else ebind (startup_clash control_addr incoming n (dvals (nd_services n))) (\<lambda>hit.
       ebind (startup_replaced ttl now inst control_addr incoming ns) (\<lambda>ks. Inr (if hit then k # ks else ks))))"

definition validate_startup_service_names ::
  "string \<Rightarrow> string \<Rightarrow> (string, string) dict \<Rightarrow> (string, node_service) dict \<Rightarrow> instant \<Rightarrow> registry \<Rightarrow> registry \<times> py_error option" where
  "validate_startup_service_names inst control_addr metadata services now r =
    (if \<not> coerce_bool (dget metadata ''startup_service'') False then (r, None)
     else case ebind (incoming_by_name (dvals services) []) (\<lambda>incoming.
         if incoming = [] then Inr [] else startup_replaced (rg_lease_ttl_sec r) now inst control_addr incoming (rg_nodes r)) of
       Inl e \<Rightarrow> (r, Some e)
     | Inr keys \<Rightarrow> (fold drop_node keys r, None))"

record registration =
  rq_node_instance_id :: string
  rq_node_id :: string
  rq_control_addr :: string
  rq_capacity :: int
  rq_queue_capacity :: int
  rq_tags :: "string list"
  rq_version :: string
  rq_metadata :: "(string, string) dict"
  rq_services :: "(string, node_service) dict"
  rq_task_pools :: "(string, node_task_pool) dict"
  rq_active_runtimes :: "string list"
  rq_service_worker_capacity :: int
  rq_service_worker_used :: int
  rq_task_pool_worker_capacity :: int
  rq_task_pool_worker_used :: int
  rq_accept_service_deploy :: bool
  rq_python_version :: string

definition worker_used :: "int \<Rightarrow> int \<Rightarrow> int" where
  "worker_used used capacity = max 0 (min used (num_or capacity used))"

definition registered_node :: "registration \<Rightarrow> string \<Rightarrow> instant \<Rightarrow> (string, node_profile) dict \<Rightarrow> node_state \<Rightarrow> node_state" where
  "registered_node rq inst now profiles n =
    (let (services, pools) = with_failure_timestamps now n (rq_services rq) (rq_task_pools rq);
         swc = max 0 (rq_service_worker_capacity rq); tpc = max 0 (rq_task_pool_worker_capacity rq);
         n1 = n\<lparr>nd_node_instance_id := inst, nd_node_id := str_or (strip (str_or (rq_node_id rq) (nd_node_id n))) inst,
           nd_control_addr := rq_control_addr rq,
           nd_capacity := \<lparr>nc_capacity = max 1 (rq_capacity rq), nc_queue_capacity = max 1 (rq_queue_capacity rq),
             nc_credit = nc_credit (nd_capacity n), nc_service_worker_capacity = swc,
             nc_service_worker_used = worker_used (rq_service_worker_used rq) swc, nc_task_pool_worker_capacity = tpc,
             nc_task_pool_worker_used = worker_used (rq_task_pool_worker_used rq) tpc\<rparr>,
           nd_info := \<lparr>ni_version = rq_version rq,
             ni_python_version = strip (str_or (rq_python_version rq) (ni_python_version (nd_info n))),
             ni_metadata = rq_metadata rq,
             ni_active_runtimes = filter (\<lambda>s. s \<noteq> []) (map strip (rq_active_runtimes rq))\<rparr>,
           nd_healthy := True, nd_last_seen_at := now, nd_services := services, nd_task_pools := pools,
           nd_accept_service_deploy := rq_accept_service_deploy rq\<rparr>;
         n2 = apply_profile profiles (Some (rq_tags rq)) n1
     in n2\<lparr>nd_capacity := (nd_capacity n2)\<lparr>nc_credit := num_or (nc_credit (nd_capacity n2)) (nc_queue_capacity (nd_capacity n2))\<rparr>\<rparr>)"

definition put_node :: "string \<Rightarrow> node_state \<Rightarrow> string list \<Rightarrow> registry \<Rightarrow> registry" where
  "put_node key n previous_names r =
    r\<lparr>rg_nodes := dset key n (rg_nodes r),
      rg_services_by_name := reindex_node_services n previous_names (rg_services_by_name r)\<rparr>"

definition register_node_record :: "registration \<Rightarrow> instant \<Rightarrow> registry \<Rightarrow> registry \<times> (py_error + node_state)" where
  "register_node_record rq now r =
    (let inst = strip (str_or (rq_node_instance_id rq) (rq_node_id rq)) in
     if inst = [] then (r, Inl (ValueError ''node_instance_id is required''))
     else case prune_replaced_nodes inst (rq_control_addr rq) r of
       (r1, Some e) \<Rightarrow> (r1, Inl e)
     | (r1, None) \<Rightarrow>
         (case validate_startup_service_names inst (rq_control_addr rq) (rq_metadata rq) (rq_services rq) now r1 of
            (r2, Some e) \<Rightarrow> (r2, Inl e)
          | (r2, None) \<Rightarrow>
              let n0 = (case dget (rg_nodes r2) inst of Some n \<Rightarrow> n
                | None \<Rightarrow> fresh_node inst (rq_node_id rq) (rq_control_addr rq) (max 1 (rq_capacity rq)) (max 1 (rq_queue_capacity rq))
                    (strip (rq_python_version rq)) now);
                  n = registered_node rq inst now (rg_profiles r2) n0
              in (put_node inst n (service_names n0) r2, Inr n)))"

section \<open>Heartbeats\<close>

record heartbeat =
  hb_node_instance_id :: string
  hb_node_id :: string
  hb_healthy :: bool
  hb_credit :: "int option"
  hb_metadata :: "(string, string) dict option"
  hb_services :: "(string, node_service) dict option"
  hb_task_pools :: "(string, node_task_pool) dict option"
  hb_active_runtimes :: "string list option"
  hb_service_worker_capacity :: int
  hb_service_worker_used :: int
  hb_task_pool_worker_capacity :: int
  hb_task_pool_worker_used :: int
  hb_accept_service_deploy :: "bool option"
  hb_python_version :: string

definition opt_or :: "'a option \<Rightarrow> 'a \<Rightarrow> 'a" where
  "opt_or v d = (case v of None \<Rightarrow> d | Some x \<Rightarrow> x)"

text \<open>
  The time stamps go into the service and pool objects themselves, which an absent inventory
  shares with the state; so both dicts are written whenever one of them is reported.
\<close>

definition beaten_node :: "heartbeat \<Rightarrow> string \<Rightarrow> instant \<Rightarrow> (string, node_profile) dict \<Rightarrow> node_state \<Rightarrow> node_state" where
  "beaten_node hb inst now profiles n =
    (let updated = (hb_services hb \<noteq> None \<or> hb_task_pools hb \<noteq> None);
         (services, pools) = (if updated
           then with_failure_timestamps now n (opt_or (hb_services hb) (nd_services n)) (opt_or (hb_task_pools hb) (nd_task_pools n))
           else (nd_services n, nd_task_pools n));
         c = nd_capacity n;
         swc = (if updated \<and> 0 < hb_service_worker_capacity hb then hb_service_worker_capacity hb else nc_service_worker_capacity c);
         tpc = (if updated \<and> 0 < hb_task_pool_worker_capacity hb then hb_task_pool_worker_capacity hb
           else nc_task_pool_worker_capacity c);
         n1 = n\<lparr>nd_node_instance_id := inst, nd_node_id := str_or (strip (str_or (hb_node_id hb) (nd_node_id n))) inst,
           nd_capacity := c\<lparr>nc_credit := opt_or (hb_credit hb) (nc_credit c), nc_service_worker_capacity := swc,
             nc_service_worker_used := (if updated then worker_used (hb_service_worker_used hb) swc else nc_service_worker_used c),
             nc_task_pool_worker_capacity := tpc,
             nc_task_pool_worker_used := (if updated then worker_used (hb_task_pool_worker_used hb) tpc else nc_task_pool_worker_used c)\<rparr>,
           nd_info := (nd_info n)\<lparr>ni_metadata := opt_or (hb_metadata hb) (ni_metadata (nd_info n)),
             ni_python_version := (if hb_python_version hb = [] then ni_python_version (nd_info n) else strip (hb_python_version hb)),
             ni_active_runtimes := (case hb_active_runtimes hb of None \<Rightarrow> ni_active_runtimes (nd_info n)
               | Some xs \<Rightarrow> filter (\<lambda>s. s \<noteq> []) (map strip xs))\<rparr>,
           nd_healthy := hb_healthy hb, nd_last_seen_at := now, nd_services := services, nd_task_pools := pools,
           nd_accept_service_deploy := opt_or (hb_accept_service_deploy hb) (nd_accept_service_deploy n)\<rparr>
     in apply_profile profiles None n1)"

text \<open>A heartbeat of an unknown instance creates a node without an address.\<close>

definition heartbeat_record :: "heartbeat \<Rightarrow> instant \<Rightarrow> registry \<Rightarrow> registry \<times> node_state option" where
  "heartbeat_record hb now r =
    (let inst = strip (str_or (hb_node_instance_id hb) (hb_node_id hb)) in
     if inst = [] then (r, None)
     else
       let n0 = (case dget (rg_nodes r) inst of Some n \<Rightarrow> n
             | None \<Rightarrow> fresh_node inst (hb_node_id hb) [] 1 1 (strip (hb_python_version hb)) now);
           n = beaten_node hb inst now (rg_profiles r) n0;
           r1 = (if hb_services hb = None then r\<lparr>rg_nodes := dset inst n (rg_nodes r)\<rparr> else put_node inst n (service_names n0) r)
       in (r1, Some n))"

section \<open>Operator commands\<close>

definition lost_service :: "instant \<Rightarrow> string \<Rightarrow> node_service \<Rightarrow> node_service" where
  "lost_service now reason s =
    s\<lparr>ns_status := 0, ns_policy_id := str_or (lower (strip (ns_policy_id s))) ''default_safe'', ns_status_text := [],
      ns_resource_health := [], ns_degraded := False, ns_worker_count := max 0 (ns_worker_count s), ns_alive_workers := 0,
      ns_in_flight := 0, ns_received_count := 0, ns_returned_count := 0, ns_ema_child_invoke_ms := 0, ns_ema_samples := 0,
      ns_created_at := None, ns_lease_expire_at := now, ns_stop_reason := str_or (ns_stop_reason s) (str_or reason ''node lost''),
      ns_failure_at := Some (opt_or (ns_failure_at s) now), ns_readiness := [], ns_readiness_reason := [], ns_method_failures := []\<rparr>"

definition lost_node :: "int \<Rightarrow> instant \<Rightarrow> string \<Rightarrow> node_state \<Rightarrow> node_state" where
  "lost_node ttl now reason n =
    (let text = str_or reason (str_or (nd_reason n) ''node lost'') in
     n\<lparr>nd_healthy := False, nd_schedulable := False, nd_last_seen_at := now - (of_int ttl + 1), nd_reason := text,
       nd_services := dmap (\<lambda>_. lost_service now text) (nd_services n)\<rparr>)"

definition mark_node_lost :: "string \<Rightarrow> string \<Rightarrow> instant \<Rightarrow> registry \<Rightarrow> registry \<times> (py_error + node_state)" where
  "mark_node_lost key reason now r =
    (case dget (rg_nodes r) key of
       None \<Rightarrow> (r, Inl (KeyError ''node not found''))
     | Some n0 \<Rightarrow>
         let n = lost_node (rg_lease_ttl_sec r) now reason n0
         in (put_node key n (service_names n0) r, Inr n))"

definition scheduled_node ::
  "bool option \<Rightarrow> bool option \<Rightarrow> string option \<Rightarrow> (string, node_profile) dict \<Rightarrow> node_state \<Rightarrow> node_state" where
  "scheduled_node schedulable drain reason profiles n =
    apply_profile profiles None (n\<lparr>nd_schedulable := opt_or schedulable (nd_schedulable n),
      nd_drain := opt_or drain (nd_drain n), nd_reason := opt_or reason (nd_reason n)\<rparr>)"

definition update_node_schedule_state ::
  "string \<Rightarrow> bool option \<Rightarrow> bool option \<Rightarrow> string option \<Rightarrow> registry \<Rightarrow> registry \<times> (py_error + node_state)" where
  "update_node_schedule_state key schedulable drain reason r =
    (case dget (rg_nodes r) key of
       None \<Rightarrow> (r, Inl (KeyError ''node not found''))
     | Some n0 \<Rightarrow>
         let n = scheduled_node schedulable drain reason (rg_profiles r) n0
         in (r\<lparr>rg_nodes := dset key n (rg_nodes r)\<rparr>, Inr n))"

record profile_update =
  pu_managed_tags :: "string list option"
  pu_add_tags :: "string list"
  pu_remove_tags :: "string list"
  pu_enabled :: "bool option"
  pu_drain :: "bool option"
  pu_notes :: "string option"

definition updated_profile :: "profile_update \<Rightarrow> node_profile \<Rightarrow> node_profile" where
  "updated_profile u p =
    (let base = (case pu_managed_tags u of None \<Rightarrow> pf_managed_tags p | Some ts \<Rightarrow> normalize_tags ts);
         tags = filter (\<lambda>t. t \<notin> set (normalize_tags (pu_remove_tags u))) (base @ normalize_tags (pu_add_tags u))
     in p\<lparr>pf_managed_tags := sort (remdups tags), pf_enabled := opt_or (pu_enabled u) (pf_enabled p),
          pf_drain := opt_or (pu_drain u) (pf_drain p), pf_notes := opt_or (pu_notes u) (pf_notes p)\<rparr>)"

definition reprofiled_node :: "string \<Rightarrow> (string, node_profile) dict \<Rightarrow> bool \<Rightarrow> node_state \<Rightarrow> node_state" where
  "reprofiled_node key profiles enabled n =
    (if addr_key (nd_control_addr n) = key
     then apply_profile profiles None
       (if enabled \<and> nd_reason n = DISABLED_REASON then n\<lparr>nd_schedulable := True, nd_reason := []\<rparr> else n)
     else n)"

text \<open>\<open>saved\<close> is the exception of writing the profiles file, if any; the state is updated by then.\<close>

definition update_node_profile ::
  "string \<Rightarrow> profile_update \<Rightarrow> py_error option \<Rightarrow> registry \<Rightarrow> registry \<times> (py_error + node_profile)" where
  "update_node_profile endpoint u saved r =
    (case normalize_node_profile_key endpoint of
       Inl e \<Rightarrow> (r, Inl e)
     | Inr key \<Rightarrow>
         if key = [] then (r, Inl (ValueError ''profile endpoint is required''))
         else
           let p = updated_profile u (dget_or (rg_profiles r) key
                 \<lparr>pf_profile_key = key, pf_managed_tags = [], pf_enabled = True, pf_drain = False, pf_notes = []\<rparr>);
               profiles = dset key p (rg_profiles r)
           in (r\<lparr>rg_profiles := profiles, rg_nodes := dmap (\<lambda>_. reprofiled_node key profiles (pf_enabled p)) (rg_nodes r)\<rparr>,
               case saved of Some e \<Rightarrow> Inl e | None \<Rightarrow> Inr p))"

definition update_node_profile_for_instance ::
  "string \<Rightarrow> profile_update \<Rightarrow> py_error option \<Rightarrow> registry \<Rightarrow> registry \<times> (py_error + node_profile)" where
  "update_node_profile_for_instance node_instance_id u saved r =
    (if strip node_instance_id = [] then (r, Inl (ValueError ''node_instance_id is required''))
     else case dget (rg_nodes r) (strip node_instance_id) of
       None \<Rightarrow> (r, Inl (KeyError ''node not found''))
     | Some n \<Rightarrow> update_node_profile (addr_key (nd_control_addr n)) u saved r)"

end
