(* ===== verification/RegistryQueries.thy ===== *)
theory RegistryQueries
  imports NodeRegistry
begin

text \<open>
  The queries of \<open>controlplane/infocenter_state.py\<close>: routes of a service, their diagnosis and the
  lists of nodes. A query marks the stale nodes it meets, so it returns the registry as well. Rows
  keep the node and the service they describe; the columns the code copies from them unchanged are
  read off these two.
\<close>

definition SERVICE_STATUS_STOPPED :: int where "SERVICE_STATUS_STOPPED = 4"

section \<open>Service routes\<close>

definition fence_nodes :: "int \<Rightarrow> instant \<Rightarrow> string list \<Rightarrow> (string, node_state) dict \<Rightarrow> (string, node_state) dict" where
  "fence_nodes ttl now keys nodes = dmap (\<lambda>k n. if k \<in> set keys then fence_if_stale ttl now n else n) nodes"

definition candidate_node_ids :: "string \<Rightarrow> registry \<Rightarrow> string list" where
  "candidate_node_ids name r = (if name = [] then dkeys (rg_nodes r) else dget_or (rg_services_by_name r) name [])"

type_synonym route_snap = "bool \<times> node_state \<times> node_service"

definition node_snapshots :: "int \<Rightarrow> instant \<Rightarrow> bool \<Rightarrow> string \<Rightarrow> node_state \<Rightarrow> route_snap list" where
  "node_snapshots ttl now healthy_only name n0 =
    (let n = fence_if_stale ttl now n0; healthy = node_is_healthy ttl now n in
     if healthy_only \<and> \<not> healthy then []
     else map (\<lambda>s. (healthy, n, s)) (filter (\<lambda>s. name = [] \<or> ns_service_name s = name) (dvals (nd_services n))))"

definition route_snapshots :: "bool \<Rightarrow> instant \<Rightarrow> string \<Rightarrow> registry \<Rightarrow> route_snap list" where
  "route_snapshots healthy_only now name r =
    concat (map (\<lambda>k. case dget (rg_nodes r) k of None \<Rightarrow> []
      | Some n \<Rightarrow> node_snapshots (rg_lease_ttl_sec r) now healthy_only name n) (candidate_node_ids name r))"

record effective_state =
  es_status :: int
  es_alive :: int
  es_in_flight :: int
  es_lease_expire_at :: instant
  es_stale :: bool
  es_status_text :: string

definition effective_service_state :: "int \<Rightarrow> instant \<Rightarrow> node_state \<Rightarrow> node_service \<Rightarrow> effective_state" where
  "effective_service_state ttl now n s =
    (if node_is_healthy ttl now n
     then \<lparr>es_status = ns_status s, es_alive = ns_alive_workers s, es_in_flight = ns_in_flight s,
       es_lease_expire_at = ns_lease_expire_at s, es_stale = False, es_status_text = []\<rparr>
     else \<lparr>es_status = 0, es_alive = 0, es_in_flight = 0, es_lease_expire_at = now, es_stale = True, es_status_text = ''LOST''\<rparr>)"

definition predicted_busy_score :: "int \<Rightarrow> rat \<Rightarrow> int \<Rightarrow> rat" where
  "predicted_busy_score inflight ema_child_invoke_ms alive_workers =
    (let i = max 0 inflight; w = max 1 alive_workers; ema = max 0 ema_child_invoke_ms in
     if ema \<le> 0 then of_int i / of_int w else of_int i * ema / of_int w)"

datatype exclusion =
    NodeUnhealthy
  | NodeDrain
  | ResourceNotRunning int
  | ResourceDegraded string
  | MethodBlocked string payload
  | NotReady string

definition explicit_degraded :: "node_service \<Rightarrow> bool" where
  "explicit_degraded s \<longleftrightarrow>
    (let health = lower (strip (ns_resource_health s)); text = upper (strip (ns_status_text s));
         failing = (ns_method_failures s \<noteq> []); stop_reason = strip (ns_stop_reason s);
         method_only = (failing \<and> stop_reason = [] \<and> health = ''degraded'')
     in health \<in> set [''failed'', ''stopped'', ''node_lost''] \<or> (text = ''DEGRADED'' \<and> \<not> failing) \<or>
        (ns_degraded s \<and> \<not> method_only \<and> \<not> failing) \<or> stop_reason \<noteq> [])"

definition not_ready :: "node_service \<Rightarrow> bool" where
  "not_ready s \<longleftrightarrow>
    (let readiness = lower (strip (ns_readiness s)); prefix = ''method dependency failure'' in
     readiness \<noteq> [] \<and> readiness \<noteq> ''ready'' \<and>
     \<not> (ns_method_failures s \<noteq> [] \<and> take (length prefix) (strip (ns_readiness_reason s)) = prefix))"

definition service_call_route_exclusion_reasons :: "bool \<Rightarrow> node_state \<Rightarrow> node_service \<Rightarrow> int \<Rightarrow> string \<Rightarrow> exclusion list" where
  "service_call_route_exclusion_reasons healthy n s status method =
    (if is_call_route healthy status (nd_drain n) then []
     else (if healthy then [] else [NodeUnhealthy]) @ (if nd_drain n then [NodeDrain] else []) @
       (if status \<noteq> SERVICE_STATUS_RUNNING then [ResourceNotRunning status] else [])) @
    (if explicit_degraded s
     then [ResourceDegraded (str_or (strip (ns_stop_reason s)) (str_or (strip (ns_readiness_reason s))
       (str_or (lower (strip (ns_resource_health s))) ''resource is degraded'')))]
     else []) @
    (if method = [] then []
     else case dget (ns_method_failures s) method of None \<Rightarrow> [] | Some f \<Rightarrow> [MethodBlocked method f]) @
    (if not_ready s then [NotReady (str_or (strip (ns_readiness_reason s)) (''readiness is '' @ lower (strip (ns_readiness s))))]
     else [])"

record route_row =
  rr_node :: node_state
  rr_service :: node_service
  rr_node_healthy :: bool
  rr_status :: int
  rr_status_text :: string
  rr_resource_health :: string
  rr_policy_id :: string
  rr_stale :: bool
  rr_alive_workers :: int
  rr_in_flight :: int
  rr_reported_in_flight :: int
  rr_received_count :: int
  rr_returned_count :: int
  rr_ema_child_invoke_ms :: rat
  rr_ema_samples :: int
  rr_predicted_busy :: rat
  rr_lease_expire_at :: instant

definition route_row_of :: "int \<Rightarrow> instant \<Rightarrow> route_snap \<Rightarrow> route_row" where
  "route_row_of ttl now snap =
    (case snap of (healthy, n, s) \<Rightarrow>
      let e = effective_service_state ttl now n s;
          received = max 0 (ns_received_count s); returned = max 0 (ns_returned_count s);
          computed = (if 0 < received \<or> 0 < returned then max 0 (received - returned) else max 0 (es_in_flight e));
          effective = (if healthy then computed else 0);
          samples = max 0 (ns_ema_samples s); ema = max 0 (ns_ema_child_invoke_ms s)
      in \<lparr>rr_node = n, rr_service = s, rr_node_healthy = healthy, rr_status = es_status e,
          rr_status_text = str_or (ns_status_text s) (es_status_text e),
          rr_resource_health = str_or (ns_resource_health s)
            (if es_status e = SERVICE_STATUS_STOPPED then ''stopped'' else ''running''),
          rr_policy_id = str_or (lower (strip (ns_policy_id s))) ''default_safe'', rr_stale = es_stale e,
          rr_alive_workers = es_alive e, rr_in_flight = effective, rr_reported_in_flight = max 0 (ns_in_flight s),
          rr_received_count = received, rr_returned_count = returned, rr_ema_child_invoke_ms = ema, rr_ema_samples = samples,
          rr_predicted_busy = predicted_busy_score effective (if 10 \<le> samples then ema else 0) (es_alive e),
          rr_lease_expire_at = es_lease_expire_at e\<rparr>)"

definition route_included :: "int \<Rightarrow> instant \<Rightarrow> string \<Rightarrow> string \<Rightarrow> route_snap \<Rightarrow> bool" where
  "route_included ttl now scope method snap =
    (case snap of (healthy, n, s) \<Rightarrow>
      let status = es_status (effective_service_state ttl now n s) in
      if scope = ''call'' then service_call_route_exclusion_reasons healthy n s status method = []
      else if scope = ''owner_command'' then is_owner_target healthy status
      else if scope = ''exclusive_check'' then is_conflict_scope healthy status
      else is_call_route healthy status False)"

type_synonym row_key = "string \<times> bool \<times> int \<times> rat \<times> int \<times> int \<times> string \<times> string"

definition route_row_key :: "route_row \<Rightarrow> row_key" where
  "route_row_key x =
    (ns_service_name (rr_service x), \<not> rr_node_healthy x, if rr_status x \<noteq> SERVICE_STATUS_RUNNING then 1 else 0,
     rr_predicted_busy x, rr_in_flight x, - rr_alive_workers x, nd_node_id (rr_node x), ns_service_id (rr_service x))"

text \<open>\<open>heapq.nsmallest\<close> is documented to be the slice of the sorted list.\<close>

definition list_service_routes ::
  "string \<Rightarrow> bool \<Rightarrow> int \<Rightarrow> string \<Rightarrow> string \<Rightarrow> instant \<Rightarrow> registry \<Rightarrow> registry \<times> route_row list" where
  "list_service_routes service_name healthy_only limit route_scope method now r =
    (let name = strip service_name; scope = lower (strip (str_or route_scope ''call'')); ttl = rg_lease_ttl_sec r;
         snaps = route_snapshots healthy_only now name r;
         kept = (if healthy_only then filter (route_included ttl now scope (strip method)) snaps else snaps);
         rows = map (route_row_of ttl now) kept
     in (r\<lparr>rg_nodes := fence_nodes ttl now (candidate_node_ids name r) (rg_nodes r)\<rparr>,
         take (nat (max 1 limit)) (sort_key route_row_key rows)))"

record diagnosis_row =
  dr_included :: bool
  dr_reasons :: "exclusion list"
  dr_node :: node_state
  dr_service :: node_service
  dr_effective :: effective_state

definition diagnosis_row_of :: "int \<Rightarrow> instant \<Rightarrow> bool \<Rightarrow> string \<Rightarrow> route_snap \<Rightarrow> diagnosis_row" where
  "diagnosis_row_of ttl now healthy_only method snap =
    (case snap of (healthy, n, s) \<Rightarrow>
      let e = effective_service_state ttl now n s;
          reasons = (if healthy_only then service_call_route_exclusion_reasons healthy n s (es_status e) method else [])
      in \<lparr>dr_included = (reasons = []), dr_reasons = reasons, dr_node = n, dr_service = s, dr_effective = e\<rparr>)"

definition diagnosis_key :: "diagnosis_row \<Rightarrow> bool \<times> string \<times> string \<times> string" where
  "diagnosis_key x = (\<not> dr_included x, ns_service_name (dr_service x), nd_node_id (dr_node x), ns_service_id (dr_service x))"

text \<open>The included and the excluded count, and the first rows.\<close>

definition diagnose_service_routes ::
  "string \<Rightarrow> string \<Rightarrow> bool \<Rightarrow> int \<Rightarrow> instant \<Rightarrow> registry \<Rightarrow> registry \<times> int \<times> int \<times> diagnosis_row list" where
  "diagnose_service_routes service_name method healthy_only limit now r =
    (let name = strip service_name; ttl = rg_lease_ttl_sec r;
         rows = map (diagnosis_row_of ttl now healthy_only (strip method)) (route_snapshots False now name r)
     in (r\<lparr>rg_nodes := fence_nodes ttl now (candidate_node_ids name r) (rg_nodes r)\<rparr>,
         int (length (filter dr_included rows)), int (length (filter (\<lambda>x. \<not> dr_included x) rows)),
         take (nat (max 1 limit)) (sort_key diagnosis_key rows)))"

section \<open>Nodes\<close>

definition service_worker_available :: "node_state \<Rightarrow> int" where
  "service_worker_available n =
    max 0 (max 0 (nc_service_worker_capacity (nd_capacity n)) - max 0 (nc_service_worker_used (nd_capacity n)))"

definition node_rank :: "int \<Rightarrow> instant \<Rightarrow> node_state \<Rightarrow> bool \<times> bool \<times> bool \<times> int" where
  "node_rank ttl now n = (\<not> node_is_healthy ttl now n, \<not> nd_schedulable n, nd_drain n, - service_worker_available n)"

definition node_listed :: "int \<Rightarrow> instant \<Rightarrow> bool \<Rightarrow> string list \<Rightarrow> node_state \<Rightarrow> bool" where
  "node_listed ttl now healthy_only tags n \<longleftrightarrow>
     (healthy_only \<longrightarrow> node_is_healthy ttl now n) \<and> set tags \<subseteq> set (nt_tags (nd_tags n))"

text \<open>The health computed for a listed copy.\<close>

definition listed_copy :: "int \<Rightarrow> instant \<Rightarrow> node_state \<Rightarrow> node_state" where
  "listed_copy ttl now n = n\<lparr>nd_healthy := node_is_healthy ttl now n\<rparr>"

definition list_nodes :: "bool \<Rightarrow> string list \<Rightarrow> int \<Rightarrow> instant \<Rightarrow> registry \<Rightarrow> registry \<times> node_state list" where
  "list_nodes healthy_only tags limit now r =
    (let ttl = rg_lease_ttl_sec r; nodes = fence_nodes ttl now (dkeys (rg_nodes r)) (rg_nodes r);
         listed = filter (node_listed ttl now healthy_only tags) (dvals nodes)
     in (r\<lparr>rg_nodes := nodes\<rparr>, map (listed_copy ttl now) (take (nat (max 1 limit)) (sort_key (node_rank ttl now) listed))))"

definition requested :: "string list \<Rightarrow> string list" where
  "requested ids = filter (\<lambda>s. s \<noteq> []) (map strip ids)"

definition nodes_by_id :: "string \<Rightarrow> node_state list \<Rightarrow> node_state list" where
  "nodes_by_id node_id ns = filter (\<lambda>n. strip (nd_node_id n) = node_id) ns"

definition list_selected_nodes ::
  "bool \<Rightarrow> string list \<Rightarrow> int \<Rightarrow> string list \<Rightarrow> string list \<Rightarrow> instant \<Rightarrow> registry \<Rightarrow> registry \<times> (py_error + node_state list)" where
  "list_selected_nodes healthy_only tags limit node_ids node_instance_ids now r =
    (let ttl = rg_lease_ttl_sec r; insts = requested node_instance_ids; ids = requested node_ids;
         pick = (\<lambda>ns. map (listed_copy ttl now) (filter (node_listed ttl now healthy_only tags) ns))
     in if insts = [] \<and> ids = [] then (case list_nodes healthy_only tags limit now r of (r1, ns) \<Rightarrow> (r1, Inr ns))
        else if insts \<noteq> [] then
          (let nodes = fence_nodes ttl now insts (rg_nodes r)
           in (r\<lparr>rg_nodes := nodes\<rparr>, Inr (take (nat (max 1 limit)) (pick (List.map_filter (dget nodes) insts)))))
        else
          (let wanted = map fst (filter (\<lambda>(k, n). strip (nd_node_id n) \<in> set ids) (rg_nodes r));
               nodes = fence_nodes ttl now wanted (rg_nodes r);
               live = pick (List.map_filter (dget nodes) wanted)
           in (r\<lparr>rg_nodes := nodes\<rparr>,
               if \<exists>i \<in> set ids. 1 < length (nodes_by_id i live)
               then Inl (RuntimeError ''requested node_ids are ambiguous'')
               else Inr (take (nat (max 1 limit)) (concat (map (\<lambda>i. take 1 (nodes_by_id i live)) ids))))))"

end
