(* ===== verification/RegistryInvariants.thy ===== *)
theory RegistryInvariants
  imports RegistryQueries
begin

text \<open>
  The registry as a state machine: its events, what every event keeps, and the two invariants on
  which the queries rest. The index from service names to nodes is exact, and no two nodes are
  registered at one endpoint.
\<close>

section \<open>Events\<close>

datatype registry_event =
    Register registration instant
  | Heartbeat heartbeat instant
  | Lost string string instant
  | Schedule string "bool option" "bool option" "string option"
  | Profile string profile_update "py_error option"
  | Read "string list" instant

definition read_nodes :: "string list \<Rightarrow> instant \<Rightarrow> registry \<Rightarrow> registry" where
  "read_nodes keys now r = r\<lparr>rg_nodes := fence_nodes (rg_lease_ttl_sec r) now keys (rg_nodes r)\<rparr>"

fun registry_step :: "registry_event \<Rightarrow> registry \<Rightarrow> registry" where
  "registry_step (Register rq now) r = fst (register_node_record rq now r)"
| "registry_step (Heartbeat hb now) r = fst (heartbeat_record hb now r)"
| "registry_step (Lost key reason now) r = fst (mark_node_lost key reason now r)"
| "registry_step (Schedule key schedulable drain reason) r = fst (update_node_schedule_state key schedulable drain reason r)"
| "registry_step (Profile endpoint u saved) r = fst (update_node_profile endpoint u saved r)"
| "registry_step (Read keys now) r = read_nodes keys now r"

definition registry_run :: "registry_event list \<Rightarrow> registry \<Rightarrow> registry" where
  "registry_run evs r = fold registry_step evs r"

text \<open>The queries are reads.\<close>

lemma queries_read:
  "fst (list_service_routes name ho limit scope method now r) = read_nodes (candidate_node_ids (strip name) r) now r"
  "fst (diagnose_service_routes name method ho limit now r) = read_nodes (candidate_node_ids (strip name) r) now r"
  "fst (list_nodes ho tags limit now r) = read_nodes (dkeys (rg_nodes r)) now r"
  "\<exists>keys. fst (list_selected_nodes ho tags limit ids insts now r) = read_nodes keys now r"
  by (auto simp: list_service_routes_def diagnose_service_routes_def list_nodes_def list_selected_nodes_def read_nodes_def Let_def)

section \<open>The index\<close>

definition indexed :: "(string, string list) dict \<Rightarrow> string \<Rightarrow> string \<Rightarrow> bool" where
  "indexed ix name k \<longleftrightarrow> k \<in> set (dget_or ix name [])"

definition index_wf :: "(string, string list) dict \<Rightarrow> bool" where
  "index_wf ix \<longleftrightarrow> dwf ix \<and> (\<forall>name ms. dget ix name = Some ms \<longrightarrow> ms \<noteq> [] \<and> distinct ms)"

lemma removeAll_Nil_iff: "removeAll x xs = [] \<longleftrightarrow> set xs \<subseteq> {x}"
  by (induction xs) auto

lemma index_wfD: "index_wf ix \<Longrightarrow> dget ix name = Some ms \<Longrightarrow> ms \<noteq> [] \<and> distinct ms"
  unfolding index_wf_def by blast

lemma index_wf_dwf: "index_wf ix \<Longrightarrow> dwf ix"
  unfolding index_wf_def by blast

lemma index_wfI: "dwf ix \<Longrightarrow> (\<And>name ms. dget ix name = Some ms \<Longrightarrow> ms \<noteq> [] \<and> distinct ms) \<Longrightarrow> index_wf ix"
  unfolding index_wf_def by blast

lemma index_wf_dset:
  assumes wf: "index_wf ix" and "ms \<noteq> []" "distinct ms"
  shows "index_wf (dset name ms ix)"
proof (rule index_wfI)
  show "dwf (dset name ms ix)" using index_wf_dwf [OF wf] by (rule dwf_dset)
  show "ys \<noteq> [] \<and> distinct ys" if "dget (dset name ms ix) j = Some ys" for j ys
    using that assms(2,3) index_wfD [OF wf, of j ys] by (cases "j = name") (simp_all add: dict_simps)
qed

lemma index_wf_dpop:
  assumes wf: "index_wf ix"
  shows "index_wf (dpop name ix)"
proof (rule index_wfI)
  show "dwf (dpop name ix)" using index_wf_dwf [OF wf] by (rule dwf_dpop)
  show "ys \<noteq> [] \<and> distinct ys" if "dget (dpop name ix) j = Some ys" for j ys
    using that index_wfD [OF wf, of j ys] by (cases "j = name") (simp_all add: dict_simps)
qed

lemma indexed_discard: "indexed (index_discard key nm ix) name k \<longleftrightarrow> indexed ix name k \<and> \<not> (k = key \<and> name = strip nm \<and> name \<noteq> [])"
proof (cases "strip nm = [] \<or> dget ix (strip nm) = None")
  case True
  then show ?thesis by (auto simp: index_discard_def Let_def indexed_def dget_or_def split: option.splits)
next
  case False
  then obtain ms where ms: "dget ix (strip nm) = Some ms" by blast
  show ?thesis
  proof (cases "set ms \<subseteq> {key}")
    case True
    then show ?thesis using False ms removeAll_Nil_iff [of key ms]
      by (auto simp: index_discard_def Let_def indexed_def dget_or_def dict_simps)
  next
    case sub: False
    then show ?thesis using False ms removeAll_Nil_iff [of key ms]
      by (auto simp: index_discard_def Let_def indexed_def dget_or_def dict_simps)
  qed
qed

lemma index_wf_discard [invs]: "index_wf ix \<Longrightarrow> index_wf (index_discard key nm ix)"
proof (cases "dget ix (strip nm)")
  case (Some ms)
  assume wf: "index_wf ix"
  then have "distinct (removeAll key ms)" using index_wfD [OF wf Some] by (simp add: distinct_removeAll)
  then show ?thesis using Some wf index_wf_dpop [OF wf] index_wf_dset [OF wf, of "removeAll key ms"]
    by (simp add: index_discard_def Let_def)
qed (simp add: index_discard_def Let_def)

lemma indexed_add: "indexed (index_add key nm ix) name k \<longleftrightarrow> indexed ix name k \<or> (k = key \<and> name = nm)"
  by (auto simp: index_add_def Let_def indexed_def dget_or_def dict_simps split: option.splits)

lemma index_wf_add [invs]: "index_wf ix \<Longrightarrow> index_wf (index_add key nm ix)"
proof -
  assume wf: "index_wf ix"
  let ?ms = "dget_or ix nm []"
  have "distinct ?ms"
  proof (cases "dget ix nm")
    case (Some ms)
    then show ?thesis using index_wfD [OF wf Some] by (simp add: dget_or_def)
  qed (simp add: dget_or_def)
  then show ?thesis unfolding index_add_def Let_def by (intro index_wf_dset [OF wf]) auto
qed

lemma indexed_removes:
  "strip key = key \<Longrightarrow> key \<noteq> [] \<Longrightarrow> indexed (remove_services_index key names ix) name k \<longleftrightarrow>
    indexed ix name k \<and> \<not> (k = key \<and> name \<noteq> [] \<and> name \<in> strip ` set names)"
  unfolding remove_services_index_def by (induction names arbitrary: ix) (auto simp: indexed_discard)

lemma index_wf_removes [invs]: "index_wf ix \<Longrightarrow> index_wf (remove_services_index key names ix)"
  unfolding remove_services_index_def by (induction names arbitrary: ix) (auto simp: index_wf_discard)

lemma indexed_adds: "indexed (fold (index_add key) names ix) name k \<longleftrightarrow> indexed ix name k \<or> (k = key \<and> name \<in> set names)"
  by (induction names arbitrary: ix) (auto simp: indexed_add)

lemma index_wf_adds: "index_wf ix \<Longrightarrow> index_wf (fold (index_add key) names ix)"
  by (induction names arbitrary: ix) (auto simp: index_wf_add)

lemma index_wf_reindex [invs]: "index_wf ix \<Longrightarrow> index_wf (reindex_node_services n names ix)"
  by (simp add: reindex_node_services_def Let_def index_wf_adds index_wf_removes)

lemma service_names_stripped: "name \<in> set (service_names n) \<Longrightarrow> strip name = name \<and> name \<noteq> []"
  by (auto simp: service_names_def)

lemma service_names_image: "strip ` set (service_names n) = set (service_names n)"
  using service_names_stripped by force

lemma service_names_cong:
  assumes "nd_services n' = dmap f (nd_services n)" and "\<And>k s. ns_service_name (f k s) = ns_service_name s"
  shows "service_names n' = service_names n"
  unfolding service_names_def dvals_def dmap_def assms(1) by (simp add: comp_def case_prod_beta assms(2))

lemma stamped_names:
  "nd_services n' = fst (with_failure_timestamps now p (nd_services n) pools) \<Longrightarrow> service_names n' = service_names n"
  by (rule service_names_cong [where f = "\<lambda>k s. stamp_service now (dget (nd_services p) k) s"])
    (auto simp: with_failure_timestamps_def stamp_service_def Let_def)

section \<open>What the operations on one node keep\<close>

lemma apply_profile_sels [frame_simps]:
  "nd_services (apply_profile ps ts n) = nd_services n" "nd_node_instance_id (apply_profile ps ts n) = nd_node_instance_id n"
  "nd_control_addr (apply_profile ps ts n) = nd_control_addr n" "nd_healthy (apply_profile ps ts n) = nd_healthy n"
  "nd_last_seen_at (apply_profile ps ts n) = nd_last_seen_at n" "nd_node_id (apply_profile ps ts n) = nd_node_id n"
  "service_names (apply_profile ps ts n) = service_names n"
  by (auto simp: apply_profile_def Let_def service_names_def split: option.split)

lemma fence_sels [frame_simps]:
  "nd_services (fence_if_stale ttl now n) = nd_services n" "nd_node_instance_id (fence_if_stale ttl now n) = nd_node_instance_id n"
  "nd_control_addr (fence_if_stale ttl now n) = nd_control_addr n" "nd_last_seen_at (fence_if_stale ttl now n) = nd_last_seen_at n"
  "service_names (fence_if_stale ttl now n) = service_names n"
  "node_is_healthy ttl' t (fence_if_stale ttl now n) \<longleftrightarrow> node_is_healthy ttl' t n \<and> \<not> node_is_stale ttl now n"
  by (auto simp: fence_if_stale_def service_names_def node_is_healthy_def node_is_stale_def)

lemma registered_sels [frame_simps]:
  "nd_node_instance_id (registered_node rq inst now ps n) = inst" "nd_control_addr (registered_node rq inst now ps n) = rq_control_addr rq"
  by (simp_all add: registered_node_def Let_def case_prod_beta frame_simps)

lemma beaten_sels [frame_simps]:
  "nd_node_instance_id (beaten_node hb inst now ps n) = inst" "nd_control_addr (beaten_node hb inst now ps n) = nd_control_addr n"
  "hb_services hb = None \<Longrightarrow> service_names (beaten_node hb inst now ps n) = service_names n"
proof -
  show "nd_node_instance_id (beaten_node hb inst now ps n) = inst" "nd_control_addr (beaten_node hb inst now ps n) = nd_control_addr n"
    by (simp_all add: beaten_node_def Let_def case_prod_beta frame_simps)
  assume "hb_services hb = None"
  then have "nd_services (beaten_node hb inst now ps n) = nd_services n \<or>
      nd_services (beaten_node hb inst now ps n) =
        fst (with_failure_timestamps now n (nd_services n) (opt_or (hb_task_pools hb) (nd_task_pools n)))"
    by (simp add: beaten_node_def Let_def case_prod_beta frame_simps opt_or_def)
  then show "service_names (beaten_node hb inst now ps n) = service_names n"
    using stamped_names by (auto simp: service_names_def)
qed

lemma lost_sels [frame_simps]:
  "nd_node_instance_id (lost_node ttl now reason n) = nd_node_instance_id n" "nd_control_addr (lost_node ttl now reason n) = nd_control_addr n"
  by (simp_all add: lost_node_def Let_def)

lemma scheduled_sels [frame_simps]:
  "nd_node_instance_id (scheduled_node s d rs ps n) = nd_node_instance_id n" "nd_control_addr (scheduled_node s d rs ps n) = nd_control_addr n"
  "service_names (scheduled_node s d rs ps n) = service_names n"
  by (simp_all add: scheduled_node_def frame_simps) (simp add: service_names_def)

lemma reprofiled_sels [frame_simps]:
  "nd_node_instance_id (reprofiled_node key ps en n) = nd_node_instance_id n" "nd_control_addr (reprofiled_node key ps en n) = nd_control_addr n"
  "service_names (reprofiled_node key ps en n) = service_names n"
  by (simp_all add: reprofiled_node_def frame_simps) (simp add: service_names_def)

section \<open>The invariant\<close>

definition names_of :: "(string, node_state) dict \<Rightarrow> string \<Rightarrow> string list" where
  "names_of nodes k = (case dget nodes k of None \<Rightarrow> [] | Some n \<Rightarrow> service_names n)"

definition keyed :: "(string, node_state) dict \<Rightarrow> bool" where
  "keyed nodes \<longleftrightarrow> dwf nodes \<and>
     (\<forall>k n. dget nodes k = Some n \<longrightarrow> nd_node_instance_id n = k \<and> strip k = k \<and> k \<noteq> [])"

definition index_ok :: "registry \<Rightarrow> bool" where
  "index_ok r \<longleftrightarrow> keyed (rg_nodes r) \<and> index_wf (rg_services_by_name r) \<and>
     (\<forall>name k. indexed (rg_services_by_name r) name k \<longleftrightarrow> name \<in> set (names_of (rg_nodes r) k))"

definition address_clash :: "node_state \<Rightarrow> node_state \<Rightarrow> bool" where
  "address_clash n m \<longleftrightarrow> strip (nd_control_addr n) \<noteq> [] \<and>
     (strip (nd_control_addr m) = strip (nd_control_addr n) \<or>
      (addr_key (nd_control_addr n) \<noteq> [] \<and> addr_key (nd_control_addr m) = addr_key (nd_control_addr n)))"

definition addresses_ok :: "registry \<Rightarrow> bool" where
  "addresses_ok r \<longleftrightarrow>
     (\<forall>k n. dget (rg_nodes r) k = Some n \<longrightarrow> \<not> is_error (normalize_node_profile_key (nd_control_addr n))) \<and>
     (\<forall>k n k' m. dget (rg_nodes r) k = Some n \<longrightarrow> dget (rg_nodes r) k' = Some m \<longrightarrow> k \<noteq> k' \<longrightarrow> \<not> address_clash n m)"

definition registry_ok :: "registry \<Rightarrow> bool" where
  "registry_ok r \<longleftrightarrow> index_ok r \<and> addresses_ok r"

lemma registry_ok_new [invs]: "registry_ok (new_registry ttl ps)"
  by (simp add: registry_ok_def new_registry_def index_ok_def keyed_def index_wf_def indexed_def names_of_def dget_or_def addresses_ok_def)

lemma keyedD: "keyed nodes \<Longrightarrow> dget nodes k = Some n \<Longrightarrow> nd_node_instance_id n = k \<and> strip k = k \<and> k \<noteq> []"
  unfolding keyed_def by blast

lemma keyed_dset: "keyed nodes \<Longrightarrow> nd_node_instance_id n = k \<Longrightarrow> strip k = k \<Longrightarrow> k \<noteq> [] \<Longrightarrow> keyed (dset k n nodes)"
  by (auto simp: keyed_def dict_simps)

lemma index_ok_put:
  assumes ok: "index_ok r" and id: "nd_node_instance_id n = k" "strip k = k" "k \<noteq> []"
    and names: "prev = names_of (rg_nodes r) k"
  shows "index_ok (put_node k n prev r)"
proof -
  have ix: "indexed (reindex_node_services n prev (rg_services_by_name r)) name j \<longleftrightarrow>
      name \<in> set (names_of (dset k n (rg_nodes r)) j)" for name j
  proof -
    have prev: "strip ` set prev = set prev" "\<And>x. x \<in> set prev \<Longrightarrow> x \<noteq> []"
      using names service_names_image service_names_stripped by (auto simp: names_of_def split: option.splits)
    have "indexed (reindex_node_services n prev (rg_services_by_name r)) name j \<longleftrightarrow>
        (indexed (rg_services_by_name r) name j \<and> \<not> (j = k \<and> name \<in> set prev)) \<or> (j = k \<and> name \<in> set (service_names n))"
      using id prev by (auto simp: reindex_node_services_def Let_def indexed_adds indexed_removes)
    also have "\<dots> \<longleftrightarrow> name \<in> set (names_of (dset k n (rg_nodes r)) j)"
      using ok names by (auto simp: index_ok_def names_of_def dict_simps)
    finally show ?thesis .
  qed
  show ?thesis using ok id ix
    by (simp add: index_ok_def put_node_def keyed_dset index_wf_reindex)
qed

lemma index_ok_same_names:
  assumes "index_ok r" and "nd_node_instance_id n = k" "strip k = k" "k \<noteq> []" and "service_names n = names_of (rg_nodes r) k"
  shows "index_ok (r\<lparr>rg_nodes := dset k n (rg_nodes r)\<rparr>)"
proof -
  have "names_of (dset k n (rg_nodes r)) j = names_of (rg_nodes r) j" for j
    using assms(5) by (auto simp: names_of_def dict_simps)
  then show ?thesis using assms by (simp add: index_ok_def keyed_dset)
qed

lemma dmap_nodes_ok:
  assumes "registry_ok r" and "\<And>k n. nd_node_instance_id (f k n) = nd_node_instance_id n"
    and "\<And>k n. nd_control_addr (f k n) = nd_control_addr n" and "\<And>k n. service_names (f k n) = service_names n"
  shows "registry_ok (r\<lparr>rg_nodes := dmap f (rg_nodes r)\<rparr>)"
proof -
  have "names_of (dmap f (rg_nodes r)) j = names_of (rg_nodes r) j" for j
    using assms(4) by (simp add: names_of_def dict_simps split: option.split)
  moreover have "keyed (dmap f (rg_nodes r))" if "keyed (rg_nodes r)"
    using that assms(2) by (auto simp: keyed_def dict_simps)
  ultimately have "index_ok (r\<lparr>rg_nodes := dmap f (rg_nodes r)\<rparr>)" using assms(1) by (simp add: registry_ok_def index_ok_def)
  moreover have "addresses_ok (r\<lparr>rg_nodes := dmap f (rg_nodes r)\<rparr>)"
  proof -
    have clash: "address_clash (f k n) (f k' m) = address_clash n m" for k n k' m by (simp add: address_clash_def assms(3))
    have "addresses_ok r" using assms(1) by (simp add: registry_ok_def)
    then show ?thesis unfolding addresses_ok_def
      by (simp add: dict_simps) (metis (no_types, lifting) assms(3) clash map_option_eq_Some)
  qed
  ultimately show ?thesis by (simp add: registry_ok_def)
qed

lemma read_ok [invs]: "registry_ok r \<Longrightarrow> registry_ok (read_nodes keys now r)"
  unfolding read_nodes_def fence_nodes_def by (rule dmap_nodes_ok) (simp_all add: frame_simps)

lemma profiles_irrelevant: "registry_ok (r\<lparr>rg_profiles := ps\<rparr>) = registry_ok r"
  by (simp add: registry_ok_def index_ok_def addresses_ok_def)

lemma update_profile_ok [invs]: "registry_ok r \<Longrightarrow> registry_ok (fst (update_node_profile endpoint u saved r))"
proof -
  assume ok: "registry_ok r"
  have "registry_ok ((r\<lparr>rg_profiles := ps\<rparr>)\<lparr>rg_nodes := dmap (\<lambda>_. reprofiled_node key ps' en) (rg_nodes (r\<lparr>rg_profiles := ps\<rparr>))\<rparr>)"
    for key ps ps' en
    by (rule dmap_nodes_ok) (simp_all add: profiles_irrelevant ok frame_simps)
  then show ?thesis using ok by (simp add: update_node_profile_def Let_def split: sum.split)
qed

section \<open>Dropping nodes\<close>

lemma drop_node_get: "keyed (rg_nodes r) \<Longrightarrow> dget (rg_nodes (drop_node key r)) k = (if k = key then None else dget (rg_nodes r) k)"
  by (simp add: drop_node_def dict_simps split: option.split)

lemma drop_node_frame [frame_simps]:
  "rg_profiles (drop_node key r) = rg_profiles r" "rg_lease_ttl_sec (drop_node key r) = rg_lease_ttl_sec r"
  by (simp_all add: drop_node_def split: option.split)

lemma drop_node_index: "index_ok r \<Longrightarrow> index_ok (drop_node key r)"
proof (cases "dget (rg_nodes r) key")
  case None
  assume "index_ok r"
  then show ?thesis using None by (simp add: drop_node_def)
next
  case (Some n)
  assume ok: "index_ok r"
  then have id: "nd_node_instance_id n = key" "strip key = key" "key \<noteq> []"
    using keyedD Some by (auto simp: index_ok_def)
  have nonempty: "x \<noteq> []" if "x \<in> set (service_names n)" for x using service_names_stripped that by blast
  have "indexed (remove_services_index key (service_names n) (rg_services_by_name r)) name k \<longleftrightarrow>
      name \<in> set (names_of (dpop key (rg_nodes r)) k)" for name k
    using ok Some id nonempty by (auto simp: indexed_removes service_names_image index_ok_def names_of_def dict_simps)
  moreover have "keyed (dpop key (rg_nodes r))" using ok by (auto simp: index_ok_def keyed_def dict_simps)
  ultimately show ?thesis using ok Some id by (simp add: drop_node_def index_ok_def index_wf_removes)
qed

lemma drop_nodes_index: "index_ok r \<Longrightarrow> index_ok (fold drop_node ks r)"
  by (induction ks arbitrary: r) (auto simp: drop_node_index)

lemma drop_nodes_get:
  "index_ok r \<Longrightarrow> dget (rg_nodes (fold drop_node ks r)) k = (if k \<in> set ks then None else dget (rg_nodes r) k)"
proof (induction ks arbitrary: r)
  case (Cons j ks)
  then have "keyed (rg_nodes r)" by (simp add: index_ok_def)
  then show ?case using Cons.IH [OF drop_node_index [OF Cons.prems]] by (simp add: drop_node_get)
qed simp

lemma drop_nodes_frame [frame_simps]:
  "rg_profiles (fold drop_node ks r) = rg_profiles r" "rg_lease_ttl_sec (fold drop_node ks r) = rg_lease_ttl_sec r"
  by (induction ks arbitrary: r) (simp_all add: frame_simps)

lemma drop_nodes_ok [invs]: "registry_ok r \<Longrightarrow> registry_ok (fold drop_node ks r)"
proof -
  assume ok: "registry_ok r"
  have sub: "dget (rg_nodes r) k = Some n" if "dget (rg_nodes (fold drop_node ks r)) k = Some n" for k n
    using that ok by (simp add: registry_ok_def drop_nodes_get split: if_splits)
  have "addresses_ok (fold drop_node ks r)"
    using ok sub unfolding registry_ok_def addresses_ok_def by metis
  then show ?thesis using ok by (simp add: registry_ok_def drop_nodes_index)
qed

section \<open>Registration\<close>

lemma prune_get:
  assumes "index_ok r" and "prune_replaced_nodes inst addr r = (r1, None)" and "strip inst = inst"
  shows "dget (rg_nodes r1) k = (case dget (rg_nodes r) k of None \<Rightarrow> None
    | Some n \<Rightarrow> if inst \<noteq> [] \<and> strip addr \<noteq> [] \<and> k \<noteq> inst \<and> same_endpoint (strip addr) (addr_key addr) n then None else Some n)"
proof (cases "inst = [] \<or> strip addr = []")
  case True
  then show ?thesis using assms by (auto simp: prune_replaced_nodes_def Let_def split: option.split)
next
  case False
  then obtain key where key: "normalize_node_profile_key addr = Inr key"
    using assms by (auto simp: prune_replaced_nodes_def Let_def profile_key_strip split: sum.splits)
  let ?ks = "map fst (filter (\<lambda>(k, n). k \<noteq> inst \<and> same_endpoint (strip addr) key n) (rg_nodes r))"
  have r1: "r1 = fold drop_node ?ks r"
    using False key assms(2,3) by (simp add: prune_replaced_nodes_def Let_def profile_key_strip)
  have wf: "dwf (rg_nodes r)" using assms(1) by (simp add: index_ok_def keyed_def)
  have mem: "k \<in> set ?ks \<longleftrightarrow> (\<exists>n. (k, n) \<in> set (rg_nodes r) \<and> k \<noteq> inst \<and> same_endpoint (strip addr) key n)" by force
  have addr: "addr_key addr = key" using key by (simp add: addr_key_def)
  show ?thesis
  proof (cases "dget (rg_nodes r) k")
    case None
    then show ?thesis unfolding r1 drop_nodes_get [OF assms(1)] by simp
  next
    case (Some n)
    then have "(k, m) \<in> set (rg_nodes r) \<longleftrightarrow> m = n" for m using in_dget [OF wf, of k m] dget_in [OF Some] by auto
    then have "k \<in> set ?ks \<longleftrightarrow> k \<noteq> inst \<and> same_endpoint (strip addr) key n" using mem by simp
    then show ?thesis unfolding r1 drop_nodes_get [OF assms(1)] using Some False addr by (cases "k = inst") simp_all
  qed
qed

lemma prune_ok: "registry_ok r \<Longrightarrow> registry_ok (fst (prune_replaced_nodes inst addr r))"
  by (auto simp: prune_replaced_nodes_def Let_def drop_nodes_ok split: sum.split)

lemma prune_frame [frame_simps]: "rg_profiles (fst (prune_replaced_nodes inst addr r)) = rg_profiles r"
  by (simp add: prune_replaced_nodes_def Let_def frame_simps split: sum.split)

lemma validate_shape:
  obtains ks where "fst (validate_startup_service_names inst addr md ss now r) = fold drop_node ks r"
proof (cases "fst (validate_startup_service_names inst addr md ss now r) = r")
  case True
  then show ?thesis using that [of "[]"] by simp
next
  case False
  then show ?thesis using that
    by (auto simp: validate_startup_service_names_def split: if_splits sum.splits)
qed

lemma fresh_node_sels [simp]:
  "service_names (fresh_node inst i addr c q py now) = []" "nd_control_addr (fresh_node inst i addr c q py now) = addr"
  by (simp_all add: fresh_node_def service_names_def dvals_def)

lemma addresses_ok_put:
  assumes "addresses_ok r" and "\<not> is_error (normalize_node_profile_key (nd_control_addr n))"
    and "\<And>k' m. dget (rg_nodes r) k' = Some m \<Longrightarrow> k' \<noteq> k \<Longrightarrow> \<not> address_clash n m \<and> \<not> address_clash m n"
  shows "addresses_ok (r\<lparr>rg_nodes := dset k n (rg_nodes r)\<rparr>)" and "addresses_ok (put_node k n prev r)"
  using assms by (auto simp: addresses_ok_def put_node_def dict_simps)

lemma address_clash_sym_blank:
  "strip (nd_control_addr n) = [] \<Longrightarrow> \<not> address_clash m n \<and> \<not> address_clash n m"
proof -
  assume blank: "strip (nd_control_addr n) = []"
  have "normalize_node_profile_key (nd_control_addr n) = Inr []" using profile_key_strip [of "nd_control_addr n"] blank by simp
  then show ?thesis using blank by (auto simp: address_clash_def addr_key_def)
qed

lemma put_old_addr:
  assumes ok: "registry_ok r" and addr: "nd_control_addr n = (case dget (rg_nodes r) k of Some m \<Rightarrow> nd_control_addr m | None \<Rightarrow> [])"
  shows "addresses_ok (r\<lparr>rg_nodes := dset k n (rg_nodes r)\<rparr>)" "addresses_ok (put_node k n prev r)"
proof -
  have "\<not> is_error (normalize_node_profile_key (nd_control_addr n)) \<and>
      (\<forall>k' m. dget (rg_nodes r) k' = Some m \<longrightarrow> k' \<noteq> k \<longrightarrow> \<not> address_clash n m \<and> \<not> address_clash m n)"
  proof (cases "dget (rg_nodes r) k")
    case None
    then have "strip (nd_control_addr n) = []" "nd_control_addr n = []" using addr by simp_all
    then show ?thesis using address_clash_sym_blank by simp
  next
    case (Some m0)
    then have a: "nd_control_addr n = nd_control_addr m0" using addr by simp
    have "\<not> address_clash m0 m \<and> \<not> address_clash m m0" if "dget (rg_nodes r) k' = Some m" "k' \<noteq> k" for k' m
      using ok that Some unfolding registry_ok_def addresses_ok_def by metis
    moreover have "\<not> is_error (normalize_node_profile_key (nd_control_addr m0))"
      using ok Some unfolding registry_ok_def addresses_ok_def by blast
    ultimately show ?thesis by (simp add: a address_clash_def)
  qed
  then show "addresses_ok (r\<lparr>rg_nodes := dset k n (rg_nodes r)\<rparr>)" "addresses_ok (put_node k n prev r)"
    using ok addresses_ok_put [of r n k] by (auto simp: registry_ok_def)
qed

section \<open>Every event keeps the invariant\<close>

lemma put_ok:
  assumes "registry_ok r" and "nd_node_instance_id n = k" "strip k = k" "k \<noteq> []" and "prev = names_of (rg_nodes r) k"
    and "nd_control_addr n = (case dget (rg_nodes r) k of Some m \<Rightarrow> nd_control_addr m | None \<Rightarrow> [])"
  shows "registry_ok (put_node k n prev r)"
  using index_ok_put [OF _ assms(2-5)] put_old_addr(2) [OF assms(1,6)] assms(1) by (simp add: registry_ok_def)

lemma lost_ok [invs]: "registry_ok r \<Longrightarrow> registry_ok (fst (mark_node_lost key reason now r))"
proof (cases "dget (rg_nodes r) key")
  case (Some n0)
  assume ok: "registry_ok r"
  have id: "nd_node_instance_id n0 = key \<and> strip key = key \<and> key \<noteq> []"
    using ok keyedD [OF _ Some] by (simp add: registry_ok_def index_ok_def)
  have "registry_ok (put_node key (lost_node (rg_lease_ttl_sec r) now reason n0) (service_names n0) r)"
    by (rule put_ok [OF ok]) (use id Some in \<open>simp_all add: frame_simps names_of_def\<close>)
  then show ?thesis using Some by (simp add: mark_node_lost_def Let_def)
qed (simp add: mark_node_lost_def)

lemma schedule_ok [invs]: "registry_ok r \<Longrightarrow> registry_ok (fst (update_node_schedule_state key s d rs r))"
proof (cases "dget (rg_nodes r) key")
  case (Some n0)
  assume ok: "registry_ok r"
  let ?n = "scheduled_node s d rs (rg_profiles r) n0"
  have id: "nd_node_instance_id n0 = key \<and> strip key = key \<and> key \<noteq> []"
    using ok keyedD [OF _ Some] by (simp add: registry_ok_def index_ok_def)
  have "index_ok (r\<lparr>rg_nodes := dset key ?n (rg_nodes r)\<rparr>)"
    by (rule index_ok_same_names) (use ok id Some in \<open>simp_all add: frame_simps names_of_def registry_ok_def\<close>)
  moreover have "addresses_ok (r\<lparr>rg_nodes := dset key ?n (rg_nodes r)\<rparr>)"
    by (rule put_old_addr(1) [OF ok]) (use Some in \<open>simp add: frame_simps\<close>)
  ultimately show ?thesis using Some by (simp add: update_node_schedule_state_def Let_def registry_ok_def)
qed (simp add: update_node_schedule_state_def)

lemma heartbeat_ok [invs]: "registry_ok r \<Longrightarrow> registry_ok (fst (heartbeat_record hb now r))"
proof -
  assume ok: "registry_ok r"
  let ?i = "strip (str_or (hb_node_instance_id hb) (hb_node_id hb))"
  let ?old = "case dget (rg_nodes r) ?i of Some n \<Rightarrow> n | None \<Rightarrow> fresh_node ?i (hb_node_id hb) [] 1 1 (strip (hb_python_version hb)) now"
  let ?n = "beaten_node hb ?i now (rg_profiles r) ?old"
  have names: "service_names ?old = names_of (rg_nodes r) ?i" by (simp add: names_of_def split: option.split)
  have addr: "nd_control_addr ?n = (case dget (rg_nodes r) ?i of Some m \<Rightarrow> nd_control_addr m | None \<Rightarrow> [])"
    by (simp add: frame_simps split: option.split)
  show ?thesis
  proof (cases "?i = []")
    case True
    then show ?thesis using ok by (simp add: heartbeat_record_def)
  next
    case ne: False
    show ?thesis
    proof (cases "hb_services hb = None")
      case True
      have "index_ok (r\<lparr>rg_nodes := dset ?i ?n (rg_nodes r)\<rparr>)"
      proof (rule index_ok_same_names)
        show "service_names ?n = names_of (rg_nodes r) ?i" using names by (simp only: beaten_sels(3) [OF True])
      qed (use ok ne in \<open>simp_all add: beaten_sels(1) registry_ok_def\<close>)
      then have "registry_ok (r\<lparr>rg_nodes := dset ?i ?n (rg_nodes r)\<rparr>)" using put_old_addr(1) [OF ok addr] by (simp add: registry_ok_def)
      then show ?thesis using ne True by (simp add: heartbeat_record_def Let_def)
    next
      case False
      have "registry_ok (put_node ?i ?n (service_names ?old) r)"
        by (rule put_ok [OF ok _ _ ne names addr]) (simp_all add: frame_simps)
      moreover obtain ss where "hb_services hb = Some ss" using False by blast
      ultimately show ?thesis using ne by (simp add: heartbeat_record_def Let_def)
    qed
  qed
qed

text \<open>After the pruning nobody else has the address that is about to be registered.\<close>

lemma pruned_free:
  assumes ok: "registry_ok r" and p: "prune_replaced_nodes inst addr r = (r1, None)" and inst: "strip inst = inst" "inst \<noteq> []"
    and m: "dget (rg_nodes r1) k = Some m" "k \<noteq> inst" and n: "nd_control_addr n = addr"
  shows "\<not> address_clash n m \<and> \<not> address_clash m n \<and> \<not> is_error (normalize_node_profile_key addr)"
proof (cases "strip addr = []")
  case True
  then have "normalize_node_profile_key addr = Inr []" using profile_key_strip [of addr] by simp
  then show ?thesis using address_clash_sym_blank [of n m] True n by simp
next
  case False
  then obtain key where key: "normalize_node_profile_key addr = Inr key"
    using p inst by (auto simp: prune_replaced_nodes_def Let_def profile_key_strip split: sum.splits)
  have "index_ok r" using ok by (simp add: registry_ok_def)
  from prune_get [OF this p inst(1), of k] have "\<not> same_endpoint (strip addr) (addr_key addr) m"
    using m inst(2) False by (auto split: option.splits if_splits)
  then show ?thesis using n key False by (auto simp: same_endpoint_def address_clash_def)
qed

lemma register_ok [invs]: "registry_ok r \<Longrightarrow> registry_ok (fst (register_node_record rq now r))"
proof -
  assume ok: "registry_ok r"
  let ?i = "strip (str_or (rq_node_instance_id rq) (rq_node_id rq))"
  obtain r1 e1 where p: "prune_replaced_nodes ?i (rq_control_addr rq) r = (r1, e1)" by fastforce
  obtain r2 e2 where v: "validate_startup_service_names ?i (rq_control_addr rq) (rq_metadata rq) (rq_services rq) now r1 = (r2, e2)" by fastforce
  obtain ks where ks: "r2 = fold drop_node ks r1"
    using validate_shape [of ?i "rq_control_addr rq" "rq_metadata rq" "rq_services rq" now r1] v by auto
  have ok1: "registry_ok r1" using prune_ok [OF ok, of ?i "rq_control_addr rq"] p by simp
  then have ok2: "registry_ok r2" using ks drop_nodes_ok by simp
  show ?thesis
  proof (cases "?i = [] \<or> e1 \<noteq> None \<or> e2 \<noteq> None")
    case True
    then show ?thesis using ok ok1 ok2 p v by (cases e1; cases e2) (auto simp: register_node_record_def Let_def)
  next
    case False
    then have ne: "?i \<noteq> []" and e: "e1 = None" "e2 = None" by auto
    let ?old = "case dget (rg_nodes r2) ?i of Some n \<Rightarrow> n | None \<Rightarrow> fresh_node ?i (rq_node_id rq) (rq_control_addr rq)
      (max 1 (rq_capacity rq)) (max 1 (rq_queue_capacity rq)) (strip (rq_python_version rq)) now"
    let ?n = "registered_node rq ?i now (rg_profiles r2) ?old"
    have names: "service_names ?old = names_of (rg_nodes r2) ?i" by (simp add: names_of_def split: option.split)
    have "index_ok (put_node ?i ?n (service_names ?old) r2)"
      by (rule index_ok_put) (use ok2 ne names in \<open>simp_all add: frame_simps registry_ok_def\<close>)
    moreover have "addresses_ok (put_node ?i ?n (service_names ?old) r2)"
    proof (rule addresses_ok_put(2))
      show "addresses_ok r2" using ok2 by (simp add: registry_ok_def)
      have addr: "nd_control_addr ?n = rq_control_addr rq" by (simp add: frame_simps)
      have "\<not> is_error (normalize_node_profile_key (rq_control_addr rq))"
        using p e ne profile_key_strip [of "rq_control_addr rq"]
        by (auto simp: prune_replaced_nodes_def Let_def split: if_splits sum.splits) (metis is_error_simps(2) profile_key_blank profile_key_strip)
      then show "\<not> is_error (normalize_node_profile_key (nd_control_addr ?n))" unfolding addr .
      fix k' m assume m: "dget (rg_nodes r2) k' = Some m" "k' \<noteq> ?i"
      then have "dget (rg_nodes r1) k' = Some m" using ks drop_nodes_get [of r1 ks k'] ok1 by (simp add: registry_ok_def split: if_splits)
      from pruned_free [OF ok p [unfolded e] strip_idem ne this m(2) addr]
      show "\<not> address_clash ?n m \<and> \<not> address_clash m ?n" by blast
    qed
    ultimately show ?thesis using ne e p v by (simp add: register_node_record_def Let_def registry_ok_def)
  qed
qed

lemma registry_step_ok: "registry_ok r \<Longrightarrow> registry_ok (registry_step e r)"
  by (cases e) (simp_all add: register_ok heartbeat_ok lost_ok schedule_ok update_profile_ok read_ok)

lemma registry_run_ok: "registry_ok r \<Longrightarrow> registry_ok (registry_run evs r)"
  unfolding registry_run_def by (induction evs arbitrary: r) (auto simp: registry_step_ok)

end
