(* ===== verification/RegistryGuarantees.thy ===== *)
theory RegistryGuarantees
  imports RegistryInvariants
begin

text \<open>
  What the registry guarantees to its clients: the index, the endpoints, the routes of a call;
  and two surprises: a stale read cordons a node for good, and a registration that is refused has
  already removed the nodes at its address.
\<close>

section \<open>Histories\<close>

text \<open>C7: After every history of the registry, a name leads to a node exactly when the node is
  registered and reports a service of that name.\<close>

theorem registry_index_exact:
  "indexed (rg_services_by_name (registry_run evs (new_registry ttl ps))) name k \<longleftrightarrow>
    (\<exists>n. dget (rg_nodes (registry_run evs (new_registry ttl ps))) k = Some n \<and> name \<in> set (service_names n))"
proof -
  let ?r = "registry_run evs (new_registry ttl ps)"
  have "index_ok ?r" using registry_run_ok [OF registry_ok_new] by (simp add: registry_ok_def)
  then have "indexed (rg_services_by_name ?r) name k \<longleftrightarrow> name \<in> set (names_of (rg_nodes ?r) k)" unfolding index_ok_def by blast
  then show ?thesis by (cases "dget (rg_nodes ?r) k") (simp_all add: names_of_def)
qed

text \<open>C26: After every history, two nodes with an address differ in the address and in the host and
  port it parses to.\<close>

theorem one_node_per_endpoint:
  assumes "r = registry_run evs (new_registry ttl ps)"
    and "dget (rg_nodes r) k = Some n" and "dget (rg_nodes r) k' = Some m" and "k \<noteq> k'" and "strip (nd_control_addr n) \<noteq> []"
  shows "strip (nd_control_addr m) \<noteq> strip (nd_control_addr n) \<and>
    (addr_key (nd_control_addr n) = [] \<or> addr_key (nd_control_addr m) \<noteq> addr_key (nd_control_addr n))"
proof -
  have "registry_ok r" unfolding assms(1) by (rule registry_run_ok [OF registry_ok_new])
  then have "\<not> address_clash n m" using assms(2-4) unfolding registry_ok_def addresses_ok_def by blast
  then show ?thesis using assms(5) by (auto simp: address_clash_def)
qed

section \<open>Routes of a call\<close>

definition callable :: "int \<Rightarrow> instant \<Rightarrow> string \<Rightarrow> node_state \<Rightarrow> node_service \<Rightarrow> bool" where
  "callable ttl now method n s \<longleftrightarrow>
     node_is_healthy ttl now n \<and> \<not> nd_drain n \<and> ns_status s = SERVICE_STATUS_RUNNING \<and> \<not> explicit_degraded s \<and> \<not> not_ready s \<and>
     (method = [] \<or> dget (ns_method_failures s) method = None)"

lemma fence_healthy: "node_is_healthy ttl now n \<Longrightarrow> fence_if_stale ttl now n = n"
  by (simp add: fence_if_stale_def node_is_healthy_def)

lemma node_snapshots_healthy:
  "x \<in> set (node_snapshots ttl now True name n) \<longleftrightarrow> node_is_healthy ttl now n \<and>
    (\<exists>s \<in> set (dvals (nd_services n)). (name = [] \<or> ns_service_name s = name) \<and> x = (True, n, s))"
  by (cases "node_is_healthy ttl now n") (auto simp: node_snapshots_def Let_def frame_simps fence_healthy)

lemma candidates_complete:
  assumes "registry_ok r" and "dget (rg_nodes r) k = Some n" and "s \<in> set (dvals (nd_services n))"
    and "name = [] \<or> ns_service_name s = name" and "strip name = name"
  shows "k \<in> set (candidate_node_ids name r)"
proof (cases "name = []")
  case True
  then show ?thesis using assms(2) by (auto simp: candidate_node_ids_def set_dkeys)
next
  case False
  then have "name \<in> set (service_names n)" using assms(3-5) by (force simp: service_names_def)
  then have "indexed (rg_services_by_name r) name k"
    using assms(1,2) by (simp add: registry_ok_def index_ok_def names_of_def)
  then show ?thesis using False by (simp add: candidate_node_ids_def indexed_def)
qed

lemma included_callable:
  "node_is_healthy ttl now n \<Longrightarrow> route_included ttl now ''call'' method (True, n, s) \<longleftrightarrow> callable ttl now method n s"
  by (auto simp: route_included_def service_call_route_exclusion_reasons_def callable_def effective_service_state_def
      is_call_route_def Let_def split: option.split)

text \<open>C27: The routes of a call are the first \<open>limit\<close>, in the order of the scheduling key, of exactly
  the services of that name that run on a healthy, undrained node within its lease, are neither
  degraded nor unready and have not reported a failure of the method.\<close>

theorem call_routes_exact:
  assumes "registry_ok r" and "list_service_routes service_name True limit ''call'' method now r = (r', rows)"
  shows "\<exists>all. rows = take (nat (max 1 limit)) (sort_key route_row_key all) \<and>
    set all = {route_row_of (rg_lease_ttl_sec r) now (True, n, s) | k n s. dget (rg_nodes r) k = Some n \<and>
      s \<in> set (dvals (nd_services n)) \<and> (strip service_name = [] \<or> ns_service_name s = strip service_name) \<and>
      callable (rg_lease_ttl_sec r) now (strip method) n s}"
proof -
  let ?name = "strip service_name" and ?ttl = "rg_lease_ttl_sec r"
  have call: "lower (strip ''call'') = ''call''" by code_simp
  let ?kept = "filter (route_included ?ttl now ''call'' (strip method)) (route_snapshots True now ?name r)"
  have rows: "rows = take (nat (max 1 limit)) (sort_key route_row_key (map (route_row_of ?ttl now) ?kept))"
    using assms(2) by (auto simp: list_service_routes_def Let_def call)
  define Q where "Q k n s \<longleftrightarrow> dget (rg_nodes r) k = Some n \<and> s \<in> set (dvals (nd_services n)) \<and>
      (?name = [] \<or> ns_service_name s = ?name) \<and> callable ?ttl now (strip method) n s" for k n s
  have kept: "x \<in> set ?kept \<longleftrightarrow> (\<exists>k n s. x = (True, n, s) \<and> Q k n s)" for x
  proof
    assume "x \<in> set ?kept"
    then have inc: "route_included ?ttl now ''call'' (strip method) x" and "x \<in> set (route_snapshots True now ?name r)" by auto
    then obtain k where "x \<in> set (case dget (rg_nodes r) k of None \<Rightarrow> [] | Some n \<Rightarrow> node_snapshots ?ttl now True ?name n)"
      by (auto simp: route_snapshots_def)
    then obtain n where "dget (rg_nodes r) k = Some n" "x \<in> set (node_snapshots ?ttl now True ?name n)"
      by (cases "dget (rg_nodes r) k") auto
    then show "\<exists>k n s. x = (True, n, s) \<and> Q k n s"
      unfolding node_snapshots_healthy Q_def using included_callable inc by blast
  next
    assume "\<exists>k n s. x = (True, n, s) \<and> Q k n s"
    then obtain k n s where x: "x = (True, n, s)" and n: "dget (rg_nodes r) k = Some n" and s: "s \<in> set (dvals (nd_services n))"
      "?name = [] \<or> ns_service_name s = ?name" and c: "callable ?ttl now (strip method) n s" unfolding Q_def by blast
    have h: "node_is_healthy ?ttl now n" using c by (simp add: callable_def)
    have "x \<in> set (node_snapshots ?ttl now True ?name n)" unfolding node_snapshots_healthy using h s x by blast
    moreover have "k \<in> set (candidate_node_ids ?name r)" by (rule candidates_complete [OF assms(1) n s strip_idem])
    ultimately have "x \<in> set (route_snapshots True now ?name r)" using n by (force simp: route_snapshots_def)
    then show "x \<in> set ?kept" using included_callable [OF h] c x by simp
  qed
  have "set (map (route_row_of ?ttl now) ?kept) = {route_row_of ?ttl now (True, n, s) | k n s. Q k n s}"
    unfolding set_map image_def Bex_def kept by blast
  then show ?thesis using rows unfolding Q_def by blast
qed

section \<open>A stale read cordons a node\<close>

definition cordoned :: "node_state \<Rightarrow> bool" where
  "cordoned n \<longleftrightarrow> \<not> nd_schedulable n \<and> nd_reason n \<noteq> [] \<and> nd_reason n \<noteq> DISABLED_REASON"

text \<open>Events other than an operator's schedule command and registrations under other keys.\<close>

definition ordinary :: "string \<Rightarrow> registry_event \<Rightarrow> bool" where
  "ordinary k e \<longleftrightarrow> (case e of
     Register rq now \<Rightarrow> strip (str_or (rq_node_instance_id rq) (rq_node_id rq)) = k
   | Schedule key schedulable drain reason \<Rightarrow> key \<noteq> k
   | Lost key reason now \<Rightarrow> reason \<noteq> DISABLED_REASON
   | _ \<Rightarrow> True)"

definition holds_at :: "(node_state \<Rightarrow> bool) \<Rightarrow> string \<Rightarrow> registry \<Rightarrow> bool" where
  "holds_at P k r \<longleftrightarrow> (\<exists>n. dget (rg_nodes r) k = Some n \<and> P n)"

lemma cordoned_profile: "cordoned n \<Longrightarrow> cordoned (apply_profile ps ts n)"
  by (auto simp: cordoned_def apply_profile_def Let_def split: option.split)

lemma cordoned_cong: "nd_schedulable n' = nd_schedulable n \<Longrightarrow> nd_reason n' = nd_reason n \<Longrightarrow> cordoned n \<Longrightarrow> cordoned n'"
  by (simp add: cordoned_def)

lemma cordoned_ops:
  assumes "cordoned n"
  shows "cordoned (fence_if_stale ttl now n)" "cordoned (beaten_node hb inst now ps n)"
    "cordoned (registered_node rq inst now ps n)" "cordoned (reprofiled_node key ps en n)"
    "reason \<noteq> DISABLED_REASON \<Longrightarrow> cordoned (lost_node ttl now reason n)"
proof -
  show "cordoned (fence_if_stale ttl now n)" using assms by (auto simp: fence_if_stale_def cordoned_def)
  show "cordoned (beaten_node hb inst now ps n)"
    unfolding beaten_node_def Let_def case_prod_beta by (rule cordoned_profile, rule cordoned_cong [OF _ _ assms]) simp_all
  show "cordoned (registered_node rq inst now ps n)"
    unfolding registered_node_def Let_def case_prod_beta
    by (rule cordoned_cong [OF _ _ cordoned_profile], simp, simp, rule cordoned_cong [OF _ _ assms]) simp_all
  show "cordoned (reprofiled_node key ps en n)" using assms cordoned_profile [OF assms] by (simp add: reprofiled_node_def cordoned_def)
  show "cordoned (lost_node ttl now reason n)" if "reason \<noteq> DISABLED_REASON"
    using assms that by (auto simp: lost_node_def Let_def cordoned_def str_or_def)
qed

lemma holds_at_put: "holds_at P k (put_node key n prev r) \<longleftrightarrow> (if k = key then P n else holds_at P k r)"
  by (auto simp: holds_at_def put_node_def dict_simps)

lemma holds_at_nodes: "rg_nodes r' = rg_nodes r \<Longrightarrow> holds_at P k r' = holds_at P k r"
  by (simp add: holds_at_def)

lemma startup_replaced_other: "startup_replaced ttl now inst addr inc ns = Inr ks \<Longrightarrow> inst \<notin> set ks"
  by (induction ns arbitrary: ks) (auto simp: ebind_eq_Inr split: if_splits prod.splits)

lemma own_registration_keeps:
  assumes ok: "registry_ok r" and P: "holds_at P inst r" and inst: "strip inst = inst"
  shows "holds_at P inst (fst (prune_replaced_nodes inst addr r))"
    and "holds_at P inst (fst (validate_startup_service_names inst addr md ss now r))"
proof -
  obtain n where n: "dget (rg_nodes r) inst = Some n" "P n" using P by (auto simp: holds_at_def)
  have ix: "index_ok r" using ok by (simp add: registry_ok_def)
  have drop: "holds_at P inst (fold drop_node ks r)" if "inst \<notin> set ks" for ks
    using that n drop_nodes_get [OF ix, of ks inst] by (simp add: holds_at_def)
  show "holds_at P inst (fst (prune_replaced_nodes inst addr r))"
    using P inst by (auto simp: prune_replaced_nodes_def Let_def split: sum.split intro!: drop)
  show "holds_at P inst (fst (validate_startup_service_names inst addr md ss now r))"
    using P startup_replaced_other
    by (auto simp: validate_startup_service_names_def ebind_eq_Inr split: sum.split if_splits intro!: drop)
qed

lemma cordoned_step:
  assumes ok: "registry_ok r" and c: "holds_at cordoned k r" and o: "ordinary k e"
  shows "holds_at cordoned k (registry_step e r)"
proof -
  obtain n where n: "dget (rg_nodes r) k = Some n" "cordoned n" using c by (auto simp: holds_at_def)
  have kne: "k \<noteq> []" using ok keyedD [OF _ n(1)] by (simp add: registry_ok_def index_ok_def)
  have mapped: "holds_at cordoned k (r'\<lparr>rg_nodes := dmap f (rg_nodes r)\<rparr>)" if "cordoned (f k n)" for f r'
    using n that by (simp add: holds_at_def dict_simps)
  show ?thesis
  proof (cases e)
    case (Register rq now)
    let ?i = "strip (str_or (rq_node_instance_id rq) (rq_node_id rq))"
    have k: "k = ?i" using o Register by (simp add: ordinary_def)
    then have s: "strip k = k" by simp
    have ne: "?i \<noteq> []" using kne k by simp
    obtain r1 e1 where p: "prune_replaced_nodes k (rq_control_addr rq) r = (r1, e1)" by fastforce
    obtain r2 e2 where v: "validate_startup_service_names k (rq_control_addr rq) (rq_metadata rq) (rq_services rq) now r1 = (r2, e2)" by fastforce
    have c1: "holds_at cordoned k r1" and ok1: "registry_ok r1"
      using own_registration_keeps(1) [OF ok c s, of "rq_control_addr rq"] prune_ok [OF ok, of k "rq_control_addr rq"] p by simp_all
    have c2: "holds_at cordoned k r2" using own_registration_keeps(2) [OF ok1 c1 s] v by (metis fst_conv)
    then obtain m where m: "dget (rg_nodes r2) k = Some m" "cordoned m" by (auto simp: holds_at_def)
    have new: "holds_at cordoned k (put_node k (registered_node rq k now ps m) prev r2)" for ps prev
      by (simp add: holds_at_put cordoned_ops(3) [OF m(2)])
    show ?thesis unfolding Register registry_step.simps register_node_record_def Let_def
      using c1 c2 p v m(1) ne new unfolding k by (cases e1; cases e2) simp_all
  next
    case (Heartbeat hb now)
    let ?i = "strip (str_or (hb_node_instance_id hb) (hb_node_id hb))"
    show ?thesis
    proof (cases "?i = k")
      case True
      then show ?thesis using n kne Heartbeat c cordoned_ops(2) [OF n(2)]
        by (cases "hb_services hb") (simp_all add: heartbeat_record_def Let_def holds_at_put, simp_all add: holds_at_def dict_simps)
    next
      case False
      then show ?thesis using Heartbeat c
        by (cases "hb_services hb") (simp_all add: heartbeat_record_def Let_def holds_at_put, simp_all add: holds_at_def dict_simps)
    qed
  next
    case (Lost key reason now)
    then show ?thesis using n c o cordoned_ops(5) [OF n(2)]
      by (auto simp: mark_node_lost_def Let_def holds_at_put ordinary_def split: option.split)
  next
    case (Schedule key s d rs)
    then show ?thesis using n o
      by (auto simp: update_node_schedule_state_def Let_def holds_at_def dict_simps ordinary_def split: option.split)
  next
    case (Profile endpoint u saved)
    then show ?thesis using c
      by (auto simp: update_node_profile_def Let_def split: sum.split intro!: mapped cordoned_ops(4) [OF n(2)])
  next
    case (Read keys now)
    then show ?thesis using n(2) cordoned_ops(1) [OF n(2)] by (simp add: read_nodes_def fence_nodes_def mapped)
  qed
qed

text \<open>Once a query has met a node that missed its lease, the node stays unschedulable through
  every further heartbeat, registration, profile change and query, until an operator's schedule
  command for it or a registration of another instance at its address.\<close>

theorem stale_read_cordons:
  assumes "registry_ok r" and "dget (rg_nodes r) k = Some n" and "node_is_stale (rg_lease_ttl_sec r) now n"
    and "nd_reason n \<noteq> DISABLED_REASON" and "k \<in> set keys" and "list_all (ordinary k) evs"
  shows "\<exists>n'. dget (rg_nodes (registry_run evs (read_nodes keys now r))) k = Some n' \<and> \<not> nd_schedulable n'"
proof -
  have "cordoned (fence_if_stale (rg_lease_ttl_sec r) now n)"
    using assms(3,4) by (auto simp: fence_if_stale_def cordoned_def str_or_def DISABLED_REASON_def)
  then have c: "holds_at cordoned k (read_nodes keys now r)"
    using assms(2,5) by (simp add: holds_at_def read_nodes_def fence_nodes_def dict_simps)
  have "holds_at cordoned k (registry_run evs r0)" if "registry_ok r0" "holds_at cordoned k r0" "list_all (ordinary k) evs" for r0
    using that unfolding registry_run_def
    by (induction evs arbitrary: r0) (simp_all add: cordoned_step registry_step_ok)
  from this [OF read_ok [OF assms(1)] c assms(6)] show ?thesis by (auto simp: holds_at_def cordoned_def)
qed

section \<open>A refused registration\<close>

text \<open>A registration that raises after its address was parsed has nevertheless removed every
  other node registered at that address.\<close>

theorem refused_registration_evicts:
  assumes "registry_ok r" and "strip (str_or (rq_node_instance_id rq) (rq_node_id rq)) = inst" and "inst \<noteq> []"
    and "strip (rq_control_addr rq) \<noteq> []" and "\<not> is_error (normalize_node_profile_key (rq_control_addr rq))"
    and "dget (rg_nodes r) k = Some n" and "k \<noteq> inst" and "same_endpoint (strip (rq_control_addr rq)) (addr_key (rq_control_addr rq)) n"
    and "register_node_record rq now r = (r', Inl e)"
  shows "dget (rg_nodes r') k = None"
proof -
  have s: "strip inst = inst" using assms(2) by auto
  obtain key where key: "normalize_node_profile_key (rq_control_addr rq) = Inr key" using assms(5) by (rule not_is_errorE)
  obtain r1 where p: "prune_replaced_nodes inst (rq_control_addr rq) r = (r1, None)"
    using assms(3,4) s key by (simp add: prune_replaced_nodes_def Let_def profile_key_strip)
  have ix: "index_ok r" using assms(1) by (simp add: registry_ok_def)
  have gone: "dget (rg_nodes r1) k = None" using prune_get [OF ix p s, of k] assms(3,4,6-8) by simp
  obtain r2 e2 where v: "validate_startup_service_names inst (rq_control_addr rq) (rq_metadata rq) (rq_services rq) now r1 = (r2, e2)" by fastforce
  obtain ks where ks: "r2 = fold drop_node ks r1"
    using validate_shape [of inst "rq_control_addr rq" "rq_metadata rq" "rq_services rq" now r1] v by auto
  have "index_ok r1" using prune_ok [OF assms(1), of inst "rq_control_addr rq"] p by (simp add: registry_ok_def)
  then have "dget (rg_nodes r2) k = None" using gone ks by (simp add: drop_nodes_get)
  then show ?thesis using assms(2,3,9) p v by (cases e2) (auto simp: register_node_record_def Let_def)
qed

section \<open>Witnesses\<close>

definition sample_service :: "string \<Rightarrow> node_service" where
  "sample_service name =
    \<lparr>ns_service_name = name, ns_service_id = ''s1'', ns_status = 2, ns_policy_id = ''default_safe'', ns_status_text = [],
     ns_resource_health = [], ns_degraded = False, ns_worker_count = 2, ns_alive_workers = 2, ns_in_flight = 0,
     ns_received_count = 0, ns_returned_count = 0, ns_ema_child_invoke_ms = 0, ns_ema_samples = 0, ns_created_at = None,
     ns_lease_expire_at = 100, ns_http_base_url = [], ns_stop_reason = [], ns_failure_at = None, ns_readiness = [],
     ns_readiness_reason = [], ns_method_failures = []\<rparr>"

definition sample_registration :: "string \<Rightarrow> string \<Rightarrow> bool \<Rightarrow> registration" where
  "sample_registration inst addr startup =
    \<lparr>rq_node_instance_id = inst, rq_node_id = inst, rq_control_addr = addr, rq_capacity = 4, rq_queue_capacity = 16, rq_tags = [],
     rq_version = [], rq_metadata = (if startup then [(''startup_service'', ''1'')] else []),
     rq_services = [(''s1'', sample_service ''svc'')], rq_task_pools = [], rq_active_runtimes = [],
     rq_service_worker_capacity = 4, rq_service_worker_used = 2, rq_task_pool_worker_capacity = 0, rq_task_pool_worker_used = 0,
     rq_accept_service_deploy = True, rq_python_version = ''3.11''\<rparr>"

definition sample_heartbeat :: "string \<Rightarrow> heartbeat" where
  "sample_heartbeat inst =
    \<lparr>hb_node_instance_id = inst, hb_node_id = inst, hb_healthy = True, hb_credit = None, hb_metadata = None, hb_services = None,
     hb_task_pools = None, hb_active_runtimes = None, hb_service_worker_capacity = 0, hb_service_worker_used = 0,
     hb_task_pool_worker_capacity = 0, hb_task_pool_worker_used = 0, hb_accept_service_deploy = None, hb_python_version = []\<rparr>"

text \<open>Two nodes, at the ports 1 and 2 of one host, registered at time 0 under a lease of 90 seconds.\<close>

definition two_nodes :: registry where
  "two_nodes = registry_run [Register (sample_registration ''a'' ''h:1'' False) 0, Register (sample_registration ''b'' ''h:2'' False) 0]
     (new_registry 90 [])"

lemma two_nodes_ok: "registry_ok two_nodes"
  unfolding two_nodes_def by (rule registry_run_ok [OF registry_ok_new])

definition node_at :: "registry \<Rightarrow> string \<Rightarrow> node_state" where
  "node_at r k = dget_or (rg_nodes r) k (fresh_node [] [] [] 1 1 [] 0)"

lemma two_nodes_get: "dget (rg_nodes two_nodes) ''a'' = Some (node_at two_nodes ''a'')" "dget (rg_nodes two_nodes) ''b'' = Some (node_at two_nodes ''b'')"
  by code_simp+

theorem one_node_per_endpoint_witness:
  "addr_key (nd_control_addr (node_at two_nodes ''b'')) \<noteq> addr_key (nd_control_addr (node_at two_nodes ''a''))"
proof -
  have addr: "strip (nd_control_addr (node_at two_nodes ''a'')) \<noteq> []" "addr_key (nd_control_addr (node_at two_nodes ''a'')) \<noteq> []"
    by code_simp+
  show ?thesis
    using one_node_per_endpoint [OF two_nodes_def two_nodes_get _ addr(1)] addr(2) by simp
qed

theorem call_routes_exact_witness:
  "length (snd (list_service_routes '' svc '' True 10 ''call'' [] 50 two_nodes)) = 2 \<and>
   set (snd (list_service_routes '' svc '' True 10 ''call'' [] 50 two_nodes)) \<subseteq>
     {route_row_of 90 50 (True, n, s) | k n s. dget (rg_nodes two_nodes) k = Some n \<and> callable 90 50 [] n s}"
proof
  show "length (snd (list_service_routes '' svc '' True 10 ''call'' [] 50 two_nodes)) = 2" by code_simp
  have ttl: "rg_lease_ttl_sec two_nodes = 90" by code_simp
  from call_routes_exact [OF two_nodes_ok surjective_pairing, of "'' svc ''" 10 "[]" 50] obtain all where
    rows: "snd (list_service_routes '' svc '' True 10 ''call'' [] 50 two_nodes) = take (nat (max 1 10)) (sort_key route_row_key all)"
    and all: "set all = {route_row_of 90 50 (True, n, s) | k n s. dget (rg_nodes two_nodes) k = Some n \<and>
      s \<in> set (dvals (nd_services n)) \<and> (strip '' svc '' = [] \<or> ns_service_name s = strip '' svc '') \<and> callable 90 50 (strip []) n s}"
    unfolding ttl by blast
  show "set (snd (list_service_routes '' svc '' True 10 ''call'' [] 50 two_nodes)) \<subseteq>
     {route_row_of 90 50 (True, n, s) | k n s. dget (rg_nodes two_nodes) k = Some n \<and> callable 90 50 [] n s}"
    unfolding rows using set_take_sort_key [of "nat (max 1 10)" route_row_key all] all by fastforce
qed

text \<open>A query at 100 meets node a ten seconds late; a heartbeat at 101 makes it healthy again.\<close>

theorem stale_read_cordons_witness:
  "let r = registry_run [Heartbeat (sample_heartbeat ''a'') 101] (read_nodes [''a''] 100 two_nodes)
   in \<not> nd_schedulable (node_at r ''a'') \<and> node_is_healthy 90 101 (node_at r ''a'')"
proof -
  let ?r = "registry_run [Heartbeat (sample_heartbeat ''a'') 101] (read_nodes [''a''] 100 two_nodes)"
  have stale: "node_is_stale (rg_lease_ttl_sec two_nodes) 100 (node_at two_nodes ''a'')" by code_simp
  have reason: "nd_reason (node_at two_nodes ''a'') \<noteq> DISABLED_REASON" by code_simp
  have ev: "list_all (ordinary ''a'') [Heartbeat (sample_heartbeat ''a'') 101]" by code_simp
  obtain n' where "dget (rg_nodes ?r) ''a'' = Some n'" "\<not> nd_schedulable n'"
    using stale_read_cordons [OF two_nodes_ok two_nodes_get(1) stale reason _ ev, of "[''a'']"] by auto
  then have "\<not> nd_schedulable (node_at ?r ''a'')" by (simp add: node_at_def dget_or_def)
  moreover have "node_is_healthy 90 101 (node_at ?r ''a'')" by code_simp
  ultimately show ?thesis unfolding Let_def by blast
qed

text \<open>A startup node asks for the address of node a, but its service already runs on node b.\<close>

theorem refused_registration_evicts_witness:
  "let (r', res) = register_node_record (sample_registration ''c'' ''h:1'' True) 1 two_nodes
   in is_error res \<and> dget (rg_nodes r') ''a'' = None"
proof -
  let ?rq = "sample_registration ''c'' ''h:1'' True"
  obtain r' res where reg: "register_node_record ?rq 1 two_nodes = (r', res)" by fastforce
  have "is_error (snd (register_node_record ?rq 1 two_nodes))" by code_simp
  then obtain e where e: "res = Inl e" using reg by (cases res) auto
  have facts: "strip (str_or (rq_node_instance_id ?rq) (rq_node_id ?rq)) = ''c''" "strip (rq_control_addr ?rq) \<noteq> []"
    "\<not> is_error (normalize_node_profile_key (rq_control_addr ?rq))"
    "same_endpoint (strip (rq_control_addr ?rq)) (addr_key (rq_control_addr ?rq)) (node_at two_nodes ''a'')"
    by code_simp+
  have "dget (rg_nodes r') ''a'' = None"
    by (rule refused_registration_evicts [OF two_nodes_ok facts(1) _ facts(2,3) two_nodes_get(1) _ facts(4) reg [unfolded e]]) simp_all
  then show ?thesis using reg e by simp
qed

end
