(* ===== verification/DataRegistry.thy ===== *)
theory DataRegistry
  imports DataRefs
begin

text \<open>
  The registry of data references of the info centre (\<open>controlplane/infocenter_state.py\<close>, class
  \<open>DataRegistryEntry\<close> of \<open>controlplane/infocenter/models.py\<close>). An entry lives for \<open>ttl_sec\<close> after it
  was registered or touched; expired entries are dropped by the next operation that looks. A touch
  takes the lock twice: it reads the entry in one section and writes its copy back in another.
\<close>

section \<open>Entries\<close>

record replica =
  rp_node_id :: string
  rp_node_instance_id :: string
  rp_control_addr :: string

record data_entry =
  de_ref_id :: string
  de_storage_id :: string
  de_logical_type :: string
  de_format :: string
  de_size_bytes :: int
  de_materialize_as :: string
  de_locator_kind :: string
  de_locator_token :: string
  de_consume_on_read :: bool
  de_node_id :: string
  de_node_instance_id :: string
  de_control_addr :: string
  de_replicas :: "replica list"
  de_created_at :: instant
  de_last_at :: instant
  de_ttl_sec :: int

type_synonym data_registry = "(string, data_entry) dict"

definition data_ref_is_expired :: "instant \<Rightarrow> data_entry \<Rightarrow> bool" where
  "data_ref_is_expired now e \<longleftrightarrow> of_int (max 1 (de_ttl_sec e)) < now - de_last_at e"

definition prune_expired_data_refs :: "instant \<Rightarrow> data_registry \<Rightarrow> data_registry" where
  "prune_expired_data_refs now d = dpops (map fst (filter (\<lambda>(k, e). data_ref_is_expired now e) d)) d"

text \<open>Replicas that are no dicts or have no address are dropped.\<close>

definition normalize_replicas :: "(pyval \<Rightarrow> string) \<Rightarrow> pyval list \<Rightarrow> replica list" where
  "normalize_replicas rep items =
    List.map_filter (\<lambda>v. case v of
      PDict p \<Rightarrow>
        if strip (get_str rep p ''control_addr'') = [] then None
        else Some \<lparr>rp_node_id = strip (get_str rep p ''node_id''), rp_node_instance_id = strip (get_str rep p ''node_instance_id''),
          rp_control_addr = strip (get_str rep p ''control_addr'')\<rparr>
    | _ \<Rightarrow> None) items"

record ref_registration =
  rr_ttl_sec :: int
  rr_node_id :: string
  rr_node_instance_id :: string
  rr_control_addr :: string
  rr_locator_kind :: string
  rr_locator_token :: string
  rr_replicas :: "pyval list"

definition registered_entry :: "(pyval \<Rightarrow> string) \<Rightarrow> ref_registration \<Rightarrow> instant \<Rightarrow> string \<Rightarrow> data_ref \<Rightarrow> data_entry" where
  "registered_entry rep q now object_id r =
    \<lparr>de_ref_id = ref_id r, de_storage_id = str_or (ref_storage_id r) object_id, de_logical_type = ref_logical_type r,
     de_format = str_or (ref_format r) ''bin'', de_size_bytes = max 0 (ref_size_bytes r),
     de_materialize_as = str_or (ref_materialize_as r) ''auto'',
     de_locator_kind = strip (str_or (rr_locator_kind q) (ref_locator_kind r)),
     de_locator_token = strip (str_or (rr_locator_token q) (ref_locator_token r)),
     de_consume_on_read = ref_consume_on_read r, de_node_id = strip (str_or (rr_node_id q) (ref_node_id r)),
     de_node_instance_id = strip (str_or (rr_node_instance_id q) (ref_node_instance_id r)),
     de_control_addr = strip (str_or (rr_control_addr q) (ref_control_addr r)),
     de_replicas = normalize_replicas rep (rr_replicas q), de_created_at = now, de_last_at = now,
     de_ttl_sec = max 1 (num_or (rr_ttl_sec q) 3600)\<rparr>"

text \<open>\<open>storage_id or object_id\<close>: the property is computed only where the field is empty.\<close>

definition register_data_ref_record ::
  "(pyval \<Rightarrow> string) \<Rightarrow> pyval \<Rightarrow> ref_registration \<Rightarrow> instant \<Rightarrow> data_registry \<Rightarrow> data_registry \<times> (py_error + data_entry)" where
  "register_data_ref_record rep ref q now d =
    (case ebind (coerce_data_ref rep ref) (\<lambda>r.
        ebind (if ref_storage_id r = [] then data_ref_object_id r else Inr []) (\<lambda>object_id.
        Inr (registered_entry rep q now object_id r))) of
       Inl e \<Rightarrow> (d, Inl e)
     | Inr entry \<Rightarrow>
         let d1 = prune_expired_data_refs now d;
             entry' = (case dget d1 (de_ref_id entry) of
               None \<Rightarrow> entry
             | Some old \<Rightarrow> entry\<lparr>de_created_at := de_created_at old,
                 de_ttl_sec := max 1 (num_or (num_or (rr_ttl_sec q) (de_ttl_sec old)) 3600)\<rparr>)
         in (dset (de_ref_id entry) entry' d1, Inr entry'))"

definition resolve_data_ref_record :: "string \<Rightarrow> instant \<Rightarrow> data_registry \<Rightarrow> data_registry \<times> (py_error + data_entry)" where
  "resolve_data_ref_record rid now d =
    (if strip rid = [] then (d, Inl (KeyError ''ref_id is required''))
     else
       let d1 = prune_expired_data_refs now d
       in (d1, case dget d1 (strip rid) of None \<Rightarrow> Inl (KeyError ''data ref not found'') | Some e \<Rightarrow> Inr e))"

text \<open>The first section of a touch is a resolution, the second writes the copy.\<close>

definition touch_write :: "data_entry \<Rightarrow> instant \<Rightarrow> data_registry \<Rightarrow> data_registry" where
  "touch_write e now d = dset (de_ref_id e) (e\<lparr>de_last_at := now\<rparr>) d"

definition touch_data_ref_record :: "string \<Rightarrow> instant \<Rightarrow> instant \<Rightarrow> data_registry \<Rightarrow> data_registry \<times> (py_error + data_entry)" where
  "touch_data_ref_record rid now now' d =
    (case resolve_data_ref_record rid now d of
       (d1, Inl e) \<Rightarrow> (d1, Inl e)
     | (d1, Inr e) \<Rightarrow> (touch_write e now' d1, Inr (e\<lparr>de_last_at := now'\<rparr>)))"

definition release_data_ref_record :: "string \<Rightarrow> data_registry \<Rightarrow> data_registry \<times> bool" where
  "release_data_ref_record rid d =
    (if strip rid = [] then (d, False) else (dpop (strip rid) d, dget d (strip rid) \<noteq> None))"

definition entry_key :: "data_entry \<Rightarrow> instant \<times> instant \<times> string" where
  "entry_key e = (de_last_at e, de_created_at e, de_ref_id e)"

text \<open>A descending sort that keeps the order of equal keys is the reverse of the sorted reverse.\<close>

definition list_data_ref_records ::
  "int \<Rightarrow> string \<Rightarrow> string \<Rightarrow> instant \<Rightarrow> data_registry \<Rightarrow> data_registry \<times> data_entry list" where
  "list_data_ref_records limit node_id node_instance_id now d =
    (let d1 = prune_expired_data_refs now d;
         inst = strip node_instance_id; node = strip node_id;
         entries = (if inst \<noteq> [] then filter (\<lambda>e. strip (de_node_instance_id e) = inst) (dvals d1)
           else if node \<noteq> [] then filter (\<lambda>e. strip (de_node_id e) = node) (dvals d1)
           else dvals d1)
     in (d1, take (nat (max 1 (num_or limit 1000))) (rev (sort_key entry_key (rev entries)))))"

section \<open>Expiry\<close>

definition refs_ok :: "data_registry \<Rightarrow> bool" where
  "refs_ok d \<longleftrightarrow> dwf d \<and> (\<forall>k e. dget d k = Some e \<longrightarrow> de_ref_id e = k)"

lemma prune_data_get:
  assumes "dwf d"
  shows "dget (prune_expired_data_refs now d) k =
    (case dget d k of None \<Rightarrow> None | Some e \<Rightarrow> if data_ref_is_expired now e then None else Some e)"
proof (cases "dget d k")
  case None
  then show ?thesis by (simp add: prune_expired_data_refs_def dict_simps)
next
  case (Some e)
  have "(k, e') \<in> set d \<longleftrightarrow> e' = e" for e' using in_dget [OF assms, of k e'] dget_in [OF Some] Some by auto
  then have "k \<in> set (map fst (filter (\<lambda>(k, e). data_ref_is_expired now e) d)) \<longleftrightarrow> data_ref_is_expired now e" by force
  then show ?thesis unfolding prune_expired_data_refs_def dget_dpops using Some by simp
qed

lemma prune_data_wf [simp]: "dwf d \<Longrightarrow> dwf (prune_expired_data_refs now d)"
  by (simp add: prune_expired_data_refs_def)

lemma refs_okD: "refs_ok d \<Longrightarrow> dget d k = Some e \<Longrightarrow> de_ref_id e = k"
  unfolding refs_ok_def by blast

lemma refs_ok_dset: "refs_ok d \<Longrightarrow> de_ref_id e = k \<Longrightarrow> refs_ok (dset k e d)"
  by (auto simp: refs_ok_def dict_simps)

lemma refs_ok_prune [invs]: "refs_ok d \<Longrightarrow> refs_ok (prune_expired_data_refs now d)"
  unfolding refs_ok_def by (simp add: prune_data_get split: option.split)

lemma refs_ok_dpop [invs]: "refs_ok d \<Longrightarrow> refs_ok (dpop k d)"
  by (auto simp: refs_ok_def dict_simps)

lemma refs_ok_touch_write [invs]: "refs_ok d \<Longrightarrow> refs_ok (touch_write e now d)"
  unfolding touch_write_def by (rule refs_ok_dset) simp_all

lemma refs_ok_register [invs]: "refs_ok d \<Longrightarrow> refs_ok (fst (register_data_ref_record rep ref q now d))"
  by (auto simp: register_data_ref_record_def Let_def refs_ok_prune intro!: refs_ok_dset split: sum.split option.split)

section \<open>Histories\<close>

datatype ref_event =
    RegisterRef "pyval \<Rightarrow> string" pyval ref_registration instant
  | ResolveRef string instant
  | TouchRef string instant instant
  | ReleaseRef string
  | ListRefs int string string instant

fun ref_step :: "ref_event \<Rightarrow> data_registry \<Rightarrow> data_registry" where
  "ref_step (RegisterRef rep ref q now) d = fst (register_data_ref_record rep ref q now d)"
| "ref_step (ResolveRef rid now) d = fst (resolve_data_ref_record rid now d)"
| "ref_step (TouchRef rid now now') d = fst (touch_data_ref_record rid now now' d)"
| "ref_step (ReleaseRef rid) d = fst (release_data_ref_record rid d)"
| "ref_step (ListRefs limit node inst now) d = fst (list_data_ref_records limit node inst now d)"

text \<open>The clock readings of the event lie between \<open>s\<close> and \<open>t\<close>.\<close>

fun event_in :: "instant \<Rightarrow> instant \<Rightarrow> ref_event \<Rightarrow> bool" where
  "event_in s t (RegisterRef rep ref q now) = (s \<le> now \<and> now \<le> t)"
| "event_in s t (ResolveRef rid now) = (s \<le> now \<and> now \<le> t)"
| "event_in s t (TouchRef rid now now') = (s \<le> now \<and> now \<le> t \<and> s \<le> now' \<and> now' \<le> t)"
| "event_in s t (ReleaseRef rid) = True"
| "event_in s t (ListRefs limit node inst now) = (s \<le> now \<and> now \<le> t)"

text \<open>The event is about another reference or only looks.\<close>

fun spares :: "string \<Rightarrow> ref_event \<Rightarrow> bool" where
  "spares rid (RegisterRef rep ref q now) = (case coerce_data_ref rep ref of Inl _ \<Rightarrow> True | Inr r \<Rightarrow> ref_id r \<noteq> rid)"
| "spares rid (ReleaseRef rid') = (strip rid' \<noteq> rid)"
| "spares rid _ = True"

lemma ref_step_ok: "refs_ok d \<Longrightarrow> refs_ok (ref_step e d)"
proof (cases e)
  case (TouchRef rid now now')
  assume "refs_ok d"
  then have "refs_ok (fst (resolve_data_ref_record rid now d))" by (simp add: resolve_data_ref_record_def Let_def refs_ok_prune)
  then show ?thesis using TouchRef
    by (auto simp: touch_data_ref_record_def refs_ok_touch_write case_prod_beta split: sum.split)
qed (simp_all add: refs_ok_register resolve_data_ref_record_def release_data_ref_record_def list_data_ref_records_def Let_def
    refs_ok_prune refs_ok_dpop)

text \<open>The entry keeps its content; a touch can only extend its life.\<close>

definition lives :: "string \<Rightarrow> instant \<Rightarrow> data_entry \<Rightarrow> data_registry \<Rightarrow> bool" where
  "lives rid t e d \<longleftrightarrow> (\<exists>l. dget d rid = Some (e\<lparr>de_last_at := l\<rparr>) \<and> t \<le> l + of_int (max 1 (de_ttl_sec e)))"

lemma lives_prune: "dwf d \<Longrightarrow> now \<le> t \<Longrightarrow> lives rid t e d \<Longrightarrow> lives rid t e (prune_expired_data_refs now d)"
  by (auto simp: lives_def prune_data_get data_ref_is_expired_def)

lemma lives_step:
  assumes ok: "refs_ok d" and l: "lives rid t e d" and sp: "spares rid ev"
    and by_t: "event_in s0 t ev" and lease: "t \<le> s0 + of_int (max 1 (de_ttl_sec e))"
  shows "lives rid t e (ref_step ev d)"
proof -
  have wf: "dwf d" using ok by (simp add: refs_ok_def)
  note pr = lives_prune [OF wf _ l]
  have other: "lives rid t e (dset k x d')" if "lives rid t e d'" "k \<noteq> rid" for k x d'
    using that by (simp add: lives_def dict_simps)
  show ?thesis
  proof (cases ev)
    case (RegisterRef rep ref q now)
    show ?thesis
    proof (cases "ebind (coerce_data_ref rep ref) (\<lambda>r.
        ebind (if ref_storage_id r = [] then data_ref_object_id r else Inr []) (\<lambda>object_id.
        Inr (registered_entry rep q now object_id r)))")
      case (Inl x)
      then show ?thesis using RegisterRef l by (simp add: register_data_ref_record_def)
    next
      case (Inr x)
      then have "de_ref_id x \<noteq> rid" using sp RegisterRef by (auto simp: ebind_eq_Inr registered_entry_def)
      then show ?thesis using RegisterRef Inr by_t other [OF pr] by (simp add: register_data_ref_record_def Let_def)
    qed
  next
    case (TouchRef r now now')
    let ?d = "prune_expired_data_refs now d"
    have le: "now \<le> t" "s0 \<le> now'" using by_t TouchRef by simp_all
    have lp: "lives rid t e ?d" by (rule pr [OF le(1)])
    show ?thesis
    proof (cases "strip r = [] \<or> dget ?d (strip r) = None")
      case True
      then show ?thesis using TouchRef l lp
        by (auto simp: touch_data_ref_record_def resolve_data_ref_record_def Let_def)
    next
      case False
      then obtain x where x: "dget ?d (strip r) = Some x" and ne: "strip r \<noteq> []" by auto
      have id: "de_ref_id x = strip r" by (rule refs_okD [OF refs_ok_prune [OF ok] x])
      have step: "ref_step ev d = dset (strip r) (x\<lparr>de_last_at := now'\<rparr>) ?d"
        using TouchRef x ne id by (simp add: touch_data_ref_record_def resolve_data_ref_record_def Let_def touch_write_def)
      show ?thesis
      proof (cases "strip r = rid")
        case True
        then obtain l0 where "x = e\<lparr>de_last_at := l0\<rparr>" using lp x by (auto simp: lives_def)
        moreover have "t \<le> now' + of_int (max 1 (de_ttl_sec e))" using lease le(2) by linarith
        ultimately show ?thesis unfolding step using True by (auto simp: lives_def dict_simps)
      next
        case False
        then show ?thesis unfolding step by (rule other [OF lp])
      qed
    qed
  next
    case (ReleaseRef r)
    then show ?thesis using l sp by (auto simp: release_data_ref_record_def lives_def dict_simps)
  qed (use l by_t pr in \<open>simp_all add: resolve_data_ref_record_def list_data_ref_records_def Let_def\<close>)
qed

lemma refs_run_ok: "refs_ok d \<Longrightarrow> refs_ok (fold ref_step evs d)"
  by (induction evs arbitrary: d) (auto simp: ref_step_ok)

lemma resolve_data_ref_exact:
  assumes "refs_ok d"
  shows "snd (resolve_data_ref_record rid now d) = Inr e \<longleftrightarrow>
    strip rid \<noteq> [] \<and> dget d (strip rid) = Some e \<and> now - de_last_at e \<le> of_int (max 1 (de_ttl_sec e))"
  using assms by (auto simp: refs_ok_def resolve_data_ref_record_def Let_def prune_data_get data_ref_is_expired_def split: option.splits if_splits)

text \<open>C28: An entry that nobody releases or registers anew resolves, with its content, at every time
  within its time to live, whatever else the registry did since the entry was last touched.\<close>

theorem data_ref_survives:
  assumes "refs_ok d" and "dget d rid = Some e" and "strip rid = rid" and "rid \<noteq> []"
    and "t \<le> de_last_at e + of_int (max 1 (de_ttl_sec e))"
    and "list_all (spares rid) evs" and "list_all (event_in (de_last_at e) t) evs"
  shows "\<exists>l. snd (resolve_data_ref_record rid t (fold ref_step evs d)) = Inr (e\<lparr>de_last_at := l\<rparr>)"
proof -
  have "lives rid t e (fold ref_step evs d0)" if "refs_ok d0" "lives rid t e d0" "list_all (spares rid) evs"
    "list_all (event_in (de_last_at e) t) evs" for d0
    using that by (induction evs arbitrary: d0) (simp_all add: lives_step [OF _ _ _ _ assms(5)] ref_step_ok)
  moreover have "lives rid t e d" using assms(2,5) unfolding lives_def by (intro exI [of _ "de_last_at e"]) simp
  ultimately obtain l where l: "dget (fold ref_step evs d) rid = Some (e\<lparr>de_last_at := l\<rparr>)" "t \<le> l + of_int (max 1 (de_ttl_sec e))"
    using assms(1,6,7) unfolding lives_def by blast
  have "snd (resolve_data_ref_record rid t (fold ref_step evs d)) = Inr (e\<lparr>de_last_at := l\<rparr>)"
    using resolve_data_ref_exact [OF refs_run_ok [OF assms(1)]] l assms(3,4) by simp
  then show ?thesis by blast
qed

text \<open>The two sections of a touch: a release between them is undone.\<close>

theorem released_ref_returns:
  assumes "refs_ok d" and "resolve_data_ref_record rid now d = (d1, Inr e)" and "release_data_ref_record rid d1 = (d2, True)"
  shows "dget d2 (strip rid) = None \<and> dget (touch_write e now' d2) (strip rid) = Some (e\<lparr>de_last_at := now'\<rparr>)"
proof -
  have e: "strip rid \<noteq> []" "dget d1 (strip rid) = Some e" "d1 = prune_expired_data_refs now d"
    using assms(2) by (auto simp: resolve_data_ref_record_def Let_def split: if_splits option.splits)
  have "de_ref_id e = strip rid" using refs_okD [OF refs_ok_prune [OF assms(1)]] e(2,3) by blast
  then show ?thesis using assms(3) e(1) by (auto simp: release_data_ref_record_def touch_write_def dict_simps)
qed

section \<open>Witness\<close>

definition sample_data_refs :: data_registry where
  "sample_data_refs = ref_step (RegisterRef (\<lambda>_. []) (PRef
     \<lparr>ref_id = ''r1'', ref_storage_id = ''st1'', ref_logical_type = ''bytes'', ref_format = ''bin'', ref_size_bytes = 3, ref_materialize_as = ''auto'',
      ref_locator_kind = ''node'', ref_locator_token = ''h:1'', ref_consume_on_read = False, ref_node_id = ''n'', ref_node_instance_id = ''i'',
      ref_control_addr = ''h:1''\<rparr>)
     \<lparr>rr_ttl_sec = 60, rr_node_id = [], rr_node_instance_id = [], rr_control_addr = [], rr_locator_kind = [], rr_locator_token = [], rr_replicas = []\<rparr> 0) []"

definition sample_entry :: data_entry where
  "sample_entry =
    \<lparr>de_ref_id = ''r1'', de_storage_id = ''st1'', de_logical_type = ''bytes'', de_format = ''bin'', de_size_bytes = 3, de_materialize_as = ''auto'',
     de_locator_kind = ''node'', de_locator_token = ''h:1'', de_consume_on_read = False, de_node_id = ''n'', de_node_instance_id = ''i'',
     de_control_addr = ''h:1'', de_replicas = [], de_created_at = 0, de_last_at = 0, de_ttl_sec = 60\<rparr>"

theorem data_ref_survives_witness:
  "\<not> is_error (snd (resolve_data_ref_record ''r1'' 60 (fold ref_step [ResolveRef ''r2'' 30, TouchRef ''r1'' 50 51] sample_data_refs)))"
proof -
  have ok: "refs_ok sample_data_refs" unfolding sample_data_refs_def by (rule ref_step_ok) (simp add: refs_ok_def)
  have get: "dget sample_data_refs ''r1'' = Some sample_entry" by code_simp
  have facts: "strip ''r1'' = ''r1''" "(60 :: rat) \<le> de_last_at sample_entry + of_int (max 1 (de_ttl_sec sample_entry))"
    "list_all (spares ''r1'') [ResolveRef ''r2'' 30, TouchRef ''r1'' 50 51]"
    "list_all (event_in (de_last_at sample_entry) 60) [ResolveRef ''r2'' 30, TouchRef ''r1'' 50 51]"
    by code_simp+
  from data_ref_survives [OF ok get facts(1) _ facts(2-4)] show ?thesis by auto
qed

end
