(* ===== verification/ResultHook.thy ===== *)
theory ResultHook
  imports Prelude "HOL-Library.Sublist"
begin

text \<open>
  The result queues of a node (\<open>controlplane/hooks.py\<close>): one bounded queue for each client, a
  global sequence number, and a pull that takes results off the queue. A pull may wait before it
  takes its lock again; what it then returns depends on the queue only, so it is one function. The
  cursor a client sends decides whether the pull waits, and nothing else.
\<close>

section \<open>Operations\<close>

record 'r result_hook =
  rh_limit :: int
  rh_queues :: "(string, (int \<times> 'r) list) dict"
  rh_seq :: int

definition new_result_hook :: "int \<Rightarrow> 'r result_hook" where
  "new_result_hook per_client_limit = \<lparr>rh_limit = max 1 per_client_limit, rh_queues = [], rh_seq = 0\<rparr>"

definition hook_queue :: "string \<Rightarrow> 'r result_hook \<Rightarrow> (int \<times> 'r) list" where
  "hook_queue client h = dget_or (rh_queues h) client []"

definition enqueue_result :: "string \<Rightarrow> int \<times> 'r \<Rightarrow> 'r result_hook \<Rightarrow> 'r result_hook" where
  "enqueue_result client item h =
    (let q = hook_queue client h; q1 = (if rh_limit h \<le> int (length q) then drop 1 q else q)
     in h\<lparr>rh_queues := dset client (q1 @ [item]) (rh_queues h)\<rparr>)"

definition push_result :: "string \<Rightarrow> 'r \<Rightarrow> 'r result_hook \<Rightarrow> 'r result_hook \<times> int" where
  "push_result client r h =
    (let seq = rh_seq h + 1 in (enqueue_result client (seq, r) (h\<lparr>rh_seq := seq\<rparr>), seq))"

text \<open>An item that has no number yet gets the next one.\<close>

definition on_result :: "string \<Rightarrow> int \<times> 'r \<Rightarrow> 'r result_hook \<Rightarrow> 'r result_hook" where
  "on_result client item h =
    (if fst item \<le> 0 then fst (push_result client (snd item) h) else enqueue_result client item h)"

definition pull_results :: "string \<Rightarrow> int \<Rightarrow> string \<Rightarrow> 'r result_hook \<Rightarrow> 'r result_hook \<times> 'r list \<times> string" where
  "pull_results client limit cursor h =
    (let q = hook_queue client h; out = take (nat (max 1 limit)) q
     in (h\<lparr>rh_queues := dset client (drop (nat (max 1 limit)) q) (rh_queues h)\<rparr>, map snd out,
         str_int (if out = [] then 0 else fst (last out))))"

definition pull_waits :: "string \<Rightarrow> rat \<Rightarrow> string \<Rightarrow> 'r result_hook \<Rightarrow> bool" where
  "pull_waits client wait_ms cursor h \<longleftrightarrow>
    (let seq = (case parse_int (if cursor = [] then ''0'' else cursor) of None \<Rightarrow> 0 | Some n \<Rightarrow> n);
         q = hook_queue client h
     in \<not> (q \<noteq> [] \<and> seq < fst (last q)) \<and> 0 < wait_ms)"

definition clear_client :: "string \<Rightarrow> 'r result_hook \<Rightarrow> 'r result_hook" where
  "clear_client client h = h\<lparr>rh_queues := dpop client (rh_queues h)\<rparr>"

section \<open>Histories\<close>

datatype 'r hook_event = Push string 'r | Pull string int string

fun hook_step :: "'r hook_event \<Rightarrow> 'r result_hook \<times> (string \<times> 'r) list \<Rightarrow> 'r result_hook \<times> (string \<times> 'r) list" where
  "hook_step (Push c r) (h, out) = (fst (push_result c r h), out)"
| "hook_step (Pull c limit cursor) (h, out) =
    (case pull_results c limit cursor h of (h', rs, _) \<Rightarrow> (h', out @ map (\<lambda>r. (c, r)) rs))"

definition hook_run :: "'r hook_event list \<Rightarrow> 'r result_hook \<Rightarrow> 'r result_hook \<times> (string \<times> 'r) list" where
  "hook_run evs h = fold hook_step evs (h, [])"

definition pushed_to :: "string \<Rightarrow> 'r hook_event list \<Rightarrow> 'r list" where
  "pushed_to c evs = concat (map (\<lambda>e. case e of Push c' r \<Rightarrow> if c' = c then [r] else [] | _ \<Rightarrow> []) evs)"

definition handed_to :: "string \<Rightarrow> (string \<times> 'r) list \<Rightarrow> 'r list" where
  "handed_to c out = map snd (filter (\<lambda>(c', _). c' = c) out)"

section \<open>Order, and what is lost\<close>

lemma hook_queue_enqueue: "hook_queue c (enqueue_result c' item h) =
    (if c = c' then (if rh_limit h \<le> int (length (hook_queue c h)) then drop 1 (hook_queue c h) else hook_queue c h) @ [item]
     else hook_queue c h)"
  by (simp add: hook_queue_def enqueue_result_def Let_def dget_or_def dict_simps)

lemma enqueue_sels [frame_simps]:
  "rh_limit (enqueue_result c item h) = rh_limit h" "rh_seq (enqueue_result c item h) = rh_seq h"
  by (simp_all add: enqueue_result_def Let_def)

lemma hook_queue_pull: "hook_queue c (fst (pull_results c' limit cursor h)) =
    (if c = c' then drop (nat (max 1 limit)) (hook_queue c h) else hook_queue c h)"
  by (simp add: hook_queue_def pull_results_def Let_def dget_or_def dict_simps)

lemma hook_queue_seq [simp]: "hook_queue c (h\<lparr>rh_seq := n\<rparr>) = hook_queue c h"
  by (simp add: hook_queue_def)

text \<open>The queue of a client: not longer than the limit, numbered upwards.\<close>

definition hook_ok :: "'r result_hook \<Rightarrow> bool" where
  "hook_ok h \<longleftrightarrow> 1 \<le> rh_limit h \<and>
     (\<forall>c. int (length (hook_queue c h)) \<le> rh_limit h \<and> sorted_wrt (<) (map fst (hook_queue c h)) \<and>
       (\<forall>x \<in> set (hook_queue c h). 0 < fst x \<and> fst x \<le> rh_seq h)) \<and> 0 \<le> rh_seq h"

lemma hook_ok_new [invs]: "hook_ok (new_result_hook n)"
  by (simp add: hook_ok_def new_result_hook_def hook_queue_def dget_or_def)

lemma hook_okD:
  assumes "hook_ok h"
  shows "1 \<le> rh_limit h" "int (length (hook_queue c h)) \<le> rh_limit h" "sorted_wrt (<) (map fst (hook_queue c h))"
    "x \<in> set (hook_queue c h) \<Longrightarrow> 0 < fst x \<and> fst x \<le> rh_seq h" "0 \<le> rh_seq h"
  using assms unfolding hook_ok_def by blast+

lemma hook_ok_push [invs]:
  assumes ok: "hook_ok h"
  shows "hook_ok (fst (push_result c r h))"
proof -
  let ?h = "fst (push_result c r h)"
  have q: "hook_queue c' ?h = (if c' = c then (if rh_limit h \<le> int (length (hook_queue c h)) then drop 1 (hook_queue c h)
      else hook_queue c h) @ [(rh_seq h + 1, r)] else hook_queue c' h)" for c'
    by (simp add: push_result_def Let_def hook_queue_enqueue)
  have sel: "rh_limit ?h = rh_limit h" "rh_seq ?h = rh_seq h + 1"
    by (simp_all add: push_result_def Let_def frame_simps)
  have "int (length (hook_queue c' ?h)) \<le> rh_limit h" for c'
    using hook_okD(1,2) [OF ok] by (cases "c' = c") (auto simp: q)
  moreover have "sorted_wrt (<) (map fst (hook_queue c' ?h))" for c'
  proof (cases "c' = c")
    case True
    have "sorted_wrt (<) (map fst (drop 1 (hook_queue c h)))" using hook_okD(3) [OF ok, of c]
      by (metis drop_map sorted_wrt_drop)
    moreover have "\<forall>x \<in> set (drop 1 (hook_queue c h)) \<union> set (hook_queue c h). fst x < rh_seq h + 1"
      using hook_okD(4) [OF ok] in_set_dropD by fastforce
    ultimately show ?thesis using True hook_okD(3) [OF ok, of c] by (auto simp: q sorted_wrt_append)
  next
    case False
    then show ?thesis using hook_okD(3) [OF ok, of c'] by (simp add: q)
  qed
  moreover have "0 < fst x \<and> fst x \<le> rh_seq h + 1" if "x \<in> set (hook_queue c' ?h)" for c' x
  proof -
    have "x \<in> set (hook_queue c' h) \<or> x = (rh_seq h + 1, r)"
      using that by (auto simp: q dest: in_set_dropD split: if_splits)
    then show ?thesis using hook_okD(4) [OF ok, of x c'] hook_okD(5) [OF ok] by auto
  qed
  ultimately show ?thesis unfolding hook_ok_def sel using hook_okD(1,5) [OF ok] by auto
qed

lemma hook_ok_pull [invs]:
  assumes ok: "hook_ok h"
  shows "hook_ok (fst (pull_results c limit cursor h))"
proof -
  let ?h = "fst (pull_results c limit cursor h)" and ?n = "nat (max 1 limit)"
  have sel: "rh_limit ?h = rh_limit h" "rh_seq ?h = rh_seq h" by (simp_all add: pull_results_def Let_def)
  have "int (length (hook_queue c' ?h)) \<le> rh_limit h" for c'
    using hook_okD(2) [OF ok, of c'] by (auto simp: hook_queue_pull)
  moreover have "sorted_wrt (<) (map fst (hook_queue c' ?h))" for c'
    using hook_okD(3) [OF ok, of c'] by (auto simp: hook_queue_pull drop_map [symmetric] sorted_wrt_drop)
  moreover have "0 < fst x \<and> fst x \<le> rh_seq h" if "x \<in> set (hook_queue c' ?h)" for c' x
    using that hook_okD(4) [OF ok, of x c'] by (auto simp: hook_queue_pull dest: in_set_dropD split: if_splits)
  ultimately show ?thesis unfolding hook_ok_def sel using hook_okD(1,5) [OF ok] by blast
qed

text \<open>What a client was handed, followed by what waits for it.\<close>

definition hook_view :: "string \<Rightarrow> 'r result_hook \<times> (string \<times> 'r) list \<Rightarrow> 'r list" where
  "hook_view c s = handed_to c (snd s) @ map snd (hook_queue c (fst s))"

lemma hook_view_pull: "hook_view c (hook_step (Pull c' limit cursor) s) = hook_view c s"
proof -
  obtain h out where s: "s = (h, out)" by fastforce
  let ?q = "hook_queue c' h" and ?n = "nat (max 1 limit)"
  have step: "hook_step (Pull c' limit cursor) s = (fst (pull_results c' limit cursor h), out @ map (\<lambda>r. (c', r)) (map snd (take ?n ?q)))"
    by (simp add: s pull_results_def Let_def)
  have handed: "handed_to c (out @ map (\<lambda>r. (c', r)) rs) = handed_to c out @ (if c = c' then rs else [])" for rs
    by (auto simp: handed_to_def filter_map comp_def)
  have "map snd (take ?n ?q) @ map snd (drop ?n ?q) = map snd ?q" by (metis append_take_drop_id map_append)
  then show ?thesis unfolding step unfolding hook_view_def s
    by (simp only: fst_conv snd_conv handed hook_queue_pull append_assoc append_Nil split: if_split) simp
qed

lemma hook_view_push:
  "hook_view c (hook_step (Push c' r) s) = (if c \<noteq> c' then hook_view c s
    else handed_to c (snd s) @ map snd ((if rh_limit (fst s) \<le> int (length (hook_queue c (fst s)))
      then drop 1 (hook_queue c (fst s)) else hook_queue c (fst s))) @ [r])"
  by (cases s) (simp add: hook_view_def push_result_def Let_def hook_queue_enqueue)

lemma hook_run_snoc: "hook_run (evs @ [e]) h = hook_step e (hook_run evs h)"
  by (simp add: hook_run_def)

lemma pushed_to_snoc: "pushed_to c (evs @ [e]) = pushed_to c evs @ (case e of Push c' r \<Rightarrow> if c' = c then [r] else [] | _ \<Rightarrow> [])"
  by (simp add: pushed_to_def)

lemma hook_step_limit: "rh_limit (fst (hook_step e s)) = rh_limit (fst s)"
  by (cases s; cases e) (simp_all add: push_result_def pull_results_def Let_def frame_simps)

lemma hook_run_limit: "rh_limit (fst (hook_run evs h)) = rh_limit h"
  by (induction evs rule: rev_induct) (simp_all add: hook_run_snoc hook_step_limit, simp add: hook_run_def)

lemma hook_run_ok: "hook_ok h \<Longrightarrow> hook_ok (fst (hook_run evs h))"
proof (induction evs rule: rev_induct)
  case (snoc e evs)
  then show ?case
    by (cases e; cases "hook_run evs h") (simp_all add: hook_run_snoc hook_ok_push case_prod_beta hook_ok_pull)
qed (simp add: hook_run_def)

text \<open>What a push does to the view of its client: the oldest result goes when the queue is full.\<close>

lemma push_view:
  assumes "subseq (hook_view c s) ps" and "int (length ps) \<le> rh_limit (fst s) \<longrightarrow> hook_view c s = ps"
    and "hook_view c s' = (if int (length (hook_queue c (fst s))) < rh_limit (fst s) then hook_view c s
      else handed_to c (snd s) @ map snd (drop 1 (hook_queue c (fst s)))) @ [r]"
  shows "subseq (hook_view c s') (ps @ [r]) \<and> (int (length (ps @ [r])) \<le> rh_limit (fst s) \<longrightarrow> hook_view c s' = ps @ [r])"
proof (cases "int (length (hook_queue c (fst s))) < rh_limit (fst s)")
  case True
  then show ?thesis using assms by simp
next
  case False
  let ?q = "hook_queue c (fst s)"
  have "subseq (map snd (drop 1 ?q)) (map snd ?q)" by (cases ?q) auto
  then have "subseq (handed_to c (snd s) @ map snd (drop 1 ?q)) (hook_view c s)"
    unfolding hook_view_def by (rule list_emb_append_mono [OF subseq_order.order_refl])
  then have "subseq (handed_to c (snd s) @ map snd (drop 1 ?q)) ps" using assms(1) by (rule subseq_order.order_trans)
  then have "subseq ((handed_to c (snd s) @ map snd (drop 1 ?q)) @ [r]) (ps @ [r])" by (rule list_emb_append_mono) simp
  then have "subseq (hook_view c s') (ps @ [r])" using False assms(3) by simp
  moreover have "length ?q \<le> length ps"
    using list_emb_length [OF assms(1)] by (simp add: hook_view_def)
  ultimately show ?thesis using False by simp
qed

lemma view_of_history:
  fixes new :: "'a result_hook"
  assumes "new = new_result_hook limit"
  shows "subseq (hook_view c (hook_run evs new)) (pushed_to c evs) \<and>
    (int (length (pushed_to c evs)) \<le> rh_limit new \<longrightarrow> hook_view c (hook_run evs new) = pushed_to c evs)"
proof (induction evs rule: rev_induct)
  case Nil
  show ?case
    by (simp add: assms hook_run_def hook_view_def handed_to_def pushed_to_def new_result_hook_def hook_queue_def dget_or_def)
next
  case (snoc e evs)
  let ?s = "hook_run evs new"
  show ?case
  proof (cases "\<exists>r. e = Push c r")
    case True
    then obtain r where e: "e = Push c r" by blast
    have all: "pushed_to c (evs @ [e]) = pushed_to c evs @ [r]" using e by (simp add: pushed_to_snoc)
    have "hook_view c (hook_run (evs @ [e]) new) = (if int (length (hook_queue c (fst ?s))) < rh_limit (fst ?s) then hook_view c ?s
        else handed_to c (snd ?s) @ map snd (drop 1 (hook_queue c (fst ?s)))) @ [r]"
      using e by (simp add: hook_run_snoc hook_view_push) (auto simp: hook_view_def)
    from push_view [OF _ _ this, of "pushed_to c evs"] show ?thesis using snoc unfolding all hook_run_limit by blast
  next
    case False
    then show ?thesis using snoc by (cases e) (simp_all add: hook_run_snoc hook_view_pull hook_view_push pushed_to_snoc)
  qed
qed



end
