(* ===== verification/ResourceSignals.thy ===== *)
theory ResourceSignals
  imports Prelude
begin

text \<open>
  The signal store of a node (\<open>controlplane/resource_signals.py\<close>): progress, failure and stop
  signals are kept as a bounded log, readiness signals only in their latest version for each
  resource, and a reader pages through both by the sequence number of the last signal it saw.
\<close>

section \<open>Signals\<close>

record resource_signal =
  sg_seq :: int
  sg_node_instance_id :: string
  sg_resource_kind :: string
  sg_resource_id :: string
  sg_epoch :: int
  sg_signal_type :: string
  sg_state :: string
  sg_reason :: string
  sg_payload :: payload
  sg_updated_at :: instant

record resource_operation =
  op_id :: string
  op_type :: string
  op_resource_kind :: string
  op_resource_id :: string
  op_status :: string
  op_stage :: string
  op_last_signal_seq :: int
  op_error :: string
  op_created_at :: instant
  op_updated_at :: instant

record signal_store =
  ss_maxlen :: int
  ss_seq :: int
  ss_signals :: "resource_signal list"
  ss_latest :: "(string \<times> string, resource_signal) dict"
  ss_coalesced :: "(string \<times> string \<times> string, resource_signal) dict"
  ss_operations :: "(string, resource_operation) dict"

definition RESOURCE_SIGNAL_COALESCE_TYPES :: "string list" where
  "RESOURCE_SIGNAL_COALESCE_TYPES = [''readiness'']"

definition RESOURCE_SIGNAL_RETAIN_TYPES :: "string list" where
  "RESOURCE_SIGNAL_RETAIN_TYPES = [''progress'', ''failure'', ''stop'']"

definition new_signal_store :: "int \<Rightarrow> signal_store" where
  "new_signal_store maxlen =
    \<lparr>ss_maxlen = max 1 (num_or maxlen 1), ss_seq = 0, ss_signals = [], ss_latest = [], ss_coalesced = [], ss_operations = []\<rparr>"

definition with_seq :: "int \<Rightarrow> instant \<Rightarrow> resource_signal \<Rightarrow> resource_signal" where
  "with_seq n now s = s\<lparr>sg_seq := n, sg_updated_at := now\<rparr>"

definition trim_signals :: "signal_store \<Rightarrow> signal_store" where
  "trim_signals st =
    (let n = nat (ss_maxlen st); signals = drop (length (ss_signals st) - n) (ss_signals st);
         items = sort_key (\<lambda>(_, s). sg_seq s) (ss_coalesced st)
     in st\<lparr>ss_signals := signals,
           ss_coalesced := (if length (ss_coalesced st) \<le> n then ss_coalesced st
             else dpops (map fst (take (length items - n) items)) (ss_coalesced st))\<rparr>)"

definition coalesced_key :: "resource_signal \<Rightarrow> string \<times> string \<times> string" where
  "coalesced_key s = (sg_resource_kind s, sg_resource_id s, sg_signal_type s)"

definition publish :: "resource_signal \<Rightarrow> instant \<Rightarrow> signal_store \<Rightarrow> signal_store \<times> int" where
  "publish s0 now st =
    (let s = with_seq (ss_seq st + 1) now s0;
         st1 = st\<lparr>ss_seq := ss_seq st + 1, ss_latest := dset (sg_resource_kind s, sg_resource_id s) s (ss_latest st)\<rparr>;
         st2 = (if sg_signal_type s \<in> set RESOURCE_SIGNAL_COALESCE_TYPES
             then st1\<lparr>ss_coalesced := dset (coalesced_key s) s (ss_coalesced st1)\<rparr>
           else if sg_signal_type s \<in> set RESOURCE_SIGNAL_RETAIN_TYPES then st1\<lparr>ss_signals := ss_signals st1 @ [s]\<rparr>
           else st1)
     in (trim_signals st2, sg_seq s))"

definition latest_signal :: "string \<Rightarrow> string \<Rightarrow> signal_store \<Rightarrow> resource_signal option" where
  "latest_signal kind rid st = dget (ss_latest st) (kind, rid)"

definition stored_signals :: "signal_store \<Rightarrow> resource_signal list" where
  "stored_signals st = ss_signals st @ dvals (ss_coalesced st)"

definition signals_since :: "int \<Rightarrow> int \<Rightarrow> signal_store \<Rightarrow> resource_signal list" where
  "signals_since cursor limit st =
    (let items = filter (\<lambda>s. max 0 cursor < sg_seq s) (stored_signals st)
     in take (nat (max 1 (num_or limit 100))) (sort_key sg_seq items))"

definition signal_snapshot :: "string \<Rightarrow> string \<Rightarrow> signal_store \<Rightarrow> resource_signal list" where
  "signal_snapshot kind rid st =
    sort_key sg_seq (filter (\<lambda>s. (kind = [] \<or> sg_resource_kind s = kind) \<and> (rid = [] \<or> sg_resource_id s = rid)) (dvals (ss_latest st)))"

section \<open>Operations\<close>

definition merged_operation :: "resource_operation \<Rightarrow> resource_operation \<Rightarrow> resource_operation" where
  "merged_operation new old =
    old\<lparr>op_type := str_or (op_type new) (op_type old), op_resource_kind := str_or (op_resource_kind new) (op_resource_kind old),
        op_resource_id := str_or (op_resource_id new) (op_resource_id old), op_status := str_or (op_status new) (op_status old),
        op_stage := str_or (op_stage new) (op_stage old), op_last_signal_seq := num_or (op_last_signal_seq new) (op_last_signal_seq old),
        op_error := str_or (op_error new) (op_error old), op_updated_at := op_updated_at new\<rparr>"

text \<open>A known operation is merged and moved to the end; a new one may push the oldest out.\<close>

definition upsert_operation :: "resource_operation \<Rightarrow> signal_store \<Rightarrow> signal_store \<times> resource_operation" where
  "upsert_operation new st =
    (case dget (ss_operations st) (op_id new) of
       Some old \<Rightarrow>
         let m = merged_operation new old
         in (st\<lparr>ss_operations := dpop (op_id new) (ss_operations st) @ [(op_id new, m)]\<rparr>, m)
     | None \<Rightarrow>
         let ops = ss_operations st @ [(op_id new, new)]
         in (st\<lparr>ss_operations := drop (length ops - nat (ss_maxlen st)) ops\<rparr>, new))"

definition get_operation :: "string \<Rightarrow> signal_store \<Rightarrow> resource_operation option" where
  "get_operation i st = dget (ss_operations st) i"

definition operations_snapshot :: "string \<Rightarrow> string \<Rightarrow> signal_store \<Rightarrow> resource_operation list" where
  "operations_snapshot kind rid st =
    filter (\<lambda>s. (kind = [] \<or> op_resource_kind s = kind) \<and> (rid = [] \<or> op_resource_id s = rid)) (dvals (ss_operations st))"

section \<open>The store as a view of the signals published\<close>

text \<open>
  The history of a store is the list of the signals handed to \<open>publish\<close>, each with the time of the
  call. \<open>numbered\<close> is the unbounded log the store abbreviates.
\<close>

definition publish_all :: "(resource_signal \<times> instant) list \<Rightarrow> signal_store \<Rightarrow> signal_store" where
  "publish_all ps st = fold (\<lambda>(s, now) st. fst (publish s now st)) ps st"

definition numbered :: "(resource_signal \<times> instant) list \<Rightarrow> resource_signal list" where
  "numbered ps = map (\<lambda>(i, s, now). with_seq (int i + 1) now s) (enumerate 0 ps)"

definition lastn :: "nat \<Rightarrow> 'a list \<Rightarrow> 'a list" where
  "lastn n xs = drop (length xs - n) xs"

definition retained_log :: "(resource_signal \<times> instant) list \<Rightarrow> resource_signal list" where
  "retained_log ps = filter (\<lambda>s. sg_signal_type s \<in> set RESOURCE_SIGNAL_RETAIN_TYPES) (numbered ps)"

definition readiness_log :: "(resource_signal \<times> instant) list \<Rightarrow> resource_signal list" where
  "readiness_log ps = filter (\<lambda>s. sg_signal_type s \<in> set RESOURCE_SIGNAL_COALESCE_TYPES) (numbered ps)"

definition readiness_of :: "string \<times> string \<times> string \<Rightarrow> (resource_signal \<times> instant) list \<Rightarrow> resource_signal list" where
  "readiness_of k ps = filter (\<lambda>s. coalesced_key s = k) (readiness_log ps)"

lemma numbered_snoc: "numbered (ps @ [(s, now)]) = numbered ps @ [with_seq (int (length ps) + 1) now s]"
  by (simp add: numbered_def enumerate_append_eq)

lemma numbered_seqs: "map sg_seq (numbered ps) = map (\<lambda>i. int i + 1) [0..<length ps]"
proof (induction ps rule: rev_induct)
  case Nil
  then show ?case by (simp add: numbered_def)
next
  case (snoc p ps)
  then show ?case by (cases p) (simp add: numbered_snoc with_seq_def)
qed

lemma numbered_bounds: "s \<in> set (numbered ps) \<Longrightarrow> 0 < sg_seq s \<and> sg_seq s \<le> int (length ps)"
proof -
  assume "s \<in> set (numbered ps)"
  then have "sg_seq s \<in> set (map sg_seq (numbered ps))" by simp
  then show ?thesis unfolding numbered_seqs by auto
qed

lemma numbered_inj: "inj_on sg_seq (set (numbered ps))"
proof -
  have "distinct (map sg_seq (numbered ps))" unfolding numbered_seqs by (simp add: distinct_map inj_on_def)
  then show ?thesis by (simp add: distinct_map)
qed

lemma lastn_lastn [simp]: "lastn n (lastn n xs) = lastn n xs"
  by (simp add: lastn_def)

lemma lastn_snoc: "0 < n \<Longrightarrow> lastn n (lastn n xs @ [x]) = lastn n (xs @ [x])"
  by (cases "length xs < n") (auto simp: lastn_def Suc_diff_le)

lemma set_lastn: "set (lastn n xs) \<subseteq> set xs"
  by (simp add: lastn_def set_drop_subset)

lemma trim_signals_parts:
  "ss_seq (trim_signals st) = ss_seq st" "ss_maxlen (trim_signals st) = ss_maxlen st"
  "ss_signals (trim_signals st) = lastn (nat (ss_maxlen st)) (ss_signals st)"
  "\<exists>ks. ss_coalesced (trim_signals st) = dpops ks (ss_coalesced st)"
  "length (ss_coalesced st) \<le> nat (ss_maxlen st) \<Longrightarrow> ss_coalesced (trim_signals st) = ss_coalesced st"
proof -
  show "\<exists>ks. ss_coalesced (trim_signals st) = dpops ks (ss_coalesced st)"
  proof (cases "length (ss_coalesced st) \<le> nat (ss_maxlen st)")
    case True
    then show ?thesis by (intro exI [of _ "[]"]) (simp add: trim_signals_def Let_def dpops_def)
  next
    case False
    then show ?thesis by (simp add: trim_signals_def Let_def) (rule exI, rule refl)
  qed
qed (simp_all add: trim_signals_def Let_def lastn_def)

text \<open>What the store holds of its history.\<close>

definition follows :: "(resource_signal \<times> instant) list \<Rightarrow> signal_store \<Rightarrow> bool" where
  "follows ps st \<longleftrightarrow> 0 < ss_maxlen st \<and> ss_seq st = int (length ps) \<and>
     ss_signals st = lastn (nat (ss_maxlen st)) (retained_log ps) \<and> dwf (ss_coalesced st) \<and>
     (\<forall>k s. dget (ss_coalesced st) k = Some s \<longrightarrow> readiness_of k ps \<noteq> [] \<and> s = last (readiness_of k ps)) \<and>
     (card (coalesced_key ` set (readiness_log ps)) \<le> nat (ss_maxlen st) \<longrightarrow>
       (\<forall>k. readiness_of k ps \<noteq> [] \<longrightarrow> dget (ss_coalesced st) k \<noteq> None))"

lemma follows_new: "follows [] (new_signal_store n)"
  by (simp add: follows_def new_signal_store_def retained_log_def readiness_log_def readiness_of_def numbered_def lastn_def)

lemma readiness_nonempty: "readiness_of k ps \<noteq> [] \<longleftrightarrow> k \<in> coalesced_key ` set (readiness_log ps)"
  unfolding readiness_of_def by (auto simp: filter_empty_conv)

lemma follows_few:
  assumes "follows ps st"
  shows "length (ss_coalesced st) \<le> card (coalesced_key ` set (readiness_log ps))"
proof -
  have wf: "distinct (map fst (ss_coalesced st))" using assms by (simp add: follows_def dwf_def)
  have "set (map fst (ss_coalesced st)) \<subseteq> coalesced_key ` set (readiness_log ps)"
  proof
    fix k assume "k \<in> set (map fst (ss_coalesced st))"
    then obtain s where "dget (ss_coalesced st) k = Some s" by (metis map_of_eq_None_iff not_None_eq list.set_map)
    then show "k \<in> coalesced_key ` set (readiness_log ps)" using assms unfolding follows_def readiness_nonempty by blast
  qed
  then have "card (set (map fst (ss_coalesced st))) \<le> card (coalesced_key ` set (readiness_log ps))" by (simp add: card_mono)
  then show ?thesis using distinct_card [OF wf] by simp
qed

lemma logs_snoc:
  assumes "s = with_seq (int (length ps) + 1) now s0"
  shows "retained_log (ps @ [(s0, now)]) = retained_log ps @ (if sg_signal_type s \<in> set RESOURCE_SIGNAL_RETAIN_TYPES then [s] else [])"
    and "readiness_log (ps @ [(s0, now)]) = readiness_log ps @ (if sg_signal_type s \<in> set RESOURCE_SIGNAL_COALESCE_TYPES then [s] else [])"
    and "readiness_of k (ps @ [(s0, now)]) = readiness_of k ps @
      (if sg_signal_type s \<in> set RESOURCE_SIGNAL_COALESCE_TYPES \<and> coalesced_key s = k then [s] else [])"
  by (simp_all add: retained_log_def readiness_log_def readiness_of_def numbered_snoc assms)

lemma types_disjoint: "t \<in> set RESOURCE_SIGNAL_COALESCE_TYPES \<Longrightarrow> t \<notin> set RESOURCE_SIGNAL_RETAIN_TYPES"
  by (auto simp: RESOURCE_SIGNAL_COALESCE_TYPES_def RESOURCE_SIGNAL_RETAIN_TYPES_def)

text \<open>Before the trimming, a publish adds one signal to one of the two collections.\<close>

definition recorded :: "resource_signal \<Rightarrow> signal_store \<Rightarrow> signal_store" where
  "recorded s st =
    (let st1 = st\<lparr>ss_seq := ss_seq st + 1, ss_latest := dset (sg_resource_kind s, sg_resource_id s) s (ss_latest st)\<rparr>
     in if sg_signal_type s \<in> set RESOURCE_SIGNAL_COALESCE_TYPES
        then st1\<lparr>ss_coalesced := dset (coalesced_key s) s (ss_coalesced st1)\<rparr>
        else if sg_signal_type s \<in> set RESOURCE_SIGNAL_RETAIN_TYPES then st1\<lparr>ss_signals := ss_signals st1 @ [s]\<rparr>
        else st1)"

lemma publish_recorded: "fst (publish s0 now st) = trim_signals (recorded (with_seq (ss_seq st + 1) now s0) st)"
  by (simp add: publish_def recorded_def Let_def)

lemma recorded_parts:
  "ss_seq (recorded s st) = ss_seq st + 1" "ss_maxlen (recorded s st) = ss_maxlen st"
  "ss_signals (recorded s st) = ss_signals st @ (if sg_signal_type s \<in> set RESOURCE_SIGNAL_RETAIN_TYPES then [s] else [])"
  "ss_coalesced (recorded s st) = (if sg_signal_type s \<in> set RESOURCE_SIGNAL_COALESCE_TYPES
     then dset (coalesced_key s) s (ss_coalesced st) else ss_coalesced st)"
  using types_disjoint [of "sg_signal_type s"] by (simp_all add: recorded_def Let_def)

lemma follows_publish:
  assumes ok: "follows ps st"
  shows "follows (ps @ [(s0, now)]) (fst (publish s0 now st))"
proof -
  let ?ps = "ps @ [(s0, now)]" and ?n = "nat (ss_maxlen st)"
  define s where "s = with_seq (int (length ps) + 1) now s0"
  have seq: "ss_seq st = int (length ps)" using ok by (simp add: follows_def)
  define r where "r = recorded s st"
  have st': "fst (publish s0 now st) = trim_signals r" by (simp add: publish_recorded seq s_def r_def)
  note logs = logs_snoc [OF s_def]
  have n: "0 < ?n" using ok by (simp add: follows_def)
  have sg: "ss_signals st = lastn ?n (retained_log ps)" using ok by (simp add: follows_def)
  have sig: "lastn ?n (ss_signals r) = lastn ?n (retained_log ?ps)"
    by (simp add: r_def recorded_parts logs sg lastn_snoc [OF n])
  have wf: "dwf (ss_coalesced r)" using ok unfolding follows_def by (simp add: r_def recorded_parts)
  have old: "\<And>k x. dget (ss_coalesced st) k = Some x \<Longrightarrow> readiness_of k ps \<noteq> [] \<and> x = last (readiness_of k ps)"
    using ok unfolding follows_def by blast
  have last: "readiness_of k ?ps \<noteq> [] \<and> x = last (readiness_of k ?ps)" if "dget (ss_coalesced r) k = Some x" for k x
    using that old [of k x] by (simp add: r_def recorded_parts logs dict_simps split: if_splits)
  have all: "ss_coalesced (trim_signals r) = ss_coalesced r \<and> dget (ss_coalesced r) k \<noteq> None"
    if few: "card (coalesced_key ` set (readiness_log ?ps)) \<le> ?n" and k: "readiness_of k ?ps \<noteq> []" for k
  proof
    have less: "card (coalesced_key ` set (readiness_log ps)) \<le> card (coalesced_key ` set (readiness_log ?ps))"
      by (rule card_mono) (auto simp: logs)
    then have few': "card (coalesced_key ` set (readiness_log ps)) \<le> ?n" using few by simp
    have "readiness_of k ps \<noteq> [] \<Longrightarrow> dget (ss_coalesced st) k \<noteq> None" using ok few' unfolding follows_def by blast
    then show "dget (ss_coalesced r) k \<noteq> None"
      using k by (cases "sg_signal_type s \<in> set RESOURCE_SIGNAL_COALESCE_TYPES \<and> coalesced_key s = k")
        (simp_all add: r_def recorded_parts logs dict_simps)
    have "set (map fst (ss_coalesced r)) \<subseteq> coalesced_key ` set (readiness_log ?ps)"
    proof
      fix k' assume "k' \<in> set (map fst (ss_coalesced r))"
      then obtain x where "dget (ss_coalesced r) k' = Some x" by (metis map_of_eq_None_iff not_None_eq list.set_map)
      then show "k' \<in> coalesced_key ` set (readiness_log ?ps)" using last readiness_nonempty by blast
    qed
    then have "card (set (map fst (ss_coalesced r))) \<le> card (coalesced_key ` set (readiness_log ?ps))" by (simp add: card_mono)
    then have "length (ss_coalesced r) \<le> ?n" using few distinct_card [of "map fst (ss_coalesced r)"] wf by (simp add: dwf_def)
    then show "ss_coalesced (trim_signals r) = ss_coalesced r"
      by (intro trim_signals_parts(5)) (simp add: r_def recorded_parts)
  qed
  obtain ks where ks: "ss_coalesced (trim_signals r) = dpops ks (ss_coalesced r)" using trim_signals_parts(4) by blast
  have max: "ss_maxlen (trim_signals r) = ss_maxlen st" by (simp add: trim_signals_parts r_def recorded_parts)
  show ?thesis unfolding follows_def st' max
  proof (intro conjI allI impI)
    show "0 < ss_maxlen st" using n by simp
    show "ss_seq (trim_signals r) = int (length ?ps)" by (simp add: trim_signals_parts r_def recorded_parts seq)
    show "ss_signals (trim_signals r) = lastn ?n (retained_log ?ps)"
      unfolding trim_signals_parts(3) sig [symmetric] by (simp add: r_def recorded_parts)
    show "dwf (ss_coalesced (trim_signals r))" using wf by (simp add: ks)
  next
    fix k x assume "dget (ss_coalesced (trim_signals r)) k = Some x"
    then have got: "dget (ss_coalesced r) k = Some x" by (simp add: ks dict_simps split: if_splits)
    show "readiness_of k ?ps \<noteq> []" "x = last (readiness_of k ?ps)" using last [OF got] by simp_all
  next
    fix k assume "card (coalesced_key ` set (readiness_log ?ps)) \<le> ?n" "readiness_of k ?ps \<noteq> []"
    from all [OF this] show "dget (ss_coalesced (trim_signals r)) k \<noteq> None" by simp
  qed
qed

lemma follows_publish_all: "follows ps (publish_all ps (new_signal_store n))"
proof (induction ps rule: rev_induct)
  case Nil
  then show ?case by (simp add: publish_all_def follows_new)
next
  case (snoc p ps)
  then show ?case using follows_publish [of ps] by (cases p) (simp add: publish_all_def)
qed

section \<open>Paging\<close>

lemma stored_published:
  assumes "follows ps st"
  shows "set (stored_signals st) \<subseteq> set (numbered ps)" "distinct (map sg_seq (stored_signals st))"
proof -
  have dwf: "dwf (ss_coalesced st)" using assms by (simp add: follows_def)
  have c: "x \<in> set (readiness_log ps) \<and> coalesced_key x = k" if "dget (ss_coalesced st) k = Some x" for k x
  proof -
    have "x \<in> set (readiness_of k ps)" using that assms last_in_set unfolding follows_def by blast
    then show ?thesis by (simp add: readiness_of_def)
  qed
  have r: "set (ss_signals st) \<subseteq> set (retained_log ps)"
    using assms set_lastn unfolding follows_def by metis
  show sub: "set (stored_signals st) \<subseteq> set (numbered ps)"
    using r c set_dvals [OF dwf] unfolding stored_signals_def retained_log_def readiness_log_def by fastforce
  have "distinct (map sg_seq (numbered ps))" unfolding numbered_seqs by (simp add: distinct_map inj_on_def)
  then have "distinct (numbered ps)" by (simp add: distinct_map)
  then have d1: "distinct (ss_signals st)"
    using assms by (simp add: follows_def lastn_def retained_log_def)
  have d2: "distinct (dvals (ss_coalesced st))"
  proof -
    have "inj_on snd (set (ss_coalesced st))"
    proof (rule inj_onI)
      fix a b assume "a \<in> set (ss_coalesced st)" "b \<in> set (ss_coalesced st)" "snd a = snd b"
      then show "a = b" using c in_dget [OF dwf] by (metis prod.collapse)
    qed
    moreover have "distinct (ss_coalesced st)" using dwf by (simp add: dwf_def distinct_map)
    ultimately show ?thesis by (simp add: dvals_def distinct_map)
  qed
  have "set (ss_signals st) \<inter> set (dvals (ss_coalesced st)) = {}"
    using r c set_dvals [OF dwf] types_disjoint unfolding retained_log_def readiness_log_def by fastforce
  then have "distinct (stored_signals st)" using d1 d2 by (simp add: stored_signals_def)
  then show "distinct (map sg_seq (stored_signals st))"
    using inj_on_subset [OF numbered_inj sub] by (simp add: distinct_map)
qed

definition signals_after :: "int \<Rightarrow> signal_store \<Rightarrow> resource_signal list" where
  "signals_after c st = sort_key sg_seq (filter (\<lambda>s. max 0 c < sg_seq s) (stored_signals st))"

definition page_limit :: "int \<Rightarrow> nat" where
  "page_limit l = nat (max 1 (num_or l 100))"

lemma signals_since_after: "signals_since c l st = take (page_limit l) (signals_after c st)"
  by (simp add: signals_since_def signals_after_def page_limit_def Let_def)

lemma rest_of_ascending:
  assumes "sorted_wrt (\<lambda>a b. f a < (f b :: int)) xs" "take n xs \<noteq> []"
  shows "filter (\<lambda>x. f (last (take n xs)) < f x) xs = drop n xs"
proof -
  let ?t = "take n xs" and ?d = "drop n xs"
  have sw: "sorted_wrt (\<lambda>a b. f a < f b) (?t @ ?d)" using assms(1) by simp
  have "f (last ?t) < f x" if "x \<in> set ?d" for x
    using sw that last_in_set [OF assms(2)] unfolding sorted_wrt_append by blast
  then have d: "filter (\<lambda>x. f (last ?t) < f x) ?d = ?d" by simp
  obtain ys y where t: "?t = ys @ [y]" using assms(2) by (metis append_butlast_last_id)
  have "f x \<le> f y" if "x \<in> set ?t" for x
    using sw that unfolding t by (auto simp: sorted_wrt_append intro: less_imp_le)
  then have "filter (\<lambda>x. f (last ?t) < f x) ?t = []" by (simp add: t filter_empty_conv not_less)
  then have "filter (\<lambda>x. f (last ?t) < f x) (?t @ ?d) = ?d" using d by (simp only: filter_append append.simps)
  then show ?thesis by simp
qed

lemma after_ascending:
  assumes "follows ps st"
  shows "sorted_wrt (\<lambda>a b. sg_seq a < sg_seq b) (signals_after c st)"
proof -
  have "distinct (map sg_seq (signals_after c st))"
    using stored_published(2) [OF assms]
    by (simp add: signals_after_def distinct_map inj_on_def)
  moreover have "sorted (map sg_seq (signals_after c st))" by (simp add: signals_after_def)
  ultimately have "sorted_wrt (<) (map sg_seq (signals_after c st))" by (simp add: strict_sorted_iff)
  then show ?thesis by (simp add: sorted_wrt_map)
qed

lemma after_later: "max 0 c \<le> d \<Longrightarrow> signals_after d st = filter (\<lambda>s. d < sg_seq s) (signals_after c st)"
  by (simp add: signals_after_def filter_sort) (rule arg_cong [of _ _ "sort_key sg_seq"], rule filter_cong, auto)

lemma next_page:
  assumes "follows ps st" "signals_since c l st \<noteq> []"
  shows "signals_since (sg_seq (last (signals_since c l st))) l' st = take (page_limit l') (drop (page_limit l) (signals_after c st))"
proof -
  let ?all = "signals_after c st" and ?xs = "signals_since c l st"
  have xs: "?xs = take (page_limit l) ?all" by (rule signals_since_after)
  have "last ?xs \<in> set ?all" using assms(2) in_set_takeD last_in_set unfolding xs by metis
  then have "max 0 c \<le> sg_seq (last ?xs)" by (simp add: signals_after_def)
  then have "signals_after (sg_seq (last ?xs)) st = filter (\<lambda>s. sg_seq (last ?xs) < sg_seq s) ?all" by (rule after_later)
  also have "\<dots> = drop (page_limit l) ?all"
    using rest_of_ascending [OF after_ascending [OF assms(1)]] assms(2) unfolding xs by blast
  finally show ?thesis by (simp add: signals_since_after)
qed

lemma stored_exact:
  assumes "follows ps st" "card (coalesced_key ` set (readiness_log ps)) \<le> nat (ss_maxlen st)"
  shows "set (stored_signals st) = set (lastn (nat (ss_maxlen st)) (retained_log ps)) \<union> {last (readiness_of k ps) | k. readiness_of k ps \<noteq> []}"
proof -
  have wf: "dwf (ss_coalesced st)" and sig: "ss_signals st = lastn (nat (ss_maxlen st)) (retained_log ps)"
    using assms(1) by (simp_all add: follows_def)
  have a: "\<And>k x. dget (ss_coalesced st) k = Some x \<Longrightarrow> readiness_of k ps \<noteq> [] \<and> x = last (readiness_of k ps)"
    and b: "\<And>k. readiness_of k ps \<noteq> [] \<Longrightarrow> dget (ss_coalesced st) k \<noteq> None"
    using assms unfolding follows_def by blast+
  have "set (dvals (ss_coalesced st)) = {last (readiness_of k ps) | k. readiness_of k ps \<noteq> []}"
  proof (rule set_eqI, unfold set_dvals [OF wf], rule iffI)
    fix x assume "\<exists>k. dget (ss_coalesced st) k = Some x"
    then show "x \<in> {last (readiness_of k ps) | k. readiness_of k ps \<noteq> []}" using a by blast
  next
    fix x assume "x \<in> {last (readiness_of k ps) | k. readiness_of k ps \<noteq> []}"
    then obtain k where k: "readiness_of k ps \<noteq> []" "x = last (readiness_of k ps)" by blast
    obtain y where "dget (ss_coalesced st) k = Some y" using b [OF k(1)] by (cases "dget (ss_coalesced st) k") auto
    moreover from this have "y = x" using a k(2) by blast
    ultimately show "\<exists>k. dget (ss_coalesced st) k = Some x" by blast
  qed
  then show ?thesis by (simp only: stored_signals_def set_append sig)
qed

lemma publish_all_maxlen: "ss_maxlen (publish_all ps st) = ss_maxlen st"
  by (induction ps rule: rev_induct) (auto simp: publish_all_def publish_recorded trim_signals_parts recorded_parts)


definition demo_signal :: "string \<Rightarrow> string \<Rightarrow> resource_signal" where
  "demo_signal rid type = \<lparr>sg_seq = 0, sg_node_instance_id = ''i'', sg_resource_kind = ''service'', sg_resource_id = rid,
     sg_epoch = 1, sg_signal_type = type, sg_state = ''s'', sg_reason = [], sg_payload = [], sg_updated_at = 0\<rparr>"

definition demo_history :: "(resource_signal \<times> instant) list" where
  "demo_history = [(demo_signal ''a'' ''readiness'', 1), (demo_signal ''a'' ''progress'', 2), (demo_signal ''b'' ''failure'', 3),
     (demo_signal ''a'' ''readiness'', 4), (demo_signal ''b'' ''stop'', 5)]"


text \<open>An operation is known under its id until as many newer ones as the bound have been added or changed.\<close>

lemma upsert_operation_found:
  "get_operation (op_id new) (fst (upsert_operation new st)) \<noteq> None" if "0 < ss_maxlen st" and "dwf (ss_operations st)"
proof (cases "dget (ss_operations st) (op_id new)")
  case None
  define ops where "ops = ss_operations st @ [(op_id new, new)]"
  have "(op_id new, new) \<in> set (drop (length ops - nat (ss_maxlen st)) ops)"
    using that(1) by (simp add: ops_def)
  then show ?thesis using None by (auto simp: upsert_operation_def get_operation_def Let_def ops_def [symmetric] dest: weak_map_of_SomeI)
next
  case (Some old)
  then show ?thesis by (simp add: upsert_operation_def get_operation_def Let_def dict_simps)
qed

end
