(* ===== verification/CreateRequests.thy ===== *)
theory CreateRequests
  imports Prelude
begin

text \<open>
  The create requests of a node (\<open>controlplane/nodecontrol_state.py\<close>): a client that repeats a
  create call under one request id is answered from a table of records, one table for services and
  one for task pools. Whether a resource still exists is an argument of the pruning, since the
  tables only hold resource ids.
\<close>

section \<open>Records and operations\<close>

record create_request =
  cr_fingerprint :: string
  cr_status :: string
  cr_resource_id :: string
  cr_error :: string
  cr_created_at :: instant
  cr_updated_at :: instant

type_synonym request_table = "(string, create_request) dict"

definition CREATE_REQUEST_MAX_RECORDS :: nat where
  "CREATE_REQUEST_MAX_RECORDS = 200"

definition CREATE_REQUEST_WAIT_TIMEOUT :: instant where
  "CREATE_REQUEST_WAIT_TIMEOUT = 300"

definition new_create_request :: "string \<Rightarrow> instant \<Rightarrow> create_request" where
  "new_create_request fingerprint now =
    \<lparr>cr_fingerprint = fingerprint, cr_status = ''CREATING'', cr_resource_id = [], cr_error = [], cr_created_at = now, cr_updated_at = now\<rparr>"

definition request_age :: "create_request \<Rightarrow> instant" where
  "request_age r = num_or (cr_updated_at r) (num_or (cr_created_at r) 0)"

definition create_request_resource_exists :: "(string \<Rightarrow> bool) \<Rightarrow> string \<Rightarrow> bool" where
  "create_request_resource_exists live rid \<longleftrightarrow> strip rid \<noteq> [] \<and> live (strip rid)"

text \<open>The oldest of some records, as many as the table is too long.\<close>

definition drop_oldest :: "(string \<times> create_request) list \<Rightarrow> request_table \<Rightarrow> request_table" where
  "drop_oldest candidates t =
    dpops (map fst (take (length t - CREATE_REQUEST_MAX_RECORDS) (sort_key (\<lambda>(_, r). request_age r) candidates))) t"

definition prune_create_requests :: "(string \<Rightarrow> bool) \<Rightarrow> request_table \<Rightarrow> request_table" where
  "prune_create_requests live t =
    (let t1 = filter (\<lambda>(_, r). \<not> (cr_status r = ''SUCCEEDED'' \<and> \<not> create_request_resource_exists live (cr_resource_id r))) t;
         t2 = drop_oldest (filter (\<lambda>(_, r). cr_status r \<noteq> ''CREATING'') t1) t1
     in drop_oldest t2 t2)"

definition drop_create_requests :: "string \<Rightarrow> request_table \<Rightarrow> request_table" where
  "drop_create_requests rid t =
    (if strip rid = [] then t
     else filter (\<lambda>(_, r). \<not> (cr_status r = ''SUCCEEDED'' \<and> strip (cr_resource_id r) = strip rid)) t)"

text \<open>The call is answered with the record's own or has to create, told by the flag.\<close>

definition begin_create_request :: "(string \<Rightarrow> bool) \<Rightarrow> string \<Rightarrow> string \<Rightarrow> string \<Rightarrow> instant \<Rightarrow> request_table \<Rightarrow> request_table \<times> (py_error + bool)" where
  "begin_create_request live kind request_id fingerprint now t0 =
    (let i = strip request_id
     in if i = [] then (t0, Inr True)
        else let t = prune_create_requests live t0
             in case dget t i of
                  None \<Rightarrow> (dset i (new_create_request fingerprint now) t, Inr True)
                | Some r \<Rightarrow>
                    if cr_fingerprint r \<noteq> fingerprint then (t, Inl (RuntimeError (kind @ '' create_request_id collision'')))
                    else (t, Inr False))"

definition record_request :: "(string \<Rightarrow> bool) \<Rightarrow> string \<Rightarrow> string \<Rightarrow> string \<Rightarrow> string \<Rightarrow> instant \<Rightarrow> request_table \<Rightarrow> request_table" where
  "record_request live status request_id fingerprint rid now t =
    (let i = strip request_id
     in if i = [] then t
        else let r = (case dget t i of None \<Rightarrow> new_create_request fingerprint now | Some r \<Rightarrow> r)
             in prune_create_requests live
                  (dset i (r\<lparr>cr_status := status, cr_resource_id := rid, cr_error := [], cr_updated_at := now\<rparr>) t))"

definition accept_create_request :: "(string \<Rightarrow> bool) \<Rightarrow> string \<Rightarrow> string \<Rightarrow> string \<Rightarrow> instant \<Rightarrow> request_table \<Rightarrow> request_table" where
  "accept_create_request live = record_request live ''CREATING''"

definition finish_create_request :: "(string \<Rightarrow> bool) \<Rightarrow> string \<Rightarrow> string \<Rightarrow> string \<Rightarrow> instant \<Rightarrow> request_table \<Rightarrow> request_table" where
  "finish_create_request live = record_request live ''SUCCEEDED''"

definition fail_create_request :: "(string \<Rightarrow> bool) \<Rightarrow> string \<Rightarrow> string \<Rightarrow> instant \<Rightarrow> request_table \<Rightarrow> request_table" where
  "fail_create_request live request_id err now t =
    (let i = strip request_id
     in case (if i = [] then None else dget t i) of
          None \<Rightarrow> t
        | Some r \<Rightarrow>
            if cr_status r = ''SUCCEEDED'' then t
            else prune_create_requests live (dset i (r\<lparr>cr_status := ''FAILED'', cr_error := err, cr_updated_at := now\<rparr>) t))"

text \<open>
  A repeated call waits for the first one. One look at the table under the lock either answers the
  caller or leaves it waiting; the loop is the list of its looks, with the time of each, and
  \<open>Waiting\<close> at the end means that the caller has not been woken again yet.
\<close>

datatype 'r wait_outcome = Found 'r | Raised py_error | Waiting

definition wait_look :: "string \<Rightarrow> string \<Rightarrow> string \<Rightarrow> (string \<Rightarrow> 'r option) \<Rightarrow> bool \<Rightarrow> request_table \<Rightarrow> request_table \<times> 'r wait_outcome" where
  "wait_look kind request_id fingerprint lookup return_creating t =
    (let i = strip request_id
     in case dget t i of
          None \<Rightarrow> (t, Raised (RuntimeError (kind @ '' create_request_id record missing'')))
        | Some r \<Rightarrow>
            if cr_fingerprint r \<noteq> fingerprint then (t, Raised (RuntimeError (kind @ '' create_request_id collision'')))
            else if cr_status r = ''SUCCEEDED''
            then (case lookup (cr_resource_id r) of
                Some x \<Rightarrow> (t, Found x)
              | None \<Rightarrow> (dpop i t, Raised (RuntimeError (kind @ '' create_request_id result missing''))))
            else if cr_status r = ''FAILED''
            then (t, Raised (RuntimeError (kind @ '' create_request_id failed: '' @ str_or (cr_error r) ''unknown error'')))
            else if return_creating \<and> strip (cr_resource_id r) \<noteq> []
            then (t, case lookup (cr_resource_id r) of Some x \<Rightarrow> Found x | None \<Rightarrow> Waiting)
            else (t, Waiting))"

fun wait_for_create_request :: "string \<Rightarrow> string \<Rightarrow> string \<Rightarrow> bool \<Rightarrow> instant \<Rightarrow> (instant \<times> (string \<Rightarrow> 'r option) \<times> request_table) list \<Rightarrow> 'r wait_outcome" where
  "wait_for_create_request kind request_id fingerprint return_creating deadline [] = Waiting"
| "wait_for_create_request kind request_id fingerprint return_creating deadline ((now, lookup, t) # looks) =
    (case snd (wait_look kind request_id fingerprint lookup return_creating t) of
       Waiting \<Rightarrow>
         if deadline - now \<le> 0 then Raised (TimeoutError (kind @ '' create_request_id still creating''))
         else wait_for_create_request kind request_id fingerprint return_creating deadline looks
     | out \<Rightarrow> out)"

section \<open>Histories of a table\<close>

datatype request_event =
    BeginReq string string
  | AcceptReq string string string
  | FinishReq string string string
  | FailReq string string
  | DropReq string
  | LookReq string string "string \<Rightarrow> bool"

text \<open>Each event carries the time and the resources that exist then.\<close>

fun request_step :: "request_event \<times> instant \<times> (string \<Rightarrow> bool) \<Rightarrow> request_table \<Rightarrow> request_table" where
  "request_step (BeginReq i fp, now, live) t = fst (begin_create_request live [] i fp now t)"
| "request_step (AcceptReq i fp rid, now, live) t = accept_create_request live i fp rid now t"
| "request_step (FinishReq i fp rid, now, live) t = finish_create_request live i fp rid now t"
| "request_step (FailReq i err, now, live) t = fail_create_request live i err now t"
| "request_step (DropReq rid, now, live) t = drop_create_requests rid t"
| "request_step (LookReq i fp found, now, live) t = fst (wait_look [] i fp (\<lambda>rid. if found rid then Some () else None) True t)"

definition request_run :: "(request_event \<times> instant \<times> (string \<Rightarrow> bool)) list \<Rightarrow> request_table \<Rightarrow> request_table" where
  "request_run evs t = fold request_step evs t"

definition creating :: "request_table \<Rightarrow> nat" where
  "creating t = length (filter (\<lambda>(_, r). cr_status r = ''CREATING'') t)"

text \<open>The events by which the first call under an id ends.\<close>

fun settles :: "string \<Rightarrow> request_event \<Rightarrow> bool" where
  "settles i (FinishReq j _ _) = (strip j = i)"
| "settles i (FailReq j _) = (strip j = i)"
| "settles i (AcceptReq j _ _) = False"
| "settles i _ = False"

definition owned :: "string \<Rightarrow> string \<Rightarrow> request_table \<Rightarrow> bool" where
  "owned i fp t \<longleftrightarrow> dwf t \<and> (\<exists>r. dget t i = Some r \<and> cr_status r = ''CREATING'' \<and> cr_fingerprint r = fp)"

section \<open>Pruning\<close>

lemma in_dpops: "dwf t \<Longrightarrow> (k, v) \<in> set (dpops ks t) \<longleftrightarrow> (k, v) \<in> set t \<and> k \<notin> set ks"
  by (metis dget_dpops dget_in dwf_dpops in_dget option.distinct(1))

lemma drop_oldest_dwf [simp]: "dwf t \<Longrightarrow> dwf (drop_oldest c t)"
  by (simp add: drop_oldest_def)

lemma drop_oldest_short: "length t \<le> CREATE_REQUEST_MAX_RECORDS \<Longrightarrow> drop_oldest c t = t"
  by (simp add: drop_oldest_def dpops_def)

lemma drop_oldest_get: "dget (drop_oldest c t) k = None \<or> dget (drop_oldest c t) k = dget t k"
  by (simp add: drop_oldest_def dict_simps)

lemma drop_oldest_spares: "k \<notin> fst ` set c \<Longrightarrow> dget (drop_oldest c t) k = dget t k"
proof -
  assume "k \<notin> fst ` set c"
  then have "k \<notin> set (map fst (take n (sort_key f c)))" for n and f :: "string \<times> create_request \<Rightarrow> instant"
    using set_take_sort_key [of n f c] by auto
  then show ?thesis by (simp add: drop_oldest_def dict_simps)
qed

lemma dwf_length: "dwf t \<Longrightarrow> length t = card (fst ` set t)"
  unfolding dwf_def by (metis distinct_card length_map list.set_map)

lemma length_drop_oldest:
  assumes "dwf t" "set c \<subseteq> set t" "distinct (map fst c)"
  shows "length (drop_oldest c t) = length t - min (length t - CREATE_REQUEST_MAX_RECORDS) (length c)"
proof -
  let ?n = "length t - CREATE_REQUEST_MAX_RECORDS"
  define s where "s = sort_key (\<lambda>(_, r). request_age r) c"
  have ms: "mset s = mset c" by (simp add: s_def)
  have "distinct (map fst s)" using assms(3) ms by (metis mset_eq_imp_distinct_iff mset_map)
  then have d: "distinct (map fst (take ?n s))" by (simp add: take_map [symmetric])
  let ?K = "fst ` set (take ?n s)"
  have sub: "?K \<subseteq> fst ` set t" using assms(2) ms by (metis image_mono order_trans set_mset_mset set_take_subset)
  have mem: "(k, v) \<in> set (drop_oldest c t) \<longleftrightarrow> (k, v) \<in> set t \<and> k \<notin> ?K" for k v
    unfolding drop_oldest_def s_def [symmetric] in_dpops [OF assms(1)] by simp
  have "p \<in> set (drop_oldest c t) \<longleftrightarrow> p \<in> {p \<in> set t. fst p \<notin> ?K}" for p
    using mem [of "fst p" "snd p"] unfolding prod.collapse mem_Collect_eq .
  then have "set (drop_oldest c t) = {p \<in> set t. fst p \<notin> ?K}" by (rule set_eqI)
  moreover have "fst ` {p \<in> A. fst p \<notin> K} = fst ` A - K" for A :: "(string \<times> create_request) set" and K by auto
  ultimately have "fst ` set (drop_oldest c t) = fst ` set t - ?K" by simp
  then have "length (drop_oldest c t) = card (fst ` set t) - card ?K"
    using assms(1) sub by (simp add: dwf_length card_Diff_subset)
  moreover have "card ?K = min ?n (length c)"
    using d distinct_card [of "map fst (take ?n s)"] mset_eq_length [OF ms] by (simp add: min.commute)
  ultimately show ?thesis using assms(1) by (simp add: dwf_length)
qed

lemma drop_all_candidates:
  assumes "length c \<le> length t - CREATE_REQUEST_MAX_RECORDS"
  shows "drop_oldest c t = dpops (map fst (sort_key (\<lambda>(_, r). request_age r) c)) t"
  using assms by (simp add: drop_oldest_def)

lemma creating_in: "dwf t \<Longrightarrow> (\<And>k r. dget t k = Some r \<Longrightarrow> cr_status r = ''CREATING'') \<Longrightarrow> creating t = length t"
proof -
  assume wf: "dwf t" and all: "\<And>k r. dget t k = Some r \<Longrightarrow> cr_status r = ''CREATING''"
  have "\<forall>p \<in> set t. case p of (_, r) \<Rightarrow> cr_status r = ''CREATING''"
    using all in_dget [OF wf] by auto
  then show ?thesis unfolding creating_def by (simp only: filter_True)
qed

text \<open>A record that is being created goes only when the table is full of such records.\<close>

lemma prune_spares_creating:
  assumes wf: "dwf t" and few: "creating (prune_create_requests live t) < CREATE_REQUEST_MAX_RECORDS"
    and k: "dget t k = Some r" "cr_status r = ''CREATING''"
  shows "dget (prune_create_requests live t) k = Some r"
proof -
  define t1 where "t1 = filter (\<lambda>(_, r). \<not> (cr_status r = ''SUCCEEDED'' \<and> \<not> create_request_resource_exists live (cr_resource_id r))) t"
  define c where "c = filter (\<lambda>(_, r). cr_status r \<noteq> ''CREATING'') t1"
  define t2 where "t2 = drop_oldest c t1"
  have p: "prune_create_requests live t = drop_oldest t2 t2"
    by (simp add: prune_create_requests_def Let_def t1_def c_def t2_def)
  have wf1: "dwf t1" using wf by (simp add: t1_def)
  have wf2: "dwf t2" using wf1 by (simp add: t2_def)
  have k1: "dget t1 k = Some r" unfolding t1_def dget_filter [OF wf] using k by simp
  have "k \<notin> fst ` set c"
  proof
    assume "k \<in> fst ` set c"
    then obtain r' where "(k, r') \<in> set t1" "cr_status r' \<noteq> ''CREATING''" by (auto simp: c_def)
    then show False using in_dget [OF wf1] k1 k(2) by (metis option.inject)
  qed
  then have k2: "dget t2 k = Some r" using k1 drop_oldest_spares unfolding t2_def by metis
  have "length t2 \<le> CREATE_REQUEST_MAX_RECORDS"
  proof (rule ccontr)
    assume long: "\<not> length t2 \<le> CREATE_REQUEST_MAX_RECORDS"
    have dc: "set c \<subseteq> set t1" "distinct (map fst c)" using wf1 dwf_filter [OF wf1] by (auto simp: c_def dwf_def)
    have len2: "length t2 = length t1 - min (length t1 - CREATE_REQUEST_MAX_RECORDS) (length c)"
      unfolding t2_def by (rule length_drop_oldest [OF wf1 dc])
    then have "length c \<le> length t1 - CREATE_REQUEST_MAX_RECORDS" using long by linarith
    then have t2: "t2 = dpops (map fst (sort_key (\<lambda>(_, r). request_age r) c)) t1"
      unfolding t2_def by (rule drop_all_candidates)
    have all: "cr_status r' = ''CREATING''" if "dget t2 k' = Some r'" for k' r'
    proof (rule ccontr)
      assume no: "cr_status r' \<noteq> ''CREATING''"
      have "dget t1 k' = Some r'" "k' \<notin> fst ` set c"
        using that by (simp_all add: t2 dict_simps split: if_splits)
      then show False using no dget_in [of t1 k' r'] by (force simp: c_def)
    qed
    have "length (drop_oldest t2 t2) = length t2 - min (length t2 - CREATE_REQUEST_MAX_RECORDS) (length t2)"
      by (rule length_drop_oldest [OF wf2]) (use wf2 in \<open>auto simp: dwf_def\<close>)
    then have len: "length (drop_oldest t2 t2) = CREATE_REQUEST_MAX_RECORDS" using long by linarith
    have "cr_status r' = ''CREATING''" if "dget (drop_oldest t2 t2) k' = Some r'" for k' r'
      using that all [of k' r'] drop_oldest_get [of t2 t2 k'] by auto
    then have "creating (drop_oldest t2 t2) = CREATE_REQUEST_MAX_RECORDS"
      using creating_in [of "drop_oldest t2 t2"] wf2 len by simp
    then show False using few unfolding p by simp
  qed
  then show ?thesis unfolding p using k2 drop_oldest_short by metis
qed

lemma prune_dwf [simp]: "dwf t \<Longrightarrow> dwf (prune_create_requests live t)"
  by (simp add: prune_create_requests_def Let_def)

lemma owned_prune:
  assumes "owned i fp t" "creating (prune_create_requests live t) < CREATE_REQUEST_MAX_RECORDS"
  shows "owned i fp (prune_create_requests live t)"
  using assms prune_spares_creating unfolding owned_def by (metis prune_dwf)

lemma owned_dset: "owned i fp t \<Longrightarrow> j \<noteq> i \<Longrightarrow> owned i fp (dset j r t)"
  by (simp add: owned_def dict_simps)

section \<open>One creation at a time under an id\<close>

lemma owned_step:
  assumes own: "owned i fp t" and ev: "\<not> settles i (fst ev)"
    and few: "creating (request_step ev t) < CREATE_REQUEST_MAX_RECORDS"
  shows "owned i fp (request_step ev t)"
proof -
  obtain e now live where e: "ev = (e, now, live)" by (cases ev) auto
  have wf: "dwf t" using own by (simp add: owned_def)
  have rec: "owned i fp (record_request live status j fp' rid now t)"
    if "strip j = i \<longrightarrow> status = ''CREATING''" "creating (record_request live status j fp' rid now t) < CREATE_REQUEST_MAX_RECORDS" for status j fp' rid
  proof (cases "strip j = []")
    case True
    then show ?thesis using own by (simp add: record_request_def Let_def)
  next
    case False
    define r where "r = (case dget t (strip j) of None \<Rightarrow> new_create_request fp' now | Some r \<Rightarrow> r)\<lparr>cr_status := status, cr_resource_id := rid, cr_error := [], cr_updated_at := now\<rparr>"
    have eq: "record_request live status j fp' rid now t = prune_create_requests live (dset (strip j) r t)"
      using False by (simp add: record_request_def Let_def r_def)
    have "owned i fp (dset (strip j) r t)"
    proof (cases "strip j = i")
      case True
      then show ?thesis using own that(1) by (auto simp: owned_def dict_simps r_def)
    qed (use own in \<open>simp add: owned_dset\<close>)
    then show ?thesis using owned_prune that(2) unfolding eq by blast
  qed
  show ?thesis
  proof (cases e)
    case (BeginReq j fp')
    show ?thesis
    proof (cases "strip j = []")
      case True
      then show ?thesis using own by (simp add: e BeginReq begin_create_request_def Let_def)
    next
      case False
      define t' where "t' = prune_create_requests live t"
      show ?thesis
      proof (cases "dget t' (strip j)")
        case None
        then have res: "request_step ev t = dset (strip j) (new_create_request fp' now) t'"
          using False by (simp add: e BeginReq begin_create_request_def Let_def t'_def)
        have "creating t' \<le> creating (dset (strip j) (new_create_request fp' now) t')"
          using None by (induction t') (auto simp: creating_def split: if_splits)
        then have o: "owned i fp t'" using few res owned_prune [OF own] unfolding t'_def by simp
        then have "strip j \<noteq> i" using None by (auto simp: owned_def)
        then show ?thesis unfolding res by (rule owned_dset [OF o])
      next
        case (Some r)
        then have res: "request_step ev t = t'"
          using False by (simp add: e BeginReq begin_create_request_def Let_def t'_def)
        then show ?thesis using few owned_prune [OF own] unfolding t'_def by simp
      qed
    qed
  next
    case (AcceptReq j fp' rid)
    then show ?thesis using rec [of j "''CREATING''"] few by (simp add: e accept_create_request_def)
  next
    case (FinishReq j fp' rid)
    then show ?thesis using rec [of j "''SUCCEEDED''"] few ev by (simp add: e finish_create_request_def)
  next
    case (FailReq j err)
    show ?thesis
    proof (cases "strip j = [] \<or> dget t (strip j) = None \<or> (\<exists>r. dget t (strip j) = Some r \<and> cr_status r = ''SUCCEEDED'')")
      case True
      then show ?thesis using own by (auto simp: e FailReq fail_create_request_def Let_def)
    next
      case False
      then obtain r where r: "dget t (strip j) = Some r" "cr_status r \<noteq> ''SUCCEEDED''" "strip j \<noteq> []" by auto
      define u where "u = dset (strip j) (r\<lparr>cr_status := ''FAILED'', cr_error := err, cr_updated_at := now\<rparr>) t"
      have res: "request_step ev t = prune_create_requests live u"
        using r by (simp add: e FailReq fail_create_request_def Let_def u_def)
      have "owned i fp u" unfolding u_def by (rule owned_dset [OF own]) (use ev in \<open>simp add: e FailReq\<close>)
      then show ?thesis using owned_prune few unfolding res by blast
    qed
  next
    case (DropReq rid)
    obtain r where r: "dget t i = Some r" "cr_status r = ''CREATING''" "cr_fingerprint r = fp" using own by (auto simp: owned_def)
    then have "dget (drop_create_requests rid t) i = Some r"
      by (simp add: drop_create_requests_def dget_filter [OF wf])
    moreover have "dwf (drop_create_requests rid t)" using wf by (simp add: drop_create_requests_def)
    ultimately show ?thesis using r by (simp add: e DropReq owned_def)
  next
    case (LookReq j fp' found)
    have "fst (wait_look [] j fp' (\<lambda>rid. if found rid then Some () else None) True t) = t \<or>
        (\<exists>r. dget t (strip j) = Some r \<and> cr_status r = ''SUCCEEDED'' \<and>
          fst (wait_look [] j fp' (\<lambda>rid. if found rid then Some () else None) True t) = dpop (strip j) t)"
      by (simp add: wait_look_def Let_def split: option.split)
    then show ?thesis using own by (auto simp: e LookReq owned_def dict_simps)
  qed
qed

lemma creating_filter: "creating (filter P t) \<le> creating t"
  unfolding creating_def by (induction t) (auto simp: less_Suc_eq_le)

lemma creating_dpops: "creating (dpops ks t) \<le> creating t"
proof (induction ks arbitrary: t)
  case (Cons k ks)
  have "creating (dpops ks (dpop k t)) \<le> creating (dpop k t)" by (rule Cons.IH)
  also have "\<dots> \<le> creating t" unfolding AList.delete_eq by (rule creating_filter)
  finally show ?case by (simp add: dpops_def)
qed (simp add: dpops_def)

lemma creating_prune: "creating (prune_create_requests live t) \<le> creating t"
  unfolding prune_create_requests_def Let_def drop_oldest_def
  by (intro order_trans [OF creating_dpops] creating_filter)

lemma owned_run:
  assumes "owned i fp t" "\<forall>e \<in> set evs. \<not> settles i (fst e)"
    and "\<forall>k \<le> length evs. creating (request_run (take k evs) t) < CREATE_REQUEST_MAX_RECORDS"
  shows "owned i fp (request_run evs t)"
  using assms
proof (induction evs rule: rev_induct)
  case Nil
  then show ?case by (simp add: request_run_def)
next
  case (snoc e evs)
  have "creating (request_run (take k evs) t) < CREATE_REQUEST_MAX_RECORDS" if "k \<le> length evs" for k
    using snoc.prems(3) [rule_format, of k] that by simp
  then have o: "owned i fp (request_run evs t)" using snoc.IH snoc.prems by simp
  have "creating (request_step e (request_run evs t)) < CREATE_REQUEST_MAX_RECORDS"
    using snoc.prems(3) [rule_format, of "Suc (length evs)"] by (simp add: request_run_def)
  then show ?case using owned_step [OF o] snoc.prems(2) by (simp add: request_run_def)
qed


text \<open>A second request is made and finished and the first one accepted before the call is repeated.\<close>

definition demo_requests :: "(request_event \<times> instant \<times> (string \<Rightarrow> bool)) list" where
  "demo_requests = [(BeginReq ''r2'' ''g'', 2, \<lambda>_. True), (AcceptReq '' r1'' ''f'' ''p1'', 3, \<lambda>_. True),
     (FinishReq ''r2'' ''g'' ''p2'', 4, \<lambda>_. True), (DropReq ''p2'', 5, \<lambda>_. True)]"


text \<open>A repeated call does not wait past its deadline.\<close>

lemma wait_ends:
  assumes "(now, lookup, t) \<in> set looks" "deadline \<le> now"
  shows "wait_for_create_request kind i fp rc deadline looks \<noteq> Waiting"
  using assms
proof (induction looks)
  case (Cons l looks)
  obtain n f u where l: "l = (n, f, u)" by (cases l)
  show ?case using Cons by (cases "snd (wait_look kind i fp f rc u)") (auto simp: l)
qed simp

end
