(* ===== verification/NodePools.thy ===== *)
theory NodePools
  imports ResultHook ResourceSignals CreateRequests
begin

text \<open>
  The task pools of a node (\<open>controlplane/nodecontrol_state.py\<close>): the pools and their leases, the
  tasks a pool has been handed, and the results that go to the owner through the result hook. The
  state is what \<open>NodeControlState\<close> keeps about pools; every operation is one section under the
  node's lock, and an operation of the source that takes the lock several times is several
  functions. The executor host and the wire format of payloads and results are outside: what they
  answer is an argument of the section that uses it.
\<close>

section \<open>Tasks and pools\<close>

datatype task_status = TaskQueued | TaskRunning | TaskSucceeded | TaskFailedUser | TaskFailedInfra | TaskCancelled

record pool_task =
  tk_id :: string
  tk_client :: string
  tk_job :: string
  tk_code_version :: string
  tk_payload :: pyval
  tk_timeout_hint_sec :: int
  tk_priority :: int
  tk_status :: task_status
  tk_attempt :: int
  tk_lease :: string
  tk_started_at :: instant
  tk_finished_at :: "instant option"
  tk_last_heartbeat_at :: instant
  tk_cancel_requested :: bool
  tk_result :: pyval
  tk_error_type :: string
  tk_error_message :: string
  tk_mode :: string
  tk_transport :: bool

record task_result =
  tr_task_id :: string
  tr_job_id :: string
  tr_status :: task_status
  tr_attempt :: int
  tr_error_type :: string
  tr_error_message :: string
  tr_value :: pyval

text \<open>
  A result without a value needs no encoding; any other value is encoded by \<open>enc\<close>, in the mode
  of the task, which may raise.
\<close>

type_synonym encoder = "string \<Rightarrow> bool \<Rightarrow> pyval \<Rightarrow> py_error + pyval"

definition result_with :: "pool_task \<Rightarrow> pyval \<Rightarrow> task_result" where
  "result_with t v =
    \<lparr>tr_task_id = tk_id t, tr_job_id = tk_job t, tr_status = tk_status t, tr_attempt = tk_attempt t,
     tr_error_type = tk_error_type t, tr_error_message = tk_error_message t, tr_value = v\<rparr>"

definition as_result :: "encoder \<Rightarrow> pool_task \<Rightarrow> py_error + task_result" where
  "as_result enc t =
    (if tk_result t = PNone then Inr (result_with t PNone)
     else ebind (enc (tk_mode t) (tk_transport t) (tk_result t)) (\<lambda>v. Inr (result_with t v)))"

record task_pool =
  tp_id :: string
  tp_owner :: string
  tp_name :: string
  tp_code_version :: string
  tp_method :: string
  tp_worker_count :: int
  tp_requested_workers :: int
  tp_heartbeat_timeout_sec :: int
  tp_token :: string
  tp_token_instance :: string
  tp_status :: string
  tp_last_heartbeat_at :: instant
  tp_lease_expire_at :: instant
  tp_executor_ready :: bool
  tp_alive_workers :: int
  tp_degraded :: bool
  tp_readiness :: string
  tp_readiness_reason :: string
  tp_create_stage :: string
  tp_operation_id :: string
  tp_signal_cursor :: int
  tp_task_count :: int
  tp_returned_count :: int
  tp_stop_reason :: string
  tp_failure_at :: "instant option"
  tp_method_failures :: "(string, string \<times> string \<times> int) dict"
  tp_executor_generation :: int

record node_pools =
  np_instance :: string
  np_queue_capacity :: int
  np_service_inflight :: nat
  np_host :: bool
  np_codes :: "string list"
  np_pools :: "(string, task_pool) dict"
  np_tasks :: "(string, pool_task) dict"
  np_active :: "string list"
  np_reserved :: "string list"
  np_hook :: "task_result result_hook"
  np_signals :: signal_store
  np_requests :: request_table

definition new_node_pools :: "string \<Rightarrow> int \<Rightarrow> int \<Rightarrow> node_pools" where
  "new_node_pools inst capacity signals =
    \<lparr>np_instance = inst, np_queue_capacity = capacity, np_service_inflight = 0, np_host = True, np_codes = [], np_pools = [],
     np_tasks = [], np_active = [], np_reserved = [], np_hook = new_result_hook 20000, np_signals = new_signal_store signals, np_requests = []\<rparr>"

definition pool_task_is_terminal_status :: "task_status \<Rightarrow> bool" where
  "pool_task_is_terminal_status s \<longleftrightarrow> s \<in> {TaskSucceeded, TaskFailedUser, TaskFailedInfra, TaskCancelled}"

abbreviation settled :: "pool_task \<Rightarrow> bool" where
  "settled t \<equiv> pool_task_is_terminal_status (tk_status t)"

definition pool_is_running :: "task_pool \<Rightarrow> bool" where
  "pool_is_running p \<longleftrightarrow> upper (strip (tp_status p)) = ''RUNNING''"

text \<open>The sets of ids are lists without repetition.\<close>

definition add_id :: "string \<Rightarrow> string list \<Rightarrow> string list" where
  "add_id i xs = (if i \<in> set xs then xs else xs @ [i])"

definition discard_id :: "string \<Rightarrow> string list \<Rightarrow> string list" where
  "discard_id i xs = removeAll i xs"

definition upd_pool :: "string \<Rightarrow> (task_pool \<Rightarrow> task_pool) \<Rightarrow> node_pools \<Rightarrow> node_pools" where
  "upd_pool pid f np = np\<lparr>np_pools := dmap (\<lambda>k p. if k = pid then f p else p) (np_pools np)\<rparr>"

definition token_node_instance_valid :: "node_pools \<Rightarrow> string \<Rightarrow> bool" where
  "token_node_instance_valid np inst \<longleftrightarrow> strip inst = [] \<or> strip inst = strip (np_instance np)"

definition require_pool_token :: "node_pools \<Rightarrow> task_pool \<Rightarrow> string \<Rightarrow> py_error + unit" where
  "require_pool_token np p token =
    (if tp_token p \<noteq> strip token then Inl (PermissionError ''pool_token mismatch'')
     else if \<not> token_node_instance_valid np (tp_token_instance p) then Inl (PermissionError ''pool_token node_instance_id mismatch'')
     else Inr ())"

definition task_pool_of :: "string \<Rightarrow> node_pools \<Rightarrow> py_error + task_pool" where
  "task_pool_of pid np = (case dget (np_pools np) (strip pid) of None \<Rightarrow> Inl (KeyError ''task pool not found'') | Some p \<Rightarrow> Inr p)"

section \<open>Signals\<close>

definition publish_resource_signal ::
    "string \<Rightarrow> string \<Rightarrow> string \<Rightarrow> string \<Rightarrow> string \<Rightarrow> payload \<Rightarrow> string \<Rightarrow> string \<Rightarrow> string \<Rightarrow> instant \<Rightarrow> node_pools \<Rightarrow> node_pools" where
  "publish_resource_signal kind0 rid0 type state reason pl op op_typ op_stat now np =
    (let kind = strip kind0; rid = strip rid0;
         (signals, seq) = publish \<lparr>sg_seq = 0, sg_node_instance_id = np_instance np, sg_resource_kind = kind, sg_resource_id = rid,
           sg_epoch = 0, sg_signal_type = strip type, sg_state = strip state, sg_reason = strip reason, sg_payload = pl, sg_updated_at = now\<rparr>
           now (np_signals np);
         np1 = np\<lparr>np_signals := signals\<rparr>;
         np2 = (if kind = ''task_pool''
           then upd_pool rid (\<lambda>p. p\<lparr>tp_signal_cursor := seq, tp_operation_id := str_or op (tp_operation_id p)\<rparr>) np1 else np1);
         stat = str_or op_stat state
     in if op = [] then np2
        else np2\<lparr>np_signals := fst (upsert_operation \<lparr>op_id = op, op_type = op_typ, op_resource_kind = kind, op_resource_id = rid,
            op_status = stat, op_stage = get_str (\<lambda>_. []) pl ''stage'', op_last_signal_seq = seq,
            op_error = (if stat = ''failed'' then reason else []), op_created_at = now, op_updated_at = now\<rparr> (np_signals np2))\<rparr>)"

definition publish_resource_failure :: "string \<Rightarrow> string \<Rightarrow> string \<Rightarrow> payload \<Rightarrow> string \<Rightarrow> instant \<Rightarrow> node_pools \<Rightarrow> node_pools" where
  "publish_resource_failure rid reason stage pl op now np =
    (let np1 = upd_pool (strip rid) (\<lambda>p. p\<lparr>tp_readiness := ''failed'', tp_readiness_reason := strip reason,
           tp_create_stage := str_or (strip stage) (tp_create_stage p)\<rparr>) np
     in publish_resource_signal ''task_pool'' rid ''failure'' ''failed'' reason ((''stage'', PStr (strip stage)) # pl) op ''create'' ''failed'' now np1)"

definition publish_resource_progress :: "string \<Rightarrow> string \<Rightarrow> string \<Rightarrow> string \<Rightarrow> string \<Rightarrow> instant \<Rightarrow> node_pools \<Rightarrow> node_pools" where
  "publish_resource_progress rid stage state op op_stat now np =
    (let np1 = upd_pool (strip rid) (\<lambda>p. p\<lparr>tp_create_stage := strip stage, tp_operation_id := str_or op (tp_operation_id p)\<rparr>) np;
         np2 = publish_resource_signal ''task_pool'' rid ''progress'' state [] [(''stage'', PStr (strip stage))] [] [] [] now np1
     in if op = [] then np2
        else np2\<lparr>np_signals := fst (upsert_operation \<lparr>op_id = op, op_type = ''create'', op_resource_kind = ''task_pool'', op_resource_id = strip rid,
            op_status = op_stat, op_stage = strip stage, op_last_signal_seq = ss_seq (np_signals np2),
            op_error = [], op_created_at = now, op_updated_at = now\<rparr> (np_signals np2))\<rparr>)"

definition publish_resource_readiness :: "string \<Rightarrow> string \<Rightarrow> string \<Rightarrow> instant \<Rightarrow> node_pools \<Rightarrow> node_pools" where
  "publish_resource_readiness rid readiness reason now np =
    (let r = str_or (strip readiness) ''initializing'';
         np1 = upd_pool (strip rid) (\<lambda>p. p\<lparr>tp_readiness := r, tp_readiness_reason := strip reason\<rparr>) np
     in publish_resource_signal ''task_pool'' rid ''readiness'' r reason [] [] [] [] now np1)"

section \<open>Stopping a pool\<close>

definition stopped_task :: "string \<Rightarrow> instant \<Rightarrow> pool_task \<Rightarrow> pool_task" where
  "stopped_task reason now t =
    t\<lparr>tk_status := TaskFailedInfra, tk_finished_at := Some now, tk_last_heartbeat_at := now, tk_result := PNone,
      tk_error_type := ''TaskPoolStopped'', tk_error_message := reason\<rparr>"

text \<open>The tasks a stopped pool takes with it.\<close>

definition failing :: "string \<Rightarrow> node_pools \<Rightarrow> pool_task list" where
  "failing pid np = filter (\<lambda>t. strip (tk_client t) = strip pid \<and> \<not> settled t) (dvals (np_tasks np))"

definition fail_task_pool_tasks :: "string \<Rightarrow> string \<Rightarrow> instant \<Rightarrow> node_pools \<Rightarrow> node_pools" where
  "fail_task_pool_tasks pid reason now np =
    (if strip pid = [] then np
     else let ts = failing pid np; r = str_or reason ''task pool stopped''
          in upd_pool pid (\<lambda>p. p\<lparr>tp_returned_count := tp_returned_count p + int (length ts)\<rparr>)
            (np\<lparr>np_tasks := dmap (\<lambda>_ t. if strip (tk_client t) = strip pid \<and> \<not> settled t then stopped_task r now t else t) (np_tasks np),
                np_active := fold (\<lambda>t. discard_id (strip (tk_id t))) ts (np_active np),
                np_hook := fold (\<lambda>t h. fst (push_result (strip pid) (result_with (stopped_task r now t) PNone) h)) ts (np_hook np)\<rparr>))"

text \<open>
  The second component tells whether the executor has to be told; \<open>async_stop\<close> only decides who
  tells it.
\<close>

definition stop_task_pool_resource :: "string \<Rightarrow> string \<Rightarrow> instant \<Rightarrow> node_pools \<Rightarrow> node_pools \<times> bool" where
  "stop_task_pool_resource pid reason0 now np =
    (let reason = str_or (strip (str_or reason0 ''owner requested'')) ''owner requested'';
         tell = (np_host np \<and> (case dget (np_pools np) pid of None \<Rightarrow> False | Some p \<Rightarrow> tp_executor_ready p));
         np1 = upd_pool pid (\<lambda>p. p\<lparr>tp_executor_ready := False, tp_alive_workers := 0, tp_degraded := False, tp_readiness := ''stopped'',
           tp_readiness_reason := reason, tp_status := ''STOPPED'', tp_stop_reason := reason, tp_failure_at := Some now, tp_lease_expire_at := now\<rparr>) np;
         np2 = fail_task_pool_tasks pid reason now np1;
         np3 = np2\<lparr>np_requests := drop_create_requests pid (np_requests np2)\<rparr>
     in (publish_resource_signal ''task_pool'' pid (if reason \<noteq> ''owner heartbeat timeout'' then ''stop'' else ''failure'')
           ''stopped'' reason [] [] [] [] now np3, tell))"

definition dependency_failure_reason :: "(string \<Rightarrow> string) \<Rightarrow> string \<Rightarrow> string \<Rightarrow> string" where
  "dependency_failure_reason missing err method =
    (let text = strip err; m = missing text;
         parts = (if strip method = [] then [] else [''method='' @ strip method]) @
           (if m = [] then [] else [''missing_module='' @ m]) @ (if text = [] then [] else [text])
     in if parts = [] then ''dependency runtime error''
        else ''dependency runtime error: '' @ concat (tl (concat (map (\<lambda>p. ['' '', p]) parts))))"

text \<open>A failed import in a worker stops the whole pool, once for each reason.\<close>

definition mark_task_pool_dependency_failure :: "(string \<Rightarrow> string) \<Rightarrow> string \<Rightarrow> string \<Rightarrow> instant \<Rightarrow> node_pools \<Rightarrow> node_pools" where
  "mark_task_pool_dependency_failure missing pid err now np =
    (case dget (np_pools np) pid of
       None \<Rightarrow> np
     | Some p \<Rightarrow>
       let m = str_or (strip (tp_method p)) ''run'';
           reason = dependency_failure_reason missing err m
       in if upper (tp_status p) = ''STOPPED'' \<and> strip (tp_stop_reason p) = reason then np
          else
            let count = (case dget (tp_method_failures p) m of None \<Rightarrow> 0 | Some (_, _, n) \<Rightarrow> n) + 1;
                np1 = upd_pool pid (\<lambda>p. p\<lparr>tp_method_failures := dset m (reason, err, count) (tp_method_failures p), tp_executor_ready := False,
                  tp_alive_workers := 0, tp_degraded := False, tp_status := ''STOPPED'', tp_readiness := ''failed'', tp_readiness_reason := reason,
                  tp_stop_reason := reason, tp_failure_at := Some now, tp_lease_expire_at := now\<rparr>) np;
                np2 = fail_task_pool_tasks pid reason now np1;
                np3 = np2\<lparr>np_requests := drop_create_requests pid (np_requests np2)\<rparr>
            in publish_resource_failure pid reason ''runtime_dependency_failure''
                 [(''error_category'', PStr ''dependency''), (''method'', PStr m), (''missing_module'', PStr (missing (strip err)))] [] now np3)"

section \<open>Submitting\<close>

record submit_item =
  si_task_id :: string
  si_timeout_hint_sec :: int
  si_priority :: int

datatype rejection = DuplicateTask string | QueueFull string | Refused string string

definition node_queue_occupancy :: "node_pools \<Rightarrow> int" where
  "node_queue_occupancy np = int (np_service_inflight np) + int (length (np_active np)) + int (length (np_reserved np))"

fun reserve_items :: "submit_item list \<Rightarrow> int \<Rightarrow> node_pools \<Rightarrow> node_pools \<times> submit_item list \<times> rejection list" where
  "reserve_items [] occupancy np = (np, [], [])"
| "reserve_items (item # items) occupancy np =
    (let i = strip (si_task_id item)
     in if dget (np_tasks np) i \<noteq> None \<or> i \<in> set (np_reserved np)
        then (case reserve_items items occupancy np of (np', rs, js) \<Rightarrow> (np', rs, DuplicateTask i # js))
        else if np_queue_capacity np \<le> occupancy
        then (case reserve_items items occupancy np of (np', rs, js) \<Rightarrow> (np', rs, QueueFull i # js))
        else (case reserve_items items (occupancy + 1) (np\<lparr>np_reserved := add_id i (np_reserved np)\<rparr>) of
                (np', rs, js) \<Rightarrow> (np', item # rs, js)))"

definition submit_reserve :: "string \<Rightarrow> string \<Rightarrow> submit_item list \<Rightarrow> node_pools \<Rightarrow> py_error + (node_pools \<times> submit_item list \<times> rejection list)" where
  "submit_reserve pid token items np =
    ebind (task_pool_of pid np) (\<lambda>p.
    ebind (require_pool_token np p token) (\<lambda>_.
      let readiness = lower (strip (tp_readiness p))
      in if tp_status p \<noteq> ''RUNNING'' then Inl (RuntimeError ''task pool not running'')
         else if readiness \<noteq> [] \<and> readiness \<noteq> ''ready'' then Inl (RuntimeError (''task pool '' @ readiness))
         else if tp_code_version p \<notin> set (np_codes np) then Inl (RuntimeError ''code artifact missing'')
         else if \<not> np_host np then Inl (RuntimeError ''executor host unavailable'')
         else Inr (reserve_items items (node_queue_occupancy np) np)))"

definition new_task :: "task_pool \<Rightarrow> string \<Rightarrow> submit_item \<Rightarrow> pyval \<times> string \<times> bool \<Rightarrow> string \<Rightarrow> instant \<Rightarrow> pool_task" where
  "new_task p job item decoded lease now =
    (case decoded of (pl, mode, transport) \<Rightarrow>
      \<lparr>tk_id = strip (si_task_id item), tk_client = tp_id p, tk_job = strip job, tk_code_version = tp_code_version p, tk_payload = pl,
       tk_timeout_hint_sec = max 0 (si_timeout_hint_sec item), tk_priority = max 1 (num_or (si_priority item) 1), tk_status = TaskRunning,
       tk_attempt = 1, tk_lease = lease, tk_started_at = now, tk_finished_at = None, tk_last_heartbeat_at = now, tk_cancel_requested = False,
       tk_result = PNone, tk_error_type = [], tk_error_message = [], tk_mode = mode, tk_transport = transport\<rparr>)"

text \<open>The payload of a reserved item is decoded outside the lock; then its task is recorded.\<close>

definition submit_record ::
    "string \<Rightarrow> string \<Rightarrow> submit_item \<Rightarrow> py_error + (pyval \<times> string \<times> bool) \<Rightarrow> string \<Rightarrow> instant \<Rightarrow> node_pools \<Rightarrow> node_pools \<times> (rejection + pool_task)" where
  "submit_record pid job item decoded lease now np =
    (let i = strip (si_task_id item); np1 = np\<lparr>np_reserved := discard_id i (np_reserved np)\<rparr>
     in case decoded of
          Inl e \<Rightarrow> (np1, Inl (Refused i ''prepare task failed''))
        | Inr d \<Rightarrow> (case dget (np_pools np) (strip pid) of
            None \<Rightarrow> (np1, Inl (Refused i ''task pool not found''))
          | Some p \<Rightarrow>
              if tp_status p \<noteq> ''RUNNING'' then (np1, Inl (Refused i ''task pool not running''))
              else let t = new_task p job item d lease now
                   in (np1\<lparr>np_tasks := dset i t (np_tasks np), np_active := add_id i (np_active np)\<rparr>, Inr t)))"

text \<open>The task is handed to the executor outside the lock. When that fails it is forgotten again, if it is still the one recorded.\<close>

definition submit_undo :: "pool_task \<Rightarrow> node_pools \<Rightarrow> node_pools" where
  "submit_undo t np =
    (case dget (np_tasks np) (tk_id t) of
       None \<Rightarrow> np
     | Some u \<Rightarrow> if tk_lease u = tk_lease t
         then np\<lparr>np_tasks := dpop (tk_id t) (np_tasks np), np_active := discard_id (tk_id t) (np_active np)\<rparr> else np)"

definition submit_count :: "string \<Rightarrow> node_pools \<Rightarrow> node_pools" where
  "submit_count pid np = upd_pool (strip pid) (\<lambda>p. p\<lparr>tp_task_count := tp_task_count p + 1\<rparr>) np"

text \<open>What the outside makes of an item: the decoded payload, the lease id, the time, and whether the executor takes it.\<close>

type_synonym item_fate = "(py_error + pyval \<times> string \<times> bool) \<times> string \<times> instant \<times> bool"

fun submit_items :: "string \<Rightarrow> string \<Rightarrow> (submit_item \<times> item_fate) list \<Rightarrow> node_pools \<Rightarrow> node_pools \<times> string list \<times> rejection list" where
  "submit_items pid job [] np = (np, [], [])"
| "submit_items pid job ((item, decoded, lease, now, taken) # rest) np =
    (case submit_record pid job item decoded lease now np of
       (np1, Inl j) \<Rightarrow> (case submit_items pid job rest np1 of (np', as, js) \<Rightarrow> (np', as, j # js))
     | (np1, Inr t) \<Rightarrow>
         if taken then (case submit_items pid job rest (submit_count pid np1) of (np', as, js) \<Rightarrow> (np', tk_id t # as, js))
         else (case submit_items pid job rest (submit_undo t np1) of
                 (np', as, js) \<Rightarrow> (np', as, Refused (tk_id t) ''submit task to executor failed'' # js)))"

text \<open>A submission no other caller interferes with.\<close>

definition submit_pool_tasks ::
    "string \<Rightarrow> string \<Rightarrow> string \<Rightarrow> submit_item list \<Rightarrow> (submit_item \<Rightarrow> item_fate) \<Rightarrow> node_pools \<Rightarrow> py_error + (node_pools \<times> string list \<times> rejection list)" where
  "submit_pool_tasks pid token job items fate np =
    ebind (submit_reserve pid token items np) (\<lambda>(np1, reserved, js).
      case submit_items pid job (map (\<lambda>item. (item, fate item)) reserved) np1 of
        (np2, as, js') \<Rightarrow> Inr (np2, as, js @ js'))"

section \<open>The owner's other calls\<close>

definition pull_take :: "string \<Rightarrow> string \<Rightarrow> int \<Rightarrow> string \<Rightarrow> node_pools \<Rightarrow> py_error + (node_pools \<times> task_result list \<times> string)" where
  "pull_take pid token limit cursor np =
    ebind (task_pool_of pid np) (\<lambda>p.
    ebind (require_pool_token np p token) (\<lambda>_.
      case pull_results (tp_id p) (max 1 (num_or limit 100)) cursor (np_hook np) of
        (h, rs, next) \<Rightarrow> Inr (np\<lparr>np_hook := h\<rparr>, rs, next)))"

definition pull_forget_one :: "task_result \<Rightarrow> node_pools \<Rightarrow> node_pools" where
  "pull_forget_one r np =
    (let i = strip (tr_task_id r)
     in if i = [] then np
        else case dget (np_tasks np) i of
          None \<Rightarrow> np
        | Some t \<Rightarrow> if settled t then np\<lparr>np_tasks := dpop i (np_tasks np), np_active := discard_id i (np_active np)\<rparr> else np)"

definition pull_forget :: "task_result list \<Rightarrow> node_pools \<Rightarrow> node_pools" where
  "pull_forget rs np = fold pull_forget_one rs np"

definition pull_pool_results :: "string \<Rightarrow> string \<Rightarrow> int \<Rightarrow> string \<Rightarrow> node_pools \<Rightarrow> py_error + (node_pools \<times> task_result list \<times> string)" where
  "pull_pool_results pid token limit cursor np =
    ebind (pull_take pid token limit cursor np) (\<lambda>(np1, rs, next). Inr (pull_forget rs np1, rs, next))"

definition close_task_pool :: "string \<Rightarrow> string \<Rightarrow> string \<Rightarrow> string \<Rightarrow> instant \<Rightarrow> node_pools \<Rightarrow> py_error + (node_pools \<times> bool)" where
  "close_task_pool owner pid token reason now np =
    ebind (task_pool_of pid np) (\<lambda>p.
      if tp_owner p \<noteq> strip owner then Inl (PermissionError ''owner_client_id mismatch'')
      else ebind (require_pool_token np p token) (\<lambda>_.
        let previous = strip (tp_stop_reason p);
            r = str_or (strip (str_or reason ''owner requested'')) ''owner requested''
        in Inr (stop_task_pool_resource (strip pid) (if \<not> pool_is_running p \<and> previous \<noteq> [] then previous else r) now np)))"

text \<open>The counts are those of cancelled queued tasks, marked running ones, finished ones, and 1 when no task was found.\<close>

definition cancel_one :: "string \<Rightarrow> string \<Rightarrow> string \<Rightarrow> instant \<Rightarrow> pool_task \<Rightarrow> pool_task" where
  "cancel_one pid job reason now t =
    (if \<not> (tk_client t = pid \<and> tk_job t = job) \<or> settled t then t
     else if tk_status t = TaskQueued
     then t\<lparr>tk_cancel_requested := True, tk_status := TaskCancelled, tk_finished_at := Some now, tk_error_type := ''Cancelled'',
            tk_error_message := str_or reason (''cancelled by pool job_id='' @ job)\<rparr>
     else t\<lparr>tk_cancel_requested := True\<rparr>)"

definition cancel_pool_job :: "string \<Rightarrow> string \<Rightarrow> string \<Rightarrow> string \<Rightarrow> instant \<Rightarrow> node_pools \<Rightarrow> py_error + (node_pools \<times> nat \<times> nat \<times> nat \<times> nat)" where
  "cancel_pool_job pid0 token job0 reason now np =
    (let pid = strip pid0; job = strip job0
     in if job = [] then Inl (ValueError ''job_id is required'')
        else ebind (task_pool_of pid np) (\<lambda>p.
          ebind (require_pool_token np p token) (\<lambda>_.
            let matched = filter (\<lambda>t. tk_client t = pid \<and> tk_job t = job) (dvals (np_tasks np));
                live = filter (\<lambda>t. \<not> settled t) matched;
                queued = filter (\<lambda>t. tk_status t = TaskQueued) live;
                running = filter (\<lambda>t. tk_status t = TaskRunning) live
            in Inr (upd_pool pid (\<lambda>p. p\<lparr>tp_returned_count := tp_returned_count p + int (length queued)\<rparr>)
                (np\<lparr>np_tasks := dmap (\<lambda>_. cancel_one pid job reason now) (np_tasks np),
                    np_active := fold (\<lambda>t. discard_id (strip (tk_id t))) queued (np_active np),
                    np_hook := fold (\<lambda>t h. fst (push_result pid (result_with (cancel_one pid job reason now t) PNone) h)) queued (np_hook np)\<rparr>),
              length queued, length running, length matched - length live, if matched = [] then 1 else 0))))"

definition heartbeat_task_pool :: "string \<Rightarrow> string \<Rightarrow> string \<Rightarrow> instant \<Rightarrow> node_pools \<Rightarrow> py_error + node_pools" where
  "heartbeat_task_pool owner pid token now np =
    ebind (task_pool_of pid np) (\<lambda>p.
      if tp_owner p \<noteq> strip owner then Inl (PermissionError ''owner_client_id mismatch'')
      else ebind (require_pool_token np p token) (\<lambda>_.
        if tp_status p \<noteq> ''RUNNING'' then Inl (RuntimeError ''task pool not running'')
        else Inr (upd_pool (strip pid) (\<lambda>p. p\<lparr>tp_last_heartbeat_at := now, tp_lease_expire_at := now + of_int (tp_heartbeat_timeout_sec p),
          tp_stop_reason := [], tp_failure_at := None, tp_degraded := (if 0 < tp_alive_workers p then False else tp_degraded p)\<rparr>) np)))"

section \<open>Events of the executor\<close>

record task_done =
  td_pool_id :: string
  td_task_id :: string
  td_attempt :: int
  td_status_text :: string
  td_result :: "pyval option"
  td_error_type :: string
  td_error_message :: string

definition normalize_invoke_error :: "string \<Rightarrow> string \<Rightarrow> string \<Rightarrow> bool \<times> string \<times> string" where
  "normalize_invoke_error status err_type err_message =
    (let s = upper (strip status)
     in if s = ''FAILED_USER'' then (False, str_or err_type ''UserError'', str_or err_message ''user function failed'')
        else if s = ''FAILED_DEPENDENCY'' then (False, str_or err_type ''DependencyError'', str_or err_message ''infra failure'')
        else if s = ''FAILED_INFRA'' then (False, str_or err_type ''InfraError'', str_or err_message ''infra failure'')
        else (True, [], []))"

definition finished_task :: "task_done \<Rightarrow> instant \<Rightarrow> pool_task \<Rightarrow> pool_task" where
  "finished_task d now t =
    (let status = str_or (td_status_text d) ''FAILED_INFRA'';
         err = snd (normalize_invoke_error status (td_error_type d) (td_error_message d));
         u = t\<lparr>tk_finished_at := Some now, tk_last_heartbeat_at := now\<rparr>
     in if status = ''FAILED_USER''
        then u\<lparr>tk_status := TaskFailedUser, tk_result := PNone, tk_error_type := fst err, tk_error_message := snd err\<rparr>
        else if status \<in> {''FAILED_INFRA'', ''FAILED_DEPENDENCY''}
        then u\<lparr>tk_status := TaskFailedInfra, tk_result := PNone, tk_error_type := fst err, tk_error_message := snd err\<rparr>
        else u\<lparr>tk_status := TaskSucceeded, tk_result := (case td_result d of None \<Rightarrow> PDict [] | Some v \<Rightarrow> v),
               tk_error_type := [], tk_error_message := []\<rparr>)"

text \<open>The first section settles the task and hands on a copy, which is encoded and pushed without the lock.\<close>

definition done_settle :: "(string \<Rightarrow> string) \<Rightarrow> task_done \<Rightarrow> instant \<Rightarrow> node_pools \<Rightarrow> node_pools \<times> pool_task option" where
  "done_settle missing d now np =
    (case dget (np_tasks np) (td_task_id d) of
       None \<Rightarrow> (np, None)
     | Some t \<Rightarrow>
         if tk_attempt t \<noteq> td_attempt d \<or> settled t then (np, None)
         else if dget (np_pools np) (td_pool_id d) = None \<or> strip (tk_client t) \<noteq> td_pool_id d then (np, None)
         else
           let u = finished_task d now t;
               status = str_or (td_status_text d) ''FAILED_INFRA'';
               err = snd (snd (normalize_invoke_error status (td_error_type d) (td_error_message d)));
               np1 = upd_pool (td_pool_id d) (\<lambda>p. p\<lparr>tp_returned_count := tp_returned_count p + 1\<rparr>)
                 (np\<lparr>np_tasks := dset (td_task_id d) u (np_tasks np), np_active := discard_id (td_task_id d) (np_active np)\<rparr>)
           in (if status = ''FAILED_DEPENDENCY'' then mark_task_pool_dependency_failure missing (td_pool_id d) err now np1 else np1, Some u))"

text \<open>A result that cannot be encoded is an infrastructure failure of its own.\<close>

definition encoded_result :: "encoder \<Rightarrow> pool_task \<Rightarrow> pool_task \<times> task_result" where
  "encoded_result enc u =
    (case as_result enc u of
       Inr r \<Rightarrow> (u, r)
     | Inl e \<Rightarrow>
         let u' = u\<lparr>tk_result := PNone, tk_status := TaskFailedInfra, tk_error_type := ''SerializationError'', tk_error_message := ''serialization failed''\<rparr>
         in (u', result_with u' PNone))"

definition done_push :: "encoder \<Rightarrow> string \<Rightarrow> pool_task \<Rightarrow> node_pools \<Rightarrow> node_pools" where
  "done_push enc pid u np =
    (case dget (np_tasks np) (tk_id u) of
       None \<Rightarrow> np
     | Some t \<Rightarrow>
         if tk_lease t = tk_lease u \<and> tk_attempt t = tk_attempt u
         then (case encoded_result enc u of (u', r) \<Rightarrow>
           np\<lparr>np_tasks := dset (tk_id u) (t\<lparr>tk_status := tk_status u', tk_error_type := tk_error_type u', tk_error_message := tk_error_message u'\<rparr>) (np_tasks np),
              np_hook := fst (push_result pid r (np_hook np))\<rparr>)
         else np)"

definition worker_pids :: "string \<Rightarrow> int list \<Rightarrow> node_pools \<Rightarrow> node_pools" where
  "worker_pids pid pids np = upd_pool pid (\<lambda>p. p\<lparr>tp_alive_workers := int (length (filter ((<) 0) pids))\<rparr>) np"

definition pool_executor_rebuilt :: "string \<Rightarrow> node_pools \<Rightarrow> node_pools" where
  "pool_executor_rebuilt pid np = upd_pool pid (\<lambda>p. p\<lparr>tp_executor_generation := max 1 (tp_executor_generation p) + 1\<rparr>) np"

section \<open>Health\<close>

definition create_in_progress :: "task_pool \<Rightarrow> bool" where
  "create_in_progress p \<longleftrightarrow> lower (strip (tp_create_stage p)) \<in> {''accepted'', ''artifact_prepare'', ''executor_create'', ''globals_warmup''}"

definition refresh_lease :: "instant \<Rightarrow> task_pool \<Rightarrow> task_pool" where
  "refresh_lease now p = p\<lparr>tp_last_heartbeat_at := now, tp_lease_expire_at := now + of_int (max 1 (tp_heartbeat_timeout_sec p))\<rparr>"

definition apply_liveness :: "(string \<times> int) list \<Rightarrow> node_pools \<Rightarrow> node_pools" where
  "apply_liveness liveness np =
    np\<lparr>np_pools := dmap (\<lambda>pid p.
      if \<not> pool_is_running p then p
      else case dget liveness pid of
          Some n \<Rightarrow> p\<lparr>tp_alive_workers := max 0 n\<rparr>
        | None \<Rightarrow> if tp_executor_ready p \<and> 0 < tp_worker_count p then p\<lparr>tp_alive_workers := 0\<rparr> else p) (np_pools np)\<rparr>"

definition pool_health :: "instant \<Rightarrow> string \<Rightarrow> node_pools \<Rightarrow> node_pools" where
  "pool_health now pid np =
    (case dget (np_pools np) pid of
       None \<Rightarrow> np
     | Some p \<Rightarrow>
         if create_in_progress p then (if tp_lease_expire_at p < now then upd_pool pid (refresh_lease now) np else np)
         else if \<not> pool_is_running p then np
         else if tp_lease_expire_at p < now then fst (stop_task_pool_resource pid ''owner heartbeat timeout'' now np)
         else if 0 < tp_alive_workers p then upd_pool pid (\<lambda>p. p\<lparr>tp_degraded := False\<rparr>) np
         else np)"

definition handle_timeouts :: "(string \<times> int) list option \<Rightarrow> instant \<Rightarrow> node_pools \<Rightarrow> node_pools" where
  "handle_timeouts liveness now np =
    (let np1 = (case liveness of None \<Rightarrow> np | Some l \<Rightarrow> apply_liveness l np)
     in fold (pool_health now) (dkeys (np_pools np1)) np1)"

text \<open>After a crash of the executor host each pool is created again on the new host, or given up.\<close>

definition restore_pool :: "instant \<Rightarrow> string \<times> string option \<Rightarrow> node_pools \<Rightarrow> node_pools" where
  "restore_pool now target np =
    (case target of (pid, None) \<Rightarrow> upd_pool pid (\<lambda>p. p\<lparr>tp_alive_workers := tp_worker_count p\<rparr>) np
     | (pid, Some err) \<Rightarrow> upd_pool pid (\<lambda>p. p\<lparr>tp_executor_ready := False, tp_alive_workers := 0, tp_status := ''STOPPED'',
         tp_stop_reason := ''executor host restart failed: '' @ err, tp_failure_at := Some now, tp_lease_expire_at := now\<rparr>) np)"

definition restore_targets :: "node_pools \<Rightarrow> string list" where
  "restore_targets np = map fst (filter (\<lambda>(_, p). pool_is_running p \<and> tp_executor_ready p) (np_pools np))"

definition restore_executor :: "(string \<Rightarrow> string option) \<Rightarrow> instant \<Rightarrow> node_pools \<Rightarrow> node_pools" where
  "restore_executor outcome now np = fold (\<lambda>pid. restore_pool now (pid, outcome pid)) (restore_targets np) (np\<lparr>np_host := True\<rparr>)"

text \<open>The oldest stopped pools are forgotten with everything of theirs.\<close>

definition forget_pool :: "string \<Rightarrow> node_pools \<Rightarrow> node_pools" where
  "forget_pool pid np =
    (let stale = map fst (filter (\<lambda>(_, t). strip (tk_client t) = strip pid) (np_tasks np))
     in np\<lparr>np_pools := dpop pid (np_pools np), np_hook := clear_client pid (np_hook np), np_tasks := dpops stale (np_tasks np),
           np_active := fold discard_id stale (np_active np)\<rparr>)"

definition prune_inactive_pools :: "nat \<Rightarrow> node_pools \<Rightarrow> node_pools" where
  "prune_inactive_pools limit np =
    (let stopped = map fst (filter (\<lambda>(_, p). \<not> pool_is_running p) (np_pools np))
     in fold forget_pool (take (length stopped - limit) stopped) np)"

section \<open>Creating a pool\<close>

record pool_args =
  pa_owner :: string
  pa_name :: string
  pa_sha256 :: string
  pa_entry_callable :: string
  pa_workers :: int
  pa_heartbeat_timeout_sec :: int
  pa_token :: string
  pa_request_id :: string
  pa_has_globals :: bool

text \<open>The pool as the asynchronous call records it before anything has been prepared.\<close>

definition accepted_pool :: "pool_args \<Rightarrow> string \<Rightarrow> instant \<Rightarrow> string \<Rightarrow> task_pool" where
  "accepted_pool a pid now inst =
    (let timeout = max 5 (num_or (pa_heartbeat_timeout_sec a) 30)
     in \<lparr>tp_id = pid, tp_owner = pa_owner a, tp_name = str_or (pa_name a) (''task-pool-'' @ take 8 pid), tp_code_version = pa_sha256 a,
         tp_method = str_or (strip (str_or (pa_entry_callable a) ''run'')) ''run'', tp_worker_count = pa_workers a, tp_requested_workers = pa_workers a,
         tp_heartbeat_timeout_sec = timeout, tp_token = pa_token a, tp_token_instance = inst, tp_status = ''RUNNING'', tp_last_heartbeat_at = now,
         tp_lease_expire_at = now + of_int timeout, tp_executor_ready = False, tp_alive_workers = 0, tp_degraded = False,
         tp_readiness = ''initializing'', tp_readiness_reason = ''create accepted'', tp_create_stage = ''accepted'', tp_operation_id = [],
         tp_signal_cursor = 0, tp_task_count = 0, tp_returned_count = 0, tp_stop_reason = [], tp_failure_at = None, tp_method_failures = [],
         tp_executor_generation = 1\<rparr>)"

definition create_accept :: "pool_args \<Rightarrow> string \<Rightarrow> instant \<Rightarrow> node_pools \<Rightarrow> node_pools" where
  "create_accept a pid now np =
    publish_resource_readiness pid ''initializing'' ''create accepted'' now
      (publish_resource_progress pid ''accepted'' ''accepted'' (pa_request_id a) ''accepted'' now
        (np\<lparr>np_pools := dset pid (accepted_pool a pid now (np_instance np)) (np_pools np)\<rparr>))"

definition create_cancelled :: "string \<Rightarrow> node_pools \<Rightarrow> bool" where
  "create_cancelled pid np \<longleftrightarrow> (case dget (np_pools np) pid of None \<Rightarrow> True | Some p \<Rightarrow> upper (tp_status p) = ''STOPPED'')"

definition create_prepare :: "pool_args \<Rightarrow> string \<Rightarrow> instant \<Rightarrow> node_pools \<Rightarrow> py_error + node_pools" where
  "create_prepare a pid now np =
    (if create_cancelled pid np then Inl (RuntimeError ''task pool create cancelled'')
     else Inr (publish_resource_progress pid ''artifact_prepare'' ''running'' (pa_request_id a) ''running'' now np))"

definition create_prepared :: "pool_args \<Rightarrow> string \<Rightarrow> string \<Rightarrow> instant \<Rightarrow> node_pools \<Rightarrow> py_error + node_pools" where
  "create_prepared a pid code now np =
    (if create_cancelled pid np then Inl (RuntimeError ''task pool create cancelled'')
     else Inr (publish_resource_progress pid ''executor_create'' ''running'' (pa_request_id a) ''running'' now
       (upd_pool pid (\<lambda>p. p\<lparr>tp_code_version := code, tp_create_stage := ''executor_create''\<rparr>) np)))"

definition create_executor :: "pool_args \<Rightarrow> string \<Rightarrow> string \<Rightarrow> int \<Rightarrow> node_pools \<Rightarrow> py_error + node_pools" where
  "create_executor a pid code workers np =
    (if create_cancelled pid np then Inl (RuntimeError ''task pool create cancelled'')
     else Inr (upd_pool pid (\<lambda>p. p\<lparr>tp_worker_count := workers, tp_executor_ready := True, tp_alive_workers := workers, tp_status := ''RUNNING'',
       tp_code_version := code, tp_method := str_or (strip (str_or (pa_entry_callable a) ''run'')) ''run'',
       tp_create_stage := (if pa_has_globals a then ''globals_warmup'' else ''ready''), tp_stop_reason := [], tp_failure_at := None\<rparr>) np))"

definition mark_resource_ready :: "int \<Rightarrow> instant \<Rightarrow> task_pool \<Rightarrow> task_pool" where
  "mark_resource_ready workers now p =
    refresh_lease now (p\<lparr>tp_executor_ready := True, tp_alive_workers := max 0 workers, tp_readiness := ''ready'', tp_readiness_reason := [],
      tp_create_stage := ''ready'', tp_stop_reason := [], tp_failure_at := None\<rparr>)"

text \<open>The last section looks only whether the pool is still there.\<close>

definition create_ready :: "pool_args \<Rightarrow> string \<Rightarrow> int \<Rightarrow> instant \<Rightarrow> node_pools \<Rightarrow> py_error + node_pools" where
  "create_ready a pid workers now np =
    (case dget (np_pools np) pid of
       None \<Rightarrow> Inl (RuntimeError ''task pool create cancelled'')
     | Some _ \<Rightarrow> Inr (publish_resource_readiness pid ''ready'' [] now
         (publish_resource_progress pid ''create_succeeded'' ''succeeded'' (pa_request_id a) ''succeeded'' now
           (upd_pool pid (\<lambda>p. mark_resource_ready workers now (p\<lparr>tp_status := ''RUNNING''\<rparr>)) np))))"

definition create_failed :: "pool_args \<Rightarrow> string \<Rightarrow> string \<Rightarrow> instant \<Rightarrow> node_pools \<Rightarrow> node_pools" where
  "create_failed a pid err now np =
    (let reason = strip err;
         np1 = upd_pool pid (\<lambda>p. p\<lparr>tp_status := ''STOPPED'', tp_executor_ready := False, tp_alive_workers := 0, tp_readiness := ''failed'',
           tp_readiness_reason := reason, tp_stop_reason := reason, tp_failure_at := Some now, tp_create_stage := ''create_failed''\<rparr>) np;
         np2 = (if dget (np_pools np) pid = None then np1 else fail_task_pool_tasks pid err now np1)
     in publish_resource_failure pid err ''create_failed'' [] (pa_request_id a) now np2)"

text \<open>The synchronous call records the pool only when all of that has been done, or failed.\<close>

definition ready_pool :: "pool_args \<Rightarrow> string \<Rightarrow> string \<Rightarrow> int \<Rightarrow> instant \<Rightarrow> instant \<Rightarrow> string \<Rightarrow> task_pool" where
  "ready_pool a pid code workers now ready_at inst =
    refresh_lease ready_at ((accepted_pool a pid now inst)\<lparr>tp_code_version := code, tp_worker_count := workers, tp_executor_ready := True,
      tp_alive_workers := workers, tp_readiness := ''ready'', tp_readiness_reason := [], tp_create_stage := ''ready''\<rparr>)"

definition create_installed :: "pool_args \<Rightarrow> string \<Rightarrow> string \<Rightarrow> int \<Rightarrow> instant \<Rightarrow> instant \<Rightarrow> node_pools \<Rightarrow> node_pools" where
  "create_installed a pid code workers now ready_at np =
    publish_resource_readiness pid ''ready'' [] ready_at
      (publish_resource_progress pid ''create_succeeded'' ''succeeded'' (pa_request_id a) ''succeeded'' ready_at
        (np\<lparr>np_pools := dset pid (ready_pool a pid code workers now ready_at (np_instance np)) (np_pools np)\<rparr>))"

definition remember_failed_task_pool_create :: "pool_args \<Rightarrow> string \<Rightarrow> string \<Rightarrow> int \<Rightarrow> string \<Rightarrow> instant \<Rightarrow> node_pools \<Rightarrow> node_pools" where
  "remember_failed_task_pool_create a pid code workers err now np =
    np\<lparr>np_pools := dset pid ((accepted_pool a pid now (np_instance np))\<lparr>tp_code_version := code, tp_worker_count := max 1 workers,
      tp_requested_workers := 0, tp_status := ''STOPPED'', tp_lease_expire_at := now, tp_readiness := ''ready'', tp_readiness_reason := [],
      tp_create_stage := [], tp_stop_reason := str_or err ''create task pool failed'', tp_failure_at := Some now\<rparr>) (np_pools np)\<rparr>"

end
