(* ===== verification/PoolTasks.thy ===== *)
theory PoolTasks
  imports NodePools
begin

text \<open>
  Histories of the task pools of a node, and what every state they reach has: which tasks count
  against the capacity of the node, and that a task is answered at most once. The state of a
  history adds three things to the node's own: the copies of finished tasks whose result is being
  encoded outside the lock, the leases given out so far, and the leases whose result was pushed.
\<close>

section \<open>Histories\<close>

record pool_sys =
  sy_np :: node_pools
  sy_pending :: "(string \<times> pool_task) list"
  sy_leases :: "string list"
  sy_answered :: "string list"

datatype pool_event =
    ECode string
  | EServices nat
  | ECreate pool_args string instant
  | EPrepare pool_args string instant
  | EPrepared pool_args string string instant
  | EExecutor pool_args string string int
  | EReady pool_args string int instant
  | ECreateFailed pool_args string string instant
  | EInstall pool_args string string int instant instant
  | ERemember pool_args string string int string instant
  | EReserve string string "submit_item list"
  | ERecord string string submit_item "py_error + (pyval \<times> string \<times> bool)" string instant
  | EUndo pool_task
  | ECount string
  | ETake string string int string
  | EForget "task_result list"
  | EClose string string string string instant
  | ECancel string string string string instant
  | EHeartbeat string string string instant
  | EDone task_done instant
  | EPush nat
  | EWorkers string "int list"
  | ERebuilt string
  | ETimeouts "(string \<times> int) list option" instant
  | ERestore "string \<Rightarrow> string option" instant
  | EPrune nat

definition or_same :: "node_pools \<Rightarrow> py_error + node_pools \<Rightarrow> node_pools" where
  "or_same np r = (case r of Inl _ \<Rightarrow> np | Inr np' \<Rightarrow> np')"

definition or_same_fst :: "node_pools \<Rightarrow> py_error + (node_pools \<times> 'a) \<Rightarrow> node_pools" where
  "or_same_fst np r = (case r of Inl _ \<Rightarrow> np | Inr x \<Rightarrow> fst x)"

text \<open>
  The ids of pools and leases come from \<open>uuid4\<close>: a new one is none of those in use. An item is
  recorded by the caller that has reserved its id.
\<close>

definition fresh_pool :: "string \<Rightarrow> node_pools \<Rightarrow> bool" where
  "fresh_pool pid np \<longleftrightarrow> pid \<noteq> [] \<and> strip pid = pid \<and> dget (np_pools np) pid = None"

text \<open>The sections that take a state to a state alone.\<close>

fun np_step :: "encoder \<Rightarrow> (string \<Rightarrow> string) \<Rightarrow> pool_event \<Rightarrow> node_pools \<Rightarrow> node_pools" where
  "np_step enc missing (ECode code) np = np\<lparr>np_codes := add_id code (np_codes np)\<rparr>"
| "np_step enc missing (EServices n) np = np\<lparr>np_service_inflight := n\<rparr>"
| "np_step enc missing (ECreate a pid now) np = (if fresh_pool pid np then create_accept a pid now np else np)"
| "np_step enc missing (EPrepare a pid now) np = or_same np (create_prepare a pid now np)"
| "np_step enc missing (EPrepared a pid code now) np = or_same np (create_prepared a pid code now np)"
| "np_step enc missing (EExecutor a pid code workers) np = or_same np (create_executor a pid code workers np)"
| "np_step enc missing (EReady a pid workers now) np = or_same np (create_ready a pid workers now np)"
| "np_step enc missing (ECreateFailed a pid err now) np = create_failed a pid err now np"
| "np_step enc missing (EInstall a pid code workers now ready) np =
    (if fresh_pool pid np then create_installed a pid code workers now ready np else np)"
| "np_step enc missing (ERemember a pid code workers err now) np =
    (if fresh_pool pid np then remember_failed_task_pool_create a pid code workers err now np else np)"
| "np_step enc missing (EReserve pid token items) np = or_same_fst np (submit_reserve pid token items np)"
| "np_step enc missing (EUndo t) np = submit_undo t np"
| "np_step enc missing (ECount pid) np = submit_count pid np"
| "np_step enc missing (ETake pid token limit cursor) np = or_same_fst np (pull_take pid token limit cursor np)"
| "np_step enc missing (EForget rs) np = pull_forget rs np"
| "np_step enc missing (EClose owner pid token reason now) np = or_same_fst np (close_task_pool owner pid token reason now np)"
| "np_step enc missing (ECancel pid token job reason now) np = or_same_fst np (cancel_pool_job pid token job reason now np)"
| "np_step enc missing (EHeartbeat owner pid token now) np = or_same np (heartbeat_task_pool owner pid token now np)"
| "np_step enc missing (EDone d now) np = fst (done_settle missing d now np)"
| "np_step enc missing (EWorkers pid pids) np = worker_pids pid pids np"
| "np_step enc missing (ERebuilt pid) np = pool_executor_rebuilt pid np"
| "np_step enc missing (ETimeouts liveness now) np = handle_timeouts liveness now np"
| "np_step enc missing (ERestore outcome now) np = restore_executor outcome now np"
| "np_step enc missing (EPrune limit) np = prune_inactive_pools limit np"
| "np_step enc missing (ERecord pid job item decoded lease now) np = fst (submit_record pid job item decoded lease now np)"
| "np_step enc missing (EPush n) np = np"

text \<open>The leases whose tasks a section settles.\<close>

definition newly_settled :: "node_pools \<Rightarrow> node_pools \<Rightarrow> string list" where
  "newly_settled np np' = map (tk_lease \<circ> snd) (filter (\<lambda>(i, t). \<not> settled t \<and>
     (case dget (np_tasks np') i of None \<Rightarrow> False | Some u \<Rightarrow> tk_lease u = tk_lease t \<and> settled u)) (np_tasks np))"

fun pool_step :: "encoder \<Rightarrow> (string \<Rightarrow> string) \<Rightarrow> pool_event \<Rightarrow> pool_sys \<Rightarrow> pool_sys" where
  "pool_step enc missing (ERecord pid job item decoded lease now) sy =
    (if strip (si_task_id item) \<in> set (np_reserved (sy_np sy)) \<and> lease \<notin> set (sy_leases sy)
     then sy\<lparr>sy_np := fst (submit_record pid job item decoded lease now (sy_np sy)), sy_leases := lease # sy_leases sy\<rparr> else sy)"
| "pool_step enc missing (EDone d now) sy =
    (case done_settle missing d now (sy_np sy) of
       (np', None) \<Rightarrow> sy\<lparr>sy_np := np'\<rparr>
     | (np', Some u) \<Rightarrow> sy\<lparr>sy_np := np', sy_pending := sy_pending sy @ [(td_pool_id d, u)],
         sy_answered := sy_answered sy @ removeAll (tk_lease u) (newly_settled (sy_np sy) np')\<rparr>)"
| "pool_step enc missing (EPush n) sy =
    (if n < length (sy_pending sy)
     then let (pid, u) = sy_pending sy ! n; np' = done_push enc pid u (sy_np sy);
              rest = take n (sy_pending sy) @ drop (Suc n) (sy_pending sy);
              found = (case dget (np_tasks (sy_np sy)) (tk_id u) of None \<Rightarrow> False | Some t \<Rightarrow> tk_lease t = tk_lease u \<and> tk_attempt t = tk_attempt u)
          in sy\<lparr>sy_np := np', sy_pending := rest, sy_answered := sy_answered sy @ (if found then [tk_lease u] else [])\<rparr>
     else sy)"
| "pool_step enc missing e sy =
    (let np' = np_step enc missing e (sy_np sy)
     in sy\<lparr>sy_np := np', sy_answered := sy_answered sy @ newly_settled (sy_np sy) np'\<rparr>)"

definition new_pool_sys :: "string \<Rightarrow> int \<Rightarrow> int \<Rightarrow> pool_sys" where
  "new_pool_sys inst capacity signals = \<lparr>sy_np = new_node_pools inst capacity signals, sy_pending = [], sy_leases = [], sy_answered = []\<rparr>"

definition pool_run :: "encoder \<Rightarrow> (string \<Rightarrow> string) \<Rightarrow> pool_event list \<Rightarrow> pool_sys \<Rightarrow> pool_sys" where
  "pool_run enc missing evs sy = fold (pool_step enc missing) evs sy"

section \<open>What an operation on pools leaves alone\<close>

definition pool_ids :: "node_pools \<Rightarrow> (string, string) dict" where
  "pool_ids np = dmap (\<lambda>_ p. tp_id p) (np_pools np)"

definition task_view :: "node_pools \<Rightarrow> int \<times> (string, pool_task) dict \<times> string list \<times> string list \<times> task_result result_hook \<times> (string, string) dict" where
  "task_view np = (np_queue_capacity np, np_tasks np, np_active np, np_reserved np, np_hook np, pool_ids np)"

lemma task_viewD:
  assumes "task_view np' = task_view np"
  shows "np_queue_capacity np' = np_queue_capacity np" "np_tasks np' = np_tasks np" "np_active np' = np_active np"
    "np_reserved np' = np_reserved np" "np_hook np' = np_hook np" "pool_ids np' = pool_ids np"
  using assms by (simp_all add: task_view_def)

named_theorems views \<open>operations that do not touch the tasks\<close>

lemma pool_ids_upd: "(\<And>p. tp_id (f p) = tp_id p) \<Longrightarrow> pool_ids (upd_pool pid f np) = pool_ids np"
  unfolding pool_ids_def upd_pool_def by (induction "np_pools np") (auto simp: dmap_def)

lemma view_upd [views]: "(\<And>p. tp_id (f p) = tp_id p) \<Longrightarrow> task_view (upd_pool pid f np) = task_view np"
  unfolding task_view_def by (simp add: pool_ids_upd) (simp add: upd_pool_def)

lemma view_sel [views]:
  "task_view (np_signals_update f np) = task_view np" "task_view (np_requests_update g np) = task_view np"
  "task_view (np_host_update b np) = task_view np" "task_view (np_codes_update c np) = task_view np"
  "task_view (np_service_inflight_update d np) = task_view np"
  by (simp_all add: task_view_def pool_ids_def)

lemma view_signal [views]: "task_view (publish_resource_signal k r ty st rs pl op ot os now np) = task_view np"
  by (simp add: publish_resource_signal_def Let_def views split: prod.split)

lemma view_failure [views]: "task_view (publish_resource_failure r rs st pl op now np) = task_view np"
  by (simp add: publish_resource_failure_def Let_def views)

lemma view_progress [views]: "task_view (publish_resource_progress r st state op os now np) = task_view np"
  by (simp add: publish_resource_progress_def Let_def views)

lemma view_readiness [views]: "task_view (publish_resource_readiness r rd rs now np) = task_view np"
  by (simp add: publish_resource_readiness_def Let_def views)

section \<open>The invariant of the tasks\<close>

definition task_at :: "node_pools \<Rightarrow> string \<Rightarrow> pool_task option" where
  "task_at np i = dget (np_tasks np) i"

definition settled_ids :: "node_pools \<Rightarrow> string set" where
  "settled_ids np = {i. \<exists>t. task_at np i = Some t \<and> settled t}"

definition active_ids_ok :: "node_pools \<Rightarrow> bool" where
  "active_ids_ok np \<longleftrightarrow> distinct (np_active np) \<and> (\<forall>i. i \<in> set (np_active np) \<longleftrightarrow> (\<exists>t. task_at np i = Some t \<and> \<not> settled t))"

definition records_ok :: "node_pools \<Rightarrow> bool" where
  "records_ok np \<longleftrightarrow> dwf (np_tasks np) \<and>
     (\<forall>i t. task_at np i = Some t \<longrightarrow> tk_id t = i \<and> strip i = i \<and> strip (tk_client t) = tk_client t \<and> tk_status t \<noteq> TaskQueued) \<and>
     (\<forall>i j t u. task_at np i = Some t \<longrightarrow> task_at np j = Some u \<longrightarrow> tk_lease t = tk_lease u \<longrightarrow> i = j)"

definition reserved_ok :: "node_pools \<Rightarrow> bool" where
  "reserved_ok np \<longleftrightarrow> distinct (np_reserved np) \<and> (\<forall>i \<in> set (np_reserved np). strip i = i \<and> task_at np i = None)"

definition capacity_ok :: "node_pools \<Rightarrow> bool" where
  "capacity_ok np \<longleftrightarrow> int (length (np_active np)) + int (length (np_reserved np)) \<le> max 0 (np_queue_capacity np)"

definition pool_ids_ok :: "node_pools \<Rightarrow> bool" where
  "pool_ids_ok np \<longleftrightarrow> (\<forall>k i. dget (pool_ids np) k = Some i \<longrightarrow> i = k \<and> strip k = k \<and> k \<noteq> [])"

definition np_ok :: "node_pools \<Rightarrow> bool" where
  "np_ok np \<longleftrightarrow> records_ok np \<and> active_ids_ok np \<and> reserved_ok np \<and> capacity_ok np \<and> pool_ids_ok np"

text \<open>Two kinds of sections: those that only settle tasks, pushing a result for each, and those that only forget tasks.\<close>

definition settles_to :: "node_pools \<Rightarrow> node_pools \<Rightarrow> bool" where
  "settles_to np np' \<longleftrightarrow> np_ok np' \<and> np_queue_capacity np' = np_queue_capacity np \<and> dom (task_at np') = dom (task_at np) \<and>
     (\<forall>i t u. task_at np i = Some t \<longrightarrow> task_at np' i = Some u \<longrightarrow> tk_lease u = tk_lease t \<and> (settled t \<longrightarrow> u = t)) \<and>
     rh_seq (np_hook np') + int (card (settled_ids np)) = rh_seq (np_hook np) + int (card (settled_ids np'))"

definition shrinks_to :: "node_pools \<Rightarrow> node_pools \<Rightarrow> bool" where
  "shrinks_to np np' \<longleftrightarrow> np_ok np' \<and> np_queue_capacity np' = np_queue_capacity np \<and> rh_seq (np_hook np') = rh_seq (np_hook np) \<and>
     (\<forall>i t. task_at np' i = Some t \<longrightarrow> task_at np i = Some t)"

lemma np_ok_view: "task_view np' = task_view np \<Longrightarrow> np_ok np' = np_ok np"
  using task_viewD [of np' np]
  by (simp add: np_ok_def records_ok_def active_ids_ok_def reserved_ok_def capacity_ok_def pool_ids_ok_def task_at_def)

lemma view_task_at: "task_view np' = task_view np \<Longrightarrow> task_at np' i = task_at np i"
  using task_viewD(2) [of np' np] by (simp add: task_at_def)

lemma settles_refl: "np_ok np \<Longrightarrow> settles_to np np"
  by (simp add: settles_to_def)

lemma settles_trans: "settles_to np np1 \<Longrightarrow> settles_to np1 np2 \<Longrightarrow> settles_to np np2"
proof -
  assume a: "settles_to np np1" and b: "settles_to np1 np2"
  have "tk_lease u = tk_lease t \<and> (settled t \<longrightarrow> u = t)" if t: "task_at np i = Some t" and u: "task_at np2 i = Some u" for i t u
  proof -
    have "i \<in> dom (task_at np1)" using a t by (auto simp: settles_to_def)
    then obtain v where v: "task_at np1 i = Some v" by auto
    then show ?thesis using a b t u unfolding settles_to_def by metis
  qed
  then show ?thesis using a b by (simp add: settles_to_def)
qed

lemma view_facts:
  assumes "task_view np' = task_view np"
  shows "task_at np' = task_at np" "settled_ids np' = settled_ids np" "np_hook np' = np_hook np" "np_ok np' = np_ok np" "np_queue_capacity np' = np_queue_capacity np"
  using view_task_at [OF assms] task_viewD(1,5) [OF assms] np_ok_view [OF assms] by (auto simp: settled_ids_def)

lemma settles_view_left: "task_view np' = task_view np \<Longrightarrow> settles_to np' n2 = settles_to np n2"
proof -
  assume "task_view np' = task_view np"
  note f = view_facts [OF this]
  show ?thesis by (simp only: settles_to_def f)
qed

lemma settles_view_right: "task_view n' = task_view n2 \<Longrightarrow> settles_to np n' = settles_to np n2"
proof -
  assume "task_view n' = task_view n2"
  note f = view_facts [OF this]
  show ?thesis by (simp only: settles_to_def f)
qed

lemma settles_view: "np_ok np \<Longrightarrow> task_view np' = task_view np \<Longrightarrow> settles_to np np'"
  using settles_view_right settles_refl by blast

lemma shrinks_view: "np_ok np \<Longrightarrow> task_view np' = task_view np \<Longrightarrow> shrinks_to np np'"
proof -
  assume ok: "np_ok np" and "task_view np' = task_view np"
  note f = view_facts [OF this(2)]
  show ?thesis using ok by (simp add: shrinks_to_def f)
qed

lemma shrinks_trans: "shrinks_to np np1 \<Longrightarrow> shrinks_to np1 np2 \<Longrightarrow> shrinks_to np np2"
  by (simp add: shrinks_to_def)

lemma finite_settled: "finite (settled_ids np)"
proof -
  have "settled_ids np \<subseteq> dom (map_of (np_tasks np))" by (auto simp: settled_ids_def task_at_def)
  then show ?thesis using finite_dom_map_of finite_subset by blast
qed

lemma pool_id_here: "np_ok np \<Longrightarrow> dget (np_pools np) pid = Some p \<Longrightarrow> tp_id p = pid \<and> strip pid = pid \<and> pid \<noteq> []"
  by (auto simp: np_ok_def pool_ids_ok_def pool_ids_def dict_simps)

lemma fold_discard: "set (fold (\<lambda>t. discard_id (f t)) ts xs) = set xs - f ` set ts"
  by (induction ts arbitrary: xs) (auto simp: discard_id_def)

lemma distinct_fold_discard: "distinct xs \<Longrightarrow> distinct (fold (\<lambda>t. discard_id (f t)) ts xs)"
  by (induction ts arbitrary: xs) (auto simp: discard_id_def distinct_removeAll)

lemma length_fold_discard: "length (fold (\<lambda>t. discard_id (f t)) ts xs) \<le> length xs"
proof (induction ts arbitrary: xs)
  case (Cons t ts)
  have "length (fold (\<lambda>t. discard_id (f t)) ts (discard_id (f t) xs)) \<le> length (discard_id (f t) xs)" by (rule Cons.IH)
  also have "\<dots> \<le> length xs" by (simp add: discard_id_def length_removeAll_less_eq)
  finally show ?case by simp
qed simp

lemma fold_push_seq: "rh_seq (fold (\<lambda>t h. fst (push_result c (g t) h)) ts h) = rh_seq h + int (length ts)"
proof (induction ts arbitrary: h)
  case (Cons t ts)
  have "rh_seq (fst (push_result c (g t) h)) = rh_seq h + 1" by (simp add: push_result_def Let_def frame_simps)
  then show ?case using Cons.IH [of "fst (push_result c (g t) h)"] by simp
qed simp

section \<open>Sections that settle tasks\<close>

lemma failing_ids:
  assumes "np_ok np"
  shows "t \<in> set (failing pid np) \<longleftrightarrow> (\<exists>i. task_at np i = Some t \<and> strip (tk_client t) = strip pid \<and> \<not> settled t)"
    and "distinct (failing pid np)"
proof -
  have wf: "dwf (np_tasks np)" using assms by (simp add: np_ok_def records_ok_def)
  show "t \<in> set (failing pid np) \<longleftrightarrow> (\<exists>i. task_at np i = Some t \<and> strip (tk_client t) = strip pid \<and> \<not> settled t)"
    using set_dvals [OF wf] by (auto simp: failing_def task_at_def)
  have "inj_on snd (set (np_tasks np))"
  proof (rule inj_onI)
    fix a b assume "a \<in> set (np_tasks np)" "b \<in> set (np_tasks np)" "snd a = snd b"
    then show "a = b" using in_dget [OF wf] assms unfolding np_ok_def records_ok_def task_at_def by (metis prod.collapse)
  qed
  then show "distinct (failing pid np)"
    using wf by (simp add: failing_def dvals_def distinct_map dwf_def)
qed

lemma stopped_settled [simp]: "settled (stopped_task r now t)"
  by (simp add: stopped_task_def pool_task_is_terminal_status_def)

lemma fail_task_at:
  assumes "strip pid \<noteq> []"
  shows "task_at (fail_task_pool_tasks pid reason now np) i = map_option (\<lambda>t. if strip (tk_client t) = strip pid \<and> \<not> settled t
      then stopped_task (str_or reason ''task pool stopped'') now t else t) (task_at np i)"
  using assms by (simp add: fail_task_pool_tasks_def Let_def task_at_def upd_pool_def dict_simps)

text \<open>A section that rewrites the tasks one by one and takes the newly settled ones off the active ones.\<close>

lemma rewriting:
  fixes f :: "pool_task \<Rightarrow> pool_task"
  assumes ok: "np_ok np"
    and at: "\<And>i. task_at np' i = map_option f (task_at np i)" and wf: "dwf (np_tasks np')"
    and keeps: "\<And>i t. task_at np i = Some t \<Longrightarrow> tk_id (f t) = tk_id t \<and> tk_client (f t) = tk_client t \<and> tk_lease (f t) = tk_lease t \<and>
        (settled t \<longrightarrow> f t = t) \<and> tk_status (f t) \<noteq> TaskQueued"
    and active: "distinct (np_active np')"
      "\<And>i. i \<in> set (np_active np') \<longleftrightarrow> i \<in> set (np_active np) \<and> (\<exists>t. task_at np i = Some t \<and> \<not> settled (f t))"
    and same: "np_reserved np' = np_reserved np" "np_queue_capacity np' = np_queue_capacity np" "pool_ids np' = pool_ids np"
  shows "np_ok np'" and "dom (task_at np') = dom (task_at np)"
    and "task_at np i = Some t \<Longrightarrow> task_at np' i = Some u \<Longrightarrow> tk_lease u = tk_lease t \<and> (settled t \<longrightarrow> u = t)"
    and "card (settled_ids np') = card (settled_ids np) + card {i. \<exists>t. task_at np i = Some t \<and> \<not> settled t \<and> settled (f t)}"
proof -
  show "dom (task_at np') = dom (task_at np)" by (auto simp: at)
  show "task_at np i = Some t \<Longrightarrow> task_at np' i = Some u \<Longrightarrow> tk_lease u = tk_lease t \<and> (settled t \<longrightarrow> u = t)"
    using keeps [of i t] by (simp add: at)
  let ?new = "{i. \<exists>t. task_at np i = Some t \<and> \<not> settled t \<and> settled (f t)}"
  have "settled_ids np' = settled_ids np \<union> ?new"
  proof (rule set_eqI)
    fix i
    show "i \<in> settled_ids np' \<longleftrightarrow> i \<in> settled_ids np \<union> ?new"
      using keeps [of i] by (cases "task_at np i") (auto simp: settled_ids_def at)
  qed
  moreover have "settled_ids np \<inter> ?new = {}" by (auto simp: settled_ids_def)
  moreover have "finite ?new" using finite_settled [of np'] calculation(1) by simp
  ultimately show "card (settled_ids np') = card (settled_ids np) + card ?new"
    using finite_settled [of np] by (simp add: card_Un_disjoint)
  have rec: "records_ok np" and act: "active_ids_ok np" using ok by (simp_all add: np_ok_def)
  have "records_ok np'"
    unfolding records_ok_def
  proof (intro conjI allI impI)
    show "dwf (np_tasks np')" by (rule wf)
  next
    fix i t' assume "task_at np' i = Some t'"
    then obtain t where t: "task_at np i = Some t" "t' = f t" by (auto simp: at)
    then show "tk_id t' = i" "strip i = i" "strip (tk_client t') = tk_client t'" "tk_status t' \<noteq> TaskQueued"
      using keeps [OF t(1)] rec unfolding records_ok_def by auto
  next
    fix i j t' u' assume "task_at np' i = Some t'" "task_at np' j = Some u'" and l: "tk_lease t' = tk_lease u'"
    then obtain t u where t: "task_at np i = Some t" "t' = f t" and u: "task_at np j = Some u" "u' = f u" by (auto simp: at)
    have "tk_lease t = tk_lease u" using l keeps [OF t(1)] keeps [OF u(1)] t(2) u(2) by simp
    then show "i = j" using rec t(1) u(1) unfolding records_ok_def by blast
  qed
  moreover have "active_ids_ok np'"
    unfolding active_ids_ok_def
  proof (intro conjI allI)
    show "distinct (np_active np')" by (rule active(1))
    fix i
    show "i \<in> set (np_active np') \<longleftrightarrow> (\<exists>t. task_at np' i = Some t \<and> \<not> settled t)"
      unfolding active(2) at using keeps [of i] act unfolding active_ids_ok_def by (cases "task_at np i") auto
  qed
  moreover have "reserved_ok np'" using ok at by (simp add: np_ok_def reserved_ok_def same)
  moreover have "capacity_ok np'"
  proof -
    have "set (np_active np') \<subseteq> set (np_active np)" using active(2) by blast
    then have "length (np_active np') \<le> length (np_active np)"
      using active(1) act distinct_card card_mono [OF finite_set] unfolding active_ids_ok_def by metis
    then show ?thesis using ok by (simp add: np_ok_def capacity_ok_def same)
  qed
  moreover have "pool_ids_ok np'" using ok by (simp add: np_ok_def pool_ids_ok_def same)
  ultimately show "np_ok np'" by (simp add: np_ok_def)
qed

lemma rewriting_settles:
  fixes f :: "pool_task \<Rightarrow> pool_task"
  assumes "np_ok np"
    and "\<And>i. task_at np' i = map_option f (task_at np i)" and "dwf (np_tasks np')"
    and "\<And>i t. task_at np i = Some t \<Longrightarrow> tk_id (f t) = tk_id t \<and> tk_client (f t) = tk_client t \<and> tk_lease (f t) = tk_lease t \<and>
        (settled t \<longrightarrow> f t = t) \<and> tk_status (f t) \<noteq> TaskQueued"
    and "distinct (np_active np')"
      "\<And>i. i \<in> set (np_active np') \<longleftrightarrow> i \<in> set (np_active np) \<and> (\<exists>t. task_at np i = Some t \<and> \<not> settled (f t))"
    and "np_reserved np' = np_reserved np" "np_queue_capacity np' = np_queue_capacity np" "pool_ids np' = pool_ids np"
    and "rh_seq (np_hook np') = rh_seq (np_hook np) + int (card {i. \<exists>t. task_at np i = Some t \<and> \<not> settled t \<and> settled (f t)})"
  shows "settles_to np np'"
  using rewriting [OF assms(1-9)] assms(8,10) unfolding settles_to_def by (intro conjI allI impI) auto

lemma failing_card: "np_ok np \<Longrightarrow> length (failing pid np) = card {i. \<exists>t. task_at np i = Some t \<and> strip (tk_client t) = strip pid \<and> \<not> settled t}"
proof -
  assume ok: "np_ok np"
  have ids: "tk_id t = i" if "task_at np i = Some t" for i t using ok that by (simp add: np_ok_def records_ok_def)
  have "{i. \<exists>t. task_at np i = Some t \<and> strip (tk_client t) = strip pid \<and> \<not> settled t} = tk_id ` set (failing pid np)"
  proof (intro set_eqI iffI)
    fix i assume "i \<in> {i. \<exists>t. task_at np i = Some t \<and> strip (tk_client t) = strip pid \<and> \<not> settled t}"
    then obtain t where t: "task_at np i = Some t" "strip (tk_client t) = strip pid" "\<not> settled t" by blast
    then have "t \<in> set (failing pid np)" unfolding failing_ids(1) [OF ok] by blast
    then show "i \<in> tk_id ` set (failing pid np)" using ids [OF t(1)] by (metis imageI)
  next
    fix i assume "i \<in> tk_id ` set (failing pid np)"
    then obtain t where t: "t \<in> set (failing pid np)" "i = tk_id t" by blast
    from t(1) obtain j where "task_at np j = Some t" "strip (tk_client t) = strip pid" "\<not> settled t" unfolding failing_ids(1) [OF ok] by blast
    moreover from this(1) have "j = i" using ids t(2) by simp
    ultimately show "i \<in> {i. \<exists>t. task_at np i = Some t \<and> strip (tk_client t) = strip pid \<and> \<not> settled t}" by blast
  qed
  moreover have "inj_on tk_id (set (failing pid np))"
  proof (rule inj_onI)
    fix t u assume "t \<in> set (failing pid np)" "u \<in> set (failing pid np)" and e: "tk_id t = tk_id u"
    then obtain i j where "task_at np i = Some t" "task_at np j = Some u" unfolding failing_ids(1) [OF ok] by blast
    then show "t = u" using ids e by (metis option.inject)
  qed
  ultimately show ?thesis using failing_ids(2) [OF ok] by (simp add: card_image distinct_card)
qed

lemma fail_settles:
  assumes ok: "np_ok np"
  shows "settles_to np (fail_task_pool_tasks pid reason now np)"
proof (cases "strip pid = []")
  case True
  then show ?thesis using settles_refl [OF ok] by (simp add: fail_task_pool_tasks_def)
next
  case False
  let ?np = "fail_task_pool_tasks pid reason now np" and ?r = "str_or reason ''task pool stopped''"
  define f where "f = (\<lambda>t. if strip (tk_client t) = strip pid \<and> \<not> settled t then stopped_task ?r now t else t)"
  have rec: "records_ok np" and act: "active_ids_ok np" using ok by (simp_all add: np_ok_def)
  have eq: "?np = upd_pool pid (\<lambda>p. p\<lparr>tp_returned_count := tp_returned_count p + int (length (failing pid np))\<rparr>)
      (np\<lparr>np_tasks := dmap (\<lambda>_. f) (np_tasks np), np_active := fold (\<lambda>t. discard_id (strip (tk_id t))) (failing pid np) (np_active np),
          np_hook := fold (\<lambda>t h. fst (push_result (strip pid) (result_with (stopped_task ?r now t) PNone) h)) (failing pid np) (np_hook np)\<rparr>)"
    using False by (simp add: fail_task_pool_tasks_def Let_def f_def)
  have sets: "np_active ?np = fold (\<lambda>t. discard_id (strip (tk_id t))) (failing pid np) (np_active np)" "np_tasks ?np = dmap (\<lambda>_. f) (np_tasks np)"
    "np_reserved ?np = np_reserved np" "np_queue_capacity ?np = np_queue_capacity np"
    "rh_seq (np_hook ?np) = rh_seq (np_hook np) + int (length (failing pid np))"
    unfolding eq by (simp_all add: upd_pool_def fold_push_seq)
  have ids: "pool_ids ?np = pool_ids np" unfolding eq by (subst pool_ids_upd) (simp_all add: pool_ids_def)
  have new: "{i. \<exists>t. task_at np i = Some t \<and> \<not> settled t \<and> settled (f t)} = {i. \<exists>t. task_at np i = Some t \<and> strip (tk_client t) = strip pid \<and> \<not> settled t}"
    by (auto simp: f_def split: if_splits)
  show ?thesis
  proof (rule rewriting_settles [OF ok, of _ f])
    show "task_at ?np i = map_option f (task_at np i)" for i by (simp add: task_at_def sets dict_simps)
    show "dwf (np_tasks ?np)" using rec by (simp add: sets records_ok_def)
    show "tk_id (f t) = tk_id t \<and> tk_client (f t) = tk_client t \<and> tk_lease (f t) = tk_lease t \<and> (settled t \<longrightarrow> f t = t) \<and> tk_status (f t) \<noteq> TaskQueued"
      if "task_at np i = Some t" for i t
      using rec that by (simp add: f_def stopped_task_def records_ok_def)
    show "distinct (np_active ?np)" using act by (simp add: sets distinct_fold_discard active_ids_ok_def)
    show "i \<in> set (np_active ?np) \<longleftrightarrow> i \<in> set (np_active np) \<and> (\<exists>t. task_at np i = Some t \<and> \<not> settled (f t))" for i
    proof -
      have "i \<in> (\<lambda>t. strip (tk_id t)) ` set (failing pid np) \<longleftrightarrow> (\<exists>t. task_at np i = Some t \<and> strip (tk_client t) = strip pid \<and> \<not> settled t)"
        using rec unfolding records_ok_def image_iff Bex_def failing_ids [OF ok] by metis
      moreover have "i \<in> set (np_active np) \<longleftrightarrow> (\<exists>t. task_at np i = Some t \<and> \<not> settled t)" using act by (simp add: active_ids_ok_def)
      ultimately show ?thesis unfolding sets fold_discard by (cases "task_at np i") (auto simp: f_def)
    qed
    show "np_reserved ?np = np_reserved np" "np_queue_capacity ?np = np_queue_capacity np" by (rule sets)+
    show "pool_ids ?np = pool_ids np" by (rule ids)
    show "rh_seq (np_hook ?np) = rh_seq (np_hook np) + int (card {i. \<exists>t. task_at np i = Some t \<and> \<not> settled t \<and> settled (f t)})"
      unfolding new by (simp add: sets failing_card [OF ok])
  qed
qed

named_theorems pool_steps \<open>how each section changes the tasks\<close>

lemma stop_settles [pool_steps]:
  assumes "np_ok np"
  shows "settles_to np (fst (stop_task_pool_resource pid reason now np))"
proof -
  define r where "r = str_or (strip (str_or reason ''owner requested'')) ''owner requested''"
  let ?np1 = "upd_pool pid (\<lambda>p. p\<lparr>tp_executor_ready := False, tp_alive_workers := 0, tp_degraded := False, tp_readiness := ''stopped'',
    tp_readiness_reason := r, tp_status := ''STOPPED'', tp_stop_reason := r, tp_failure_at := Some now, tp_lease_expire_at := now\<rparr>) np"
  have v1: "task_view ?np1 = task_view np" by (simp add: views)
  then have "np_ok ?np1" using assms np_ok_view by blast
  then have "settles_to ?np1 (fail_task_pool_tasks pid r now ?np1)" by (rule fail_settles)
  then have "settles_to np (fail_task_pool_tasks pid r now ?np1)" using settles_view_left [OF v1] by simp
  moreover have "task_view (fst (stop_task_pool_resource pid reason now np)) = task_view (fail_task_pool_tasks pid r now ?np1)"
    by (simp add: stop_task_pool_resource_def Let_def views r_def)
  ultimately show ?thesis using settles_view_right by blast
qed

lemma mark_settles [pool_steps]:
  assumes "np_ok np"
  shows "settles_to np (mark_task_pool_dependency_failure missing pid err now np)"
proof (cases "dget (np_pools np) pid")
  case None
  then show ?thesis using settles_refl [OF assms] by (simp add: mark_task_pool_dependency_failure_def)
next
  case (Some p)
  define m where "m = str_or (strip (tp_method p)) ''run''"
  define r where "r = dependency_failure_reason missing err m"
  define n where "n = (case dget (tp_method_failures p) m of None \<Rightarrow> 0 | Some (_, _, n) \<Rightarrow> n) + 1"
  let ?np1 = "upd_pool pid (\<lambda>p. p\<lparr>tp_method_failures := dset m (r, err, n) (tp_method_failures p), tp_executor_ready := False,
    tp_alive_workers := 0, tp_degraded := False, tp_status := ''STOPPED'', tp_readiness := ''failed'', tp_readiness_reason := r,
    tp_stop_reason := r, tp_failure_at := Some now, tp_lease_expire_at := now\<rparr>) np"
  have v1: "task_view ?np1 = task_view np" by (simp add: views)
  then have "np_ok ?np1" using assms np_ok_view by blast
  then have "settles_to ?np1 (fail_task_pool_tasks pid r now ?np1)" by (rule fail_settles)
  then have s: "settles_to np (fail_task_pool_tasks pid r now ?np1)" using settles_view_left [OF v1] by simp
  show ?thesis
  proof (cases "upper (tp_status p) = ''STOPPED'' \<and> strip (tp_stop_reason p) = r")
    case True
    then show ?thesis using settles_refl [OF assms] Some by (simp add: mark_task_pool_dependency_failure_def Let_def m_def r_def)
  next
    case False
    then have "task_view (mark_task_pool_dependency_failure missing pid err now np) = task_view (fail_task_pool_tasks pid r now ?np1)"
      using Some by (auto simp: mark_task_pool_dependency_failure_def Let_def m_def [symmetric] r_def [symmetric] n_def [symmetric] views)
    then show ?thesis using s settles_view_right by blast
  qed
qed

lemma create_failed_settles [pool_steps]:
  assumes "np_ok np"
  shows "settles_to np (create_failed a pid err now np)"
proof -
  let ?np1 = "upd_pool pid (\<lambda>p. p\<lparr>tp_status := ''STOPPED'', tp_executor_ready := False, tp_alive_workers := 0, tp_readiness := ''failed'',
    tp_readiness_reason := strip err, tp_stop_reason := strip err, tp_failure_at := Some now, tp_create_stage := ''create_failed''\<rparr>) np"
  have v1: "task_view ?np1 = task_view np" by (simp add: views)
  then have ok: "np_ok ?np1" using assms np_ok_view by blast
  have "settles_to ?np1 (if dget (np_pools np) pid = None then ?np1 else fail_task_pool_tasks pid err now ?np1)"
    using fail_settles [OF ok] settles_refl [OF ok] by simp
  then have "settles_to np (if dget (np_pools np) pid = None then ?np1 else fail_task_pool_tasks pid err now ?np1)"
    using settles_view_left [OF v1] by simp
  moreover have "task_view (create_failed a pid err now np) =
      task_view (if dget (np_pools np) pid = None then ?np1 else fail_task_pool_tasks pid err now ?np1)"
    by (simp add: create_failed_def Let_def views)
  ultimately show ?thesis using settles_view_right by blast
qed

lemma close_settles [pool_steps]:
  assumes "np_ok np"
  shows "settles_to np (or_same_fst np (close_task_pool owner pid token reason now np))"
proof (cases "close_task_pool owner pid token reason now np")
  case (Inl e)
  then show ?thesis using settles_refl [OF assms] by (simp add: or_same_fst_def)
next
  case (Inr x)
  then obtain r where "x = stop_task_pool_resource (strip pid) r now np"
    by (auto simp: close_task_pool_def ebind_eq_Inr Let_def split: if_splits)
  then show ?thesis using stop_settles [OF assms] Inr by (simp add: or_same_fst_def)
qed

lemma health_settles: "np_ok np \<Longrightarrow> settles_to np (pool_health now pid np)"
proof -
  assume ok: "np_ok np"
  show ?thesis
  proof (cases "\<exists>p. dget (np_pools np) pid = Some p \<and> \<not> create_in_progress p \<and> pool_is_running p \<and> tp_lease_expire_at p < now")
    case True
    then have "pool_health now pid np = fst (stop_task_pool_resource pid ''owner heartbeat timeout'' now np)"
      by (auto simp: pool_health_def)
    then show ?thesis using stop_settles [OF ok] by simp
  next
    case False
    then have "task_view (pool_health now pid np) = task_view np"
      by (auto simp: pool_health_def views refresh_lease_def split: option.split)
    then show ?thesis using settles_view [OF ok] by blast
  qed
qed

lemma fold_settles:
  assumes "np_ok np" and "\<And>x n. np_ok n \<Longrightarrow> settles_to n (f x n)"
  shows "settles_to np (fold f xs np)"
  using assms(1)
proof (induction xs arbitrary: np)
  case Nil
  then show ?case by (simp add: settles_refl)
next
  case (Cons x xs)
  have s: "settles_to np (f x np)" by (rule assms(2) [OF Cons.prems])
  then have "np_ok (f x np)" by (simp add: settles_to_def)
  then show ?case using settles_trans [OF s] Cons.IH by simp
qed

lemma pools_view:
  assumes "\<And>k p. tp_id (f k p) = tp_id p"
  shows "task_view (np\<lparr>np_pools := dmap f (np_pools np)\<rparr>) = task_view np"
proof -
  have "pool_ids (np\<lparr>np_pools := dmap f (np_pools np)\<rparr>) = pool_ids np"
    unfolding pool_ids_def using assms by (simp add: dmap_def comp_def case_prod_unfold)
  then show ?thesis by (simp add: task_view_def)
qed

lemma timeouts_settle [pool_steps]:
  assumes "np_ok np"
  shows "settles_to np (handle_timeouts liveness now np)"
proof -
  define np1 where "np1 = (case liveness of None \<Rightarrow> np | Some l \<Rightarrow> apply_liveness l np)"
  have v: "task_view np1 = task_view np"
    unfolding np1_def apply_liveness_def by (cases liveness) (simp_all add: pools_view split: option.split)
  then have ok1: "np_ok np1" using assms np_ok_view by blast
  have "settles_to np1 (fold (pool_health now) (dkeys (np_pools np1)) np1)"
    by (rule fold_settles [OF ok1 health_settles])
  then show ?thesis using settles_view_left [OF v] by (simp add: handle_timeouts_def np1_def Let_def)
qed

lemma cancel_settles [pool_steps]:
  assumes ok: "np_ok np"
  shows "settles_to np (or_same_fst np (cancel_pool_job pid token job reason now np))"
proof (cases "cancel_pool_job pid token job reason now np")
  case (Inl e)
  then show ?thesis using settles_refl [OF ok] by (simp add: or_same_fst_def)
next
  case (Inr x)
  let ?np = "fst x"
  have rec: "records_ok np" and act: "active_ids_ok np" using ok by (simp_all add: np_ok_def)
  then have wf: "dwf (np_tasks np)" by (simp add: records_ok_def)
  define f where "f = cancel_one (strip pid) (strip job) reason now"
  have noq: "filter (\<lambda>t. tk_status t = TaskQueued) (filter (\<lambda>t. \<not> settled t) (filter (\<lambda>t. tk_client t = strip pid \<and> tk_job t = strip job) (dvals (np_tasks np)))) = []"
    using rec set_dvals [OF wf] by (auto simp: filter_empty_conv records_ok_def task_at_def)
  have eq: "?np = upd_pool (strip pid) (\<lambda>p. p\<lparr>tp_returned_count := tp_returned_count p + 0\<rparr>) (np\<lparr>np_tasks := dmap (\<lambda>_. f) (np_tasks np)\<rparr>)"
    using Inr noq by (auto simp: cancel_pool_job_def ebind_eq_Inr Let_def f_def split: if_splits)
  have sels: "np_active ?np = np_active np" "np_tasks ?np = dmap (\<lambda>_. f) (np_tasks np)" "np_reserved ?np = np_reserved np"
    "np_queue_capacity ?np = np_queue_capacity np" "np_hook ?np = np_hook np"
    unfolding eq by (simp_all add: upd_pool_def)
  have ids: "pool_ids ?np = pool_ids np" unfolding eq by (subst pool_ids_upd) (simp_all add: pool_ids_def)
  have status: "tk_status (f t) = tk_status t" if "task_at np i = Some t" for i t
    using rec that by (simp add: f_def cancel_one_def records_ok_def)
  have none: "{i. \<exists>t. task_at np i = Some t \<and> \<not> settled t \<and> settled (f t)} = {}" using status by auto
  have "settles_to np ?np"
  proof (rule rewriting_settles [OF ok, of _ f])
    show "task_at ?np i = map_option f (task_at np i)" for i by (simp add: task_at_def sels dict_simps)
    show "dwf (np_tasks ?np)" using wf by (simp add: sels)
    show "tk_id (f t) = tk_id t \<and> tk_client (f t) = tk_client t \<and> tk_lease (f t) = tk_lease t \<and> (settled t \<longrightarrow> f t = t) \<and> tk_status (f t) \<noteq> TaskQueued"
      if "task_at np i = Some t" for i t
      using status [OF that] rec that by (simp add: records_ok_def) (simp add: f_def cancel_one_def)
    show "distinct (np_active ?np)" using act by (simp add: sels active_ids_ok_def)
    show "i \<in> set (np_active ?np) \<longleftrightarrow> i \<in> set (np_active np) \<and> (\<exists>t. task_at np i = Some t \<and> \<not> settled (f t))" for i
      using act status [of i] unfolding sels active_ids_ok_def by (cases "task_at np i") auto
    show "np_reserved ?np = np_reserved np" "np_queue_capacity ?np = np_queue_capacity np" by (rule sels)+
    show "pool_ids ?np = pool_ids np" by (rule ids)
    show "rh_seq (np_hook ?np) = rh_seq (np_hook np) + int (card {i. \<exists>t. task_at np i = Some t \<and> \<not> settled t \<and> settled (f t)})"
      unfolding none sels by simp
  qed
  then show ?thesis by (simp add: Inr or_same_fst_def)
qed

section \<open>Sections that forget tasks\<close>

text \<open>Removing records and their ids from the active ones.\<close>

lemma removing:
  assumes ok: "np_ok np"
    and at: "\<And>i. task_at np' i = (if i \<in> gone then None else task_at np i)" and wf: "dwf (np_tasks np')"
    and active: "distinct (np_active np')" "set (np_active np') = set (np_active np) - gone"
    and same: "np_reserved np' = np_reserved np" "np_queue_capacity np' = np_queue_capacity np" "rh_seq (np_hook np') = rh_seq (np_hook np)"
    and ids: "\<And>k i. dget (pool_ids np') k = Some i \<Longrightarrow> dget (pool_ids np) k = Some i"
  shows "shrinks_to np np'"
proof -
  have act: "active_ids_ok np" and rec: "records_ok np" using ok by (simp_all add: np_ok_def)
  have old: "task_at np i = Some t" if "task_at np' i = Some t" for i t using that at [of i] by (simp split: if_splits)
  have "records_ok np'" using rec wf old unfolding records_ok_def by blast
  moreover have "active_ids_ok np'"
    using act active at unfolding active_ids_ok_def by auto
  moreover have "reserved_ok np'" using ok at by (simp add: np_ok_def reserved_ok_def same)
  moreover have "capacity_ok np'"
  proof -
    have "length (np_active np') \<le> length (np_active np)"
      using active act distinct_card card_mono [OF finite_set, of "set (np_active np')" "np_active np"] unfolding active_ids_ok_def by (metis Diff_subset)
    then show ?thesis using ok by (simp add: np_ok_def capacity_ok_def same)
  qed
  moreover have "pool_ids_ok np'" using ok ids unfolding np_ok_def pool_ids_ok_def by blast
  ultimately show ?thesis using old by (simp add: shrinks_to_def np_ok_def same)
qed

lemma shrinks_refl: "np_ok np \<Longrightarrow> shrinks_to np np"
  by (simp add: shrinks_to_def)

lemma discard_facts: "distinct xs \<Longrightarrow> distinct (discard_id i xs)" "set (discard_id i xs) = set xs - {i}"
  by (simp_all add: discard_id_def distinct_removeAll)

lemma remove_one:
  assumes "np_ok np"
  shows "shrinks_to np (np\<lparr>np_tasks := dpop i (np_tasks np), np_active := discard_id i (np_active np)\<rparr>)"
  by (rule removing [OF assms, of _ "{i}"])
    (use assms in \<open>auto simp: np_ok_def records_ok_def active_ids_ok_def task_at_def dict_simps discard_facts pool_ids_def\<close>)

lemma undo_shrinks [pool_steps]: "np_ok np \<Longrightarrow> shrinks_to np (submit_undo t np)"
  by (auto simp: submit_undo_def remove_one shrinks_refl split: option.split)

lemma forget_one_shrinks: "np_ok np \<Longrightarrow> shrinks_to np (pull_forget_one r np)"
  by (auto simp: pull_forget_one_def Let_def remove_one shrinks_refl split: option.split)

lemma fold_shrinks:
  assumes "np_ok np" and "\<And>x n. np_ok n \<Longrightarrow> shrinks_to n (f x n)"
  shows "shrinks_to np (fold f xs np)"
  using assms(1)
proof (induction xs arbitrary: np)
  case Nil
  then show ?case by (simp add: shrinks_refl)
next
  case (Cons x xs)
  have s: "shrinks_to np (f x np)" by (rule assms(2) [OF Cons.prems])
  then have "np_ok (f x np)" by (simp add: shrinks_to_def)
  then show ?case using shrinks_trans [OF s] Cons.IH by simp
qed

lemma forget_shrinks [pool_steps]: "np_ok np \<Longrightarrow> shrinks_to np (pull_forget rs np)"
  unfolding pull_forget_def by (rule fold_shrinks [OF _ forget_one_shrinks])

lemma take_shrinks [pool_steps]:
  assumes "np_ok np"
  shows "shrinks_to np (or_same_fst np (pull_take pid token limit cursor np))"
proof -
  have hook: "shrinks_to np (np\<lparr>np_hook := fst (pull_results c n cursor (np_hook np))\<rparr>)" for c n
    by (rule removing [OF assms, of _ "{}"])
      (use assms in \<open>simp_all add: np_ok_def records_ok_def active_ids_ok_def task_at_def pull_results_def Let_def pool_ids_def\<close>)
  have "or_same_fst np (pull_take pid token limit cursor np) = np \<or>
      (\<exists>c n. or_same_fst np (pull_take pid token limit cursor np) = np\<lparr>np_hook := fst (pull_results c n cursor (np_hook np))\<rparr>)"
  proof (cases "pull_take pid token limit cursor np")
    case (Inr x)
    then obtain p where p: "task_pool_of pid np = Inr p" by (cases "task_pool_of pid np") (simp_all add: pull_take_def)
    obtain h rs c where r: "pull_results (tp_id p) (max 1 (num_or limit 100)) cursor (np_hook np) = (h, rs, c)" by (rule prod_cases3)
    have "fst x = np\<lparr>np_hook := h\<rparr>" using Inr p r by (cases "require_pool_token np p token") (auto simp: pull_take_def)
    then have "fst x = np\<lparr>np_hook := fst (pull_results (tp_id p) (max 1 (num_or limit 100)) cursor (np_hook np))\<rparr>" using r by simp
    then show ?thesis unfolding Inr or_same_fst_def sum.case by blast
  qed (simp add: or_same_fst_def)
  then show ?thesis using hook shrinks_refl [OF assms] by auto
qed

lemma forget_pool_shrinks: "np_ok np \<Longrightarrow> shrinks_to np (forget_pool pid np)"
proof -
  assume ok: "np_ok np"
  define stale where "stale = map fst (filter (\<lambda>(_, t). strip (tk_client t) = strip pid) (np_tasks np))"
  have eq: "forget_pool pid np = np\<lparr>np_pools := dpop pid (np_pools np), np_hook := clear_client pid (np_hook np), np_tasks := dpops stale (np_tasks np),
      np_active := fold discard_id stale (np_active np)\<rparr>"
    by (simp add: forget_pool_def Let_def stale_def)
  have "dget (pool_ids (forget_pool pid np)) k = Some i \<Longrightarrow> dget (pool_ids np) k = Some i" for k i
    by (auto simp: eq pool_ids_def dict_simps split: if_splits)
  moreover have "distinct (fold discard_id stale (np_active np))" "set (fold discard_id stale (np_active np)) = set (np_active np) - set stale"
    using ok distinct_fold_discard [of "np_active np" id stale] fold_discard [of id stale "np_active np"]
    by (simp_all add: np_ok_def active_ids_ok_def)
  ultimately show ?thesis
    using ok by (intro removing [OF ok, of _ "set stale"])
      (simp_all add: eq np_ok_def records_ok_def task_at_def dict_simps clear_client_def)
qed

lemma prune_shrinks [pool_steps]: "np_ok np \<Longrightarrow> shrinks_to np (prune_inactive_pools limit np)"
  unfolding prune_inactive_pools_def Let_def by (rule fold_shrinks [OF _ forget_pool_shrinks])

text \<open>Reserving ids.\<close>

lemma reserve_items_ok:
  assumes "np_ok np" "int (length (np_active np)) + int (length (np_reserved np)) \<le> occupancy"
  shows "shrinks_to np (fst (reserve_items items occupancy np))"
  using assms
proof (induction items occupancy np rule: reserve_items.induct)
  case (1 occupancy np)
  then show ?case by (simp add: shrinks_refl)
next
  case (2 item items occupancy np)
  define i where "i = strip (si_task_id item)"
  define np1 where "np1 = np\<lparr>np_reserved := add_id i (np_reserved np)\<rparr>"
  consider "dget (np_tasks np) i \<noteq> None \<or> i \<in> set (np_reserved np)"
    | "dget (np_tasks np) i = None" "i \<notin> set (np_reserved np)" "np_queue_capacity np \<le> occupancy"
    | "dget (np_tasks np) i = None" "i \<notin> set (np_reserved np)" "occupancy < np_queue_capacity np" by fastforce
  then show ?case
  proof cases
    case 1
    then have "shrinks_to np (fst (reserve_items items occupancy np))"
      using "2.IH"(1) [OF i_def] "2.prems" by blast
    moreover have "fst (reserve_items (item # items) occupancy np) = fst (reserve_items items occupancy np)"
      using 1 by (auto simp: i_def Let_def split: prod.split)
    ultimately show ?thesis by simp
  next
    case c: 2
    then have "shrinks_to np (fst (reserve_items items occupancy np))"
      using "2.IH"(2) [OF i_def] "2.prems" by blast
    moreover have "fst (reserve_items (item # items) occupancy np) = fst (reserve_items items occupancy np)"
      using c by (auto simp: i_def Let_def split: prod.split)
    ultimately show ?thesis by simp
  next
    case 3
    have res: "np_reserved np1 = np_reserved np @ [i]" using 3 by (simp add: np1_def add_id_def)
    have ok1: "np_ok np1"
      unfolding np_ok_def
    proof (intro conjI)
      show "records_ok np1" "active_ids_ok np1" "pool_ids_ok np1"
        using "2.prems"(1) by (simp_all add: np_ok_def records_ok_def active_ids_ok_def pool_ids_ok_def task_at_def pool_ids_def np1_def)
      show "reserved_ok np1"
        using "2.prems"(1) 3 unfolding np_ok_def reserved_ok_def res by (auto simp: task_at_def np1_def i_def)
      show "capacity_ok np1" using "2.prems"(2) 3 unfolding capacity_ok_def res by (simp add: np1_def)
    qed
    have "shrinks_to np1 (fst (reserve_items items (occupancy + 1) np1))"
      using "2.IH"(3) [OF i_def] 3 ok1 "2.prems"(2) res unfolding np1_def by (simp add: i_def)
    moreover have "shrinks_to np np1" using ok1 by (simp add: shrinks_to_def task_at_def np1_def)
    moreover have "fst (reserve_items (item # items) occupancy np) = fst (reserve_items items (occupancy + 1) np1)"
      using 3 by (auto simp: i_def np1_def Let_def split: prod.split)
    ultimately show ?thesis using shrinks_trans by simp
  qed
qed

lemma reserve_shrinks [pool_steps]:
  assumes "np_ok np"
  shows "shrinks_to np (or_same_fst np (submit_reserve pid token items np))"
proof (cases "submit_reserve pid token items np")
  case (Inl e)
  then show ?thesis using shrinks_refl [OF assms] by (simp add: or_same_fst_def)
next
  case (Inr x)
  then have "x = reserve_items items (node_queue_occupancy np) np"
    by (auto simp: submit_reserve_def ebind_eq_Inr Let_def split: if_splits)
  then show ?thesis using reserve_items_ok [OF assms, of "node_queue_occupancy np"] Inr
    by (simp add: or_same_fst_def node_queue_occupancy_def)
qed

text \<open>Recording pools, and the sections that only change them.\<close>

lemma create_view:
  assumes "np_ok np" "fresh_pool pid np" "tp_id p = pid"
  shows "shrinks_to np (np\<lparr>np_pools := dset pid p (np_pools np)\<rparr>)"
proof -
  let ?np = "np\<lparr>np_pools := dset pid p (np_pools np)\<rparr>"
  have "pool_ids_ok ?np"
    using assms unfolding np_ok_def pool_ids_ok_def pool_ids_def fresh_pool_def by (simp add: dict_simps)
  then have "np_ok ?np"
    using assms(1) by (simp add: np_ok_def records_ok_def active_ids_ok_def reserved_ok_def capacity_ok_def task_at_def)
  then show ?thesis by (simp add: shrinks_to_def task_at_def)
qed

lemma shrinks_then_view: "shrinks_to np np1 \<Longrightarrow> task_view np2 = task_view np1 \<Longrightarrow> shrinks_to np np2"
  using shrinks_trans shrinks_view unfolding shrinks_to_def by blast

lemma create_accept_shrinks [pool_steps]: "np_ok np \<Longrightarrow> fresh_pool pid np \<Longrightarrow> shrinks_to np (create_accept a pid now np)"
  by (rule shrinks_then_view [OF create_view [of np pid "accepted_pool a pid now (np_instance np)"]])
    (simp_all add: accepted_pool_def Let_def create_accept_def views)

lemma create_installed_shrinks [pool_steps]: "np_ok np \<Longrightarrow> fresh_pool pid np \<Longrightarrow> shrinks_to np (create_installed a pid code workers now ready np)"
  by (rule shrinks_then_view [OF create_view [of np pid "ready_pool a pid code workers now ready (np_instance np)"]])
    (simp_all add: ready_pool_def accepted_pool_def refresh_lease_def Let_def create_installed_def views)

lemma remember_shrinks [pool_steps]: "np_ok np \<Longrightarrow> fresh_pool pid np \<Longrightarrow> shrinks_to np (remember_failed_task_pool_create a pid code workers err now np)"
  unfolding remember_failed_task_pool_create_def by (rule create_view) (simp_all add: accepted_pool_def Let_def)

lemma or_same_view:
  assumes "\<And>np'. r = Inr np' \<Longrightarrow> task_view np' = task_view np"
  shows "task_view (or_same np r) = task_view np"
  using assms by (cases r) (simp_all add: or_same_def)

lemma section_views [views]:
  "task_view (or_same np (create_prepare a pid now np)) = task_view np"
  "task_view (or_same np (create_prepared a pid code now np)) = task_view np"
  "task_view (or_same np (create_executor a pid code workers np)) = task_view np"
  "task_view (or_same np (create_ready a pid workers now np)) = task_view np"
  "task_view (or_same np (heartbeat_task_pool owner pid token now np)) = task_view np"
  "task_view (worker_pids pid pids np) = task_view np"
  "task_view (pool_executor_rebuilt pid np) = task_view np"
  "task_view (submit_count pid np) = task_view np"
proof -
  show "task_view (or_same np (create_prepare a pid now np)) = task_view np"
    by (rule or_same_view) (auto simp: create_prepare_def views split: if_splits)
  show "task_view (or_same np (create_prepared a pid code now np)) = task_view np"
    by (rule or_same_view) (auto simp: create_prepared_def views split: if_splits)
  show "task_view (or_same np (create_executor a pid code workers np)) = task_view np"
    by (rule or_same_view) (auto simp: create_executor_def views split: if_splits)
  show "task_view (or_same np (create_ready a pid workers now np)) = task_view np"
    by (rule or_same_view) (auto simp: create_ready_def views mark_resource_ready_def refresh_lease_def split: option.splits)
  show "task_view (or_same np (heartbeat_task_pool owner pid token now np)) = task_view np"
    by (rule or_same_view) (auto simp: heartbeat_task_pool_def ebind_eq_Inr views split: if_splits)
qed (simp_all add: worker_pids_def pool_executor_rebuilt_def submit_count_def views)

lemma restore_view [views]: "task_view (restore_executor outcome now np) = task_view np"
proof -
  have one: "task_view (restore_pool now x n) = task_view n" for x n
    by (auto simp: restore_pool_def views split: prod.split option.split)
  have "task_view (fold (\<lambda>pid. restore_pool now (pid, outcome pid)) xs n) = task_view n" for xs n
    by (induction xs arbitrary: n) (simp_all add: one)
  then show ?thesis by (simp add: restore_executor_def views)
qed

section \<open>The invariant of a history\<close>

definition answers_ok :: "pool_sys \<Rightarrow> bool" where
  "answers_ok sy \<longleftrightarrow>
     (let np = sy_np sy; waiting = map (tk_lease \<circ> snd) (sy_pending sy)
      in distinct (sy_answered sy @ waiting) \<and> set (sy_answered sy @ waiting) \<subseteq> set (sy_leases sy) \<and>
         (\<forall>i t. task_at np i = Some t \<longrightarrow> tk_lease t \<in> set (sy_leases sy) \<and> (settled t \<longleftrightarrow> tk_lease t \<in> set (sy_answered sy @ waiting))) \<and>
         (\<forall>x \<in> set (sy_pending sy). settled (snd x) \<and> (\<forall>i t. task_at np i = Some t \<longrightarrow> tk_lease t = tk_lease (snd x) \<longrightarrow>
           i = tk_id (snd x) \<and> tk_attempt t = tk_attempt (snd x))) \<and>
         rh_seq (np_hook np) = int (length (sy_answered sy)))"

definition sys_ok :: "pool_sys \<Rightarrow> bool" where
  "sys_ok sy \<longleftrightarrow> np_ok (sy_np sy) \<and> answers_ok sy"

lemma new_sys_ok: "sys_ok (new_pool_sys inst capacity signals)"
  by (simp add: sys_ok_def answers_ok_def Let_def new_pool_sys_def new_node_pools_def np_ok_def records_ok_def active_ids_ok_def
      reserved_ok_def capacity_ok_def pool_ids_ok_def pool_ids_def dmap_def task_at_def new_result_hook_def)

text \<open>The leases settled between two states are as many as the ids, when nothing is forgotten.\<close>

lemma newly_settled_iff:
  assumes "records_ok np"
  shows "l \<in> set (newly_settled np np') \<longleftrightarrow>
    (\<exists>i t u. task_at np i = Some t \<and> \<not> settled t \<and> task_at np' i = Some u \<and> tk_lease u = tk_lease t \<and> settled u \<and> l = tk_lease t)"
proof -
  have wf: "dwf (np_tasks np)" using assms by (simp add: records_ok_def)
  have mem: "(i, t) \<in> set (np_tasks np) \<longleftrightarrow> task_at np i = Some t" for i t
    unfolding task_at_def using in_dget [OF wf] dget_in by metis
  have "l \<in> set (newly_settled np np') \<longleftrightarrow> (\<exists>i t. (i, t) \<in> set (np_tasks np) \<and> \<not> settled t \<and>
      (case dget (np_tasks np') i of None \<Rightarrow> False | Some u \<Rightarrow> tk_lease u = tk_lease t \<and> settled u) \<and> l = tk_lease t)"
    unfolding newly_settled_def by (auto simp: image_iff)
  also have "\<dots> \<longleftrightarrow> (\<exists>i t u. task_at np i = Some t \<and> \<not> settled t \<and> task_at np' i = Some u \<and> tk_lease u = tk_lease t \<and> settled u \<and> l = tk_lease t)"
    unfolding mem by (auto simp: task_at_def split: option.splits)
  finally show ?thesis .
qed

lemma newly_settled_distinct:
  assumes "records_ok np"
  shows "distinct (newly_settled np np')"
proof -
  have wf: "dwf (np_tasks np)" using assms by (simp add: records_ok_def)
  have "inj_on (tk_lease \<circ> snd) (set (np_tasks np))"
  proof (rule inj_onI)
    fix a b assume a: "a \<in> set (np_tasks np)" and b: "b \<in> set (np_tasks np)" and l: "(tk_lease \<circ> snd) a = (tk_lease \<circ> snd) b"
    have "task_at np (fst a) = Some (snd a)" "task_at np (fst b) = Some (snd b)"
      using in_dget [OF wf, of "fst a" "snd a"] in_dget [OF wf, of "fst b" "snd b"] a b by (simp_all add: task_at_def)
    moreover from this have "fst a = fst b" using assms l unfolding records_ok_def by (metis comp_apply)
    ultimately show "a = b" by (simp add: prod_eq_iff)
  qed
  moreover have "distinct (np_tasks np)" using wf by (simp add: dwf_def distinct_map)
  ultimately show ?thesis unfolding newly_settled_def
    by (simp add: distinct_map) (rule inj_on_subset, assumption, auto)
qed

lemma newly_settled_shrinks:
  assumes "records_ok np" "\<And>i t. task_at np' i = Some t \<Longrightarrow> task_at np i = Some t"
  shows "newly_settled np np' = []"
proof -
  have "l \<notin> set (newly_settled np np')" for l
    unfolding newly_settled_iff [OF assms(1)] using assms(2) by fastforce
  then show ?thesis by (metis list.set_intros(1) list.exhaust)
qed

lemma newly_settled_length:
  assumes rec: "records_ok np"
    and dom: "\<And>i t. task_at np i = Some t \<Longrightarrow> \<exists>u. task_at np' i = Some u \<and> tk_lease u = tk_lease t \<and> (settled t \<longrightarrow> settled u)"
    and dom': "dom (task_at np') = dom (task_at np)"
  shows "int (length (newly_settled np np')) = int (card (settled_ids np')) - int (card (settled_ids np))"
proof -
  define lease where "lease = (\<lambda>i. case task_at np i of None \<Rightarrow> [] | Some t \<Rightarrow> tk_lease t)"
  have sub: "settled_ids np \<subseteq> settled_ids np'" using dom by (fastforce simp: settled_ids_def)
  have "set (newly_settled np np') = lease ` (settled_ids np' - settled_ids np)"
  proof (intro set_eqI iffI)
    fix l assume "l \<in> set (newly_settled np np')"
    then obtain i t u where "task_at np i = Some t" "\<not> settled t" "task_at np' i = Some u" "settled u" "l = tk_lease t"
      unfolding newly_settled_iff [OF rec] by blast
    then have "i \<in> settled_ids np' - settled_ids np" "l = lease i" by (auto simp: settled_ids_def lease_def)
    then show "l \<in> lease ` (settled_ids np' - settled_ids np)" by blast
  next
    fix l assume "l \<in> lease ` (settled_ids np' - settled_ids np)"
    then obtain i u where i: "task_at np' i = Some u" "settled u" "i \<notin> settled_ids np" "l = lease i" by (auto simp: settled_ids_def)
    then obtain t where t: "task_at np i = Some t" using dom' by (metis domD domI)
    then have "tk_lease u = tk_lease t" using dom i(1) by fastforce
    moreover have "\<not> settled t" using i(3) t by (auto simp: settled_ids_def)
    ultimately show "l \<in> set (newly_settled np np')" unfolding newly_settled_iff [OF rec] using i t by (auto simp: lease_def)
  qed
  moreover have "inj_on lease (settled_ids np' - settled_ids np)"
  proof (rule inj_onI)
    fix i j assume "i \<in> settled_ids np' - settled_ids np" "j \<in> settled_ids np' - settled_ids np" and l: "lease i = lease j"
    then have "i \<in> dom (task_at np)" "j \<in> dom (task_at np)" using dom' by (auto simp: settled_ids_def)
    then obtain t u where "task_at np i = Some t" "task_at np j = Some u" by blast
    then show "i = j" using rec l unfolding records_ok_def by (simp add: lease_def)
  qed
  ultimately have "length (newly_settled np np') = card (settled_ids np' - settled_ids np)"
    using newly_settled_distinct [OF rec] distinct_card card_image by metis
  then show ?thesis using sub finite_settled by (simp add: card_Diff_subset card_mono of_nat_diff)
qed

section \<open>Every step keeps the invariant\<close>

lemma settles_parts:
  assumes "settles_to np np'" "np_ok np"
  shows "np_ok np'"
    and "task_at np' i = Some u \<Longrightarrow> \<exists>t. task_at np i = Some t \<and> tk_lease u = tk_lease t \<and> (settled t \<longrightarrow> u = t)"
    and "rh_seq (np_hook np') = rh_seq (np_hook np) + int (length (newly_settled np np'))"
proof -
  have rec: "records_ok np" using assms(2) by (simp add: np_ok_def)
  have dom: "dom (task_at np') = dom (task_at np)"
    and at: "\<And>i t u. task_at np i = Some t \<Longrightarrow> task_at np' i = Some u \<Longrightarrow> tk_lease u = tk_lease t \<and> (settled t \<longrightarrow> u = t)"
    using assms(1) unfolding settles_to_def by blast+
  show "np_ok np'" using assms(1) by (simp add: settles_to_def)
  show "task_at np' i = Some u \<Longrightarrow> \<exists>t. task_at np i = Some t \<and> tk_lease u = tk_lease t \<and> (settled t \<longrightarrow> u = t)"
    using dom at by (metis domD domI)
  have "int (length (newly_settled np np')) = int (card (settled_ids np')) - int (card (settled_ids np))"
  proof (rule newly_settled_length [OF rec _ dom])
    fix i t assume t: "task_at np i = Some t"
    then obtain u where "task_at np' i = Some u" using dom by (metis domD domI)
    then show "\<exists>u. task_at np' i = Some u \<and> tk_lease u = tk_lease t \<and> (settled t \<longrightarrow> settled u)" using at [OF t] by auto
  qed
  moreover have "rh_seq (np_hook np') + int (card (settled_ids np)) = rh_seq (np_hook np) + int (card (settled_ids np'))"
    using assms(1) by (simp add: settles_to_def)
  ultimately show "rh_seq (np_hook np') = rh_seq (np_hook np) + int (length (newly_settled np np'))" by linarith
qed

lemma answersD:
  assumes "answers_ok sy"
  shows "distinct (sy_answered sy @ map (tk_lease \<circ> snd) (sy_pending sy))"
    and "set (sy_answered sy @ map (tk_lease \<circ> snd) (sy_pending sy)) \<subseteq> set (sy_leases sy)"
    and "task_at (sy_np sy) i = Some t \<Longrightarrow> tk_lease t \<in> set (sy_leases sy)"
    and "task_at (sy_np sy) i = Some t \<Longrightarrow> settled t \<longleftrightarrow> tk_lease t \<in> set (sy_answered sy @ map (tk_lease \<circ> snd) (sy_pending sy))"
    and "x \<in> set (sy_pending sy) \<Longrightarrow> settled (snd x)"
    and "rh_seq (np_hook (sy_np sy)) = int (length (sy_answered sy))"
    and "x \<in> set (sy_pending sy) \<Longrightarrow> task_at (sy_np sy) i = Some t \<Longrightarrow> tk_lease t = tk_lease (snd x) \<Longrightarrow>
      i = tk_id (snd x) \<and> tk_attempt t = tk_attempt (snd x)"
  using assms unfolding answers_ok_def Let_def by blast+

lemma sys_settles:
  assumes ok: "sys_ok sy" and s: "settles_to (sy_np sy) np'"
  shows "sys_ok (sy\<lparr>sy_np := np', sy_answered := sy_answered sy @ newly_settled (sy_np sy) np'\<rparr>)"
proof -
  let ?np = "sy_np sy" and ?w = "map (tk_lease \<circ> snd) (sy_pending sy)" and ?new = "newly_settled (sy_np sy) np'"
  have np: "np_ok ?np" and a: "answers_ok sy" using ok by (simp_all add: sys_ok_def)
  have rec: "records_ok ?np" using np by (simp add: np_ok_def)
  note parts = settles_parts [OF s np]
  note A = answersD [OF a]
  have new: "l \<in> set (sy_leases sy) \<and> l \<notin> set (sy_answered sy @ ?w)" if "l \<in> set ?new" for l
    using that A(3,4) unfolding newly_settled_iff [OF rec] by blast
  have "distinct ((sy_answered sy @ ?new) @ ?w)"
    using A(1) new newly_settled_distinct [OF rec] by auto
  moreover have "set ((sy_answered sy @ ?new) @ ?w) \<subseteq> set (sy_leases sy)" using A(2) new by auto
  moreover have "tk_lease u \<in> set (sy_leases sy) \<and> (settled u \<longleftrightarrow> tk_lease u \<in> set ((sy_answered sy @ ?new) @ ?w))"
    if u: "task_at np' i = Some u" for i u
  proof -
    obtain t where t: "task_at ?np i = Some t" "tk_lease u = tk_lease t" "settled t \<longrightarrow> u = t" using parts(2) [OF u] by blast
    have "tk_lease u \<in> set ?new \<longleftrightarrow> \<not> settled t \<and> settled u"
    proof
      assume "tk_lease u \<in> set ?new"
      then obtain j t' u' where j: "task_at ?np j = Some t'" "\<not> settled t'" "task_at np' j = Some u'" "tk_lease u' = tk_lease t'" "settled u'"
          "tk_lease u = tk_lease t'" unfolding newly_settled_iff [OF rec] by blast
      then have "i = j" using t rec unfolding records_ok_def by metis
      then show "\<not> settled t \<and> settled u" using j t(1) u by simp
    qed (use t u in \<open>unfold newly_settled_iff [OF rec], blast\<close>)
    then show ?thesis using A(3,4) [OF t(1)] t(2,3) by auto
  qed
  moreover have "i = tk_id (snd x) \<and> tk_attempt u = tk_attempt (snd x)"
    if x: "x \<in> set (sy_pending sy)" and u: "task_at np' i = Some u" "tk_lease u = tk_lease (snd x)" for x i u
  proof -
    obtain t where t: "task_at ?np i = Some t" "tk_lease u = tk_lease t" "settled t \<longrightarrow> u = t" using parts(2) [OF u(1)] by blast
    have "tk_lease t \<in> set (sy_answered sy @ ?w)" using x u(2) t(2) by force
    then have "u = t" using A(4) [OF t(1)] t(3) by simp
    then show ?thesis using A(7) [OF x t(1)] u(2) by simp
  qed
  ultimately have "answers_ok (sy\<lparr>sy_np := np', sy_answered := sy_answered sy @ ?new\<rparr>)"
    unfolding answers_ok_def Let_def using A(5,6) parts(3) by simp
  then show ?thesis using parts(1) by (simp add: sys_ok_def)
qed

lemma sys_shrinks:
  assumes ok: "sys_ok sy" and s: "shrinks_to (sy_np sy) np'"
  shows "sys_ok (sy\<lparr>sy_np := np', sy_answered := sy_answered sy @ newly_settled (sy_np sy) np'\<rparr>)"
proof -
  have np': "np_ok np'" and sub: "\<And>i t. task_at np' i = Some t \<Longrightarrow> task_at (sy_np sy) i = Some t"
    and seq: "rh_seq (np_hook np') = rh_seq (np_hook (sy_np sy))"
    using s by (simp_all add: shrinks_to_def)
  have "records_ok (sy_np sy)" and a: "answers_ok sy" using ok by (simp_all add: sys_ok_def np_ok_def)
  then have nil: "newly_settled (sy_np sy) np' = []" using newly_settled_shrinks sub by blast
  note A = answersD [OF a]
  have "answers_ok (sy\<lparr>sy_np := np', sy_answered := sy_answered sy @ []\<rparr>)"
    unfolding answers_ok_def Let_def using A(1,2,5,6) A(3,4) [OF sub] A(7) [OF _ sub] seq by simp
  then show ?thesis using np' by (simp add: sys_ok_def nil)
qed

lemma sys_view: "sys_ok sy \<Longrightarrow> task_view np' = task_view (sy_np sy) \<Longrightarrow>
    sys_ok (sy\<lparr>sy_np := np', sy_answered := sy_answered sy @ newly_settled (sy_np sy) np'\<rparr>)"
  using sys_shrinks shrinks_view unfolding sys_ok_def by blast

end
