(* ===== verification/PoolAnswers.thy ===== *)
theory PoolAnswers
  imports PoolTasks
begin

text \<open>
  What holds of the task pools of a node in every state a history reaches: the ids that count
  against its capacity are those of its unsettled tasks and never too many, and every task is
  answered by exactly one pushed result unless its record is forgotten first.
\<close>

section \<open>Recording, settling and pushing\<close>

lemma leases_mono: "sys_ok (sy\<lparr>sy_np := np'\<rparr>) \<Longrightarrow> sys_ok (sy\<lparr>sy_np := np', sy_leases := l # sy_leases sy\<rparr>)"
  unfolding sys_ok_def answers_ok_def Let_def by auto

lemma unreserve_shrinks: "np_ok np \<Longrightarrow> shrinks_to np (np\<lparr>np_reserved := discard_id i (np_reserved np)\<rparr>)"
proof -
  assume ok: "np_ok np"
  let ?np = "np\<lparr>np_reserved := discard_id i (np_reserved np)\<rparr>"
  have "length (discard_id i (np_reserved np)) \<le> length (np_reserved np)" by (simp add: discard_id_def length_removeAll_less_eq)
  then have "np_ok ?np" using ok
    by (auto simp: np_ok_def records_ok_def active_ids_ok_def reserved_ok_def capacity_ok_def pool_ids_ok_def pool_ids_def task_at_def discard_facts)
  then show ?thesis by (simp add: shrinks_to_def task_at_def)
qed

text \<open>A new record takes the place of its reservation.\<close>

lemma record_ok:
  assumes ok: "np_ok np" and i: "i \<in> set (np_reserved np)"
    and t: "tk_id t = i" "strip (tk_client t) = tk_client t" "tk_status t = TaskRunning"
    and fresh: "\<And>j u. task_at np j = Some u \<Longrightarrow> tk_lease u \<noteq> tk_lease t"
  defines "np' \<equiv> np\<lparr>np_reserved := discard_id i (np_reserved np), np_tasks := dset i t (np_tasks np), np_active := add_id i (np_active np)\<rparr>"
  shows "np_ok np'" and "task_at np' j = (if j = i then Some t else task_at np j)"
proof -
  show at: "task_at np' j = (if j = i then Some t else task_at np j)" for j
    by (simp add: np'_def task_at_def dict_simps)
  have un: "\<not> settled t" using t(3) by (simp add: pool_task_is_terminal_status_def)
  have rec: "records_ok np" and act: "active_ids_ok np" and res: "reserved_ok np" and cap: "capacity_ok np" using ok by (simp_all add: np_ok_def)
  have free: "task_at np i = None" "strip i = i" using res i by (simp_all add: reserved_ok_def)
  then have new: "i \<notin> set (np_active np)" using act by (simp add: active_ids_ok_def)
  have "records_ok np'"
    unfolding records_ok_def
  proof (intro conjI allI impI)
    show "dwf (np_tasks np')" using rec by (simp add: np'_def records_ok_def)
  next
    fix j u assume "task_at np' j = Some u"
    then have "j = i \<and> u = t \<or> task_at np j = Some u" by (simp add: at split: if_splits)
    then show "tk_id u = j" "strip j = j" "strip (tk_client u) = tk_client u" "tk_status u \<noteq> TaskQueued"
      using rec t free(2) unfolding records_ok_def by auto
  next
    fix j k u v assume "task_at np' j = Some u" "task_at np' k = Some v" "tk_lease u = tk_lease v"
    then show "j = k" using rec fresh unfolding records_ok_def at by (metis option.inject)
  qed
  moreover have "active_ids_ok np'"
    using act new un unfolding active_ids_ok_def at by (simp add: np'_def add_id_def)
  moreover have "reserved_ok np'"
    using res unfolding reserved_ok_def at by (simp add: np'_def discard_facts)
  moreover have "capacity_ok np'"
  proof -
    have "length (discard_id i (np_reserved np)) = length (np_reserved np) - 1"
      using res i distinct_remove1_removeAll [of "np_reserved np" i] length_remove1 [of i "np_reserved np"] unfolding reserved_ok_def discard_id_def by simp
    moreover have "0 < length (np_reserved np)" using i by (rule length_pos_if_in_set)
    ultimately have "length (np_reserved np) = Suc (length (discard_id i (np_reserved np)))" by simp
    then show ?thesis using cap new by (simp add: capacity_ok_def np'_def add_id_def)
  qed
  moreover have "pool_ids_ok np'" using ok by (simp add: np_ok_def pool_ids_ok_def pool_ids_def np'_def)
  ultimately show "np_ok np'" by (simp add: np_ok_def)
qed

lemma sys_record:
  assumes ok: "sys_ok sy" and i: "strip (si_task_id item) \<in> set (np_reserved (sy_np sy))" and fresh: "lease \<notin> set (sy_leases sy)"
  shows "sys_ok (sy\<lparr>sy_np := fst (submit_record pid job item decoded lease now (sy_np sy)), sy_leases := lease # sy_leases sy\<rparr>)"
proof -
  let ?np = "sy_np sy" and ?i = "strip (si_task_id item)"
  let ?refused = "?np\<lparr>np_reserved := discard_id ?i (np_reserved ?np)\<rparr>"
  have np: "np_ok ?np" and a: "answers_ok sy" using ok by (simp_all add: sys_ok_def)
  note A = answersD [OF a]
  consider (refused) "fst (submit_record pid job item decoded lease now ?np) = ?refused"
    | (recorded) p d where "dget (np_pools ?np) (strip pid) = Some p"
        "fst (submit_record pid job item decoded lease now ?np) =
          ?refused\<lparr>np_tasks := dset ?i (new_task p job item d lease now) (np_tasks ?np), np_active := add_id ?i (np_active ?np)\<rparr>"
    by (fastforce simp: submit_record_def Let_def split: sum.splits option.splits if_splits)
  then show ?thesis
  proof cases
    case refused
    have "sys_ok (sy\<lparr>sy_np := ?refused, sy_answered := sy_answered sy @ newly_settled ?np ?refused\<rparr>)"
      by (rule sys_shrinks [OF ok unreserve_shrinks [OF np]])
    moreover have "newly_settled ?np ?refused = []"
      using np by (intro newly_settled_shrinks) (simp_all add: np_ok_def task_at_def)
    ultimately show ?thesis using leases_mono [where sy = sy and np' = ?refused and l = lease] unfolding refused by simp
  next
    case recorded
    define t where "t = new_task p job item d lease now"
    have tf: "tk_id t = ?i" "tk_status t = TaskRunning" "tk_lease t = lease" "strip (tk_client t) = tk_client t"
      using pool_id_here [OF np recorded(1)] by (simp_all add: t_def new_task_def split: prod.split)
    have un: "\<not> settled t" using tf(2) by (simp add: pool_task_is_terminal_status_def)
    have fr: "\<And>j u. task_at ?np j = Some u \<Longrightarrow> tk_lease u \<noteq> tk_lease t" using A(3) fresh tf(3) by metis
    note rec = record_ok [OF np i tf(1) tf(4) tf(2) fr]
    let ?np' = "?np\<lparr>np_reserved := discard_id ?i (np_reserved ?np), np_tasks := dset ?i t (np_tasks ?np), np_active := add_id ?i (np_active ?np)\<rparr>"
    have "answers_ok (sy\<lparr>sy_np := ?np', sy_leases := lease # sy_leases sy\<rparr>)"
      unfolding answers_ok_def Let_def
    proof (intro conjI allI impI)
      show "distinct (sy_answered (sy\<lparr>sy_np := ?np', sy_leases := lease # sy_leases sy\<rparr>) @ map (tk_lease \<circ> snd) (sy_pending (sy\<lparr>sy_np := ?np', sy_leases := lease # sy_leases sy\<rparr>)))"
        using A(1) by simp
      show "set (sy_answered (sy\<lparr>sy_np := ?np', sy_leases := lease # sy_leases sy\<rparr>) @ map (tk_lease \<circ> snd) (sy_pending (sy\<lparr>sy_np := ?np', sy_leases := lease # sy_leases sy\<rparr>)))
        \<subseteq> set (sy_leases (sy\<lparr>sy_np := ?np', sy_leases := lease # sy_leases sy\<rparr>))"
        using A(2) by auto
      fix j u assume "task_at (sy_np (sy\<lparr>sy_np := ?np', sy_leases := lease # sy_leases sy\<rparr>)) j = Some u"
      then have cases: "u = t \<or> task_at ?np j = Some u" by (simp add: rec(2) split: if_splits)
      show "tk_lease u \<in> set (sy_leases (sy\<lparr>sy_np := ?np', sy_leases := lease # sy_leases sy\<rparr>))" using cases A(3) tf(3) by auto
      show "settled u \<longleftrightarrow> tk_lease u \<in> set (sy_answered (sy\<lparr>sy_np := ?np', sy_leases := lease # sy_leases sy\<rparr>) @
          map (tk_lease \<circ> snd) (sy_pending (sy\<lparr>sy_np := ?np', sy_leases := lease # sy_leases sy\<rparr>)))"
      proof (cases "u = t")
        case True
        then show ?thesis using un tf(3) fresh A(2) by auto
      next
        case False
        then show ?thesis using cases A(4) by simp
      qed
    next
      have "i = tk_id (snd x) \<and> tk_attempt u = tk_attempt (snd x)"
        if x: "x \<in> set (sy_pending sy)" and u: "task_at ?np' i = Some u" "tk_lease u = tk_lease (snd x)" for x i u
      proof -
        have "tk_lease (snd x) \<in> set (sy_leases sy)" using A(2) x by auto
        then have "u \<noteq> t" using tf(3) fresh u(2) by auto
        then show ?thesis using A(7) [OF x] u by (simp add: rec(2) split: if_splits)
      qed
      then show "\<forall>x \<in> set (sy_pending (sy\<lparr>sy_np := ?np', sy_leases := lease # sy_leases sy\<rparr>)). settled (snd x) \<and>
          (\<forall>i t. task_at (sy_np (sy\<lparr>sy_np := ?np', sy_leases := lease # sy_leases sy\<rparr>)) i = Some t \<longrightarrow> tk_lease t = tk_lease (snd x) \<longrightarrow>
            i = tk_id (snd x) \<and> tk_attempt t = tk_attempt (snd x))" using A(5) by simp
      show "rh_seq (np_hook (sy_np (sy\<lparr>sy_np := ?np', sy_leases := lease # sy_leases sy\<rparr>))) =
          int (length (sy_answered (sy\<lparr>sy_np := ?np', sy_leases := lease # sy_leases sy\<rparr>)))" using A(6) by simp
    qed
    then show ?thesis using rec(1) unfolding recorded(2) t_def [symmetric] by (simp add: sys_ok_def)
  qed
qed

lemma finished_facts:
  "tk_id (finished_task d now t) = tk_id t" "tk_client (finished_task d now t) = tk_client t" "tk_lease (finished_task d now t) = tk_lease t"
  "tk_attempt (finished_task d now t) = tk_attempt t" "settled (finished_task d now t)" "tk_status (finished_task d now t) \<noteq> TaskQueued"
  by (simp_all add: finished_task_def Let_def pool_task_is_terminal_status_def)

lemma settle_one:
  assumes ok: "np_ok np" and t: "task_at np i = Some t" "\<not> settled t"
    and np1_def: "np1 = upd_pool pid (\<lambda>p. p\<lparr>tp_returned_count := tp_returned_count p + 1\<rparr>)
    (np\<lparr>np_tasks := dset i (finished_task d now t) (np_tasks np), np_active := discard_id i (np_active np)\<rparr>)"
  shows "np_ok np1" "dom (task_at np1) = dom (task_at np)"
    and "task_at np j = Some u \<Longrightarrow> task_at np1 j = Some v \<Longrightarrow> tk_lease v = tk_lease u \<and> (settled u \<longrightarrow> v = u)"
    and "card (settled_ids np1) = card (settled_ids np) + 1"
    and "task_at np1 i = Some (finished_task d now t)" and "rh_seq (np_hook np1) = rh_seq (np_hook np)"
proof -
  define f where "f = (\<lambda>u. if u = t then finished_task d now t else u)"
  have rec: "records_ok np" and act: "active_ids_ok np" using ok by (simp_all add: np_ok_def)
  have sels: "np_tasks np1 = dset i (finished_task d now t) (np_tasks np)" "np_active np1 = discard_id i (np_active np)"
    "np_reserved np1 = np_reserved np" "np_queue_capacity np1 = np_queue_capacity np"
    by (simp_all add: np1_def upd_pool_def)
  show "rh_seq (np_hook np1) = rh_seq (np_hook np)" by (simp add: np1_def upd_pool_def)
  show "task_at np1 i = Some (finished_task d now t)" by (simp add: task_at_def sels dict_simps)
  have only: "j = i" if "task_at np j = Some t" for j using that t(1) rec unfolding records_ok_def by metis
  have at: "task_at np1 j = map_option f (task_at np j)" for j
  proof (cases "j = i")
    case True
    then show ?thesis using t(1) by (simp add: task_at_def sels dict_simps f_def)
  next
    case False
    then have "task_at np1 j = task_at np j" by (simp add: task_at_def sels dict_simps)
    moreover have "f u = u" if "task_at np j = Some u" for u using that False only by (auto simp: f_def)
    ultimately show ?thesis by (cases "task_at np j") simp_all
  qed
  have "{j. \<exists>u. task_at np j = Some u \<and> \<not> settled u \<and> settled (f u)} = {i}"
  proof (intro set_eqI iffI)
    fix j assume "j \<in> {j. \<exists>u. task_at np j = Some u \<and> \<not> settled u \<and> settled (f u)}"
    then obtain u where "task_at np j = Some u" "u = t" by (auto simp: f_def split: if_splits)
    then show "j \<in> {i}" using only by simp
  next
    fix j assume "j \<in> {i}"
    then show "j \<in> {j. \<exists>u. task_at np j = Some u \<and> \<not> settled u \<and> settled (f u)}"
      using t finished_facts(5) [of d now t] by (simp add: f_def)
  qed
  then have new: "card {j. \<exists>u. task_at np j = Some u \<and> \<not> settled u \<and> settled (f u)} = 1" by simp
  have ids: "pool_ids np1 = pool_ids np" unfolding np1_def by (subst pool_ids_upd) (simp_all add: pool_ids_def)
  have keeps: "tk_id (f u) = tk_id u \<and> tk_client (f u) = tk_client u \<and> tk_lease (f u) = tk_lease u \<and> (settled u \<longrightarrow> f u = u) \<and> tk_status (f u) \<noteq> TaskQueued"
    if "task_at np j = Some u" for j u
    using rec t(2) that by (cases "u = t") (simp_all add: f_def finished_facts records_ok_def)
  have active: "j \<in> set (np_active np1) \<longleftrightarrow> j \<in> set (np_active np) \<and> (\<exists>u. task_at np j = Some u \<and> \<not> settled (f u))" for j
  proof (cases "j = i")
    case True
    then show ?thesis using t(1) by (simp add: sels discard_id_def f_def finished_facts)
  next
    case False
    have fj: "f u = u" if "task_at np j = Some u" for u using that False only by (auto simp: f_def)
    show ?thesis using False fj act by (cases "task_at np j") (simp_all add: sels discard_id_def active_ids_ok_def)
  qed
  have da: "distinct (np_active np1)" and wf: "dwf (np_tasks np1)"
    using act rec by (simp_all add: sels active_ids_ok_def discard_facts records_ok_def)
  note r = rewriting [OF ok at wf keeps da active sels(3,4) ids]
  show "np_ok np1" by (rule r(1))
  show "dom (task_at np1) = dom (task_at np)" by (rule r(2))
  show "card (settled_ids np1) = card (settled_ids np) + 1" using r(4) unfolding new .
  show "task_at np j = Some u \<Longrightarrow> task_at np1 j = Some v \<Longrightarrow> tk_lease v = tk_lease u \<and> (settled u \<longrightarrow> v = u)" by (rule r(3))
qed

text \<open>What settling a finished task does: it settles that task, perhaps others of the pool, and each
  but that one is pushed.\<close>

lemma done_settle_effect:
  assumes np: "np_ok np" and d: "done_settle missing d now np = (np', Some u)"
  obtains t where "task_at np (td_task_id d) = Some t" "\<not> settled t" "u = finished_task d now t" "np_ok np'"
    "dom (task_at np') = dom (task_at np)" "task_at np' (td_task_id d) = Some u"
    "\<forall>j x v. task_at np j = Some x \<longrightarrow> task_at np' j = Some v \<longrightarrow> tk_lease v = tk_lease x \<and> (settled x \<longrightarrow> v = x)"
    "rh_seq (np_hook np') + int (card (settled_ids np)) + 1 = rh_seq (np_hook np) + int (card (settled_ids np'))"
proof -
  let ?np = np and ?i = "td_task_id d"
  obtain t where t0: "dget (np_tasks ?np) ?i = Some t" using d by (cases "dget (np_tasks ?np) ?i") (simp_all add: done_settle_def)
  have live: "\<not> (tk_attempt t \<noteq> td_attempt d \<or> settled t)"
  proof
    assume bad: "tk_attempt t \<noteq> td_attempt d \<or> settled t"
    have "done_settle missing d now ?np = (?np, None)" unfolding done_settle_def t0 option.case if_P [OF bad] ..
    then show False using d by simp
  qed
  have pool: "\<not> (dget (np_pools ?np) (td_pool_id d) = None \<or> strip (tk_client t) \<noteq> td_pool_id d)"
  proof
    assume bad: "dget (np_pools ?np) (td_pool_id d) = None \<or> strip (tk_client t) \<noteq> td_pool_id d"
    have "done_settle missing d now ?np = (?np, None)" unfolding done_settle_def t0 option.case if_P [OF bad] if_not_P [OF live] ..
    then show False using d by simp
  qed
  have t: "task_at ?np ?i = Some t" "\<not> settled t" using t0 live by (simp_all add: task_at_def)
  define np1 where "np1 = upd_pool (td_pool_id d) (\<lambda>p. p\<lparr>tp_returned_count := tp_returned_count p + 1\<rparr>)
    (?np\<lparr>np_tasks := dset ?i (finished_task d now t) (np_tasks ?np), np_active := discard_id ?i (np_active ?np)\<rparr>)"
  note one = settle_one [OF np t np1_def]
  have eq: "done_settle missing d now ?np = (if str_or (td_status_text d) ''FAILED_INFRA'' = ''FAILED_DEPENDENCY''
      then mark_task_pool_dependency_failure missing (td_pool_id d) (snd (snd (normalize_invoke_error (str_or (td_status_text d) ''FAILED_INFRA'')
        (td_error_type d) (td_error_message d)))) now np1 else np1, Some (finished_task d now t))"
    unfolding done_settle_def t0 option.case if_not_P [OF live] if_not_P [OF pool] Let_def np1_def ..
  have u: "u = finished_task d now t" using d unfolding eq by (simp only: prod.inject option.inject)
  have "np' = fst (done_settle missing d now ?np)" unfolding d by simp
  then have np': "np' = np1 \<or> (\<exists>err. np' = mark_task_pool_dependency_failure missing (td_pool_id d) err now np1)"
    unfolding eq fst_conv by (metis (full_types))
  have s: "settles_to np1 np'"
    using np' by (elim disjE exE) (simp_all only: mark_settles [OF one(1)] settles_refl [OF one(1)])
  have dom: "dom (task_at np') = dom (task_at np)" using s one(2) by (simp add: settles_to_def)
  have through: "tk_lease v = tk_lease x \<and> (settled x \<longrightarrow> v = x)" if "task_at np j = Some x" "task_at np' j = Some v" for j x v
  proof -
    have "j \<in> dom (task_at np1)" unfolding one(2) using that(1) by (rule domI)
    then obtain y where y: "task_at np1 j = Some y" by blast
    have "tk_lease y = tk_lease x \<and> (settled x \<longrightarrow> y = x)" using one(3) [OF that(1) y] .
    moreover have "tk_lease v = tk_lease y \<and> (settled y \<longrightarrow> v = y)" using s y that(2) unfolding settles_to_def by blast
    ultimately show ?thesis by auto
  qed
  have "?i \<in> dom (task_at np')" unfolding dom using t(1) by (rule domI)
  then obtain v where v: "task_at np' ?i = Some v" by blast
  have "v = u" using s one(5) v finished_facts(5) [of d now t] u unfolding settles_to_def by blast
  then have ui: "task_at np' ?i = Some u" using v by simp
  have count: "rh_seq (np_hook np') + int (card (settled_ids np)) + 1 = rh_seq (np_hook np) + int (card (settled_ids np'))"
    using s one(4,6) unfolding settles_to_def by linarith
  have "np_ok np'" using s by (simp add: settles_to_def)
  moreover have "\<forall>j x v. task_at np j = Some x \<longrightarrow> task_at np' j = Some v \<longrightarrow> tk_lease v = tk_lease x \<and> (settled x \<longrightarrow> v = x)"
    using through by blast
  ultimately show ?thesis using that t u dom ui count by blast
qed

text \<open>The leases settled by a step that keeps the tasks and their leases.\<close>

lemma newly_settled_marks:
  assumes rec: "records_ok np" and dom: "dom (task_at np') = dom (task_at np)"
    and through: "\<And>j x v. task_at np j = Some x \<Longrightarrow> task_at np' j = Some v \<Longrightarrow> tk_lease v = tk_lease x \<and> (settled x \<longrightarrow> v = x)"
    and v: "task_at np' j = Some v"
  obtains x where "task_at np j = Some x" "tk_lease v = tk_lease x" "settled x \<longrightarrow> v = x"
    "tk_lease v \<in> set (newly_settled np np') \<longleftrightarrow> \<not> settled x \<and> settled v"
proof -
  have "j \<in> dom (task_at np)" unfolding dom [symmetric] using v by (rule domI)
  then obtain x where x: "task_at np j = Some x" by blast
  note xv = through [OF x v]
  have "tk_lease v \<in> set (newly_settled np np') \<longleftrightarrow> \<not> settled x \<and> settled v"
  proof
    assume "tk_lease v \<in> set (newly_settled np np')"
    then obtain k y z where k: "task_at np k = Some y" "\<not> settled y" "task_at np' k = Some z" "settled z" "tk_lease v = tk_lease y"
      unfolding newly_settled_iff [OF rec] by blast
    then have "k = j" using x xv rec unfolding records_ok_def by (metis (no_types))
    then show "\<not> settled x \<and> settled v" using k x v by simp
  next
    assume "\<not> settled x \<and> settled v"
    then show "tk_lease v \<in> set (newly_settled np np')" unfolding newly_settled_iff [OF rec] using x v xv by blast
  qed
  then show ?thesis using that [OF x] xv by blast
qed

lemma sys_done:
  assumes ok: "sys_ok sy" and d: "done_settle missing d now (sy_np sy) = (np', Some u)"
  shows "sys_ok (sy\<lparr>sy_np := np', sy_pending := sy_pending sy @ [(td_pool_id d, u)],
    sy_answered := sy_answered sy @ removeAll (tk_lease u) (newly_settled (sy_np sy) np')\<rparr>)"
proof -
  let ?np = "sy_np sy" and ?i = "td_task_id d" and ?new = "newly_settled (sy_np sy) np'" and ?w = "map (tk_lease \<circ> snd) (sy_pending sy)"
  let ?sy = "sy\<lparr>sy_np := np', sy_pending := sy_pending sy @ [(td_pool_id d, u)], sy_answered := sy_answered sy @ removeAll (tk_lease u) ?new\<rparr>"
  have np: "np_ok ?np" and a: "answers_ok sy" using ok by (simp_all add: sys_ok_def)
  then have rec: "records_ok ?np" by (simp add: np_ok_def)
  note A = answersD [OF a]
  obtain t where t: "task_at ?np ?i = Some t" "\<not> settled t" and u: "u = finished_task d now t" and ok': "np_ok np'"
    and dom: "dom (task_at np') = dom (task_at ?np)" and ui: "task_at np' ?i = Some u"
    and all_through: "\<forall>j x v. task_at ?np j = Some x \<longrightarrow> task_at np' j = Some v \<longrightarrow> tk_lease v = tk_lease x \<and> (settled x \<longrightarrow> v = x)"
    and count: "rh_seq (np_hook np') + int (card (settled_ids ?np)) + 1 = rh_seq (np_hook ?np) + int (card (settled_ids np'))"
    using done_settle_effect [OF np d] by blast
  have through: "tk_lease v = tk_lease x \<and> (settled x \<longrightarrow> v = x)" if "task_at ?np j = Some x" "task_at np' j = Some v" for j x v
    using all_through that by blast
  note marks = newly_settled_marks [OF rec dom through]
  have ul: "tk_lease u = tk_lease t" "settled u" by (simp_all add: u finished_facts)
  have in_new: "tk_lease u \<in> set ?new" unfolding newly_settled_iff [OF rec] using t ui ul by blast
  have dn: "distinct ?new" by (rule newly_settled_distinct [OF rec])
  have len: "int (length ?new) = int (card (settled_ids np')) - int (card (settled_ids ?np))"
  proof (rule newly_settled_length [OF rec _ dom])
    fix j x assume x: "task_at ?np j = Some x"
    have "j \<in> dom (task_at np')" unfolding dom using x by (rule domI)
    then obtain v where "task_at np' j = Some v" by blast
    then show "\<exists>v. task_at np' j = Some v \<and> tk_lease v = tk_lease x \<and> (settled x \<longrightarrow> settled v)" using through [OF x] by auto
  qed
  have "length (removeAll (tk_lease u) ?new) + 1 = length ?new"
    using distinct_remove1_removeAll [OF dn, of "tk_lease u"] length_remove1 [of "tk_lease u" ?new] in_new length_pos_if_in_set [OF in_new] by simp
  then have seq: "rh_seq (np_hook np') = rh_seq (np_hook ?np) + int (length (removeAll (tk_lease u) ?new))"
    using len count by linarith
  have new: "l \<in> set (sy_leases sy) \<and> l \<notin> set (sy_answered sy @ ?w)" if "l \<in> set ?new" for l
    using that A(3,4) unfolding newly_settled_iff [OF rec] by blast
  have all: "sy_answered ?sy @ map (tk_lease \<circ> snd) (sy_pending ?sy) = sy_answered sy @ removeAll (tk_lease u) ?new @ ?w @ [tk_lease u]" by simp
  have pend: "j = tk_id (snd x) \<and> tk_attempt v = tk_attempt (snd x)"
    if x: "x \<in> set (sy_pending sy) \<or> snd x = u" and v: "task_at np' j = Some v" "tk_lease v = tk_lease (snd x)" for x j v
  proof -
    obtain y where y: "task_at ?np j = Some y" "tk_lease v = tk_lease y" "settled y \<longrightarrow> v = y" by (rule marks [OF _ _ v(1)])
    from x show ?thesis
    proof
      assume x: "x \<in> set (sy_pending sy)"
      have "tk_lease y \<in> set (sy_answered sy @ ?w)" using x v(2) y(2) by force
      then have "v = y" using A(4) [OF y(1)] y(3) by simp
      then show ?thesis using A(7) [OF x y(1)] v(2) by simp
    next
      assume x: "snd x = u"
      then have "j = ?i" using y(1,2) v(2) ul(1) t(1) rec unfolding records_ok_def by metis
      moreover from this have "v = u" using ui v(1) by simp
      moreover have "tk_id u = ?i" using t(1) rec by (simp add: u finished_facts records_ok_def)
      ultimately show ?thesis using x by simp
    qed
  qed
  have "answers_ok ?sy"
    unfolding answers_ok_def Let_def
  proof (intro conjI allI impI)
    show "distinct (sy_answered ?sy @ map (tk_lease \<circ> snd) (sy_pending ?sy))"
      unfolding all using A(1) new dn in_new by (auto simp: distinct_removeAll)
    show "set (sy_answered ?sy @ map (tk_lease \<circ> snd) (sy_pending ?sy)) \<subseteq> set (sy_leases ?sy)"
      unfolding all using A(2) new in_new by auto
    fix j v assume "task_at (sy_np ?sy) j = Some v"
    then have v: "task_at np' j = Some v" by simp
    obtain x where x: "task_at ?np j = Some x" "tk_lease v = tk_lease x" "settled x \<longrightarrow> v = x"
      "tk_lease v \<in> set ?new \<longleftrightarrow> \<not> settled x \<and> settled v" by (rule marks [OF _ _ v])
    show "tk_lease v \<in> set (sy_leases ?sy)" using A(3) [OF x(1)] x(2) by simp
    show "settled v \<longleftrightarrow> tk_lease v \<in> set (sy_answered ?sy @ map (tk_lease \<circ> snd) (sy_pending ?sy))"
      unfolding all using A(4) [OF x(1)] x(2-4) in_new by auto
  next
    show "\<forall>x \<in> set (sy_pending ?sy). settled (snd x) \<and> (\<forall>i t. task_at (sy_np ?sy) i = Some t \<longrightarrow> tk_lease t = tk_lease (snd x) \<longrightarrow>
        i = tk_id (snd x) \<and> tk_attempt t = tk_attempt (snd x))"
      using A(5) ul(2) pend by auto
  qed (use A(6) seq in simp)
  then show ?thesis using ok' by (simp add: sys_ok_def)
qed

lemma push_seq: "rh_seq (fst (push_result c r h)) = rh_seq h + 1"
  by (simp add: push_result_def Let_def frame_simps)

lemma encoded_settled: "settled u \<Longrightarrow> encoded_result enc u = (u', r) \<Longrightarrow> settled u'"
  by (auto simp: encoded_result_def Let_def pool_task_is_terminal_status_def split: sum.splits)

lemma push_ok:
  assumes ok: "np_ok np" and t: "task_at np i = Some t" "settled t" "tk_id t' = tk_id t" "tk_client t' = tk_client t" "tk_lease t' = tk_lease t" "settled t'"
  shows "np_ok (np\<lparr>np_tasks := dset i t' (np_tasks np), np_hook := h\<rparr>)" (is "np_ok ?np")
proof -
  have at: "task_at ?np j = (if j = i then Some t' else task_at np j)" for j by (simp add: task_at_def dict_simps)
  have rec: "records_ok np" and act: "active_ids_ok np" using ok by (simp_all add: np_ok_def)
  have nq: "tk_status t' \<noteq> TaskQueued" using t(6) by (auto simp: pool_task_is_terminal_status_def)
  have "records_ok ?np"
    unfolding records_ok_def
  proof (intro conjI allI impI)
    show "dwf (np_tasks ?np)" using rec by (simp add: records_ok_def)
  next
    fix j v assume "task_at ?np j = Some v"
    then have "\<exists>x. task_at np j = Some x \<and> tk_id v = tk_id x \<and> tk_client v = tk_client x \<and> (v = x \<or> tk_status v \<noteq> TaskQueued)"
      using t nq by (auto simp: at split: if_splits)
    then show "tk_id v = j" "strip j = j" "strip (tk_client v) = tk_client v" "tk_status v \<noteq> TaskQueued"
      using rec unfolding records_ok_def by auto
  next
    fix j k v w assume v: "task_at ?np j = Some v" and w: "task_at ?np k = Some w" and l: "tk_lease v = tk_lease w"
    have "\<exists>x. task_at np j = Some x \<and> tk_lease v = tk_lease x" "\<exists>x. task_at np k = Some x \<and> tk_lease w = tk_lease x"
      using v w t by (auto simp: at split: if_splits)
    then show "j = k" using rec l unfolding records_ok_def by metis
  qed
  moreover have "active_ids_ok ?np" using act t unfolding active_ids_ok_def at by auto
  moreover have "reserved_ok ?np" using ok t(1) unfolding np_ok_def reserved_ok_def at by auto
  ultimately show ?thesis using ok by (simp add: np_ok_def capacity_ok_def pool_ids_ok_def pool_ids_def)
qed

lemma sys_push:
  assumes ok: "sys_ok sy" and n: "n < length (sy_pending sy)"
  shows "sys_ok (pool_step enc missing (EPush n) sy)"
proof -
  let ?np = "sy_np sy"
  obtain pid u where pu: "sy_pending sy ! n = (pid, u)" by fastforce
  define rest where "rest = take n (sy_pending sy) @ drop (Suc n) (sy_pending sy)"
  define found where "found = (case dget (np_tasks ?np) (tk_id u) of None \<Rightarrow> False | Some t \<Rightarrow> tk_lease t = tk_lease u \<and> tk_attempt t = tk_attempt u)"
  let ?sy = "sy\<lparr>sy_np := done_push enc pid u ?np, sy_pending := rest, sy_answered := sy_answered sy @ (if found then [tk_lease u] else [])\<rparr>"
  have step: "pool_step enc missing (EPush n) sy = ?sy" using n by (simp add: pu rest_def found_def Let_def)
  have np: "np_ok ?np" and a: "answers_ok sy" using ok by (simp_all add: sys_ok_def)
  note A = answersD [OF a]
  have "mset (sy_pending sy) = mset rest + {#(pid, u)#}"
    unfolding rest_def using id_take_nth_drop [OF n] pu by (metis mset.simps(2) mset_append union_mset_add_mset_right add_mset_add_single)
  then have ms: "mset (sy_answered sy @ map (tk_lease \<circ> snd) (sy_pending sy)) = mset (sy_answered sy @ [tk_lease u] @ map (tk_lease \<circ> snd) rest)"
    by simp
  have dist: "distinct (sy_answered sy @ [tk_lease u] @ map (tk_lease \<circ> snd) rest)"
    using A(1) mset_eq_imp_distinct_iff [OF ms] by simp
  have sets: "set (sy_answered sy @ map (tk_lease \<circ> snd) (sy_pending sy)) = insert (tk_lease u) (set (sy_answered sy @ map (tk_lease \<circ> snd) rest))"
    using mset_eq_setD [OF ms] by simp
  have su: "settled u" using A(5) [of "(pid, u)"] n pu nth_mem by fastforce
  have inr: "x \<in> set (sy_pending sy)" if "x \<in> set rest" for x
    using that in_set_takeD in_set_dropD unfolding rest_def by fastforce
  have sr: "settled (snd x)" if "x \<in> set rest" for x
    using inr [OF that] A(5) by blast
  show ?thesis unfolding step
  proof (cases found)
    case True
    then obtain t where t: "task_at ?np (tk_id u) = Some t" "tk_lease t = tk_lease u" "tk_attempt t = tk_attempt u"
      by (auto simp: found_def task_at_def split: option.splits)
    obtain u' r where enc: "encoded_result enc u = (u', r)" by fastforce
    define t' where "t' = t\<lparr>tk_status := tk_status u', tk_error_type := tk_error_type u', tk_error_message := tk_error_message u'\<rparr>"
    have np': "done_push enc pid u ?np = ?np\<lparr>np_tasks := dset (tk_id u) t' (np_tasks ?np), np_hook := fst (push_result pid r (np_hook ?np))\<rparr>"
      using t by (simp add: done_push_def task_at_def enc t'_def)
    have st: "settled t" using A(4) [OF t(1)] unfolding sets t(2) by simp
    have st': "settled t'" using encoded_settled [OF su enc] by (simp add: t'_def)
    have ok': "np_ok (done_push enc pid u ?np)" unfolding np'
      by (rule push_ok [OF np t(1) st]) (use st' in \<open>simp_all add: t'_def\<close>)
    have at: "task_at (done_push enc pid u ?np) j = (if j = tk_id u then Some t' else task_at ?np j)" for j
      by (simp add: np' task_at_def dict_simps)
    have was: "\<exists>y. task_at ?np j = Some y \<and> tk_lease v = tk_lease y \<and> tk_attempt v = tk_attempt y \<and> settled v = settled y"
      if "task_at (done_push enc pid u ?np) j = Some v" for j v
    proof (cases "j = tk_id u")
      case True
      then have "v = t'" using that at by simp
      then show ?thesis using t(1) True st st' by (simp add: t'_def)
    next
      case False
      then show ?thesis using that at by simp
    qed
    have "tk_lease v \<in> set (sy_leases sy) \<and> (settled v \<longleftrightarrow> tk_lease v \<in> set (sy_answered sy @ map (tk_lease \<circ> snd) (sy_pending sy)))"
      if "task_at (done_push enc pid u ?np) j = Some v" for j v
      using was [OF that] A(3,4) by metis
    moreover have "j = tk_id (snd x) \<and> tk_attempt v = tk_attempt (snd x)"
      if x: "x \<in> set rest" and v: "task_at (done_push enc pid u ?np) j = Some v" "tk_lease v = tk_lease (snd x)" for x j v
    proof -
      obtain y where "task_at ?np j = Some y" "tk_lease v = tk_lease y" "tk_attempt v = tk_attempt y" using was [OF v(1)] by blast
      then show ?thesis using A(7) [OF inr [OF x]] v(2) by simp
    qed
    ultimately have "answers_ok ?sy"
      unfolding answers_ok_def Let_def sets using A(2,6) dist sr True unfolding sets by (simp add: np' push_seq)
    then show "sys_ok ?sy" using ok' by (simp add: sys_ok_def)
  next
    case False
    then have np': "done_push enc pid u ?np = ?np" by (auto simp: done_push_def found_def split: option.splits if_splits)
    have gone: "tk_lease v \<noteq> tk_lease u" if "task_at ?np j = Some v" for j v
    proof
      assume l: "tk_lease v = tk_lease u"
      have "(pid, u) \<in> set (sy_pending sy)" using n pu nth_mem by metis
      from A(7) [OF this that] l have "j = tk_id u" "tk_attempt v = tk_attempt u" by simp_all
      then show False using that l False by (simp add: found_def task_at_def)
    qed
    have "answers_ok ?sy"
      unfolding answers_ok_def Let_def using A(2,3,6) A(4) A(7) [OF inr] dist sr False gone unfolding sets by (simp add: np')
    then show "sys_ok ?sy" using np by (simp add: sys_ok_def np')
  qed
qed

section \<open>Every history\<close>

text \<open>All but three kinds of events are sections of the node alone.\<close>

fun plain :: "pool_event \<Rightarrow> bool" where
  "plain (ERecord pid job item decoded lease now) = False"
| "plain (EDone d now) = False"
| "plain (EPush n) = False"
| "plain e = True"

lemma not_plain:
  assumes "\<not> plain e"
  obtains (recd) pid job item decoded lease now where "e = ERecord pid job item decoded lease now"
    | (fin) d now where "e = EDone d now" | (push) n where "e = EPush n"
  using assms by (cases e) simp_all

lemma np_step_changes:
  assumes ok: "np_ok np" and e: "plain e"
  shows "settles_to np (np_step enc missing e np) \<or> shrinks_to np (np_step enc missing e np)"
proof -
  have view: "settles_to np np'" if "task_view np' = task_view np" for np' using settles_view [OF ok that] .
  show ?thesis
  proof (cases e)
    case (ECreate a pid now)
    then show ?thesis using create_accept_shrinks [OF ok] shrinks_refl [OF ok] by simp
  next
    case (EInstall a pid code workers now ready)
    then show ?thesis using create_installed_shrinks [OF ok] shrinks_refl [OF ok] by simp
  next
    case (ERemember a pid code workers err now)
    then show ?thesis using remember_shrinks [OF ok] shrinks_refl [OF ok] by simp
  qed (use e in \<open>simp_all add: view views pool_steps ok\<close>)
qed

lemma done_none: "done_settle missing d now np = (np', None) \<Longrightarrow> np' = np"
  by (simp add: done_settle_def Let_def split: option.splits if_splits)

lemma default_step:
  assumes "plain e"
  shows "pool_step enc missing e sy = sy\<lparr>sy_np := np_step enc missing e (sy_np sy),
    sy_answered := sy_answered sy @ newly_settled (sy_np sy) (np_step enc missing e (sy_np sy))\<rparr>"
  using assms by (cases e) (simp_all add: Let_def)

lemma pool_step_ok:
  assumes ok: "sys_ok sy"
  shows "sys_ok (pool_step enc missing e sy)"
proof -
  have np: "np_ok (sy_np sy)" using ok by (simp add: sys_ok_def)
  consider (recd) pid job item decoded lease now where "e = ERecord pid job item decoded lease now"
    | (fin) d now where "e = EDone d now" | (push) n where "e = EPush n" | (other) "plain e"
    using not_plain by metis
  then show ?thesis
  proof cases
    case recd
    then show ?thesis using sys_record [OF ok] ok by simp
  next
    case (fin d now)
    obtain np' r where r: "done_settle missing d now (sy_np sy) = (np', r)" by fastforce
    show ?thesis
    proof (cases r)
      case None
      then have "np' = sy_np sy" using r done_none by blast
      then show ?thesis using ok r None fin by simp
    next
      case (Some u)
      then show ?thesis using sys_done [OF ok, of missing d now np' u] r fin by simp
    qed
  next
    case (push n)
    show ?thesis
    proof (cases "n < length (sy_pending sy)")
      case True
      then show ?thesis using sys_push [OF ok] push by blast
    qed (use ok push in simp)
  next
    case other
    show ?thesis unfolding default_step [OF other]
      using np_step_changes [OF np other] sys_settles [OF ok] sys_shrinks [OF ok] by blast
  qed
qed

lemma mark_capacity: "np_ok np \<Longrightarrow> np_queue_capacity (mark_task_pool_dependency_failure missing pid err now np) = np_queue_capacity np"
  using mark_settles [of np missing pid err now] by (simp add: settles_to_def)

lemma pool_step_capacity:
  assumes ok: "sys_ok sy"
  shows "np_queue_capacity (sy_np (pool_step enc missing e sy)) = np_queue_capacity (sy_np sy)"
proof -
  have np: "np_ok (sy_np sy)" using ok by (simp add: sys_ok_def)
  consider (recd) pid job item decoded lease now where "e = ERecord pid job item decoded lease now"
    | (fin) d now where "e = EDone d now" | (push) n where "e = EPush n" | (other) "plain e"
    using not_plain by metis
  then show ?thesis
  proof cases
    case recd
    then show ?thesis by (simp add: submit_record_def Let_def split: sum.split option.split)
  next
    case (fin d now)
    have "np_queue_capacity (fst (done_settle missing d now (sy_np sy))) = np_queue_capacity (sy_np sy)"
    proof (cases "snd (done_settle missing d now (sy_np sy))")
      case None
      then show ?thesis using done_none [of missing d now "sy_np sy"] by (metis prod.collapse)
    next
      case (Some u)
      then obtain t where t: "task_at (sy_np sy) (td_task_id d) = Some t" "\<not> settled t"
        by (auto simp: done_settle_def task_at_def Let_def split: option.splits if_splits)
      note one = settle_one(1) [OF np t refl]
      show ?thesis using mark_capacity [OF one]
        by (auto simp: done_settle_def task_at_def Let_def upd_pool_def t(1) [unfolded task_at_def])
    qed
    then show ?thesis using fin by (cases "done_settle missing d now (sy_np sy)") (auto split: option.split)
  next
    case (push n)
    then show ?thesis by (auto simp: Let_def done_push_def split: prod.split option.split)
  next
    case other
    then show ?thesis unfolding default_step [OF other]
      using np_step_changes [OF np other, of enc missing] by (auto simp: settles_to_def shrinks_to_def)
  qed
qed

lemma pool_run_ok:
  "sys_ok (pool_run enc missing evs (new_pool_sys inst capacity signals)) \<and>
   np_queue_capacity (sy_np (pool_run enc missing evs (new_pool_sys inst capacity signals))) = capacity"
proof (induction evs rule: rev_induct)
  case Nil
  then show ?case using new_sys_ok by (simp add: pool_run_def) (simp add: new_pool_sys_def new_node_pools_def)
next
  case (snoc e evs)
  then show ?case using pool_step_ok pool_step_capacity by (simp add: pool_run_def)
qed

text \<open>
  C5: The node's queue is never overbooked. After every history the ids that count against the
  capacity are, without repetition, those of the recorded tasks that are not settled and those
  reserved for a submission under way; a reserved id is not recorded; and together they are at most
  the capacity of the queue.
\<close>

theorem queue_never_overbooked:
  "let np = sy_np (pool_run enc missing evs (new_pool_sys inst capacity signals))
   in distinct (np_active np @ np_reserved np) \<and>
     set (np_active np) = {i. \<exists>t. dget (np_tasks np) i = Some t \<and> \<not> settled t} \<and>
     set (np_reserved np) \<inter> dom (map_of (np_tasks np)) = {} \<and>
     int (length (np_active np @ np_reserved np)) \<le> max 0 capacity"
proof -
  define sy where "sy = pool_run enc missing evs (new_pool_sys inst capacity signals)"
  have ok: "np_ok (sy_np sy)" and cap: "np_queue_capacity (sy_np sy) = capacity"
    using pool_run_ok unfolding sy_def sys_ok_def by blast+
  have act: "distinct (np_active (sy_np sy))" "\<And>i. i \<in> set (np_active (sy_np sy)) \<longleftrightarrow> (\<exists>t. task_at (sy_np sy) i = Some t \<and> \<not> settled t)"
    using ok by (simp_all add: np_ok_def active_ids_ok_def)
  have res: "distinct (np_reserved (sy_np sy))" "\<And>i. i \<in> set (np_reserved (sy_np sy)) \<Longrightarrow> task_at (sy_np sy) i = None"
    using ok by (simp_all add: np_ok_def reserved_ok_def)
  have "set (np_active (sy_np sy)) \<inter> set (np_reserved (sy_np sy)) = {}" using act(2) res(2) by fastforce
  moreover have "set (np_reserved (sy_np sy)) \<inter> dom (map_of (np_tasks (sy_np sy))) = {}" using res(2) by (auto simp: task_at_def)
  moreover have "int (length (np_active (sy_np sy))) + int (length (np_reserved (sy_np sy))) \<le> max 0 capacity"
    using ok cap by (simp add: np_ok_def capacity_ok_def)
  ultimately show ?thesis using act res(1) unfolding Let_def sy_def [symmetric] by (auto simp: task_at_def)
qed


end
