(* ===== verification/PoolGuarantees.thy ===== *)
theory PoolGuarantees
  imports PoolAnswers
begin

text \<open>
  What the calls of a pool's owner achieve: which items of a submission are taken, what closing a
  pool and cancelling a job do to its tasks, and what happens to them when a creation or the
  executor host gets in the way.
\<close>

section \<open>Which items are taken\<close>

text \<open>The items whose id is new, each id once, in their order.\<close>

fun first_of_ids :: "string set \<Rightarrow> submit_item list \<Rightarrow> submit_item list" where
  "first_of_ids seen [] = []"
| "first_of_ids seen (item # items) =
    (if strip (si_task_id item) \<in> seen then first_of_ids seen items
     else item # first_of_ids (insert (strip (si_task_id item)) seen) items)"

definition known_ids :: "node_pools \<Rightarrow> string set" where
  "known_ids np = dom (map_of (np_tasks np)) \<union> set (np_reserved np)"

lemma first_of_ids_skip:
  assumes "n = (0::nat)"
  shows "take n (first_of_ids s items) = take n (first_of_ids s' items)"
  using assms by simp

lemma reserve_items_exact:
  assumes "reserve_items items occupancy np = (np', taken, refused)"
  shows "taken = take (nat (np_queue_capacity np - occupancy)) (first_of_ids (known_ids np) items) \<and>
    np' = np\<lparr>np_reserved := np_reserved np @ map (strip \<circ> si_task_id) taken\<rparr> \<and> length taken + length refused = length items"
  using assms
proof (induction items occupancy np arbitrary: np' taken refused rule: reserve_items.induct)
  case (1 occupancy np)
  then show ?case by simp
next
  case (2 item items occupancy np)
  define i where "i = strip (si_task_id item)"
  define np1 where "np1 = np\<lparr>np_reserved := add_id i (np_reserved np)\<rparr>"
  show ?case
  proof (cases "dget (np_tasks np) i \<noteq> None \<or> i \<in> set (np_reserved np)")
    case True
    then have seen: "i \<in> known_ids np" by (auto simp: known_ids_def)
    obtain np2 rs js where r: "reserve_items items occupancy np = (np2, rs, js)" by (rule prod_cases3)
    have "(np', taken, refused) = (np2, rs, DuplicateTask i # js)"
      using "2.prems" True r unfolding reserve_items.simps Let_def i_def [symmetric] by simp
    moreover have "first_of_ids (known_ids np) (item # items) = first_of_ids (known_ids np) items" using seen by (simp add: i_def)
    ultimately show ?thesis using "2.IH"(1) [OF i_def True r] by auto
  next
    case known: False
    then have new: "i \<notin> known_ids np" by (auto simp: known_ids_def)
    show ?thesis
    proof (cases "np_queue_capacity np \<le> occupancy")
      case True
      obtain np2 rs js where r: "reserve_items items occupancy np = (np2, rs, js)" by (rule prod_cases3)
      have "(np', taken, refused) = (np2, rs, QueueFull i # js)"
        using "2.prems" known True r unfolding reserve_items.simps Let_def i_def [symmetric] by simp
      then show ?thesis using "2.IH"(2) [OF i_def known True r] True by auto
    next
      case False
      obtain np2 rs js where r: "reserve_items items (occupancy + 1) np1 = (np2, rs, js)" by (rule prod_cases3)
      have eq: "(np', taken, refused) = (np2, item # rs, js)"
        using "2.prems" known False r unfolding reserve_items.simps Let_def i_def [symmetric] np1_def [symmetric] by simp
      have capn: "np_queue_capacity np1 = np_queue_capacity np" by (simp add: np1_def)
      have ids: "known_ids np1 = insert i (known_ids np)" by (auto simp: known_ids_def np1_def add_id_def)
      have ih: "rs = take (nat (np_queue_capacity np - (occupancy + 1))) (first_of_ids (insert i (known_ids np)) items) \<and>
          np2 = np1\<lparr>np_reserved := np_reserved np1 @ map (strip \<circ> si_task_id) rs\<rparr> \<and> length rs + length js = length items"
        using "2.IH"(3) [OF i_def known False, folded np1_def, OF r] unfolding ids capn .
      have n: "nat (np_queue_capacity np - occupancy) = Suc (nat (np_queue_capacity np - (occupancy + 1)))" using False by simp
      have res: "np_reserved np1 = np_reserved np @ [i]" using known by (simp add: np1_def add_id_def)
      have "taken = item # rs" "refused = js" "np' = np2" using eq by simp_all
      moreover have "first_of_ids (known_ids np) (item # items) = item # first_of_ids (insert i (known_ids np)) items"
        using new by (simp add: i_def)
      moreover have "np2 = np\<lparr>np_reserved := np_reserved np @ map (strip \<circ> si_task_id) (item # rs)\<rparr>"
        using ih unfolding res by (simp add: np1_def i_def)
      ultimately show ?thesis using ih unfolding n take_Suc_Cons by auto
    qed
  qed
qed

text \<open>
  C10: The loop over the items of a submission takes exactly the first items of the ids not known
  yet, one for each id, as many as the queue has room for beside the requests of the services, the
  active tasks and the reservations of others. It reserves their ids and nothing else, and turns
  every other item down.
\<close>

theorem submit_reserve_exact:
  assumes "submit_reserve pid token items np = Inr (np', taken, refused)"
  shows "taken = take (nat (np_queue_capacity np - node_queue_occupancy np)) (first_of_ids (known_ids np) items) \<and>
    np' = np\<lparr>np_reserved := np_reserved np @ map (strip \<circ> si_task_id) taken\<rparr> \<and> length taken + length refused = length items"
proof -
  have "reserve_items items (node_queue_occupancy np) np = (np', taken, refused)"
    using assms by (auto simp: submit_reserve_def ebind_eq_Inr Let_def split: if_splits)
  then show ?thesis by (rule reserve_items_exact)
qed

definition demo_args :: pool_args where
  "demo_args = \<lparr>pa_owner = ''o'', pa_name = ''n'', pa_sha256 = ''c'', pa_entry_callable = ''run'', pa_workers = 2,
     pa_heartbeat_timeout_sec = 30, pa_token = ''tok'', pa_request_id = ''r'', pa_has_globals = True\<rparr>"

definition demo_item :: "string \<Rightarrow> submit_item" where
  "demo_item i = \<lparr>si_task_id = i, si_timeout_hint_sec = 0, si_priority = 0\<rparr>"

text \<open>A node with one pool and room for two tasks.\<close>

definition demo_pools :: node_pools where
  "demo_pools = (new_node_pools ''inst'' 2 10)\<lparr>np_codes := [''c''],
     np_pools := [(''p'', ready_pool demo_args ''p'' ''c'' 2 0 1 ''inst'')]\<rparr>"

theorem submit_reserve_exact_witness:
  "\<exists>np' refused. submit_reserve ''p'' ''tok'' (map demo_item [''a'', '' a'', ''b'', ''c'']) demo_pools = Inr (np', [demo_item ''a'', demo_item ''b''], refused) \<and>
    np_reserved np' = [''a'', ''b''] \<and> length refused = 2"
proof -
  have "map_sum id (fst \<circ> snd) (submit_reserve ''p'' ''tok'' (map demo_item [''a'', '' a'', ''b'', ''c'']) demo_pools) = Inr [demo_item ''a'', demo_item ''b'']"
    by code_simp
  then obtain np' refused where r:
    "submit_reserve ''p'' ''tok'' (map demo_item [''a'', '' a'', ''b'', ''c'']) demo_pools = Inr (np', [demo_item ''a'', demo_item ''b''], refused)"
    by (cases "submit_reserve ''p'' ''tok'' (map demo_item [''a'', '' a'', ''b'', ''c'']) demo_pools") auto
  have "map (strip \<circ> si_task_id) [demo_item ''a'', demo_item ''b''] = [''a'', ''b'']" by code_simp
  moreover have "np_reserved demo_pools = []" by (simp add: demo_pools_def new_node_pools_def)
  moreover have "np' = demo_pools\<lparr>np_reserved := np_reserved demo_pools @ map (strip \<circ> si_task_id) [demo_item ''a'', demo_item ''b'']\<rparr>"
    and "length [demo_item ''a'', demo_item ''b''] + length refused = length (map demo_item [''a'', '' a'', ''b'', ''c''])"
    using submit_reserve_exact [OF r] by blast+
  ultimately have "np_reserved np' = [''a'', ''b'']" "length refused = 2" by simp_all
  with r show ?thesis by blast
qed

section \<open>Closing a pool\<close>

definition pool_at :: "node_pools \<Rightarrow> string \<Rightarrow> task_pool option" where
  "pool_at np k = dget (np_pools np) k"

text \<open>What signals leave alone in a pool.\<close>

definition pool_core :: "task_pool \<Rightarrow> string \<times> bool \<times> string \<times> instant \<times> string \<times> string" where
  "pool_core p = (tp_status p, tp_executor_ready p, tp_code_version p, tp_lease_expire_at p, tp_token p, tp_token_instance p)"

lemma pool_at_upd: "pool_at (upd_pool pid f np) k = map_option (\<lambda>p. if k = pid then f p else p) (pool_at np k)"
  by (simp add: pool_at_def upd_pool_def dict_simps)

lemma pool_at_frame [simp]:
  "pool_at (np_signals_update f np) k = pool_at np k" "pool_at (np_requests_update g np) k = pool_at np k"
  "pool_at (np_tasks_update a np) k = pool_at np k" "pool_at (np_active_update b np) k = pool_at np k"
  "pool_at (np_hook_update c np) k = pool_at np k" "pool_at (np_host_update d np) k = pool_at np k"
  "pool_at (np_reserved_update e np) k = pool_at np k"
  by (simp_all add: pool_at_def)

lemma signal_pool:
  "map_option (\<lambda>p. (pool_core p, tp_readiness p)) (pool_at (publish_resource_signal kd r ty st rs pl op ot os now np) k) =
   map_option (\<lambda>p. (pool_core p, tp_readiness p)) (pool_at np k)"
  by (cases "pool_at np k") (auto simp: publish_resource_signal_def Let_def pool_at_upd pool_core_def split: prod.split)

lemma progress_pool:
  "map_option (\<lambda>p. (pool_core p, tp_readiness p)) (pool_at (publish_resource_progress r stg st op os now np) k) =
   map_option (\<lambda>p. (pool_core p, tp_readiness p)) (pool_at np k)"
  using signal_pool [of "''task_pool''" r "''progress''" st "[]" "[(''stage'', PStr (strip stg))]" "[]" "[]" "[]" now
      "upd_pool (strip r) (\<lambda>p. p\<lparr>tp_create_stage := strip stg, tp_operation_id := str_or op (tp_operation_id p)\<rparr>) np" k]
  by (cases "pool_at np k") (auto simp: publish_resource_progress_def Let_def pool_at_upd pool_core_def split: if_splits)

lemma fail_pool:
  "pool_at (fail_task_pool_tasks pid reason now np) k = map_option (\<lambda>p. if k = pid \<and> strip pid \<noteq> []
     then p\<lparr>tp_returned_count := tp_returned_count p + int (length (failing pid np))\<rparr> else p) (pool_at np k)"
  by (cases "pool_at np k") (auto simp: fail_task_pool_tasks_def Let_def pool_at_upd)

lemma stop_pool:
  "map_option (\<lambda>p. (pool_core p, tp_readiness p)) (pool_at (fst (stop_task_pool_resource pid reason now np)) k) =
   map_option (\<lambda>p. if k = pid then ((''STOPPED'', False, tp_code_version p, now, tp_token p, tp_token_instance p), ''stopped'') else (pool_core p, tp_readiness p)) (pool_at np k)"
  unfolding stop_task_pool_resource_def Let_def fst_conv signal_pool pool_at_frame fail_pool pool_at_upd
  by (cases "pool_at np k") (auto simp: pool_core_def)

lemma signal_sels:
  "np_tasks (publish_resource_signal kd r ty st rs pl op ot os now np) = np_tasks np"
  "np_hook (publish_resource_signal kd r ty st rs pl op ot os now np) = np_hook np"
  "np_active (publish_resource_signal kd r ty st rs pl op ot os now np) = np_active np"
  by (simp_all add: task_viewD [OF view_signal])

lemma failing_upd: "failing pid (upd_pool k f np) = failing pid np"
  by (simp add: failing_def upd_pool_def)

text \<open>The results of the tasks a stop takes, as the owner gets them.\<close>

definition stop_results :: "string \<Rightarrow> string \<Rightarrow> instant \<Rightarrow> node_pools \<Rightarrow> task_result list" where
  "stop_results pid reason now np = map (\<lambda>t. result_with (stopped_task reason now t) PNone) (failing pid np)"

lemma pushes_queue:
  assumes "int (length (hook_queue c h)) + int (length ts) \<le> rh_limit h"
  shows "map snd (hook_queue c (fold (\<lambda>t h. fst (push_result c (g t) h)) ts h)) = map snd (hook_queue c h) @ map g ts"
  using assms
proof (induction ts arbitrary: h)
  case (Cons t ts)
  let ?h = "fst (push_result c (g t) h)"
  have q: "hook_queue c ?h = hook_queue c h @ [(rh_seq h + 1, g t)]"
    using Cons.prems by (simp add: push_result_def Let_def hook_queue_enqueue)
  have l: "rh_limit ?h = rh_limit h" by (simp add: push_result_def Let_def frame_simps)
  have "map snd (hook_queue c (fold (\<lambda>t h. fst (push_result c (g t) h)) ts ?h)) = map snd (hook_queue c ?h) @ map g ts"
    by (rule Cons.IH) (use Cons.prems in \<open>simp add: q l\<close>)
  then show ?case by (simp add: q)
qed simp

lemma stop_tasks:
  assumes pid: "strip pid = pid" "pid \<noteq> []" and r: "strip reason = reason" "reason \<noteq> []"
  shows "task_at (fst (stop_task_pool_resource pid reason now np)) i =
      map_option (\<lambda>t. if strip (tk_client t) = pid \<and> \<not> settled t then stopped_task reason now t else t) (task_at np i)"
    and "np_hook (fst (stop_task_pool_resource pid reason now np)) =
      fold (\<lambda>t h. fst (push_result pid (result_with (stopped_task reason now t) PNone) h)) (failing pid np) (np_hook np)"
proof -
  let ?f = "\<lambda>p. p\<lparr>tp_executor_ready := False, tp_alive_workers := 0, tp_degraded := False, tp_readiness := ''stopped'',
    tp_readiness_reason := reason, tp_status := ''STOPPED'', tp_stop_reason := reason, tp_failure_at := Some now, tp_lease_expire_at := now\<rparr>"
  have sr: "str_or reason ''task pool stopped'' = reason" using r(2) by (rule str_or_simps(2))
  have rr: "str_or (strip (str_or reason ''owner requested'')) ''owner requested'' = reason" using r by simp
  have "task_view (fst (stop_task_pool_resource pid reason now np)) = task_view (fail_task_pool_tasks pid reason now (upd_pool pid ?f np))"
    by (simp add: stop_task_pool_resource_def rr Let_def views)
  note v = task_viewD(2,5) [OF this]
  show "task_at (fst (stop_task_pool_resource pid reason now np)) i =
      map_option (\<lambda>t. if strip (tk_client t) = pid \<and> \<not> settled t then stopped_task reason now t else t) (task_at np i)"
    using fail_task_at [of pid reason now "upd_pool pid ?f np" i] pid unfolding sr
    by (simp add: task_at_def v) (simp add: upd_pool_def)
  show "np_hook (fst (stop_task_pool_resource pid reason now np)) =
      fold (\<lambda>t h. fst (push_result pid (result_with (stopped_task reason now t) PNone) h)) (failing pid np) (np_hook np)"
    using pid by (simp add: v fail_task_pool_tasks_def Let_def failing_upd sr) (simp add: upd_pool_def failing_def)
qed

lemma close_shape:
  assumes "close_task_pool owner pid token reason now np = Inr (np', tell)"
  obtains p r where "pool_at np (strip pid) = Some p" "strip r = r" "r \<noteq> []" "np' = fst (stop_task_pool_resource (strip pid) r now np)"
proof -
  obtain p where p: "pool_at np (strip pid) = Some p"
    using assms by (auto simp: close_task_pool_def task_pool_of_def pool_at_def split: option.splits)
  define q where "q = (if \<not> pool_is_running p \<and> strip (tp_stop_reason p) \<noteq> [] then strip (tp_stop_reason p)
    else str_or (strip (str_or reason ''owner requested'')) ''owner requested'')"
  have q: "strip q = q" "q \<noteq> []" by (simp_all add: q_def str_or_def) (simp_all add: strip_def strip_by_def py_space_def)
  have "np' = fst (stop_task_pool_resource (strip pid) q now np)"
    using assms p by (auto simp: close_task_pool_def task_pool_of_def pool_at_def ebind_eq_Inr Let_def q_def split: if_splits)
  then show ?thesis using that p q by blast
qed

lemma stopped_pool_refuses:
  assumes "pool_at np (strip pid) = Some p" "tp_status p = ''STOPPED''"
  shows "is_error (submit_reserve pid token items np)"
  using assms by (auto simp: submit_reserve_def task_pool_of_def pool_at_def ebind_def Let_def split: sum.split)


text \<open>Two tasks are submitted to the pool, the first of them is done, then the owner closes the pool.\<close>

definition demo_enc :: encoder where
  "demo_enc mode transport v = Inr v"

definition demo_done :: "string \<Rightarrow> task_done" where
  "demo_done i = \<lparr>td_pool_id = ''p'', td_task_id = i, td_attempt = 1, td_status_text = ''SUCCEEDED'', td_result = Some (PInt 7), td_error_type = [], td_error_message = []\<rparr>"

definition demo_setup :: "pool_event list" where
  "demo_setup = [ECode ''c'', EInstall demo_args ''p'' ''c'' 2 0 1, EReserve ''p'' ''tok'' (map demo_item [''a'', ''b'']),
     ERecord ''p'' ''j'' (demo_item ''a'') (Inr (PNone, ''legacy_v1'', False)) ''l1'' 2,
     ERecord ''p'' ''j'' (demo_item ''b'') (Inr (PNone, ''legacy_v1'', False)) ''l2'' 3]"

definition demo_working :: pool_sys where
  "demo_working = pool_run demo_enc (\<lambda>_. []) demo_setup (new_pool_sys ''inst'' 2 10)"

lemma demo_close:
  "\<not> is_error (close_task_pool ''o'' ''p'' ''tok'' ''done'' 4 (sy_np demo_working))"
  "hook_queue ''p'' (np_hook (sy_np demo_working)) = []" "map tk_id (failing ''p'' (sy_np demo_working)) = [''a'', ''b'']"
  "rh_limit (np_hook (sy_np demo_working)) = 20000"
  by code_simp+


section \<open>Closing while a pool is being created\<close>

text \<open>
  C31: The last section of an asynchronous creation does not look whether the pool was closed while
  its globals were loaded. In any state a history reaches, when the owner has closed the pool and
  the section follows, the pool is running, ready and open again, with a fresh lease.
\<close>

theorem closed_pool_resurrected:
  assumes np: "np = sy_np (pool_run enc missing evs (new_pool_sys inst capacity signals))"
    and closed: "close_task_pool owner pid token reason now np = Inr (np1, tell)"
  shows "\<exists>np2 p. create_ready a (strip pid) workers now' np1 = Inr np2 \<and> dget (np_pools np2) (strip pid) = Some p \<and>
    tp_status p = ''RUNNING'' \<and> tp_readiness p = ''ready'' \<and> tp_executor_ready p \<and> now' < tp_lease_expire_at p"
proof -
  have ok: "np_ok np" using pool_run_ok unfolding np sys_ok_def by blast
  obtain p r where p: "pool_at np (strip pid) = Some p" and np1: "np1 = fst (stop_task_pool_resource (strip pid) r now np)"
    using closed by (rule close_shape)
  have "map_option (\<lambda>p. (pool_core p, tp_readiness p)) (pool_at np1 (strip pid)) \<noteq> None" unfolding np1 stop_pool using p by simp
  then obtain p1 where p1: "pool_at np1 (strip pid) = Some p1" by (cases "pool_at np1 (strip pid)") auto
  define np2 where "np2 = publish_resource_progress (strip pid) ''create_succeeded'' ''succeeded'' (pa_request_id a) ''succeeded'' now'
      (upd_pool (strip pid) (\<lambda>p. mark_resource_ready workers now' (p\<lparr>tp_status := ''RUNNING''\<rparr>)) np1)"
  define np3 where "np3 = publish_resource_readiness (strip pid) ''ready'' [] now' np2"
  have c: "create_ready a (strip pid) workers now' np1 = Inr np3"
    using p1 by (simp add: create_ready_def pool_at_def np2_def np3_def)
  have "map_option (\<lambda>p. (pool_core p, tp_readiness p)) (pool_at np2 (strip pid)) =
      Some ((''RUNNING'', True, tp_code_version p1, now' + of_int (max 1 (tp_heartbeat_timeout_sec p1)), tp_token p1, tp_token_instance p1), ''ready'')"
    unfolding np2_def progress_pool pool_at_upd p1 by (simp add: mark_resource_ready_def refresh_lease_def pool_core_def)
  then obtain p2 where p2: "pool_at np2 (strip pid) = Some p2"
      "pool_core p2 = (''RUNNING'', True, tp_code_version p1, now' + of_int (max 1 (tp_heartbeat_timeout_sec p1)), tp_token p1, tp_token_instance p1)" by auto
  have rd: "str_or (strip ''ready'') ''initializing'' = ''ready''" by code_simp
  have id: "strip (strip pid) = strip pid" by simp
  have "map_option (\<lambda>p. (pool_core p, tp_readiness p)) (pool_at np3 (strip pid)) = Some (pool_core p2, ''ready'')"
    unfolding np3_def publish_resource_readiness_def Let_def signal_pool pool_at_upd id rd p2(1) by (simp add: pool_core_def)
  then obtain p3 where "pool_at np3 (strip pid) = Some p3" "pool_core p3 = pool_core p2" "tp_readiness p3 = ''ready''" by auto
  moreover have "now' < now' + of_int (max 1 (tp_heartbeat_timeout_sec p1))" by simp
  ultimately show ?thesis using c p2(2) by (auto simp: pool_at_def pool_core_def)
qed

definition demo_creating :: pool_sys where
  "demo_creating = pool_run demo_enc (\<lambda>_. []) [ECreate demo_args ''p'' 0, EPrepare demo_args ''p'' 1, EPrepared demo_args ''p'' ''c'' 2,
     EExecutor demo_args ''p'' ''c'' 2] (new_pool_sys ''inst'' 2 10)"

theorem closed_pool_resurrected_witness:
  "\<exists>np1 tell np2 p. close_task_pool ''o'' ''p'' ''tok'' ''changed my mind'' 3 (sy_np demo_creating) = Inr (np1, tell) \<and>
    create_ready demo_args ''p'' 2 4 np1 = Inr np2 \<and> dget (np_pools np2) ''p'' = Some p \<and> tp_status p = ''RUNNING'' \<and> tp_readiness p = ''ready''"
proof -
  have "\<not> is_error (close_task_pool ''o'' ''p'' ''tok'' ''changed my mind'' 3 (sy_np demo_creating))" by code_simp
  then obtain x where "close_task_pool ''o'' ''p'' ''tok'' ''changed my mind'' 3 (sy_np demo_creating) = Inr x" by (rule not_is_errorE)
  then obtain np1 tell where c: "close_task_pool ''o'' ''p'' ''tok'' ''changed my mind'' 3 (sy_np demo_creating) = Inr (np1, tell)" by (metis prod.collapse)
  have p: "strip ''p'' = ''p''" by code_simp
  from closed_pool_resurrected [OF demo_creating_def [THEN arg_cong [of _ _ sy_np]] c, of demo_args 2 4]
  show ?thesis using c unfolding p by blast
qed

section \<open>A submission that a close overtakes\<close>

lemma stop_reserved: "np_reserved (fst (stop_task_pool_resource pid r now np)) = np_reserved np"
proof -
  have "np_reserved (publish_resource_signal k c ty st rs pl op ot os now n) = np_reserved n" for k c ty st rs pl op ot os n
    using task_viewD(4) [OF view_signal] .
  then show ?thesis by (simp add: stop_task_pool_resource_def Let_def fail_task_pool_tasks_def upd_pool_def)
qed

text \<open>
  A task turned down can have a result. When the owner closes a pool between the recording of a
  task and its hand-over to the executor, which then fails, the submission reports the task as
  refused and forgets it, while the owner's queue already holds a result for it; and the id may be
  submitted again.
\<close>

theorem refused_task_has_result:
  assumes np: "np = sy_np (pool_run enc missing evs (new_pool_sys inst capacity signals))"
    and t: "dget (np_tasks np) i = Some t" "\<not> settled t"
    and closed: "close_task_pool owner (tk_client t) token reason now np = Inr (np', tell)"
    and room: "int (length (hook_queue (tk_client t) (np_hook np))) + int (length (failing (tk_client t) np)) \<le> rh_limit (np_hook np)"
  shows "(\<exists>r \<in> set (map snd (hook_queue (tk_client t) (np_hook (submit_undo t np')))). tr_task_id r = i) \<and> i \<notin> known_ids (submit_undo t np')"
proof -
  have ok: "np_ok np" using pool_run_ok unfolding np sys_ok_def by blast
  have at: "task_at np i = Some t" using t(1) by (simp add: task_at_def)
  have tk: "tk_id t = i" "strip (tk_client t) = tk_client t" using ok at by (simp_all add: np_ok_def records_ok_def)
  have free: "i \<notin> set (np_reserved np)" using ok at unfolding np_ok_def reserved_ok_def by force
  obtain p r where p: "pool_at np (strip (tk_client t)) = Some p" and r: "strip r = r" "r \<noteq> []"
      and np': "np' = fst (stop_task_pool_resource (strip (tk_client t)) r now np)"
    using closed by (rule close_shape)
  have id: "strip (tk_client t) = tk_client t" "tk_client t \<noteq> []" using pool_id_here [OF ok p [unfolded pool_at_def]] tk(2) by simp_all
  have np'': "np' = fst (stop_task_pool_resource (tk_client t) r now np)" using np' tk(2) by simp
  note s = stop_tasks [OF id r, of now np]
  have now_at: "dget (np_tasks np') i = Some (stopped_task r now t)" using s(1) [of i] at t(2) tk(2) unfolding np'' task_at_def by simp
  have undo: "submit_undo t np' = np'\<lparr>np_tasks := dpop i (np_tasks np'), np_active := discard_id i (np_active np')\<rparr>"
    using now_at by (simp add: submit_undo_def tk(1) stopped_task_def)
  have "t \<in> set (failing (tk_client t) np)" using failing_ids(1) [OF ok] at t(2) by blast
  moreover have "map snd (hook_queue (tk_client t) (np_hook np')) =
      map snd (hook_queue (tk_client t) (np_hook np)) @ map (\<lambda>t. result_with (stopped_task r now t) PNone) (failing (tk_client t) np)"
    unfolding np'' s(2) using room by (rule pushes_queue)
  ultimately have "result_with (stopped_task r now t) PNone \<in> set (map snd (hook_queue (tk_client t) (np_hook (submit_undo t np'))))"
    unfolding undo by simp
  moreover have "tr_task_id (result_with (stopped_task r now t) PNone) = i" by (simp add: result_with_def stopped_task_def tk(1))
  moreover have "np_reserved np' = np_reserved np" unfolding np'' by (rule stop_reserved)
  then have "i \<notin> known_ids (submit_undo t np')"
    using free by (simp add: known_ids_def undo domIff dict_simps)
  ultimately show ?thesis by blast
qed

theorem refused_task_has_result_witness:
  "\<exists>t np' tell. dget (np_tasks (sy_np demo_working)) ''b'' = Some t \<and>
    close_task_pool ''o'' ''p'' ''tok'' ''done'' 4 (sy_np demo_working) = Inr (np', tell) \<and>
    (\<exists>r \<in> set (map snd (hook_queue ''p'' (np_hook (submit_undo t np')))). tr_task_id r = ''b'')"
proof -
  have "map_option (\<lambda>t. (tk_client t, settled t)) (dget (np_tasks (sy_np demo_working)) ''b'') = Some (''p'', False)" by code_simp
  then obtain t where t: "dget (np_tasks (sy_np demo_working)) ''b'' = Some t" "tk_client t = ''p''" "\<not> settled t" by auto
  obtain x where "close_task_pool ''o'' ''p'' ''tok'' ''done'' 4 (sy_np demo_working) = Inr x" using demo_close(1) by (rule not_is_errorE)
  then obtain np' tell where c: "close_task_pool ''o'' ''p'' ''tok'' ''done'' 4 (sy_np demo_working) = Inr (np', tell)" by (metis prod.collapse)
  have "length (failing ''p'' (sy_np demo_working)) = 2" using demo_close(3) by (metis length_map list.size(3,4) One_nat_def Suc_1 add.right_neutral add_Suc_right)
  then have room: "int (length (hook_queue (tk_client t) (np_hook (sy_np demo_working)))) + int (length (failing (tk_client t) (sy_np demo_working))) \<le> rh_limit (np_hook (sy_np demo_working))"
    unfolding t(2) demo_close(2,4) by simp
  note c' = c [folded t(2)]
  from refused_task_has_result [OF demo_working_def [THEN arg_cong [of _ _ sy_np]] t(1,3), of "''o''" "''tok''" "''done''" 4 np' tell]
  show ?thesis using c t room by auto
qed

section \<open>Cancelling\<close>

text \<open>
  Cancelling a job stops nothing. In every state a history reaches, a cancellation that is
  granted reports no cancelled task, counts the job's unsettled tasks as marked, and changes nothing
  but their cancel flag: no result is pushed, no id is freed, and no pool changes.
\<close>

theorem cancel_marks_only:
  assumes np: "np = sy_np (pool_run enc missing evs (new_pool_sys inst capacity signals))"
    and cancel: "cancel_pool_job pid token job reason now np = Inr (np', cancelled, marked, finished, unknown)"
  shows "cancelled = 0 \<and>
    marked = length (filter (\<lambda>t. tk_client t = strip pid \<and> tk_job t = strip job \<and> \<not> settled t) (dvals (np_tasks np))) \<and>
    np' = np\<lparr>np_tasks := dmap (\<lambda>_ t. if tk_client t = strip pid \<and> tk_job t = strip job \<and> \<not> settled t
      then t\<lparr>tk_cancel_requested := True\<rparr> else t) (np_tasks np)\<rparr>"
proof -
  have ok: "np_ok np" using pool_run_ok unfolding np sys_ok_def by blast
  then have rec: "records_ok np" and wf: "dwf (np_tasks np)" by (simp_all add: np_ok_def records_ok_def)
  define all where "all = dvals (np_tasks np)"
  have nq: "tk_status t \<noteq> TaskQueued" if "t \<in> set all" for t
    using that rec set_dvals [OF wf] unfolding all_def records_ok_def task_at_def by blast
  have live: "tk_status t = TaskRunning \<longleftrightarrow> \<not> settled t" if "t \<in> set all" for t
    using nq [OF that] by (cases "tk_status t") (auto simp: pool_task_is_terminal_status_def)
  define mt where "mt = filter (\<lambda>t. tk_client t = strip pid \<and> tk_job t = strip job) all"
  define q where "q = filter (\<lambda>t. tk_status t = TaskQueued) (filter (\<lambda>t. \<not> settled t) mt)"
  have q: "q = []" using nq by (auto simp: q_def mt_def filter_empty_conv)
  have run: "filter (\<lambda>t. tk_status t = TaskRunning) (filter (\<lambda>t. \<not> settled t) mt) =
      filter (\<lambda>t. tk_client t = strip pid \<and> tk_job t = strip job \<and> \<not> settled t) all"
    unfolding mt_def filter_filter by (rule filter_cong) (use live in auto)
  have one: "cancel_one (strip pid) (strip job) reason now t = (if tk_client t = strip pid \<and> tk_job t = strip job \<and> \<not> settled t
      then t\<lparr>tk_cancel_requested := True\<rparr> else t)" if "t \<in> set all" for t
    using nq [OF that] by (simp add: cancel_one_def)
  have eq: "np' = upd_pool (strip pid) (\<lambda>p. p\<lparr>tp_returned_count := tp_returned_count p + int (length q)\<rparr>)
      (np\<lparr>np_tasks := dmap (\<lambda>_. cancel_one (strip pid) (strip job) reason now) (np_tasks np),
          np_active := fold (\<lambda>t. discard_id (strip (tk_id t))) q (np_active np),
          np_hook := fold (\<lambda>t h. fst (push_result (strip pid) (result_with (cancel_one (strip pid) (strip job) reason now t) PNone) h)) q (np_hook np)\<rparr>)"
    and counts: "cancelled = length q" "marked = length (filter (\<lambda>t. tk_status t = TaskRunning) (filter (\<lambda>t. \<not> settled t) mt))"
    using cancel by (auto simp: cancel_pool_job_def ebind_eq_Inr Let_def q_def mt_def all_def split: if_splits)
  have pools: "np_pools (upd_pool (strip pid) (\<lambda>p. p\<lparr>tp_returned_count := tp_returned_count p + int (length [])\<rparr>) n) = np_pools n" for n
    by (simp add: upd_pool_def dmap_def case_prod_unfold)
  have tasks: "dmap (\<lambda>_. cancel_one (strip pid) (strip job) reason now) (np_tasks np) = dmap (\<lambda>_ t. if tk_client t = strip pid \<and> tk_job t = strip job \<and> \<not> settled t
      then t\<lparr>tk_cancel_requested := True\<rparr> else t) (np_tasks np)"
  proof -
    have "cancel_one (strip pid) (strip job) reason now (snd x) = (if tk_client (snd x) = strip pid \<and> tk_job (snd x) = strip job \<and> \<not> settled (snd x)
      then (snd x)\<lparr>tk_cancel_requested := True\<rparr> else snd x)" if "x \<in> set (np_tasks np)" for x
      by (rule one) (use that in \<open>force simp: all_def dvals_def\<close>)
    then show ?thesis unfolding dmap_def by (intro map_cong refl) (simp add: case_prod_unfold)
  qed
  show ?thesis
  proof (intro conjI)
    show "cancelled = 0" using counts q by simp
    show "marked = length (filter (\<lambda>t. tk_client t = strip pid \<and> tk_job t = strip job \<and> \<not> settled t) (dvals (np_tasks np)))"
      unfolding counts run all_def ..
    show "np' = np\<lparr>np_tasks := dmap (\<lambda>_ t. if tk_client t = strip pid \<and> tk_job t = strip job \<and> \<not> settled t
      then t\<lparr>tk_cancel_requested := True\<rparr> else t) (np_tasks np)\<rparr>"
      unfolding eq q tasks using pools by (simp add: upd_pool_def)
  qed
qed

theorem cancel_marks_only_witness:
  "\<exists>np'. cancel_pool_job ''p'' ''tok'' ''j'' [] 5 (sy_np demo_working) = Inr (np', 0, 2, 0, 0) \<and> np_active np' = [''a'', ''b'']"
proof -
  have "map_sum id snd (cancel_pool_job ''p'' ''tok'' ''j'' [] 5 (sy_np demo_working)) = Inr (0, 2, 0, 0)" by code_simp
  then obtain np' where c: "cancel_pool_job ''p'' ''tok'' ''j'' [] 5 (sy_np demo_working) = Inr (np', 0, 2, 0, 0)"
    by (cases "cancel_pool_job ''p'' ''tok'' ''j'' [] 5 (sy_np demo_working)") auto
  have "np_active (sy_np demo_working) = [''a'', ''b'']" by code_simp
  then have "np_active np' = [''a'', ''b'']" using cancel_marks_only [OF demo_working_def [THEN arg_cong [of _ _ sy_np]] c] by simp
  with c show ?thesis by blast
qed

end
