(* ===== verification/Ledger.thy ===== *)
theory Ledger
  imports Prelude "HOL-Library.Multiset"
begin

text \<open>
  Conservation laws of event driven components. What a component took on stands in a table until it
  is handed back; the sum over the table and what was handed back grows by what each event brings.
\<close>

section \<open>Sums over a table\<close>

definition tally :: "('v \<Rightarrow> 'a multiset) \<Rightarrow> ('k, 'v) dict \<Rightarrow> 'a multiset" where
  "tally g d = sum_list (map g (dvals d))"

lemma tally_Nil [simp]: "tally g [] = {#}"
  by (simp add: tally_def dvals_def)

lemma tally_Cons [simp]: "tally g ((k, v) # d) = g v + tally g d"
  by (simp add: tally_def dvals_def)

lemma tally_dpop:
  assumes "dwf d" "dget d k = Some v"
  shows "tally g d = g v + tally g (dpop k d)"
  using assms
proof (induction d)
  case (Cons p d)
  obtain k' v' where p: "p = (k', v')" by (cases p)
  show ?case
  proof (cases "k' = k")
    case True
    then have "k \<notin> fst ` set d" using Cons.prems by (simp add: dwf_def p)
    then have "dpop k d = d" unfolding AList.delete_eq by (force simp: filter_id_conv)
    then show ?thesis using True Cons.prems by (simp add: p)
  next
    case False
    then have "dwf d" "dget d k = Some v" using Cons.prems by (simp_all add: dwf_def p)
    then show ?thesis using Cons.IH False by (simp add: p add.left_commute)
  qed
qed simp

lemma tally_dset_new: "dget d k = None \<Longrightarrow> tally g (dset k v d) = tally g d + g v"
proof (induction d)
  case (Cons p d)
  then show ?case by (cases p) (auto simp: add.assoc split: if_splits)
qed simp

lemma tally_dset:
  assumes "dwf d" "dget d k = Some u" "g u = g v"
  shows "tally g (dset k v d) = tally g d"
  using assms
proof (induction d)
  case (Cons p d)
  then show ?case by (cases p) (auto simp: dwf_def split: if_splits)
qed simp

section \<open>Ledgers\<close>

text \<open>What the events of a history bring, each at the state it meets.\<close>

fun total_taken :: "('e \<Rightarrow> 's \<Rightarrow> 's) \<Rightarrow> ('e \<Rightarrow> 's \<Rightarrow> 'a multiset) \<Rightarrow> 'e list \<Rightarrow> 's \<Rightarrow> 'a multiset" where
  "total_taken step taken [] s = {#}"
| "total_taken step taken (e # es) s = taken e s + total_taken step taken es (step e s)"

locale ledger =
  fixes step :: "'e \<Rightarrow> 's \<Rightarrow> 's"
    and good :: "'s \<Rightarrow> bool"
    and books :: "'s \<Rightarrow> 'a multiset"
    and taken :: "'e \<Rightarrow> 's \<Rightarrow> 'a multiset"
  assumes good_step: "good s \<Longrightarrow> good (step e s)"
    and balanced: "good s \<Longrightarrow> books (step e s) = books s + taken e s"
begin

lemma good_run: "good s \<Longrightarrow> good (fold step es s)"
  by (induction es arbitrary: s) (auto intro: good_step)

lemma run_balanced: "good s \<Longrightarrow> books (fold step es s) = books s + total_taken step taken es s"
  by (induction es arbitrary: s) (auto simp: balanced good_step add.assoc)

end

end
