(* ===== verification/ExecutorCore.thy ===== *)
theory ExecutorCore
  imports Ledger
begin

text \<open>
  The executor core of a node (controlplane/executor_core.py): the process pools of services, task
  pools and runtimes, the calls in flight on them, and what it reports to its host. The process
  pools belong to the standard library: that a submission or the start of a pool raises, and what a
  submitted call comes to, are answers of the environment. Keys tell the three scopes apart, so one
  table stands for \<open>_service_executors\<close>, \<open>_pool_executors\<close> and \<open>_task_executor\<close>.
\<close>

section \<open>State\<close>

record exec_failure =
  fl_broken :: bool
  fl_repr :: string

datatype exec_key = ServiceKey string | PoolKey string | TaskKey

record executor_pool =
  ex_id :: nat
  ex_workers :: int

datatype call_kind =
    ServiceCall string string
  | PoolCall string string int
  | RuntimeCall string string int

record call_meta =
  cm_kind :: call_kind
  cm_spec :: string
  cm_start :: instant
  cm_timeout :: rat
  cm_recoveries :: nat
  cm_stream :: "nat option"
  cm_emitted :: int

record run_result =
  rr_status :: string
  rr_value :: pyval
  rr_err_type :: string
  rr_err_message :: string

datatype call_outcome = Returned run_result | Failed exec_failure

text \<open>An item of a stream has an index of its own or none; anything else in the queue is skipped.\<close>

datatype stream_item = StreamValue "int option" pyval | StreamJunk

datatype reply =
    ReplyOk
  | ReplyError string
  | ReplyTimeout
  | ReplyStopped nat
  | ReplySubmitted int
  | ReplyPrepared pyval
  | ReplyResult run_result

datatype emission =
    Reply string reply
  | PoolTaskDone string string int run_result
  | RuntimeTaskDone string string int run_result
  | StreamItem string int pyval
  | WorkerPids exec_key "int list"
  | Rebuilt exec_key nat

record exec_core =
  xc_capacity :: int
  xc_workers :: "(exec_key, int) dict"
  xc_executors :: "(exec_key, executor_pool) dict"
  xc_shut :: "nat list"
  xc_inflight :: "(nat, call_meta) dict"
  xc_completed :: "nat list"
  xc_results :: "(nat, call_outcome) dict"
  xc_streams :: "(nat, call_meta) dict"
  xc_queues :: "(nat, stream_item list) dict"
  xc_futures :: nat
  xc_submits :: nat
  xc_created :: nat
  xc_out :: "emission list"

definition new_exec_core :: "int \<Rightarrow> exec_core" where
  "new_exec_core capacity =
    \<lparr>xc_capacity = max 1 (num_or capacity 1), xc_workers = [], xc_executors = [], xc_shut = [], xc_inflight = [], xc_completed = [],
     xc_results = [], xc_streams = [], xc_queues = [], xc_futures = 0, xc_submits = 0, xc_created = 0, xc_out = []\<rparr>"

text \<open>
  The answers of the environment: whether the n-th submission raises on a given executor, whether
  the n-th start of a process pool raises, whether falling back to spawned workers is allowed, and
  the process ids of an executor.
\<close>

record exec_env =
  ee_submit :: "nat \<Rightarrow> nat \<Rightarrow> exec_failure option"
  ee_start :: "nat \<Rightarrow> exec_failure option"
  ee_fallback :: bool
  ee_pids :: "nat \<Rightarrow> nat \<Rightarrow> int list"

definition emit :: "emission \<Rightarrow> exec_core \<Rightarrow> exec_core" where
  "emit e st = st\<lparr>xc_out := xc_out st @ [e]\<rparr>"

definition is_recoverable_pool_error :: "exec_failure \<Rightarrow> bool" where
  "is_recoverable_pool_error f \<longleftrightarrow> fl_broken f \<or>
    contains ''terminated abruptly while the future was running or pending'' (fl_repr f) \<or> contains ''BrokenProcessPool'' (fl_repr f)"

section \<open>Process pools\<close>

text \<open>
  The start method of the workers, from the requested one, the kind of the parent process, whether
  this is Windows and the methods the platform has.
\<close>

definition select_mp_context :: "string \<Rightarrow> string \<Rightarrow> bool \<Rightarrow> string list \<Rightarrow> bool \<Rightarrow> py_error + string" where
  "select_mp_context requested0 parent0 nt available allow_fork =
    (let requested = lower (strip requested0); parent = lower (strip parent0)
     in if requested = ''fork'' \<and> ''fork'' \<notin> set available then Inr ''spawn''
        else if requested \<noteq> [] then
          if requested \<notin> set available then Inl (ValueError ''PYCLOUD_WORKER_START_METHOD must be one of'')
          else if requested = ''fork'' \<and> \<not> allow_fork then Inr ''spawn''
          else if requested = ''fork'' \<and> parent \<noteq> ''executor_host'' then Inr ''spawn''
          else Inr requested
        else if allow_fork \<and> \<not> nt \<and> parent = ''executor_host'' \<and> ''fork'' \<in> set available then Inr ''fork''
        else Inr ''spawn'')"

definition should_fallback_to_spawn :: "string \<Rightarrow> string \<Rightarrow> bool \<Rightarrow> string list \<Rightarrow> bool" where
  "should_fallback_to_spawn requested0 parent0 nt available =
    (let requested = lower (strip requested0); parent = lower (strip parent0)
     in if requested \<noteq> [] \<and> requested \<noteq> ''fork'' then False
        else \<not> nt \<and> parent = ''executor_host'' \<and> ''fork'' \<in> set available)"

text \<open>Falling back makes a difference: the first attempt forks, the second one spawns.\<close>

lemma fallback_forked:
  assumes "should_fallback_to_spawn requested parent nt available"
  shows "select_mp_context requested parent nt available True = Inr ''fork''"
    and "select_mp_context requested parent nt available False = Inr ''spawn''"
  using assms by (auto simp: should_fallback_to_spawn_def select_mp_context_def Let_def split: if_splits)

definition new_process_pool :: "exec_env \<Rightarrow> int \<Rightarrow> bool \<Rightarrow> exec_core \<Rightarrow> exec_core \<times> (exec_failure + executor_pool)" where
  "new_process_pool env workers force_spawn st =
    (let n = xc_created st; st1 = st\<lparr>xc_created := n + 1\<rparr>
     in case ee_start env n of
          None \<Rightarrow> (st1, Inr \<lparr>ex_id = n, ex_workers = workers\<rparr>)
        | Some e \<Rightarrow>
            if \<not> force_spawn \<and> ee_fallback env
            then let st2 = st1\<lparr>xc_created := n + 2\<rparr>
                 in (case ee_start env (n + 1) of
                       None \<Rightarrow> (st2, Inr \<lparr>ex_id = n + 1, ex_workers = workers\<rparr>)
                     | Some e' \<Rightarrow> (st2, Inl e'))
            else (st1, Inl e))"

definition key_workers :: "exec_core \<Rightarrow> exec_key \<Rightarrow> int" where
  "key_workers st key = (if key = TaskKey then xc_capacity st else max 1 (num_or (dget_or (xc_workers st) key 1) 1))"

definition shutdown_executor :: "executor_pool option \<Rightarrow> exec_core \<Rightarrow> exec_core" where
  "shutdown_executor x st = (case x of None \<Rightarrow> st | Some p \<Rightarrow> st\<lparr>xc_shut := xc_shut st @ [ex_id p]\<rparr>)"

definition rebuild_executor :: "exec_env \<Rightarrow> exec_key \<Rightarrow> bool \<Rightarrow> exec_core \<Rightarrow> exec_core \<times> (exec_failure + executor_pool)" where
  "rebuild_executor env key force_spawn st =
    (let st1 = shutdown_executor (dget (xc_executors st) key) (st\<lparr>xc_executors := dpop key (xc_executors st)\<rparr>)
     in case new_process_pool env (key_workers st key) force_spawn st1 of
          (st2, Inl e) \<Rightarrow> (st2, Inl e)
        | (st2, Inr x) \<Rightarrow> (st2\<lparr>xc_executors := dset key x (xc_executors st2)\<rparr>, Inr x))"

definition submit_callable :: "exec_env \<Rightarrow> executor_pool \<Rightarrow> exec_core \<Rightarrow> exec_core \<times> (exec_failure + nat)" where
  "submit_callable env x st =
    (let st1 = st\<lparr>xc_submits := xc_submits st + 1\<rparr>
     in case ee_submit env (xc_submits st) (ex_id x) of
          Some e \<Rightarrow> (st1, Inl e)
        | None \<Rightarrow> (st1\<lparr>xc_futures := xc_futures st + 1\<rparr>, Inr (xc_futures st)))"

definition submit_with_spawn_fallback ::
    "exec_env \<Rightarrow> exec_key \<Rightarrow> executor_pool \<Rightarrow> exec_core \<Rightarrow> exec_core \<times> (exec_failure + nat \<times> executor_pool)" where
  "submit_with_spawn_fallback env key x st =
    (case submit_callable env x st of
       (st1, Inr f) \<Rightarrow> (st1, Inr (f, x))
     | (st1, Inl e) \<Rightarrow>
         if \<not> ee_fallback env then (st1, Inl e)
         else (case rebuild_executor env key True st1 of
             (st2, Inl e') \<Rightarrow> (st2, Inl e')
           | (st2, Inr y) \<Rightarrow>
               (case submit_callable env y st2 of
                  (st3, Inl e') \<Rightarrow> (st3, Inl e')
                | (st3, Inr f) \<Rightarrow> (st3, Inr (f, y)))))"

definition emit_executor_workers :: "exec_env \<Rightarrow> exec_key \<Rightarrow> executor_pool \<Rightarrow> exec_core \<Rightarrow> exec_core" where
  "emit_executor_workers env key x st =
    (let pids = filter (\<lambda>p. 0 < p) (ee_pids env (xc_submits st) (ex_id x))
     in if pids = [] then st else emit (WorkerPids key pids) st)"

definition missing_error :: "exec_key \<Rightarrow> exec_failure" where
  "missing_error key = \<lparr>fl_broken = False,
    fl_repr = (case key of PoolKey _ \<Rightarrow> ''RuntimeError(task pool missing)'' | _ \<Rightarrow> ''RuntimeError(service executor missing)'')\<rparr>"

text \<open>The executor of a key, created again when its key is known.\<close>

definition ensure_executor :: "exec_env \<Rightarrow> exec_key \<Rightarrow> exec_core \<Rightarrow> exec_core \<times> (exec_failure + executor_pool)" where
  "ensure_executor env key st =
    (case dget (xc_executors st) key of
       Some x \<Rightarrow> (st, Inr x)
     | None \<Rightarrow> if key = TaskKey \<or> dget (xc_workers st) key \<noteq> None then rebuild_executor env key False st
         else (st, Inl (missing_error key)))"

definition submit_tracked :: "exec_env \<Rightarrow> exec_key \<Rightarrow> executor_pool \<Rightarrow> exec_core \<Rightarrow> exec_core \<times> (exec_failure + nat)" where
  "submit_tracked env key x st =
    (case submit_with_spawn_fallback env key x st of
       (st1, Inl e) \<Rightarrow> (st1, Inl e)
     | (st1, Inr (f, y)) \<Rightarrow> (emit_executor_workers env key y st1, Inr f))"

definition submit_future :: "exec_env \<Rightarrow> exec_key \<Rightarrow> exec_core \<Rightarrow> exec_core \<times> (exec_failure + nat)" where
  "submit_future env key st =
    (case ensure_executor env key st of
       (st1, Inl e) \<Rightarrow> (st1, Inl e)
     | (st1, Inr x) \<Rightarrow>
         (case submit_tracked env key x st1 of
            (st2, Inr f) \<Rightarrow> (st2, Inr f)
          | (st2, Inl e) \<Rightarrow>
              if \<not> is_recoverable_pool_error e then (st2, Inl e)
              else (case rebuild_executor env key False st2 of
                  (st3, Inl e') \<Rightarrow> (st3, Inl e')
                | (st3, Inr y) \<Rightarrow> submit_tracked env key y st3)))"

section \<open>Calls in flight\<close>

definition track_inflight :: "nat \<Rightarrow> call_meta \<Rightarrow> exec_core \<Rightarrow> exec_core" where
  "track_inflight f m st =
    st\<lparr>xc_inflight := dset f m (xc_inflight st),
       xc_streams := (if cm_stream m \<noteq> None then dset f m (xc_streams st) else xc_streams st)\<rparr>"

definition cleanup_stream_state :: "call_meta \<Rightarrow> exec_core \<Rightarrow> exec_core" where
  "cleanup_stream_state m st = (case cm_stream m of None \<Rightarrow> st | Some q \<Rightarrow> st\<lparr>xc_queues := dpop q (xc_queues st)\<rparr>)"

definition is_service_call :: "string \<Rightarrow> call_meta \<Rightarrow> bool" where
  "is_service_call sid m \<longleftrightarrow> (case cm_kind m of ServiceCall s _ \<Rightarrow> s = strip sid | _ \<Rightarrow> False)"

definition is_pool_call :: "string \<Rightarrow> call_meta \<Rightarrow> bool" where
  "is_pool_call pid m \<longleftrightarrow> (case cm_kind m of PoolCall p _ _ \<Rightarrow> p = strip pid | _ \<Rightarrow> False)"

definition infra_result :: "string \<Rightarrow> string \<Rightarrow> run_result" where
  "infra_result err_type message = \<lparr>rr_status = ''FAILED_INFRA'', rr_value = PNone, rr_err_type = err_type, rr_err_message = message\<rparr>"

text \<open>A cancelled future completes and is ignored later, since it is in flight no more.\<close>

definition fail_service_call :: "string \<Rightarrow> nat \<times> call_meta \<Rightarrow> exec_core \<Rightarrow> exec_core" where
  "fail_service_call reason = (\<lambda>(f, m) st.
    case cm_kind m of
      ServiceCall _ rid \<Rightarrow>
        emit (Reply rid (ReplyResult (infra_result ''ServiceStopped'' (str_or reason ''service stopped''))))
          (cleanup_stream_state m (st\<lparr>xc_inflight := dpop f (xc_inflight st),
            xc_streams := (if cm_stream m \<noteq> None then dpop f (xc_streams st) else xc_streams st)\<rparr>))
    | _ \<Rightarrow> st)"

definition fail_service_inflight :: "string \<Rightarrow> string \<Rightarrow> exec_core \<Rightarrow> exec_core \<times> nat" where
  "fail_service_inflight sid reason st =
    (let fs = filter (\<lambda>(_, m). is_service_call sid m) (xc_inflight st) in (fold (fail_service_call reason) fs st, length fs))"

definition fail_pool_call :: "string \<Rightarrow> nat \<times> call_meta \<Rightarrow> exec_core \<Rightarrow> exec_core" where
  "fail_pool_call reason = (\<lambda>(f, m) st.
    case cm_kind m of
      PoolCall p t a \<Rightarrow>
        emit (PoolTaskDone p t a (infra_result ''TaskPoolStopped'' (str_or reason ''task pool stopped'')))
          (st\<lparr>xc_inflight := dpop f (xc_inflight st)\<rparr>)
    | _ \<Rightarrow> st)"

definition fail_pool_inflight :: "string \<Rightarrow> string \<Rightarrow> exec_core \<Rightarrow> exec_core \<times> nat" where
  "fail_pool_inflight pid reason st =
    (let fs = filter (\<lambda>(_, m). is_pool_call pid m) (xc_inflight st) in (fold (fail_pool_call reason) fs st, length fs))"

section \<open>Streams\<close>

fun emit_stream_items :: "string \<Rightarrow> int \<Rightarrow> stream_item list \<Rightarrow> exec_core \<Rightarrow> exec_core \<times> int" where
  "emit_stream_items rid n [] st = (st, n)"
| "emit_stream_items rid n (StreamJunk # items) st = emit_stream_items rid n items st"
| "emit_stream_items rid n (StreamValue i v # items) st =
    emit_stream_items rid (n + 1) items (emit (StreamItem rid (num_or (case i of None \<Rightarrow> n | Some k \<Rightarrow> k) n) v) st)"

definition stream_request :: "call_meta \<Rightarrow> string" where
  "stream_request m = (case cm_kind m of ServiceCall _ rid \<Rightarrow> rid | _ \<Rightarrow> [])"

text \<open>At most 32 items a time. The count of emitted items is a field of the shared record of the call.\<close>

definition set_emitted :: "nat \<Rightarrow> int \<Rightarrow> exec_core \<Rightarrow> exec_core" where
  "set_emitted f n st =
    st\<lparr>xc_inflight := dmap (\<lambda>k m. if k = f then m\<lparr>cm_emitted := n\<rparr> else m) (xc_inflight st),
       xc_streams := dmap (\<lambda>k m. if k = f then m\<lparr>cm_emitted := n\<rparr> else m) (xc_streams st)\<rparr>"

definition drain_stream_meta :: "nat \<Rightarrow> call_meta \<Rightarrow> exec_core \<Rightarrow> exec_core" where
  "drain_stream_meta f m st =
    (let rid = stream_request m
     in if rid = [] then st
        else case cm_stream m of
          None \<Rightarrow> st
        | Some q \<Rightarrow>
            let items = dget_or (xc_queues st) q [];
                st1 = (if dget (xc_queues st) q = None then st else st\<lparr>xc_queues := dset q (drop 32 items) (xc_queues st)\<rparr>)
            in (case emit_stream_items rid (cm_emitted m) (take 32 items) st1 of (st2, n) \<Rightarrow> set_emitted f n st2))"

definition drain_stream_queues :: "exec_core \<Rightarrow> exec_core" where
  "drain_stream_queues st = fold (\<lambda>(f, m). drain_stream_meta f m) (xc_streams st) st"

section \<open>Requests\<close>

datatype core_request =
    PrepareArtifact pyval
  | CreateService string int
  | StopService string string
  | CreatePool string int
  | StopPool string string
  | CallService string string rat
  | CallServiceStream string string rat
  | WarmupService string int
  | SubmitRuntime string string int string
  | WarmupRuntime string int
  | SubmitPool string string int string
  | WarmupPool string int
  | Shutdown
  | UnknownAction string

text \<open>The warm-up calls of one request; what they come to is only logged. Preloading is the same.\<close>

fun submit_background :: "exec_env \<Rightarrow> exec_key \<Rightarrow> nat \<Rightarrow> executor_pool \<Rightarrow> exec_core \<Rightarrow> exec_core \<times> (exec_failure + executor_pool)" where
  "submit_background env key 0 x st = (st, Inr x)"
| "submit_background env key (Suc n) x st =
    (case submit_with_spawn_fallback env key x st of
       (st1, Inl e) \<Rightarrow> (st1, Inl e)
     | (st1, Inr (_, y)) \<Rightarrow> submit_background env key n y st1)"

definition background_calls :: "exec_env \<Rightarrow> string \<Rightarrow> exec_key \<Rightarrow> int \<Rightarrow> exec_core \<Rightarrow> exec_core" where
  "background_calls env rid key fanout0 st =
    (let fanout = max 1 (num_or fanout0 1)
     in if dget (xc_executors st) key = None \<and> key \<noteq> TaskKey \<and> dget (xc_workers st) key = None
        then emit (Reply rid (ReplyError (case key of PoolKey _ \<Rightarrow> ''task pool missing'' | _ \<Rightarrow> ''service executor missing''))) st
        else case ensure_executor env key st of
          (st1, Inl e) \<Rightarrow> emit (Reply rid (ReplyError (fl_repr e))) st1
        | (st1, Inr x) \<Rightarrow>
            (case submit_background env key (nat fanout) x st1 of
               (st2, Inl e) \<Rightarrow> emit (Reply rid (ReplyError (fl_repr e))) st2
             | (st2, Inr y) \<Rightarrow> emit (Reply rid (ReplySubmitted fanout)) (emit_executor_workers env key y st2)))"

definition create_executor_for :: "exec_env \<Rightarrow> string \<Rightarrow> exec_key \<Rightarrow> int \<Rightarrow> exec_core \<Rightarrow> exec_core" where
  "create_executor_for env rid key workers st =
    (case rebuild_executor env key False (st\<lparr>xc_workers := dset key (max 1 (num_or workers 1)) (xc_workers st)\<rparr>) of
       (st1, Inl e) \<Rightarrow> emit (Reply rid (ReplyError (fl_repr e))) st1
     | (st1, Inr _) \<Rightarrow> emit (Reply rid ReplyOk) st1)"

definition forget_executor :: "exec_key \<Rightarrow> exec_core \<Rightarrow> exec_core" where
  "forget_executor key st = st\<lparr>xc_executors := dpop key (xc_executors st), xc_workers := dpop key (xc_workers st)\<rparr>"

definition call_timeout :: "rat \<Rightarrow> rat" where
  "call_timeout t = max (1 / 10) (num_or t 60)"

text \<open>A streaming call gets a queue of its own, named by the number of submissions so far.\<close>

definition call_service :: "exec_env \<Rightarrow> string \<Rightarrow> string \<Rightarrow> string \<Rightarrow> rat \<Rightarrow> bool \<Rightarrow> instant \<Rightarrow> exec_core \<Rightarrow> exec_core" where
  "call_service env rid sid spec timeout streaming now st =
    (let key = ServiceKey sid; q = xc_submits st
     in if dget (xc_workers st) key = None then emit (Reply rid (ReplyError ''service executor missing'')) st
        else case submit_future env key (if streaming then st\<lparr>xc_queues := dset q [] (xc_queues st)\<rparr> else st) of
          (st1, Inl e) \<Rightarrow> emit (Reply rid (ReplyError (fl_repr e))) st1
        | (st1, Inr f) \<Rightarrow> track_inflight f \<lparr>cm_kind = ServiceCall sid rid, cm_spec = spec, cm_start = now, cm_timeout = call_timeout timeout,
            cm_recoveries = 0, cm_stream = (if streaming then Some q else None), cm_emitted = 0\<rparr> st1)"

definition task_meta :: "call_kind \<Rightarrow> string \<Rightarrow> instant \<Rightarrow> call_meta" where
  "task_meta kind spec now = \<lparr>cm_kind = kind, cm_spec = spec, cm_start = now, cm_timeout = 60, cm_recoveries = 0, cm_stream = None, cm_emitted = 0\<rparr>"

definition submit_task :: "exec_env \<Rightarrow> string \<Rightarrow> exec_key \<Rightarrow> call_meta \<Rightarrow> exec_core \<Rightarrow> exec_core" where
  "submit_task env rid key m st =
    (case submit_future env key st of
       (st1, Inl e) \<Rightarrow> emit (Reply rid (ReplyError (fl_repr e))) st1
     | (st1, Inr f) \<Rightarrow> emit (Reply rid ReplyOk) (track_inflight f m st1))"

fun handle_request :: "exec_env \<Rightarrow> instant \<Rightarrow> string \<Rightarrow> core_request \<Rightarrow> exec_core \<Rightarrow> exec_core \<times> bool" where
  "handle_request env now rid Shutdown st = (emit (Reply rid ReplyOk) st, False)"
| "handle_request env now rid (PrepareArtifact prepared) st = (emit (Reply rid (ReplyPrepared prepared)) st, True)"
| "handle_request env now rid (CreateService sid workers) st = (create_executor_for env rid (ServiceKey sid) workers st, True)"
| "handle_request env now rid (StopService sid reason) st =
    (case fail_service_inflight sid (str_or reason ''service stopped'') (forget_executor (ServiceKey sid) st) of
       (st1, n) \<Rightarrow> (emit (Reply rid (ReplyStopped n)) (shutdown_executor (dget (xc_executors st) (ServiceKey sid)) st1), True))"
| "handle_request env now rid (CreatePool pid workers) st = (create_executor_for env rid (PoolKey pid) workers st, True)"
| "handle_request env now rid (StopPool pid reason) st =
    (case fail_pool_inflight pid (str_or reason ''task pool stopped'') (forget_executor (PoolKey pid) st) of
       (st1, n) \<Rightarrow> (emit (Reply rid (ReplyStopped n)) (shutdown_executor (dget (xc_executors st) (PoolKey pid)) st1), True))"
| "handle_request env now rid (CallService sid spec timeout) st = (call_service env rid sid spec timeout False now st, True)"
| "handle_request env now rid (CallServiceStream sid spec timeout) st = (call_service env rid sid spec timeout True now st, True)"
| "handle_request env now rid (WarmupService sid fanout) st = (background_calls env rid (ServiceKey sid) fanout st, True)"
| "handle_request env now rid (SubmitRuntime key task attempt spec) st =
    (submit_task env rid TaskKey (task_meta (RuntimeCall key task attempt) spec now) st, True)"
| "handle_request env now rid (WarmupRuntime key fanout) st = (background_calls env rid TaskKey fanout st, True)"
| "handle_request env now rid (SubmitPool pid task attempt spec) st =
    (if dget (xc_workers st) (PoolKey pid) = None then emit (Reply rid (ReplyError ''task pool missing'')) st
     else submit_task env rid (PoolKey pid) (task_meta (PoolCall pid task attempt) spec now) st, True)"
| "handle_request env now rid (WarmupPool pid fanout) st = (background_calls env rid (PoolKey pid) fanout st, True)"
| "handle_request env now rid (UnknownAction action) st = (emit (Reply rid (ReplyError (''unknown action: '' @ action))) st, True)"

section \<open>Polling\<close>

definition call_key :: "call_kind \<Rightarrow> exec_key" where
  "call_key kind = (case kind of ServiceCall sid _ \<Rightarrow> ServiceKey sid | PoolCall pid _ _ \<Rightarrow> PoolKey pid | RuntimeCall _ _ _ \<Rightarrow> TaskKey)"

text \<open>A call that failed with its process pool is submitted once more; \<open>None\<close> means that it was.\<close>

definition recover_or_fail_future :: "exec_env \<Rightarrow> exec_failure \<Rightarrow> call_meta \<Rightarrow> exec_core \<Rightarrow> exec_core \<times> run_result option" where
  "recover_or_fail_future env e m st =
    (let give_up = (\<lambda>st. (cleanup_stream_state m st, Some (infra_result ''InfraException'' (fl_repr e))))
     in if is_recoverable_pool_error e \<and> cm_recoveries m < 1
        then (case submit_future env (call_key (cm_kind m)) st of
            (st1, Inl _) \<Rightarrow> give_up st1
          | (st1, Inr f) \<Rightarrow>
              let st2 = (if call_key (cm_kind m) = TaskKey then st1 else emit (Rebuilt (call_key (cm_kind m)) (cm_recoveries m + 1)) st1)
              in (track_inflight f (m\<lparr>cm_recoveries := cm_recoveries m + 1\<rparr>) st2, None))
        else give_up st)"

definition report_done :: "nat \<Rightarrow> call_meta \<Rightarrow> run_result \<Rightarrow> exec_core \<Rightarrow> exec_core" where
  "report_done f m r st0 =
    (let st = (if cm_stream m \<noteq> None then drain_stream_meta f m st0 else st0)
     in case cm_kind m of
          PoolCall p t a \<Rightarrow> emit (PoolTaskDone p t a r) st
        | RuntimeCall k t a \<Rightarrow> emit (RuntimeTaskDone k t a r) st
        | ServiceCall _ rid \<Rightarrow> emit (Reply rid (ReplyResult r))
            (if cm_stream m \<noteq> None then cleanup_stream_state m (st\<lparr>xc_streams := dpop f (xc_streams st)\<rparr>) else st))"

definition finish_future :: "exec_env \<Rightarrow> nat \<Rightarrow> exec_core \<Rightarrow> exec_core" where
  "finish_future env f st =
    (case dget (xc_inflight st) f of
       None \<Rightarrow> st
     | Some m \<Rightarrow>
         let st1 = st\<lparr>xc_inflight := dpop f (xc_inflight st)\<rparr>
         in case dget (xc_results st) f of
              None \<Rightarrow> st
            | Some (Returned r) \<Rightarrow> report_done f m r st1
            | Some (Failed e) \<Rightarrow>
                (case recover_or_fail_future env e m (if cm_stream m \<noteq> None then st1\<lparr>xc_streams := dpop f (xc_streams st1)\<rparr> else st1) of
                   (st2, None) \<Rightarrow> st2
                 | (st2, Some r) \<Rightarrow> report_done f m r st2))"

text \<open>Futures that complete meanwhile are left to the next poll.\<close>

definition drain_completed_futures :: "exec_env \<Rightarrow> exec_core \<Rightarrow> exec_core" where
  "drain_completed_futures env st = fold (finish_future env) (xc_completed st) (st\<lparr>xc_completed := []\<rparr>)"

definition expired_call :: "instant \<Rightarrow> call_meta \<Rightarrow> bool" where
  "expired_call now m \<longleftrightarrow> (case cm_kind m of ServiceCall _ _ \<Rightarrow> num_or (cm_timeout m) 60 < now - num_or (cm_start m) now | _ \<Rightarrow> False)"

text \<open>The executor of the service is shut down, with every other call that runs on it.\<close>

definition expire_call :: "nat \<times> call_meta \<Rightarrow> exec_core \<Rightarrow> exec_core" where
  "expire_call = (\<lambda>(f, m) st.
    case cm_kind m of
      ServiceCall sid rid \<Rightarrow>
        (let st1 = st\<lparr>xc_inflight := dpop f (xc_inflight st)\<rparr>;
             st2 = (if cm_stream m \<noteq> None then cleanup_stream_state m (st1\<lparr>xc_streams := dpop f (xc_streams st1)\<rparr>) else st1);
             st3 = (if sid = [] then st2
               else shutdown_executor (dget (xc_executors st2) (ServiceKey sid)) (st2\<lparr>xc_executors := dpop (ServiceKey sid) (xc_executors st2)\<rparr>))
         in emit (Reply rid ReplyTimeout) st3)
    | _ \<Rightarrow> st)"

definition expire_service_timeouts :: "instant \<Rightarrow> exec_core \<Rightarrow> exec_core" where
  "expire_service_timeouts now st = fold expire_call (filter (\<lambda>(_, m). expired_call now m) (xc_inflight st)) st"

definition poll_once :: "exec_env \<Rightarrow> instant \<Rightarrow> exec_core \<Rightarrow> exec_core" where
  "poll_once env now st = expire_service_timeouts now (drain_completed_futures env (drain_stream_queues st))"

text \<open>The end of the process: every pool is shut down and every stream closed.\<close>

definition close_core :: "exec_core \<Rightarrow> exec_core" where
  "close_core st =
    (let st1 = fold cleanup_stream_state (dvals (xc_streams st)) st;
         pools = (\<lambda>P. dvals (filter (\<lambda>(k, _). P k) (xc_executors st1)));
         order = pools (\<lambda>k. case k of ServiceKey _ \<Rightarrow> True | _ \<Rightarrow> False) @ pools (\<lambda>k. case k of PoolKey _ \<Rightarrow> True | _ \<Rightarrow> False) @
           pools (\<lambda>k. k = TaskKey)
     in (fold (\<lambda>x. shutdown_executor (Some x)) order st1)\<lparr>xc_executors := [], xc_workers := [], xc_streams := []\<rparr>)"

text \<open>
  What the workers do meanwhile: a submitted call completes, once, and a stream gets an item unless
  its queue is full.
\<close>

definition complete_future :: "nat \<Rightarrow> call_outcome \<Rightarrow> exec_core \<Rightarrow> exec_core" where
  "complete_future f out st =
    (if f < xc_futures st \<and> dget (xc_results st) f = None
     then st\<lparr>xc_results := dset f out (xc_results st), xc_completed := xc_completed st @ [f]\<rparr> else st)"

definition put_item :: "nat \<Rightarrow> stream_item \<Rightarrow> exec_core \<Rightarrow> exec_core" where
  "put_item q item st =
    (case dget (xc_queues st) q of
       None \<Rightarrow> st
     | Some items \<Rightarrow> if length items < 32 then st\<lparr>xc_queues := dset q (items @ [item]) (xc_queues st)\<rparr> else st)"

datatype core_event =
    Handle string core_request instant
  | Poll instant
  | Complete nat call_outcome
  | PutItem nat stream_item

fun core_step :: "exec_env \<Rightarrow> core_event \<Rightarrow> exec_core \<Rightarrow> exec_core" where
  "core_step env (Handle rid req now) st = fst (handle_request env now rid req st)"
| "core_step env (Poll now) st = poll_once env now st"
| "core_step env (Complete f out) st = complete_future f out st"
| "core_step env (PutItem q item) st = put_item q item st"

definition core_run :: "exec_env \<Rightarrow> core_event list \<Rightarrow> exec_core \<Rightarrow> exec_core" where
  "core_run env evs st = fold (core_step env) evs st"

end
