(* ===== verification/ExecutorAnswers.thy ===== *)
theory ExecutorAnswers
  imports ExecutorCore
begin

text \<open>
  What the executor core owes and pays: every request is answered once, every task it took is
  reported once, and a poll settles everything that has completed.
\<close>

section \<open>Entries of the ledger\<close>

datatype entry = Req string | PoolTask string string int | RuntimeTask string string int

fun paid :: "emission \<Rightarrow> entry multiset" where
  "paid (Reply rid _) = {#Req rid#}"
| "paid (PoolTaskDone p t a _) = {#PoolTask p t a#}"
| "paid (RuntimeTaskDone k t a _) = {#RuntimeTask k t a#}"
| "paid _ = {#}"

fun owing :: "call_kind \<Rightarrow> entry multiset" where
  "owing (ServiceCall _ rid) = {#Req rid#}"
| "owing (PoolCall p t a) = {#PoolTask p t a#}"
| "owing (RuntimeCall k t a) = {#RuntimeTask k t a#}"

definition all_paid :: "exec_core \<Rightarrow> entry multiset" where
  "all_paid st = sum_list (map paid (xc_out st))"

definition in_flight :: "exec_core \<Rightarrow> entry multiset" where
  "in_flight st = tally (\<lambda>m. owing (cm_kind m)) (xc_inflight st)"

definition books :: "exec_core \<Rightarrow> entry multiset" where
  "books st = all_paid st + in_flight st"

text \<open>A request is owed an answer, and a submission that is accepted a report of its task.\<close>

definition new_out :: "exec_core \<Rightarrow> exec_core \<Rightarrow> emission list" where
  "new_out st st' = drop (length (xc_out st)) (xc_out st')"

fun task_of :: "core_request \<Rightarrow> entry multiset" where
  "task_of (SubmitPool p t a _) = {#PoolTask p t a#}"
| "task_of (SubmitRuntime k t a _) = {#RuntimeTask k t a#}"
| "task_of _ = {#}"

fun core_taken :: "exec_env \<Rightarrow> core_event \<Rightarrow> exec_core \<Rightarrow> entry multiset" where
  "core_taken env (Handle rid req now) st =
    {#Req rid#} + (if Reply rid ReplyOk \<in> set (new_out st (fst (handle_request env now rid req st))) then task_of req else {#})"
| "core_taken env _ st = {#}"

section \<open>Submissions are quiet\<close>

definition quiet :: "exec_core \<Rightarrow> exec_core \<Rightarrow> bool" where
  "quiet st st' \<longleftrightarrow> xc_inflight st' = xc_inflight st \<and> xc_completed st' = xc_completed st \<and> xc_results st' = xc_results st \<and>
    xc_futures st \<le> xc_futures st' \<and> (\<exists>ws. xc_out st' = xc_out st @ ws \<and> (\<forall>e \<in> set ws. \<exists>k ps. e = WorkerPids k ps))"

lemma quiet_refl [simp]: "quiet st st"
  by (simp add: quiet_def)

lemma quiet_trans:
  assumes "quiet st1 st2" "quiet st2 st3"
  shows "quiet st1 st3"
proof -
  obtain ws ws' where "xc_out st2 = xc_out st1 @ ws" "xc_out st3 = xc_out st2 @ ws'"
    and "\<forall>e \<in> set ws \<union> set ws'. \<exists>k ps. e = WorkerPids k ps"
    using assms unfolding quiet_def by blast
  then have "xc_out st3 = xc_out st1 @ (ws @ ws') \<and> (\<forall>e \<in> set (ws @ ws'). \<exists>k ps. e = WorkerPids k ps)" by simp
  then show ?thesis using assms unfolding quiet_def by (metis order_trans)
qed

lemma quiet_fields [simp]:
  "quiet st (st\<lparr>xc_executors := a\<rparr>)" "quiet st (st\<lparr>xc_workers := b\<rparr>)" "quiet st (st\<lparr>xc_queues := c\<rparr>)" "quiet st (st\<lparr>xc_created := n\<rparr>)"
  "quiet st (st\<lparr>xc_submits := n\<rparr>)" "quiet st (st\<lparr>xc_streams := d\<rparr>)" "quiet st (st\<lparr>xc_executors := a, xc_workers := b\<rparr>)"
  by (simp_all add: quiet_def)

lemma quiet_new_pool: "quiet st (fst (new_process_pool env w force st))"
  by (auto simp: new_process_pool_def Let_def quiet_def split: option.split)

lemma quiet_shutdown: "quiet st (shutdown_executor x st)"
  by (simp add: shutdown_executor_def quiet_def split: option.split)

lemma quiet_rebuild: "quiet st (fst (rebuild_executor env key force st))"
proof -
  let ?st1 = "shutdown_executor (dget (xc_executors st) key) (st\<lparr>xc_executors := dpop key (xc_executors st)\<rparr>)"
  obtain st2 r where n: "new_process_pool env (key_workers st key) force ?st1 = (st2, r)" by (rule prod.exhaust)
  have "quiet st ?st1" using quiet_fields(1) quiet_shutdown by (rule quiet_trans)
  moreover have "quiet ?st1 st2" using quiet_new_pool [of ?st1 env "key_workers st key" force] unfolding n fst_conv .
  ultimately have q: "quiet st st2" by (rule quiet_trans)
  show ?thesis
  proof (cases r)
    case (Inl e)
    then show ?thesis using n q by (simp add: rebuild_executor_def)
  next
    case (Inr x)
    have "quiet st (st2\<lparr>xc_executors := dset key x (xc_executors st2)\<rparr>)" using q quiet_fields(1) by (rule quiet_trans)
    then show ?thesis using n Inr by (simp add: rebuild_executor_def)
  qed
qed

lemma quiet_submit: "quiet st (fst (submit_callable env x st))"
  by (simp add: submit_callable_def Let_def quiet_def split: option.split)

lemma submit_fresh:
  "submit_callable env x st = (st', Inr f) \<Longrightarrow> xc_futures st \<le> f \<and> f < xc_futures st'"
  by (auto simp: submit_callable_def Let_def split: option.splits)

text \<open>A step that only submits, and the future it gives.\<close>

definition quiet_future :: "exec_core \<Rightarrow> exec_core \<times> (exec_failure + nat) \<Rightarrow> bool" where
  "quiet_future st res \<longleftrightarrow> quiet st (fst res) \<and> (\<forall>f. snd res = Inr f \<longrightarrow> xc_futures st \<le> f \<and> f < xc_futures (fst res))"

lemma quiet_fallback: "quiet_future st (map_prod id (map_sum id fst) (submit_with_spawn_fallback env key x st))"
proof -
  obtain st1 r where s: "submit_callable env x st = (st1, r)" by (rule prod.exhaust)
  then have q1: "quiet st st1" using quiet_submit [of st env x] by simp
  show ?thesis
  proof (cases r)
    case (Inr f)
    then show ?thesis using s q1 submit_fresh [OF s [unfolded Inr]] by (simp add: submit_with_spawn_fallback_def quiet_future_def)
  next
    case (Inl e)
    obtain st2 r2 where b: "rebuild_executor env key True st1 = (st2, r2)" by (rule prod.exhaust)
    then have "quiet st1 st2" using quiet_rebuild [of st1 env key True] by simp
    with q1 have q2: "quiet st st2" by (rule quiet_trans)
    show ?thesis
    proof (cases r2)
      case Inl2: (Inl e')
      then show ?thesis using s b q1 q2 Inl by (simp add: submit_with_spawn_fallback_def quiet_future_def)
    next
      case (Inr y)
      obtain st3 r3 where s3: "submit_callable env y st2 = (st3, r3)" by (rule prod.exhaust)
      then have "quiet st2 st3" using quiet_submit [of st2 env y] by simp
      with q2 have q3: "quiet st st3" by (rule quiet_trans)
      have "xc_futures st \<le> f \<and> f < xc_futures st3" if "r3 = Inr f" for f
        using submit_fresh [of env y st2 st3 f] s3 that q2 by (auto simp: quiet_def)
      then show ?thesis using s b s3 q1 q3 Inl Inr by (simp add: submit_with_spawn_fallback_def quiet_future_def split: sum.split)
    qed
  qed
qed

lemma quiet_workers: "quiet st (emit_executor_workers env key x st)" "xc_futures (emit_executor_workers env key x st) = xc_futures st"
  by (simp_all add: emit_executor_workers_def Let_def quiet_def emit_def)

lemma quiet_tracked: "quiet_future st (submit_tracked env key x st)"
proof -
  obtain st1 r where s: "submit_with_spawn_fallback env key x st = (st1, r)" by (rule prod.exhaust)
  have q: "quiet_future st (st1, map_sum id fst r)" using quiet_fallback [of st env key x] s by simp
  show ?thesis
  proof (cases r)
    case (Inl e)
    then show ?thesis using s q by (simp add: submit_tracked_def)
  next
    case (Inr fy)
    obtain f y where fy: "fy = (f, y)" by (cases fy)
    have "quiet st st1" using q by (simp add: quiet_future_def)
    then have "quiet st (emit_executor_workers env key y st1)" using quiet_workers(1) by (rule quiet_trans)
    then show ?thesis using s q Inr fy quiet_workers(2) [of env key y st1] by (simp add: submit_tracked_def quiet_future_def)
  qed
qed

lemma quiet_then:
  assumes "quiet st st1" "quiet_future st1 res"
  shows "quiet_future st res"
proof -
  have "quiet st (fst res)" using assms(1) assms(2) [unfolded quiet_future_def, THEN conjunct1] by (rule quiet_trans)
  moreover have "xc_futures st \<le> xc_futures st1" using assms(1) by (simp add: quiet_def)
  ultimately show ?thesis using assms(2) unfolding quiet_future_def by (meson order_trans)
qed

lemma quiet_ensure: "quiet st (fst (ensure_executor env key st))"
  using quiet_rebuild by (simp add: ensure_executor_def split: option.split)

lemma quiet_submit_future: "quiet_future st (submit_future env key st)"
proof -
  obtain st1 r where e: "ensure_executor env key st = (st1, r)" by (rule prod.exhaust)
  then have q1: "quiet st st1" using quiet_ensure [of st env key] by simp
  show ?thesis
  proof (cases r)
    case (Inl x)
    then show ?thesis using e q1 by (simp add: submit_future_def quiet_future_def)
  next
    case (Inr x)
    obtain st2 r2 where t: "submit_tracked env key x st1 = (st2, r2)" by (rule prod.exhaust)
    have q2: "quiet_future st (st2, r2)" using quiet_then [OF q1 quiet_tracked, of env key x] unfolding t .
    show ?thesis
    proof (cases r2)
      case Inr2: (Inr f)
      then show ?thesis using e Inr t q2 by (simp add: submit_future_def)
    next
      case (Inl err)
      obtain st3 r3 where b: "rebuild_executor env key False st2 = (st3, r3)" by (rule prod.exhaust)
      have "quiet st st2" using q2 by (simp add: quiet_future_def)
      moreover have "quiet st2 st3" using quiet_rebuild [of st2 env key False] b by simp
      ultimately have q3: "quiet st st3" by (rule quiet_trans)
      have q4: "quiet_future st (submit_tracked env key y st3)" for y by (rule quiet_then [OF q3 quiet_tracked])
      have "quiet_future st (st2, Inl err)" "quiet_future st (st3, Inl err')" for err'
        using q2 q3 by (simp_all add: quiet_future_def)
      then show ?thesis using e Inr t Inl b q4 by (cases r3) (simp_all add: submit_future_def)
    qed
  qed
qed

section \<open>The ledger of one section\<close>

definition good :: "exec_core \<Rightarrow> bool" where
  "good st \<longleftrightarrow> dwf (xc_inflight st) \<and> (\<forall>f m. dget (xc_inflight st) f = Some m \<longrightarrow> f < xc_futures st \<and> cm_recoveries m \<le> 1) \<and>
    (\<forall>f out. dget (xc_results st) f = Some out \<longrightarrow> f < xc_futures st)"

definition moves :: "exec_core \<Rightarrow> exec_core \<Rightarrow> entry multiset \<Rightarrow> bool" where
  "moves st st' x \<longleftrightarrow> good st' \<and> books st' = books st + x \<and> (\<exists>ws. xc_out st' = xc_out st @ ws)"

lemma moves_good: "moves st st' x \<Longrightarrow> good st'"
  by (simp add: moves_def)

lemma moves_refl: "good st \<Longrightarrow> moves st st {#}"
  by (simp add: moves_def)

lemma moves_trans: "moves a b x \<Longrightarrow> moves b c y \<Longrightarrow> moves a c (x + y)"
  by (auto simp: moves_def add.assoc)

lemma moves_then: "moves a b {#} \<Longrightarrow> moves b c y \<Longrightarrow> moves a c y"
  using moves_trans by fastforce

lemma sum_no_pay: "(\<forall>e \<in> set ws. paid e = {#}) \<Longrightarrow> sum_list (map paid ws) = {#}"
  by (induction ws) auto

lemma quiet_moves:
  assumes "good st" "quiet st st'"
  shows "moves st st' {#}"
proof -
  obtain ws where out: "xc_out st' = xc_out st @ ws" "\<forall>e \<in> set ws. \<exists>k ps. e = WorkerPids k ps"
    using assms(2) unfolding quiet_def by blast
  then have "sum_list (map paid ws) = {#}" by (intro sum_no_pay) auto
  then have "books st' = books st" using assms(2) out(1) by (simp add: books_def all_paid_def in_flight_def quiet_def)
  moreover have "good st'" using assms unfolding good_def quiet_def by (metis order_less_le_trans)
  ultimately show ?thesis using out(1) by (simp add: moves_def)
qed

lemma emit_moves: "good st \<Longrightarrow> moves st (emit e st) (paid e)"
  by (simp add: moves_def good_def books_def all_paid_def in_flight_def emit_def add_ac)

lemma reply_moves: "good st \<Longrightarrow> moves st (emit (Reply rid x) st) {#Req rid#}"
  using emit_moves [of st "Reply rid x"] by simp

lemma track_moves:
  assumes "good st" "f < xc_futures st" "dget (xc_inflight st) f = None" "cm_recoveries m \<le> 1"
  shows "moves st (track_inflight f m st) (owing (cm_kind m))"
  using assms by (simp add: moves_def good_def books_def all_paid_def in_flight_def track_inflight_def tally_dset_new dict_simps add_ac)

lemma remove_moves:
  assumes "good st" "dget (xc_inflight st) f = Some m"
  shows "good (st\<lparr>xc_inflight := dpop f (xc_inflight st)\<rparr>)"
    and "books st = owing (cm_kind m) + books (st\<lparr>xc_inflight := dpop f (xc_inflight st)\<rparr>)"
proof -
  show "good (st\<lparr>xc_inflight := dpop f (xc_inflight st)\<rparr>)" using assms(1) by (auto simp: good_def dict_simps)
  have "in_flight st = owing (cm_kind m) + tally (\<lambda>m. owing (cm_kind m)) (dpop f (xc_inflight st))"
    unfolding in_flight_def using assms by (intro tally_dpop) (simp_all add: good_def)
  then show "books st = owing (cm_kind m) + books (st\<lparr>xc_inflight := dpop f (xc_inflight st)\<rparr>)"
    by (simp add: books_def all_paid_def in_flight_def add_ac)
qed

text \<open>A call leaves the table and is paid for, whatever else changes.\<close>

lemma settle_moves:
  assumes "good st" "dget (xc_inflight st) f = Some m" "paid e = owing (cm_kind m)"
    and "quiet (st\<lparr>xc_inflight := dpop f (xc_inflight st)\<rparr>) st1"
  shows "moves st (emit e st1) {#}"
proof -
  let ?st0 = "st\<lparr>xc_inflight := dpop f (xc_inflight st)\<rparr>"
  note r = remove_moves [OF assms(1,2)]
  have q: "moves ?st0 st1 {#}" using quiet_moves [OF r(1) assms(4)] .
  have "moves st1 (emit e st1) (paid e)" using moves_good [OF q] by (rule emit_moves)
  with q have "moves ?st0 (emit e st1) (paid e)" by (rule moves_then)
  then show ?thesis using r(2) assms(3) by (simp add: moves_def add_ac)
qed

lemma quiet_cleanup: "quiet st (cleanup_stream_state m st)"
  by (simp add: cleanup_stream_state_def quiet_def split: option.split)

lemma fail_service_moves:
  assumes "good st" "dget (xc_inflight st) f = Some m" "is_service_call sid m"
  shows "moves st (fail_service_call reason (f, m) st) {#}"
proof -
  obtain s rid where k: "cm_kind m = ServiceCall s rid" using assms(3) by (cases "cm_kind m") (auto simp: is_service_call_def)
  let ?st0 = "st\<lparr>xc_inflight := dpop f (xc_inflight st)\<rparr>"
  let ?st1 = "?st0\<lparr>xc_streams := (if cm_stream m \<noteq> None then dpop f (xc_streams st) else xc_streams st)\<rparr>"
  have "quiet ?st0 ?st1" by (rule quiet_fields(6))
  then have "quiet ?st0 (cleanup_stream_state m ?st1)" using quiet_cleanup by (rule quiet_trans)
  then have "moves st (emit (Reply rid (ReplyResult (infra_result ''ServiceStopped'' (str_or reason ''service stopped''))))
      (cleanup_stream_state m ?st1)) {#}" by (intro settle_moves [OF assms(1,2)]) (simp_all add: k)
  then show ?thesis by (simp add: fail_service_call_def k)
qed

lemma fail_pool_moves:
  assumes "good st" "dget (xc_inflight st) f = Some m" "is_pool_call pid m"
  shows "moves st (fail_pool_call reason (f, m) st) {#}"
proof -
  obtain p t a where k: "cm_kind m = PoolCall p t a" using assms(3) by (cases "cm_kind m") (auto simp: is_pool_call_def)
  have "moves st (emit (PoolTaskDone p t a (infra_result ''TaskPoolStopped'' (str_or reason ''task pool stopped'')))
      (st\<lparr>xc_inflight := dpop f (xc_inflight st)\<rparr>)) {#}" by (rule settle_moves [OF assms(1,2)]) (simp_all add: k)
  then show ?thesis by (simp add: fail_pool_call_def k)
qed

lemma expire_moves:
  assumes "good st" "dget (xc_inflight st) f = Some m" "expired_call now m"
  shows "moves st (expire_call (f, m) st) {#}"
proof -
  obtain sid rid where k: "cm_kind m = ServiceCall sid rid" using assms(3) by (cases "cm_kind m") (auto simp: expired_call_def)
  let ?st1 = "st\<lparr>xc_inflight := dpop f (xc_inflight st)\<rparr>"
  let ?st2 = "if cm_stream m \<noteq> None then cleanup_stream_state m (?st1\<lparr>xc_streams := dpop f (xc_streams ?st1)\<rparr>) else ?st1"
  let ?st3 = "if sid = [] then ?st2
    else shutdown_executor (dget (xc_executors ?st2) (ServiceKey sid)) (?st2\<lparr>xc_executors := dpop (ServiceKey sid) (xc_executors ?st2)\<rparr>)"
  have q2: "quiet ?st1 ?st2" using quiet_trans [OF quiet_fields(6) quiet_cleanup] by simp
  have "quiet ?st2 (shutdown_executor (dget (xc_executors ?st2) (ServiceKey sid)) (?st2\<lparr>xc_executors := dpop (ServiceKey sid) (xc_executors ?st2)\<rparr>))"
    using quiet_fields(1) quiet_shutdown by (rule quiet_trans)
  then have "quiet ?st2 ?st3" by simp
  with q2 have "quiet ?st1 ?st3" by (rule quiet_trans)
  then have "moves st (emit (Reply rid ReplyTimeout) ?st3) {#}" by (intro settle_moves [OF assms(1,2)]) (simp_all add: k)
  then show ?thesis unfolding expire_call_def by (simp only: k Let_def prod.case call_kind.case)
qed


text \<open>Several calls are settled one after the other.\<close>

lemma fold_moves:
  assumes "good st" "distinct (map fst fs)" "\<forall>(f, m) \<in> set fs. dget (xc_inflight st) f = Some m \<and> P m"
    and one: "\<And>f m st. good st \<Longrightarrow> dget (xc_inflight st) f = Some m \<Longrightarrow> P m \<Longrightarrow> moves st (g (f, m) st) {#}"
    and other: "\<And>f m st k. P m \<Longrightarrow> k \<noteq> f \<Longrightarrow> dget (xc_inflight (g (f, m) st)) k = dget (xc_inflight st) k"
  shows "moves st (fold g fs st) {#}"
  using assms(1-3)
proof (induction fs arbitrary: st)
  case Nil
  then show ?case by (simp add: moves_refl)
next
  case (Cons p fs)
  obtain f m where p: "p = (f, m)" by (cases p)
  have m: "moves st (g (f, m) st) {#}" using Cons.prems p by (intro one) auto
  have "\<forall>(k, n) \<in> set fs. dget (xc_inflight (g (f, m) st)) k = Some n \<and> P n"
  proof (clarify)
    fix k n assume kn: "(k, n) \<in> set fs"
    then have "k \<noteq> f" using Cons.prems(2) p by force
    then show "dget (xc_inflight (g (f, m) st)) k = Some n \<and> P n" using Cons.prems(3) kn p other by auto
  qed
  then have "moves (g (f, m) st) (fold g fs (g (f, m) st)) {#}" using Cons.IH moves_good [OF m] Cons.prems(2) p by simp
  then show ?case using moves_then [OF m] p by simp
qed

lemma cleanup_inflight [simp]: "xc_inflight (cleanup_stream_state m st) = xc_inflight st"
  by (simp add: cleanup_stream_state_def split: option.split)

lemma shutdown_inflight [simp]: "xc_inflight (shutdown_executor x st) = xc_inflight st"
  by (simp add: shutdown_executor_def split: option.split)

lemma emit_inflight [simp]: "xc_inflight (emit e st) = xc_inflight st"
  by (simp add: emit_def)

lemma settled_others:
  "k \<noteq> f \<Longrightarrow> dget (xc_inflight (fail_service_call reason (f, m) st)) k = dget (xc_inflight st) k"
  "k \<noteq> f \<Longrightarrow> dget (xc_inflight (fail_pool_call reason (f, m) st)) k = dget (xc_inflight st) k"
  "k \<noteq> f \<Longrightarrow> dget (xc_inflight (expire_call (f, m) st)) k = dget (xc_inflight st) k"
  by (cases "cm_kind m"; simp add: fail_service_call_def fail_pool_call_def expire_call_def Let_def dict_simps)+

lemma inflight_selection:
  assumes "good st"
  shows "distinct (map fst (filter (\<lambda>(_, m). P m) (xc_inflight st)))"
    and "\<forall>(f, m) \<in> set (filter (\<lambda>(_, m). P m) (xc_inflight st)). dget (xc_inflight st) f = Some m \<and> P m"
proof -
  have wf: "dwf (xc_inflight st)" using assms by (simp add: good_def)
  show "distinct (map fst (filter (\<lambda>(_, m). P m) (xc_inflight st)))" using wf unfolding dwf_def by (rule distinct_map_filter)
  show "\<forall>(f, m) \<in> set (filter (\<lambda>(_, m). P m) (xc_inflight st)). dget (xc_inflight st) f = Some m \<and> P m"
    using in_dget [OF wf] by auto
qed

lemma stops_moves:
  assumes "good st"
  shows "moves st (fst (fail_service_inflight sid reason st)) {#}" "moves st (fst (fail_pool_inflight pid reason st)) {#}"
    "moves st (expire_service_timeouts now st) {#}"
proof -
  note sel = inflight_selection [OF assms]
  show "moves st (fst (fail_service_inflight sid reason st)) {#}" unfolding fail_service_inflight_def Let_def fst_conv
    using assms sel by (rule fold_moves) (auto intro: fail_service_moves simp: settled_others)
  show "moves st (fst (fail_pool_inflight pid reason st)) {#}" unfolding fail_pool_inflight_def Let_def fst_conv
    using assms sel by (rule fold_moves) (auto intro: fail_pool_moves simp: settled_others)
  show "moves st (expire_service_timeouts now st) {#}" unfolding expire_service_timeouts_def
    using assms sel by (rule fold_moves) (auto intro: expire_moves simp: settled_others)
qed

section \<open>Streams\<close>

text \<open>Draining a stream changes nothing of a call but the count of its items.\<close>

definition streamed :: "exec_core \<Rightarrow> exec_core \<Rightarrow> bool" where
  "streamed st st' \<longleftrightarrow> (\<exists>h. (\<forall>k m. cm_kind (h k m) = cm_kind m \<and> cm_recoveries (h k m) = cm_recoveries m) \<and> xc_inflight st' = dmap h (xc_inflight st)) \<and>
    xc_completed st' = xc_completed st \<and> xc_results st' = xc_results st \<and> xc_futures st' = xc_futures st \<and>
    (\<exists>ws. xc_out st' = xc_out st @ ws \<and> (\<forall>e \<in> set ws. paid e = {#}))"

lemma dmap_id: "dmap (\<lambda>k m. m) d = d"
  by (simp add: dmap_def)

lemma dmap_dmap: "dmap g (dmap h d) = dmap (\<lambda>k m. g k (h k m)) d"
  by (simp add: dmap_def case_prod_unfold)

lemma streamedI:
  assumes "xc_inflight st' = xc_inflight st" "xc_completed st' = xc_completed st" "xc_results st' = xc_results st"
    "xc_futures st' = xc_futures st" "xc_out st' = xc_out st @ ws" "\<forall>e \<in> set ws. paid e = {#}"
  shows "streamed st st'"
  unfolding streamed_def using assms by (intro conjI exI [of _ "\<lambda>k m. m"] exI [of _ ws]) (simp_all add: dmap_id)

lemma streamed_refl: "streamed st st"
  by (rule streamedI [of _ _ "[]"]) simp_all

lemma streamed_trans:
  assumes "streamed a b" "streamed b c"
  shows "streamed a c"
proof -
  obtain h ws where h: "\<forall>k m. cm_kind (h k m) = cm_kind m \<and> cm_recoveries (h k m) = cm_recoveries m" "xc_inflight b = dmap h (xc_inflight a)"
    and ws: "xc_out b = xc_out a @ ws" "\<forall>e \<in> set ws. paid e = {#}" using assms(1) unfolding streamed_def by blast
  obtain g vs where g: "\<forall>k m. cm_kind (g k m) = cm_kind m \<and> cm_recoveries (g k m) = cm_recoveries m" "xc_inflight c = dmap g (xc_inflight b)"
    and vs: "xc_out c = xc_out b @ vs" "\<forall>e \<in> set vs. paid e = {#}" using assms(2) unfolding streamed_def by blast
  have "xc_inflight c = dmap (\<lambda>k m. g k (h k m)) (xc_inflight a)" using h(2) g(2) by (simp add: dmap_dmap)
  moreover have "\<forall>k m. cm_kind (g k (h k m)) = cm_kind m \<and> cm_recoveries (g k (h k m)) = cm_recoveries m" using h(1) g(1) by simp
  moreover have "xc_out c = xc_out a @ (ws @ vs)" "\<forall>e \<in> set (ws @ vs). paid e = {#}" using ws vs by auto
  moreover have "xc_completed c = xc_completed a" "xc_results c = xc_results a" "xc_futures c = xc_futures a"
    using assms by (simp_all add: streamed_def)
  ultimately show ?thesis unfolding streamed_def
    by (intro conjI exI [of _ "\<lambda>k m. g k (h k m)"] exI [of _ "ws @ vs"]) simp_all
qed

lemma emit_items_streamed: "streamed st (fst (emit_stream_items rid n items st))"
proof (induction rid n items st rule: emit_stream_items.induct)
  case (3 rid n i v items st)
  let ?e = "StreamItem rid (num_or (case i of None \<Rightarrow> n | Some k \<Rightarrow> k) n) v"
  have "streamed st (emit ?e st)" by (rule streamedI [of _ _ "[?e]"]) (simp_all add: emit_def)
  then show ?case using "3.IH" streamed_trans by (simp only: emit_stream_items.simps)
qed (simp_all add: streamed_refl)

lemma set_emitted_streamed: "streamed st (set_emitted f n st)"
  unfolding streamed_def set_emitted_def
  by (intro conjI exI [of _ "\<lambda>k m. if k = f then m\<lparr>cm_emitted := n\<rparr> else m"] exI [of _ "[]"]) simp_all

lemma drain_meta_streamed: "streamed st (drain_stream_meta f m st)"
proof (cases "stream_request m = [] \<or> cm_stream m = None")
  case True
  then show ?thesis by (auto simp: drain_stream_meta_def Let_def streamed_refl)
next
  case False
  then obtain q where q: "cm_stream m = Some q" by auto
  let ?st1 = "if dget (xc_queues st) q = None then st else st\<lparr>xc_queues := dset q (drop 32 (dget_or (xc_queues st) q [])) (xc_queues st)\<rparr>"
  obtain st2 n where e: "emit_stream_items (stream_request m) (cm_emitted m) (take 32 (dget_or (xc_queues st) q [])) ?st1 = (st2, n)" by (rule prod.exhaust)
  have "streamed st ?st1" by (rule streamedI [of _ _ "[]"]) simp_all
  moreover have "streamed ?st1 st2" using emit_items_streamed [of ?st1 "stream_request m" "cm_emitted m" "take 32 (dget_or (xc_queues st) q [])"]
    unfolding e fst_conv .
  ultimately have "streamed st (set_emitted f n st2)" using set_emitted_streamed streamed_trans by blast
  then show ?thesis using False q e by (simp add: drain_stream_meta_def Let_def)
qed

lemma drain_queues_streamed: "streamed st (drain_stream_queues st)"
proof -
  have "streamed st (fold (\<lambda>(f, m). drain_stream_meta f m) ss st)" for ss
  proof (induction ss arbitrary: st)
    case (Cons s ss)
    then show ?case using streamed_trans [OF drain_meta_streamed Cons.IH] by (cases s) simp
  qed (simp add: streamed_refl)
  then show ?thesis by (simp add: drain_stream_queues_def)
qed

lemma tally_dmap: "(\<And>k m. g (h k m) = g m) \<Longrightarrow> tally g (dmap h d) = tally g d"
  by (induction d) (auto simp: dmap_def)

lemma streamed_moves:
  assumes "good st" "streamed st st'"
  shows "moves st st' {#}"
proof -
  obtain h ws where h: "\<forall>k m. cm_kind (h k m) = cm_kind m \<and> cm_recoveries (h k m) = cm_recoveries m" "xc_inflight st' = dmap h (xc_inflight st)"
    and ws: "xc_out st' = xc_out st @ ws" "\<forall>e \<in> set ws. paid e = {#}" using assms(2) unfolding streamed_def by blast
  have "in_flight st' = in_flight st" unfolding in_flight_def h(2) using h(1) by (intro tally_dmap) simp
  moreover have "all_paid st' = all_paid st" using ws sum_no_pay by (simp add: all_paid_def)
  moreover have "good st'" using assms h unfolding good_def streamed_def by (auto simp: dict_simps)
  ultimately show ?thesis using ws(1) by (simp add: moves_def books_def)
qed

section \<open>The ledger of requests and polls\<close>

lemma quiet_futureD:
  assumes "quiet_future st res"
  shows "quiet st (fst res)" "snd res = Inr f \<Longrightarrow> xc_futures st \<le> f \<and> f < xc_futures (fst res)"
  using assms by (simp_all add: quiet_future_def)

lemma submit_track_moves:
  assumes "good st" "submit_future env key st = (st1, Inr f)" "quiet st1 st2" "cm_recoveries m \<le> 1"
  shows "moves st (track_inflight f m st2) (owing (cm_kind m))"
proof -
  have q: "quiet st st1" and f: "xc_futures st \<le> f" "f < xc_futures st1"
    using quiet_futureD [OF quiet_submit_future [of st env key]] assms(2) by auto
  have q2: "quiet st st2" using q assms(3) by (rule quiet_trans)
  have "dget (xc_inflight st) f = None" using assms(1) f(1) unfolding good_def by (meson not_le option.exhaust)
  then have "dget (xc_inflight st2) f = None" "f < xc_futures st2" using q2 assms(3) f(2) by (simp_all add: quiet_def)
  then show ?thesis using moves_then [OF quiet_moves [OF assms(1) q2]] track_moves moves_good [OF quiet_moves [OF assms(1) q2]] assms(4) by blast
qed

lemma emit_after:
  assumes "good st" "quiet st st1"
  shows "moves st (emit e st1) (paid e)"
  using moves_then [OF quiet_moves [OF assms]] emit_moves [OF moves_good [OF quiet_moves [OF assms]]] by blast

lemma create_moves:
  assumes "good st"
  shows "moves st (create_executor_for env rid key workers st) {#Req rid#}"
proof -
  let ?st0 = "st\<lparr>xc_workers := dset key (max 1 (num_or workers 1)) (xc_workers st)\<rparr>"
  obtain st1 r where b: "rebuild_executor env key False ?st0 = (st1, r)" by (rule prod.exhaust)
  have "quiet ?st0 st1" using quiet_rebuild [of ?st0 env key False] b by simp
  then have q: "quiet st st1" by (rule quiet_trans [OF quiet_fields(2)])
  show ?thesis
  proof (cases r)
    case (Inl e)
    then show ?thesis using b emit_after [OF assms q, of "Reply rid (ReplyError (fl_repr e))"] by (simp add: create_executor_for_def)
  next
    case (Inr x)
    then show ?thesis using b emit_after [OF assms q, of "Reply rid ReplyOk"] by (simp add: create_executor_for_def)
  qed
qed

lemma quiet_background: "quiet st (fst (submit_background env key n x st))"
proof (induction n arbitrary: x st)
  case (Suc n)
  obtain st1 r where s: "submit_with_spawn_fallback env key x st = (st1, r)" by (rule prod.exhaust)
  have q: "quiet st st1" using quiet_futureD(1) [OF quiet_fallback [of st env key x]] s by simp
  show ?case
  proof (cases r)
    case (Inl e)
    then show ?thesis using s q by simp
  next
    case (Inr fy)
    then show ?thesis using s quiet_trans [OF q Suc.IH] by (cases fy) simp
  qed
qed simp

lemma background_moves:
  assumes "good st"
  shows "moves st (background_calls env rid key fanout st) {#Req rid#}"
proof -
  define m where "m = (case key of PoolKey _ \<Rightarrow> ''task pool missing'' | _ \<Rightarrow> ''service executor missing'')"
  define n where "n = max 1 (num_or fanout 1)"
  obtain st1 r where e: "ensure_executor env key st = (st1, r)" by (rule prod.exhaust)
  have q1: "quiet st st1" using quiet_ensure [of st env key] e by simp
  note em = emit_after [OF assms]
  consider "dget (xc_executors st) key = None \<and> key \<noteq> TaskKey \<and> dget (xc_workers st) key = None"
    | (err) x where "\<not> (dget (xc_executors st) key = None \<and> key \<noteq> TaskKey \<and> dget (xc_workers st) key = None)" "r = Inl x"
    | (ok) x where "\<not> (dget (xc_executors st) key = None \<and> key \<noteq> TaskKey \<and> dget (xc_workers st) key = None)" "r = Inr x"
    by (cases r) blast+
  then show ?thesis
  proof cases
    case 1
    then show ?thesis using em [OF quiet_refl, of "Reply rid (ReplyError m)"] by (simp add: background_calls_def m_def Let_def)
  next
    case err
    then show ?thesis using em [OF q1, of "Reply rid (ReplyError (fl_repr x))"] e by (auto simp: background_calls_def Let_def)
  next
    case ok
    obtain st2 r2 where s: "submit_background env key (nat n) x st1 = (st2, r2)" by (rule prod.exhaust)
    have q2: "quiet st st2" using quiet_trans [OF q1 quiet_background [of st1 env key "nat n" x]] s by simp
    show ?thesis
    proof (cases r2)
      case (Inl x2)
      then show ?thesis using em [OF q2, of "Reply rid (ReplyError (fl_repr x2))"] e s ok by (auto simp: background_calls_def n_def Let_def)
    next
      case (Inr y)
      then show ?thesis using em [OF quiet_trans [OF q2 quiet_workers(1)], of "Reply rid (ReplySubmitted n)" env key y] e s ok
        by (auto simp: background_calls_def n_def Let_def)
    qed
  qed
qed

lemma call_service_moves:
  assumes "good st"
  shows "moves st (call_service env rid sid spec timeout streaming now st) {#Req rid#}"
proof (cases "dget (xc_workers st) (ServiceKey sid)")
  case None
  then show ?thesis using emit_moves [OF assms, of "Reply rid (ReplyError ''service executor missing'')"] by (simp add: call_service_def)
next
  case (Some w)
  let ?st0 = "if streaming then st\<lparr>xc_queues := dset (xc_submits st) [] (xc_queues st)\<rparr> else st"
  have q0: "quiet st ?st0" by simp
  note g0 = moves_good [OF quiet_moves [OF assms q0]]
  obtain st1 r where s: "submit_future env (ServiceKey sid) ?st0 = (st1, r)" by (rule prod.exhaust)
  show ?thesis
  proof (cases r)
    case (Inl e)
    have "quiet ?st0 st1" using quiet_futureD(1) [OF quiet_submit_future [of ?st0 env "ServiceKey sid"]] s by simp
    then have "quiet st st1" by (rule quiet_trans [OF q0])
    from emit_after [OF assms this, of "Reply rid (ReplyError (fl_repr e))"] show ?thesis
      unfolding call_service_def Let_def using Some s Inl by simp
  next
    case (Inr f)
    let ?m = "\<lparr>cm_kind = ServiceCall sid rid, cm_spec = spec, cm_start = now, cm_timeout = call_timeout timeout,
            cm_recoveries = 0, cm_stream = (if streaming then Some (xc_submits st) else None), cm_emitted = 0\<rparr>"
    have "moves ?st0 (track_inflight f ?m st1) {#Req rid#}"
      using submit_track_moves [OF g0 s [unfolded Inr] quiet_refl, of ?m] by simp
    then have "moves st (track_inflight f ?m st1) {#Req rid#}" by (rule moves_then [OF quiet_moves [OF assms q0]])
    then show ?thesis unfolding call_service_def Let_def using Some s Inr by simp
  qed
qed

lemma submit_task_moves:
  assumes "good st" "cm_recoveries m \<le> 1"
  shows "moves st (submit_task env rid key m st)
    ({#Req rid#} + (if Reply rid ReplyOk \<in> set (new_out st (submit_task env rid key m st)) then owing (cm_kind m) else {#}))"
proof -
  obtain st1 r where s: "submit_future env key st = (st1, r)" by (rule prod.exhaust)
  have q: "quiet st st1" using quiet_futureD(1) [OF quiet_submit_future [of st env key]] s by simp
  then obtain ws where ws: "xc_out st1 = xc_out st @ ws" "\<forall>e \<in> set ws. \<exists>k ps. e = WorkerPids k ps" unfolding quiet_def by blast
  show ?thesis
  proof (cases r)
    case (Inl e)
    have "Reply rid ReplyOk \<notin> set (new_out st (submit_task env rid key m st))"
      using ws s Inl by (auto simp: submit_task_def new_out_def emit_def)
    then show ?thesis using emit_after [OF assms(1) q, of "Reply rid (ReplyError (fl_repr e))"] s Inl by (simp add: submit_task_def)
  next
    case (Inr f)
    have "Reply rid ReplyOk \<in> set (new_out st (submit_task env rid key m st))"
      using ws s Inr by (simp add: submit_task_def new_out_def emit_def track_inflight_def)
    moreover have t: "moves st (track_inflight f m st1) (owing (cm_kind m))"
      using submit_track_moves [OF assms(1) s [unfolded Inr] quiet_refl assms(2)] .
    moreover have "moves st (emit (Reply rid ReplyOk) (track_inflight f m st1)) (owing (cm_kind m) + {#Req rid#})"
      using moves_trans [OF t emit_moves [OF moves_good [OF t]], of "Reply rid ReplyOk"] by simp
    ultimately show ?thesis using s Inr by (simp add: submit_task_def add.commute)
  qed
qed

lemma quiet_forget: "quiet st (forget_executor key st)"
  unfolding forget_executor_def by (rule quiet_fields(7))

lemma stop_request_moves:
  assumes "good st" "moves (forget_executor key st) st1 {#}"
  shows "moves st (emit (Reply rid e) (shutdown_executor x st1)) {#Req rid#}"
proof -
  have "moves st st1 {#}" using moves_then [OF quiet_moves [OF assms(1) quiet_forget] assms(2)] .
  moreover have "moves st1 (emit (Reply rid e) (shutdown_executor x st1)) {#Req rid#}"
    using emit_after [OF moves_good [OF assms(2)] quiet_shutdown, of "Reply rid e"] by simp
  ultimately show ?thesis by (rule moves_then)
qed

lemma task_meta_sels [simp]: "cm_kind (task_meta k spec now) = k" "cm_recoveries (task_meta k spec now) = 0"
  by (simp_all add: task_meta_def)

lemma handle_moves:
  assumes "good st"
  shows "moves st (fst (handle_request env now rid req st)) (core_taken env (Handle rid req now) st)"
proof (cases req)
  case (StopService sid reason)
  have g: "good (forget_executor (ServiceKey sid) st)" using moves_good [OF quiet_moves [OF assms quiet_forget]] .
  from stop_request_moves [OF assms stops_moves(1) [OF g]] StopService show ?thesis by (simp add: case_prod_unfold)
next
  case (StopPool pid reason)
  have g: "good (forget_executor (PoolKey pid) st)" using moves_good [OF quiet_moves [OF assms quiet_forget]] .
  from stop_request_moves [OF assms stops_moves(2) [OF g]] StopPool show ?thesis by (simp add: case_prod_unfold)
next
  case (SubmitPool pid task attempt spec)
  show ?thesis
  proof (cases "dget (xc_workers st) (PoolKey pid)")
    case None
    then show ?thesis using emit_moves [OF assms, of "Reply rid (ReplyError ''task pool missing'')"] SubmitPool by (simp add: new_out_def emit_def)
  next
    case (Some w)
    then show ?thesis using submit_task_moves [OF assms, of "task_meta (PoolCall pid task attempt) spec now" env rid "PoolKey pid"] SubmitPool
      by (simp split del: if_split cong: if_cong)
  qed
next
  case (SubmitRuntime key task attempt spec)
  then show ?thesis using submit_task_moves [OF assms, of "task_meta (RuntimeCall key task attempt) spec now" env rid TaskKey]
    by (simp split del: if_split cong: if_cong)
qed (use create_moves [OF assms] background_moves [OF assms] call_service_moves [OF assms] reply_moves [OF assms] in simp_all)


section \<open>Polls\<close>

text \<open>What is in flight under a future, up to the count of stream items.\<close>

definition call_at :: "exec_core \<Rightarrow> nat \<Rightarrow> (call_kind \<times> nat) option" where
  "call_at st f = map_option (\<lambda>m. (cm_kind m, cm_recoveries m)) (dget (xc_inflight st) f)"

definition keeps :: "nat \<Rightarrow> exec_core \<Rightarrow> exec_core \<Rightarrow> bool" where
  "keeps n st st' \<longleftrightarrow> (\<forall>k < n. call_at st' k = call_at st k) \<and> xc_results st' = xc_results st \<and> xc_completed st' = xc_completed st \<and>
    xc_futures st \<le> xc_futures st'"

lemma keeps_trans: "keeps n a b \<Longrightarrow> keeps n b c \<Longrightarrow> keeps n a c"
  by (auto simp: keeps_def)

lemma quiet_keeps: "quiet st st' \<Longrightarrow> keeps n st st'"
  by (simp add: keeps_def quiet_def call_at_def)

lemma streamed_keeps: "streamed st st' \<Longrightarrow> keeps n st st'"
  by (auto simp: keeps_def streamed_def call_at_def dict_simps option.map_comp comp_def)

lemma emit_keeps: "keeps n st (emit e st)"
  by (simp add: keeps_def emit_def call_at_def)

lemma track_keeps: "n \<le> f \<Longrightarrow> keeps n st (track_inflight f m st)"
  by (auto simp: keeps_def track_inflight_def call_at_def dict_simps)

lemma recover_facts:
  assumes "good st" "recover_or_fail_future env e m st = (st', res)"
  shows "moves st st' (if res = None then owing (cm_kind m) else {#}) \<and> keeps (xc_futures st) st st' \<and>
    (res = None \<longrightarrow> is_recoverable_pool_error e \<and> cm_recoveries m < 1) \<and> (res \<noteq> None \<longrightarrow> res = Some (infra_result ''InfraException'' (fl_repr e)))"
proof (cases "is_recoverable_pool_error e \<and> cm_recoveries m < 1")
  case False
  then have "st' = cleanup_stream_state m st" "res = Some (infra_result ''InfraException'' (fl_repr e))"
    using assms(2) by (auto simp: recover_or_fail_future_def Let_def)
  then show ?thesis using quiet_moves [OF assms(1) quiet_cleanup] quiet_keeps [OF quiet_cleanup] False by auto
next
  case True
  obtain st1 r where s: "submit_future env (call_key (cm_kind m)) st = (st1, r)" by (rule prod.exhaust)
  have qf: "quiet_future st (st1, r)" using quiet_submit_future [of st env "call_key (cm_kind m)"] s by simp
  then have q: "quiet st st1" by (simp add: quiet_future_def)
  show ?thesis
  proof (cases r)
    case (Inl err)
    then have "st' = cleanup_stream_state m st1" "res = Some (infra_result ''InfraException'' (fl_repr e))"
      using assms(2) True s by (auto simp: recover_or_fail_future_def Let_def)
    then show ?thesis using quiet_trans [OF q quiet_cleanup] quiet_moves [OF assms(1)] quiet_keeps s Inl by auto
  next
    case (Inr f)
    define st2 where "st2 = (if call_key (cm_kind m) = TaskKey then st1 else emit (Rebuilt (call_key (cm_kind m)) (cm_recoveries m + 1)) st1)"
    have st': "st' = track_inflight f (m\<lparr>cm_recoveries := cm_recoveries m + 1\<rparr>) st2" "res = None"
      using assms(2) True s Inr by (auto simp: recover_or_fail_future_def Let_def st2_def)
    have m1: "moves st st1 {#}" using quiet_moves [OF assms(1) q] .
    have "moves st1 st2 {#}" using moves_refl [OF moves_good [OF m1]] emit_moves [OF moves_good [OF m1], of "Rebuilt (call_key (cm_kind m)) (cm_recoveries m + 1)"]
      by (simp add: st2_def)
    with m1 have m2: "moves st st2 {#}" by (rule moves_then)
    have f: "xc_futures st \<le> f" "f < xc_futures st1" using qf Inr by (simp_all add: quiet_future_def)
    have same: "xc_inflight st2 = xc_inflight st" "xc_futures st2 = xc_futures st1" using q by (simp_all add: st2_def quiet_def emit_def)
    have "dget (xc_inflight st) f = None" using assms(1) f(1) unfolding good_def by (meson not_le option.exhaust)
    then have "moves st2 st' (owing (cm_kind m))"
      using track_moves [OF moves_good [OF m2], of f "m\<lparr>cm_recoveries := cm_recoveries m + 1\<rparr>"] same f True st'(1) by simp
    with m2 have "moves st st' (owing (cm_kind m))" by (rule moves_then)
    moreover have "keeps (xc_futures st) st st2" using quiet_keeps [OF q] emit_keeps keeps_trans by (simp add: st2_def) blast
    then have "keeps (xc_futures st) st st'" using track_keeps [OF f(1)] keeps_trans st'(1) by blast
    ultimately show ?thesis using st'(2) True by simp
  qed
qed

fun report :: "call_kind \<Rightarrow> run_result \<Rightarrow> emission" where
  "report (ServiceCall _ rid) r = Reply rid (ReplyResult r)"
| "report (PoolCall p t a) r = PoolTaskDone p t a r"
| "report (RuntimeCall k t a) r = RuntimeTaskDone k t a r"

lemma paid_report [simp]: "paid (report k r) = owing k"
  by (cases k) simp_all

text \<open>A report is one emission, after the last items of a stream.\<close>

lemma report_shape:
  obtains st1 st2 where "streamed st st1" "quiet st1 st2" "report_done f m r st = emit (report (cm_kind m) r) st2"
proof -
  define st1 where "st1 = (if cm_stream m \<noteq> None then drain_stream_meta f m st else st)"
  define st2 where "st2 = (if cm_stream m \<noteq> None then cleanup_stream_state m (st1\<lparr>xc_streams := dpop f (xc_streams st1)\<rparr>) else st1)"
  have s: "streamed st st1" unfolding st1_def using drain_meta_streamed streamed_refl by simp
  have q: "quiet st1 st2" unfolding st2_def using quiet_trans [OF quiet_fields(6) quiet_cleanup] by simp
  note eq = report_done_def [of f m r st, unfolded Let_def, folded st1_def, folded st2_def]
  show thesis
  proof (cases "cm_kind m")
    case (ServiceCall sid rid)
    then show thesis using that [OF s q] eq by simp
  next
    case (PoolCall p t a)
    then show thesis using that [OF s quiet_refl] eq by simp
  next
    case (RuntimeCall k t a)
    then show thesis using that [OF s quiet_refl] eq by simp
  qed
qed

definition tells :: "emission \<Rightarrow> exec_core \<Rightarrow> exec_core \<Rightarrow> bool" where
  "tells e st st' \<longleftrightarrow> (\<exists>ws. xc_out st' = xc_out st @ ws \<and> e \<in> set ws)"

lemma tells_later: "moves a b x \<Longrightarrow> tells e b c \<Longrightarrow> tells e a c"
  by (force simp: moves_def tells_def)

lemma tells_then: "tells e a b \<Longrightarrow> moves b c x \<Longrightarrow> tells e a c"
  by (force simp: moves_def tells_def)

lemma tells_new: "tells e st st' \<Longrightarrow> e \<in> set (new_out st st')"
  by (auto simp: tells_def new_out_def)

lemma report_facts:
  assumes "good st"
  shows "moves st (report_done f m r st) (owing (cm_kind m))" "keeps n st (report_done f m r st)"
    "tells (report (cm_kind m) r) st (report_done f m r st)"
proof -
  obtain st1 st2 where s: "streamed st st1" "quiet st1 st2" and eq: "report_done f m r st = emit (report (cm_kind m) r) st2" by (rule report_shape)
  have m1: "moves st st1 {#}" using streamed_moves [OF assms s(1)] .
  have m2: "moves st1 st2 {#}" using quiet_moves [OF moves_good [OF m1] s(2)] .
  have m3: "moves st2 (emit (report (cm_kind m) r) st2) (owing (cm_kind m))" using emit_moves [OF moves_good [OF m2], of "report (cm_kind m) r"] by simp
  show "moves st (report_done f m r st) (owing (cm_kind m))" unfolding eq using moves_then [OF m1 moves_then [OF m2 m3]] .
  show "keeps n st (report_done f m r st)" unfolding eq using streamed_keeps [OF s(1)] quiet_keeps [OF s(2)] emit_keeps keeps_trans by blast
  have "tells (report (cm_kind m) r) st2 (emit (report (cm_kind m) r) st2)" by (simp add: tells_def emit_def)
  then show "tells (report (cm_kind m) r) st (report_done f m r st)" unfolding eq using tells_later [OF moves_then [OF m1 m2]] by blast
qed


text \<open>The result a completed call is reported with, unless it is submitted once more.\<close>

fun settled_result :: "call_kind \<times> nat \<Rightarrow> call_outcome \<Rightarrow> run_result option" where
  "settled_result _ (Returned r) = Some r"
| "settled_result (_, n) (Failed e) =
    (if is_recoverable_pool_error e \<and> n < 1 then None else Some (infra_result ''InfraException'' (fl_repr e)))"

lemma remove_keeps:
  "call_at (st\<lparr>xc_inflight := dpop f (xc_inflight st)\<rparr>) k = (if k = f then None else call_at st k)"
  by (simp add: call_at_def dict_simps)

text \<open>A completed call leaves the table, the other ones stay, and new ones have not completed.\<close>

lemma finish_facts:
  assumes "good st" and st'_def: "st' = finish_future env f st"
  shows "moves st st' {#} \<and> xc_results st' = xc_results st \<and> xc_completed st' = xc_completed st \<and> xc_futures st \<le> xc_futures st' \<and>
    (\<forall>k < xc_futures st. call_at st' k = (if k = f \<and> dget (xc_results st) f \<noteq> None then None else call_at st k)) \<and>
    (\<forall>c out r. call_at st f = Some c \<longrightarrow> dget (xc_results st) f = Some out \<longrightarrow> settled_result c out = Some r \<longrightarrow>
      tells (report (fst c) r) st st')"
proof (cases "dget (xc_inflight st) f")
  case None
  then show ?thesis using moves_refl [OF assms(1)] by (simp add: st'_def finish_future_def call_at_def)
next
  case (Some m)
  show ?thesis
  proof (cases "dget (xc_results st) f")
    case None
    then show ?thesis using Some moves_refl [OF assms(1)] by (simp add: st'_def finish_future_def)
  next
    case out: (Some out)
    define st1 where "st1 = st\<lparr>xc_inflight := dpop f (xc_inflight st)\<rparr>"
    have g1: "good st1" and b1: "books st = owing (cm_kind m) + books st1" using remove_moves [OF assms(1) Some] by (simp_all add: st1_def)
    have c1: "call_at st1 k = (if k = f then None else call_at st k)" for k unfolding st1_def by (rule remove_keeps)
    have same: "xc_results st1 = xc_results st" "xc_completed st1 = xc_completed st" "xc_futures st1 = xc_futures st" "xc_out st1 = xc_out st"
      by (simp_all add: st1_def)
    have wrap: ?thesis if m: "moves st1 st' (owing (cm_kind m))" and k: "keeps (xc_futures st1) st1 st'"
      and r: "\<And>r. settled_result (cm_kind m, cm_recoveries m) out = Some r \<Longrightarrow> tells (report (cm_kind m) r) st1 st'"
    proof -
      have "moves st st' {#}" using m b1 same(4) by (simp add: moves_def add_ac)
      moreover have "tells (report (cm_kind m) r) st st'" if "settled_result (cm_kind m, cm_recoveries m) out = Some r" for r
        using r [OF that] same(4) by (simp add: tells_def)
      ultimately show ?thesis using k c1 same out Some by (auto simp: keeps_def call_at_def)
    qed
    show ?thesis
    proof (cases out)
      case (Returned r)
      have eq: "st' = report_done f m r st1" using Some out Returned by (simp add: st'_def finish_future_def Let_def st1_def)
      show ?thesis by (rule wrap) (use report_facts [OF g1] Returned in \<open>simp_all add: eq\<close>)
    next
      case (Failed e)
      define st2 where "st2 = (if cm_stream m \<noteq> None then st1\<lparr>xc_streams := dpop f (xc_streams st1)\<rparr> else st1)"
      have q2: "quiet st1 st2" by (simp add: st2_def)
      have m2: "moves st1 st2 {#}" using quiet_moves [OF g1 q2] .
      obtain st3 res where rc: "recover_or_fail_future env e m st2 = (st3, res)" by (rule prod.exhaust)
      note R = recover_facts [OF moves_good [OF m2] rc]
      have f2: "xc_futures st2 = xc_futures st1" by (simp add: st2_def)
      have k3: "keeps (xc_futures st1) st1 st3" using quiet_keeps [OF q2] R keeps_trans unfolding f2 by blast
      have eq: "st' = (case res of None \<Rightarrow> st3 | Some r \<Rightarrow> report_done f m r st3)"
        using Some out Failed rc [unfolded st2_def]
        by (cases "cm_stream m") (simp_all add: st'_def finish_future_def Let_def st1_def [symmetric])
      show ?thesis
      proof (cases res)
        case None
        have "moves st2 st3 (owing (cm_kind m))" using R None by simp
        with m2 have "moves st1 st3 (owing (cm_kind m))" by (rule moves_then)
        then show ?thesis by (intro wrap) (use k3 eq None R Failed in auto)
      next
        case r: (Some r)
        have "moves st2 st3 {#}" using R r by simp
        with m2 have m3: "moves st1 st3 {#}" by (rule moves_then)
        note F = report_facts [OF moves_good [OF m3], where f = f and m = m and r = r]
        have "moves st1 (report_done f m r st3) (owing (cm_kind m))" using m3 F(1) by (rule moves_then)
        moreover have "keeps (xc_futures st1) st1 (report_done f m r st3)" using k3 F(2) by (rule keeps_trans)
        moreover have "r = infra_result ''InfraException'' (fl_repr e)" using R r by simp
        ultimately show ?thesis by (intro wrap) (use tells_later [OF m3 F(3)] eq r Failed in \<open>auto split: if_splits\<close>)
      qed
    qed
  qed
qed


text \<open>Whatever has completed and is still in flight waits to be looked at.\<close>

definition due :: "exec_core \<Rightarrow> nat list \<Rightarrow> bool" where
  "due st fs \<longleftrightarrow> (\<forall>k. call_at st k \<noteq> None \<longrightarrow> dget (xc_results st) k \<noteq> None \<longrightarrow> k \<in> set fs)"

definition core_ok :: "exec_core \<Rightarrow> bool" where
  "core_ok st \<longleftrightarrow> good st \<and> due st (xc_completed st) \<and> (\<forall>k \<in> set (xc_completed st). dget (xc_results st) k \<noteq> None)"

lemma due_finish:
  assumes "good st" "due st (f # fs)"
  shows "due (finish_future env f st) fs"
  unfolding due_def
proof (intro allI impI)
  fix k assume k: "call_at (finish_future env f st) k \<noteq> None" "dget (xc_results (finish_future env f st)) k \<noteq> None"
  note F = finish_facts [OF assms(1) refl, of env f]
  have r: "dget (xc_results st) k \<noteq> None" using k(2) F by simp
  then have "k < xc_futures st" using assms(1) unfolding good_def by blast
  then have "k \<noteq> f" "call_at st k \<noteq> None" using F k(1) r by (auto split: if_splits)
  then show "k \<in> set fs" using assms(2) r by (auto simp: due_def)
qed

lemma finish_fold:
  assumes "good st" "due st fs"
  shows "moves st (fold (finish_future env) fs st) {#} \<and> due (fold (finish_future env) fs st) [] \<and>
    xc_completed (fold (finish_future env) fs st) = xc_completed st \<and> xc_results (fold (finish_future env) fs st) = xc_results st"
  using assms
proof (induction fs arbitrary: st)
  case Nil
  then show ?case by (simp add: moves_refl)
next
  case (Cons f fs)
  note F = finish_facts [OF Cons.prems(1) refl, of env f]
  have m: "moves st (finish_future env f st) {#}" using F by blast
  show ?case using Cons.IH [OF moves_good [OF m] due_finish [OF Cons.prems]] F moves_then [OF m] by simp
qed

text \<open>A completed call of the list is reported, unless it is submitted once more.\<close>

lemma finish_fold_moves: "good st \<Longrightarrow> moves st (fold (finish_future env) fs st) {#}"
proof (induction fs arbitrary: st)
  case (Cons f fs)
  have m: "moves st (finish_future env f st) {#}" using finish_facts [OF Cons.prems refl] by blast
  show ?case using moves_then [OF m Cons.IH [OF moves_good [OF m]]] by simp
qed (simp add: moves_refl)

lemma finish_reports:
  assumes "good st" "f \<in> set fs" "call_at st f = Some c" "dget (xc_results st) f = Some out" "settled_result c out = Some r"
  shows "tells (report (fst c) r) st (fold (finish_future env) fs st)"
  using assms
proof (induction fs arbitrary: st)
  case (Cons g fs)
  note F = finish_facts [OF Cons.prems(1) refl, of env g]
  have m: "moves st (finish_future env g st) {#}" using F by blast
  show ?case
  proof (cases "g = f")
    case True
    then have "tells (report (fst c) r) st (finish_future env g st)" using F Cons.prems by blast
    then show ?thesis using tells_then [OF _ finish_fold_moves [OF moves_good [OF m]]] by simp
  next
    case False
    have "f < xc_futures st" using Cons.prems(1,4) unfolding good_def by blast
    then have "call_at (finish_future env g st) f = Some c" "dget (xc_results (finish_future env g st)) f = Some out"
      using F False Cons.prems(3,4) by simp_all
    then show ?thesis using tells_later [OF m Cons.IH [OF moves_good [OF m]]] False Cons.prems by simp
  qed
qed simp

lemma poll_facts:
  assumes "core_ok st"
  shows "moves st (poll_once env now st) {#} \<and> core_ok (poll_once env now st) \<and> due (poll_once env now st) [] \<and>
    (\<forall>f c out r. call_at st f = Some c \<longrightarrow> dget (xc_results st) f = Some out \<longrightarrow> settled_result c out = Some r \<longrightarrow>
      tells (report (fst c) r) st (poll_once env now st))"
proof -
  define st1 where "st1 = drain_stream_queues st"
  define st2 where "st2 = st1\<lparr>xc_completed := []\<rparr>"
  define st3 where "st3 = fold (finish_future env) (xc_completed st1) st2"
  have p: "poll_once env now st = expire_service_timeouts now st3"
    by (simp add: poll_once_def drain_completed_futures_def st1_def st2_def st3_def)
  have good: "good st" and d: "due st (xc_completed st)" using assms by (simp_all add: core_ok_def)
  have s: "streamed st st1" unfolding st1_def by (rule drain_queues_streamed)
  have m1: "moves st st1 {#}" using streamed_moves [OF good s] .
  have m12: "moves st1 st2 {#}" using moves_good [OF m1]
    by (simp add: st2_def moves_def good_def books_def all_paid_def in_flight_def)
  with m1 have m2: "moves st st2 {#}" by (rule moves_then)
  have calls: "call_at st2 k = call_at st k" "xc_results st2 = xc_results st" "xc_completed st1 = xc_completed st" "xc_completed st2 = []" for k
    using streamed_keeps [OF s, of "Suc k"] by (simp_all add: keeps_def st2_def call_at_def)
  have d2: "due st2 (xc_completed st1)" using d calls by (simp add: due_def)
  note F = finish_fold [OF moves_good [OF m2] d2, of env, folded st3_def]
  have m3: "moves st st3 {#}" using m2 F moves_then by blast
  have m4: "moves st3 (poll_once env now st) {#}" unfolding p using stops_moves(3) [OF moves_good [OF m3]] .
  have fewer: "dget (xc_inflight (fold expire_call fs st')) k \<noteq> None \<Longrightarrow> dget (xc_inflight st') k \<noteq> None" for fs st' k
  proof (induction fs arbitrary: st')
    case (Cons x fs)
    obtain f m where x: "x = (f, m)" by (cases x)
    have "dget (xc_inflight (expire_call x st')) k \<noteq> None" using Cons by simp
    then show ?case by (cases "cm_kind m") (auto simp: x expire_call_def Let_def dict_simps split: if_splits)
  qed simp
  have same: "xc_results (fold expire_call fs st') = xc_results st' \<and> xc_completed (fold expire_call fs st') = xc_completed st'" for fs st'
  proof (induction fs arbitrary: st')
    case (Cons x fs)
    have "xc_results (expire_call x st') = xc_results st' \<and> xc_completed (expire_call x st') = xc_completed st'"
      by (auto simp: expire_call_def Let_def emit_def cleanup_stream_state_def shutdown_executor_def split: prod.split call_kind.split option.split)
    then show ?case using Cons.IH by simp
  qed simp
  have d4: "due (poll_once env now st) []"
    unfolding due_def
  proof (intro allI impI)
    fix k assume k: "call_at (poll_once env now st) k \<noteq> None" "dget (xc_results (poll_once env now st)) k \<noteq> None"
    have "call_at st3 k \<noteq> None" using k(1) fewer unfolding p expire_service_timeouts_def call_at_def by simp
    moreover have "dget (xc_results st3) k \<noteq> None" using k(2) same unfolding p expire_service_timeouts_def by simp
    ultimately show "k \<in> set []" using F by (auto simp: due_def)
  qed
  have "xc_completed (poll_once env now st) = []" unfolding p expire_service_timeouts_def using same F calls(4) by simp
  then have "core_ok (poll_once env now st)" using moves_good [OF m4] d4 by (simp add: core_ok_def)
  moreover have "tells (report (fst c) r) st (poll_once env now st)"
    if "call_at st f = Some c" "dget (xc_results st) f = Some out" "settled_result c out = Some r" for f c out r
  proof -
    have "f \<in> set (xc_completed st1)" using d that(1,2) calls(3) by (simp add: due_def)
    then have "tells (report (fst c) r) st2 st3" unfolding st3_def
      using finish_reports [OF moves_good [OF m2]] that calls(1,2) by simp
    then show ?thesis using tells_then [OF tells_later [OF m2] m4] by blast
  qed
  ultimately show ?thesis using moves_then [OF m3 m4] d4 by blast
qed


section \<open>Every history\<close>

text \<open>A request only takes calls away, or adds new ones.\<close>

definition sheds :: "nat \<Rightarrow> exec_core \<Rightarrow> exec_core \<Rightarrow> bool" where
  "sheds n st st' \<longleftrightarrow> (\<forall>k < n. call_at st' k \<noteq> None \<longrightarrow> call_at st k \<noteq> None) \<and> xc_results st' = xc_results st \<and> xc_completed st' = xc_completed st"

lemma keeps_sheds: "keeps n st st' \<Longrightarrow> sheds n st st'"
  by (simp add: keeps_def sheds_def)

lemma sheds_trans: "sheds n a b \<Longrightarrow> sheds n b c \<Longrightarrow> sheds n a c"
  by (simp add: sheds_def)

lemma sheds_core_ok:
  assumes "core_ok st" "good st'" "sheds (xc_futures st) st st'"
  shows "core_ok st'"
proof -
  have good: "good st" using assms(1) by (simp add: core_ok_def)
  have "due st' (xc_completed st')"
    unfolding due_def
  proof (intro allI impI)
    fix k assume k: "call_at st' k \<noteq> None" "dget (xc_results st') k \<noteq> None"
    then have r: "dget (xc_results st) k \<noteq> None" using assms(3) by (simp add: sheds_def)
    then have "k < xc_futures st" using good unfolding good_def by blast
    then have "call_at st k \<noteq> None" using k(1) assms(3) by (simp add: sheds_def)
    then show "k \<in> set (xc_completed st')" using r assms(1,3) by (simp add: core_ok_def due_def sheds_def)
  qed
  then show ?thesis using assms by (simp add: core_ok_def sheds_def)
qed

lemma fold_sheds:
  assumes "\<And>x st. sheds n st (g x st)"
  shows "sheds n st (fold g xs st)"
proof (induction xs arbitrary: st)
  case (Cons x xs)
  then show ?case using sheds_trans [OF assms Cons.IH] by simp
qed (simp add: sheds_def)

lemma fail_sheds: "sheds n st (fail_service_call reason x st)" "sheds n st (fail_pool_call reason x st)"
  by (auto simp: sheds_def call_at_def fail_service_call_def fail_pool_call_def emit_def cleanup_stream_state_def dict_simps
      split: prod.split call_kind.split option.split)

lemma stop_sheds: "sheds n st (fst (fail_service_inflight sid reason st))" "sheds n st (fst (fail_pool_inflight pid reason st))"
  by (simp_all add: fail_service_inflight_def fail_pool_inflight_def Let_def fold_sheds fail_sheds)

lemma quiet_sheds: "quiet st st' \<Longrightarrow> sheds n st st'"
  using quiet_keeps keeps_sheds by blast

lemma emit_sheds: "sheds n st (emit e st)"
  using emit_keeps keeps_sheds by blast

lemma tracked_sheds:
  assumes "submit_future env key st = (st1, r)"
  shows "sheds (xc_futures st) st st1" "r = Inr f \<Longrightarrow> sheds (xc_futures st) st (track_inflight f m st1)"
proof -
  have q: "quiet_future st (st1, r)" using quiet_submit_future [of st env key] assms by simp
  then show s: "sheds (xc_futures st) st st1" using quiet_sheds by (simp add: quiet_future_def)
  show "sheds (xc_futures st) st (track_inflight f m st1)" if "r = Inr f"
    using sheds_trans [OF s keeps_sheds [OF track_keeps]] q that by (simp add: quiet_future_def)
qed

lemma background_sheds: "sheds n st (background_calls env rid key fanout st)"
proof -
  obtain st1 r where e: "ensure_executor env key st = (st1, r)" by (rule prod.exhaust)
  have q1: "quiet st st1" using quiet_ensure [of st env key] e by simp
  have "sheds n st (emit x st2)" if "quiet st st2" for x st2 using sheds_trans [OF quiet_sheds [OF that] emit_sheds] .
  moreover have "quiet st st2" if "submit_background env key k x st1 = (st2, r2)" for k x st2 r2
    using quiet_trans [OF q1 quiet_background [of st1 env key k x]] that by simp
  ultimately show ?thesis using q1 quiet_refl quiet_trans [OF _ quiet_workers(1)]
    unfolding background_calls_def Let_def e by (simp split: sum.split prod.split)
qed

lemma call_service_sheds: "sheds (xc_futures st) st (call_service env rid sid spec timeout streaming now st)"
proof -
  let ?st0 = "if streaming then st\<lparr>xc_queues := dset (xc_submits st) [] (xc_queues st)\<rparr> else st"
  obtain st1 r where s: "submit_future env (ServiceKey sid) ?st0 = (st1, r)" by (rule prod.exhaust)
  have f: "xc_futures ?st0 = xc_futures st" by simp
  have q: "sheds (xc_futures st) st ?st0" by (rule quiet_sheds) simp
  have "sheds (xc_futures st) st st1" "r = Inr x \<Longrightarrow> sheds (xc_futures st) st (track_inflight x m st1)" for x m
    using sheds_trans [OF q] tracked_sheds [OF s, unfolded f] by blast+
  then show ?thesis using emit_sheds sheds_trans [OF _ emit_sheds] unfolding call_service_def Let_def s
    by (cases r; cases "dget (xc_workers st) (ServiceKey sid)") simp_all
qed

lemma submit_task_sheds: "sheds (xc_futures st) st (submit_task env rid key m st)"
proof -
  obtain st1 r where s: "submit_future env key st = (st1, r)" by (rule prod.exhaust)
  show ?thesis using tracked_sheds [OF s] sheds_trans [OF _ emit_sheds] unfolding submit_task_def s
    by (cases r) simp_all
qed

lemma create_sheds: "sheds n st (create_executor_for env rid key workers st)"
proof -
  let ?st0 = "st\<lparr>xc_workers := dset key (max 1 (num_or workers 1)) (xc_workers st)\<rparr>"
  obtain st1 r where b: "rebuild_executor env key False ?st0 = (st1, r)" by (rule prod.exhaust)
  have "quiet ?st0 st1" using quiet_rebuild [of ?st0 env key False] b by simp
  then have "quiet st st1" by (rule quiet_trans [OF quiet_fields(2)])
  then show ?thesis using sheds_trans [OF quiet_sheds emit_sheds] b by (cases r) (simp_all add: create_executor_for_def)
qed

lemma stopped_sheds:
  assumes "sheds n (forget_executor key st) st1"
  shows "sheds n st (emit e (shutdown_executor x st1))"
  using sheds_trans [OF quiet_sheds [OF quiet_forget] sheds_trans [OF assms sheds_trans [OF quiet_sheds [OF quiet_shutdown] emit_sheds]]] .

lemma handle_sheds: "sheds (xc_futures st) st (fst (handle_request env now rid req st))"
proof (cases req)
  case (StopService sid reason)
  then show ?thesis using stopped_sheds [OF stop_sheds(1)] by (simp add: case_prod_unfold)
next
  case (StopPool pid reason)
  then show ?thesis using stopped_sheds [OF stop_sheds(2)] by (simp add: case_prod_unfold)
qed (use create_sheds background_sheds call_service_sheds submit_task_sheds emit_sheds in simp_all)

lemma core_step_facts:
  assumes "core_ok st"
  shows "core_ok (core_step env e st)" "moves st (core_step env e st) (core_taken env e st)"
proof -
  have good: "good st" using assms by (simp add: core_ok_def)
  have "core_ok (core_step env e st) \<and> moves st (core_step env e st) (core_taken env e st)"
  proof (cases e)
    case (Handle rid req now)
    note m = handle_moves [OF good, of env now rid req]
    show ?thesis using m sheds_core_ok [OF assms moves_good [OF m] handle_sheds] Handle by simp
  next
    case (Poll now)
    then show ?thesis using poll_facts [OF assms, of env now] by simp
  next
    case (Complete f out)
    have "core_ok (complete_future f out st)" using assms
      by (auto simp: complete_future_def core_ok_def good_def due_def call_at_def dict_simps)
    moreover have "moves st (complete_future f out st) {#}" if "good (complete_future f out st)"
      using that by (simp add: moves_def books_def all_paid_def in_flight_def complete_future_def)
    ultimately show ?thesis using Complete by (simp add: core_ok_def)
  next
    case (PutItem q item)
    have "quiet st (put_item q item st)" by (simp add: put_item_def split: option.split)
    then have "moves st (put_item q item st) {#}" "sheds (xc_futures st) st (put_item q item st)"
      using quiet_moves [OF good] quiet_sheds by blast+
    then show ?thesis using PutItem sheds_core_ok [OF assms moves_good] by simp
  qed
  then show "core_ok (core_step env e st)" "moves st (core_step env e st) (core_taken env e st)" by blast+
qed

lemma new_core_ok: "core_ok (new_exec_core n)"
  by (simp add: core_ok_def good_def due_def call_at_def new_exec_core_def)

interpretation core: ledger "core_step env" core_ok books "core_taken env" for env
  by unfold_locales (use core_step_facts in \<open>auto simp: moves_def\<close>)

text \<open>
  C4: every request is answered once. After every history the answers given, with the service calls
  still in flight, are exactly the requests handled, each as often as it was made; and the tasks
  reported as done, with the tasks still in flight, are exactly the tasks accepted, each as often as
  it was accepted - whatever raises, breaks, times out or is stopped in between.
\<close>

theorem every_request_answered_once:
  "let st = core_run env evs (new_exec_core n)
   in all_paid st + in_flight st = total_taken (core_step env) (core_taken env) evs (new_exec_core n)"
  using core.run_balanced [OF new_core_ok, of env evs n]
  by (simp add: core_run_def books_def) (simp add: all_paid_def in_flight_def new_exec_core_def)

text \<open>
  C32: a poll settles what has completed. In every state a history reaches, when a call in flight
  completes and the core polls, the call is reported with its result, or with an infrastructure
  failure if it failed, except that a call that failed with its process pool for the first time may
  be submitted once more; and after the poll no completed call is in flight.
\<close>

theorem poll_reports_completed:
  assumes st: "st = core_run env evs (new_exec_core n)"
    and m: "dget (xc_inflight st) f = Some m" "dget (xc_results st) f = None"
    and r: "settled_result (cm_kind m, cm_recoveries m) out = Some r"
  shows "report (cm_kind m) r \<in> set (new_out st (core_run env [Complete f out, Poll now] st)) \<and>
    (\<forall>k. dget (xc_inflight (core_run env [Complete f out, Poll now] st)) k \<noteq> None \<longrightarrow>
      dget (xc_results (core_run env [Complete f out, Poll now] st)) k = None)"
proof -
  have ok: "core_ok st" unfolding st core_run_def using core.good_run [OF new_core_ok] .
  define st1 where "st1 = complete_future f out st"
  have ok1: "core_ok st1" using core_step_facts(1) [OF ok, of env "Complete f out"] by (simp add: st1_def)
  have "f < xc_futures st" using ok m(1) unfolding core_ok_def good_def by blast
  then have c: "call_at st1 f = Some (cm_kind m, cm_recoveries m)" "dget (xc_results st1) f = Some out" "xc_out st1 = xc_out st"
    using m by (simp_all add: st1_def complete_future_def call_at_def dict_simps)
  note P = poll_facts [OF ok1, of env now]
  have t: "tells (report (cm_kind m) r) st1 (poll_once env now st1)" using P c r by force
  have "report (cm_kind m) r \<in> set (new_out st (poll_once env now st1))" using tells_new [OF t] c(3) by (simp add: new_out_def)
  moreover have "core_run env [Complete f out, Poll now] st = poll_once env now st1" by (simp add: core_run_def st1_def)
  ultimately show ?thesis using P by (auto simp: due_def call_at_def)
qed


definition demo_exec_env :: exec_env where
  "demo_exec_env = \<lparr>ee_submit = (\<lambda>_ _. None), ee_start = (\<lambda>_. None), ee_fallback = False, ee_pids = (\<lambda>_ _. [])\<rparr>"

text \<open>A task pool with one task, whose worker has died once and been replaced.\<close>

definition demo_core_events :: "core_event list" where
  "demo_core_events = [Handle ''r1'' (CreatePool ''p'' 2) 0, Handle ''r2'' (SubmitPool ''p'' ''t'' 1 ''spec'') 1,
     Complete 0 (Failed \<lparr>fl_broken = True, fl_repr = ''BrokenProcessPool()''\<rparr>), Poll 2]"

definition broken_again :: call_outcome where
  "broken_again = Failed \<lparr>fl_broken = True, fl_repr = ''BrokenProcessPool()''\<rparr>"

theorem poll_reports_completed_witness:
  "PoolTaskDone ''p'' ''t'' 1 (infra_result ''InfraException'' ''BrokenProcessPool()'') \<in>
    set (new_out (core_run demo_exec_env demo_core_events (new_exec_core 1))
      (core_run demo_exec_env [Complete 1 broken_again, Poll 3] (core_run demo_exec_env demo_core_events (new_exec_core 1))))"
proof -
  let ?st = "core_run demo_exec_env demo_core_events (new_exec_core 1)"
  have "map_option (\<lambda>m. (cm_kind m, cm_recoveries m)) (dget (xc_inflight ?st) 1) = Some (PoolCall ''p'' ''t'' 1, 1)" by code_simp
  then obtain m where m: "dget (xc_inflight ?st) 1 = Some m" "cm_kind m = PoolCall ''p'' ''t'' 1" "cm_recoveries m = 1" by auto
  have "dget (xc_results ?st) 1 = None" by code_simp
  moreover have "settled_result (cm_kind m, cm_recoveries m) broken_again = Some (infra_result ''InfraException'' ''BrokenProcessPool()'')"
    by (simp add: broken_again_def m)
  ultimately show ?thesis using poll_reports_completed [OF refl m(1), of broken_again _ 3] m(2) by simp
qed

end
