(* ===== verification/ExecutorPools.thy ===== *)
theory ExecutorPools
  imports ExecutorAnswers
begin

text \<open>
  The process pools of the executor core: every pool that was started is either recorded for one
  key, with the number of workers asked for, or has been shut down, and never both.
\<close>

section \<open>Two more laws of the recorded pools\<close>

definition known :: "exec_core \<Rightarrow> exec_key \<Rightarrow> bool" where
  "known st k \<longleftrightarrow> k = TaskKey \<or> dget (xc_workers st) k \<noteq> None"

definition well_sized :: "exec_core \<Rightarrow> exec_key \<Rightarrow> executor_pool \<Rightarrow> bool" where
  "well_sized st k x \<longleftrightarrow> known st k \<and> ex_workers x = key_workers st k \<and> 1 \<le> ex_workers x"

definition tidy_but :: "exec_key set \<Rightarrow> exec_core \<Rightarrow> bool" where
  "tidy_but K st \<longleftrightarrow> dwf (xc_executors st) \<and> 1 \<le> xc_capacity st \<and>
    (\<forall>k x. dget (xc_executors st) k = Some x \<longrightarrow> k \<notin> K \<longrightarrow> well_sized st k x)"

definition pool_books :: "exec_core \<Rightarrow> nat multiset" where
  "pool_books st = tally (\<lambda>x. {#ex_id x#}) (xc_executors st) + mset (xc_shut st)"

definition started :: "exec_env \<Rightarrow> exec_core \<Rightarrow> exec_core \<Rightarrow> nat multiset" where
  "started env st st' = mset (filter (\<lambda>n. ee_start env n = None) [xc_created st ..< xc_created st'])"

text \<open>A section that keeps the books of the pools, whatever it does to the rest.\<close>

definition accounts :: "exec_env \<Rightarrow> exec_core \<Rightarrow> exec_core \<Rightarrow> bool" where
  "accounts env st st' \<longleftrightarrow> xc_created st \<le> xc_created st' \<and> xc_capacity st' = xc_capacity st \<and> pool_books st' = pool_books st + started env st st'"

definition same_pools :: "exec_core \<Rightarrow> exec_core \<Rightarrow> bool" where
  "same_pools st st' \<longleftrightarrow> xc_executors st' = xc_executors st \<and> xc_workers st' = xc_workers st \<and> xc_capacity st' = xc_capacity st \<and>
    xc_shut st' = xc_shut st \<and> xc_created st' = xc_created st"

text \<open>A section that, besides, leaves the known keys alone and the records in order.\<close>

definition orderly :: "exec_env \<Rightarrow> exec_core \<Rightarrow> exec_core \<Rightarrow> bool" where
  "orderly env st st' \<longleftrightarrow> accounts env st st' \<and> xc_workers st' = xc_workers st \<and> tidy_but {} st'"

lemma started_refl [simp]: "started env st st = {#}"
  by (simp add: started_def)

lemma started_trans:
  assumes "xc_created a \<le> xc_created b" "xc_created b \<le> xc_created c"
  shows "started env a b + started env b c = started env a c"
proof -
  have "[xc_created a ..< xc_created c] = [xc_created a ..< xc_created b] @ [xc_created b ..< xc_created c]"
    using assms by (metis le_Suc_ex upt_add_eq_append)
  then show ?thesis by (simp add: started_def)
qed

lemma accounts_refl [simp]: "accounts env st st"
  by (simp add: accounts_def)

lemma accounts_trans: "accounts env a b \<Longrightarrow> accounts env b c \<Longrightarrow> accounts env a c"
  using started_trans [of a b c env] by (auto simp: accounts_def add.assoc)

lemma same_accounts: "same_pools st st' \<Longrightarrow> accounts env st st'"
  by (simp add: same_pools_def accounts_def pool_books_def started_def)

lemma same_tidy: "same_pools st st' \<Longrightarrow> tidy_but K st \<Longrightarrow> tidy_but K st'"
  by (simp add: same_pools_def tidy_but_def well_sized_def known_def key_workers_def)

lemma same_refl [simp]: "same_pools st st"
  by (simp add: same_pools_def)

lemma same_trans: "same_pools a b \<Longrightarrow> same_pools b c \<Longrightarrow> same_pools a c"
  by (simp add: same_pools_def)

lemma same_orderly: "same_pools st st' \<Longrightarrow> tidy_but {} st \<Longrightarrow> orderly env st st'"
  using same_accounts [of st st' env] same_tidy [of st st' "{}"] by (simp add: orderly_def same_pools_def)

lemma orderly_refl: "tidy_but {} st \<Longrightarrow> orderly env st st"
  by (simp add: orderly_def)

lemma orderly_trans: "orderly env a b \<Longrightarrow> orderly env b c \<Longrightarrow> orderly env a c"
  using accounts_trans [of env a b c] by (simp add: orderly_def)

lemma orderly_known: "orderly env st st' \<Longrightarrow> known st' k = known st k"
  by (simp add: orderly_def known_def)

lemma orderly_tidy: "orderly env st st' \<Longrightarrow> tidy_but {} st'"
  by (simp add: orderly_def)

lemma same_fields [simp]:
  "same_pools st (st\<lparr>xc_inflight := a\<rparr>)" "same_pools st (st\<lparr>xc_streams := b\<rparr>)" "same_pools st (st\<lparr>xc_queues := c\<rparr>)"
  "same_pools st (st\<lparr>xc_inflight := a, xc_streams := b\<rparr>)" "same_pools st (st\<lparr>xc_submits := n\<rparr>)" "same_pools st (st\<lparr>xc_completed := l\<rparr>)"
  "same_pools st (st\<lparr>xc_results := r, xc_completed := l\<rparr>)" "same_pools st (emit e st)" "same_pools st (cleanup_stream_state m st)"
  "same_pools st (track_inflight f m st)" "same_pools st (set_emitted f k st)" "same_pools st (emit_executor_workers env key x st)"
  "same_pools st (fst (submit_callable env x st))" "same_pools st (complete_future f out st)" "same_pools st (put_item q item st)"
  by (simp_all add: same_pools_def emit_def cleanup_stream_state_def track_inflight_def set_emitted_def emit_executor_workers_def
      submit_callable_def complete_future_def put_item_def Let_def split: option.split)

section \<open>Starting and stopping pools\<close>

lemma new_pool_books:
  assumes "new_process_pool env w force st = (st', r)"
  shows "xc_created st \<le> xc_created st'" "xc_executors st' = xc_executors st" "xc_shut st' = xc_shut st" "xc_workers st' = xc_workers st"
    "xc_capacity st' = xc_capacity st" "started env st st' = (case r of Inl _ \<Rightarrow> {#} | Inr x \<Rightarrow> {#ex_id x#})"
    "r = Inr x \<Longrightarrow> ex_workers x = w"
  using assms by (auto simp: new_process_pool_def Let_def started_def simp del: mset_filter mset_upt split: option.splits if_splits)

lemma shut_books:
  assumes "dwf (xc_executors st)"
  shows "pool_books (shutdown_executor (dget (xc_executors st) key) (st\<lparr>xc_executors := dpop key (xc_executors st)\<rparr>)) = pool_books st"
proof (cases "dget (xc_executors st) key")
  case None
  then have "dpop key (xc_executors st) = xc_executors st" using map_of_eq_None_iff [of "xc_executors st" key] by (simp add: delete_id)
  then show ?thesis using None by (simp add: shutdown_executor_def)
next
  case (Some x)
  then show ?thesis using tally_dpop [OF assms Some, of "\<lambda>x. {#ex_id x#}"] by (simp add: shutdown_executor_def pool_books_def)
qed

lemma shutdown_other [simp]:
  "xc_executors (shutdown_executor x st) = xc_executors st" "xc_workers (shutdown_executor x st) = xc_workers st"
  "xc_capacity (shutdown_executor x st) = xc_capacity st" "xc_created (shutdown_executor x st) = xc_created st"
  by (simp_all add: shutdown_executor_def split: option.split)

lemma sized_cong: "xc_workers st' = xc_workers st \<Longrightarrow> xc_capacity st' = xc_capacity st \<Longrightarrow> well_sized st' k x = well_sized st k x"
  by (simp add: well_sized_def known_def key_workers_def)

lemma key_workers_pos: "1 \<le> xc_capacity st \<Longrightarrow> 1 \<le> key_workers st key"
  by (simp add: key_workers_def)

lemma rebuild_orderly:
  assumes "tidy_but {key} st" "known st key"
  shows "orderly env st (fst (rebuild_executor env key force st))"
    and "rebuild_executor env key force st = (st', Inr x) \<Longrightarrow> well_sized st key x"
proof -
  let ?st1 = "shutdown_executor (dget (xc_executors st) key) (st\<lparr>xc_executors := dpop key (xc_executors st)\<rparr>)"
  obtain st2 r where n: "new_process_pool env (key_workers st key) force ?st1 = (st2, r)" by (rule prod.exhaust)
  note N = new_pool_books [OF n]
  have wf: "dwf (xc_executors st)" using assms(1) by (simp add: tidy_but_def)
  have b: "pool_books ?st1 = pool_books st" using shut_books [OF wf] .
  have pos: "1 \<le> key_workers st key" using assms(1) key_workers_pos by (simp add: tidy_but_def)
  have old: "well_sized st k x" if "dget (dpop key (xc_executors st)) k = Some x" for k x
    using that assms(1) by (auto simp: tidy_but_def dict_simps split: if_splits)
  have size: "well_sized st key x" if "r = Inr x" for x using N(7) [OF that] pos assms(2) by (simp add: well_sized_def)
  show "orderly env st (fst (rebuild_executor env key force st))"
  proof (cases r)
    case (Inl e)
    then have "rebuild_executor env key force st = (st2, Inl e)" using n by (simp add: rebuild_executor_def)
    moreover have "pool_books st2 = pool_books st" using N b by (simp add: pool_books_def)
    moreover have "tidy_but {} st2" using N sized_cong [of st2 st] old wf assms(1) by (simp add: tidy_but_def)
    ultimately show ?thesis using N Inl by (simp add: orderly_def accounts_def started_def)
  next
    case (Inr x)
    let ?st3 = "st2\<lparr>xc_executors := dset key x (xc_executors st2)\<rparr>"
    have "dget (xc_executors st2) key = None" using N(2) by (simp add: dict_simps)
    then have "pool_books ?st3 = pool_books ?st1 + {#ex_id x#}" using N by (simp add: pool_books_def tally_dset_new add_ac)
    moreover have "tidy_but {} ?st3"
      using N sized_cong [of "?st3" st] old wf size [OF Inr] assms(1) by (auto simp: tidy_but_def dget_dset split: if_splits)
    ultimately show ?thesis using N Inr n b by (simp add: rebuild_executor_def orderly_def accounts_def started_def)
  qed
  show "well_sized st key x" if "rebuild_executor env key force st = (st', Inr x)"
    using that n size by (auto simp: rebuild_executor_def split: sum.splits)
qed

lemma tidy_any: "tidy_but {} st \<Longrightarrow> tidy_but K st"
  by (simp add: tidy_but_def)

lemmas rebuild_tidy = rebuild_orderly(1) [OF tidy_any]

section \<open>Submissions\<close>

lemma submitted_same: "submit_callable env x st = (st1, r) \<Longrightarrow> same_pools st st1"
  using same_fields(13) [of st env x] by simp

lemma fallback_orderly:
  assumes "tidy_but {} st" "known st key"
  shows "orderly env st (fst (submit_with_spawn_fallback env key x st))"
proof -
  obtain st1 r where s: "submit_callable env x st = (st1, r)" by (rule prod.exhaust)
  have o1: "orderly env st st1" using same_orderly [OF submitted_same [OF s] assms(1)] .
  obtain st2 r2 where b: "rebuild_executor env key True st1 = (st2, r2)" by (rule prod.exhaust)
  have "known st1 key" using orderly_known [OF o1] assms(2) by simp
  then have "orderly env st1 st2" using rebuild_tidy [OF orderly_tidy [OF o1], of key env True] b by simp
  with o1 have o2: "orderly env st st2" by (rule orderly_trans)
  have o3: "orderly env st st3" if "submit_callable env y st2 = (st3, r3)" for y st3 r3
    using orderly_trans [OF o2 same_orderly [OF submitted_same [OF that] orderly_tidy [OF o2]]] .
  show ?thesis using o1 o2 o3 unfolding submit_with_spawn_fallback_def s by (simp add: b split: sum.split prod.split)
qed

lemma tracked_orderly:
  assumes "tidy_but {} st" "known st key"
  shows "orderly env st (fst (submit_tracked env key x st))"
proof -
  obtain st1 r where s: "submit_with_spawn_fallback env key x st = (st1, r)" by (rule prod.exhaust)
  then have o1: "orderly env st st1" using fallback_orderly [OF assms, of env x] by simp
  have "orderly env st (emit_executor_workers env key y st1)" for y
    using orderly_trans [OF o1 same_orderly [OF same_fields(12) orderly_tidy [OF o1]]] .
  then show ?thesis using o1 unfolding submit_tracked_def s by (simp split: sum.split prod.split)
qed

lemma ensure_orderly:
  assumes "tidy_but {} st"
  shows "orderly env st (fst (ensure_executor env key st))"
  using rebuild_tidy [OF assms, of key env False] orderly_refl [OF assms, of env]
  by (auto simp: ensure_executor_def known_def split: option.split)

lemma ensured_known:
  assumes "tidy_but {} st" "ensure_executor env key st = (st1, Inr x)"
  shows "known st key"
  using assms by (auto simp: ensure_executor_def known_def tidy_but_def well_sized_def split: option.splits if_splits)

lemma submit_future_orderly:
  assumes "tidy_but {} st"
  shows "orderly env st (fst (submit_future env key st))"
proof -
  obtain st1 r where e: "ensure_executor env key st = (st1, r)" by (rule prod.exhaust)
  then have o1: "orderly env st st1" using ensure_orderly [OF assms, of env key] by simp
  show ?thesis
  proof (cases r)
    case (Inl err)
    then show ?thesis using e o1 by (simp add: submit_future_def)
  next
    case (Inr x)
    have k: "known st key" using ensured_known [OF assms] e Inr by simp
    obtain st2 r2 where t: "submit_tracked env key x st1 = (st2, r2)" by (rule prod.exhaust)
    have o: "orderly env st (fst (submit_tracked env key y st'))" if "orderly env st st'" for y st'
      using orderly_trans [OF that tracked_orderly [OF orderly_tidy [OF that]]] orderly_known [OF that] k by simp
    have o2: "orderly env st st2" using o [OF o1, of x] t by simp
    obtain st3 r3 where b: "rebuild_executor env key False st2 = (st3, r3)" by (rule prod.exhaust)
    have "known st2 key" using orderly_known [OF o2] k by simp
    then have "orderly env st2 st3" using rebuild_tidy [OF orderly_tidy [OF o2], of key env False] b by simp
    with o2 have o3: "orderly env st st3" by (rule orderly_trans)
    show ?thesis using o2 o3 o [OF o3] unfolding submit_future_def e Inr by (simp add: t b split: sum.split prod.split)
  qed
qed

lemma background_orderly:
  assumes "tidy_but {} st" "known st key"
  shows "orderly env st (fst (submit_background env key n x st))"
  using assms
proof (induction n arbitrary: x st)
  case (Suc n)
  obtain st1 r where s: "submit_with_spawn_fallback env key x st = (st1, r)" by (rule prod.exhaust)
  have o1: "orderly env st st1" using fallback_orderly [OF Suc.prems, of env x] s by simp
  have "orderly env st (fst (submit_background env key n y st1))" for y
    using orderly_trans [OF o1 Suc.IH [OF orderly_tidy [OF o1]]] orderly_known [OF o1] Suc.prems(2) by simp
  then show ?case using o1 s by (simp split: sum.split prod.split)
qed (simp add: orderly_refl)

lemma emit_orderly: "orderly env st st' \<Longrightarrow> orderly env st (emit e st')"
  using orderly_trans [OF _ same_orderly [OF same_fields(8) orderly_tidy]] .

lemma background_calls_orderly:
  assumes "tidy_but {} st"
  shows "orderly env st (background_calls env rid key fanout st)"
proof -
  obtain st1 r where e: "ensure_executor env key st = (st1, r)" by (rule prod.exhaust)
  then have o1: "orderly env st st1" using ensure_orderly [OF assms, of env key] by simp
  have "orderly env st (emit u st2) \<and> orderly env st (emit u (emit_executor_workers env key y st2))"
    if "r = Inr x" "submit_background env key n x st1 = (st2, r2)" for x n st2 r2 y u
  proof -
    have "known st1 key" using orderly_known [OF o1] ensured_known [OF assms] e that(1) by simp
    then have o2: "orderly env st st2" using orderly_trans [OF o1 background_orderly [OF orderly_tidy [OF o1]]] that(2) by (metis fst_conv)
    then show ?thesis using emit_orderly orderly_trans [OF o2 same_orderly [OF same_fields(12) orderly_tidy [OF o2]]] by simp
  qed
  then have "orderly env st (case r of Inl x \<Rightarrow> emit (Reply rid (ReplyError (fl_repr x))) st1
      | Inr x \<Rightarrow> (case submit_background env key (nat (max 1 (num_or fanout 1))) x st1 of
          (st2, Inl x) \<Rightarrow> emit (Reply rid (ReplyError (fl_repr x))) st2
        | (st2, Inr y) \<Rightarrow> emit (Reply rid (ReplySubmitted (max 1 (num_or fanout 1)))) (emit_executor_workers env key y st2)))"
    using emit_orderly [OF o1] by (auto split: sum.split prod.split)
  then show ?thesis using emit_orderly [OF orderly_refl [OF assms]] unfolding background_calls_def Let_def e by simp
qed

section \<open>Requests\<close>

definition tended :: "exec_env \<Rightarrow> exec_core \<Rightarrow> exec_core \<Rightarrow> bool" where
  "tended env st st' \<longleftrightarrow> accounts env st st' \<and> tidy_but {} st'"

lemma orderly_tended: "orderly env st st' \<Longrightarrow> tended env st st'"
  by (simp add: orderly_def tended_def)

lemma tended_emit: "tended env st st' \<Longrightarrow> tended env st (emit e st')"
  using accounts_trans [OF _ same_accounts [OF same_fields(8)]] same_tidy [OF same_fields(8)] by (simp add: tended_def)

lemma create_tended:
  assumes "tidy_but {} st"
  shows "tended env st (create_executor_for env rid key workers st)"
proof -
  let ?st0 = "st\<lparr>xc_workers := dset key (max 1 (num_or workers 1)) (xc_workers st)\<rparr>"
  obtain st1 r where b: "rebuild_executor env key False ?st0 = (st1, r)" by (rule prod.exhaust)
  have "well_sized ?st0 k x = well_sized st k x" if "k \<noteq> key" for k x
    using that by (simp add: well_sized_def known_def key_workers_def dget_or_def dget_dset)
  then have "tidy_but {key} ?st0" using assms by (simp add: tidy_but_def)
  moreover have "known ?st0 key" by (simp add: known_def dget_dset)
  ultimately have "orderly env ?st0 st1" using rebuild_orderly(1) [of key ?st0 env False] b by simp
  then have "tended env st st1" by (simp add: orderly_def tended_def accounts_def pool_books_def started_def)
  then show ?thesis using tended_emit b by (cases r) (simp_all add: create_executor_for_def)
qed

lemma stop_tended:
  assumes "tidy_but {} st" "same_pools (forget_executor key st) st1"
  shows "tended env st (shutdown_executor (dget (xc_executors st) key) st1)"
proof -
  let ?st2 = "shutdown_executor (dget (xc_executors st) key) st1"
  have wf: "dwf (xc_executors st)" using assms(1) by (simp add: tidy_but_def)
  have "pool_books ?st2 = pool_books (shutdown_executor (dget (xc_executors st) key) (st\<lparr>xc_executors := dpop key (xc_executors st)\<rparr>))"
    using assms(2) by (simp add: same_pools_def forget_executor_def pool_books_def shutdown_executor_def split: option.split)
  then have "pool_books ?st2 = pool_books st" using shut_books [OF wf] by simp
  moreover have "well_sized ?st2 k x = well_sized st k x" if "k \<noteq> key" for k x
    using that assms(2) by (simp add: well_sized_def known_def key_workers_def dget_or_def same_pools_def forget_executor_def dget_dpop)
  then have "tidy_but {} ?st2" using assms by (simp add: tidy_but_def same_pools_def forget_executor_def dget_dpop)
  ultimately show ?thesis using assms(2) by (simp add: tended_def accounts_def started_def same_pools_def forget_executor_def)
qed

lemma fold_same: "(\<And>x st. same_pools st (g x st)) \<Longrightarrow> same_pools st (fold g xs st)"
proof (induction xs arbitrary: st)
  case (Cons x xs)
  then show ?case using same_trans by fastforce
qed simp

lemma fail_same: "same_pools st (fst (fail_service_inflight sid reason st))" "same_pools st (fst (fail_pool_inflight pid reason st))"
proof -
  have "same_pools st (fail_service_call reason x st)" for x st
    by (simp add: fail_service_call_def same_pools_def emit_def cleanup_stream_state_def split: prod.split call_kind.split option.split)
  then show "same_pools st (fst (fail_service_inflight sid reason st))" using fold_same [of "fail_service_call reason"] by (simp add: fail_service_inflight_def Let_def)
  have "same_pools st (fail_pool_call reason x st)" for x st
    by (simp add: fail_pool_call_def same_pools_def emit_def split: prod.split call_kind.split)
  then show "same_pools st (fst (fail_pool_inflight pid reason st))" using fold_same [of "fail_pool_call reason"] by (simp add: fail_pool_inflight_def Let_def)
qed

lemma then_same: "orderly env st st' \<Longrightarrow> same_pools st' st'' \<Longrightarrow> orderly env st st''"
  using orderly_trans [OF _ same_orderly [OF _ orderly_tidy]] .

lemma submit_task_orderly:
  assumes "tidy_but {} st"
  shows "orderly env st (submit_task env rid key m st)"
proof -
  obtain st1 r where s: "submit_future env key st = (st1, r)" by (rule prod.exhaust)
  then have o: "orderly env st st1" using submit_future_orderly [OF assms, of env key] by simp
  show ?thesis using emit_orderly [OF o] emit_orderly [OF then_same [OF o same_fields(10)]] unfolding submit_task_def s
    by (simp split: sum.split)
qed

lemma call_service_orderly:
  assumes "tidy_but {} st"
  shows "orderly env st (call_service env rid sid spec timeout streaming now st)"
proof -
  let ?st0 = "if streaming then st\<lparr>xc_queues := dset (xc_submits st) [] (xc_queues st)\<rparr> else st"
  obtain st1 r where s: "submit_future env (ServiceKey sid) ?st0 = (st1, r)" by (rule prod.exhaust)
  have "same_pools st ?st0" by (simp add: same_pools_def)
  then have o0: "orderly env st ?st0" using assms by (rule same_orderly)
  have "orderly env ?st0 st1" using submit_future_orderly [OF orderly_tidy [OF o0], of env "ServiceKey sid"] s by simp
  with o0 have o: "orderly env st st1" by (rule orderly_trans)
  show ?thesis using emit_orderly [OF o] then_same [OF o same_fields(10)] emit_orderly [OF orderly_refl [OF assms]]
    unfolding call_service_def Let_def s by (simp split: sum.split)
qed

lemma handle_tended:
  assumes "tidy_but {} st"
  shows "tended env st (fst (handle_request env now rid req st))"
proof (cases req)
  case (StopService sid reason)
  then show ?thesis using tended_emit [OF stop_tended [OF assms fail_same(1)]] by (simp add: case_prod_unfold)
next
  case (StopPool pid reason)
  then show ?thesis using tended_emit [OF stop_tended [OF assms fail_same(2)]] by (simp add: case_prod_unfold)
qed (use assms create_tended orderly_tended [OF background_calls_orderly] orderly_tended [OF call_service_orderly]
    orderly_tended [OF submit_task_orderly] tended_emit [OF orderly_tended [OF orderly_refl]] in simp_all)

section \<open>Polls\<close>

lemma fold_orderly:
  assumes "\<And>x st. tidy_but {} st \<Longrightarrow> orderly env st (g x st)" "tidy_but {} st"
  shows "orderly env st (fold g xs st)"
  using assms(2)
proof (induction xs arbitrary: st)
  case (Cons x xs)
  have o: "orderly env st (g x st)" using assms(1) [OF Cons.prems] .
  show ?case using orderly_trans [OF o Cons.IH [OF orderly_tidy [OF o]]] by simp
qed (simp add: orderly_refl)

lemma items_same: "same_pools st (fst (emit_stream_items rid n items st))"
proof (induction rid n items st rule: emit_stream_items.induct)
  case (3 rid n i v items st)
  show ?case using same_trans [OF same_fields(8) "3.IH"] by simp
qed simp_all

lemma drain_same: "same_pools st (drain_stream_meta f m st)"
proof -
  have one: "same_pools st st2" if "emit_stream_items rid n items st = (st2, n')" for rid n items st2 n'
    using items_same [of st rid n items] that by simp
  have two: "same_pools st st2" if "emit_stream_items rid n items (st\<lparr>xc_queues := q\<rparr>) = (st2, n')" for rid n items q st2 n'
    by (rule same_trans [OF same_fields(3) [of st q]]) (use items_same [of "st\<lparr>xc_queues := q\<rparr>" rid n items] that in simp)
  show ?thesis using same_trans [OF one same_fields(11)] same_trans [OF two same_fields(11)] by (auto simp: drain_stream_meta_def Let_def split: option.split prod.split)
qed

lemma report_same: "same_pools st (report_done f m r st)"
proof -
  define st1 where "st1 = (if cm_stream m \<noteq> None then drain_stream_meta f m st else st)"
  have one: "same_pools st st1" unfolding st1_def using drain_same by simp
  have two: "same_pools st (emit e st1)" for e by (rule same_trans [OF one same_fields(8)])
  have "same_pools st (cleanup_stream_state m (st1\<lparr>xc_streams := s\<rparr>))" for s
    by (rule same_trans [OF one same_trans [OF same_fields(2) same_fields(9)]])
  then have "same_pools st (emit e (cleanup_stream_state m (st1\<lparr>xc_streams := s\<rparr>)))" for e s
    by (rule same_trans [OF _ same_fields(8)])
  with two show ?thesis unfolding report_done_def Let_def st1_def [symmetric] by (simp split: call_kind.split)
qed

lemma recover_orderly:
  assumes "tidy_but {} st"
  shows "orderly env st (fst (recover_or_fail_future env e m st))"
proof -
  obtain st1 r where s: "submit_future env (call_key (cm_kind m)) st = (st1, r)" by (rule prod.exhaust)
  then have o: "orderly env st st1" using submit_future_orderly [OF assms, of env "call_key (cm_kind m)"] by simp
  have "orderly env st (track_inflight f m' (emit u st1))" for f m' u
    using then_same [OF emit_orderly [OF o] same_fields(10)] .
  then show ?thesis using then_same [OF o same_fields(10)] then_same [OF o same_fields(9)] then_same [OF orderly_refl [OF assms] same_fields(9)]
    unfolding recover_or_fail_future_def Let_def s by (simp split: sum.split)
qed

lemma finish_orderly:
  assumes "tidy_but {} st"
  shows "orderly env st (finish_future env f st)"
proof -
  have popped: "orderly env st (st\<lparr>xc_inflight := i\<rparr>)" for i using then_same [OF orderly_refl [OF assms] same_fields(1)] .
  have both: "orderly env st (st\<lparr>xc_inflight := i, xc_streams := s\<rparr>)" for i s using then_same [OF orderly_refl [OF assms] same_fields(4)] .
  have "orderly env st (report_done f m r st1)" if "orderly env st st1" for m r st1
    using then_same [OF that report_same] .
  moreover have "orderly env st st2" if "recover_or_fail_future env e m (st\<lparr>xc_inflight := i\<rparr>) = (st2, r)" for e m i st2 r
    by (rule orderly_trans [OF popped [of i]]) (use recover_orderly [OF orderly_tidy [OF popped [of i]], of env e m] that in simp)
  moreover have "orderly env st st2" if "recover_or_fail_future env e m (st\<lparr>xc_inflight := i, xc_streams := s\<rparr>) = (st2, r)" for e m i s st2 r
    by (rule orderly_trans [OF both [of s i]]) (use recover_orderly [OF orderly_tidy [OF both [of s i]], of env e m] that in simp)
  ultimately show ?thesis using orderly_refl [OF assms] popped unfolding finish_future_def Let_def
    by (simp split: option.split call_outcome.split prod.split)
qed

lemma expire_orderly:
  assumes "tidy_but {} st"
  shows "orderly env st (expire_call x st)"
proof -
  have pop: "orderly env a (shutdown_executor (dget (xc_executors a) k) (a\<lparr>xc_executors := dpop k (xc_executors a)\<rparr>))" if "tidy_but {} a" for a k
    using that shut_books [of a k] sized_cong [of "shutdown_executor (dget (xc_executors a) k) (a\<lparr>xc_executors := dpop k (xc_executors a)\<rparr>)" a]
    by (simp add: orderly_def accounts_def started_def tidy_but_def dget_dpop)
  have "orderly env st (emit e (shutdown_executor (dget (xc_executors a) k) (a\<lparr>xc_executors := dpop k (xc_executors a)\<rparr>)))"
    "orderly env st (emit e a)" if "same_pools st a" for a e k
    using emit_orderly [OF orderly_trans [OF same_orderly [OF that assms] pop [OF same_tidy [OF that assms]]]]
      emit_orderly [OF same_orderly [OF that assms]] by simp_all
  note one = this
  have two: "same_pools st (cleanup_stream_state m (st\<lparr>xc_inflight := i, xc_streams := s\<rparr>))" for m i s
    using same_trans [OF same_fields(4) same_fields(9)] .
  show ?thesis using orderly_refl [OF assms] one [OF two] one [OF same_fields(1)] unfolding expire_call_def Let_def
    by (simp split: prod.split call_kind.split)
qed

lemma poll_orderly:
  assumes "tidy_but {} st"
  shows "orderly env st (poll_once env now st)"
proof -
  let ?st1 = "drain_stream_queues st"
  let ?st2 = "drain_completed_futures env ?st1"
  have "same_pools st ?st1" unfolding drain_stream_queues_def using drain_same by (intro fold_same) (simp add: case_prod_unfold)
  then have o1: "orderly env st ?st1" using assms by (rule same_orderly)
  have o2: "orderly env st (?st1\<lparr>xc_completed := []\<rparr>)" using then_same [OF o1 same_fields(6)] .
  have "orderly env (?st1\<lparr>xc_completed := []\<rparr>) ?st2" unfolding drain_completed_futures_def
    using finish_orderly orderly_tidy [OF o2] by (rule fold_orderly)
  with o2 have o3: "orderly env st ?st2" by (rule orderly_trans)
  have "orderly env ?st2 (poll_once env now st)" unfolding poll_once_def expire_service_timeouts_def
    using expire_orderly orderly_tidy [OF o3] by (rule fold_orderly)
  with o3 show ?thesis by (rule orderly_trans)
qed

section \<open>Every history\<close>

lemma step_tended:
  assumes "tidy_but {} st"
  shows "tended env st (core_step env e st)"
proof (cases e)
  case (Handle rid req now)
  then show ?thesis using handle_tended [OF assms] by simp
next
  case (Poll now)
  then show ?thesis using orderly_tended [OF poll_orderly [OF assms]] by simp
next
  case (Complete f out)
  then show ?thesis using orderly_tended [OF same_orderly [OF same_fields(14) assms]] by simp
next
  case (PutItem q item)
  then show ?thesis using orderly_tended [OF same_orderly [OF same_fields(15) assms]] by simp
qed

interpretation pools: ledger "core_step env" "tidy_but {}" pool_books "\<lambda>e st. started env st (core_step env e st)" for env
  by unfold_locales (use step_tended in \<open>auto simp: tended_def accounts_def\<close>)

lemma created_mono: "tidy_but {} st \<Longrightarrow> xc_created st \<le> xc_created (core_run env evs st)"
proof (induction evs arbitrary: st)
  case (Cons e evs)
  have "tended env st (core_step env e st)" using step_tended [OF Cons.prems] .
  then show ?case using Cons.IH [of "core_step env e st"] by (simp add: core_run_def tended_def accounts_def)
qed (simp add: core_run_def)

lemma total_started:
  "tidy_but {} st \<Longrightarrow> total_taken (core_step env) (\<lambda>e st. started env st (core_step env e st)) evs st = started env st (core_run env evs st)"
proof (induction evs arbitrary: st)
  case (Cons e evs)
  have t: "tended env st (core_step env e st)" using step_tended [OF Cons.prems] .
  then have "xc_created (core_step env e st) \<le> xc_created (core_run env evs (core_step env e st))"
    using created_mono by (simp add: tended_def)
  then show ?case using Cons.IH [of "core_step env e st"] t started_trans [of st "core_step env e st" _ env]
    by (simp add: core_run_def tended_def accounts_def)
qed (simp add: core_run_def)

lemma new_core_tidy: "tidy_but {} (new_exec_core n)"
  by (simp add: tidy_but_def new_exec_core_def)

text \<open>
  C11: no process pool is lost. After every history, the pools on record together with those that
  have been shut down are exactly the pools whose start succeeded, each of them once: none runs
  unrecorded, none is recorded under two keys, none is still recorded after its shutdown.
\<close>

theorem no_process_pool_leaks:
  "let st = core_run env evs (new_exec_core n)
   in mset (map ex_id (dvals (xc_executors st))) + mset (xc_shut st) =
     mset (filter (\<lambda>k. ee_start env k = None) [0..<xc_created st])"
proof -
  let ?st = "core_run env evs (new_exec_core n)"
  have "tally (\<lambda>x. {#f x#}) d = mset (map f (dvals d))" for f :: "executor_pool \<Rightarrow> nat" and d :: "(exec_key, executor_pool) dict"
    by (induction d) (auto simp: dvals_def)
  moreover have "pool_books ?st = pool_books (new_exec_core n) + started env (new_exec_core n) ?st"
    using pools.run_balanced [OF new_core_tidy] total_started [OF new_core_tidy] by (simp add: core_run_def)
  moreover have "pool_books (new_exec_core n) = {#}" "xc_created (new_exec_core n) = 0" by (simp_all add: new_exec_core_def pool_books_def)
  ultimately show ?thesis by (simp only: pool_books_def started_def Let_def empty_neutral)
qed

text \<open>
  C33: the records of the process pools are well formed in every state: a pool is recorded for the
  shared runtime key or for a service or task pool that exists, with as many workers as were asked
  for, at least one.
\<close>

theorem executors_well_typed:
  "let st = core_run env evs (new_exec_core n)
   in dwf (xc_executors st) \<and> list_all (\<lambda>(k, x). known st k \<and> ex_workers x = key_workers st k \<and> 1 \<le> ex_workers x) (xc_executors st)"
proof -
  have "tidy_but {} (core_run env evs (new_exec_core n))" unfolding core_run_def using pools.good_run [OF new_core_tidy] .
  then show ?thesis by (auto simp: tidy_but_def well_sized_def list_all_iff Let_def dest: in_dget)
qed

text \<open>Closing the core shuts down every pool that is left.\<close>

definition picked :: "(exec_key \<Rightarrow> bool) \<Rightarrow> (exec_key, executor_pool) dict \<Rightarrow> nat multiset" where
  "picked P d = mset (map ex_id (dvals (filter (\<lambda>(k, _). P k) d)))"

lemma picked_Cons: "picked P ((k, x) # d) = (if P k then add_mset (ex_id x) (picked P d) else picked P d)"
  by (simp add: picked_def dvals_def)

lemma picked_all:
  "picked (\<lambda>k. case k of ServiceKey _ \<Rightarrow> True | _ \<Rightarrow> False) d + picked (\<lambda>k. case k of PoolKey _ \<Rightarrow> True | _ \<Rightarrow> False) d +
    picked (\<lambda>k. k = TaskKey) d = tally (\<lambda>x. {#ex_id x#}) d"
proof (induction d)
  case (Cons p d)
  obtain k x where p: "p = (k, x)" by (cases p)
  show ?case using Cons.IH by (cases k) (simp_all add: p picked_Cons)
qed (simp add: picked_def dvals_def)

lemma picked_shut:
  "mset (xc_shut (fold (\<lambda>x. shutdown_executor (Some x)) (dvals (filter (\<lambda>(k, _). P k) d)) a)) = mset (xc_shut a) + picked P d"
proof -
  have "xc_shut (fold (\<lambda>x. shutdown_executor (Some x)) xs a) = xc_shut a @ map ex_id xs" for xs
    by (induction xs arbitrary: a) (simp_all add: shutdown_executor_def)
  then show ?thesis by (simp add: picked_def)
qed

lemma close_books:
  "mset (xc_shut (close_core st)) = pool_books st" "xc_executors (close_core st) = []" "xc_workers (close_core st) = []"
proof -
  let ?st1 = "fold cleanup_stream_state (dvals (xc_streams st)) st"
  have s: "same_pools st ?st1" by (rule fold_same) (rule same_fields(9))
  have "mset (xc_shut (close_core st)) = mset (xc_shut ?st1) + tally (\<lambda>x. {#ex_id x#}) (xc_executors ?st1)"
    unfolding close_core_def Let_def fold_append o_apply picked_all [symmetric] by (simp add: picked_shut del: mset_map)
  also have "\<dots> = pool_books st" using s by (simp add: same_pools_def pool_books_def add.commute)
  finally show "mset (xc_shut (close_core st)) = pool_books st" .
qed (simp_all add: close_core_def Let_def)

end
