(* ===== verification/ErrorClassifier.thy ===== *)
theory ErrorClassifier
  imports Prelude
begin

text \<open>
  The classification of errors by their text (execution/error_classifier.py): which failures of a
  node end a replica for good, which are worth another try, and which are missing dependencies.
  An exception is the chain of its links (itself, the reason of a URL error, its cause or context),
  each with its class name, text and representation, and whether the standard library counts it as a
  timeout, a connection error or an operating system error with one of the transient numbers.
\<close>

section \<open>Errors\<close>

record exc_link =
  lk_class :: string
  lk_text :: string
  lk_repr :: string
  lk_transient :: bool

datatype failure = Message string | Raised "exc_link list"

datatype error_category =
    UnknownError
  | ServiceTerminal
  | TaskPoolTerminal
  | OldInstanceIdentityLost
  | IdentityMismatch
  | HeartbeatCategory
  | TransientNetwork
  | PermanentArtifact
  | ImportError

section \<open>Markers\<close>

definition OLD_INSTANCE_IDENTITY_LOST_MARKERS :: "string list" where
  "OLD_INSTANCE_IDENTITY_LOST_MARKERS = [''node instance execution is fenced'', ''node_instance_id fenced'', ''execution is fenced'',
     ''control_addr replaced'', ''node instance reset required'', ''registration lost'', ''http error 410'', ''http 410'', ''status 410'', ''410 gone'']"

definition IDENTITY_MISMATCH_MARKERS :: "string list" where
  "IDENTITY_MISMATCH_MARKERS = [''node control_addr instance mismatch'', ''node control_addr is still served by another node instance'',
     ''identity mismatch'', ''expected_node_instance_id mismatch'', ''http error 409'', ''http 409'', ''status 409'', ''409 conflict'']"

definition SERVICE_TERMINAL_MARKERS :: "string list" where
  "SERVICE_TERMINAL_MARKERS = [''service is stopped'', ''service not found'', ''service not running'', ''service executor stopped'',
     ''service executor host missing'', ''service executor host died'']"

definition TASK_POOL_TERMINAL_MARKERS :: "string list" where
  "TASK_POOL_TERMINAL_MARKERS = [''task pool not running'', ''task pool not found'', ''pool is stopped'', ''pool not found'',
     ''task pool executor host missing'', ''task pool executor host died'']"

definition IMPORT_ERROR_MARKERS :: "string list" where
  "IMPORT_ERROR_MARKERS = [''modulenotfounderror'', ''module not found error'', ''importerror'', ''import error'', ''no module named '',
     ''cannot import name '']"

definition PERMANENT_ARTIFACT_MARKERS :: "string list" where
  "PERMANENT_ARTIFACT_MARKERS = [''artifact validation failed'', ''dependency install failed'', ''runtime mismatch'', ''syntaxerror'', ''syntax error'',
     ''method `'', ''not exported'', ''no exported methods found'', ''duplicate exported method'', ''entry_module is required'', ''not callable'',
     ''cannot load python module'', ''artifact missing'', ''code artifact missing'', ''object not found on node'']"

definition HEARTBEAT_MARKERS :: "string list" where
  "HEARTBEAT_MARKERS = [''heartbeat'', ''keepalive'']"

definition TRANSIENT_NETWORK_MARKERS :: "string list" where
  "TRANSIENT_NETWORK_MARKERS = [''connection refused'', ''connection reset'', ''connectionreseterror'', ''connection aborted'', ''connection error'',
     ''cannot connect to '', ''closed by the remote service'', ''remote end closed connection'', ''temporarily unavailable'',
     ''temporary server unavailable'', ''server unavailable'', ''timed out'', ''timeout'', ''host unreachable'', ''network unreachable'', ''broken pipe'',
     ''http request to '', ''http error 503'', ''http 503'', ''status 503'', ''503 service unavailable'', ''service unavailable'', ''max retries exceeded'',
     ''winerror 10054'', ''winerror 10060'', ''winerror 10061'', '' 10054'', ''(10054'', '', 10054'', ''errno 104'', ''errno 110'', ''errno 111'']"

section \<open>Classification\<close>

definition has_marker :: "string \<Rightarrow> string list \<Rightarrow> bool" where
  "has_marker txt markers \<longleftrightarrow> list_ex (\<lambda>m. contains m txt) markers"

definition link_parts :: "exc_link \<Rightarrow> string list" where
  "link_parts l = [lk_class l] @ (if lk_text l = [] then [] else [lk_text l]) @
     (if lk_repr l \<noteq> [] \<and> lk_repr l \<noteq> lk_text l then [lk_repr l] else [])"

text \<open>\<open>" ".join(part for part in parts if part)\<close>.\<close>

definition join_parts :: "string list \<Rightarrow> string" where
  "join_parts parts = (case filter (\<lambda>p. p \<noteq> []) parts of [] \<Rightarrow> [] | p # ps \<Rightarrow> p @ concat (map (\<lambda>q. '' '' @ q) ps))"

definition error_text :: "failure \<Rightarrow> string" where
  "error_text f = lower (strip (case f of Message s \<Rightarrow> s | Raised ls \<Rightarrow> join_parts (concat (map link_parts ls))))"

definition normalize_resource_kind :: "string \<Rightarrow> string" where
  "normalize_resource_kind kind =
    (let txt = map (\<lambda>c. if c = CHR ''-'' then CHR ''_'' else c) (lower (strip kind))
     in if txt \<in> {''taskpool'', ''task_pool'', ''pool''} then ''task_pool''
        else if txt \<in> {''service'', ''svc''} then ''service'' else txt)"

definition is_transient_network_error :: "failure \<Rightarrow> string \<Rightarrow> bool" where
  "is_transient_network_error f txt \<longleftrightarrow> has_marker txt TRANSIENT_NETWORK_MARKERS \<or>
    (case f of Message _ \<Rightarrow> False | Raised ls \<Rightarrow> list_ex lk_transient ls)"

definition classify_error :: "failure \<Rightarrow> string \<Rightarrow> error_category" where
  "classify_error f resource_kind =
    (let txt = error_text f; kind = normalize_resource_kind resource_kind; gone = [''not found'', ''not running'', ''is stopped'']
     in if txt = [] then UnknownError
        else if has_marker txt OLD_INSTANCE_IDENTITY_LOST_MARKERS then OldInstanceIdentityLost
        else if has_marker txt IDENTITY_MISMATCH_MARKERS then IdentityMismatch
        else if has_marker txt SERVICE_TERMINAL_MARKERS then ServiceTerminal
        else if has_marker txt TASK_POOL_TERMINAL_MARKERS then TaskPoolTerminal
        else if has_marker txt IMPORT_ERROR_MARKERS then ImportError
        else if has_marker txt PERMANENT_ARTIFACT_MARKERS then PermanentArtifact
        else if kind = ''service'' \<and> has_marker txt gone then ServiceTerminal
        else if kind = ''task_pool'' \<and> has_marker txt gone then TaskPoolTerminal
        else if is_transient_network_error f txt then TransientNetwork
        else if has_marker txt HEARTBEAT_MARKERS then HeartbeatCategory
        else UnknownError)"

definition is_terminal_heartbeat_error :: "failure \<Rightarrow> string \<Rightarrow> bool" where
  "is_terminal_heartbeat_error f resource_kind \<longleftrightarrow>
    classify_error f resource_kind \<in> {OldInstanceIdentityLost, IdentityMismatch, ServiceTerminal, TaskPoolTerminal}"

definition is_retryable_compensation_failure :: "failure \<Rightarrow> string \<Rightarrow> bool" where
  "is_retryable_compensation_failure f resource_kind =
    (let category = classify_error f resource_kind
     in if category \<in> {ImportError, PermanentArtifact, UnknownError} then False
        else category \<in> {OldInstanceIdentityLost, IdentityMismatch, ServiceTerminal, TaskPoolTerminal, HeartbeatCategory, TransientNetwork})"

definition is_dependency_runtime_error :: "failure \<Rightarrow> bool" where
  "is_dependency_runtime_error f =
    (let txt = error_text f
     in has_marker txt IMPORT_ERROR_MARKERS \<or>
        has_marker txt [''dependency install failed'', ''dependency installation failed'', ''node environment is missing'', ''missing dependency''])"

section \<open>What callers rely on\<close>

lemma contains_nonempty: "contains m s \<Longrightarrow> m \<noteq> [] \<Longrightarrow> s \<noteq> []"
  by (cases s) auto

lemma has_marker_iff: "has_marker txt ms \<longleftrightarrow> (\<exists>m \<in> set ms. contains m txt)"
  by (simp add: has_marker_def list_ex_iff)

text \<open>Every category but the two that stand for no verdict is worth a retry or ends the replica.\<close>

lemma retryable_iff:
  "is_retryable_compensation_failure f k \<longleftrightarrow> classify_error f k \<notin> {ImportError, PermanentArtifact, UnknownError}"
  by (cases "classify_error f k") (simp_all add: is_retryable_compensation_failure_def)

text \<open>A failed import is never taken for a network failure or a lost instance, unless its text says so.\<close>

lemma import_error_kept:
  assumes "has_marker (error_text f) IMPORT_ERROR_MARKERS"
    and "\<forall>ms \<in> {OLD_INSTANCE_IDENTITY_LOST_MARKERS, IDENTITY_MISMATCH_MARKERS, SERVICE_TERMINAL_MARKERS, TASK_POOL_TERMINAL_MARKERS}.
      \<not> has_marker (error_text f) ms"
  shows "classify_error f k = ImportError" "is_dependency_runtime_error f" "\<not> is_retryable_compensation_failure f k"
proof -
  have "error_text f \<noteq> []" using assms(1) by (auto simp: has_marker_iff IMPORT_ERROR_MARKERS_def)
  then show c: "classify_error f k = ImportError" using assms by (simp add: classify_error_def Let_def)
  show "is_dependency_runtime_error f" using assms(1) by (simp add: is_dependency_runtime_error_def Let_def)
  show "\<not> is_retryable_compensation_failure f k" using c by (simp add: retryable_iff)
qed

end
