(* ===== verification/Inflight.thy ===== *)
theory Inflight
  imports JobPayload
begin

text \<open>
  The window of tasks a client keeps in flight (execution/task_pool.py,
  \<open>_AdaptiveInflightController\<close>): it follows the rate at which results arrive so that about a minute of
  work is queued, between the number of workers and eight times as many, and halves on a timeout.
  Floats are exact rationals.
\<close>

record controller =
  ac_min :: int
  ac_max :: int
  ac_window :: int
  ac_target_sec :: rat
  ac_alpha :: rat
  ac_interval :: "rat option"
  ac_last_result :: "instant option"
  ac_last_log :: instant
  ac_last_logged :: int

definition new_controller :: "int \<Rightarrow> int \<Rightarrow> rat \<Rightarrow> rat \<Rightarrow> int option \<Rightarrow> controller" where
  "new_controller active_workers initial_window target_sec alpha max_window =
    (let workers = max 1 (num_or active_workers 1);
         start = max workers (num_or initial_window workers);
         upper = (case max_window of Some m \<Rightarrow> m | None \<Rightarrow> max start (workers * 8));
         hi = max start upper
     in \<lparr>ac_min = workers, ac_max = hi, ac_window = min hi start, ac_target_sec = max 1 (num_or target_sec 60),
         ac_alpha = min 1 (max (1 / 100) (num_or alpha (1 / 5))), ac_interval = None, ac_last_result = None,
         ac_last_log = 0, ac_last_logged = min hi start\<rparr>)"

definition target_window :: "controller \<Rightarrow> int" where
  "target_window c = (case ac_interval c of
     None \<Rightarrow> ac_window c
   | Some i \<Rightarrow> min (ac_max c) (max (ac_min c) (round_half_even (ac_target_sec c / max (1 / 1000) i))))"

definition move_toward :: "int \<Rightarrow> controller \<Rightarrow> controller \<times> bool" where
  "move_toward target c =
    (let old = ac_window c
     in if target = old then (c, False)
        else
          let smoothed = round_half_even (7 / 10 * of_int old + 3 / 10 * of_int target);
              w = (if old < target then min target (max (old + 1) smoothed) else max target (min (old - 1) smoothed));
              w' = min (ac_max c) (max (ac_min c) w)
          in (c\<lparr>ac_window := w'\<rparr>, w' \<noteq> old))"

definition observe_result_batch :: "int \<Rightarrow> instant \<Rightarrow> controller \<Rightarrow> controller \<times> bool" where
  "observe_result_batch n now c =
    (if n \<le> 0 then (c, False)
     else case ac_last_result c of
       None \<Rightarrow> (c\<lparr>ac_last_result := Some now\<rparr>, False)
     | Some t \<Rightarrow>
         let interval = max (1 / 1000) (max (1 / 1000) (now - t) / of_int n);
             ema = (case ac_interval c of None \<Rightarrow> interval | Some i \<Rightarrow> ac_alpha c * interval + (1 - ac_alpha c) * i);
             c1 = c\<lparr>ac_last_result := Some now, ac_interval := Some ema\<rparr>
         in move_toward (target_window c1) c1)"

definition on_timeout :: "controller \<Rightarrow> controller \<times> bool" where
  "on_timeout c = (let w = max (ac_min c) \<lceil>of_int (ac_window c) / (2 :: rat)\<rceil> in (c\<lparr>ac_window := w\<rparr>, w \<noteq> ac_window c))"

text \<open>What \<open>maybe_log\<close> keeps of the last line it wrote.\<close>

definition maybe_log :: "instant \<Rightarrow> controller \<Rightarrow> controller" where
  "maybe_log now c =
    (let old = max 1 (num_or (ac_last_logged c) 1);
         ratio = \<bar>of_int (ac_window c - old)\<bar> / (of_int old :: rat)
     in if now - ac_last_log c < 30 \<and> ratio < 1 / 4 then c else c\<lparr>ac_last_log := now, ac_last_logged := ac_window c\<rparr>)"

datatype window_event = Results int instant | Expired | Logged instant

fun window_step :: "window_event \<Rightarrow> controller \<Rightarrow> controller" where
  "window_step (Results n now) c = fst (observe_result_batch n now c)"
| "window_step Expired c = fst (on_timeout c)"
| "window_step (Logged now) c = maybe_log now c"

section \<open>Bounds\<close>

definition window_ok :: "controller \<Rightarrow> bool" where
  "window_ok c \<longleftrightarrow> 1 \<le> ac_min c \<and> ac_min c \<le> ac_window c \<and> ac_window c \<le> ac_max c"

lemma window_ok_new [intro, simp]: "window_ok (new_controller workers window target alpha hi)"
  by (auto simp: window_ok_def new_controller_def Let_def)

lemma clamped: "lo \<le> hi \<Longrightarrow> lo \<le> min hi (max lo (w :: int)) \<and> min hi (max lo w) \<le> hi"
  by simp

lemma move_shape: "\<exists>w. fst (move_toward target c) = c\<lparr>ac_window := min (ac_max c) (max (ac_min c) w)\<rparr> \<or> fst (move_toward target c) = c"
  unfolding move_toward_def Let_def by (simp only: prod.sel if_distrib [of fst] split: if_split) blast

lemma move_window:
  assumes "window_ok c"
  shows "window_ok (fst (move_toward target c)) \<and> ac_max (fst (move_toward target c)) = ac_max c \<and> ac_min (fst (move_toward target c)) = ac_min c"
proof -
  obtain w where "fst (move_toward target c) = c\<lparr>ac_window := min (ac_max c) (max (ac_min c) w)\<rparr> \<or> fst (move_toward target c) = c"
    using move_shape by blast
  then show ?thesis using assms clamped [of "ac_min c" "ac_max c" w] by (auto simp: window_ok_def)
qed

lemma observe_window:
  assumes "window_ok c"
  shows "window_ok (fst (observe_result_batch n now c)) \<and> ac_max (fst (observe_result_batch n now c)) = ac_max c \<and>
    ac_min (fst (observe_result_batch n now c)) = ac_min c"
proof -
  have "window_ok (c\<lparr>ac_last_result := Some now, ac_interval := Some i\<rparr>)" for i using assms by (simp add: window_ok_def)
  note moved = move_window [OF this]
  have "window_ok (c\<lparr>ac_last_result := Some now\<rparr>)" using assms by (simp add: window_ok_def)
  then show ?thesis using assms moved by (simp add: observe_result_batch_def Let_def split: option.split)
qed

lemma half_ceiling: "1 \<le> w \<Longrightarrow> \<lceil>of_int w / (2 :: rat)\<rceil> \<le> w" "1 \<le> w \<Longrightarrow> 1 \<le> \<lceil>of_int w / (2 :: rat)\<rceil>"
proof -
  assume w: "1 \<le> w"
  have "of_int w / (2 :: rat) \<le> of_int w" using w by simp
  then show "\<lceil>of_int w / (2 :: rat)\<rceil> \<le> w" by (simp add: ceiling_le_iff)
  show "1 \<le> \<lceil>of_int w / (2 :: rat)\<rceil>" using w by (simp add: one_le_ceiling)
qed

lemma timeout_window:
  "window_ok c \<Longrightarrow> window_ok (fst (on_timeout c)) \<and> ac_max (fst (on_timeout c)) = ac_max c \<and> ac_min (fst (on_timeout c)) = ac_min c"
  using half_ceiling(1) [of "ac_window c"] by (simp add: window_ok_def on_timeout_def Let_def)

lemma step_window: "window_ok c \<Longrightarrow> window_ok (window_step e c) \<and> ac_max (window_step e c) = ac_max c \<and> ac_min (window_step e c) = ac_min c"
proof (cases e)
  case (Logged now)
  then show "window_ok c \<Longrightarrow> ?thesis" by (simp add: maybe_log_def Let_def window_ok_def)
qed (use observe_window timeout_window in simp_all)

lemma run_window: "window_ok c \<Longrightarrow> window_ok (fold window_step es c) \<and> ac_max (fold window_step es c) = ac_max c \<and> ac_min (fold window_step es c) = ac_min c"
proof (induction es arbitrary: c)
  case (Cons e es)
  then show ?case using step_window [OF Cons.prems, of e] Cons.IH [of "window_step e c"] by simp
qed simp

text \<open>
  the window of tasks in flight keeps its bounds. After every history of result batches, timeouts
  and log lines it is at least the number of workers and at least 1, and at most the given maximum,
  or eight times the workers, or the initial window if that is more.
\<close>

theorem window_keeps_its_bounds:
  "let c = fold window_step es (new_controller workers window target alpha hi); lo = max 1 (num_or workers 1); start = max lo (num_or window lo)
   in 1 \<le> lo \<and> lo \<le> ac_window c \<and> ac_window c \<le> max start (case hi of Some m \<Rightarrow> m | None \<Rightarrow> 8 * lo)"
proof -
  define c0 where "c0 = new_controller workers window target alpha hi"
  define c where "c = fold window_step es c0"
  have lo: "ac_min c0 = max 1 (num_or workers 1)" by (simp add: c0_def new_controller_def Let_def)
  have hi: "ac_max c0 \<le> max (max (ac_min c0) (num_or window (ac_min c0))) (case hi of Some m \<Rightarrow> m | None \<Rightarrow> 8 * ac_min c0)"
    by (cases hi) (simp_all add: c0_def new_controller_def Let_def mult.commute max.assoc)
  have "window_ok c0" by (simp add: c0_def)
  from run_window [OF this, of es] have c: "1 \<le> ac_min c0" "ac_min c0 \<le> ac_window c" "ac_window c \<le> ac_max c0"
    by (simp_all add: window_ok_def c_def)
  show ?thesis using c(1,2) order_trans [OF c(3) hi] unfolding Let_def lo [symmetric] c0_def [symmetric] c_def [symmetric] by blast
qed

section \<open>The window follows its target\<close>

lemma moves_closer:
  assumes "window_ok c" "ac_min c \<le> target" "target \<le> ac_max c" "target \<noteq> ac_window c"
  shows "\<bar>ac_window (fst (move_toward target c)) - target\<bar> < \<bar>ac_window c - target\<bar>"
proof -
  let ?s = "round_half_even (7 / 10 * of_int (ac_window c) + 3 / 10 * of_int target)"
  let ?w = "if ac_window c < target then min target (max (ac_window c + 1) ?s) else max target (min (ac_window c - 1) ?s)"
  have "ac_window (fst (move_toward target c)) = min (ac_max c) (max (ac_min c) ?w)"
    using assms(4) by (simp add: move_toward_def Let_def)
  moreover have "ac_window c < target \<Longrightarrow> ac_window c + 1 \<le> ?w \<and> ?w \<le> target" "target < ac_window c \<Longrightarrow> target \<le> ?w \<and> ?w \<le> ac_window c - 1"
    by auto
  ultimately show ?thesis using assms by (cases "ac_window c < target") (auto simp: window_ok_def)
qed

lemma moved_enough:
  assumes "ac_min c \<le> target" "target \<le> ac_max c" "window_ok c" "nat \<bar>ac_window c - target\<bar> \<le> n"
  shows "ac_window (((\<lambda>c. fst (move_toward target c)) ^^ n) c) = target"
  using assms
proof (induction n arbitrary: c)
  case (Suc n)
  let ?c1 = "fst (move_toward target c)"
  have m: "window_ok ?c1" "ac_max ?c1 = ac_max c" "ac_min ?c1 = ac_min c" using move_window [OF Suc.prems(3)] by simp_all
  have "nat \<bar>ac_window ?c1 - target\<bar> \<le> n"
  proof (cases "target = ac_window c")
    case True
    then show ?thesis by (simp add: move_toward_def Let_def)
  next
    case False
    then show ?thesis using moves_closer [OF Suc.prems(3,1,2)] Suc.prems(4) by simp
  qed
  then show ?case using Suc.IH [of ?c1] Suc.prems(1,2) m by (simp add: funpow_Suc_right del: funpow.simps)
qed simp

text \<open>
  a steady target is reached. From every controller, moving toward a target within the bounds
  closes the distance with every step, so the window is the target after as many steps as it was
  away from it, and it stays there.
\<close>

theorem window_reaches_its_target:
  assumes "ac_min c \<le> target" "target \<le> ac_max c" "window_ok c" "nat \<bar>ac_window c - target\<bar> \<le> n"
  shows "ac_window (((\<lambda>c. fst (move_toward target c)) ^^ n) c) = target"
  by (rule moved_enough [OF assms])

theorem window_reaches_its_target_witness:
  "ac_window (((\<lambda>c. fst (move_toward 12 c)) ^^ 10) (new_controller 2 2 60 (1 / 5) None)) = 12"
proof (rule window_reaches_its_target)
  let ?c = "new_controller 2 2 60 (1 / 5) None"
  show "ac_min ?c \<le> 12" "12 \<le> ac_max ?c" "nat \<bar>ac_window ?c - 12\<bar> \<le> 10" by (simp_all add: new_controller_def Let_def num_or_def)
qed simp

end
