(* ===== verification/ClientPool.thy ===== *)
theory ClientPool
  imports NodePools Scheduler Breaker ErrorClassifier Inflight
begin

text \<open>
  The client's side of a task pool (execution/task_pool.py, \<open>_TaskPoolSessionBase\<close>): the pools on
  the nodes, the tasks that are out, the records by which they can be submitted again, and the
  choice of a node for each task. What happens at a node is the environment's answer: whether a
  submission raises, which tasks it accepts, what a pull returns. A node accepts only tasks it was
  given, as \<open>submit_pool_tasks\<close> does. The clock is a function of the number of remote calls and loop rounds
  so far. The overflow in the cool-down of a breaker (after 1024 openings) is not propagated.
\<close>

section \<open>State\<close>

record pool_handle =
  ph_pool_id :: string
  ph_pool_name :: string
  ph_status :: string
  ph_worker_count :: int
  ph_alive_workers :: int
  ph_capability :: "(string, int) dict"
  ph_failed :: bool
  ph_last_error :: string
  ph_handle :: nat
  ph_heartbeat_timeout :: int
  ph_failure_threshold :: int
  ph_readiness :: string
  ph_method_failures :: "(string, string) dict"

text \<open>Handles are compared by identity, which is a number here.\<close>

record node_view =
  nv_node_id :: string
  nv_inflight :: int
  nv_worker_available :: int
  nv_credit :: int
  nv_capability :: "(string, int) dict"

text \<open>What the keepalive thread and the compensation change too.\<close>

record members =
  mb_pools :: "(string, pool_handle) dict"
  mb_nodes :: "(string, node_view) dict"
  mb_active :: "string list"
  mb_probe :: "string list"
  mb_terminal :: "string list"
  mb_owner_blacklist :: "(string, string) dict"
  mb_method_blacklist :: "(string, (string, string) dict) dict"
  mb_breakers :: "(string, breaker) dict"
  mb_failures :: "(string, string) dict"

datatype result_status = Succeeded | FailedInfra | OtherStatus int

record pool_result =
  pr_task_id :: string
  pr_status :: result_status
  pr_err_type :: string
  pr_err_message :: string
  pr_value :: pyval

record replay =
  rp_index :: int
  rp_payload :: payload
  rp_task_id :: string
  rp_node_id :: string
  rp_attempt :: int
  rp_submitted_at :: instant
  rp_last_error :: string
  rp_timeout_retries :: int

record client =
  cl_members :: members
  cl_method :: string
  cl_job_id :: string
  cl_seq :: nat
  cl_cycle :: int
  cl_pending :: "string list"
  cl_pending_nodes :: "(string, string) dict"
  cl_replay :: "(string, replay) dict"
  cl_replay_nodes :: "(string, string list) dict"
  cl_sched :: scheduler_state
  cl_buffered :: "(string \<times> pool_result) list"
  cl_retries :: int
  cl_retries_ok :: int
  cl_retries_exhausted :: int
  cl_lost_replayed :: int
  cl_lost_failed :: int
  cl_closed :: bool
  cl_exclusive :: "(string \<times> nat \<times> nat) option"
  cl_calls :: nat

datatype item_key = KeyIndex int | KeyTask string

record exec_item =
  it_index :: int
  it_ok :: bool
  it_result :: pyval
  it_error_type :: string
  it_error_message :: string
  it_node_id :: string
  it_key :: item_key
  it_status :: result_status
  it_task_id :: string
  it_node_instance_id :: string

record submit_task_item =
  si_id :: string
  si_payload :: payload

datatype submit_reply = SubmitFails string | SubmitAccepts "string \<Rightarrow> bool"

datatype pull_reply = PullFails string | PullReturns "pool_result list"

record pool_status =
  ps_pool_name :: string
  ps_status :: string
  ps_task_count :: int
  ps_worker_count :: int

record client_env =
  ce_submit :: "nat \<Rightarrow> nat \<Rightarrow> string \<Rightarrow> submit_reply"
  ce_pull :: "nat \<Rightarrow> string \<Rightarrow> pull_reply"
  ce_cancel :: "nat \<Rightarrow> bool"
  ce_status :: "nat \<Rightarrow> string \<Rightarrow> string + pool_status"
  ce_prepare :: "string \<Rightarrow> payload \<Rightarrow> py_error option"
  ce_size :: "payload \<Rightarrow> int"
  ce_fetch :: "string \<Rightarrow> pool_result \<Rightarrow> (string \<times> string) + pyval"
  ce_missing :: "string \<Rightarrow> string"
  ce_now :: "nat \<Rightarrow> instant"
  ce_members :: "nat \<Rightarrow> members \<Rightarrow> members"

definition client_now :: "client_env \<Rightarrow> client \<Rightarrow> instant" where
  "client_now env cl = ce_now env (cl_calls cl)"

definition remote_call :: "client \<Rightarrow> client" where
  "remote_call cl = cl\<lparr>cl_calls := cl_calls cl + 1\<rparr>"

definition upd_members :: "(members \<Rightarrow> members) \<Rightarrow> client \<Rightarrow> client" where
  "upd_members f cl = cl\<lparr>cl_members := f (cl_members cl)\<rparr>"

section \<open>Which nodes may be used\<close>

definition task_method :: "client \<Rightarrow> string" where
  "task_method cl = str_or (strip (cl_method cl)) ''run''"

definition pool_breaker_state :: "string \<Rightarrow> members \<Rightarrow> breaker" where
  "pool_breaker_state node m = dget_or (mb_breakers m) (strip node) fresh_breaker"

definition pool_candidate_allowed :: "instant \<Rightarrow> string \<Rightarrow> members \<Rightarrow> members \<times> bool" where
  "pool_candidate_allowed now node m =
    (case candidate_allowed now (pool_breaker_state node m) of
       (b, ok) \<Rightarrow> (m\<lparr>mb_breakers := dset (strip node) b (mb_breakers m)\<rparr>, ok))"

definition is_task_method_node_blacklisted :: "string \<Rightarrow> string \<Rightarrow> members \<Rightarrow> bool" where
  "is_task_method_node_blacklisted method node m \<longleftrightarrow> dget (dget_or (mb_method_blacklist m) method []) (strip node) \<noteq> None"

text \<open>The breakers of the active nodes are asked in passing.\<close>

fun available_among :: "instant \<Rightarrow> string \<Rightarrow> string list \<Rightarrow> members \<Rightarrow> members \<times> string list" where
  "available_among now method [] m = (m, [])"
| "available_among now method (node # nodes) m =
    (if node \<notin> set (mb_active m) then available_among now method nodes m
     else case pool_candidate_allowed now node m of
       (m1, ok) \<Rightarrow> (case available_among now method nodes m1 of
          (m2, ids) \<Rightarrow> (m2, if ok \<and> \<not> is_task_method_node_blacklisted method node m1 then node # ids else ids)))"

definition available_pool_node_ids :: "client_env \<Rightarrow> client \<Rightarrow> client \<times> string list" where
  "available_pool_node_ids env cl =
    (case available_among (client_now env cl) (task_method cl) (dkeys (mb_pools (cl_members cl))) (cl_members cl) of
       (m, ids) \<Rightarrow> (cl\<lparr>cl_members := m\<rparr>, ids))"

definition can_accept_result_from_node :: "string \<Rightarrow> client \<Rightarrow> bool" where
  "can_accept_result_from_node node0 cl =
    (let node = strip node0; m = cl_members cl
     in if node = [] then False else if dget (mb_pools m) node = None then False
        else node \<in> set (mb_active m) \<or> node \<in> set (mb_probe m))"

definition fail_handle :: "string \<Rightarrow> string \<Rightarrow> members \<Rightarrow> members" where
  "fail_handle node reason m = m\<lparr>mb_pools := (case dget (mb_pools m) node of None \<Rightarrow> mb_pools m
     | Some p \<Rightarrow> dset node (p\<lparr>ph_failed := True, ph_last_error := reason\<rparr>) (mb_pools m))\<rparr>"

definition blacklist_member :: "string \<Rightarrow> string \<Rightarrow> members \<Rightarrow> members" where
  "blacklist_member node reason m = (fail_handle node reason m)\<lparr>mb_owner_blacklist := dset node reason (mb_owner_blacklist m),
     mb_failures := dset node reason (mb_failures m), mb_active := removeAll node (mb_active m), mb_probe := removeAll node (mb_probe m),
     mb_terminal := List.insert node (mb_terminal m)\<rparr>"

definition mark_owner_node_instance_blacklisted :: "string \<Rightarrow> string \<Rightarrow> client \<Rightarrow> client" where
  "mark_owner_node_instance_blacklisted node0 reason0 cl =
    (let node = strip node0; reason = str_or (strip reason0) ''replica unavailable''
     in if node = [] then cl
        else (upd_members (blacklist_member node reason) cl)
          \<lparr>cl_sched := (cl_sched cl)\<lparr>disabled_candidates := List.insert node (disabled_candidates (cl_sched cl))\<rparr>\<rparr>)"

definition mark_task_method_node_blacklisted :: "client_env \<Rightarrow> string \<Rightarrow> string \<Rightarrow> client \<Rightarrow> client" where
  "mark_task_method_node_blacklisted env node0 reason cl =
    (let node = strip node0; method = task_method cl; txt = dependency_failure_reason (ce_missing env) reason method
     in if node = [] then cl
        else mark_owner_node_instance_blacklisted node txt
          ((upd_members (\<lambda>m. m\<lparr>mb_method_blacklist :=
              dset method (dset node txt (dget_or (mb_method_blacklist m) method [])) (mb_method_blacklist m)\<rparr>) cl)
            \<lparr>cl_sched := (cl_sched cl)\<lparr>disabled_candidates := List.insert node (disabled_candidates (cl_sched cl))\<rparr>\<rparr>))"

definition mark_pool_submit_success :: "string \<Rightarrow> client \<Rightarrow> client" where
  "mark_pool_submit_success node cl =
    (upd_members (\<lambda>m. m\<lparr>mb_breakers := dset (strip node) (mark_candidate_success (pool_breaker_state node m)) (mb_breakers m)\<rparr>) cl)
      \<lparr>cl_sched := (cl_sched cl)\<lparr>disabled_candidates := removeAll node (disabled_candidates (cl_sched cl)),
        recent_submit_failures := dset node 0 (recent_submit_failures (cl_sched cl))\<rparr>\<rparr>"

definition mark_pool_submit_failure :: "client_env \<Rightarrow> string \<Rightarrow> string \<Rightarrow> string \<Rightarrow> client \<Rightarrow> client" where
  "mark_pool_submit_failure env kind err node cl =
    (upd_members (\<lambda>m. m\<lparr>mb_breakers := dset (strip node)
        (fst (mark_candidate_failure kind err 2 1 10 (client_now env cl) (pool_breaker_state node m))) (mb_breakers m)\<rparr>) cl)
      \<lparr>cl_sched := (cl_sched cl)\<lparr>disabled_candidates := List.insert node (disabled_candidates (cl_sched cl)),
        recent_submit_failures := dset node (dget_or (recent_submit_failures (cl_sched cl)) node 0 + 1) (recent_submit_failures (cl_sched cl))\<rparr>\<rparr>"

definition effective_worker_count :: "client_env \<Rightarrow> client \<Rightarrow> client \<times> int" where
  "effective_worker_count env cl =
    (case available_pool_node_ids env cl of
       (cl1, ids) \<Rightarrow> (cl1, max 1 (sum_list (map (\<lambda>node.
         case dget (mb_pools (cl_members cl1)) node of None \<Rightarrow> 0
         | Some p \<Rightarrow> max (max (max 0 (ph_alive_workers p)) (max 0 (ph_worker_count p))) 0) ids))))"

definition resolve_max_in_flight :: "client_env \<Rightarrow> int option \<Rightarrow> client \<Rightarrow> client \<times> int" where
  "resolve_max_in_flight env requested cl =
    (case requested of
       Some n \<Rightarrow> if 0 < n then (cl, n)
         else (case effective_worker_count env cl of (cl1, w) \<Rightarrow> (cl1, max 1 \<lceil>of_int w * (3 / 2 :: rat)\<rceil>))
     | None \<Rightarrow> (case effective_worker_count env cl of (cl1, w) \<Rightarrow> (cl1, max 1 \<lceil>of_int w * (3 / 2 :: rat)\<rceil>)))"

section \<open>Choosing nodes\<close>

definition pool_candidate :: "client \<Rightarrow> scheduler_state \<Rightarrow> string list \<Rightarrow> string \<Rightarrow> pool_handle \<Rightarrow> scheduler_candidate" where
  "pool_candidate cl st active node p =
    (let nv = dget (mb_nodes (cl_members cl)) node;
         capacity = max 1 (num_or (ph_worker_count p) 1);
         inflight = max 0 (case nv of None \<Rightarrow> 0 | Some v \<Rightarrow> nv_inflight v);
         alive = max 0 (num_or (case nv of None \<Rightarrow> 0 | Some v \<Rightarrow> nv_worker_available v) (ph_worker_count p))
     in \<lparr>cand_id = node, cand_kind = ''task_pool'', cand_node_id = str_or (case nv of None \<Rightarrow> [] | Some v \<Rightarrow> nv_node_id v) node,
         cand_node_instance_id = node, cand_healthy = node \<in> set active, cand_schedulable = True, cand_drain = False,
         cand_breaker_state = br_state (pool_breaker_state node (cl_members cl)),
         cand_predicted_busy = of_int inflight / of_int (max 1 (num_or alive capacity)), cand_node_inflight = inflight,
         cand_alive_workers = max 1 (num_or alive capacity), cand_worker_capacity = capacity,
         cand_credit = max 0 (case nv of None \<Rightarrow> 0 | Some v \<Rightarrow> nv_credit v),
         cand_recent_failures = dget_or (recent_submit_failures st) node 0, cand_metadata = []\<rparr>)"

text \<open>A set of nodes is walked through in the order of its list.\<close>

definition build_pool_scheduler_candidates ::
    "client_env \<Rightarrow> string list \<Rightarrow> scheduler_state \<Rightarrow> client \<Rightarrow> client \<times> scheduler_candidate list" where
  "build_pool_scheduler_candidates env allowed0 st cl =
    (case available_pool_node_ids env cl of
       (cl1, active) \<Rightarrow>
         let allowed = (if allowed0 = [] then active else allowed0)
         in (cl1, List.map_filter (\<lambda>node. map_option (pool_candidate cl1 st active node) (dget (mb_pools (cl_members cl1)) node))
               (remdups allowed)))"

fun plan_pool_nodes :: "strategy_profile \<Rightarrow> scheduler_candidate list \<Rightarrow> nat \<Rightarrow> int \<Rightarrow> scheduler_state \<Rightarrow> py_error + string list" where
  "plan_pool_nodes profile candidates 0 rr st = Inr []"
| "plan_pool_nodes profile candidates (Suc n) rr st =
    ebind (select_one_candidate candidates profile st rr) (\<lambda>c.
      let node = cand_id c; load = local_inflight_by_candidate st
      in ebind (plan_pool_nodes profile candidates n (rr + 1)
           (st\<lparr>local_inflight_by_candidate := dset node (dget_or load node 0 + 1) load\<rparr>)) (\<lambda>rest. Inr (node # rest)))"

definition plan_pool_node_targets ::
    "client_env \<Rightarrow> nat \<Rightarrow> string \<Rightarrow> scheduler_state \<Rightarrow> string list \<Rightarrow> client \<Rightarrow> client \<times> (py_error + string list)" where
  "plan_pool_node_targets env n strategy st allowed cl =
    (if n = 0 then (cl, Inr [])
     else case build_pool_scheduler_candidates env allowed st cl of
       (cl1, candidates) \<Rightarrow>
         if candidates = [] then (cl1, Inl (RuntimeError ''task pool has no active node pools''))
         else (cl1\<lparr>cl_cycle := cl_cycle cl1 + int n\<rparr>,
           plan_pool_nodes (resolve_taskpool_strategy strategy) candidates n (cl_cycle cl1) st))"

text \<open>
  The plan within quotas. A chosen node without quota left is disabled and the choice repeated; the
  loop ends since each round plans a task or disables a candidate.
\<close>

lemma selected_new:
  assumes "select_one_candidate candidates profile st rr = Inr c"
  shows "cand_id c \<in> cand_id ` set candidates" "cand_id c \<notin> set (disabled_candidates st)"
  using sel.pick_sound [OF assms] by (auto simp: candidate_ok_def)

function plan_within ::
    "strategy_profile \<Rightarrow> scheduler_candidate list \<Rightarrow> string list \<Rightarrow> nat \<Rightarrow> int \<Rightarrow> (string, int) dict \<Rightarrow> scheduler_state \<Rightarrow> string list" where
  "plan_within profile candidates order n rr remaining st =
    (if n = 0 \<or> \<not> list_ex (\<lambda>node. 0 < dget_or remaining node 0) order then []
     else case select_one_candidate candidates profile st rr of
       Inl _ \<Rightarrow> []
     | Inr c \<Rightarrow>
         let node = cand_id c; quota = dget_or remaining node 0; load = local_inflight_by_candidate st;
             shut = st\<lparr>disabled_candidates := List.insert node (disabled_candidates st)\<rparr>
         in if quota \<le> 0 then plan_within profile candidates order n rr remaining shut
            else node # plan_within profile candidates order (n - 1) (rr + 1) (dset node (max 0 (quota - 1)) remaining)
              ((if quota - 1 \<le> 0 then shut else st)\<lparr>local_inflight_by_candidate := dset node (dget_or load node 0 + 1) load\<rparr>))"
  by pat_completeness auto

termination plan_within
proof (relation "measures [\<lambda>(_, _, _, n, _, _, _). n,
    \<lambda>(_, candidates, _, _, _, _, st). card (cand_id ` set candidates - set (disabled_candidates st))]", goal_cases)
  case (2 profile candidates order n rr remaining st c)
  then have "cand_id c \<in> cand_id ` set candidates - set (disabled_candidates st)" using selected_new by blast
  then have "card (cand_id ` set candidates - insert (cand_id c) (set (disabled_candidates st)))
      < card (cand_id ` set candidates - set (disabled_candidates st))"
    by (intro psubset_card_mono) auto
  then show ?case using 2 by simp
qed auto

declare plan_within.simps [simp del]

definition plan_limited_pool_node_targets ::
    "client_env \<Rightarrow> (string, int) dict \<Rightarrow> string list \<Rightarrow> int \<Rightarrow> strategy_profile \<Rightarrow> (string, int) dict \<Rightarrow> string list \<Rightarrow> (string, int) dict \<Rightarrow> int \<Rightarrow>
      client \<Rightarrow> client \<times> string list" where
  "plan_limited_pool_node_targets env available order max_new profile inflight disabled infra rr cl =
    (if max_new \<le> 0 then (cl, [])
     else
       let remaining = map (\<lambda>node. (node, max 0 (dget_or available node 0))) (filter (\<lambda>node. node \<notin> set disabled) order);
           allowed = filter (\<lambda>node. 0 < dget_or remaining node 0) order;
           st = \<lparr>local_inflight_by_candidate = inflight, disabled_candidates = disabled, recent_submit_failures = infra\<rparr>
       in if allowed = [] then (cl, [])
          else case build_pool_scheduler_candidates env allowed st cl of
            (cl1, candidates) \<Rightarrow> (cl1, plan_within profile candidates order (nat max_new) rr remaining st))"

end
