(* ===== verification/ClientTasks.thy ===== *)
theory ClientTasks
  imports ClientPool
begin

text \<open>
  The tasks of a pool session (execution/task_pool.py): their ids, the tables of those that are out,
  submission in batches that fit the body limit of the node, what happens to the tasks of a lost
  node, resubmission, and the results.
\<close>

section \<open>Ids\<close>

text \<open>\<open>f"{n:04d}"\<close>.\<close>

definition pad4 :: "nat \<Rightarrow> string" where
  "pad4 n = (let s = digits_of (n + 1) n in replicate (4 - length s) CHR ''0'' @ s)"

definition task_id :: "string \<Rightarrow> nat \<Rightarrow> string" where
  "task_id pre n = pre @ ''-'' @ pad4 n"

definition default_prefix :: "client \<Rightarrow> string" where
  "default_prefix cl = cl_job_id cl @ ''-task''"

section \<open>Tables\<close>

fun register_pending_task_ids :: "string \<Rightarrow> string list \<Rightarrow> client \<Rightarrow> client" where
  "register_pending_task_ids node [] cl = cl"
| "register_pending_task_ids node (i # ids) cl =
    (let t = strip i; load = local_inflight_by_candidate (cl_sched cl);
         cl1 = cl\<lparr>cl_pending := List.insert t (cl_pending cl)\<rparr>;
         cl2 = (if node = [] then cl1
           else cl1\<lparr>cl_pending_nodes := dset t node (cl_pending_nodes cl1),
             cl_sched := (cl_sched cl1)\<lparr>local_inflight_by_candidate := dset node (dget_or load node 0 + 1) load\<rparr>\<rparr>)
     in register_pending_task_ids node ids (if t = [] then cl else cl2))"

definition register_replay_record :: "replay \<Rightarrow> client \<Rightarrow> client" where
  "register_replay_record r0 cl =
    (let t = strip (rp_task_id r0); node = strip (rp_node_id r0);
         r = r0\<lparr>rp_task_id := t, rp_node_id := node, rp_attempt := max 0 (rp_attempt r0), rp_timeout_retries := max 0 (rp_timeout_retries r0)\<rparr>
     in if t = [] then cl
        else cl\<lparr>cl_replay := dset t r (cl_replay cl),
          cl_replay_nodes := (if node = [] then cl_replay_nodes cl
            else dset node (List.insert t (dget_or (cl_replay_nodes cl) node [])) (cl_replay_nodes cl))\<rparr>)"

definition remove_replay_record :: "string \<Rightarrow> client \<Rightarrow> client \<times> replay option" where
  "remove_replay_record t0 cl =
    (let t = strip t0
     in if t = [] then (cl, None)
        else case dget (cl_replay cl) t of
          None \<Rightarrow> (cl, None)
        | Some r \<Rightarrow>
            let nodes = cl_replay_nodes cl; node = rp_node_id r;
                nodes' = (case dget nodes node of None \<Rightarrow> nodes
                  | Some ts \<Rightarrow> if removeAll t ts = [] then dpop node nodes else dset node (removeAll t ts) nodes)
            in (cl\<lparr>cl_replay := dpop t (cl_replay cl), cl_replay_nodes := nodes'\<rparr>, Some r))"

definition mark_result_consumed :: "string \<Rightarrow> client \<Rightarrow> client" where
  "mark_result_consumed t0 cl =
    (let t = strip t0
     in if t = [] then cl
        else
          let node = dget_or (cl_pending_nodes cl) t [];
              cl1 = cl\<lparr>cl_pending := removeAll t (cl_pending cl), cl_pending_nodes := dpop t (cl_pending_nodes cl)\<rparr>;
              cl2 = fst (remove_replay_record t cl1);
              load = local_inflight_by_candidate (cl_sched cl2)
          in if node = [] then cl2
             else cl2\<lparr>cl_sched := (cl_sched cl2)\<lparr>local_inflight_by_candidate := dset node (max 0 (dget_or load node 0 - 1)) load\<rparr>\<rparr>)"

text \<open>The tasks on a node leave the tables; those without a record are orphans.\<close>

fun take_tasks :: "string list \<Rightarrow> client \<Rightarrow> client \<times> replay list \<times> string list" where
  "take_tasks [] cl = (cl, [], [])"
| "take_tasks (t # ts) cl =
    (let cl1 = cl\<lparr>cl_pending := removeAll t (cl_pending cl), cl_pending_nodes := dpop t (cl_pending_nodes cl)\<rparr>
     in case remove_replay_record t cl1 of
          (cl2, r) \<Rightarrow> (case take_tasks ts cl2 of
            (cl3, rs, orphans) \<Rightarrow> (cl3, case r of None \<Rightarrow> (rs, t # orphans) | Some x \<Rightarrow> (x # rs, orphans))))"

definition tasks_on_node :: "string \<Rightarrow> client \<Rightarrow> string list" where
  "tasks_on_node node cl =
    remdups (dget_or (cl_replay_nodes cl) node [] @ map fst (filter (\<lambda>(_, n). strip n = node) (cl_pending_nodes cl)))"

definition take_pending_replay_records_for_node :: "string \<Rightarrow> client \<Rightarrow> client \<times> replay list \<times> string list" where
  "take_pending_replay_records_for_node node0 cl =
    (let node = strip node0
     in if node = [] then (cl, [], [])
        else case take_tasks (tasks_on_node node cl) cl of
          (cl1, found) \<Rightarrow> (cl1\<lparr>cl_sched := (cl_sched cl1)\<lparr>local_inflight_by_candidate := dset node 0 (local_inflight_by_candidate (cl_sched cl1))\<rparr>\<rparr>, found))"

definition mark_taskpool_node_lost :: "client_env \<Rightarrow> string \<Rightarrow> string \<Rightarrow> client \<Rightarrow> client \<times> replay list \<times> string list" where
  "mark_taskpool_node_lost env node0 err cl =
    (let node = strip node0
     in if node = [] then (cl, [], [])
        else
          let cl1 = upd_members (\<lambda>m. m\<lparr>mb_active := removeAll node (mb_active m),
                mb_failures := dset node (str_or err ''task pool node lost'') (mb_failures m)\<rparr>) cl;
              cl2 = cl1\<lparr>cl_sched := (cl_sched cl1)\<lparr>disabled_candidates := List.insert node (disabled_candidates (cl_sched cl1))\<rparr>\<rparr>
          in take_pending_replay_records_for_node node (mark_pool_submit_failure env REMOTE_INFRA_FAILED err node cl2))"

definition local_failed_task_result :: "string \<Rightarrow> string \<Rightarrow> pool_result" where
  "local_failed_task_result t message =
    \<lparr>pr_task_id = t, pr_status = FailedInfra, pr_err_type = ''NodeInstanceLost'', pr_err_message = str_or message ''node lost'', pr_value = PNone\<rparr>"

fun buffer_failures :: "string \<Rightarrow> string \<Rightarrow> string list \<Rightarrow> client \<Rightarrow> client" where
  "buffer_failures node message [] cl = cl"
| "buffer_failures node message (t # ts) cl =
    buffer_failures node message ts (cl\<lparr>cl_pending := List.insert t (cl_pending cl), cl_pending_nodes := dset t node (cl_pending_nodes cl),
      cl_buffered := cl_buffered cl @ [(node, local_failed_task_result t message)], cl_lost_failed := cl_lost_failed cl + 1\<rparr>)"

definition fail_pending_tasks_for_lost_node :: "client_env \<Rightarrow> string \<Rightarrow> string \<Rightarrow> client \<Rightarrow> client" where
  "fail_pending_tasks_for_lost_node env node err cl =
    (case mark_taskpool_node_lost env node err cl of
       (cl1, records, orphans) \<Rightarrow>
         buffer_failures node (str_or err ''node lost before task completed'') (map rp_task_id records @ orphans) cl1)"

definition clear_pending_for_current_job :: "client \<Rightarrow> client" where
  "clear_pending_for_current_job cl =
    cl\<lparr>cl_pending := [], cl_pending_nodes := [], cl_buffered := [], cl_replay := [], cl_replay_nodes := [],
      cl_sched := (cl_sched cl)\<lparr>local_inflight_by_candidate := []\<rparr>\<rparr>"

section \<open>Submission\<close>

text \<open>The smallest limit the node or the pool states, at least 1024; 0 without one.\<close>

definition node_submit_http_body_limit :: "node_view option \<Rightarrow> pool_handle \<Rightarrow> int" where
  "node_submit_http_body_limit node pool =
    (let keys = [''max_http_body_bytes'', ''max_control_send_bytes'', ''max_control_recv_bytes''];
         sources = [case node of None \<Rightarrow> [] | Some v \<Rightarrow> nv_capability v, ph_capability pool];
         values = filter (\<lambda>v. 0 < v) (concat (map (\<lambda>source. map (\<lambda>k. dget_or source k 0) keys) sources))
     in if values = [] then 0 else max 1024 (Min (set values)))"

fun split_batches :: "('i \<Rightarrow> int) \<Rightarrow> int \<Rightarrow> 'i list \<Rightarrow> int \<Rightarrow> 'i list \<Rightarrow> 'i list list" where
  "split_batches wire limit current used [] = (if current = [] then [] else [current])"
| "split_batches wire limit current used (item # items) =
    (if current \<noteq> [] \<and> limit < used + wire item then current # split_batches wire limit [item] (1024 + wire item) items
     else split_batches wire limit (current @ [item]) (used + wire item) items)"

text \<open>The environment is told which batch of a submission it answers.\<close>

fun submit_batches :: "client_env \<Rightarrow> string \<Rightarrow> nat \<Rightarrow> submit_task_item list list \<Rightarrow> client \<Rightarrow> client \<times> (string + string list)" where
  "submit_batches env node k [] cl = (cl, Inr [])"
| "submit_batches env node k (batch # batches) cl =
    (case ce_submit env (cl_calls cl) k node of
       SubmitFails e \<Rightarrow> (remote_call cl, Inl e)
     | SubmitAccepts ok \<Rightarrow>
         let accepted = filter ok (map si_id batch)
         in case submit_batches env node (k + 1) batches (register_pending_task_ids node accepted (remote_call cl)) of
              (cl1, Inl e) \<Rightarrow> (cl1, Inl e)
            | (cl1, Inr rest) \<Rightarrow> (cl1, Inr (accepted @ rest)))"

definition submit_task_items_to_node :: "client_env \<Rightarrow> string \<Rightarrow> submit_task_item list \<Rightarrow> client \<Rightarrow> client \<times> (string + string list)" where
  "submit_task_items_to_node env node items cl =
    (if items = [] then (cl, Inr [])
     else case dget (mb_pools (cl_members cl)) node of
       None \<Rightarrow> (cl, Inl ''KeyError'')
     | Some pool \<Rightarrow>
         let limit = node_submit_http_body_limit (dget (mb_nodes (cl_members cl)) node) pool;
             safe = (if 0 < limit then max 0 \<lfloor>of_int limit * (4 / 5 :: rat)\<rfloor> else 0);
             batches = (if safe \<le> 0 then [items] else split_batches (\<lambda>i. ce_size env (si_payload i)) safe [] 1024 items)
         in submit_batches env node 0 batches cl)"

definition build_task_submit_item :: "client_env \<Rightarrow> string \<Rightarrow> string \<Rightarrow> payload \<Rightarrow> client \<Rightarrow> client \<times> (py_error + submit_task_item)" where
  "build_task_submit_item env task_id_prefix node p cl =
    (let cl1 = cl\<lparr>cl_seq := cl_seq cl + 1\<rparr>; pre = strip (str_or task_id_prefix (default_prefix cl));
         i = (if pre = [] then task_id (default_prefix cl) (cl_seq cl1) else task_id pre (cl_seq cl1))
     in (cl1, if dget (mb_pools (cl_members cl)) node = None then Inl (KeyError node)
          else case ce_prepare env node p of Some e \<Rightarrow> Inl e | None \<Rightarrow> Inr \<lparr>si_id = i, si_payload = p\<rparr>))"

fun submit_groups :: "client_env \<Rightarrow> (string, submit_task_item list) dict \<Rightarrow> client \<Rightarrow> client \<times> (string + string list)" where
  "submit_groups env [] cl = (cl, Inr [])"
| "submit_groups env ((node, items) # groups) cl =
    (case submit_task_items_to_node env node items cl of
       (cl1, Inl e) \<Rightarrow> (cl1, Inl e)
     | (cl1, Inr accepted) \<Rightarrow>
         (case submit_groups env groups cl1 of (cl2, Inl e) \<Rightarrow> (cl2, Inl e) | (cl2, Inr rest) \<Rightarrow> (cl2, Inr (accepted @ rest))))"

fun build_groups :: "client_env \<Rightarrow> string \<Rightarrow> (payload \<times> string) list \<Rightarrow> (string, submit_task_item list) dict \<Rightarrow> client \<Rightarrow>
    client \<times> (py_error + (string, submit_task_item list) dict)" where
  "build_groups env pre [] groups cl = (cl, Inr groups)"
| "build_groups env pre ((p, node) # rest) groups cl =
    (case build_task_submit_item env pre node p cl of
       (cl1, Inl e) \<Rightarrow> (cl1, Inl e)
     | (cl1, Inr i) \<Rightarrow> build_groups env pre rest (dset node (dget_or groups node [] @ [i]) groups) cl1)"

definition assert_session_available :: "nat \<Rightarrow> client \<Rightarrow> py_error option" where
  "assert_session_available thread cl = (case cl_exclusive cl of
     Some (mode, owner, _) \<Rightarrow> if mode \<noteq> [] \<and> owner \<noteq> thread then Some (RuntimeError ''task pool session is exclusively used'') else None
   | None \<Rightarrow> None)"

definition ensure_method :: "string \<Rightarrow> client \<Rightarrow> py_error option" where
  "ensure_method name cl =
    (let m = strip name
     in if m = [] then Some (ValueError ''TaskPool call requires method'')
        else if m \<noteq> cl_method cl then Some (OtherError ''has no method'') else None)"

definition submit_payloads ::
    "client_env \<Rightarrow> nat \<Rightarrow> string \<Rightarrow> string \<Rightarrow> string \<Rightarrow> payload list \<Rightarrow> client \<Rightarrow> client \<times> (py_error + string list)" where
  "submit_payloads env thread method strategy pre payloads cl =
    (case assert_session_available thread cl of
       Some e \<Rightarrow> (cl, Inl e)
     | None \<Rightarrow>
       if cl_closed cl then (cl, Inl (RuntimeError ''TaskPool session is closed''))
       else case ensure_method (str_or (strip (str_or method (cl_method cl))) (cl_method cl)) cl of
         Some e \<Rightarrow> (cl, Inl e)
       | None \<Rightarrow>
         (case available_pool_node_ids env cl of
            (cl1, ids) \<Rightarrow>
              (case plan_pool_node_targets env (length payloads) strategy (cl_sched cl1) ids cl1 of
                 (cl2, Inl e) \<Rightarrow> (cl2, Inl e)
               | (cl2, Inr targets) \<Rightarrow>
                   (case build_groups env pre (zip payloads targets) [] cl2 of
                      (cl3, Inl e) \<Rightarrow> (cl3, Inl e)
                    | (cl3, Inr groups) \<Rightarrow>
                        (case submit_groups env groups cl3 of
                           (cl4, Inl e) \<Rightarrow> (fold (mark_pool_submit_failure env SUBMIT_FAILED e) (dkeys groups) cl4, Inl (OtherError e))
                         | (cl4, Inr accepted) \<Rightarrow> (fold mark_pool_submit_success (dkeys groups) cl4, Inr accepted))))))"

section \<open>Exclusive use\<close>

definition enter_exclusive_mode :: "string \<Rightarrow> nat \<Rightarrow> bool \<Rightarrow> client \<Rightarrow> client \<times> py_error option" where
  "enter_exclusive_mode mode thread require_clean cl = (case cl_exclusive cl of
     Some (m, owner, depth) \<Rightarrow>
       if owner = thread \<and> m = mode then (cl\<lparr>cl_exclusive := Some (m, owner, depth + 1)\<rparr>, None)
       else (cl, Some (RuntimeError ''task pool session is exclusively used''))
   | None \<Rightarrow>
       if require_clean \<and> (cl_pending cl \<noteq> [] \<or> cl_buffered cl \<noteq> []) then (cl, Some (RuntimeError ''requires a clean task pool session''))
       else (cl\<lparr>cl_exclusive := Some (mode, thread, 1)\<rparr>, None))"

definition exit_exclusive_mode :: "string \<Rightarrow> nat \<Rightarrow> client \<Rightarrow> client" where
  "exit_exclusive_mode mode thread cl = (case cl_exclusive cl of
     Some (m, owner, depth) \<Rightarrow>
       if m \<noteq> mode \<or> owner \<noteq> thread then cl
       else cl\<lparr>cl_exclusive := (if depth \<le> 1 then None else Some (m, owner, depth - 1))\<rparr>
   | None \<Rightarrow> cl)"

section \<open>Results\<close>

text \<open>
  The results put aside: those wanted, up to the limit (0 for none), and those kept. Results of
  tasks that are not out are dropped.
\<close>

fun pick_buffered :: "(string \<Rightarrow> bool) \<Rightarrow> (string \<Rightarrow> bool) \<Rightarrow> int \<Rightarrow> (string \<times> pool_result) list \<Rightarrow> (string \<times> pool_result) list \<Rightarrow>
    (string \<times> pool_result) list \<Rightarrow> (string \<times> pool_result) list \<times> (string \<times> pool_result) list" where
  "pick_buffered out wanted limit matched kept [] = (matched, kept)"
| "pick_buffered out wanted limit matched kept ((node, r) # rest) =
    (let t = strip (pr_task_id r)
     in if \<not> out t then pick_buffered out wanted limit matched kept rest
        else if \<not> wanted t \<or> (0 < limit \<and> limit \<le> int (length matched)) then pick_buffered out wanted limit matched (kept @ [(node, r)]) rest
        else pick_buffered out wanted limit (matched @ [(node, r)]) kept rest)"

definition is_pending_task_id :: "string \<Rightarrow> client \<Rightarrow> bool" where
  "is_pending_task_id t0 cl \<longleftrightarrow> (let t = strip t0 in t \<noteq> [] \<and> t \<in> set (cl_pending cl))"

definition wanted_in :: "string list option \<Rightarrow> string \<Rightarrow> bool" where
  "wanted_in ids t \<longleftrightarrow> (case ids of None \<Rightarrow> True | Some ts \<Rightarrow> t \<in> set ts)"

definition iter_buffered_result_items :: "string list option \<Rightarrow> int \<Rightarrow> client \<Rightarrow> client \<times> (string \<times> pool_result) list" where
  "iter_buffered_result_items ids limit cl =
    (case pick_buffered (\<lambda>t. is_pending_task_id t cl) (wanted_in ids) limit [] [] (cl_buffered cl) of
       (matched, kept) \<Rightarrow> (cl\<lparr>cl_buffered := kept\<rparr>, matched))"

text \<open>What a generator has yielded so far, and whether it has returned.\<close>

type_synonym yields = "(string \<times> pool_result) list \<times> bool"

fun yield_buffered :: "int \<Rightarrow> (string \<times> pool_result) list \<Rightarrow> client \<Rightarrow> (string \<times> pool_result) list \<Rightarrow> client \<times> yields" where
  "yield_buffered target [] cl out = (cl, out, False)"
| "yield_buffered target ((node, r) # rest) cl out =
    (let cl1 = mark_result_consumed (pr_task_id r) cl; out1 = out @ [(node, r)]
     in if 0 < target \<and> target \<le> int (length out1) then (cl1, out1, True) else yield_buffered target rest cl1 out1)"

fun yield_results :: "int \<Rightarrow> string list option \<Rightarrow> string \<Rightarrow> pool_result list \<Rightarrow> client \<Rightarrow> (string \<times> pool_result) list \<Rightarrow> client \<times> yields" where
  "yield_results target ids node [] cl out = (cl, out, False)"
| "yield_results target ids node (r # rest) cl out =
    (if \<not> is_pending_task_id (pr_task_id r) cl then yield_results target ids node rest cl out
     else if \<not> wanted_in ids (strip (pr_task_id r))
     then yield_results target ids node rest (cl\<lparr>cl_buffered := cl_buffered cl @ [(node, r)]\<rparr>) out
     else
       let cl1 = mark_result_consumed (pr_task_id r) cl; out1 = out @ [(node, r)]
       in if 0 < target \<and> target \<le> int (length out1) then (cl1, out1, True) else yield_results target ids node rest cl1 out1)"

text \<open>One node asked. Its answer holds at most as many results as were asked for.\<close>

definition pull_one :: "client_env \<Rightarrow> int \<Rightarrow> string list option \<Rightarrow> int \<Rightarrow> string \<Rightarrow> client \<Rightarrow> (string \<times> pool_result) list \<Rightarrow> client \<times> yields" where
  "pull_one env target ids limit node cl out =
    (if \<not> can_accept_result_from_node node cl then (cl, out, False)
     else
       let remaining = target - int (length out);
           most = (if 0 < target \<and> 0 < remaining then max 1 (min (max 1 (num_or limit 100)) remaining) else max 1 (num_or limit 100))
       in case ce_pull env (cl_calls cl) node of
            PullFails e \<Rightarrow> (fail_pending_tasks_for_lost_node env node e (remote_call cl), out, False)
          | PullReturns results \<Rightarrow> yield_results target ids node (take (nat most) results) (remote_call cl) out)"

fun pull_all :: "client_env \<Rightarrow> int \<Rightarrow> string list option \<Rightarrow> int \<Rightarrow> string list \<Rightarrow> client \<Rightarrow> (string \<times> pool_result) list \<Rightarrow> client \<times> yields" where
  "pull_all env target ids limit [] cl out = (cl, out, False)"
| "pull_all env target ids limit (node # nodes) cl out =
    (case pull_one env target ids limit node cl out of
       (cl1, out1, stop) \<Rightarrow> if stop then (cl1, out1, True) else pull_all env target ids limit nodes cl1 out1)"

definition raw_round :: "client_env \<Rightarrow> int option \<Rightarrow> string list option \<Rightarrow> int \<Rightarrow> nat \<Rightarrow> client \<Rightarrow> (string \<times> pool_result) list \<Rightarrow> client \<times> yields" where
  "raw_round env max_count ids limit turn cl out =
    (let target = (case max_count of None \<Rightarrow> int (length (cl_pending cl)) | Some n \<Rightarrow> max 0 n)
     in if 0 < target \<and> target \<le> int (length out) then (cl, out, True)
        else case iter_buffered_result_items ids (if 0 < target then target - int (length out) else 0) cl of
          (cl1, matched) \<Rightarrow>
            (case yield_buffered target matched cl1 out of
               (cl2, out2, True) \<Rightarrow> (cl2, out2, True)
             | (cl2, out2, False) \<Rightarrow>
                 (case pull_all env target ids limit (rotate turn (dkeys (mb_pools (cl_members cl2)))) cl2 out2 of
                    (cl3, out3, True) \<Rightarrow> (cl3, out3, True)
                  | (cl3, out3, False) \<Rightarrow> (cl3, out3, cl_pending cl3 = []))))"

text \<open>The rounds until the generator returns, or the deadline passes.\<close>

fun iter_raw_results :: "client_env \<Rightarrow> nat \<Rightarrow> instant \<Rightarrow> int option \<Rightarrow> string list option \<Rightarrow> int \<Rightarrow> nat \<Rightarrow> client \<Rightarrow> (string \<times> pool_result) list \<Rightarrow>
    (client \<times> (string \<times> pool_result) list) option" where
  "iter_raw_results env 0 deadline max_count ids limit turn cl out = None"
| "iter_raw_results env (Suc fuel) deadline max_count ids limit turn cl out =
    (if deadline \<le> client_now env cl then Some (cl, out)
     else case raw_round env max_count ids limit turn cl out of
       (cl1, out1, True) \<Rightarrow> Some (cl1, out1)
     | (cl1, out1, False) \<Rightarrow> iter_raw_results env fuel deadline max_count ids limit (turn + 1) (remote_call cl1) out1)"

definition task_result_to_item :: "client_env \<Rightarrow> string \<Rightarrow> pool_result \<Rightarrow> client \<Rightarrow> exec_item" where
  "task_result_to_item env node r cl =
    (let name = (case dget (mb_nodes (cl_members cl)) node of None \<Rightarrow> node | Some v \<Rightarrow> nv_node_id v);
         failed = (\<lambda>t m. \<lparr>it_index = - 1, it_ok = False, it_result = PNone, it_error_type = t, it_error_message = m, it_node_id = name,
           it_key = KeyTask (pr_task_id r), it_status = pr_status r, it_task_id = pr_task_id r, it_node_instance_id = node\<rparr>)
     in if pr_status r \<noteq> Succeeded then failed (pr_err_type r) (str_or (pr_err_message r) (''task failed: '' @ pr_task_id r))
        else case ce_fetch env node r of
          Inl (t, m) \<Rightarrow> failed t m
        | Inr v \<Rightarrow> (failed [] [])\<lparr>it_ok := True, it_result := v\<rparr>)"

definition item_with_index :: "int \<Rightarrow> item_key \<Rightarrow> exec_item \<Rightarrow> exec_item" where
  "item_with_index i k item = item\<lparr>it_index := i, it_key := k\<rparr>"

end
