(* ===== verification/ClientImap.thy ===== *)
theory ClientImap
  imports ClientTasks
begin

text \<open>
  The loop by which a client runs an iterable of payloads on a task pool (execution/task_pool.py,
  \<open>imap_unordered\<close>): it keeps a window of tasks in flight, polls the nodes for results, submits a task
  again when its node is lost, fails or stays silent, and yields the items in the order they
  complete. One round of the loop is \<open>imap_round\<close>; what the keepalive thread does to the session meanwhile
  happens between rounds. Progress reports are not modelled.
\<close>

section \<open>The payloads\<close>

record payload_buffer =
  pb_rest :: "pyval list"
  pb_retry :: "(int \<times> payload) list"
  pb_exhausted :: bool
  pb_next :: int

definition as_payload :: "pyval \<Rightarrow> payload" where
  "as_payload v = (case v of PDict d \<Rightarrow> d | _ \<Rightarrow> [(''value'', v)])"

definition new_buffer :: "pyval list \<Rightarrow> payload_buffer" where
  "new_buffer payloads = \<lparr>pb_rest = payloads, pb_retry = [], pb_exhausted = False, pb_next = 0\<rparr>"

definition next_payload :: "payload_buffer \<Rightarrow> payload_buffer \<times> (int \<times> payload) option" where
  "next_payload b = (case pb_retry b of
     x # xs \<Rightarrow> (b\<lparr>pb_retry := xs\<rparr>, Some x)
   | [] \<Rightarrow>
       if pb_exhausted b then (b, None)
       else case pb_rest b of
         [] \<Rightarrow> (b\<lparr>pb_exhausted := True\<rparr>, None)
       | v # vs \<Rightarrow> (b\<lparr>pb_rest := vs, pb_next := pb_next b + 1\<rparr>, Some (pb_next b, as_payload v)))"

definition requeue_front :: "(int \<times> payload) list \<Rightarrow> payload_buffer \<Rightarrow> payload_buffer" where
  "requeue_front items b = b\<lparr>pb_retry := items @ pb_retry b\<rparr>"

section \<open>State of the loop\<close>

record imap_args =
  ia_nodes :: "string list"
  ia_profile :: strategy_profile
  ia_receive :: nat
  ia_timeout :: rat
  ia_raise :: bool
  ia_retries :: int

text \<open>The last three fields hold the results of one fill or poll.\<close>

record imap =
  im_client :: client
  im_inflight :: "(string, int) dict"
  im_disabled :: "string list"
  im_errors :: "(string, string) dict"
  im_infra :: "(string, int) dict"
  im_index :: "(string, int) dict"
  im_buffer :: payload_buffer
  im_ready :: "exec_item list"
  im_start :: nat
  im_deadline :: instant
  im_window :: int
  im_controller :: "controller option"
  im_out :: "exec_item list"
  im_submitted :: int
  im_completed :: "exec_item list"
  im_freed :: int

definition upd_client :: "(client \<Rightarrow> client) \<Rightarrow> imap \<Rightarrow> imap" where
  "upd_client f im = im\<lparr>im_client := f (im_client im)\<rparr>"

definition disable :: "string \<Rightarrow> imap \<Rightarrow> imap" where
  "disable node im = im\<lparr>im_disabled := List.insert node (im_disabled im)\<rparr>"

definition note_error :: "string \<Rightarrow> string \<Rightarrow> imap \<Rightarrow> imap" where
  "note_error node err im = im\<lparr>im_errors := dset node err (im_errors im)\<rparr>"

definition add_inflight :: "string \<Rightarrow> int \<Rightarrow> imap \<Rightarrow> imap" where
  "add_inflight node n im = im\<lparr>im_inflight := dset node (dget_or (im_inflight im) node 0 + n) (im_inflight im)\<rparr>"

definition inflight_total :: "imap \<Rightarrow> int" where
  "inflight_total im = sum_list (dvals (im_inflight im))"

section \<open>Submitting again\<close>

definition replay_failure_item :: "replay \<Rightarrow> string \<Rightarrow> imap \<Rightarrow> imap \<times> exec_item" where
  "replay_failure_item r message im =
    (upd_client (\<lambda>cl. cl\<lparr>cl_retries_exhausted := cl_retries_exhausted cl + 1, cl_lost_failed := cl_lost_failed cl + 1\<rparr>) im,
     \<lparr>it_index = rp_index r, it_ok = False, it_result = PNone, it_error_type = ''NodeInstanceLost'',
      it_error_message = str_or message ''node lost before task completed'',
      it_node_id = str_or (case dget (mb_nodes (cl_members (im_client im))) (rp_node_id r) of None \<Rightarrow> [] | Some v \<Rightarrow> nv_node_id v) (rp_node_id r),
      it_key = KeyIndex (rp_index r), it_status = FailedInfra, it_task_id = rp_task_id r, it_node_instance_id = rp_node_id r\<rparr>)"

text \<open>One attempt at one node; an attempt that does not succeed disables the node.\<close>

definition try_submit :: "client_env \<Rightarrow> string \<Rightarrow> payload \<Rightarrow> client \<Rightarrow> client \<times> (string + string)" where
  "try_submit env node p cl =
    (case build_task_submit_item env [] node p cl of
       (cl1, Inl e) \<Rightarrow> (cl1, Inl ''submission could not be prepared'')
     | (cl1, Inr i) \<Rightarrow>
         (case submit_task_items_to_node env node [i] cl1 of
            (cl2, Inl e) \<Rightarrow> (cl2, Inl e)
          | (cl2, Inr accepted) \<Rightarrow> (cl2, if strip (si_id i) \<in> set (map strip accepted) then Inr (strip (si_id i)) else Inl ''retry submit was not accepted'')))"

definition resubmit_to :: "client_env \<Rightarrow> string \<Rightarrow> string \<Rightarrow> int \<Rightarrow> int \<Rightarrow> replay \<Rightarrow> imap \<Rightarrow> imap \<times> string option" where
  "resubmit_to env node reason attempt timeouts r im =
    (case try_submit env node (rp_payload r) (im_client im) of
       (cl, Inl e) \<Rightarrow> (upd_client (mark_pool_submit_failure env SUBMIT_FAILED e node) (note_error node e (disable node (im\<lparr>im_client := cl\<rparr>))), Some e)
     | (cl, Inr t) \<Rightarrow>
         let cl1 = cl\<lparr>cl_retries := cl_retries cl + 1, cl_retries_ok := cl_retries_ok cl + 1, cl_lost_replayed := cl_lost_replayed cl + 1\<rparr>;
             cl2 = register_replay_record (r\<lparr>rp_task_id := t, rp_node_id := node, rp_attempt := attempt, rp_last_error := reason,
               rp_timeout_retries := timeouts, rp_submitted_at := client_now env cl\<rparr>) cl1
         in (add_inflight node 1 (im\<lparr>im_client := mark_pool_submit_success node cl2, im_index := dset t (rp_index r) (dpop (rp_task_id r) (im_index im))\<rparr>), None))"

fun retry_on :: "client_env \<Rightarrow> string \<Rightarrow> replay \<Rightarrow> string list \<Rightarrow> string \<Rightarrow> imap \<Rightarrow> imap \<times> exec_item option" where
  "retry_on env reason r [] err im = (case replay_failure_item r err im of (im1, item) \<Rightarrow> (im1, Some item))"
| "retry_on env reason r (node # nodes) err im =
    (case resubmit_to env node reason (rp_attempt r + 1) 0 r im of
       (im1, None) \<Rightarrow> (im1, None)
     | (im1, Some e) \<Rightarrow> retry_on env reason r nodes e im1)"

definition retry_replay_record :: "client_env \<Rightarrow> imap_args \<Rightarrow> string \<Rightarrow> replay \<Rightarrow> imap \<Rightarrow> imap \<times> exec_item option" where
  "retry_replay_record env args reason r im =
    (if max 0 (ia_retries args) \<le> rp_attempt r
     then (case replay_failure_item r (str_or reason ''node lost before task completed'') im of (im1, item) \<Rightarrow> (im1, Some item))
     else case available_pool_node_ids env (im_client im) of
       (cl, ids) \<Rightarrow>
         let im1 = im\<lparr>im_client := cl\<rparr>; candidates = filter (\<lambda>node. node \<noteq> rp_node_id r \<and> node \<notin> set (im_disabled im)) ids
         in if candidates = []
            then (case replay_failure_item r ''no healthy task pool node available for retry'' im1 of (im2, item) \<Rightarrow> (im2, Some item))
            else retry_on env reason r candidates (str_or reason ''node lost before task completed'') im1)"

definition with_completed :: "imap \<times> exec_item option \<Rightarrow> imap" where
  "with_completed res = (case snd res of None \<Rightarrow> fst res | Some item \<Rightarrow> (fst res)\<lparr>im_completed := im_completed (fst res) @ [item]\<rparr>)"

fun retry_replay_records :: "client_env \<Rightarrow> imap_args \<Rightarrow> string \<Rightarrow> replay list \<Rightarrow> imap \<Rightarrow> imap" where
  "retry_replay_records env args reason [] im = im"
| "retry_replay_records env args reason (r # rs) im =
    retry_replay_records env args reason rs (with_completed (retry_replay_record env args reason r im))"

text \<open>
  After a timeout the records are spread over the target nodes, one retry each; the offset moves
  behind the node that took the last one.
\<close>

fun spread_on :: "client_env \<Rightarrow> string \<Rightarrow> replay \<Rightarrow> string list \<Rightarrow> string \<Rightarrow> imap \<Rightarrow> imap \<times> (exec_item + string)" where
  "spread_on env reason r [] err im = (case replay_failure_item r err im of (im1, item) \<Rightarrow> (im1, Inl item))"
| "spread_on env reason r (node # nodes) err im =
    (if node \<in> set (im_disabled im) then spread_on env reason r nodes err im
     else case resubmit_to env node reason (rp_attempt r) (rp_timeout_retries r + 1) r im of
       (im1, None) \<Rightarrow> (im1, Inr node)
     | (im1, Some e) \<Rightarrow> spread_on env reason r nodes e im1)"

fun position :: "'b \<Rightarrow> 'b list \<Rightarrow> nat" where
  "position x [] = 0"
| "position x (y # ys) = (if x = y then 0 else position x ys + 1)"

definition spread_record :: "client_env \<Rightarrow> string \<Rightarrow> string list \<Rightarrow> nat \<Rightarrow> replay \<Rightarrow> imap \<Rightarrow> imap \<times> nat" where
  "spread_record env reason targets offset r im =
    (if 1 \<le> rp_timeout_retries r
     then (case replay_failure_item r (str_or reason ''task result timeout after retry'') im of
        (im1, item) \<Rightarrow> (with_completed (im1, Some item), offset))
     else
       let others = filter (\<lambda>node. node \<noteq> rp_node_id r) targets; nodes = (if others = [] then targets else others)
       in case spread_on env reason r (rotate offset nodes) (str_or reason ''task result timeout'') im of
            (im1, Inl item) \<Rightarrow> (with_completed (im1, Some item), offset)
          | (im1, Inr node) \<Rightarrow> (im1, (position node targets + 1) mod length targets))"

fun spread_records :: "client_env \<Rightarrow> string \<Rightarrow> string list \<Rightarrow> nat \<Rightarrow> replay list \<Rightarrow> imap \<Rightarrow> imap" where
  "spread_records env reason targets offset [] im = im"
| "spread_records env reason targets offset (r # rs) im =
    (case spread_record env reason targets offset r im of (im1, offset1) \<Rightarrow> spread_records env reason targets offset1 rs im1)"

fun fail_records :: "string \<Rightarrow> replay list \<Rightarrow> imap \<Rightarrow> imap" where
  "fail_records message [] im = im"
| "fail_records message (r # rs) im =
    (case replay_failure_item r message im of (im1, item) \<Rightarrow> fail_records message rs (with_completed (im1, Some item)))"

definition retry_timeout_replay_records_evenly :: "client_env \<Rightarrow> string \<Rightarrow> string list \<Rightarrow> replay list \<Rightarrow> imap \<Rightarrow> imap" where
  "retry_timeout_replay_records_evenly env reason target_nodes rs im =
    (let targets = filter (\<lambda>node. node \<notin> set (im_disabled im)) target_nodes
     in if targets = [] then fail_records ''no healthy task pool node available for timeout retry'' rs im
        else spread_records env reason targets 0 rs im)"

end
