(* ===== verification/ClientLoop.thy ===== *)
theory ClientLoop
  imports ClientImap
begin

text \<open>
  The rounds of \<open>imap_unordered\<close> (execution/task_pool.py): filling the window, polling the nodes,
  replaying after a timeout, yielding. A round reads the clock as often as the code does; it moves
  only with remote calls. Fuel bounds the number of rounds: a loop that has not ended is \<open>None\<close>.
\<close>

section \<open>Filling the window\<close>

type_synonym entries = "(int \<times> payload \<times> submit_task_item) list"

fun assign_payloads :: "client_env \<Rightarrow> string list \<Rightarrow> (string, entries) dict \<Rightarrow> imap \<Rightarrow> imap \<times> (py_error + (string, entries) dict)" where
  "assign_payloads env [] groups im = (im, Inr groups)"
| "assign_payloads env (node # nodes) groups im =
    (case next_payload (im_buffer im) of
       (b, None) \<Rightarrow> (im\<lparr>im_buffer := b\<rparr>, Inr groups)
     | (b, Some (i, p)) \<Rightarrow>
         (case build_task_submit_item env [] node p (im_client im) of
            (cl, Inl e) \<Rightarrow> (im\<lparr>im_buffer := b, im_client := cl\<rparr>, Inl e)
          | (cl, Inr item) \<Rightarrow>
              assign_payloads env nodes (dset node (dget_or groups node [] @ [(i, p, item)]) groups)
                (im\<lparr>im_buffer := b, im_client := cl, im_index := dset (si_id item) i (im_index im)\<rparr>)))"

definition requeue :: "entries \<Rightarrow> imap \<Rightarrow> imap" where
  "requeue es im = im\<lparr>im_buffer := requeue_front (map (\<lambda>(i, p, _). (i, p)) es) (im_buffer im)\<rparr>"

definition register_entry :: "client_env \<Rightarrow> string \<Rightarrow> int \<times> payload \<times> submit_task_item \<Rightarrow> client \<Rightarrow> client" where
  "register_entry env node = (\<lambda>(i, p, item) cl.
    register_replay_record \<lparr>rp_index = i, rp_payload = p, rp_task_id = si_id item, rp_node_id = node, rp_attempt = 0,
      rp_submitted_at = client_now env cl, rp_last_error = [], rp_timeout_retries = 0\<rparr> cl)"

definition format_pool_submit_failure :: "client_env \<Rightarrow> string \<Rightarrow> string \<Rightarrow> client \<Rightarrow> client \<times> string" where
  "format_pool_submit_failure env node details cl = (case dget (mb_pools (cl_members cl)) node of
     None \<Rightarrow> (cl, details)
   | Some p \<Rightarrow> (case ce_status env (cl_calls cl) node of
       Inl e \<Rightarrow> (remote_call cl, details @ ''; pool_status_error='' @ e)
     | Inr s \<Rightarrow>
         let txt = (\<lambda>k v. if v = [] then [] else ''; '' @ k @ ''='' @ v); num = (\<lambda>k n. if n = (0 :: int) then [] else ''; '' @ k @ ''='' @ str_int n)
         in (remote_call cl, details @ txt ''pool_id'' (ph_pool_id p) @ txt ''pool_name'' (str_or (ph_pool_name p) (ps_pool_name s)) @
              txt ''status'' (str_or (ps_status s) (ph_status p)) @ num ''task_count'' (ps_task_count s) @ num ''worker_count'' (ps_worker_count s))))"

definition submit_entries :: "client_env \<Rightarrow> string \<Rightarrow> entries \<Rightarrow> imap \<Rightarrow> imap" where
  "submit_entries env node es im =
    (if es = [] then im
     else case submit_task_items_to_node env node (map (\<lambda>(_, _, item). item) es) (im_client im) of
       (cl, Inl e) \<Rightarrow>
         (case format_pool_submit_failure env node e (mark_pool_submit_failure env SUBMIT_FAILED e node cl) of
            (cl1, details) \<Rightarrow> requeue es (note_error node details (disable node (im\<lparr>im_client := cl1\<rparr>))))
     | (cl, Inr accepted) \<Rightarrow>
         if accepted = []
         then requeue es (im\<lparr>im_client := mark_pool_submit_failure env SUBMIT_FAILED ''submit returned no accepted task ids'' node cl\<rparr>)
         else
           let taken = filter (\<lambda>(_, _, item). strip (si_id item) \<in> set accepted) es;
               refused = filter (\<lambda>(_, _, item). strip (si_id item) \<notin> set accepted) es;
               im1 = im\<lparr>im_client := fold (register_entry env node) taken (mark_pool_submit_success node cl)\<rparr>;
               im2 = add_inflight node (int (length taken)) (requeue refused im1)
           in im2\<lparr>im_submitted := im_submitted im2 + int (length taken)\<rparr>)"

definition submit_imap_entries_to_nodes :: "client_env \<Rightarrow> (string, entries) dict \<Rightarrow> string list \<Rightarrow> imap \<Rightarrow> imap" where
  "submit_imap_entries_to_nodes env groups order im = fold (\<lambda>node. submit_entries env node (dget_or groups node [])) order im"

definition fill_imap_from_quota :: "client_env \<Rightarrow> imap_args \<Rightarrow> int \<Rightarrow> imap \<Rightarrow> imap \<times> py_error option" where
  "fill_imap_from_quota env args quota im0 =
    (let im = im0\<lparr>im_submitted := 0\<rparr>; available = max 0 (im_window im - inflight_total im);
         capped = map (\<lambda>node. (node, max 0 quota)) (filter (\<lambda>node. node \<notin> set (im_disabled im)) (ia_nodes args))
     in if available \<le> 0 then (im, None)
        else case plan_limited_pool_node_targets env capped (ia_nodes args) available (ia_profile args) (im_inflight im) (im_disabled im) (im_infra im)
              (int (im_start im)) (im_client im) of
          (cl, targets) \<Rightarrow>
            if targets = [] then (im\<lparr>im_client := cl\<rparr>, None)
            else case assign_payloads env targets [] (im\<lparr>im_client := cl\<rparr>) of
              (im1, Inl e) \<Rightarrow> (im1, Some e)
            | (im1, Inr groups) \<Rightarrow> (submit_imap_entries_to_nodes env groups (ia_nodes args) im1, None))"

section \<open>Polling\<close>

definition is_dependency_result :: "pool_result \<Rightarrow> bool" where
  "is_dependency_result r \<longleftrightarrow> lower (strip (pr_err_type r)) = ''dependencyerror'' \<or> is_dependency_runtime_error (Message (pr_err_message r))"

definition note_infra_failure :: "client_env \<Rightarrow> string \<Rightarrow> pool_result \<Rightarrow> imap \<Rightarrow> imap" where
  "note_infra_failure env node r im =
    (let n = dget_or (im_infra im) node 0 + 1; im1 = im\<lparr>im_infra := dset node n (im_infra im)\<rparr>;
         im2 = (if is_dependency_result r
           then disable node (upd_client (mark_task_method_node_blacklisted env node (str_or (pr_err_message r) ''dependency runtime error'')) im1) else im1);
         im3 = upd_client (mark_pool_submit_failure env REMOTE_INFRA_FAILED (str_or (pr_err_message r) ''remote infra failure'') node) im2
     in if 2 \<le> n then disable node im3 else im3)"

definition complete_item :: "client_env \<Rightarrow> string \<Rightarrow> pool_result \<Rightarrow> imap \<Rightarrow> imap" where
  "complete_item env node r im =
    (let t = strip (pr_task_id r); i = dget_or (im_index im) t (- 1);
         item = item_with_index i (if 0 \<le> i then KeyIndex i else KeyTask t) (task_result_to_item env node r (im_client im))
     in im\<lparr>im_completed := im_completed im @ [item]\<rparr>)"

definition poll_result :: "client_env \<Rightarrow> imap_args \<Rightarrow> string \<Rightarrow> pool_result \<Rightarrow> imap \<Rightarrow> imap" where
  "poll_result env args node r im =
    (let t = strip (pr_task_id r)
     in if \<not> is_pending_task_id t (im_client im) then im
        else case remove_replay_record t (im_client im) of
          (cl, rec) \<Rightarrow>
            let im1 = im\<lparr>im_client := mark_result_consumed t cl,
                  im_inflight := dset node (max 0 (dget_or (im_inflight im) node 0 - 1)) (im_inflight im), im_freed := im_freed im + 1\<rparr>
            in case pr_status r of
                 FailedInfra \<Rightarrow>
                   let im2 = note_infra_failure env node r im1
                   in (case rec of
                         Some x \<Rightarrow> retry_replay_records env args
                           (if is_dependency_result r then dependency_failure_reason (ce_missing env) (pr_err_message r) (cl_method (im_client im2))
                            else str_or (pr_err_message r) ''remote infra failure'') [x] im2
                       | None \<Rightarrow> complete_item env node r im2)
               | Succeeded \<Rightarrow> complete_item env node r (upd_client (mark_pool_submit_success node) (im1\<lparr>im_infra := dpop node (im_infra im1)\<rparr>))
               | OtherStatus _ \<Rightarrow> complete_item env node r im1)"

definition poll_node :: "client_env \<Rightarrow> imap_args \<Rightarrow> string \<Rightarrow> imap \<Rightarrow> imap" where
  "poll_node env args node im =
    (let load = dget_or (im_inflight im) node 0
     in if node \<in> set (im_disabled im) \<and> load \<le> 0 then im
        else if \<not> can_accept_result_from_node node (im_client im) then im
        else case ce_pull env (cl_calls (im_client im)) node of
          PullFails e \<Rightarrow>
            (case mark_taskpool_node_lost env node e (remote_call (im_client im)) of
               (cl, records, _) \<Rightarrow>
                 retry_replay_records env args e records
                   (note_error node e ((disable node im)\<lparr>im_client := cl, im_inflight := dset node 0 (im_inflight im)\<rparr>)))
        | PullReturns results \<Rightarrow> fold (poll_result env args node) (take (nat (max 1 (num_or load 1))) results) (upd_client remote_call im))"

definition poll_imap_results_once :: "client_env \<Rightarrow> imap_args \<Rightarrow> string list \<Rightarrow> imap \<Rightarrow> imap" where
  "poll_imap_results_once env args nodes im = fold (poll_node env args) nodes (im\<lparr>im_completed := [], im_freed := 0\<rparr>)"

section \<open>One round\<close>

datatype imap_outcome = Going | Finished | Stopped py_error

definition window_of :: "imap \<Rightarrow> int" where
  "window_of im = (case im_controller im of None \<Rightarrow> im_window im | Some c \<Rightarrow> ac_window c)"

definition extend_deadline :: "client_env \<Rightarrow> imap_args \<Rightarrow> imap \<Rightarrow> imap" where
  "extend_deadline env args im = im\<lparr>im_deadline := client_now env (im_client im) + max (1 / 10) (ia_timeout args)\<rparr>"

definition cancel_own_job :: "client_env \<Rightarrow> client \<Rightarrow> client" where
  "cancel_own_job env cl = (let cl1 = remote_call cl in if ce_cancel env (cl_calls cl) then clear_pending_for_current_job cl1 else cl1)"

fun yield_ready :: "client_env \<Rightarrow> imap_args \<Rightarrow> nat \<Rightarrow> imap \<Rightarrow> imap \<times> imap_outcome" where
  "yield_ready env args 0 im = (im, Going)"
| "yield_ready env args (Suc n) im = (case im_ready im of
     [] \<Rightarrow> (im, Going)
   | item # items \<Rightarrow>
       if \<not> it_ok item \<and> ia_raise args
       then (upd_client (cancel_own_job env) (im\<lparr>im_ready := items\<rparr>), Stopped (RuntimeError (it_error_message item)))
       else yield_ready env args n (im\<lparr>im_ready := items, im_out := im_out im @ [item]\<rparr>))"

definition could_not_submit :: imap_outcome where
  "could_not_submit = Stopped (RuntimeError ''imap_unordered could not submit tasks to any active task pool node'')"

definition idle_round :: "client_env \<Rightarrow> imap_args \<Rightarrow> imap \<Rightarrow> imap \<times> imap_outcome" where
  "idle_round env args im =
    (let w = window_of im
     in case fill_imap_from_quota env args w (im\<lparr>im_window := w\<rparr>) of
          (im1, Some e) \<Rightarrow> (im1, Stopped e)
        | (im1, None) \<Rightarrow>
            if 0 < im_submitted im1 then (extend_deadline env args im1, Going)
            else if pb_retry (im_buffer im1) = [] \<and> \<not> pb_exhausted (im_buffer im1)
            then (case next_payload (im_buffer im1) of
                (b, None) \<Rightarrow> (im1\<lparr>im_buffer := b\<rparr>, Going)
              | (b, Some x) \<Rightarrow> (im1\<lparr>im_buffer := requeue_front [x] b\<rparr>, could_not_submit))
            else if pb_retry (im_buffer im1) \<noteq> [] \<or> \<not> pb_exhausted (im_buffer im1) then (im1, could_not_submit)
            else (im1, Finished))"

definition observe_results :: "client_env \<Rightarrow> int \<Rightarrow> imap \<Rightarrow> imap" where
  "observe_results env n im = (case im_controller im of
     None \<Rightarrow> im
   | Some c \<Rightarrow>
       let now = client_now env (im_client im)
       in case observe_result_batch n now c of
            (c1, changed) \<Rightarrow> im\<lparr>im_controller := Some (if changed then maybe_log now c1 else c1), im_window := ac_window c1\<rparr>)"

definition results_round :: "client_env \<Rightarrow> imap_args \<Rightarrow> imap \<Rightarrow> imap \<times> imap_outcome" where
  "results_round env args im =
    (let items = im_completed im;
         im1 = observe_results env (int (length items)) ((extend_deadline env args im)\<lparr>im_ready := im_ready im @ items, im_completed := []\<rparr>)
     in if ia_raise args \<and> list_ex (\<lambda>item. \<not> it_ok item) items \<or> im_freed im1 \<le> 0 then (im1, Going)
        else
          let im2 = im1\<lparr>im_window := window_of im1\<rparr>
          in case fill_imap_from_quota env args (max 0 (im_window im2 - inflight_total im2)) im2 of
               (im3, Some e) \<Rightarrow> (im3, Stopped e)
             | (im3, None) \<Rightarrow> (im3, Going))"

fun take_stalled :: "string \<Rightarrow> string list \<Rightarrow> imap \<Rightarrow> imap \<times> replay list" where
  "take_stalled reason [] im = (im, [])"
| "take_stalled reason (node # nodes) im =
    (case take_pending_replay_records_for_node node (im_client im) of
       (cl, rs, _) \<Rightarrow>
         (case take_stalled reason nodes (if rs = [] then im\<lparr>im_client := cl\<rparr>
             else note_error node reason (im\<lparr>im_client := cl, im_inflight := dset node 0 (im_inflight im)\<rparr>)) of
            (im1, rest) \<Rightarrow> (im1, rs @ rest)))"

definition timed_out :: imap_outcome where
  "timed_out = Stopped (TimeoutError ''imap_unordered did not receive results before timeout'')"

definition halve_window :: "client_env \<Rightarrow> imap \<Rightarrow> imap" where
  "halve_window env im = (case im_controller im of
     None \<Rightarrow> im
   | Some c \<Rightarrow> (case on_timeout c of
       (c1, changed) \<Rightarrow> im\<lparr>im_controller := Some (if changed then maybe_log (client_now env (im_client im)) c1 else c1), im_window := ac_window c1\<rparr>))"

definition timeout_round :: "client_env \<Rightarrow> imap_args \<Rightarrow> imap \<Rightarrow> imap \<times> imap_outcome" where
  "timeout_round env args im0 =
    (let im = halve_window env im0; reason = ''imap_unordered did not receive results before timeout'';
         busy = (\<lambda>node. 0 < dget_or (im_inflight im) node 0); usable = filter (\<lambda>node. node \<notin> set (im_disabled im)) (ia_nodes args);
         stalled = filter busy usable; idle = filter (\<lambda>node. node \<notin> set stalled) usable;
         targets = (if idle = [] then filter busy usable else idle)
     in if 0 < ia_retries args \<and> stalled \<noteq> [] \<and> targets \<noteq> []
        then (case take_stalled reason stalled im of
           (im1, records) \<Rightarrow>
             if records = [] then (im1, timed_out)
             else if list_ex (\<lambda>r. 1 \<le> rp_timeout_retries r) records then (im1, timed_out)
             else
               let im2 = retry_timeout_replay_records_evenly env reason targets records (im1\<lparr>im_completed := []\<rparr>);
                   im3 = im2\<lparr>im_ready := im_ready im2 @ im_completed im2, im_completed := []\<rparr>
               in (extend_deadline env args im3, Going))
        else (im, timed_out))"

definition poll_round :: "client_env \<Rightarrow> imap_args \<Rightarrow> imap \<Rightarrow> imap \<times> imap_outcome" where
  "poll_round env args im =
    (let nodes = ia_nodes args; order = rotate (im_start im) nodes;
         im1 = poll_imap_results_once env args order (im\<lparr>im_start := (im_start im + 1) mod length nodes\<rparr>)
     in if im_completed im1 \<noteq> [] then results_round env args im1
        else if im_deadline im1 \<le> client_now env (im_client im1) then timeout_round env args im1
        else (im1, Going))"

definition buffer_done :: "imap \<Rightarrow> bool" where
  "buffer_done im \<longleftrightarrow> pb_exhausted (im_buffer im) \<and> pb_retry (im_buffer im) = []"

definition imap_round :: "client_env \<Rightarrow> imap_args \<Rightarrow> imap \<Rightarrow> imap \<times> imap_outcome" where
  "imap_round env args im =
    (if im_ready im \<noteq> [] then yield_ready env args (ia_receive args) im
     else if buffer_done im \<and> cl_pending (im_client im) = [] then (im, Finished)
     else if cl_pending (im_client im) = [] then idle_round env args im
     else poll_round env args im)"

text \<open>Between two rounds the keepalive thread works, and time passes.\<close>

definition meanwhile :: "client_env \<Rightarrow> imap \<Rightarrow> imap" where
  "meanwhile env im = upd_client (\<lambda>cl. remote_call (upd_members (ce_members env (cl_calls cl)) cl)) im"

fun imap_rounds :: "client_env \<Rightarrow> imap_args \<Rightarrow> nat \<Rightarrow> imap \<Rightarrow> imap \<times> imap_outcome" where
  "imap_rounds env args 0 im = (im, Going)"
| "imap_rounds env args (Suc fuel) im =
    (case imap_round env args (meanwhile env im) of
       (im1, Going) \<Rightarrow> imap_rounds env args fuel im1
     | (im1, stop) \<Rightarrow> (im1, stop))"

section \<open>The generator\<close>

record imap_call =
  ic_method :: string
  ic_strategy :: string
  ic_max_in_flight :: "int option"
  ic_receive_batch :: int
  ic_result_timeout :: rat
  ic_raise_on_error :: bool
  ic_max_infra_retries :: int

definition imap_state :: "pyval list \<Rightarrow> string list \<Rightarrow> int \<Rightarrow> controller option \<Rightarrow> instant \<Rightarrow> client \<Rightarrow> imap" where
  "imap_state payloads nodes window c deadline cl =
    \<lparr>im_client = cl, im_inflight = map (\<lambda>node. (node, 0)) nodes, im_disabled = [], im_errors = [], im_infra = [], im_index = [],
     im_buffer = new_buffer payloads, im_ready = [], im_start = 0, im_deadline = deadline, im_window = window, im_controller = c,
     im_out = [], im_submitted = 0, im_completed = [], im_freed = 0\<rparr>"

definition first_fill :: "client_env \<Rightarrow> imap_args \<Rightarrow> imap \<Rightarrow> imap \<times> imap_outcome" where
  "first_fill env args im = (case fill_imap_from_quota env args (im_window im) im of
     (im1, Some e) \<Rightarrow> (im1, Stopped e)
   | (im1, None) \<Rightarrow>
       let im2 = (if 0 < im_submitted im1
             then im1\<lparr>im_controller := map_option (\<lambda>c. c\<lparr>ac_last_result := Some (client_now env (im_client im1))\<rparr>) (im_controller im1)\<rparr> else im1)
       in (im2, if cl_pending (im_client im2) = [] \<and> buffer_done im2 then Finished else Going))"

definition imap_setup :: "client_env \<Rightarrow> imap_call \<Rightarrow> pyval list \<Rightarrow> client \<Rightarrow> client \<times> (py_error + imap_args \<times> imap)" where
  "imap_setup env call payloads cl =
    (case ensure_method (str_or (strip (str_or (ic_method call) (cl_method cl))) (cl_method cl)) cl of
       Some e \<Rightarrow> (cl, Inl e)
     | None \<Rightarrow>
       (case resolve_max_in_flight env (ic_max_in_flight call) cl of
          (cl1, window) \<Rightarrow>
            (case available_pool_node_ids env cl1 of
               (cl2, nodes) \<Rightarrow>
                 if nodes = [] then (cl2, Inl (RuntimeError ''task pool has no active node pools''))
                 else
                   let args = \<lparr>ia_nodes = nodes, ia_profile = resolve_taskpool_strategy (ic_strategy call), ia_receive = nat (max 1 (num_or (ic_receive_batch call) 1)),
                         ia_timeout = ic_result_timeout call, ia_raise = ic_raise_on_error call, ia_retries = max 0 (ic_max_infra_retries call)\<rparr>;
                       deadline = client_now env cl2 + max (1 / 10) (ic_result_timeout call)
                   in case ic_max_in_flight call of
                        Some _ \<Rightarrow> (cl2, Inr (args, imap_state payloads nodes window None deadline cl2))
                      | None \<Rightarrow> (case effective_worker_count env cl2 of
                          (cl3, workers) \<Rightarrow>
                            let c = new_controller workers window 60 (1 / 5) None
                            in (cl3, Inr (args, imap_state payloads nodes (ac_window c) (Some c) deadline cl3))))))"

text \<open>The items yielded with fuel for so many rounds, and how the generator ended.\<close>

definition imap_unordered ::
    "client_env \<Rightarrow> nat \<Rightarrow> nat \<Rightarrow> imap_call \<Rightarrow> pyval list \<Rightarrow> client \<Rightarrow> client \<times> exec_item list \<times> imap_outcome" where
  "imap_unordered env fuel thread call payloads cl =
    (if cl_closed cl then (cl, [], Stopped (RuntimeError ''task pool session is closed''))
     else case enter_exclusive_mode ''imap_unordered'' thread True cl of
       (cl1, Some e) \<Rightarrow> (cl1, [], Stopped e)
     | (cl1, None) \<Rightarrow>
         let leave = exit_exclusive_mode ''imap_unordered'' thread
         in case imap_setup env call payloads cl1 of
              (cl2, Inl e) \<Rightarrow> (leave cl2, [], Stopped e)
            | (cl2, Inr (args, im)) \<Rightarrow>
                (case first_fill env args im of
                   (im1, Going) \<Rightarrow>
                     (case imap_rounds env args fuel im1 of
                        (im2, Going) \<Rightarrow> (im_client im2, im_out im2, Going)
                      | (im2, stop) \<Rightarrow> (leave (im_client im2), im_out im2, stop))
                 | (im1, stop) \<Rightarrow> (leave (im_client im1), im_out im1, stop)))"

end
