(* ===== verification/ClientFacts.thy ===== *)
theory ClientFacts
  imports ClientLoop Ledger
begin

text \<open>
  What the sections of a pool session keep: its task ids are new, the tables agree on the tasks that
  are out, and submissions only add the tasks a node accepted.
\<close>

section \<open>Task ids\<close>

definition decimal :: "string \<Rightarrow> nat" where
  "decimal s = foldl (\<lambda>a c. 10 * a + (of_char c - 48)) 0 s"

lemma decimal_snoc [simp]: "decimal (s @ [c]) = 10 * decimal s + (of_char c - 48)"
  by (simp add: decimal_def)

lemma digit_char: "d < 10 \<Longrightarrow> (of_char (char_of (48 + d :: nat)) :: nat) = 48 + d"
  by (simp add: of_char_of)

lemma decimal_digits: "n < fuel \<Longrightarrow> decimal (digits_of fuel n) = n"
proof (induction fuel arbitrary: n)
  case (Suc fuel)
  show ?case
  proof (cases "n < 10")
    case True
    then show ?thesis using digit_char [OF True] by (simp add: decimal_def)
  next
    case False
    then have "n div 10 < fuel" using Suc.prems by linarith
    then show ?thesis using Suc.IH False digit_char [of "n mod 10"] by simp
  qed
qed simp

lemma decimal_zeros: "decimal (replicate k CHR ''0'' @ s) = decimal s"
  by (induction k) (simp_all add: decimal_def)

lemma decimal_pad4: "decimal (pad4 n) = n"
  using decimal_digits [of n "n + 1"] by (simp add: pad4_def Let_def decimal_zeros)

lemma task_id_inj: "task_id p m = task_id p n \<Longrightarrow> m = n"
  by (metis append_same_eq decimal_pad4 same_append_eq task_id_def)

definition own_id :: "string \<Rightarrow> nat \<Rightarrow> string" where
  "own_id job n = task_id (strip (job @ ''-task'')) n"

lemma own_id_inj: "own_id job m = own_id job n \<longleftrightarrow> m = n"
  using task_id_inj by (auto simp: own_id_def)

lemma digits_last: "0 < fuel \<Longrightarrow> \<exists>s d. digits_of fuel n = s @ [char_of (48 + d :: nat)] \<and> d < 10"
proof (cases fuel)
  case (Suc k)
  show ?thesis
  proof (cases "n < 10")
    case True
    then have "digits_of fuel n = [] @ [char_of (48 + n)]" using Suc by simp
    with True show ?thesis by blast
  next
    case False
    then have "digits_of fuel n = digits_of k (n div 10) @ [char_of (48 + n mod 10)]" using Suc by simp
    moreover have "n mod 10 < 10" by simp
    ultimately show ?thesis by blast
  qed
qed simp

lemma py_space_digit: "d < 10 \<Longrightarrow> \<not> py_space (char_of (48 + d :: nat))"
proof -
  assume "d < 10"
  then have "(48 + d) mod 256 = 48 + d" by simp
  then show ?thesis by (simp add: py_space_def Let_def)
qed

lemma strip_fixed: "s \<noteq> [] \<Longrightarrow> \<not> py_space (hd s) \<Longrightarrow> \<not> py_space (last s) \<Longrightarrow> strip s = s"
proof -
  assume s: "s \<noteq> []" "\<not> py_space (hd s)" "\<not> py_space (last s)"
  have "dropWhile py_space s = s" using s by (intro dropWhile_fixed) simp
  moreover have "dropWhile py_space (rev s) = rev s" using s by (intro dropWhile_fixed) (simp add: hd_rev)
  ultimately show "strip s = s" by (simp add: strip_def strip_by_def)
qed

lemma strip_nonempty:
  assumes "c \<in> set s" "\<not> py_space c"
  shows "strip s \<noteq> []"
proof -
  have "dropWhile py_space s \<noteq> []" using assms by (simp add: dropWhile_eq_Nil_conv) blast
  moreover have "\<not> py_space (hd (dropWhile py_space s))" using hd_dropWhile calculation by blast
  ultimately have "dropWhile py_space (rev (dropWhile py_space s)) \<noteq> []" by (metis dropWhile_eq_Nil_conv hd_in_set set_rev)
  then show ?thesis by (simp add: strip_def strip_by_def)
qed

lemma own_prefix: "strip (job @ ''-task'') \<noteq> []"
  by (rule strip_nonempty [of "CHR ''t''"]) (simp_all add: py_space_def)

lemma strip_own_id [simp]: "strip (own_id job n) = own_id job n"
proof (rule strip_fixed)
  let ?p = "strip (job @ ''-task'')"
  have "\<not> py_space (hd ?p)" using strip_by_ends(1) [of py_space "job @ ''-task''"] own_prefix [of job] by (simp add: strip_def)
  then show "\<not> py_space (hd (own_id job n))" using own_prefix [of job] by (simp add: own_id_def task_id_def)
  obtain s d where "digits_of (n + 1) n = s @ [char_of (48 + d :: nat)]" "d < 10" using digits_last [of "n + 1" n] by auto
  then show "\<not> py_space (last (own_id job n))" using py_space_digit by (simp add: own_id_def task_id_def pad4_def Let_def)
  show "own_id job n \<noteq> []" by (simp add: own_id_def task_id_def)
qed

lemma own_id_nonempty [simp]: "own_id job n \<noteq> []"
  by (simp add: own_id_def task_id_def)

section \<open>The tables agree\<close>

text \<open>A section that leaves the tasks alone.\<close>

definition same_tasks :: "client \<Rightarrow> client \<Rightarrow> bool" where
  "same_tasks cl cl' \<longleftrightarrow> cl_pending cl' = cl_pending cl \<and> cl_pending_nodes cl' = cl_pending_nodes cl \<and> cl_replay cl' = cl_replay cl \<and>
    cl_replay_nodes cl' = cl_replay_nodes cl \<and> cl_seq cl' = cl_seq cl \<and> cl_job_id cl' = cl_job_id cl"

lemma same_tasks_refl [simp]: "same_tasks cl cl"
  by (simp add: same_tasks_def)

lemma same_tasks_trans: "same_tasks a b \<Longrightarrow> same_tasks b c \<Longrightarrow> same_tasks a c"
  by (simp add: same_tasks_def)

lemma same_tasks_ops [simp]:
  "same_tasks cl (remote_call cl)" "same_tasks cl (upd_members f cl)" "same_tasks cl (cl\<lparr>cl_sched := s\<rparr>)" "same_tasks cl (cl\<lparr>cl_members := m\<rparr>)"
  "same_tasks cl (mark_pool_submit_success node cl)" "same_tasks cl (mark_pool_submit_failure env k e node cl)"
  "same_tasks cl (mark_owner_node_instance_blacklisted node r cl)" "same_tasks cl (mark_task_method_node_blacklisted env node r cl)"
  "same_tasks cl (fst (available_pool_node_ids env cl))" "same_tasks cl (fst (format_pool_submit_failure env node d cl))"
  by (simp_all add: same_tasks_def remote_call_def upd_members_def mark_pool_submit_success_def mark_pool_submit_failure_def
      mark_owner_node_instance_blacklisted_def mark_task_method_node_blacklisted_def available_pool_node_ids_def
      format_pool_submit_failure_def Let_def split: prod.split option.split sum.split)

lemma same_tasks_plans [simp]:
  "same_tasks cl (fst (effective_worker_count env cl))" "same_tasks cl (fst (build_pool_scheduler_candidates env a st cl))"
  "same_tasks cl (fst (plan_limited_pool_node_targets env av order n p load dis infra rr cl))" "same_tasks cl (fst (resolve_max_in_flight env req cl))"
proof -
  have w: "same_tasks cl (fst (effective_worker_count env cl))" for cl
    using same_tasks_ops(9) [of cl env] by (simp add: effective_worker_count_def case_prod_unfold)
  have b: "same_tasks cl (fst (build_pool_scheduler_candidates env a st cl))" for a st
    using same_tasks_ops(9) [of cl env] by (simp add: build_pool_scheduler_candidates_def case_prod_unfold Let_def)
  show "same_tasks cl (fst (effective_worker_count env cl))" "same_tasks cl (fst (build_pool_scheduler_candidates env a st cl))" by (rule w, rule b)
  show "same_tasks cl (fst (plan_limited_pool_node_targets env av order n p load dis infra rr cl))"
    using b by (simp add: plan_limited_pool_node_targets_def case_prod_unfold Let_def)
  show "same_tasks cl (fst (resolve_max_in_flight env req cl))"
    using w by (simp add: resolve_max_in_flight_def case_prod_unfold split: option.split)
qed

definition tasks_ok :: "client \<Rightarrow> bool" where
  "tasks_ok cl \<longleftrightarrow> dwf (cl_replay cl) \<and> set (cl_pending cl) = dom (map_of (cl_replay cl)) \<and>
    (\<forall>t r. dget (cl_replay cl) t = Some r \<longrightarrow> rp_task_id r = t \<and> (\<exists>k \<le> cl_seq cl. t = own_id (cl_job_id cl) k)) \<and>
    (\<forall>node ts t. dget (cl_replay_nodes cl) node = Some ts \<longrightarrow> t \<in> set ts \<longrightarrow> strip t = t) \<and>
    (\<forall>t. dget (cl_pending_nodes cl) t \<noteq> None \<longrightarrow> strip t = t)"

lemma tasks_ok_same: "same_tasks cl cl' \<Longrightarrow> tasks_ok cl \<Longrightarrow> tasks_ok cl'"
  by (simp add: tasks_ok_def same_tasks_def)


lemma tasks_okD:
  assumes "tasks_ok cl"
  shows "dwf (cl_replay cl)" "t \<in> set (cl_pending cl) \<longleftrightarrow> dget (cl_replay cl) t \<noteq> None"
    "dget (cl_replay cl) t = Some r \<Longrightarrow> rp_task_id r = t" "dget (cl_replay cl) t = Some r \<Longrightarrow> \<exists>k \<le> cl_seq cl. t = own_id (cl_job_id cl) k"
    "dget (cl_replay cl) t = Some r \<Longrightarrow> strip t = t" "dget (cl_replay cl) t = Some r \<Longrightarrow> t \<noteq> []"
proof -
  show "dget (cl_replay cl) t = Some r \<Longrightarrow> \<exists>k \<le> cl_seq cl. t = own_id (cl_job_id cl) k" for t using assms by (simp add: tasks_ok_def)
  then show "dget (cl_replay cl) t = Some r \<Longrightarrow> strip t = t" "dget (cl_replay cl) t = Some r \<Longrightarrow> t \<noteq> []" using strip_own_id own_id_nonempty by metis+
  show "t \<in> set (cl_pending cl) \<longleftrightarrow> dget (cl_replay cl) t \<noteq> None" using assms by (auto simp: tasks_ok_def)
qed (use assms in \<open>simp_all add: tasks_ok_def\<close>)

lemma tasks_okI:
  assumes "dwf (cl_replay cl)" "\<And>t. t \<in> set (cl_pending cl) \<longleftrightarrow> dget (cl_replay cl) t \<noteq> None"
    and "\<And>t r. dget (cl_replay cl) t = Some r \<Longrightarrow> rp_task_id r = t \<and> (\<exists>k \<le> cl_seq cl. t = own_id (cl_job_id cl) k)"
    and "\<And>node ts t. dget (cl_replay_nodes cl) node = Some ts \<Longrightarrow> t \<in> set ts \<Longrightarrow> strip t = t"
    and "\<And>t. dget (cl_pending_nodes cl) t \<noteq> None \<Longrightarrow> strip t = t"
  shows "tasks_ok cl"
proof -
  have "set (cl_pending cl) = dom (map_of (cl_replay cl))" using assms(2) by auto
  then show ?thesis using assms unfolding tasks_ok_def by blast
qed

section \<open>Tasks leave\<close>

text \<open>The tables without some tasks.\<close>

definition without :: "string set \<Rightarrow> client \<Rightarrow> client \<Rightarrow> bool" where
  "without T cl cl' \<longleftrightarrow> cl_seq cl' = cl_seq cl \<and> cl_job_id cl' = cl_job_id cl \<and>
    (\<forall>t. t \<in> set (cl_pending cl') \<longleftrightarrow> t \<in> set (cl_pending cl) \<and> t \<notin> T) \<and>
    (\<forall>t. dget (cl_replay cl') t = (if t \<in> T then None else dget (cl_replay cl) t)) \<and> tasks_ok cl'"

lemma remove_replay:
  assumes "tasks_ok cl" "strip t = t"
  shows "snd (remove_replay_record t cl) = dget (cl_replay cl) t"
    and "cl_replay (fst (remove_replay_record t cl)) = dpop t (cl_replay cl)"
    and "cl_pending (fst (remove_replay_record t cl)) = cl_pending cl" "cl_pending_nodes (fst (remove_replay_record t cl)) = cl_pending_nodes cl"
    and "cl_seq (fst (remove_replay_record t cl)) = cl_seq cl" "cl_job_id (fst (remove_replay_record t cl)) = cl_job_id cl"
    and "dget (cl_replay_nodes (fst (remove_replay_record t cl))) node = Some ts \<Longrightarrow> u \<in> set ts \<Longrightarrow> strip u = u"
proof -
  have none: "dget (cl_replay cl) [] = None" using tasks_okD(6) [OF assms(1), of "[]"] by (cases "dget (cl_replay cl) []") auto
  have gone: "dget d t = None \<Longrightarrow> dpop t d = d" for d :: "(string, replay) dict"
    by (metis delete_id dom_map_of_conv_image_fst map_of_eq_None_iff)
  show "snd (remove_replay_record t cl) = dget (cl_replay cl) t"
    using assms(2) none by (auto simp: remove_replay_record_def Let_def split: option.split)
  show "cl_replay (fst (remove_replay_record t cl)) = dpop t (cl_replay cl)"
    using assms(2) none gone by (auto simp: remove_replay_record_def Let_def split: option.split)
  show "cl_pending (fst (remove_replay_record t cl)) = cl_pending cl" "cl_pending_nodes (fst (remove_replay_record t cl)) = cl_pending_nodes cl"
    "cl_seq (fst (remove_replay_record t cl)) = cl_seq cl" "cl_job_id (fst (remove_replay_record t cl)) = cl_job_id cl"
    by (simp_all add: remove_replay_record_def Let_def split: option.split)
  have "\<And>node ts t. dget (cl_replay_nodes cl) node = Some ts \<Longrightarrow> t \<in> set ts \<Longrightarrow> strip t = t" using assms(1) by (simp add: tasks_ok_def)
  then show "dget (cl_replay_nodes (fst (remove_replay_record t cl))) node = Some ts \<Longrightarrow> u \<in> set ts \<Longrightarrow> strip u = u"
    by (auto simp: remove_replay_record_def Let_def dict_simps split: option.splits if_splits)
qed

lemma leave_without:
  assumes "tasks_ok cl" "strip t = t"
  shows "without {t} cl (fst (remove_replay_record t (cl\<lparr>cl_pending := removeAll t (cl_pending cl), cl_pending_nodes := dpop t (cl_pending_nodes cl)\<rparr>)))"
proof -
  let ?c1 = "cl\<lparr>cl_pending := removeAll t (cl_pending cl), cl_pending_nodes := dpop t (cl_pending_nodes cl)\<rparr>"
  let ?c2 = "fst (remove_replay_record t ?c1)"
  have eq: "remove_replay_record t ?c1 = (fst (remove_replay_record t cl)\<lparr>cl_pending := removeAll t (cl_pending cl), cl_pending_nodes := dpop t (cl_pending_nodes cl)\<rparr>,
      snd (remove_replay_record t cl))"
    by (simp add: remove_replay_record_def Let_def split: option.split)
  note R = remove_replay [OF assms]
  have "tasks_ok ?c2" unfolding eq fst_conv
  proof (rule tasks_okI, goal_cases)
    case (2 u)
    then show ?case using tasks_okD(2) [OF assms(1)] R by (simp add: dict_simps)
  next
    case (3 u r)
    then show ?case using tasks_okD(3,4) [OF assms(1)] R by (simp add: dict_simps split: if_splits)
  next
    case (5 u)
    then show ?case using assms(1) by (simp add: tasks_ok_def dict_simps split: if_splits)
  qed (use tasks_okD(1) [OF assms(1)] R in simp_all)
  then show ?thesis unfolding without_def eq using R by (simp add: dict_simps)
qed

lemma without_same:
  assumes "without T cl cl'" "same_tasks cl' cl''"
  shows "without T cl cl''"
proof -
  have "tasks_ok cl''" using tasks_ok_same [OF assms(2)] assms(1) by (simp add: without_def)
  then show ?thesis using assms by (simp add: without_def same_tasks_def)
qed

lemma without_trans: "without S a b \<Longrightarrow> without T b c \<Longrightarrow> without (S \<union> T) a c"
  by (auto simp: without_def)

lemma consumed_without:
  assumes "tasks_ok cl" "strip t = t" "t \<noteq> []"
  shows "without {t} cl (mark_result_consumed t cl)"
proof -
  have "same_tasks c (if node = [] then c else c\<lparr>cl_sched := s\<rparr>)" for c node s by simp
  then show ?thesis using without_same [OF leave_without [OF assms(1,2)]] assms(2,3) unfolding mark_result_consumed_def Let_def by simp
qed

text \<open>The payloads that are out.\<close>

definition out_indices :: "client \<Rightarrow> int multiset" where
  "out_indices cl = tally (\<lambda>r. {#rp_index r#}) (cl_replay cl)"

lemma out_same: "same_tasks cl cl' \<Longrightarrow> out_indices cl' = out_indices cl"
  by (simp add: out_indices_def same_tasks_def)

lemma out_without:
  assumes "tasks_ok cl" "without {t} cl cl'" "cl_replay cl' = dpop t (cl_replay cl)"
  shows "out_indices cl = (case dget (cl_replay cl) t of None \<Rightarrow> {#} | Some r \<Rightarrow> {#rp_index r#}) + out_indices cl'"
proof (cases "dget (cl_replay cl) t")
  case None
  then have "dpop t (cl_replay cl) = cl_replay cl" by (metis delete_id dom_map_of_conv_image_fst map_of_eq_None_iff)
  then show ?thesis using None assms(3) by (simp add: out_indices_def)
next
  case (Some r)
  then show ?thesis using tally_dpop [OF tasks_okD(1) [OF assms(1)] Some, of "\<lambda>r. {#rp_index r#}"] assms(3) by (simp add: out_indices_def)
qed

lemma take_tasks_facts:
  assumes "tasks_ok cl" "\<forall>t \<in> set ts. strip t = t"
  shows "without (set ts) cl (fst (take_tasks ts cl)) \<and>
    out_indices cl = mset (map rp_index (fst (snd (take_tasks ts cl)))) + out_indices (fst (take_tasks ts cl)) \<and>
    (\<forall>r \<in> set (fst (snd (take_tasks ts cl))). dget (cl_replay cl) (rp_task_id r) = Some r \<and> rp_task_id r \<in> set ts)"
  using assms
proof (induction ts arbitrary: cl)
  case Nil
  then show ?case by (simp add: without_def)
next
  case (Cons t ts)
  let ?c1 = "cl\<lparr>cl_pending := removeAll t (cl_pending cl), cl_pending_nodes := dpop t (cl_pending_nodes cl)\<rparr>"
  obtain cl2 r where rm: "remove_replay_record t ?c1 = (cl2, r)" by (rule prod.exhaust)
  have t: "strip t = t" using Cons.prems by simp
  have w: "without {t} cl cl2" using leave_without [OF Cons.prems(1) t] rm by simp
  have "remove_replay_record t ?c1 = (fst (remove_replay_record t cl)\<lparr>cl_pending := removeAll t (cl_pending cl), cl_pending_nodes := dpop t (cl_pending_nodes cl)\<rparr>,
      snd (remove_replay_record t cl))" by (simp add: remove_replay_record_def Let_def split: option.split)
  then have r: "r = dget (cl_replay cl) t" "cl_replay cl2 = dpop t (cl_replay cl)" using remove_replay [OF Cons.prems(1) t] rm by auto
  have ok2: "tasks_ok cl2" using w by (simp add: without_def)
  obtain cl3 rs orphans where tk: "take_tasks ts cl2 = (cl3, rs, orphans)" by (rule prod_cases3)
  note IH = Cons.IH [OF ok2]
  have w3: "without (set (t # ts)) cl cl3" using without_trans [OF w] IH Cons.prems(2) tk by fastforce
  have o2: "out_indices cl2 = mset (map rp_index rs) + out_indices cl3" using IH Cons.prems(2) tk by simp
  have rs: "dget (cl_replay cl) (rp_task_id x) = Some x \<and> rp_task_id x \<in> set (t # ts)" if "x \<in> set rs" for x
  proof -
    have "dget (cl_replay cl2) (rp_task_id x) = Some x" "rp_task_id x \<in> set ts" using IH Cons.prems(2) tk that by auto
    then show ?thesis using r(2) by (auto simp: dict_simps split: if_splits)
  qed
  note o1 = out_without [OF Cons.prems(1) w r(2)]
  show ?case
  proof (cases r)
    case None
    then show ?thesis using w3 o1 o2 rs r(1) by (simp add: rm tk Let_def)
  next
    case (Some x)
    then have x: "dget (cl_replay cl) t = Some x" using r(1) by simp
    then have "rp_task_id x = t" using tasks_okD(3) [OF Cons.prems(1)] by simp
    then show ?thesis using w3 o1 o2 rs x Some by (simp add: rm tk Let_def)
  qed
qed

lemma tasks_on_node_stripped: "tasks_ok cl \<Longrightarrow> t \<in> set (tasks_on_node node cl) \<Longrightarrow> strip t = t"
proof -
  assume ok: "tasks_ok cl" and t: "t \<in> set (tasks_on_node node cl)"
  have "(\<exists>ts. dget (cl_replay_nodes cl) node = Some ts \<and> t \<in> set ts) \<or> t \<in> fst ` set (cl_pending_nodes cl)"
    using t by (auto simp: tasks_on_node_def dget_or_def split: option.splits)
  then show "strip t = t" using ok unfolding tasks_ok_def by (metis map_of_eq_None_iff)
qed

text \<open>What taking the tasks of a node means, whether it is lost or only silent.\<close>

definition took :: "client \<Rightarrow> client \<times> replay list \<times> string list \<Rightarrow> bool" where
  "took cl res \<longleftrightarrow> (\<exists>T. without T cl (fst res) \<and> out_indices cl = mset (map rp_index (fst (snd res))) + out_indices (fst res) \<and>
    (\<forall>r \<in> set (fst (snd res)). dget (cl_replay cl) (rp_task_id r) = Some r \<and> rp_task_id r \<in> T))"

lemma took_pending:
  assumes "tasks_ok cl"
  shows "took cl (take_pending_replay_records_for_node node cl)"
proof (cases "strip node = []")
  case True
  then show ?thesis using assms by (auto simp: took_def take_pending_replay_records_for_node_def without_def intro!: exI [of _ "{}"])
next
  case False
  let ?ts = "tasks_on_node (strip node) cl"
  obtain cl1 rs orphans where tk: "take_tasks ?ts cl = (cl1, rs, orphans)" by (rule prod_cases3)
  note F = take_tasks_facts [OF assms, of ?ts]
  have F': "without (set ?ts) cl cl1" "out_indices cl = mset (map rp_index rs) + out_indices cl1"
    "\<forall>r \<in> set rs. dget (cl_replay cl) (rp_task_id r) = Some r \<and> rp_task_id r \<in> set ?ts"
    using F tasks_on_node_stripped [OF assms] tk by auto
  let ?c2 = "cl1\<lparr>cl_sched := (cl_sched cl1)\<lparr>local_inflight_by_candidate := dset (strip node) 0 (local_inflight_by_candidate (cl_sched cl1))\<rparr>\<rparr>"
  have "take_pending_replay_records_for_node node cl = (?c2, rs, orphans)" using False tk by (simp add: take_pending_replay_records_for_node_def)
  moreover have "without (set ?ts) cl ?c2" using without_same [OF F'(1)] by simp
  moreover have "out_indices ?c2 = out_indices cl1" using out_same same_tasks_ops(3) by blast
  ultimately show ?thesis using F' unfolding took_def by (intro exI [of _ "set ?ts"]) simp
qed

lemma took_same:
  assumes "same_tasks cl cl'" "took cl' res"
  shows "took cl res"
proof -
  obtain T where T: "without T cl' (fst res)" "out_indices cl' = mset (map rp_index (fst (snd res))) + out_indices (fst res)"
    "\<forall>r \<in> set (fst (snd res)). dget (cl_replay cl') (rp_task_id r) = Some r \<and> rp_task_id r \<in> T"
    using assms(2) by (auto simp: took_def)
  have "without T cl (fst res)" using T(1) assms(1) by (simp add: without_def same_tasks_def)
  moreover have "out_indices cl = mset (map rp_index (fst (snd res))) + out_indices (fst res)" using T(2) out_same [OF assms(1)] by simp
  moreover have "cl_replay cl' = cl_replay cl" using assms(1) by (simp add: same_tasks_def)
  ultimately show ?thesis using T(3) unfolding took_def by (intro exI [of _ T]) simp
qed

lemma took_lost:
  assumes "tasks_ok cl"
  shows "took cl (mark_taskpool_node_lost env node err cl)"
proof (cases "strip node = []")
  case True
  then show ?thesis using assms by (auto simp: took_def mark_taskpool_node_lost_def without_def intro!: exI [of _ "{}"])
next
  case False
  let ?c1 = "upd_members (\<lambda>m. m\<lparr>mb_active := removeAll (strip node) (mb_active m), mb_failures := dset (strip node) (str_or err ''task pool node lost'') (mb_failures m)\<rparr>) cl"
  let ?c2 = "?c1\<lparr>cl_sched := (cl_sched ?c1)\<lparr>disabled_candidates := List.insert (strip node) (disabled_candidates (cl_sched ?c1))\<rparr>\<rparr>"
  let ?c3 = "mark_pool_submit_failure env REMOTE_INFRA_FAILED err (strip node) ?c2"
  have s: "same_tasks cl ?c3" using same_tasks_trans [OF same_tasks_trans [OF same_tasks_ops(2) same_tasks_ops(3)] same_tasks_ops(6)] .
  have "took cl (take_pending_replay_records_for_node (strip node) ?c3)"
    using took_same [OF s took_pending [OF tasks_ok_same [OF s assms]]] .
  then show ?thesis unfolding mark_taskpool_node_lost_def Let_def if_not_P [OF False] .
qed

end
