(* ===== verification/ClientMoves.thy ===== *)
theory ClientMoves
  imports ClientFacts
begin

text \<open>
  How submissions change the tables of a pool session: a node adds tasks it was given, each task gets
  its record, and nothing else moves.
\<close>

section \<open>Sequence numbers move on\<close>

definition later :: "client \<Rightarrow> client \<Rightarrow> bool" where
  "later cl cl' \<longleftrightarrow> set (cl_pending cl') = set (cl_pending cl) \<and> cl_replay cl' = cl_replay cl \<and>
    (\<forall>t. dget (cl_pending_nodes cl') t \<noteq> None \<longrightarrow> dget (cl_pending_nodes cl) t \<noteq> None) \<and>
    cl_replay_nodes cl' = cl_replay_nodes cl \<and> cl_job_id cl' = cl_job_id cl \<and> cl_seq cl \<le> cl_seq cl'"

lemma later_same: "same_tasks cl cl' \<Longrightarrow> later cl cl'"
  by (simp add: later_def same_tasks_def)

lemma later_trans: "later a b \<Longrightarrow> later b c \<Longrightarrow> later a c"
  by (simp add: later_def)

text \<open>The tables agree but for tasks that are out and have no record yet.\<close>

definition tasks_but :: "string set \<Rightarrow> client \<Rightarrow> bool" where
  "tasks_but A cl \<longleftrightarrow> dwf (cl_replay cl) \<and> (\<forall>t. t \<in> set (cl_pending cl) \<longleftrightarrow> dget (cl_replay cl) t \<noteq> None \<or> t \<in> A) \<and>
    (\<forall>t \<in> A. dget (cl_replay cl) t = None \<and> (\<exists>k \<le> cl_seq cl. t = own_id (cl_job_id cl) k)) \<and>
    (\<forall>t r. dget (cl_replay cl) t = Some r \<longrightarrow> rp_task_id r = t \<and> (\<exists>k \<le> cl_seq cl. t = own_id (cl_job_id cl) k)) \<and>
    (\<forall>node ts t. dget (cl_replay_nodes cl) node = Some ts \<longrightarrow> t \<in> set ts \<longrightarrow> strip t = t) \<and>
    (\<forall>t. dget (cl_pending_nodes cl) t \<noteq> None \<longrightarrow> strip t = t)"

lemma tasks_but_none: "tasks_but {} cl \<longleftrightarrow> tasks_ok cl"
  by (auto simp: tasks_but_def tasks_ok_def)

lemma tasks_but_same: "same_tasks cl cl' \<Longrightarrow> tasks_but A cl \<Longrightarrow> tasks_but A cl'"
  by (simp add: tasks_but_def same_tasks_def)

lemma tasks_ok_later:
  assumes "later cl cl'" "tasks_ok cl"
  shows "tasks_ok cl'"
proof (rule tasks_okI, goal_cases)
  case (3 t r)
  then have "dget (cl_replay cl) t = Some r" using assms(1) by (simp add: later_def)
  then show ?case using tasks_okD(3,4) [OF assms(2)] assms(1) unfolding later_def by (metis le_trans)
next
  case (2 t)
  show ?case using assms tasks_okD(2) [OF assms(2)] by (simp add: later_def)
qed (use assms tasks_okD(1,2) [OF assms(2)] in \<open>simp_all add: later_def tasks_ok_def\<close>)

lemma out_later: "later cl cl' \<Longrightarrow> out_indices cl' = out_indices cl"
  by (simp add: out_indices_def later_def)

section \<open>A node accepts tasks\<close>

definition added :: "string set \<Rightarrow> client \<Rightarrow> client \<Rightarrow> bool" where
  "added A cl cl' \<longleftrightarrow> cl_seq cl' = cl_seq cl \<and> cl_job_id cl' = cl_job_id cl \<and> cl_replay cl' = cl_replay cl \<and> cl_replay_nodes cl' = cl_replay_nodes cl \<and>
    set (cl_pending cl') = set (cl_pending cl) \<union> A \<and> (\<forall>t. dget (cl_pending_nodes cl') t \<noteq> None \<longrightarrow> dget (cl_pending_nodes cl) t \<noteq> None \<or> t \<in> A)"

lemma added_same: "same_tasks cl cl' \<Longrightarrow> added {} cl cl'"
  by (simp add: added_def same_tasks_def)

lemma later_added: "added {} cl cl' \<Longrightarrow> later cl cl'"
  by (simp add: added_def later_def)

lemma added_trans: "added A a b \<Longrightarrow> added B b c \<Longrightarrow> added (A \<union> B) a c"
proof -
  assume 1: "added A a b" and 2: "added B b c"
  have "dget (cl_pending_nodes c) t \<noteq> None \<Longrightarrow> dget (cl_pending_nodes a) t \<noteq> None \<or> t \<in> A \<union> B" for t
    using 1 2 unfolding added_def by (metis UnCI)
  then show "added (A \<union> B) a c" using 1 2 by (simp add: added_def Un_assoc)
qed

lemma added_then_same: "added A a b \<Longrightarrow> same_tasks b c \<Longrightarrow> added A a c"
  using added_trans [OF _ added_same] by fastforce

lemma register_pending_added:
  assumes "\<forall>t \<in> set ids. strip t = t \<and> t \<noteq> []"
  shows "added (set ids) cl (register_pending_task_ids node ids cl)"
  using assms
proof (induction ids arbitrary: cl)
  case (Cons t ids)
  let ?c1 = "cl\<lparr>cl_pending := List.insert t (cl_pending cl)\<rparr>"
  let ?c2 = "if node = [] then ?c1 else ?c1\<lparr>cl_pending_nodes := dset t node (cl_pending_nodes ?c1),
      cl_sched := (cl_sched ?c1)\<lparr>local_inflight_by_candidate :=
        dset node (dget_or (local_inflight_by_candidate (cl_sched cl)) node 0 + 1) (local_inflight_by_candidate (cl_sched cl))\<rparr>\<rparr>"
  have "added {t} cl ?c2" by (auto simp: added_def dict_simps)
  moreover have "added (set ids) ?c2 (register_pending_task_ids node ids ?c2)" using Cons by simp
  ultimately show ?case using added_trans [of "{t}" cl ?c2] Cons.prems by (simp add: Let_def)
qed (simp add: added_same)

text \<open>A submission that fails has given nothing to its node: it fails in its first batch, if at all.\<close>

definition whole_submissions :: "client_env \<Rightarrow> bool" where
  "whole_submissions env \<longleftrightarrow> (\<forall>n k node e. ce_submit env n k node = SubmitFails e \<longrightarrow> k = 0)"

lemma concat_split: "concat (split_batches w limit current used items) = current @ items"
  by (induction w limit current used items rule: split_batches.induct) auto

lemma batch_added:
  assumes "\<forall>i \<in> set batch. strip (si_id i) = si_id i \<and> si_id i \<noteq> []"
  shows "added (set (filter ok (map si_id batch))) cl (register_pending_task_ids node (filter ok (map si_id batch)) (remote_call cl))"
proof -
  have "\<forall>t \<in> set (filter ok (map si_id batch)). strip t = t \<and> t \<noteq> []" using assms by auto
  from register_pending_added [OF this] show ?thesis using added_trans [OF added_same [OF same_tasks_ops(1)]] by fastforce
qed

lemma submit_first:
  assumes "whole_submissions env" "\<forall>i \<in> set (concat batches). strip (si_id i) = si_id i \<and> si_id i \<noteq> []"
    and "submit_batches env node k batches cl = (cl', res)"
  shows "case res of Inl e \<Rightarrow> k = 0 \<and> same_tasks cl cl' | Inr accepted \<Rightarrow> set accepted \<subseteq> si_id ` set (concat batches) \<and> added (set accepted) cl cl'"
  using assms(2,3)
proof (induction batches arbitrary: k cl cl' res)
  case Nil
  then show ?case by (auto simp: added_same)
next
  case (Cons batch batches)
  show ?case
  proof (cases "ce_submit env (cl_calls cl) k node")
    case (SubmitFails e)
    moreover have "k = 0" using assms(1) SubmitFails unfolding whole_submissions_def by blast
    ultimately show ?thesis using Cons.prems(2) by auto
  next
    case (SubmitAccepts ok)
    let ?acc = "filter ok (map si_id batch)"
    let ?c1 = "register_pending_task_ids node ?acc (remote_call cl)"
    obtain cl2 res2 where s: "submit_batches env node (k + 1) batches ?c1 = (cl2, res2)" by (rule prod.exhaust)
    have "\<forall>i \<in> set batch. strip (si_id i) = si_id i \<and> si_id i \<noteq> []" using Cons.prems(1) by simp
    note 1 = batch_added [OF this, of ok cl node]
    note IH = Cons.IH [OF _ s]
    show ?thesis
    proof (cases res2)
      case (Inl e)
      then show ?thesis using IH Cons.prems(1) by simp
    next
      case (Inr acc)
      then have acc: "set acc \<subseteq> si_id ` set (concat batches)" "added (set acc) ?c1 cl2" using IH Cons.prems(1) by auto
      have "added (set (?acc @ acc)) cl cl2" using added_trans [OF 1 acc(2)] by simp
      moreover have "set (?acc @ acc) \<subseteq> si_id ` set (concat (batch # batches))" using acc(1) by (auto simp: image_Un)
      moreover have "res = Inr (?acc @ acc)" "cl' = cl2" using Cons.prems(2) SubmitAccepts s Inr by (simp_all add: Let_def)
      ultimately show ?thesis by simp
    qed
  qed
qed

lemma submit_items:
  assumes "whole_submissions env" "\<forall>i \<in> set items. strip (si_id i) = si_id i \<and> si_id i \<noteq> []"
    and "submit_task_items_to_node env node items cl = (cl', res)"
  shows "case res of Inl e \<Rightarrow> same_tasks cl cl' | Inr accepted \<Rightarrow> set accepted \<subseteq> si_id ` set items \<and> added (set accepted) cl cl'"
proof (cases "items = [] \<or> dget (mb_pools (cl_members cl)) node = None")
  case True
  then show ?thesis using assms(3) by (auto simp: submit_task_items_to_node_def added_same split: if_splits)
next
  case False
  then obtain pool where pool: "dget (mb_pools (cl_members cl)) node = Some pool" "items \<noteq> []" by blast
  define limit where "limit = node_submit_http_body_limit (dget (mb_nodes (cl_members cl)) node) pool"
  define safe where "safe = (if 0 < limit then max 0 \<lfloor>of_int limit * (4 / 5 :: rat)\<rfloor> else 0)"
  define batches where "batches = (if safe \<le> 0 then [items] else split_batches (\<lambda>i. ce_size env (si_payload i)) safe [] 1024 items)"
  have b: "submit_batches env node 0 batches cl = (cl', res)"
    using assms(3) unfolding submit_task_items_to_node_def Let_def if_not_P [OF pool(2)] pool(1) option.case batches_def safe_def limit_def .
  have "concat batches = items" by (simp add: batches_def concat_split)
  then show ?thesis using submit_first [OF assms(1) _ b(1)] assms(2) by (simp split: sum.splits)
qed

section \<open>A task is built\<close>

lemma build_item:
  assumes "build_task_submit_item env [] node p cl = (cl', res)"
  shows "later cl cl'" "cl_seq cl' = cl_seq cl + 1" "res = Inr i \<Longrightarrow> si_id i = own_id (cl_job_id cl) (cl_seq cl + 1) \<and> si_payload i = p"
  using assms own_prefix [of "cl_job_id cl"]
  by (auto simp: build_task_submit_item_def later_def Let_def default_prefix_def str_or_def own_id_def split: if_splits option.splits)

section \<open>A record is registered\<close>

definition gained :: "replay \<Rightarrow> client \<Rightarrow> client \<Rightarrow> bool" where
  "gained r cl cl' \<longleftrightarrow> cl_job_id cl' = cl_job_id cl \<and> cl_seq cl \<le> cl_seq cl' \<and> cl_replay cl' = dset (rp_task_id r) r (cl_replay cl) \<and>
    dget (cl_replay cl) (rp_task_id r) = None"

lemma out_gained: "gained r cl cl' \<Longrightarrow> out_indices cl' = add_mset (rp_index r) (out_indices cl)"
  by (simp add: gained_def out_indices_def tally_dset_new)

lemma gained_same: "gained r cl cl' \<Longrightarrow> same_tasks cl' cl'' \<Longrightarrow> gained r cl cl''"
  by (simp add: gained_def same_tasks_def)

definition settled_record :: "replay \<Rightarrow> replay" where
  "settled_record r = r\<lparr>rp_node_id := strip (rp_node_id r), rp_attempt := max 0 (rp_attempt r), rp_timeout_retries := max 0 (rp_timeout_retries r)\<rparr>"

lemma settled_record [simp]: "rp_task_id (settled_record r) = rp_task_id r" "rp_index (settled_record r) = rp_index r"
  "rp_payload (settled_record r) = rp_payload r"
  by (simp_all add: settled_record_def)

lemma register_gains:
  assumes "tasks_but A cl" "rp_task_id r \<in> A"
  shows "tasks_but (A - {rp_task_id r}) (register_replay_record r cl)" "gained (settled_record r) cl (register_replay_record r cl)"
proof -
  have t: "strip (rp_task_id r) = rp_task_id r" "rp_task_id r \<noteq> []" "dget (cl_replay cl) (rp_task_id r) = None"
    using assms unfolding tasks_but_def by (metis strip_own_id, metis own_id_nonempty, metis)
  have eq: "register_replay_record r cl = cl\<lparr>cl_replay := dset (rp_task_id r) (settled_record r) (cl_replay cl),
      cl_replay_nodes := (if strip (rp_node_id r) = [] then cl_replay_nodes cl
        else dset (strip (rp_node_id r)) (List.insert (rp_task_id r) (dget_or (cl_replay_nodes cl) (strip (rp_node_id r)) [])) (cl_replay_nodes cl))\<rparr>"
    using t by (simp add: register_replay_record_def settled_record_def Let_def)
  then show "gained (settled_record r) cl (register_replay_record r cl)" using t by (simp add: gained_def)
  have own: "\<exists>k \<le> cl_seq cl. rp_task_id r = own_id (cl_job_id cl) k" using assms by (simp add: tasks_but_def)
  have nodes: "strip u = u" if "dget (cl_replay_nodes (register_replay_record r cl)) node = Some ts" "u \<in> set ts" for node ts u
  proof -
    have old: "dget (cl_replay_nodes cl) n = Some us \<Longrightarrow> v \<in> set us \<Longrightarrow> strip v = v" for n us v using assms(1) unfolding tasks_but_def by blast
    show ?thesis using that old t(1) unfolding eq by (auto simp: dict_simps dget_or_def split: if_splits option.splits)
  qed
  have pend: "cl_pending_nodes (register_replay_record r cl) = cl_pending_nodes cl" by (simp add: eq)
  show "tasks_but (A - {rp_task_id r}) (register_replay_record r cl)"
    unfolding tasks_but_def
  proof (intro conjI)
    show "\<forall>node ts t. dget (cl_replay_nodes (register_replay_record r cl)) node = Some ts \<longrightarrow> t \<in> set ts \<longrightarrow> strip t = t" using nodes by blast
    show "\<forall>t. dget (cl_pending_nodes (register_replay_record r cl)) t \<noteq> None \<longrightarrow> strip t = t" using assms(1) pend by (simp add: tasks_but_def)
  qed (use assms own t(3) in \<open>auto simp: eq tasks_but_def dict_simps\<close>)
qed

lemma added_but:
  assumes "tasks_ok cl" "added A cl cl'" "\<forall>t \<in> A. dget (cl_replay cl) t = None \<and> (\<exists>k \<le> cl_seq cl. t = own_id (cl_job_id cl) k)"
  shows "tasks_but A cl'"
proof -
  have "dget (cl_pending_nodes cl') t \<noteq> None \<Longrightarrow> strip t = t" for t
    using assms unfolding added_def tasks_ok_def by (metis strip_own_id)
  then show ?thesis using assms tasks_okD(1,2) [OF assms(1)] unfolding tasks_but_def by (auto simp: added_def tasks_ok_def)
qed

end
