(* ===== verification/ClientOnce.thy ===== *)
theory ClientOnce
  imports ClientMoves
begin

text \<open>
  The accounts of \<open>imap_unordered\<close>: every index of the iterable is in one place only. It is unread,
  waits to be submitted again, is out at a node, or its item is completed, ready or yielded.
\<close>

section \<open>The account\<close>

definition payload_at :: "pyval list \<Rightarrow> int \<Rightarrow> payload \<Rightarrow> bool" where
  "payload_at P i p \<longleftrightarrow> 0 \<le> i \<and> nat i < length P \<and> p = as_payload (P ! nat i)"

definition buffer_ok :: "pyval list \<Rightarrow> payload_buffer \<Rightarrow> bool" where
  "buffer_ok P b \<longleftrightarrow> 0 \<le> pb_next b \<and> nat (pb_next b) \<le> length P \<and> pb_rest b = drop (nat (pb_next b)) P \<and>
    (pb_exhausted b \<longrightarrow> pb_rest b = []) \<and> (\<forall>(i, p) \<in> set (pb_retry b). payload_at P i p)"

definition todo :: "pyval list \<Rightarrow> payload_buffer \<Rightarrow> int multiset" where
  "todo P b = mset (map int [nat (pb_next b)..<length P]) + mset (map fst (pb_retry b))"

definition indices :: "exec_item list \<Rightarrow> int multiset" where
  "indices items = mset (map it_index items)"

lemma indices_simps [simp]: "indices [] = {#}" "indices (x # xs) = add_mset (it_index x) (indices xs)" "indices (xs @ ys) = indices xs + indices ys"
  by (simp_all add: indices_def)

text \<open>The last argument is what the code has in hand.\<close>

definition account :: "pyval list \<Rightarrow> int multiset \<Rightarrow> imap \<Rightarrow> bool" where
  "account P x im \<longleftrightarrow> todo P (im_buffer im) + out_indices (im_client im) + indices (im_completed im) + indices (im_ready im) + indices (im_out im) + x
    = mset (map int [0..<length P])"

definition replays_ok :: "pyval list \<Rightarrow> imap \<Rightarrow> bool" where
  "replays_ok P im \<longleftrightarrow> (\<forall>t r. dget (cl_replay (im_client im)) t = Some r \<longrightarrow>
    dget (im_index im) t = Some (rp_index r) \<and> payload_at P (rp_index r) (rp_payload r))"

definition index_books :: "pyval list \<Rightarrow> int multiset \<Rightarrow> imap \<Rightarrow> bool" where
  "index_books P x im \<longleftrightarrow> replays_ok P im \<and> buffer_ok P (im_buffer im) \<and> account P x im"

definition fit :: "pyval list \<Rightarrow> int multiset \<Rightarrow> imap \<Rightarrow> bool" where
  "fit P x im \<longleftrightarrow> tasks_ok (im_client im) \<and> index_books P x im"

definition still :: "imap \<Rightarrow> imap \<Rightarrow> bool" where
  "still im im' \<longleftrightarrow> later (im_client im) (im_client im') \<and> im_index im' = im_index im \<and> im_buffer im' = im_buffer im \<and>
    im_completed im' = im_completed im \<and> im_ready im' = im_ready im \<and> im_out im' = im_out im"

lemma still_trans: "still a b \<Longrightarrow> still b c \<Longrightarrow> still a c"
  using later_trans by (auto simp: still_def)

lemma still_client: "same_tasks (im_client im) (f (im_client im)) \<Longrightarrow> still im (upd_client f im)"
  by (simp add: still_def upd_client_def later_same)

lemma still_ops [simp]:
  "still im im" "still im (disable node im)" "still im (note_error node e im)" "still im (add_inflight node n im)"
  "still im (im\<lparr>im_inflight := a\<rparr>)" "still im (im\<lparr>im_window := w\<rparr>)" "still im (im\<lparr>im_submitted := s\<rparr>)" "still im (im\<lparr>im_infra := d\<rparr>)"
  "still im (im\<lparr>im_freed := f\<rparr>)" "still im (im\<lparr>im_start := k\<rparr>)" "still im (im\<lparr>im_controller := c\<rparr>)"
  "still im (extend_deadline env args im)" "still im (halve_window env im)" "still im (observe_results env n im)"
  by (simp_all add: still_def disable_def note_error_def add_inflight_def extend_deadline_def halve_window_def observe_results_def later_same Let_def
      split: option.split prod.split)

lemma fit_still:
  assumes "still im im'" "fit P x im"
  shows "fit P x im'"
proof -
  have l: "later (im_client im) (im_client im')" using assms(1) by (simp add: still_def)
  then have "cl_replay (im_client im') = cl_replay (im_client im)" by (simp add: later_def)
  then show ?thesis using assms tasks_ok_later [OF l] out_later [OF l] by (simp add: fit_def index_books_def still_def replays_ok_def account_def)
qed

section \<open>The payload buffer\<close>

lemma range_next: "0 \<le> n \<Longrightarrow> nat n < N \<Longrightarrow> mset (map int [nat n..<N]) = add_mset n (mset (map int [nat (n + 1)..<N]))"
  by (simp add: upt_conv_Cons nat_add_distrib del: mset_upt mset_map)

lemma next_none:
  assumes "buffer_ok P b" "next_payload b = (b', None)"
  shows "buffer_ok P b'" "todo P b' = todo P b"
proof -
  have "b' = b \<or> b' = b\<lparr>pb_exhausted := True\<rparr> \<and> pb_rest b = []"
    using assms(2) by (simp add: next_payload_def split: list.splits if_splits)
  then show "buffer_ok P b'" "todo P b' = todo P b" using assms(1) by (auto simp: buffer_ok_def todo_def)
qed

lemma next_some:
  assumes "buffer_ok P b" "next_payload b = (b', Some (i, p))"
  shows "buffer_ok P b'" "todo P b = add_mset i (todo P b')" "payload_at P i p"
proof -
  have "buffer_ok P b' \<and> todo P b = add_mset i (todo P b') \<and> payload_at P i p"
  proof (cases "pb_retry b")
    case (Cons x xs)
    then have b': "b' = b\<lparr>pb_retry := xs\<rparr>" and r: "pb_retry b = (i, p) # xs" using assms(2) by (simp_all add: next_payload_def)
    have "buffer_ok P b'" using assms(1) unfolding buffer_ok_def b' r by auto
    moreover have "payload_at P i p" using assms(1) unfolding buffer_ok_def r by simp
    ultimately show ?thesis unfolding b' todo_def r by simp
  next
    case Nil
    obtain v vs where v: "pb_rest b = v # vs" "\<not> pb_exhausted b" "b' = b\<lparr>pb_rest := vs, pb_next := pb_next b + 1\<rparr>" "i = pb_next b" "p = as_payload v"
    proof -
      have "\<not> pb_exhausted b" using assms(2) Nil by (cases "pb_exhausted b") (simp_all add: next_payload_def)
      moreover from this obtain v vs where "pb_rest b = v # vs" using assms(2) Nil by (cases "pb_rest b") (simp_all add: next_payload_def)
      moreover from calculation have "next_payload b = (b\<lparr>pb_rest := vs, pb_next := pb_next b + 1\<rparr>, Some (pb_next b, as_payload v))"
        using Nil by (simp add: next_payload_def)
      then have "b' = b\<lparr>pb_rest := vs, pb_next := pb_next b + 1\<rparr>" "i = pb_next b" "p = as_payload v"
        using assms(2) by (simp_all only: prod.inject option.inject)
      ultimately show thesis by (intro that)
    qed
    let ?n = "nat (pb_next b)"
    have b: "0 \<le> pb_next b" "drop ?n P = v # vs" using assms(1) v(1) by (simp_all add: buffer_ok_def)
    have n: "?n < length P" using b(2) by (metis drop_all list.distinct(1) not_le)
    then have "P ! ?n = v" "drop (Suc ?n) P = vs" using b(2) Cons_nth_drop_Suc [OF n] by simp_all
    moreover have "nat (pb_next b + 1) = Suc ?n" using b(1) by simp
    moreover have "todo P b = add_mset i (todo P b')"
      using range_next [OF b(1) n] Nil v(3,4) by (simp add: todo_def del: mset_upt mset_map)
    ultimately show ?thesis using n b v Nil by (simp add: buffer_ok_def payload_at_def)
  qed
  then show "buffer_ok P b'" "todo P b = add_mset i (todo P b')" "payload_at P i p" by simp_all
qed

lemma requeue_ok:
  assumes "buffer_ok P b" "\<forall>(i, p) \<in> set es. payload_at P i p"
  shows "buffer_ok P (requeue_front es b)" "todo P (requeue_front es b) = mset (map fst es) + todo P b"
  using assms by (auto simp: buffer_ok_def requeue_front_def todo_def)

section \<open>Tasks come home\<close>

text \<open>The table moves on to newer ids only.\<close>

definition onward :: "imap \<Rightarrow> imap \<Rightarrow> bool" where
  "onward im im' \<longleftrightarrow> cl_job_id (im_client im') = cl_job_id (im_client im) \<and> cl_seq (im_client im) \<le> cl_seq (im_client im') \<and>
    (\<forall>t. dget (cl_replay (im_client im')) t \<noteq> None \<longrightarrow> dget (cl_replay (im_client im)) t \<noteq> None \<or>
      (\<exists>k > cl_seq (im_client im). t = own_id (cl_job_id (im_client im)) k))"

lemma onward_still: "still im im' \<Longrightarrow> onward im im'"
  by (simp add: onward_def still_def later_def)

lemma onward_trans:
  assumes "onward a b" "onward b c"
  shows "onward a c"
proof -
  have "\<exists>k > cl_seq (im_client a). t = own_id (cl_job_id (im_client a)) k"
    if "dget (cl_replay (im_client c)) t \<noteq> None" "dget (cl_replay (im_client a)) t = None" for t
    using assms that unfolding onward_def by (metis order.strict_trans1)
  then show ?thesis using assms by (auto simp: onward_def)
qed

text \<open>A record whose task has left the tables.\<close>

definition loose :: "pyval list \<Rightarrow> imap \<Rightarrow> replay \<Rightarrow> bool" where
  "loose P im r \<longleftrightarrow> payload_at P (rp_index r) (rp_payload r) \<and> dget (cl_replay (im_client im)) (rp_task_id r) = None \<and>
    (\<exists>k \<le> cl_seq (im_client im). rp_task_id r = own_id (cl_job_id (im_client im)) k)"

lemma loose_onward:
  assumes "loose P im r" "onward im im'"
  shows "loose P im' r"
proof -
  obtain k where k: "k \<le> cl_seq (im_client im)" "rp_task_id r = own_id (cl_job_id (im_client im)) k" using assms(1) by (auto simp: loose_def)
  have "dget (cl_replay (im_client im')) (rp_task_id r) = None"
  proof (rule ccontr)
    assume "dget (cl_replay (im_client im')) (rp_task_id r) \<noteq> None"
    moreover have "dget (cl_replay (im_client im)) (rp_task_id r) = None" using assms(1) by (simp add: loose_def)
    ultimately obtain j where "j > cl_seq (im_client im)" "rp_task_id r = own_id (cl_job_id (im_client im)) j"
      using assms(2) unfolding onward_def by blast
    then show False using k own_id_inj by simp
  qed
  then show ?thesis using assms k unfolding loose_def onward_def by (metis le_trans)
qed

lemma fit_without:
  assumes "fit P x im" "without T (im_client im) cl" "out_indices (im_client im) = y + out_indices cl"
  shows "fit P (x + y) (im\<lparr>im_client := cl\<rparr>)" "onward im (im\<lparr>im_client := cl\<rparr>)"
proof -
  have "replays_ok P (im\<lparr>im_client := cl\<rparr>)" using assms(1,2) by (auto simp: fit_def index_books_def replays_ok_def without_def split: if_splits)
  then show "fit P (x + y) (im\<lparr>im_client := cl\<rparr>)" using assms by (simp add: fit_def index_books_def without_def account_def ac_simps)
  show "onward im (im\<lparr>im_client := cl\<rparr>)" using assms(2) by (simp add: onward_def without_def)
qed

lemma fit_took:
  assumes "fit P x im" "took (im_client im) (cl, rs, orphans)"
  shows "fit P (x + mset (map rp_index rs)) (im\<lparr>im_client := cl\<rparr>)" "onward im (im\<lparr>im_client := cl\<rparr>)" "\<forall>r \<in> set rs. loose P (im\<lparr>im_client := cl\<rparr>) r"
proof -
  obtain T where T: "without T (im_client im) cl" "out_indices (im_client im) = mset (map rp_index rs) + out_indices cl"
    "\<forall>r \<in> set rs. dget (cl_replay (im_client im)) (rp_task_id r) = Some r \<and> rp_task_id r \<in> T" using assms(2) by (auto simp: took_def)
  show "fit P (x + mset (map rp_index rs)) (im\<lparr>im_client := cl\<rparr>)" "onward im (im\<lparr>im_client := cl\<rparr>)" using fit_without [OF assms(1) T(1,2)] .
  have ok: "tasks_ok (im_client im)" "replays_ok P im" using assms(1) by (simp_all add: fit_def index_books_def)
  show "\<forall>r \<in> set rs. loose P (im\<lparr>im_client := cl\<rparr>) r"
    using T(1,3) ok(2) tasks_okD(4) [OF ok(1)] by (simp add: loose_def without_def replays_ok_def) blast
qed

section \<open>Submitting again\<close>

lemma fresh_id: "tasks_ok cl \<Longrightarrow> cl_seq cl < k \<Longrightarrow> dget (cl_replay cl) (own_id (cl_job_id cl) k) = None"
proof (rule ccontr)
  assume ok: "tasks_ok cl" and k: "cl_seq cl < k" and "dget (cl_replay cl) (own_id (cl_job_id cl) k) \<noteq> None"
  then obtain r where "dget (cl_replay cl) (own_id (cl_job_id cl) k) = Some r" by auto
  then obtain j where "j \<le> cl_seq cl" "own_id (cl_job_id cl) k = own_id (cl_job_id cl) j" using tasks_okD(4) [OF ok] by blast
  then show False using own_id_inj k by simp
qed

lemma try_submit:
  assumes "whole_submissions env" "tasks_ok cl" "try_submit env node p cl = (cl', res)"
  shows "case res of Inl e \<Rightarrow> later cl cl'
    | Inr t \<Rightarrow> t = own_id (cl_job_id cl) (cl_seq cl + 1) \<and> tasks_but {t} cl' \<and> cl_seq cl' = cl_seq cl + 1 \<and> cl_job_id cl' = cl_job_id cl \<and>
        cl_replay cl' = cl_replay cl"
proof -
  obtain cl1 b where b: "build_task_submit_item env [] node p cl = (cl1, b)" by (rule prod.exhaust)
  note B = build_item [OF b]
  show ?thesis
  proof (cases b)
    case (Inl e)
    then show ?thesis using assms(3) b B(1) by (auto simp: try_submit_def)
  next
    case (Inr i)
    let ?t = "own_id (cl_job_id cl) (cl_seq cl + 1)"
    have i: "si_id i = ?t" using B(3) [OF Inr] by simp
    obtain cl2 s where s: "submit_task_items_to_node env node [i] cl1 = (cl2, s)" by (rule prod.exhaust)
    note S = submit_items [OF assms(1) _ s]
    have l: "later cl cl1" "tasks_ok cl1" using B(1) tasks_ok_later [OF B(1) assms(2)] .
    show ?thesis
    proof (cases s)
      case (Inl e)
      then have "same_tasks cl1 cl2" using S i by simp
      then have "later cl cl2" using later_trans [OF l(1) later_same] by blast
      moreover have "cl' = cl2" "res = Inl e" using assms(3) b Inr s Inl by (simp_all add: try_submit_def)
      ultimately show ?thesis by simp
    next
      case acc: (Inr accepted)
      then have A: "set accepted \<subseteq> {?t}" "added (set accepted) cl1 cl2" using S i by simp_all
      have "strip ?t = ?t" by simp
      show ?thesis
      proof (cases "accepted = []")
        case True
        then have "later cl cl2" using A(2) later_trans [OF l(1) later_added] by simp
        moreover have "cl' = cl2" "res = Inl ''retry submit was not accepted''" using assms(3) b Inr s acc True by (simp_all add: try_submit_def)
        ultimately show ?thesis by simp
      next
        case False
        then have a: "set accepted = {?t}" using A(1) by (cases accepted) auto
        have eq: "cl_replay cl1 = cl_replay cl" "cl_job_id cl1 = cl_job_id cl" using l(1) by (simp_all add: later_def)
        have "dget (cl_replay cl1) ?t = None" using fresh_id [OF assms(2)] eq by simp
        then have "tasks_but {?t} cl2" using added_but [OF l(2)] A(2) a eq B(2) by auto
        moreover have "cl_seq cl2 = cl_seq cl + 1" "cl_job_id cl2 = cl_job_id cl" "cl_replay cl2 = cl_replay cl"
          using A(2) eq B(2) by (simp_all add: added_def)
        moreover have "cl' = cl2" "res = Inr ?t" using assms(3) b Inr s acc a i by (simp_all add: try_submit_def)
        ultimately show ?thesis by simp
      qed
    qed
  qed
qed

text \<open>A record in hand is registered under its new id, and leaves the hand.\<close>

lemma books_gained:
  assumes "index_books P (add_mset (rp_index r) x) im" "gained r (im_client im) cl"
    and "dget index (rp_task_id r) = Some (rp_index r)" "payload_at P (rp_index r) (rp_payload r)"
    and "\<And>t q. dget (cl_replay (im_client im)) t = Some q \<Longrightarrow> dget index t = dget (im_index im) t"
  shows "index_books P x (im\<lparr>im_client := cl, im_index := index\<rparr>)"
proof -
  have ok: "replays_ok P im" using assms(1) by (simp add: index_books_def)
  have "replays_ok P (im\<lparr>im_client := cl, im_index := index\<rparr>)"
    unfolding replays_ok_def
  proof (intro allI impI)
    fix t q
    assume q: "dget (cl_replay (im_client (im\<lparr>im_client := cl, im_index := index\<rparr>))) t = Some q"
    show "dget (im_index (im\<lparr>im_client := cl, im_index := index\<rparr>)) t = Some (rp_index q) \<and> payload_at P (rp_index q) (rp_payload q)"
    proof (cases "t = rp_task_id r")
      case True
      then show ?thesis using q assms(2,3,4) by (simp add: gained_def dict_simps)
    next
      case False
      then have "dget (cl_replay (im_client im)) t = Some q" using q assms(2) by (simp add: gained_def dict_simps)
      then show ?thesis using ok assms(5) by (simp add: replays_ok_def)
    qed
  qed
  then show ?thesis using assms(1) out_gained [OF assms(2)] by (simp add: index_books_def account_def)
qed

lemma gained_from:
  assumes "gained r cl cl'" "cl_replay cl = cl_replay cl0" "cl_job_id cl = cl_job_id cl0" "cl_seq cl0 \<le> cl_seq cl"
  shows "gained r cl0 cl'"
  using assms by (simp add: gained_def)

lemma onward_gained:
  assumes "gained r (im_client im) cl" "rp_task_id r = own_id (cl_job_id (im_client im)) k" "cl_seq (im_client im) < k"
  shows "onward im (im\<lparr>im_client := cl, im_index := index\<rparr>)"
  using assms by (auto simp: onward_def gained_def dict_simps)

lemma onward_left: "onward im (im\<lparr>im_client := cl, im_index := index\<rparr>) \<Longrightarrow> still (im\<lparr>im_client := cl, im_index := index\<rparr>) im' \<Longrightarrow> onward im im'"
  using onward_trans onward_still by blast

lemma resubmitted:
  assumes "whole_submissions env" "fit P (add_mset (rp_index r) x) im" "loose P im r" "resubmit_to env node reason attempt timeouts r im = (im', res)"
  shows "onward im im' \<and> (case res of None \<Rightarrow> fit P x im' | Some e \<Rightarrow> fit P (add_mset (rp_index r) x) im')"
proof -
  have ok: "tasks_ok (im_client im)" using assms(2) by (simp add: fit_def index_books_def)
  obtain cl s where s: "try_submit env node (rp_payload r) (im_client im) = (cl, s)" by (rule prod.exhaust)
  note S = try_submit [OF assms(1) ok s]
  show ?thesis
  proof (cases s)
    case (Inl e)
    let ?im1 = "note_error node e (disable node (im\<lparr>im_client := cl\<rparr>))"
    have "still im (im\<lparr>im_client := cl\<rparr>)" using S Inl by (simp add: still_def)
    then have "still im ?im1" using still_trans still_ops(2,3) by blast
    moreover have "still ?im1 (upd_client (mark_pool_submit_failure env SUBMIT_FAILED e node) ?im1)" by (rule still_client) simp
    ultimately have "still im im'" using assms(4) s Inl still_trans by (simp add: resubmit_to_def)
    moreover have "res = Some e" using assms(4) s Inl by (simp add: resubmit_to_def)
    ultimately show ?thesis using onward_still fit_still [OF _ assms(2)] by simp
  next
    case (Inr t)
    let ?job = "cl_job_id (im_client im)" and ?k = "cl_seq (im_client im) + 1"
    let ?q = "r\<lparr>rp_task_id := t, rp_node_id := node, rp_attempt := attempt, rp_last_error := reason, rp_timeout_retries := timeouts,
        rp_submitted_at := client_now env cl\<rparr>"
    let ?cl1 = "cl\<lparr>cl_retries := cl_retries cl + 1, cl_retries_ok := cl_retries_ok cl + 1, cl_lost_replayed := cl_lost_replayed cl + 1\<rparr>"
    let ?cl2 = "register_replay_record ?q ?cl1"
    let ?cl3 = "mark_pool_submit_success node ?cl2"
    let ?index = "dset t (rp_index r) (dpop (rp_task_id r) (im_index im))"
    have T: "t = own_id ?job ?k" "tasks_but {t} cl" "cl_seq cl = ?k" "cl_job_id cl = ?job" "cl_replay cl = cl_replay (im_client im)"
      using S unfolding Inr sum.case by blast+
    have "tasks_but {t} ?cl1" using tasks_but_same [OF _ T(2)] by (simp add: same_tasks_def)
    note R = register_gains [OF this, of ?q]
    have ok3: "tasks_ok ?cl3" using R(1) tasks_but_none tasks_ok_same [OF same_tasks_ops(5)] by simp
    have g: "gained (settled_record ?q) (im_client im) ?cl3"
    proof (rule gained_from [OF gained_same [OF R(2) same_tasks_ops(5)]])
      show "cl_replay ?cl1 = cl_replay (im_client im)" "cl_job_id ?cl1 = ?job" "cl_seq (im_client im) \<le> cl_seq ?cl1" using T(3,4,5) by simp_all
    qed simp
    have new: "dget (cl_replay (im_client im)) t = None" using fresh_id [OF ok] T(1) by simp
    have gone: "dget (cl_replay (im_client im)) (rp_task_id r) = None" using assms(3) by (simp add: loose_def)
    have kept: "dget ?index u = dget (im_index im) u" if "dget (cl_replay (im_client im)) u = Some w" for u w
      using that new gone by (auto simp: dict_simps)
    have "fit P x (im\<lparr>im_client := ?cl3, im_index := ?index\<rparr>)"
      using books_gained [of P "settled_record ?q" x im ?cl3 ?index] assms(2,3) g ok3 kept by (simp add: dict_simps loose_def fit_def)
    moreover have "onward im (im\<lparr>im_client := ?cl3, im_index := ?index\<rparr>)" using onward_gained [OF g, of ?k] T(1) by simp
    moreover have "im' = add_inflight node 1 (im\<lparr>im_client := ?cl3, im_index := ?index\<rparr>)" "res = None"
      using assms(4) s Inr by (simp_all add: resubmit_to_def Let_def)
    ultimately show ?thesis using fit_still [OF still_ops(4)] onward_left [OF _ still_ops(4)] by simp
  qed
qed

lemma failure_item:
  assumes "replay_failure_item r message im = (im', item)"
  shows "still im im'" "it_index item = rp_index r"
  using assms by (auto simp: replay_failure_item_def still_def upd_client_def later_def)

definition handled :: "pyval list \<Rightarrow> int multiset \<Rightarrow> replay \<Rightarrow> imap \<Rightarrow> imap \<times> exec_item option \<Rightarrow> bool" where
  "handled P x r im res \<longleftrightarrow> onward im (fst res) \<and> (case snd res of None \<Rightarrow> fit P x (fst res)
    | Some item \<Rightarrow> it_index item = rp_index r \<and> fit P (add_mset (rp_index r) x) (fst res))"

lemma handled_completed:
  assumes "handled P x r im res"
  shows "fit P x (with_completed res) \<and> onward im (with_completed res)"
proof (cases "snd res")
  case None
  then show ?thesis using assms by (simp add: handled_def with_completed_def)
next
  case (Some item)
  have "onward im (with_completed res)" using assms Some by (simp add: handled_def with_completed_def onward_def)
  then show ?thesis using assms Some by (simp add: handled_def with_completed_def fit_def index_books_def account_def replays_ok_def)
qed

lemma handled_failure:
  assumes "fit P (add_mset (rp_index r) x) im"
  shows "handled P x r im (case replay_failure_item r message im of (im1, item) \<Rightarrow> (im1, Some item))"
proof -
  obtain im1 item where f: "replay_failure_item r message im = (im1, item)" by (rule prod.exhaust)
  show ?thesis using failure_item [OF f] fit_still [OF _ assms] onward_still f by (simp add: handled_def)
qed

lemma handled_onward: "onward im im' \<Longrightarrow> handled P x r im' res \<Longrightarrow> handled P x r im res"
  using onward_trans by (auto simp: handled_def)

lemma retry_on_handled:
  assumes "whole_submissions env" "fit P (add_mset (rp_index r) x) im" "loose P im r"
  shows "handled P x r im (retry_on env reason r nodes err im)"
  using assms(2,3)
proof (induction nodes arbitrary: err im)
  case Nil
  then show ?case using handled_failure by simp
next
  case (Cons node nodes)
  obtain im1 res where s: "resubmit_to env node reason (rp_attempt r + 1) 0 r im = (im1, res)" by (rule prod.exhaust)
  note R = resubmitted [OF assms(1) Cons.prems s]
  show ?case
  proof (cases res)
    case None
    then show ?thesis using R s by (simp add: handled_def)
  next
    case (Some e)
    then have "handled P x r im1 (retry_on env reason r nodes e im1)" using Cons.IH R loose_onward [OF Cons.prems(2)] by simp
    then show ?thesis using handled_onward [of im im1] R s Some by simp
  qed
qed

lemma available_still: "available_pool_node_ids env (im_client im) = (cl, ids) \<Longrightarrow> still im (im\<lparr>im_client := cl\<rparr>)"
  using later_same [OF same_tasks_ops(9) [of "im_client im" env]] by (simp add: still_def)

lemma retry_record_handled:
  assumes "whole_submissions env" "fit P (add_mset (rp_index r) x) im" "loose P im r"
  shows "handled P x r im (retry_replay_record env args reason r im)"
proof (cases "max 0 (ia_retries args) \<le> rp_attempt r")
  case True
  then show ?thesis using handled_failure [OF assms(2)] by (simp add: retry_replay_record_def)
next
  case False
  obtain cl ids where a: "available_pool_node_ids env (im_client im) = (cl, ids)" by (rule prod.exhaust)
  let ?im1 = "im\<lparr>im_client := cl\<rparr>"
  note st = available_still [OF a]
  have "handled P x r ?im1 (retry_on env reason r nodes err ?im1)" for nodes err
    using retry_on_handled [OF assms(1) fit_still [OF st assms(2)] loose_onward [OF assms(3) onward_still [OF st]]] .
  then have 1: "handled P x r im (retry_on env reason r nodes err ?im1)" for nodes err using handled_onward [OF onward_still [OF st]] by blast
  have 2: "handled P x r im (case replay_failure_item r message ?im1 of (im1, item) \<Rightarrow> (im1, Some item))" for message
    using handled_onward [OF onward_still [OF st] handled_failure [OF fit_still [OF st assms(2)]]] .
  show ?thesis unfolding retry_replay_record_def if_not_P [OF False] a prod.case Let_def using 1 2 by simp
qed

lemma fold_records:
  assumes "\<And>r x im. fit P (add_mset (rp_index r) x) im \<Longrightarrow> loose P im r \<Longrightarrow> fit P x (f r im) \<and> onward im (f r im)"
    and "fit P (x + mset (map rp_index rs)) im" "\<forall>r \<in> set rs. loose P im r"
  shows "fit P x (fold f rs im) \<and> onward im (fold f rs im)"
  using assms(2,3)
proof (induction rs arbitrary: im)
  case Nil
  then show ?case using onward_still by simp
next
  case (Cons r rs)
  have 1: "fit P (x + mset (map rp_index rs)) (f r im)" "onward im (f r im)" using assms(1) [of r "x + mset (map rp_index rs)" im] Cons.prems by simp_all
  have "\<forall>q \<in> set rs. loose P (f r im) q" using Cons.prems(2) loose_onward [OF _ 1(2)] by simp
  then show ?case using Cons.IH [OF 1(1)] onward_trans [OF 1(2)] by simp
qed

lemma retry_records_fold:
  "retry_replay_records env args reason rs im = fold (\<lambda>r im. with_completed (retry_replay_record env args reason r im)) rs im"
  by (induction rs arbitrary: im) simp_all

lemma retried:
  assumes "whole_submissions env" "fit P (x + mset (map rp_index rs)) im" "\<forall>r \<in> set rs. loose P im r"
  shows "fit P x (retry_replay_records env args reason rs im)"
proof -
  have "fit P y (with_completed (retry_replay_record env args reason r im)) \<and> onward im (with_completed (retry_replay_record env args reason r im))"
    if "fit P (add_mset (rp_index r) y) im" "loose P im r" for r y im
    using handled_completed [OF retry_record_handled [OF assms(1) that]] .
  from fold_records [of P "\<lambda>r im. with_completed (retry_replay_record env args reason r im)", OF this assms(2,3)]
  show ?thesis unfolding retry_records_fold by blast
qed

text \<open>The same for the spreading after a timeout.\<close>

lemma spread_on_handled:
  assumes "whole_submissions env" "fit P (add_mset (rp_index r) x) im" "loose P im r"
  shows "case spread_on env reason r nodes err im of
    (im1, Inl item) \<Rightarrow> handled P x r im (im1, Some item) | (im1, Inr node) \<Rightarrow> handled P x r im (im1, None)"
  using assms(2,3)
proof (induction nodes arbitrary: err im)
  case Nil
  then show ?case using handled_failure [of P r x im err] by (simp split: prod.splits)
next
  case (Cons node nodes)
  obtain im1 res where s: "resubmit_to env node reason (rp_attempt r) (rp_timeout_retries r + 1) r im = (im1, res)" by (rule prod.exhaust)
  note R = resubmitted [OF assms(1) Cons.prems s]
  show ?case
  proof (cases "node \<in> set (im_disabled im)")
    case True
    then show ?thesis using Cons by simp
  next
    case False
    show ?thesis
    proof (cases res)
      case None
      then show ?thesis using R s False by (simp add: handled_def)
    next
      case (Some e)
      then have f: "fit P (add_mset (rp_index r) x) im1" "onward im im1" using R by simp_all
      have eq: "spread_on env reason r (node # nodes) err im = spread_on env reason r nodes e im1" using s Some False by simp
      show ?thesis unfolding eq using Cons.IH [OF f(1) loose_onward [OF Cons.prems(2) f(2)], of e] handled_onward [OF f(2)]
        by (auto split: prod.splits sum.splits)
    qed
  qed
qed

lemma spread_handled:
  assumes "whole_submissions env" "fit P (add_mset (rp_index r) x) im" "loose P im r"
  shows "fit P x (fst (spread_record env reason targets offset r im)) \<and> onward im (fst (spread_record env reason targets offset r im))"
proof (cases "1 \<le> rp_timeout_retries r")
  case True
  then show ?thesis using handled_completed [OF handled_failure [OF assms(2), of "str_or reason ''task result timeout after retry''"]]
    by (simp add: spread_record_def split: prod.splits)
next
  case False
  let ?others = "filter (\<lambda>node. node \<noteq> rp_node_id r) targets"
  let ?nodes = "if ?others = [] then targets else ?others"
  obtain im1 res where s: "spread_on env reason r (rotate offset ?nodes) (str_or reason ''task result timeout'') im = (im1, res)" by (rule prod.exhaust)
  note S = spread_on_handled [OF assms, of reason "rotate offset ?nodes" "str_or reason ''task result timeout''", unfolded s prod.case]
  show ?thesis
  proof (cases res)
    case (Inl item)
    then show ?thesis using S handled_completed [of P x r im "(im1, Some item)"] False s by (simp add: spread_record_def Let_def)
  next
    case (Inr node)
    then show ?thesis using S False s by (simp add: spread_record_def Let_def handled_def)
  qed
qed

lemma spread_all:
  assumes "whole_submissions env" "fit P (x + mset (map rp_index rs)) im" "\<forall>r \<in> set rs. loose P im r"
  shows "fit P x (spread_records env reason targets offset rs im)"
  using assms(2,3)
proof (induction rs arbitrary: im offset)
  case (Cons r rs)
  obtain im1 k where s: "spread_record env reason targets offset r im = (im1, k)" by (rule prod.exhaust)
  have "fit P (x + mset (map rp_index rs)) im1" "onward im im1"
    using spread_handled [OF assms(1), of P r "x + mset (map rp_index rs)" im reason targets offset] Cons.prems s by simp_all
  moreover have "\<forall>q \<in> set rs. loose P im1 q" using Cons.prems(2) loose_onward [OF _ calculation(2)] by simp
  ultimately show ?case using Cons.IH [of im1 k] s by simp
qed simp

lemma fail_records_fold:
  "fail_records message rs im = fold (\<lambda>r im. with_completed (case replay_failure_item r message im of (im1, item) \<Rightarrow> (im1, Some item))) rs im"
  by (induction rs arbitrary: im) (simp_all split: prod.split)

lemma retried_evenly:
  assumes "whole_submissions env" "fit P (x + mset (map rp_index rs)) im" "\<forall>r \<in> set rs. loose P im r"
  shows "fit P x (retry_timeout_replay_records_evenly env reason targets rs im)"
proof -
  have "fit P x (fail_records message rs im)" for message
    unfolding fail_records_fold
  proof (rule conjunct1, rule fold_records [OF _ assms(2,3)])
    fix r :: replay and y :: "int multiset" and im :: imap
    assume "fit P (add_mset (rp_index r) y) im"
    from handled_completed [OF handled_failure [OF this]]
    show "fit P y (with_completed (case replay_failure_item r message im of (im1, item) \<Rightarrow> (im1, Some item))) \<and>
      onward im (with_completed (case replay_failure_item r message im of (im1, item) \<Rightarrow> (im1, Some item)))" .
  qed
  then show ?thesis using spread_all [OF assms] by (simp add: retry_timeout_replay_records_evenly_def Let_def)
qed

end
