(* ===== verification/ClientDelivery.thy ===== *)
theory ClientDelivery
  imports ClientOnce
begin

text \<open>
  What the rounds of \<open>imap_unordered\<close> do to the account: polling moves indices from out to completed,
  filling moves them from the buffer to out, yielding from ready to the caller.
\<close>

section \<open>Polling\<close>

lemma fit_complete:
  assumes "fit P (add_mset i x) im" "dget (im_index im) (strip (pr_task_id r)) = Some i"
  shows "fit P x (complete_item env node r im)"
  using assms by (simp add: complete_item_def Let_def dget_or_def item_with_index_def fit_def index_books_def account_def replays_ok_def)

lemma consumed_again:
  assumes "tasks_ok cl" "strip t = t" "t \<noteq> []"
  shows "mark_result_consumed t (fst (remove_replay_record t cl)) = mark_result_consumed t cl"
proof -
  let ?c = "fst (remove_replay_record t cl)"
  note R = remove_replay [OF assms(1,2)]
  have gone: "dget (cl_replay ?c) t = None" using R(2) by (simp add: dict_simps)
  have swap: "fst (remove_replay_record t (cl\<lparr>cl_pending := a, cl_pending_nodes := b\<rparr>)) = ?c\<lparr>cl_pending := a, cl_pending_nodes := b\<rparr>" for a b
    by (simp add: remove_replay_record_def Let_def split: option.split)
  have noop: "fst (remove_replay_record t (?c\<lparr>cl_pending := a, cl_pending_nodes := b\<rparr>)) = ?c\<lparr>cl_pending := a, cl_pending_nodes := b\<rparr>" for a b
    using gone assms(2,3) by (simp add: remove_replay_record_def)
  show ?thesis unfolding mark_result_consumed_def Let_def assms(2) if_not_P [OF assms(3)] swap noop R(3,4) by (rule refl)
qed

lemma consumed_replay:
  assumes "tasks_ok cl" "strip t = t" "t \<noteq> []"
  shows "cl_replay (mark_result_consumed t cl) = dpop t (cl_replay cl)"
proof -
  have "cl_replay (fst (remove_replay_record t (cl\<lparr>cl_pending := a, cl_pending_nodes := b\<rparr>))) = cl_replay (fst (remove_replay_record t cl))" for a b
    by (simp add: remove_replay_record_def Let_def split: option.split)
  then show ?thesis using assms remove_replay(2) [OF assms(1,2)] by (simp add: mark_result_consumed_def Let_def)
qed

lemma still_if: "still im a \<Longrightarrow> still im b \<Longrightarrow> still im (if c then a else b)"
  by simp

lemma note_infra_still: "still im (note_infra_failure env node r im)"
proof -
  define n where "n = dget_or (im_infra im) node 0 + 1"
  define im1 where "im1 = im\<lparr>im_infra := dset node n (im_infra im)\<rparr>"
  define f where "f = mark_task_method_node_blacklisted env node (str_or (pr_err_message r) ''dependency runtime error'')"
  define im2 where "im2 = (if is_dependency_result r then disable node (upd_client f im1) else im1)"
  define g where "g = mark_pool_submit_failure env REMOTE_INFRA_FAILED (str_or (pr_err_message r) ''remote infra failure'') node"
  have f: "still im1 (upd_client f im1)" by (rule still_client) (simp add: f_def)
  have 1: "still im im1" unfolding im1_def by (rule still_ops(8))
  have 2: "still im im2" unfolding im2_def by (rule still_if [OF still_trans [OF still_trans [OF 1 f] still_ops(2)] 1])
  have "still im2 (upd_client g im2)" by (rule still_client) (simp add: g_def)
  note 3 = still_trans [OF 2 this]
  have "still im (if 2 \<le> n then disable node (upd_client g im2) else upd_client g im2)" by (rule still_if [OF still_trans [OF 3 still_ops(2)] 3])
  then show ?thesis unfolding note_infra_failure_def Let_def n_def im1_def im2_def f_def g_def .
qed

lemma poll_result_fit:
  assumes "whole_submissions env" "fit P x im"
  shows "fit P x (poll_result env args node r im)"
proof (cases "is_pending_task_id (strip (pr_task_id r)) (im_client im)")
  case False
  then show ?thesis using assms(2) by (simp add: poll_result_def)
next
  case True
  define t where "t = strip (pr_task_id r)"
  let ?cl = "im_client im"
  have ok: "tasks_ok ?cl" "replays_ok P im" using assms(2) by (simp_all add: fit_def index_books_def)
  have "t \<in> set (cl_pending ?cl)" using True by (simp add: is_pending_task_id_def Let_def t_def strip_idem)
  then obtain q where q: "dget (cl_replay ?cl) t = Some q" using tasks_okD(2) [OF ok(1)] by auto
  have t: "strip t = t" "t \<noteq> []" "rp_task_id q = t" using tasks_okD(3,5,6) [OF ok(1) q] by simp_all
  note R = remove_replay [OF ok(1) t(1)]
  obtain cl where rm: "remove_replay_record t ?cl = (cl, Some q)" using R(1) q by (metis prod.collapse)
  have c: "mark_result_consumed t cl = mark_result_consumed t ?cl" using consumed_again [OF ok(1) t(1,2)] rm by simp
  note w = consumed_without [OF ok(1) t(1,2)]
  have out: "out_indices ?cl = {#rp_index q#} + out_indices (mark_result_consumed t ?cl)"
    using out_without [OF ok(1) w consumed_replay [OF ok(1) t(1,2)]] q by simp
  let ?im0 = "im\<lparr>im_client := mark_result_consumed t ?cl\<rparr>"
  let ?im1 = "im\<lparr>im_client := mark_result_consumed t cl, im_inflight := dset node (max 0 (dget_or (im_inflight im) node 0 - 1)) (im_inflight im),
      im_freed := im_freed im + 1\<rparr>"
  have st: "still ?im0 ?im1" by (simp add: still_def c later_def)
  have f: "fit P (add_mset (rp_index q) x) ?im1" using fit_still [OF st fit_without(1) [OF assms(2) w out]] by simp
  have pay: "payload_at P (rp_index q) (rp_payload q)" "dget (im_index im) t = Some (rp_index q)" using ok(2) q by (simp_all add: replays_ok_def)
  have l: "loose P ?im1 q" using w tasks_okD(4) [OF ok(1) q] t(3) pay(1) by (simp add: loose_def without_def c)
  have yes: "fit P x (complete_item env node r im2)" if "still ?im1 im2" for im2
    using fit_complete [OF fit_still [OF that f]] that pay(2) by (simp add: still_def t_def)
  have again: "fit P x (retry_replay_records env args reason [q] im2)" if "still ?im1 im2" for im2 reason
    using retried [OF assms(1), of P x "[q]" im2] fit_still [OF that f] loose_onward [OF l onward_still [OF that]] by simp
  have s2: "still ?im1 (upd_client (mark_pool_submit_success node) (?im1\<lparr>im_infra := d\<rparr>))" for d
    using still_trans [OF still_ops(8) still_client] same_tasks_ops(5) by blast
  show ?thesis
    using True rm yes [OF still_ops(1)] yes [OF s2] again [OF note_infra_still]
    by (cases "pr_status r") (simp_all add: poll_result_def t_def [symmetric] Let_def)
qed

lemma fold_fit: "(\<And>y im. fit P x im \<Longrightarrow> fit P x (f y im)) \<Longrightarrow> fit P x im \<Longrightarrow> fit P x (fold f ys im)"
  by (induction ys arbitrary: im) auto

lemma poll_node_fit:
  assumes "whole_submissions env" "fit P x im"
  shows "fit P x (poll_node env args node im)"
proof (cases "ce_pull env (cl_calls (im_client im)) node")
  case (PullFails e)
  obtain cl rs orphans where m: "mark_taskpool_node_lost env node e (remote_call (im_client im)) = (cl, rs, orphans)" by (rule prod_cases3)
  have ok: "tasks_ok (im_client im)" using assms(2) by (simp add: fit_def index_books_def)
  have "took (im_client im) (cl, rs, orphans)"
    using took_same [OF same_tasks_ops(1) took_lost [OF tasks_ok_same [OF same_tasks_ops(1) ok]]] m by metis
  note T = fit_took [OF assms(2) this]
  let ?im1 = "note_error node e ((disable node im)\<lparr>im_client := cl, im_inflight := dset node 0 (im_inflight im)\<rparr>)"
  have s: "still (im\<lparr>im_client := cl\<rparr>) ?im1" by (simp add: still_def note_error_def disable_def later_def)
  have "fit P x (retry_replay_records env args e rs ?im1)"
    using retried [OF assms(1) fit_still [OF s T(1)]] T(3) loose_onward onward_still [OF s] by blast
  then show ?thesis using PullFails m assms(2) by (simp add: poll_node_def Let_def)
next
  case (PullReturns results)
  have "fit P x (upd_client remote_call im)" using fit_still [OF still_client assms(2)] by simp
  from fold_fit [OF poll_result_fit [OF assms(1)] this]
  have "fit P x (fold (poll_result env args node) rs (upd_client remote_call im))" for rs .
  then show ?thesis using PullReturns assms(2) by (simp add: poll_node_def Let_def)
qed

lemma poll_fit:
  assumes "whole_submissions env" "fit P x im" "im_completed im = []"
  shows "fit P x (poll_imap_results_once env args nodes im)"
proof -
  have "still im (im\<lparr>im_completed := [], im_freed := 0\<rparr>)" using assms(3) by (simp add: still_def later_def)
  note s = fit_still [OF this assms(2)]
  show ?thesis unfolding poll_imap_results_once_def by (rule fold_fit [OF poll_node_fit [OF assms(1)] s])
qed

section \<open>Filling the window\<close>

text \<open>The entries assigned to the nodes of an order, not yet submitted.\<close>

definition hand :: "string list \<Rightarrow> (string, entries) dict \<Rightarrow> entries" where
  "hand order groups = concat (map (\<lambda>node. dget_or groups node []) order)"

definition entry_id :: "int \<times> payload \<times> submit_task_item \<Rightarrow> string" where
  "entry_id = (\<lambda>(_, _, item). si_id item)"

definition entry_ok :: "pyval list \<Rightarrow> imap \<Rightarrow> int \<times> payload \<times> submit_task_item \<Rightarrow> bool" where
  "entry_ok P im e \<longleftrightarrow> dget (im_index im) (entry_id e) = Some (fst e) \<and> payload_at P (fst e) (fst (snd e)) \<and>
    dget (cl_replay (im_client im)) (entry_id e) = None \<and> (\<exists>k \<le> cl_seq (im_client im). entry_id e = own_id (cl_job_id (im_client im)) k)"

definition entries_ok :: "pyval list \<Rightarrow> imap \<Rightarrow> entries \<Rightarrow> bool" where
  "entries_ok P im es \<longleftrightarrow> distinct (map entry_id es) \<and> (\<forall>e \<in> set es. entry_ok P im e)"

lemma entries_ok_mset: "mset es = mset es' \<Longrightarrow> entries_ok P im es \<Longrightarrow> entries_ok P im es'"
  unfolding entries_ok_def by (metis mset_eq_imp_distinct_iff mset_eq_setD mset_map)

lemma entries_ok_append: "entries_ok P im (es @ others) \<Longrightarrow> entries_ok P im es \<and> entries_ok P im others"
  by (simp add: entries_ok_def)

lemma hand_simps [simp]: "hand [] groups = []" "hand (n # order) groups = dget_or groups n [] @ hand order groups" "hand order [] = []"
  by (simp_all add: hand_def dget_or_def)

lemma hand_other: "node \<notin> set order \<Longrightarrow> hand order (dset node v groups) = hand order groups"
  by (induction order) (auto simp: dget_or_def dict_simps)

lemma hand_dset:
  assumes "distinct order" "node \<in> set order"
  shows "mset (hand order (dset node (dget_or groups node [] @ [e]) groups)) = add_mset e (mset (hand order groups))"
  using assms
proof (induction order)
  case (Cons n order)
  have at: "dget_or (dset node v groups) n [] = (if n = node then v else dget_or groups n [])" for v by (simp add: dget_or_def dict_simps)
  show ?case
  proof (cases "n = node")
    case True
    then show ?thesis using Cons.prems hand_other at by simp
  next
    case False
    then show ?thesis using Cons at by simp
  qed
qed simp

lemma assigned:
  assumes "fit P (x + mset (map fst (hand order groups))) im" "entries_ok P im (hand order groups)" "distinct order" "set targets \<subseteq> set order"
    and "assign_payloads env targets groups im = (im', res)"
  shows "case res of Inl e \<Rightarrow> \<exists>y. fit P y im'
    | Inr groups' \<Rightarrow> fit P (x + mset (map fst (hand order groups'))) im' \<and> entries_ok P im' (hand order groups')"
  using assms(1,2,4,5)
proof (induction targets arbitrary: groups im)
  case Nil
  then show ?case by auto
next
  case (Cons node targets)
  obtain b n where n: "next_payload (im_buffer im) = (b, n)" by (rule prod.exhaust)
  have buf: "buffer_ok P (im_buffer im)" and ok: "tasks_ok (im_client im)" using Cons.prems(1) by (simp_all add: fit_def index_books_def)
  show ?case
  proof (cases n)
    case None
    have "fit P (x + mset (map fst (hand order groups))) (im\<lparr>im_buffer := b\<rparr>)"
      using Cons.prems(1) next_none [OF buf n [unfolded None]] by (simp add: fit_def index_books_def replays_ok_def account_def)
    moreover have "entries_ok P (im\<lparr>im_buffer := b\<rparr>) (hand order groups)" using Cons.prems(2) by (simp add: entries_ok_def entry_ok_def)
    moreover have "im' = im\<lparr>im_buffer := b\<rparr>" "res = Inr groups" using Cons.prems(4) n None by simp_all
    ultimately show ?thesis by simp
  next
    case (Some ip)
    obtain i p where ip: "ip = (i, p)" by (rule prod.exhaust)
    note N = next_some [OF buf n [unfolded Some ip]]
    obtain cl t where bt: "build_task_submit_item env [] node p (im_client im) = (cl, t)" by (rule prod.exhaust)
    note B = build_item [OF bt]
    let ?im1 = "im\<lparr>im_buffer := b, im_client := cl\<rparr>"
    have same: "cl_replay cl = cl_replay (im_client im)" "cl_job_id cl = cl_job_id (im_client im)" using B(1) by (simp_all add: later_def)
    have f: "fit P (add_mset i (x + mset (map fst (hand order groups)))) ?im1"
      using Cons.prems(1) N(1,2) tasks_ok_later [OF B(1)] out_later [OF B(1)] same by (simp add: fit_def index_books_def replays_ok_def account_def)
    show ?thesis
    proof (cases t)
      case (Inl e)
      then show ?thesis using Cons.prems(4) n Some ip bt f by auto
    next
      case (Inr item)
      have id: "si_id item = own_id (cl_job_id (im_client im)) (cl_seq (im_client im) + 1)" using B(3) [OF Inr] by simp
      let ?e = "(i, p, item)" and ?index = "dset (si_id item) i (im_index im)"
      let ?groups = "dset node (dget_or groups node [] @ [?e]) groups" and ?im2 = "?im1\<lparr>im_index := ?index\<rparr>"
      have new: "dget (cl_replay (im_client im)) (si_id item) = None" using fresh_id [OF ok] id by simp
      have m: "mset (hand order ?groups) = add_mset ?e (mset (hand order groups))" using hand_dset [OF assms(3)] Cons.prems(3) by simp
      have "replays_ok P ?im1" using f by (simp add: fit_def index_books_def)
      then have "replays_ok P ?im2" using new same(1) by (auto simp: replays_ok_def dict_simps)
      then have f2: "fit P (x + mset (map fst (hand order ?groups))) ?im2" using f m by (simp add: fit_def index_books_def account_def)
      have old: "entry_id e \<noteq> si_id item" if "e \<in> set (hand order groups)" for e
      proof -
        have "entry_ok P im e" using Cons.prems(2) that by (simp add: entries_ok_def)
        then obtain k where "k \<le> cl_seq (im_client im)" "entry_id e = own_id (cl_job_id (im_client im)) k" unfolding entry_ok_def by blast
        then show ?thesis using id own_id_inj by simp
      qed
      have "\<exists>k \<le> cl_seq cl. si_id item = own_id (cl_job_id cl) k" using id same(2) B(2) by (intro exI [of _ "cl_seq cl"]) simp
      then have "entry_ok P ?im2 ?e" using N(3) new same(1) by (simp add: entry_ok_def entry_id_def dict_simps)
      moreover have "entry_ok P ?im2 e" if "e \<in> set (hand order groups)" for e
      proof -
        have "entry_ok P im e" using Cons.prems(2) that by (simp add: entries_ok_def)
        moreover from this obtain k where "k \<le> cl_seq (im_client im)" "entry_id e = own_id (cl_job_id (im_client im)) k"
          unfolding entry_ok_def by blast
        then have "\<exists>k \<le> cl_seq cl. entry_id e = own_id (cl_job_id cl) k" using same(2) B(2) by (intro exI [of _ k]) simp
        ultimately show ?thesis using old [OF that] same(1) by (simp add: entry_ok_def dict_simps)
      qed
      moreover have "distinct (map entry_id (?e # hand order groups))"
      proof -
        have "si_id item \<notin> set (map entry_id (hand order groups))" using old by force
        moreover have "entry_id ?e = si_id item" by (simp add: entry_id_def)
        ultimately show ?thesis using Cons.prems(2) by (simp add: entries_ok_def)
      qed
      ultimately have "entries_ok P ?im2 (?e # hand order groups)" by (simp add: entries_ok_def)
      then have e2: "entries_ok P ?im2 (hand order ?groups)" using entries_ok_mset m by (metis mset.simps(2))
      have "assign_payloads env targets ?groups ?im2 = (im', res)" using Cons.prems(4) n Some ip bt Inr by simp
      then show ?thesis using Cons.IH [OF f2 e2] Cons.prems(3) by simp
    qed
  qed
qed

text \<open>One node's entries are submitted.\<close>

lemma fit_requeue:
  assumes "index_books P (x + mset (map fst es)) im" "\<forall>e \<in> set es. payload_at P (fst e) (fst (snd e))"
  shows "index_books P x (requeue es im)"
proof -
  let ?f = "\<lambda>(i, p, _ :: submit_task_item). (i, p)"
  have m: "map fst (map ?f es) = map fst es" by (induction es) auto
  have b: "buffer_ok P (im_buffer im)" using assms(1) by (simp add: index_books_def)
  have "\<forall>(i, p) \<in> set (map ?f es). payload_at P i p" using assms(2) by auto
  note R = requeue_ok [OF b this]
  have "mset (map fst (map ?f es)) = mset (map fst es)" by (simp only: m)
  then show ?thesis using assms(1) R by (simp add: index_books_def requeue_def replays_ok_def account_def ac_simps del: mset_map map_map)
qed

lemma registered:
  assumes "tasks_but (entry_id ` set es) (im_client im)" "index_books P (x + mset (map fst es)) im" "distinct (map entry_id es)"
    and "\<forall>e \<in> set es. dget (im_index im) (entry_id e) = Some (fst e) \<and> payload_at P (fst e) (fst (snd e))"
  shows "fit P x (upd_client (fold (register_entry env node) es) im) \<and>
    cl_seq (fold (register_entry env node) es (im_client im)) \<ge> cl_seq (im_client im) \<and>
    cl_job_id (fold (register_entry env node) es (im_client im)) = cl_job_id (im_client im) \<and>
    (\<forall>t. t \<notin> entry_id ` set es \<longrightarrow> dget (cl_replay (fold (register_entry env node) es (im_client im))) t = dget (cl_replay (im_client im)) t)"
  using assms
proof (induction es arbitrary: im)
  case Nil
  then show ?case by (simp add: fit_def upd_client_def tasks_but_none)
next
  case (Cons e es)
  obtain i p item where e: "e = (i, p, item)" by (rule prod_cases3)
  let ?q = "\<lparr>rp_index = i, rp_payload = p, rp_task_id = si_id item, rp_node_id = node, rp_attempt = 0,
      rp_submitted_at = client_now env (im_client im), rp_last_error = [], rp_timeout_retries = 0\<rparr>"
  have id: "entry_id e = si_id item" by (simp add: e entry_id_def)
  have reg: "register_entry env node e (im_client im) = register_replay_record ?q (im_client im)" by (simp add: e register_entry_def)
  have "rp_task_id ?q \<in> entry_id ` set (e # es)" using id by simp
  note R = register_gains [OF Cons.prems(1) this]
  let ?im1 = "im\<lparr>im_client := register_replay_record ?q (im_client im)\<rparr>"
  have "entry_id ` set (e # es) - {rp_task_id ?q} = entry_id ` set es" using Cons.prems(3) id by auto
  then have b1: "tasks_but (entry_id ` set es) (im_client ?im1)" using R(1) by simp
  have x1: "index_books P (x + mset (map fst es)) ?im1"
    using books_gained [of P "settled_record ?q" "x + mset (map fst es)" im _ "im_index im"] R(2) Cons.prems(2,4) id by (simp add: e)
  have g: "cl_job_id (im_client ?im1) = cl_job_id (im_client im)" "cl_seq (im_client im) \<le> cl_seq (im_client ?im1)"
    "t \<noteq> si_id item \<Longrightarrow> dget (cl_replay (im_client ?im1)) t = dget (cl_replay (im_client im)) t" for t
    using R(2) by (simp_all add: gained_def dict_simps)
  have "\<forall>e \<in> set es. dget (im_index ?im1) (entry_id e) = Some (fst e) \<and> payload_at P (fst e) (fst (snd e))" using Cons.prems(4) by simp
  note IH = Cons.IH [OF b1 x1 _ this]
  have d: "distinct (map entry_id es)" "si_id item \<in> entry_id ` set (e # es)" using Cons.prems(3) id by auto
  have eq: "fold (register_entry env node) (e # es) (im_client im) = fold (register_entry env node) es (im_client ?im1)" by (simp add: reg)
  have upd: "upd_client (fold (register_entry env node) (e # es)) im = upd_client (fold (register_entry env node) es) ?im1"
    by (simp add: upd_client_def reg)
  show ?case unfolding eq upd
  proof (intro conjI allI impI)
    show "fit P x (upd_client (fold (register_entry env node) es) ?im1)" using IH [OF d(1)] by (rule conjunct1)
    show "cl_seq (im_client im) \<le> cl_seq (fold (register_entry env node) es (im_client ?im1))" using IH [OF d(1)] le_trans [OF g(2)] by blast
    show "cl_job_id (fold (register_entry env node) es (im_client ?im1)) = cl_job_id (im_client im)"
      using IH [OF d(1), THEN conjunct2, THEN conjunct2, THEN conjunct1] unfolding g(1) .
    fix t
    assume t: "t \<notin> entry_id ` set (e # es)"
    then have "t \<noteq> si_id item" "t \<notin> entry_id ` set es" using d(2) by auto
    then show "dget (cl_replay (fold (register_entry env node) es (im_client ?im1))) t = dget (cl_replay (im_client im)) t"
      using IH [OF d(1), THEN conjunct2, THEN conjunct2, THEN conjunct2] g(3) [of t] by metis
  qed
qed

definition filling :: "imap \<Rightarrow> imap \<Rightarrow> bool" where
  "filling im im' \<longleftrightarrow> im_completed im' = im_completed im \<and> im_ready im' = im_ready im \<and> im_submitted im \<le> im_submitted im' \<and>
    (im_submitted im' = im_submitted im \<longrightarrow> cl_replay (im_client im') = cl_replay (im_client im))"

lemma filling_trans: "filling a b \<Longrightarrow> filling b c \<Longrightarrow> filling a c"
  by (auto simp: filling_def)

lemma filling_still: "still im im' \<Longrightarrow> im_submitted im' = im_submitted im \<Longrightarrow> filling im im'"
  by (simp add: filling_def still_def later_def)

lemma entry_ok_mono:
  assumes "entry_ok P im e" "im_index im' = im_index im" "cl_job_id (im_client im') = cl_job_id (im_client im)"
    and "cl_seq (im_client im) \<le> cl_seq (im_client im')" "dget (cl_replay (im_client im')) (entry_id e) = None"
  shows "entry_ok P im' e"
proof -
  obtain k where "k \<le> cl_seq (im_client im)" "entry_id e = own_id (cl_job_id (im_client im)) k" using assms(1) unfolding entry_ok_def by blast
  then have "\<exists>k \<le> cl_seq (im_client im'). entry_id e = own_id (cl_job_id (im_client im')) k" using assms(3,4) by (intro exI [of _ k]) simp
  then show ?thesis using assms by (simp add: entry_ok_def)
qed

lemma entries_still:
  assumes "still im im'" "entries_ok P im es"
  shows "entries_ok P im' es"
proof -
  have "entry_ok P im' e" if "entry_ok P im e" for e
    using entry_ok_mono [OF that, of im'] that assms(1) by (simp add: still_def later_def entry_ok_def)
  then show ?thesis using assms(2) by (simp add: entries_ok_def)
qed

lemma put_off:
  assumes "still im im2" "im_submitted im2 = im_submitted im" "fit P (x + mset (map fst es)) im" "entries_ok P im (es @ others)"
  shows "fit P x (requeue es im2) \<and> entries_ok P (requeue es im2) others \<and> filling im (requeue es im2)"
proof -
  have f: "fit P (x + mset (map fst es)) im2" using fit_still [OF assms(1,3)] .
  have "\<forall>e \<in> set es. payload_at P (fst e) (fst (snd e))" using assms(4) by (simp add: entries_ok_def entry_ok_def)
  then have "fit P x (requeue es im2)" using fit_requeue [of P x es im2] f by (simp add: fit_def requeue_def)
  moreover have "entries_ok P im2 others" using entries_still [OF assms(1)] entries_ok_append [OF assms(4)] by blast
  then have "entries_ok P (requeue es im2) others" by (simp add: entries_ok_def entry_ok_def requeue_def)
  moreover have "filling im (requeue es im2)" using filling_still [OF assms(1,2)] by (simp add: filling_def requeue_def)
  ultimately show ?thesis by blast
qed

lemma mset_split: "mset (map f es) = mset (map f (filter Q es)) + mset (map f (filter (\<lambda>e. \<not> Q e) es))"
  by (induction es) auto

text \<open>The node accepted some of them.\<close>

lemma accepted_some:
  assumes "fit P (x + mset (map fst es)) im" "entries_ok P im (es @ others)" "es \<noteq> []"
    and "added (set accepted) (im_client im) cl" "set accepted \<subseteq> entry_id ` set es" "accepted \<noteq> []"
    and "taken = filter (\<lambda>e. entry_id e \<in> set accepted) es" "refused = filter (\<lambda>e. entry_id e \<notin> set accepted) es"
    and "im1 = im\<lparr>im_client := fold (register_entry env node) taken (mark_pool_submit_success node cl)\<rparr>"
    and "im2 = add_inflight node (int (length taken)) (requeue refused im1)"
  shows "fit P x (im2\<lparr>im_submitted := im_submitted im2 + int (length taken)\<rparr>) \<and>
    entries_ok P (im2\<lparr>im_submitted := im_submitted im2 + int (length taken)\<rparr>) others \<and>
    filling im (im2\<lparr>im_submitted := im_submitted im2 + int (length taken)\<rparr>)"
proof -
  let ?cl0 = "mark_pool_submit_success node cl" and ?im3 = "im2\<lparr>im_submitted := im_submitted im2 + int (length taken)\<rparr>"
  let ?im0 = "im\<lparr>im_client := ?cl0\<rparr>"
  have ok: "tasks_ok (im_client im)" using assms(1) by (simp add: fit_def)
  have E: "entry_ok P im e" if "e \<in> set (es @ others)" for e using assms(2) that unfolding entries_ok_def by blast
  have ids: "entry_id ` set taken = set accepted" using assms(5,7) by auto
  have fresh: "\<forall>t \<in> set accepted. dget (cl_replay (im_client im)) t = None \<and> (\<exists>k \<le> cl_seq (im_client im). t = own_id (cl_job_id (im_client im)) k)"
  proof
    fix t assume "t \<in> set accepted"
    then obtain e where "e \<in> set es" "t = entry_id e" using assms(5) by blast
    then show "dget (cl_replay (im_client im)) t = None \<and> (\<exists>k \<le> cl_seq (im_client im). t = own_id (cl_job_id (im_client im)) k)"
      using E [of e] unfolding entry_ok_def by simp
  qed
  have but: "tasks_but (entry_id ` set taken) (im_client ?im0)"
    using tasks_but_same [OF same_tasks_ops(5) added_but [OF ok assms(4) fresh]] ids by simp
  have same: "cl_replay ?cl0 = cl_replay (im_client im)" "cl_job_id ?cl0 = cl_job_id (im_client im)" "cl_seq ?cl0 = cl_seq (im_client im)"
    using same_tasks_ops(5) [of cl node] assms(4) by (simp_all add: same_tasks_def added_def)
  then have "out_indices ?cl0 = out_indices (im_client im)" by (simp add: out_indices_def)
  moreover have "mset (map fst es) = mset (map fst taken) + mset (map fst refused)" unfolding assms(7,8) by (rule mset_split)
  ultimately have b: "index_books P (x + mset (map fst refused) + mset (map fst taken)) ?im0"
    using assms(1) same by (simp add: fit_def index_books_def account_def replays_ok_def ac_simps)
  have d: "distinct (map entry_id (es @ others))" using assms(2) by (simp add: entries_ok_def)
  then have "distinct (map entry_id es)" by simp
  then have "distinct (map entry_id taken)" unfolding assms(7) by (rule distinct_map_filter)
  moreover have "\<forall>e \<in> set taken. dget (im_index ?im0) (entry_id e) = Some (fst e) \<and> payload_at P (fst e) (fst (snd e))"
    using E assms(7) by (simp add: entry_ok_def)
  ultimately have reg: "fit P (x + mset (map fst refused)) (upd_client (fold (register_entry env node) taken) ?im0) \<and>
    cl_seq (fold (register_entry env node) taken (im_client ?im0)) \<ge> cl_seq (im_client ?im0) \<and>
    cl_job_id (fold (register_entry env node) taken (im_client ?im0)) = cl_job_id (im_client ?im0) \<and>
    (\<forall>t. t \<notin> entry_id ` set taken \<longrightarrow> dget (cl_replay (fold (register_entry env node) taken (im_client ?im0))) t = dget (cl_replay (im_client ?im0)) t)"
    by (rule registered [OF but b])
  have im1: "upd_client (fold (register_entry env node) taken) ?im0 = im1" by (simp add: assms(9) upd_client_def)
  have c1: "im_client im1 = fold (register_entry env node) taken (im_client ?im0)" "im_index im1 = im_index im" by (simp_all add: assms(9))
  have f1: "fit P (x + mset (map fst refused)) im1" using reg im1 by simp
  have "\<forall>e \<in> set refused. payload_at P (fst e) (fst (snd e))" using E assms(8) by (simp add: entry_ok_def)
  then have "fit P x (requeue refused im1)" using fit_requeue [of P x refused im1] f1 by (simp add: fit_def requeue_def)
  then have "fit P x ?im3" using fit_still [OF still_trans [OF still_ops(4) still_ops(7)]] assms(10) by simp
  moreover have "entries_ok P ?im3 others"
  proof -
    have "entry_ok P im1 e" if e: "e \<in> set others" for e
    proof (rule entry_ok_mono [OF E])
      have "entry_id e \<notin> entry_id ` set taken" using d e assms(7) by auto
      then show "dget (cl_replay (im_client im1)) (entry_id e) = None" using reg c1 same E [of e] e by (simp add: entry_ok_def)
    qed (use reg c1 same e in simp_all)
    then show ?thesis using d by (simp add: entries_ok_def entry_ok_def assms(10) add_inflight_def requeue_def)
  qed
  moreover have "taken \<noteq> []" using ids assms(6) by auto
  then have "filling im ?im3" by (simp add: filling_def assms(9,10) add_inflight_def requeue_def)
  ultimately show ?thesis by blast
qed

lemma submitted:
  assumes "whole_submissions env" "fit P (x + mset (map fst es)) im" "entries_ok P im (es @ others)"
  shows "fit P x (submit_entries env node es im) \<and> entries_ok P (submit_entries env node es im) others \<and> filling im (submit_entries env node es im)"
proof (cases "es = []")
  case True
  then show ?thesis using assms(2,3) by (simp add: submit_entries_def filling_def)
next
  case False
  let ?items = "map (\<lambda>(_, _, item). item) es" and ?cl0 = "im_client im"
  obtain cl res where s: "submit_task_items_to_node env node ?items ?cl0 = (cl, res)" by (rule prod.exhaust)
  have own: "strip (entry_id e) = entry_id e \<and> entry_id e \<noteq> []" if "e \<in> set es" for e
  proof -
    have "entry_ok P im e" using assms(3) that by (simp add: entries_ok_def)
    then obtain k where "entry_id e = own_id (cl_job_id ?cl0) k" unfolding entry_ok_def by blast
    then show ?thesis by simp
  qed
  have ids: "si_id ` set ?items = entry_id ` set es" unfolding entry_id_def by (force simp: image_iff)
  have "\<forall>i \<in> set ?items. strip (si_id i) = si_id i \<and> si_id i \<noteq> []" using own unfolding entry_id_def by auto
  note S = submit_items [OF assms(1) this s]
  show ?thesis
  proof (cases res)
    case (Inl e)
    let ?cl1 = "mark_pool_submit_failure env SUBMIT_FAILED e node cl"
    obtain cl2 details where d: "format_pool_submit_failure env node e ?cl1 = (cl2, details)" by (rule prod.exhaust)
    have "same_tasks ?cl0 cl" using S Inl by simp
    then have "same_tasks ?cl0 cl2" using same_tasks_trans [OF same_tasks_trans] same_tasks_ops(6,10) d by (metis fst_conv)
    then have "still im (note_error node details (disable node (im\<lparr>im_client := cl2\<rparr>)))"
      using later_same by (simp add: still_def note_error_def disable_def)
    note P = put_off [OF this _ assms(2,3)]
    have "submit_entries env node es im = requeue es (note_error node details (disable node (im\<lparr>im_client := cl2\<rparr>)))"
      using False s Inl d by (simp add: submit_entries_def)
    then show ?thesis using P by (simp add: note_error_def disable_def)
  next
    case (Inr accepted)
    then have acc: "set accepted \<subseteq> entry_id ` set es" "added (set accepted) ?cl0 cl" using S unfolding ids [symmetric] by simp_all
    show ?thesis
    proof (cases "accepted = []")
      case True
      let ?cl1 = "mark_pool_submit_failure env SUBMIT_FAILED ''submit returned no accepted task ids'' node cl"
      have "later ?cl0 ?cl1" using later_trans [OF later_added later_same [OF same_tasks_ops(6)]] acc(2) True by simp
      then have "still im (im\<lparr>im_client := ?cl1\<rparr>)" by (simp add: still_def)
      note P = put_off [OF this _ assms(2,3)]
      have "submit_entries env node es im = requeue es (im\<lparr>im_client := ?cl1\<rparr>)" using False s Inr True by (simp add: submit_entries_def)
      then show ?thesis using P by simp
    next
      case more: False
      have strips: "strip (si_id item) = si_id item" if "(i, p, item) \<in> set es" for i p item using own [OF that] by (simp add: entry_id_def)
      have "filter (\<lambda>(_, _, item). strip (si_id item) \<in> set accepted) es = filter (\<lambda>e. entry_id e \<in> set accepted) es"
        "filter (\<lambda>(_, _, item). strip (si_id item) \<notin> set accepted) es = filter (\<lambda>e. entry_id e \<notin> set accepted) es"
        using strips by (auto simp: entry_id_def intro!: filter_cong)
      then show ?thesis
        using accepted_some [OF assms(2,3) False acc(2,1) more refl refl refl refl, of node env] False s Inr more
        by (simp add: submit_entries_def Let_def)
    qed
  qed
qed

lemma submitted_nodes:
  assumes "whole_submissions env" "fit P (x + mset (map fst (hand order groups))) im" "entries_ok P im (hand order groups)"
  shows "fit P x (submit_imap_entries_to_nodes env groups order im) \<and> filling im (submit_imap_entries_to_nodes env groups order im)"
  using assms(2,3)
proof (induction order arbitrary: im)
  case Nil
  then show ?case by (simp add: submit_imap_entries_to_nodes_def filling_def)
next
  case (Cons node order)
  let ?es = "dget_or groups node []" and ?im1 = "submit_entries env node (dget_or groups node []) im"
  have "fit P (x + mset (map fst (hand order groups)) + mset (map fst ?es)) im" using Cons.prems(1) by (simp add: ac_simps)
  note S = submitted [OF assms(1) this, of "hand order groups" node]
  then have S': "fit P (x + mset (map fst (hand order groups))) ?im1" "entries_ok P ?im1 (hand order groups)" "filling im ?im1"
    using Cons.prems(2) by simp_all
  show ?case using Cons.IH [OF S'(1,2)] filling_trans [OF S'(3)] by (simp add: submit_imap_entries_to_nodes_def)
qed

lemma planned_nodes: "set (plan_within profile candidates order n rr remaining st) \<subseteq> {node. 0 < dget_or remaining node 0}"
proof (induction profile candidates order n rr remaining st rule: plan_within.induct)
  case (1 profile candidates order n rr remaining st)
  show ?case
  proof (cases "n = 0 \<or> \<not> list_ex (\<lambda>node. 0 < dget_or remaining node 0) order")
    case True
    then show ?thesis by (simp add: plan_within.simps)
  next
    case False
    show ?thesis
    proof (cases "select_one_candidate candidates profile st rr")
      case (Inl e)
      then show ?thesis using False by (simp add: plan_within.simps)
    next
      case (Inr c)
      let ?q = "dget_or remaining (cand_id c) 0"
      have mono: "{node. 0 < dget_or (dset (cand_id c) (max 0 (?q - 1)) remaining) node 0} \<subseteq> {node. 0 < dget_or remaining node 0}"
        by (auto simp: dget_or_def dict_simps split: if_splits)
      show ?thesis
      proof (cases "?q \<le> 0")
        case True
        then show ?thesis using 1(1) [OF False Inr refl refl refl refl] False Inr by (subst plan_within.simps) (simp add: Let_def)
      next
        case q: False
        have "set (plan_within profile candidates order (n - 1) (rr + 1) (dset (cand_id c) (max 0 (?q - 1)) remaining)
            ((if ?q - 1 \<le> 0 then st\<lparr>disabled_candidates := List.insert (cand_id c) (disabled_candidates st)\<rparr> else st)
              \<lparr>local_inflight_by_candidate := dset (cand_id c) (dget_or (local_inflight_by_candidate st) (cand_id c) 0 + 1) (local_inflight_by_candidate st)\<rparr>))
          \<subseteq> {node. 0 < dget_or remaining node 0}"
          using 1(2) [OF False Inr refl refl refl refl q] mono by blast
        then show ?thesis using False Inr q by (subst plan_within.simps) (simp add: Let_def)
      qed
    qed
  qed
qed

lemma limited_targets:
  assumes "plan_limited_pool_node_targets env capped order m profile load disabled infra rr cl = (cl', targets)"
  shows "set targets \<subseteq> set order"
proof -
  let ?remaining = "map (\<lambda>node. (node, max 0 (dget_or capped node 0))) (filter (\<lambda>node. node \<notin> set disabled) order)"
  have "0 < dget_or ?remaining node 0 \<Longrightarrow> node \<in> set order" for node
    by (auto simp: dget_or_def split: option.splits dest!: map_of_SomeD)
  then have "set (plan_within profile candidates order n rr ?remaining st) \<subseteq> set order" for candidates n st
    using planned_nodes [of profile candidates order n rr ?remaining st] by blast
  then show ?thesis using assms by (auto simp: plan_limited_pool_node_targets_def Let_def split: if_splits prod.splits)
qed

lemma assigned_filling: "assign_payloads env targets groups im = (im', res) \<Longrightarrow> filling im im'"
proof (induction targets arbitrary: groups im)
  case Nil
  then show ?case by (simp add: filling_def)
next
  case (Cons node targets)
  obtain b n where n: "next_payload (im_buffer im) = (b, n)" by (rule prod.exhaust)
  show ?case
  proof (cases n)
    case None
    then show ?thesis using Cons.prems n by (auto simp: filling_def)
  next
    case (Some ip)
    obtain i p where ip: "ip = (i, p)" by (rule prod.exhaust)
    obtain cl t where bt: "build_task_submit_item env [] node p (im_client im) = (cl, t)" by (rule prod.exhaust)
    have r: "cl_replay cl = cl_replay (im_client im)" using build_item(1) [OF bt] by (simp add: later_def)
    show ?thesis
    proof (cases t)
      case (Inl e)
      then show ?thesis using Cons.prems n Some ip bt r by (auto simp: filling_def)
    next
      case (Inr item)
      have "filling (im\<lparr>im_buffer := b, im_client := cl, im_index := dset (si_id item) i (im_index im)\<rparr>) im'"
        using Cons.IH Cons.prems n Some ip bt Inr by simp
      then show ?thesis using r by (simp add: filling_def)
    qed
  qed
qed

lemma filled:
  assumes "whole_submissions env" "distinct (ia_nodes args)" "fit P x im" "fill_imap_from_quota env args quota im = (im', res)"
  shows "case res of None \<Rightarrow> fit P x im' \<and> filling (im\<lparr>im_submitted := 0\<rparr>) im' | Some e \<Rightarrow> \<exists>y. fit P y im'"
proof -
  let ?im0 = "im\<lparr>im_submitted := 0\<rparr>"
  let ?available = "max 0 (im_window ?im0 - inflight_total ?im0)"
  have f0: "fit P x ?im0" using fit_still [OF still_ops(7) assms(3)] .
  show ?thesis
  proof (cases "?available \<le> 0")
    case True
    have "(im', res) = (?im0, None)" using assms(4) unfolding fill_imap_from_quota_def Let_def if_P [OF True] by simp
    then show ?thesis using f0 by (simp add: filling_def)
  next
    case False
    obtain cl targets where t: "plan_limited_pool_node_targets env
        (map (\<lambda>node. (node, max 0 quota)) (filter (\<lambda>node. node \<notin> set (im_disabled ?im0)) (ia_nodes args))) (ia_nodes args) ?available
        (ia_profile args) (im_inflight ?im0) (im_disabled ?im0) (im_infra ?im0) (int (im_start ?im0)) (im_client ?im0) = (cl, targets)"
      by (rule prod.exhaust)
    let ?im1 = "?im0\<lparr>im_client := cl\<rparr>"
    have "same_tasks (im_client ?im0) cl" using same_tasks_plans(3) t by (metis fst_conv)
    then have st: "still ?im0 ?im1" using later_same by (simp add: still_def)
    note f1 = fit_still [OF st f0]
    have g1: "filling ?im0 ?im1" using filling_still [OF st] by simp
    have eq: "(im', res) = (if targets = [] then (?im1, None) else case assign_payloads env targets [] ?im1 of
        (im1, Inl e) \<Rightarrow> (im1, Some e) | (im1, Inr groups) \<Rightarrow> (submit_imap_entries_to_nodes env groups (ia_nodes args) im1, None))"
      using assms(4) unfolding fill_imap_from_quota_def Let_def if_not_P [OF False] t prod.case by simp
    show ?thesis
    proof (cases "targets = []")
      case True
      then show ?thesis using eq f1 g1 by simp
    next
      case some: False
      obtain im2 res2 where a: "assign_payloads env targets [] ?im1 = (im2, res2)" by (rule prod.exhaust)
      have "fit P (x + mset (map fst (hand (ia_nodes args) []))) ?im1" "entries_ok P ?im1 (hand (ia_nodes args) [])"
        using f1 by (simp_all add: entries_ok_def)
      note A = assigned [OF this assms(2) limited_targets [OF t] a]
      show ?thesis
      proof (cases res2)
        case (Inl e)
        then show ?thesis using eq a A some by simp
      next
        case (Inr groups)
        then have h: "fit P (x + mset (map fst (hand (ia_nodes args) groups))) im2" "entries_ok P im2 (hand (ia_nodes args) groups)" using A by simp_all
        have "im' = submit_imap_entries_to_nodes env groups (ia_nodes args) im2" "res = None" using eq a Inr some by simp_all
        then show ?thesis using submitted_nodes [OF assms(1) h] filling_trans [OF filling_trans [OF g1 assigned_filling [OF a]]] by simp
      qed
    qed
  qed
qed

section \<open>Yielding\<close>

lemma cancelled_fit:
  assumes "fit P x im"
  shows "\<exists>y. fit P y (upd_client (cancel_own_job env) im)"
proof (cases "ce_cancel env (cl_calls (im_client im))")
  case True
  let ?cl = "clear_pending_for_current_job (remote_call (im_client im))"
  have c: "cancel_own_job env (im_client im) = ?cl" using True by (simp add: cancel_own_job_def)
  have none: "cl_replay ?cl = []" "cl_pending ?cl = []" "cl_pending_nodes ?cl = []" "cl_replay_nodes ?cl = []"
    by (simp_all add: clear_pending_for_current_job_def)
  then have ok: "tasks_ok ?cl" by (simp add: tasks_ok_def dwf_def)
  have "fit P (x + out_indices (im_client im)) (upd_client (cancel_own_job env) im)"
    using assms ok none by (simp add: fit_def index_books_def upd_client_def c replays_ok_def account_def out_indices_def [of ?cl] ac_simps)
  then show ?thesis by blast
next
  case False
  have "still im (upd_client (cancel_own_job env) im)" by (rule still_client) (simp add: cancel_own_job_def False)
  then show ?thesis using fit_still assms by blast
qed

lemma yield_fit:
  assumes "fit P x im" "yield_ready env args n im = (im', res)"
  shows "case res of Going \<Rightarrow> fit P x im' \<and> im_completed im' = im_completed im | Finished \<Rightarrow> False | Stopped e \<Rightarrow> \<exists>y. fit P y im'"
  using assms
proof (induction n arbitrary: im)
  case (Suc n)
  show ?case
  proof (cases "im_ready im")
    case Nil
    then show ?thesis using Suc.prems by auto
  next
    case (Cons item items)
    show ?thesis
    proof (cases "\<not> it_ok item \<and> ia_raise args")
      case True
      have "fit P (add_mset (it_index item) x) (im\<lparr>im_ready := items\<rparr>)"
        using Suc.prems(1) Cons by (simp add: fit_def index_books_def replays_ok_def account_def)
      then show ?thesis using cancelled_fit [of P _ "im\<lparr>im_ready := items\<rparr>" env] Suc.prems(2) Cons True by auto
    next
      case False
      have "fit P x (im\<lparr>im_ready := items, im_out := im_out im @ [item]\<rparr>)"
        using Suc.prems(1) Cons by (simp add: fit_def index_books_def replays_ok_def account_def)
      note IH = Suc.IH [OF this]
      have "yield_ready env args n (im\<lparr>im_ready := items, im_out := im_out im @ [item]\<rparr>) = (im', res)" using Suc.prems(2) Cons False by auto
      from IH [OF this] show ?thesis by (simp split: imap_outcome.splits)
    qed
  qed
qed auto

end
