(* ===== verification/ClientDemo.thy ===== *)
theory ClientDemo
  imports ClientLoop
begin

text \<open>A session with two nodes, its environment and a call of \<open>imap_unordered\<close>, for the examples.\<close>

definition demo_pool :: "int \<Rightarrow> pool_handle" where
  "demo_pool limit = \<lparr>ph_pool_id = ''p'', ph_pool_name = ''p'', ph_status = ''RUNNING'', ph_worker_count = 2, ph_alive_workers = 2,
     ph_capability = [(''max_http_body_bytes'', limit)], ph_failed = False, ph_last_error = [],
     ph_handle = 0, ph_heartbeat_timeout = 30, ph_failure_threshold = 3, ph_readiness = ''ready'', ph_method_failures = []\<rparr>"

definition demo_members :: "int \<Rightarrow> members" where
  "demo_members limit = \<lparr>mb_pools = [(''n1'', demo_pool limit), (''n2'', demo_pool 0)], mb_nodes = [], mb_active = [''n1'', ''n2''], mb_probe = [],
     mb_terminal = [], mb_owner_blacklist = [], mb_method_blacklist = [], mb_breakers = [], mb_failures = []\<rparr>"

definition demo_client :: "int \<Rightarrow> client" where
  "demo_client limit = \<lparr>cl_members = demo_members limit, cl_method = ''run'', cl_job_id = ''job'', cl_seq = 0, cl_cycle = 0, cl_pending = [],
     cl_pending_nodes = [], cl_replay = [], cl_replay_nodes = [],
     cl_sched = \<lparr>local_inflight_by_candidate = [], disabled_candidates = [], recent_submit_failures = []\<rparr>,
     cl_buffered = [], cl_retries = 0, cl_retries_ok = 0, cl_retries_exhausted = 0, cl_lost_replayed = 0, cl_lost_failed = 0,
     cl_closed = False, cl_exclusive = None, cl_calls = 0\<rparr>"

definition demo_result :: "string \<Rightarrow> pool_result" where
  "demo_result t = \<lparr>pr_task_id = t, pr_status = Succeeded, pr_err_type = [], pr_err_message = [], pr_value = PStr t\<rparr>"

definition demo_client_env :: "(nat \<Rightarrow> nat \<Rightarrow> string \<Rightarrow> submit_reply) \<Rightarrow> (nat \<Rightarrow> string \<Rightarrow> pull_reply) \<Rightarrow> client_env" where
  "demo_client_env submit pull = \<lparr>ce_submit = submit, ce_pull = pull, ce_cancel = (\<lambda>_. True),
     ce_status = (\<lambda>_ _. Inl ''unreachable''), ce_prepare = (\<lambda>_ _. None), ce_size = (\<lambda>_. 1000),
     ce_fetch = (\<lambda>_ r. Inr (pr_value r)), ce_missing = (\<lambda>_. []), ce_now = (\<lambda>n. of_nat n), ce_members = (\<lambda>_ m. m)\<rparr>"

definition demo_call :: imap_call where
  "demo_call = \<lparr>ic_method = ''run'', ic_strategy = ''round_robin'', ic_max_in_flight = Some 3, ic_receive_batch = 1, ic_result_timeout = 10,
     ic_raise_on_error = True, ic_max_infra_retries = 1\<rparr>"

end
