(* ===== verification/ClientRounds.thy ===== *)
theory ClientRounds
  imports ClientDelivery ClientDemo
begin

text \<open>
  Every round of \<open>imap_unordered\<close> keeps the account, hence the call yields every index at most once, and
  exactly once when it ends normally.
\<close>

section \<open>The rounds\<close>

definition all_delivered :: "pyval list \<Rightarrow> imap \<Rightarrow> bool" where
  "all_delivered P im \<longleftrightarrow> tasks_ok (im_client im) \<and> cl_pending (im_client im) = [] \<and> indices (im_out im) = mset (map int [0..<length P])"

definition sound :: "pyval list \<Rightarrow> imap \<times> imap_outcome \<Rightarrow> bool" where
  "sound P res \<longleftrightarrow> (case snd res of
     Going \<Rightarrow> fit P {#} (fst res) \<and> im_completed (fst res) = []
   | Finished \<Rightarrow> all_delivered P (fst res)
   | Stopped e \<Rightarrow> \<exists>y. fit P y (fst res))"

lemma sound_if: "sound P a \<Longrightarrow> sound P b \<Longrightarrow> sound P (if c then a else b)"
  by simp

lemma no_tasks: "tasks_ok cl \<Longrightarrow> cl_pending cl = [] \<longleftrightarrow> cl_replay cl = []"
proof -
  assume "tasks_ok cl"
  then have "set (cl_pending cl) = dom (map_of (cl_replay cl))" by (simp add: tasks_ok_def)
  then show ?thesis by (metis dom_eq_empty_conv empty_set map_of_eq_empty_iff set_empty)
qed

lemma read_all: "buffer_ok P b \<Longrightarrow> pb_exhausted b \<Longrightarrow> pb_retry b = [] \<Longrightarrow> todo P b = {#}"
  by (auto simp: buffer_ok_def todo_def)

lemma finished_all:
  assumes "fit P {#} im" "im_completed im = []" "im_ready im = []" "buffer_done im" "cl_pending (im_client im) = []"
  shows "all_delivered P im"
proof -
  have ok: "tasks_ok (im_client im)" "buffer_ok P (im_buffer im)" "account P {#} im" using assms(1) by (simp_all add: fit_def index_books_def)
  have "out_indices (im_client im) = {#}" using no_tasks [OF ok(1)] assms(5) by (simp add: out_indices_def)
  then show ?thesis using ok assms read_all [OF ok(2)] by (simp add: all_delivered_def account_def buffer_done_def)
qed

lemma idle_sound:
  assumes "whole_submissions env" "distinct (ia_nodes args)" "fit P {#} im" "im_completed im = []" "im_ready im = []" "cl_pending (im_client im) = []"
  shows "sound P (idle_round env args im)"
proof -
  let ?w = "window_of im"
  obtain im1 res where f: "fill_imap_from_quota env args ?w (im\<lparr>im_window := ?w\<rparr>) = (im1, res)" by (rule prod.exhaust)
  note F = filled [OF assms(1,2) fit_still [OF still_ops(6) assms(3)] f]
  show ?thesis
  proof (cases res)
    case (Some e)
    then show ?thesis using F f by (simp add: idle_round_def Let_def sound_def)
  next
    case None
    then have F1: "fit P {#} im1" "im_completed im1 = []" "im_ready im1 = []" "0 \<le> im_submitted im1"
      "im_submitted im1 = 0 \<Longrightarrow> cl_replay (im_client im1) = cl_replay (im_client im)"
      using F assms(4,5) by (simp_all add: filling_def)
    have eq: "idle_round env args im =
       (if 0 < im_submitted im1 then (extend_deadline env args im1, Going)
        else if pb_retry (im_buffer im1) = [] \<and> \<not> pb_exhausted (im_buffer im1)
        then (case next_payload (im_buffer im1) of
            (b, None) \<Rightarrow> (im1\<lparr>im_buffer := b\<rparr>, Going) | (b, Some x) \<Rightarrow> (im1\<lparr>im_buffer := requeue_front [x] b\<rparr>, could_not_submit))
        else if pb_retry (im_buffer im1) \<noteq> [] \<or> \<not> pb_exhausted (im_buffer im1) then (im1, could_not_submit)
        else (im1, Finished))"
      using f None by (simp add: idle_round_def Let_def)
    have buf: "buffer_ok P (im_buffer im1)" using F1(1) by (simp add: fit_def index_books_def)
    have stop: "\<exists>y. fit P y im1" using F1(1) by blast
    show ?thesis
    proof (cases "0 < im_submitted im1")
      case True
      then show ?thesis using F1(1,2) fit_still [OF still_ops(12)] eq by (simp add: sound_def extend_deadline_def)
    next
      case idle: False
      show ?thesis
      proof (cases "pb_retry (im_buffer im1) = [] \<and> \<not> pb_exhausted (im_buffer im1)")
        case True
        obtain b n where n: "next_payload (im_buffer im1) = (b, n)" by (rule prod.exhaust)
        have again: "fit P {#} (im1\<lparr>im_buffer := b'\<rparr>)" if "buffer_ok P b'" "todo P b' = todo P (im_buffer im1)" for b'
          using F1(1) that by (simp add: fit_def index_books_def replays_ok_def account_def)
        show ?thesis
        proof (cases n)
          case None
          then show ?thesis using eq idle True n again next_none [OF buf n [unfolded None]] F1(2) by (simp add: sound_def)
        next
          case (Some x)
          obtain i p where x: "x = (i, p)" by (rule prod.exhaust)
          note N = next_some [OF buf n [unfolded Some x]]
          have "fit P {#} (im1\<lparr>im_buffer := requeue_front [x] b\<rparr>)" using again requeue_ok [OF N(1), of "[x]"] N(2,3) x by simp
          then show ?thesis using eq idle True n Some by (auto simp: sound_def could_not_submit_def)
        qed
      next
        case False
        have "cl_replay (im_client im1) = []" using idle F1(4,5) no_tasks [of "im_client im"] assms(3,6) by (simp add: fit_def)
        then have "cl_pending (im_client im1) = []" using F1(1) no_tasks by (simp add: fit_def)
        then have "buffer_done im1 \<Longrightarrow> all_delivered P im1" using finished_all [OF F1(1,2,3)] by blast
        then show ?thesis using eq idle False stop by (auto simp: sound_def could_not_submit_def buffer_done_def)
      qed
    qed
  qed
qed

lemma results_sound:
  assumes "whole_submissions env" "distinct (ia_nodes args)" "fit P {#} im"
  shows "sound P (results_round env args im)"
proof -
  let ?im0 = "(extend_deadline env args im)\<lparr>im_ready := im_ready im @ im_completed im, im_completed := []\<rparr>"
  let ?im1 = "observe_results env (int (length (im_completed im))) ?im0"
  let ?im2 = "?im1\<lparr>im_window := window_of ?im1\<rparr>"
  have "fit P {#} ?im0" using fit_still [OF still_ops(12) assms(3), of env args]
    by (simp add: fit_def index_books_def replays_ok_def account_def extend_deadline_def ac_simps)
  then have f1: "fit P {#} ?im1" using fit_still [OF still_ops(14)] by blast
  have c1: "im_completed ?im1 = []" by (simp add: observe_results_def Let_def split: option.split prod.split)
  obtain im3 res where f: "fill_imap_from_quota env args (max 0 (im_window ?im2 - inflight_total ?im2)) ?im2 = (im3, res)" by (rule prod.exhaust)
  note F = filled [OF assms(1,2) fit_still [OF still_ops(6) f1] f]
  have "sound P (?im1, Going)" using f1 c1 by (simp add: sound_def)
  moreover have "sound P (im3, case res of None \<Rightarrow> Going | Some e \<Rightarrow> Stopped e)"
    using F c1 by (cases res) (simp_all add: sound_def filling_def)
  ultimately show ?thesis using f unfolding results_round_def Let_def by (cases res) simp_all
qed

lemma stalled_taken:
  assumes "fit P x im" "take_stalled reason nodes im = (im', rs)"
  shows "fit P (x + mset (map rp_index rs)) im' \<and> onward im im' \<and> (\<forall>r \<in> set rs. loose P im' r) \<and> im_completed im' = im_completed im"
  using assms
proof (induction nodes arbitrary: x im im' rs)
  case Nil
  then show ?case using onward_still by auto
next
  case (Cons node nodes)
  obtain cl qs orphans where t: "take_pending_replay_records_for_node node (im_client im) = (cl, qs, orphans)" by (rule prod_cases3)
  have "tasks_ok (im_client im)" using Cons.prems(1) by (simp add: fit_def)
  then have "took (im_client im) (cl, qs, orphans)" using took_pending t by metis
  note T = fit_took [OF Cons.prems(1) this]
  let ?im0 = "im\<lparr>im_client := cl\<rparr>"
  let ?im1 = "if qs = [] then ?im0 else note_error node reason (im\<lparr>im_client := cl, im_inflight := dset node 0 (im_inflight im)\<rparr>)"
  have s: "still ?im0 ?im1" by (simp add: still_def note_error_def later_def)
  obtain im2 rest where r: "take_stalled reason nodes ?im1 = (im2, rest)" by (rule prod.exhaust)
  note IH = Cons.IH [OF fit_still [OF s T(1)] r]
  have o: "onward im im2" "onward ?im0 im2" using onward_trans [OF T(2)] onward_trans [OF onward_still [OF s]] IH by blast+
  have "im_completed ?im1 = im_completed im" by (simp add: note_error_def)
  moreover have "\<forall>r \<in> set (qs @ rest). loose P im2 r" using IH T(3) loose_onward [OF _ o(2)] by auto
  moreover have "im' = im2" "rs = qs @ rest" using Cons.prems(2) t r by simp_all
  ultimately show ?case using IH o(1) by (simp add: ac_simps)
qed

lemma timeout_sound:
  assumes "whole_submissions env" "fit P {#} im" "im_completed im = []"
  shows "sound P (timeout_round env args im)"
proof -
  let ?im0 = "halve_window env im"
  let ?reason = "''imap_unordered did not receive results before timeout''"
  have f0: "fit P {#} ?im0" "im_completed ?im0 = []" using fit_still [OF still_ops(13) assms(2)] assms(3) still_ops(13) [of im env] by (simp_all add: still_def)
  have stop: "sound P (?im0, timed_out)" using f0 by (auto simp: sound_def timed_out_def)
  have go: "sound P (case take_stalled ?reason nodes ?im0 of (im1, records) \<Rightarrow>
      if records = [] then (im1, timed_out) else if list_ex (\<lambda>r. 1 \<le> rp_timeout_retries r) records then (im1, timed_out)
      else let im2 = retry_timeout_replay_records_evenly env ?reason targets records (im1\<lparr>im_completed := []\<rparr>);
               im3 = im2\<lparr>im_ready := im_ready im2 @ im_completed im2, im_completed := []\<rparr>
           in (extend_deadline env args im3, Going))" for nodes targets
  proof -
    obtain im1 rs where t: "take_stalled ?reason nodes ?im0 = (im1, rs)" by (rule prod.exhaust)
    note T = stalled_taken [OF f0(1) t]
    have late: "sound P (im1, timed_out)" using T by (auto simp: sound_def timed_out_def)
    let ?im2 = "retry_timeout_replay_records_evenly env ?reason targets rs (im1\<lparr>im_completed := []\<rparr>)"
    let ?im3 = "?im2\<lparr>im_ready := im_ready ?im2 @ im_completed ?im2, im_completed := []\<rparr>"
    have "still im1 (im1\<lparr>im_completed := []\<rparr>)" using T f0(2) by (simp add: still_def later_def)
    then have "fit P {#} ?im2" using retried_evenly [OF assms(1)] fit_still loose_onward onward_still T by blast
    then have "fit P {#} ?im3" by (simp add: fit_def index_books_def replays_ok_def account_def ac_simps)
    note fit_still [OF still_ops(12) this, of env args]
    moreover
    have "im_completed (extend_deadline env args ?im3) = []" by (simp add: extend_deadline_def)
    ultimately have "sound P (extend_deadline env args ?im3, Going)" unfolding sound_def snd_conv fst_conv imap_outcome.case by blast
    then show ?thesis using t late by (simp add: Let_def)
  qed
  show ?thesis unfolding timeout_round_def Let_def by (rule sound_if [OF go [unfolded Let_def] stop])
qed

lemma poll_sound:
  assumes "whole_submissions env" "distinct (ia_nodes args)" "fit P {#} im" "im_completed im = []"
  shows "sound P (poll_round env args im)"
proof -
  let ?im0 = "im\<lparr>im_start := (im_start im + 1) mod length (ia_nodes args)\<rparr>"
  let ?im1 = "poll_imap_results_once env args (rotate (im_start im) (ia_nodes args)) ?im0"
  have "fit P {#} ?im0" using fit_still [OF still_ops(10) assms(3)] .
  then have f: "fit P {#} ?im1" using poll_fit [OF assms(1)] assms(4) by simp
  show ?thesis
  proof (cases "im_completed ?im1 = []")
    case True
    have "sound P (?im1, Going)" using f True by (simp add: sound_def)
    then show ?thesis using timeout_sound [OF assms(1) f True] True by (simp add: poll_round_def Let_def)
  next
    case False
    then show ?thesis using results_sound [OF assms(1,2) f] by (simp add: poll_round_def Let_def)
  qed
qed

lemma round_sound:
  assumes "whole_submissions env" "distinct (ia_nodes args)" "fit P {#} im" "im_completed im = []"
  shows "sound P (imap_round env args im)"
proof (cases "im_ready im = []")
  case False
  obtain im' res where y: "yield_ready env args (ia_receive args) im = (im', res)" by (rule prod.exhaust)
  show ?thesis using yield_fit [OF assms(3) y] False y assms(4) by (simp add: imap_round_def sound_def split: imap_outcome.splits)
next
  case True
  have "buffer_done im \<Longrightarrow> cl_pending (im_client im) = [] \<Longrightarrow> sound P (im, Finished)"
    using finished_all [OF assms(3,4) True] by (simp add: sound_def)
  then show ?thesis using True idle_sound [OF assms True] poll_sound [OF assms] by (simp add: imap_round_def)
qed

lemma rounds_sound:
  assumes "whole_submissions env" "distinct (ia_nodes args)" "fit P {#} im" "im_completed im = []"
  shows "sound P (imap_rounds env args fuel im)"
  using assms(3,4)
proof (induction fuel arbitrary: im)
  case 0
  then show ?case by (simp add: sound_def)
next
  case (Suc fuel)
  have m: "still im (meanwhile env im)" unfolding meanwhile_def
    by (rule still_client) (simp add: same_tasks_def remote_call_def upd_members_def)
  then have "im_completed (meanwhile env im) = []" using Suc.prems(2) by (simp add: still_def)
  note R = round_sound [OF assms(1,2) fit_still [OF m Suc.prems(1)] this]
  obtain im1 res where r: "imap_round env args (meanwhile env im) = (im1, res)" by (rule prod.exhaust)
  show ?case
  proof (cases res)
    case Going
    then show ?thesis using Suc.IH [of im1] R r by (simp add: sound_def)
  qed (use R r in simp_all)
qed

section \<open>The call\<close>

lemma first_sound:
  assumes "whole_submissions env" "distinct (ia_nodes args)" "fit P {#} im" "im_completed im = []" "im_ready im = []"
  shows "sound P (first_fill env args im)"
proof -
  obtain im1 res where f: "fill_imap_from_quota env args (im_window im) im = (im1, res)" by (rule prod.exhaust)
  note F = filled [OF assms(1-3) f]
  show ?thesis
  proof (cases res)
    case (Some e)
    then show ?thesis using F f by (simp add: first_fill_def sound_def)
  next
    case None
    let ?c = "map_option (\<lambda>c. c\<lparr>ac_last_result := Some (client_now env (im_client im1))\<rparr>) (im_controller im1)"
    let ?im2 = "if 0 < im_submitted im1 then im1\<lparr>im_controller := ?c\<rparr> else im1"
    have st: "still im1 ?im2" by simp
    have f2: "fit P {#} ?im2" using fit_still [OF st] F None by simp
    have e2: "im_completed ?im2 = []" "im_ready ?im2 = []" using F None assms(4,5) by (simp_all add: filling_def)
    have "cl_pending (im_client ?im2) = [] \<and> buffer_done ?im2 \<Longrightarrow> all_delivered P ?im2" using finished_all [OF f2 e2] by blast
    then show ?thesis using f None f2 e2 unfolding first_fill_def Let_def by (simp add: sound_def)
  qed
qed

text \<open>Members whose pools are a dict.\<close>

lemma available_members:
  "available_among now method nodes m = (m', ids) \<Longrightarrow> mb_pools m' = mb_pools m \<and> (distinct nodes \<longrightarrow> distinct ids \<and> set ids \<subseteq> set nodes)"
proof (induction nodes arbitrary: m m' ids)
  case (Cons node nodes)
  show ?case
  proof (cases "node \<in> set (mb_active m)")
    case False
    then show ?thesis using Cons by auto
  next
    case True
    obtain m1 ok where a: "pool_candidate_allowed now node m = (m1, ok)" by (rule prod.exhaust)
    obtain m2 rest where r: "available_among now method nodes m1 = (m2, rest)" by (rule prod.exhaust)
    have "mb_pools m1 = mb_pools m" using a by (auto simp: pool_candidate_allowed_def split: prod.splits)
    moreover have "m' = m2" "ids = (if ok \<and> \<not> is_task_method_node_blacklisted method node m1 then node # rest else rest)"
      using Cons.prems True a r by auto
    ultimately show ?thesis using Cons.IH [OF r] by (auto split: if_split_asm)
  qed
qed simp

lemma resolved_pools: "mb_pools (cl_members (fst (resolve_max_in_flight env n cl))) = mb_pools (cl_members cl)"
proof -
  have "mb_pools (cl_members (fst (available_pool_node_ids env cl))) = mb_pools (cl_members cl)"
    using available_members by (simp add: available_pool_node_ids_def split: prod.split)
  then have "mb_pools (cl_members (fst (effective_worker_count env cl))) = mb_pools (cl_members cl)"
    by (simp add: effective_worker_count_def case_prod_unfold)
  then show ?thesis by (simp add: resolve_max_in_flight_def case_prod_unfold split: option.split)
qed

lemma start_fit:
  assumes "tasks_ok cl" "cl_replay cl = []"
  shows "fit P {#} (imap_state P nodes w c d cl)" "im_completed (imap_state P nodes w c d cl) = []" "im_ready (imap_state P nodes w c d cl) = []"
  using assms
  by (simp_all add: imap_state_def fit_def index_books_def replays_ok_def buffer_ok_def new_buffer_def account_def todo_def out_indices_def)

lemma setup_fit:
  assumes "tasks_ok cl" "cl_replay cl = []" "dwf (mb_pools (cl_members cl))" "imap_setup env call P cl = (cl', Inr (args, im))"
  shows "fit P {#} im" "im_completed im = []" "im_ready im = []" "distinct (ia_nodes args)" "im_out im = []"
proof -
  obtain cl1 w where r: "resolve_max_in_flight env (ic_max_in_flight call) cl = (cl1, w)" by (rule prod.exhaust)
  obtain cl2 nodes where a: "available_pool_node_ids env cl1 = (cl2, nodes)" by (rule prod.exhaust)
  obtain cl3 workers where e: "effective_worker_count env cl2 = (cl3, workers)" by (rule prod.exhaust)
  have s: "same_tasks cl cl1" "same_tasks cl1 cl2" "same_tasks cl2 cl3"
    using same_tasks_plans(4) r same_tasks_ops(9) a same_tasks_plans(1) e by (metis fst_conv)+
  have s2: "same_tasks cl cl2" "same_tasks cl cl3" using same_tasks_trans s by blast+
  have "cl_replay cl2 = []" "cl_replay cl3 = []" using s2 assms(2) by (simp_all add: same_tasks_def)
  then have F: "fit P {#} (imap_state P ns x c d cl2)" "fit P {#} (imap_state P ns x c d cl3)" for ns x c d
    using start_fit(1) tasks_ok_same [OF s2(1) assms(1)] tasks_ok_same [OF s2(2) assms(1)] by blast+
  have "dwf (mb_pools (cl_members cl1))" using resolved_pools [of env "ic_max_in_flight call" cl] r assms(3) by simp
  then have "distinct nodes" using a available_members
    by (auto simp: available_pool_node_ids_def dwf_def dkeys_def split: prod.splits)
  moreover have "((\<exists>x c d. im = imap_state P nodes x c d cl2) \<or> (\<exists>x c d. im = imap_state P nodes x c d cl3)) \<and> ia_nodes args = nodes"
    using assms(4) r a e unfolding imap_setup_def Let_def by (fastforce split: option.splits if_splits)
  ultimately show "fit P {#} im" "im_completed im = []" "im_ready im = []" "distinct (ia_nodes args)" "im_out im = []"
    using F by (auto simp: imap_state_def)
qed

lemma exclusive_entry:
  assumes "enter_exclusive_mode mode thread True cl = (cl', None)" "cl_exclusive cl = None"
  shows "same_tasks cl cl'" "cl_pending cl = []" "cl_members cl' = cl_members cl"
  using assms by (auto simp: enter_exclusive_mode_def same_tasks_def split: if_splits)

lemma exclusive_exit: "same_tasks cl (exit_exclusive_mode mode thread cl)"
  by (simp add: exit_exclusive_mode_def same_tasks_def split: option.split prod.split)

lemma fit_out: "fit P x im \<Longrightarrow> indices (im_out im) \<subseteq># mset (map int [0..<length P])"
proof -
  assume "fit P x im"
  then have "mset (map int [0..<length P]) =
      indices (im_out im) + (todo P (im_buffer im) + out_indices (im_client im) + indices (im_completed im) + indices (im_ready im) + x)"
    by (simp add: fit_def index_books_def account_def ac_simps del: mset_map mset_upt)
  then show ?thesis by (metis mset_subset_eq_add_left)
qed

lemma call_ends:
  assumes "\<not> cl_closed cl" "enter_exclusive_mode ''imap_unordered'' thread True cl = (cl1, None)"
    and "imap_setup env call P cl1 = (cl2, Inr (args, im))" "first_fill env args im = (im1, res1)"
    and "(if res1 = Going then imap_rounds env args fuel im1 else (im1, res1)) = (im2, res2)"
  shows "imap_unordered env fuel thread call P cl =
    (if res2 = Going then im_client im2 else exit_exclusive_mode ''imap_unordered'' thread (im_client im2), im_out im2, res2)"
  using assms unfolding imap_unordered_def Let_def by (cases res1; cases res2) auto

text \<open>What a call comes to.\<close>

lemma call_sound:
  assumes "whole_submissions env" "tasks_ok cl" "dwf (mb_pools (cl_members cl))" "cl_exclusive cl = None"
    and "imap_unordered env fuel thread call P cl = (cl', items, res)"
  shows "indices items \<subseteq># mset (map int [0..<length P])"
    and "res = Finished \<Longrightarrow> indices items = mset (map int [0..<length P]) \<and> tasks_ok cl' \<and> cl_pending cl' = []"
proof -
  let ?leave = "exit_exclusive_mode ''imap_unordered'' thread"
  have "indices items \<subseteq># mset (map int [0..<length P]) \<and>
    (res = Finished \<longrightarrow> indices items = mset (map int [0..<length P]) \<and> tasks_ok cl' \<and> cl_pending cl' = [])" (is ?goal)
  proof (cases "cl_closed cl \<or> snd (enter_exclusive_mode ''imap_unordered'' thread True cl) \<noteq> None")
    case True
    then show ?thesis using assms(5) by (auto simp: imap_unordered_def split: if_splits prod.splits option.splits)
  next
    case False
    then obtain cl1 where e: "enter_exclusive_mode ''imap_unordered'' thread True cl = (cl1, None)" by (metis prod.collapse)
    note E = exclusive_entry [OF e assms(4)]
    have ok: "tasks_ok cl1" "cl_replay cl1 = []" "dwf (mb_pools (cl_members cl1))"
      using tasks_ok_same [OF E(1) assms(2)] no_tasks [OF assms(2)] E assms(3) by (simp_all add: same_tasks_def)
    obtain cl2 st where su: "imap_setup env call P cl1 = (cl2, st)" by (rule prod.exhaust)
    show ?thesis
    proof (cases st)
      case (Inl e)
      then show ?thesis using assms(5) False e su by (auto simp: imap_unordered_def Let_def)
    next
      case (Inr ai)
      obtain args im where ai: "ai = (args, im)" by (rule prod.exhaust)
      note F = setup_fit [OF ok su [unfolded Inr ai]]
      obtain im1 res1 where f: "first_fill env args im = (im1, res1)" by (rule prod.exhaust)
      have s1: "sound P (im1, res1)" using first_sound [OF assms(1) F(4,1,2,3)] f by metis
      obtain im2 res2 where r: "(if res1 = Going then imap_rounds env args fuel im1 else (im1, res1)) = (im2, res2)" by (rule prod.exhaust)
      have s2: "sound P (im2, res2)"
      proof (cases "res1 = Going")
        case True
        then have "fit P {#} im1" "im_completed im1 = []" "imap_rounds env args fuel im1 = (im2, res2)" using s1 r by (simp_all add: sound_def)
        then show ?thesis using rounds_sound [OF assms(1) F(4), of P im1 fuel] by metis
      qed (use s1 r in simp)
      have res: "items = im_out im2 \<and> res = res2 \<and> same_tasks (im_client im2) cl'"
        using call_ends [OF _ e su [unfolded Inr ai] f r] False assms(5) exclusive_exit by (auto split: if_splits)
      have "indices (im_out im2) \<subseteq># mset (map int [0..<length P])"
        using s2 fit_out by (cases res2) (auto simp: sound_def all_delivered_def)
      moreover have "res2 = Finished \<Longrightarrow> all_delivered P im2" using s2 by (simp add: sound_def)
      ultimately show ?thesis using res tasks_ok_same [of "im_client im2" cl'] by (auto simp: all_delivered_def same_tasks_def)
    qed
  qed
  then show "indices items \<subseteq># mset (map int [0..<length P])"
    "res = Finished \<Longrightarrow> indices items = mset (map int [0..<length P]) \<and> tasks_ok cl' \<and> cl_pending cl' = []" by blast+
qed

end
