(* ===== verification/ClientGuarantees.thy ===== *)
theory ClientGuarantees
  imports ClientRounds
begin

text \<open>
  What a caller of \<open>imap_unordered\<close> is promised, when the promise holds, and two ways of breaking it: a
  submission that fails after its first batch, and a second call nested in the first.
\<close>

section \<open>Delivery\<close>

definition once_env :: client_env where
  "once_env = demo_client_env (\<lambda>_ _ _. SubmitAccepts (\<lambda>_. True))
     (\<lambda>n node. PullReturns (map demo_result (if node = ''n1'' then [''job-task-0001'', ''job-task-0003''] else [''job-task-0002''])))"

lemma once_whole: "whole_submissions once_env"
  by (simp add: whole_submissions_def once_env_def demo_client_env_def)

lemma demo_clean: "tasks_ok (demo_client n)" "dwf (mb_pools (cl_members (demo_client n)))" "cl_exclusive (demo_client n) = None"
  by (simp_all add: demo_client_def demo_members_def tasks_ok_def dwf_def)

lemma once_run: "case imap_unordered once_env 9 7 demo_call [PInt 5, PInt 6, PInt 7] (demo_client 0) of (cl, items, res) \<Rightarrow>
    map it_index items = [0, 2, 1] \<and> res = Finished"
  by code_simp

text \<open>
  C1: a call of \<open>imap_unordered\<close> that ends normally has yielded one item for every payload, whatever
  the nodes and the keepalive thread did meanwhile: results lost, late or repeated, refusals, lost
  nodes, timeouts and resubmissions included. It leaves no task behind, so that the next call starts
  from a clean session. The session must be clean at the start, and a submission that raises must
  not have reached its node.
\<close>

theorem imap_yields_each_payload_once:
  assumes "whole_submissions env" "tasks_ok cl" "dwf (mb_pools (cl_members cl))" "cl_exclusive cl = None"
    and "imap_unordered env fuel thread call payloads cl = (cl', items, Finished)"
  shows "mset (map it_index items) = mset (map int [0..<length payloads]) \<and> tasks_ok cl' \<and> cl_pending cl' = []"
  using call_sound(2) [OF assms refl] by (simp add: indices_def)

theorem imap_yields_each_payload_once_witness:
  "let (cl, items, res) = imap_unordered once_env 9 7 demo_call [PInt 5, PInt 6, PInt 7] (demo_client 0)
   in mset (map it_index items) = {#0, 1, 2#} \<and> cl_pending cl = []"
proof -
  obtain cl items res where r: "imap_unordered once_env 9 7 demo_call [PInt 5, PInt 6, PInt 7] (demo_client 0) = (cl, items, res)" by (rule prod_cases3)
  then have "res = Finished" using once_run by simp
  from imap_yields_each_payload_once [OF once_whole demo_clean r [unfolded this]] show ?thesis unfolding r by simp
qed



section \<open>Partial submissions\<close>

text \<open>
  The first node splits its submissions; from the fifth call on a second batch fails. The nodes
  return the results of the tasks they were given.
\<close>

definition partial_env :: client_env where
  "partial_env = demo_client_env
     (\<lambda>n k node. if 4 < n \<and> 0 < k then SubmitFails ''connection reset'' else SubmitAccepts (\<lambda>_. True))
     (\<lambda>n node. PullReturns (map demo_result
       (if node = ''n1'' then (if n < 8 then [''job-task-0001'', ''job-task-0003''] else [''job-task-0008''])
        else if n < 8 then [''job-task-0002'', ''job-task-0004'']
        else if n < 14 then [''job-task-0006'', ''job-task-0007''] else [''job-task-0011''])))"


section \<open>Nested calls\<close>

definition nested_env :: client_env where
  "nested_env = demo_client_env (\<lambda>_ _ _. SubmitAccepts (\<lambda>_. True))
     (\<lambda>n node. PullReturns (map demo_result (if node = ''n1'' then [''job-task-0001''] else [''job-task-0002''])))"

text \<open>
  a second call in the same thread, while the first has tasks out, is admitted: the check for a
  clean session is skipped when the thread already holds the session. It takes the results of the
  first call and yields them as its own, with the index -1.
\<close>

theorem nested_call_takes_foreign_results:
  "case imap_unordered nested_env 0 7 demo_call [PInt 0, PInt 1] (demo_client 0) of
   (cl, items, outcome) \<Rightarrow> items = [] \<and> outcome = Going \<and>
     (case imap_unordered nested_env 4 7 demo_call [PInt 10] cl of
      (cl', items', outcome') \<Rightarrow> map it_index items' = [- 1, - 1] \<and> map it_task_id items' = [''job-task-0001'', ''job-task-0002''])"
  by code_simp

end
