(* ===== verification/ClientCollect.thy ===== *)
theory ClientCollect
  imports ClientDemo
begin

text \<open>
  Collecting the results of submitted tasks (execution/task_pool.py, \<open>collect_results\<close> and
  \<open>_iter_raw_results\<close>).
\<close>

text \<open>
  Without a maximum the generator compares what it has yielded with the number of tasks still
  pending, which shrinks with every result.
\<close>

lemma collecting_ends_halfway:
  assumes "cl_pending cl \<noteq> []" "length (cl_pending cl) \<le> length out" "client_now env cl < deadline"
  shows "iter_raw_results env (Suc fuel) deadline None ids limit turn cl out = Some (cl, out)"
  using assms by (simp add: raw_round_def)

definition collect_env :: client_env where
  "collect_env = demo_client_env (\<lambda>_ _ _. SubmitAccepts (\<lambda>_. True))
     (\<lambda>n node. PullReturns (if node = ''n1'' then [demo_result ''job-task-0001''] else if n < 4 then [] else [demo_result ''job-task-0002'']))"


end
