(* ===== verification/Keepalive.thy ===== *)
theory Keepalive
  imports ClientPool
begin

text \<open>
  The keepalive of an owner's session (execution/base.py, \<open>ExecutionSessionBase\<close>) with the hooks of a
  task pool session (execution/task_pool.py): the replicas that are active, on retry probe, terminal
  or blacklisted, the heartbeats under way, and the compensation of lost replicas. Heartbeats run in
  threads of their own; when one has started, has answered or can be cancelled is the environment's.
  A reply changes the handle when it is collected. A method reads the clock once. Sets of nodes are
  lists; environment variables are left unset. A reported method failure is the text of its reason.
\<close>

section \<open>State\<close>

datatype heartbeat_error_kind = HeartbeatTransient | HeartbeatTerminal | HeartbeatUnknown

text \<open>An exception of a heartbeat, its representation, and whether it is a \<open>TimeoutError\<close>.\<close>

record heartbeat_error =
  he_failure :: failure
  he_repr :: string
  he_timeout :: bool

text \<open>What the node said: nothing of interest, its living workers, or the state of the resource.\<close>

datatype heartbeat_reply = PlainReply | AliveReply int | ResourceReply int "(string, string) dict" string string

datatype heartbeat_outcome = Beat heartbeat_reply | BeatFails heartbeat_error

record heartbeat_pending =
  hp_handle :: nat
  hp_call :: nat
  hp_submitted :: instant
  hp_reported :: instant

text \<open>
  The heartbeat calls, by number: when each started, its answer, whether it can be cancelled, whether
  a global slot was free; the module a message finds missing (a regular expression); \<open>.3f\<close>.
\<close>

record keepalive_env =
  ke_started :: "nat \<Rightarrow> instant \<Rightarrow> instant"
  ke_answer :: "nat \<Rightarrow> instant \<Rightarrow> heartbeat_outcome option"
  ke_cancels :: "nat \<Rightarrow> instant \<Rightarrow> bool"
  ke_slot :: "nat \<Rightarrow> bool"
  ke_missing :: "string \<Rightarrow> string"
  ke_fixed3 :: "rat \<Rightarrow> string"

record keepalive =
  ka_members :: members
  ka_method :: string
  ka_sched_disabled :: "string list"
  ka_probe_at :: "(string, instant) dict"
  ka_zero_start :: "(string, instant) dict"
  ka_zero_last :: "(string, instant) dict"
  ka_disc_last :: "(string, instant) dict"
  ka_counts :: "(string, int) dict"
  ka_pending :: "(string, heartbeat_pending) dict"
  ka_stale :: "(string, heartbeat_pending) dict"
  ka_cursor :: nat
  ka_calls :: nat
  ka_failed :: bool
  ka_stopped :: bool
  ka_retry_forever :: bool
  ka_deploying :: bool
  ka_spec :: "int option"
  ka_last_attempt :: instant

definition upd_ka :: "(members \<Rightarrow> members) \<Rightarrow> keepalive \<Rightarrow> keepalive" where
  "upd_ka f ka = ka\<lparr>ka_members := f (ka_members ka)\<rparr>"

definition DISCONNECT_SEC :: rat where
  "DISCONNECT_SEC = 100"

definition BLACKLIST_WINDOW_SEC :: rat where
  "BLACKLIST_WINDOW_SEC = 3600"

section \<open>The sets of replicas\<close>

definition add_active_replica :: "string \<Rightarrow> keepalive \<Rightarrow> keepalive" where
  "add_active_replica node = upd_ka (\<lambda>m. m\<lparr>mb_terminal := removeAll node (mb_terminal m), mb_active := List.insert node (mb_active m)\<rparr>)"

definition discard_active_replica :: "string \<Rightarrow> keepalive \<Rightarrow> keepalive" where
  "discard_active_replica node = upd_ka (\<lambda>m. m\<lparr>mb_active := removeAll node (mb_active m)\<rparr>)"

definition mark_terminal_replica :: "string \<Rightarrow> keepalive \<Rightarrow> keepalive" where
  "mark_terminal_replica node = upd_ka (\<lambda>m. m\<lparr>mb_terminal := List.insert node (mb_terminal m)\<rparr>)"

definition discard_terminal_replica :: "string \<Rightarrow> keepalive \<Rightarrow> keepalive" where
  "discard_terminal_replica node = upd_ka (\<lambda>m. m\<lparr>mb_terminal := removeAll node (mb_terminal m)\<rparr>)"

definition mark_retry_probe_replica :: "instant \<Rightarrow> string \<Rightarrow> keepalive \<Rightarrow> keepalive" where
  "mark_retry_probe_replica now node ka =
    (upd_ka (\<lambda>m. m\<lparr>mb_probe := List.insert node (mb_probe m)\<rparr>) ka)\<lparr>ka_probe_at := dset node now (ka_probe_at ka)\<rparr>"

definition discard_retry_probe_replica :: "string \<Rightarrow> keepalive \<Rightarrow> keepalive" where
  "discard_retry_probe_replica node ka =
    (upd_ka (\<lambda>m. m\<lparr>mb_probe := removeAll node (mb_probe m)\<rparr>) ka)\<lparr>ka_probe_at := dpop node (ka_probe_at ka)\<rparr>"

definition is_terminal_replica :: "string \<Rightarrow> keepalive \<Rightarrow> bool" where
  "is_terminal_replica node ka \<longleftrightarrow> node \<in> set (mb_terminal (ka_members ka))"

definition is_current_replica :: "string \<Rightarrow> nat \<Rightarrow> keepalive \<Rightarrow> bool" where
  "is_current_replica node h ka \<longleftrightarrow> strip node \<noteq> [] \<and>
    (case dget (mb_pools (ka_members ka)) (strip node) of None \<Rightarrow> False | Some p \<Rightarrow> ph_handle p = h)"

definition can_accept_heartbeat_success :: "string \<Rightarrow> nat \<Rightarrow> bool \<Rightarrow> keepalive \<Rightarrow> bool" where
  "can_accept_heartbeat_success node h allow_new ka \<longleftrightarrow> is_current_replica node h ka \<and>
    (allow_new \<or> strip node \<in> set (mb_active (ka_members ka)) \<or> strip node \<in> set (mb_probe (ka_members ka)))"

section \<open>Hooks of the task pool session\<close>

definition blacklist_owner_node :: "string \<Rightarrow> string \<Rightarrow> keepalive \<Rightarrow> keepalive" where
  "blacklist_owner_node node0 reason0 ka =
    (let node = strip node0; reason = str_or (strip reason0) ''replica unavailable''
     in if node = [] then ka
        else (upd_ka (blacklist_member node reason) ka)
          \<lparr>ka_probe_at := dpop node (ka_probe_at ka), ka_sched_disabled := List.insert node (ka_sched_disabled ka)\<rparr>)"

definition blacklist_replica_node :: "string \<Rightarrow> string \<Rightarrow> keepalive \<Rightarrow> keepalive" where
  "blacklist_replica_node node0 reason0 ka =
    (let node = strip node0
     in if node = [] then ka
        else upd_ka (\<lambda>m. m\<lparr>mb_owner_blacklist := dset node (str_or (strip reason0) ''replica unavailable'') (mb_owner_blacklist m)\<rparr>) ka)"

definition on_method_failures_reported :: "keepalive_env \<Rightarrow> string \<Rightarrow> (string, string) dict \<Rightarrow> keepalive \<Rightarrow> keepalive" where
  "on_method_failures_reported env node0 reported ka =
    (let node = strip node0; method = str_or (strip (ka_method ka)) ''run''
     in if node = [] \<or> reported = [] then ka
        else
          let raw = (case dget reported method of Some d \<Rightarrow> d | None \<Rightarrow> hd (dvals reported));
              reason = dependency_failure_reason (ke_missing env) (str_or raw ''dependency runtime error'') method
          in blacklist_owner_node node reason (upd_ka (\<lambda>m. m\<lparr>mb_method_blacklist :=
               dset method (dset node reason (dget_or (mb_method_blacklist m) method [])) (mb_method_blacklist m)\<rparr>) ka))"

section \<open>A heartbeat succeeds\<close>

definition apply_reply :: "heartbeat_reply \<Rightarrow> pool_handle \<Rightarrow> pool_handle" where
  "apply_reply r p0 = (let p = p0\<lparr>ph_failed := False, ph_last_error := []\<rparr> in case r of
     PlainReply \<Rightarrow> p
   | AliveReply n \<Rightarrow> p\<lparr>ph_alive_workers := max 0 n\<rparr>
   | ResourceReply n failures readiness status \<Rightarrow>
       p\<lparr>ph_alive_workers := max 0 n, ph_method_failures := failures, ph_readiness := readiness, ph_status := status\<rparr>)"

definition upd_handle :: "string \<Rightarrow> (pool_handle \<Rightarrow> pool_handle) \<Rightarrow> keepalive \<Rightarrow> keepalive" where
  "upd_handle node f = upd_ka (\<lambda>m. m\<lparr>mb_pools := (case dget (mb_pools m) node of None \<Rightarrow> mb_pools m | Some p \<Rightarrow> dset node (f p) (mb_pools m))\<rparr>)"

definition replica_deployed_ready_for_zero_alive :: "pool_handle \<Rightarrow> bool" where
  "replica_deployed_ready_for_zero_alive p \<longleftrightarrow>
    (let readiness = lower (strip (ph_readiness p)) in (readiness = [] \<or> readiness = ''ready'') \<and> upper (strip (ph_status p)) = ''RUNNING'')"

definition heartbeat_failure_threshold :: "pool_handle \<Rightarrow> int" where
  "heartbeat_failure_threshold p = max 1 (num_or (ph_failure_threshold p) 1)"

text \<open>A replica that is up but has had no living worker for 100 s counts as disconnected.\<close>

definition handle_zero_alive :: "keepalive_env \<Rightarrow> instant \<Rightarrow> string \<Rightarrow> keepalive \<Rightarrow> keepalive \<times> bool" where
  "handle_zero_alive env now node0 ka =
    (let node = strip node0
     in case dget (mb_pools (ka_members ka)) node of
          None \<Rightarrow> (ka, False)
        | Some p \<Rightarrow>
            let started = dget_or (ka_zero_start ka) node 0; last = dget_or (ka_zero_last ka) node 0
            in if node = [] then (ka, False)
               else if 0 < ph_alive_workers p \<or> \<not> replica_deployed_ready_for_zero_alive p then (ka\<lparr>ka_zero_start := dpop node (ka_zero_start ka)\<rparr>, False)
               else if started \<le> 0 then (ka\<lparr>ka_zero_start := dset node now (ka_zero_start ka)\<rparr>, False)
               else if max 0 (now - started) < DISCONNECT_SEC then (ka, False)
               else
                 let again = 0 < last \<and> now - last \<le> BLACKLIST_WINDOW_SEC;
                     reason = ''alive_workers=0 for '' @ ke_fixed3 env (now - started) @ ''s; treating replica as disconnected'' @
                       (if again then ''; node_instance blacklisted: repeat zero-alive disconnect within 3600s'' else []);
                     ka1 = ka\<lparr>ka_zero_last := dset node now (ka_zero_last ka)\<rparr>;
                     ka2 = (if again then blacklist_replica_node node ''repeat zero-alive disconnect within 3600s'' ka1 else ka1);
                     ka3 = upd_handle node (\<lambda>p. p\<lparr>ph_failed := True, ph_last_error := reason\<rparr>)
                       (upd_ka (\<lambda>m. m\<lparr>mb_failures := dset node reason (mb_failures m)\<rparr>) ka2);
                     ka4 = ka3\<lparr>ka_counts := dset node (heartbeat_failure_threshold p) (ka_counts ka3), ka_zero_start := dpop node (ka_zero_start ka3)\<rparr>
                 in (mark_terminal_replica node (discard_retry_probe_replica node (discard_active_replica node ka4)), True))"

definition mark_replica_heartbeat_success :: "keepalive_env \<Rightarrow> instant \<Rightarrow> string \<Rightarrow> nat \<Rightarrow> bool \<Rightarrow> keepalive \<Rightarrow> keepalive" where
  "mark_replica_heartbeat_success env now node h allow_new ka =
    (if \<not> can_accept_heartbeat_success node h allow_new ka then ka
     else
       let norm = strip node; was_terminal = is_terminal_replica norm ka;
           reported = (case dget (mb_pools (ka_members ka)) norm of None \<Rightarrow> [] | Some p \<Rightarrow> ph_method_failures p);
           ka1 = on_method_failures_reported env node reported ka
       in if dget (mb_owner_blacklist (ka_members ka1)) norm \<noteq> None then ka1
          else if is_terminal_replica norm ka1 \<and> \<not> (allow_new \<and> was_terminal) then ka1
          else
            let ka2 = discard_retry_probe_replica node (discard_terminal_replica node (ka1\<lparr>ka_counts := dpop node (ka_counts ka1)\<rparr>));
                ka3 = upd_ka (\<lambda>m. m\<lparr>mb_failures := dpop node (mb_failures m)\<rparr>) (upd_handle norm (\<lambda>p. p\<lparr>ph_failed := False, ph_last_error := []\<rparr>) ka2)
            in case handle_zero_alive env now node ka3 of (ka4, gone) \<Rightarrow> if gone then ka4 else add_active_replica node ka4)"

section \<open>A heartbeat fails\<close>

definition record_replica_disconnect_failure :: "instant \<Rightarrow> string \<Rightarrow> nat \<Rightarrow> string \<Rightarrow> keepalive \<Rightarrow> keepalive \<times> bool" where
  "record_replica_disconnect_failure now node0 h err ka =
    (let node = strip node0; last = dget_or (ka_disc_last ka) node 0; ka1 = ka\<lparr>ka_disc_last := dset node now (ka_disc_last ka)\<rparr>
     in if node = [] \<or> \<not> is_current_replica node h ka then (ka, False)
        else if last \<le> 0 \<or> BLACKLIST_WINDOW_SEC < now - last then (ka1, False)
        else
          let reason = ''repeat owner-node disconnect within 3600s: '' @ err; ka2 = blacklist_replica_node node reason ka1;
              ka3 = upd_handle node (\<lambda>p. p\<lparr>ph_failed := True, ph_last_error := reason\<rparr>) (upd_ka (\<lambda>m. m\<lparr>mb_failures := dset node reason (mb_failures m)\<rparr>) ka2)
          in (mark_terminal_replica node (discard_retry_probe_replica node (discard_active_replica node ka3)), True))"

definition mark_replica_heartbeat_failure :: "string \<Rightarrow> nat \<Rightarrow> string \<Rightarrow> keepalive \<Rightarrow> keepalive" where
  "mark_replica_heartbeat_failure node h err ka =
    (if \<not> is_current_replica node h ka then ka
     else
       let ka1 = upd_handle (strip node) (\<lambda>p. p\<lparr>ph_failed := True, ph_last_error := err, ph_status := ''STOPPED''\<rparr>)
             (upd_ka (\<lambda>m. m\<lparr>mb_failures := dset node err (mb_failures m)\<rparr>) ka)
       in discard_active_replica node (ka1\<lparr>ka_zero_start := dpop (strip node) (ka_zero_start ka1)\<rparr>))"

definition mark_replica_heartbeat_probe_failure :: "instant \<Rightarrow> string \<Rightarrow> nat \<Rightarrow> string \<Rightarrow> keepalive \<Rightarrow> keepalive" where
  "mark_replica_heartbeat_probe_failure now node h err ka =
    (if \<not> is_current_replica node h ka then ka
     else
       let ka1 = upd_handle (strip node) (\<lambda>p. p\<lparr>ph_failed := True, ph_last_error := err\<rparr>) (upd_ka (\<lambda>m. m\<lparr>mb_failures := dset node err (mb_failures m)\<rparr>) ka)
       in mark_retry_probe_replica now node (discard_active_replica node (ka1\<lparr>ka_zero_start := dpop (strip node) (ka_zero_start ka1)\<rparr>)))"

definition classify_heartbeat_error :: "heartbeat_error \<Rightarrow> heartbeat_error_kind" where
  "classify_heartbeat_error e =
    (if is_terminal_heartbeat_error (he_failure e) ''task_pool'' then HeartbeatTerminal
     else if he_timeout e \<or> classify_error (he_failure e) [] = TransientNetwork then HeartbeatTransient else HeartbeatUnknown)"

definition threshold_of :: "string \<Rightarrow> keepalive \<Rightarrow> int" where
  "threshold_of node ka = (case dget (mb_pools (ka_members ka)) (strip node) of None \<Rightarrow> 1 | Some p \<Rightarrow> heartbeat_failure_threshold p)"

definition record_heartbeat_failure :: "instant \<Rightarrow> string \<Rightarrow> nat \<Rightarrow> heartbeat_error \<Rightarrow> keepalive \<Rightarrow> keepalive" where
  "record_heartbeat_failure now node h e ka =
    (if \<not> can_accept_heartbeat_success node h False ka then ka
     else
       let n = dget_or (ka_counts ka) node 0 + 1; ka1 = ka\<lparr>ka_counts := dset node n (ka_counts ka)\<rparr>; kind = classify_heartbeat_error e
       in if kind \<noteq> HeartbeatTransient
          then (if threshold_of node ka \<le> n then mark_replica_heartbeat_failure node h (he_repr e) ka1 else ka1)
          else if threshold_of node ka \<le> n
          then (case record_replica_disconnect_failure now node h (he_repr e) ka1 of
             (ka2, True) \<Rightarrow> ka2
           | (ka2, False) \<Rightarrow> mark_retry_probe_replica now node (mark_replica_heartbeat_probe_failure now node h (he_repr e) ka2))
          else mark_retry_probe_replica now node ka1)"

definition record_terminal_heartbeat_failure :: "string \<Rightarrow> nat \<Rightarrow> heartbeat_error \<Rightarrow> keepalive \<Rightarrow> keepalive" where
  "record_terminal_heartbeat_failure node h e ka =
    (if \<not> can_accept_heartbeat_success node h False ka then ka
     else mark_terminal_replica node (mark_replica_heartbeat_failure node h (he_repr e)
       (ka\<lparr>ka_counts := dset node (threshold_of node ka) (ka_counts ka)\<rparr>)))"

definition handle_heartbeat_exception :: "instant \<Rightarrow> string \<Rightarrow> nat \<Rightarrow> heartbeat_error \<Rightarrow> keepalive \<Rightarrow> keepalive" where
  "handle_heartbeat_exception now node h e ka =
    (if classify_heartbeat_error e = HeartbeatTerminal then record_terminal_heartbeat_failure node h e ka else record_heartbeat_failure now node h e ka)"

section \<open>A tick\<close>

definition keepalive_call_timeout :: "pool_handle option \<Rightarrow> rat" where
  "keepalive_call_timeout p =
    (let t = of_int (max 0 (case p of None \<Rightarrow> 0 | Some p \<Rightarrow> ph_heartbeat_timeout p)) in max (1 / 20) (if 0 < t then min 2 t else 2))"

definition keepalive_queue_timeout :: "rat \<Rightarrow> rat" where
  "keepalive_queue_timeout interval = max (1 / 5) (max (1 / 5) (max (1 / 20) interval * 2))"

definition heartbeat_max_workers :: "nat \<Rightarrow> nat" where
  "heartbeat_max_workers n = min (max 2 (min 256 (max 1 n))) (max 1 (256 div 2))"

definition cleanup_stale :: "keepalive_env \<Rightarrow> instant \<Rightarrow> keepalive \<Rightarrow> keepalive" where
  "cleanup_stale env now ka = ka\<lparr>ka_stale := filter (\<lambda>(_, hp). ke_answer env (hp_call hp) now = None) (ka_stale ka)\<rparr>"

definition collect_answer :: "keepalive_env \<Rightarrow> instant \<Rightarrow> string \<Rightarrow> heartbeat_pending \<Rightarrow> heartbeat_outcome \<Rightarrow> keepalive \<Rightarrow> keepalive" where
  "collect_answer env now node hp answer ka = (case answer of
     Beat r \<Rightarrow> mark_replica_heartbeat_success env now node (hp_handle hp) False (upd_handle node (apply_reply r) ka)
   | BeatFails e \<Rightarrow> handle_heartbeat_exception now node (hp_handle hp) e ka)"

definition pending_error :: "keepalive_env \<Rightarrow> rat \<Rightarrow> rat \<Rightarrow> heartbeat_error" where
  "pending_error env queued running =
    (let txt = ''heartbeat pending queued_wait_sec='' @ ke_fixed3 env queued @ '' rpc_running_sec='' @ ke_fixed3 env running;
         shown = ''TimeoutError('' @ [CHR 0x27] @ txt @ [CHR 0x27] @ '')''
     in \<lparr>he_failure = Raised [\<lparr>lk_class = ''TimeoutError'', lk_text = txt, lk_repr = shown, lk_transient = True\<rparr>],
          he_repr = shown, he_timeout = True\<rparr>)"

definition replica_at :: "string \<Rightarrow> keepalive \<Rightarrow> nat option" where
  "replica_at node ka = map_option ph_handle (dget (mb_pools (ka_members ka)) node)"

text \<open>One pending heartbeat: its replica was replaced, it has answered, or it takes too long.\<close>

definition review_pending :: "keepalive_env \<Rightarrow> instant \<Rightarrow> rat \<Rightarrow> string \<times> heartbeat_pending \<Rightarrow> keepalive \<Rightarrow> keepalive" where
  "review_pending env now interval = (\<lambda>(node, hp) ka.
    let gone = ka\<lparr>ka_pending := dpop node (ka_pending ka)\<rparr>; answer = ke_answer env (hp_call hp) now
    in if replica_at node ka \<noteq> Some (hp_handle hp)
       then (if answer \<noteq> None \<or> ke_cancels env (hp_call hp) now then gone else gone\<lparr>ka_stale := dset node hp (ka_stale gone)\<rparr>)
       else case answer of
         Some a \<Rightarrow> collect_answer env now node hp a gone
       | None \<Rightarrow>
           let started = ke_started env (hp_call hp) now; p = dget (mb_pools (ka_members ka)) node;
               elapsed = max 0 (now - (if 0 < started then started else hp_submitted hp));
               limit = (if 0 < started then keepalive_call_timeout p else keepalive_queue_timeout interval)
           in if elapsed < limit \<or> now - hp_reported hp < limit then ka
              else
                let ka1 = record_heartbeat_failure now node (hp_handle hp)
                      (if 0 < started then pending_error env 0 elapsed else pending_error env elapsed 0) ka; ka2 = ka1\<lparr>ka_pending := dpop node (ka_pending ka1)\<rparr>
                in if \<not> ke_cancels env (hp_call hp) now \<and> 0 < started then ka2\<lparr>ka_stale := dset node hp (ka_stale ka2)\<rparr> else ka2)"

text \<open>New heartbeats, while slots are free; the number of nodes looked at moves the cursor.\<close>

fun submit_heartbeats :: "keepalive_env \<Rightarrow> instant \<Rightarrow> (string, pool_handle) dict \<Rightarrow> nat \<Rightarrow> string list \<Rightarrow> keepalive \<Rightarrow> keepalive \<times> nat" where
  "submit_heartbeats env now replicas slots [] ka = (ka, 0)"
| "submit_heartbeats env now replicas slots (node # nodes) ka =
    (if slots = 0 then (ka, 0)
     else if dget (ka_pending ka) node \<noteq> None \<or> dget (ka_stale ka) node \<noteq> None
     then (case submit_heartbeats env now replicas slots nodes ka of (ka1, n) \<Rightarrow> (ka1, n + 1))
     else case dget replicas node of
       None \<Rightarrow> (case submit_heartbeats env now replicas slots nodes (discard_active_replica node ka) of (ka1, n) \<Rightarrow> (ka1, n + 1))
     | Some p \<Rightarrow>
         if \<not> ke_slot env (ka_calls ka) then (ka\<lparr>ka_calls := ka_calls ka + 1\<rparr>, 1)
         else
           let hp = \<lparr>hp_handle = ph_handle p, hp_call = ka_calls ka, hp_submitted = now, hp_reported = now\<rparr>
           in (case submit_heartbeats env now replicas (slots - 1) nodes
                 (ka\<lparr>ka_pending := dset node hp (ka_pending ka), ka_calls := ka_calls ka + 1\<rparr>) of (ka1, n) \<Rightarrow> (ka1, n + 1)))"

text \<open>What has answered by the end of the tick.\<close>

definition collect_done :: "keepalive_env \<Rightarrow> instant \<Rightarrow> string \<times> heartbeat_pending \<Rightarrow> keepalive \<Rightarrow> keepalive" where
  "collect_done env now = (\<lambda>(node, hp) ka. case ke_answer env (hp_call hp) now of
     None \<Rightarrow> ka
   | Some a \<Rightarrow>
       let gone = ka\<lparr>ka_pending := dpop node (ka_pending ka)\<rparr>
       in if replica_at node ka \<noteq> Some (hp_handle hp) then gone else collect_answer env now node hp a gone)"

definition ascending :: "string list \<Rightarrow> string list" where
  "ascending nodes = sort_key (map (of_char :: char \<Rightarrow> nat)) (remdups (filter (\<lambda>node. node \<noteq> []) nodes))"

definition run_heartbeat_tick :: "keepalive_env \<Rightarrow> instant \<Rightarrow> rat \<Rightarrow> string list \<Rightarrow> keepalive \<Rightarrow> keepalive" where
  "run_heartbeat_tick env now interval heartbeat_ids ka =
    (let replicas = mb_pools (ka_members ka); ka1 = cleanup_stale env now ka; ka2 = fold (review_pending env now interval) (ka_pending ka1) ka1;
         busy = length (ka_pending ka2) + length (ka_stale ka2); slots = heartbeat_max_workers (length heartbeat_ids) - busy;
         ids = ascending heartbeat_ids; cursor = (if ids = [] then ka_cursor ka2 else ka_cursor ka2 mod length ids)
     in case submit_heartbeats env now replicas slots (rotate cursor ids) ka2 of
          (ka3, scanned) \<Rightarrow>
            let ka4 = (if ids \<noteq> [] \<and> 0 < scanned then ka3\<lparr>ka_cursor := (cursor + scanned) mod length ids\<rparr> else ka3)
            in cleanup_stale env now (fold (collect_done env now) (ka_pending ka4) ka4))"

definition heartbeat_ids :: "keepalive \<Rightarrow> string list" where
  "heartbeat_ids ka =
    (let m = ka_members ka; others = (if ka_retry_forever ka then dkeys (mb_pools m) else mb_probe m)
     in filter (\<lambda>node. \<not> is_terminal_replica node ka) (remdups (filter (\<lambda>node. node \<noteq> []) (mb_active m) @ others)))"

section \<open>Compensation\<close>

definition compensation_active_replicas :: "keepalive \<Rightarrow> string list" where
  "compensation_active_replicas ka = filter (\<lambda>node. node \<noteq> [] \<and> \<not> is_terminal_replica node ka \<and>
     (case dget (mb_pools (ka_members ka)) node of None \<Rightarrow> False | Some p \<Rightarrow> \<not> ph_failed p \<and> strip (ph_last_error p) = [])) (mb_active (ka_members ka))"

text \<open>Is an attempt due? At most one a minute, one a second while nothing is active.\<close>

definition compensation_due :: "instant \<Rightarrow> keepalive \<Rightarrow> keepalive \<times> bool" where
  "compensation_due now ka = (case ka_spec ka of
     None \<Rightarrow> (ka, False)
   | Some wanted \<Rightarrow>
       let desired = max 0 wanted; n = int (length (remdups (compensation_active_replicas ka)))
       in if ka_deploying ka \<or> desired \<le> 0 \<or> desired \<le> n then (ka, False)
          else if now - ka_last_attempt ka < (if n \<le> 0 then 1 else 60) then (ka, False)
          else (ka\<lparr>ka_last_attempt := now\<rparr>, True))"

text \<open>One round of the loop: a tick, the end of the loop when nothing can recover, the hook.\<close>

definition keepalive_round :: "keepalive_env \<Rightarrow> instant \<Rightarrow> rat \<Rightarrow> keepalive \<Rightarrow> keepalive \<times> bool" where
  "keepalive_round env now interval ka0 =
    (if ka_stopped ka0 then (ka0, False)
     else
       let ka = run_heartbeat_tick env now interval (heartbeat_ids ka0) ka0; m = ka_members ka;
           can_retry = list_ex (\<lambda>node. node \<noteq> [] \<and> \<not> is_terminal_replica node ka \<and> (ka_retry_forever ka \<or> node \<in> set (mb_probe m))) (dkeys (mb_pools m))
       in if filter (\<lambda>node. node \<noteq> []) (mb_active m) \<noteq> [] then compensation_due now ka
          else if ka_deploying ka then (ka, False)
          else if \<not> can_retry \<and> ka_spec ka = None then (ka\<lparr>ka_failed := True, ka_stopped := True\<rparr>, False)
          else compensation_due now ka)"

definition retry_probe_ttl :: "string \<Rightarrow> keepalive \<Rightarrow> rat" where
  "retry_probe_ttl node ka =
    (let t = (case dget (mb_pools (ka_members ka)) node of None \<Rightarrow> 0 | Some p \<Rightarrow> ph_heartbeat_timeout p)
     in max 1 (min 60 (if t \<le> 0 then 30 else of_int t)))"

definition expire_retry_probe_replicas :: "instant \<Rightarrow> keepalive \<Rightarrow> keepalive" where
  "expire_retry_probe_replicas now ka =
    fold (\<lambda>node ka. if node = [] \<or> max 0 (now - dget_or (ka_probe_at ka) node now) < retry_probe_ttl node ka then ka else discard_retry_probe_replica node ka)
      (mb_probe (ka_members ka)) ka"

text \<open>Compensation waits while the only candidates are on retry probe and something is still active.\<close>

definition compensation_deferred_by_retry_probe ::
    "instant \<Rightarrow> string list \<Rightarrow> int \<Rightarrow> string list \<Rightarrow> string list \<Rightarrow> keepalive \<Rightarrow> keepalive \<times> bool" where
  "compensation_deferred_by_retry_probe now active desired current candidates ka0 =
    (let ka = expire_retry_probe_replicas now ka0; probe = filter (\<lambda>node. node \<noteq> []) (mb_probe (ka_members ka))
     in if probe = [] then (ka, False)
        else
          let ka1 = fold discard_retry_probe_replica (filter (\<lambda>node. node \<notin> set current) probe) ka;
              effective = filter (\<lambda>node. node \<in> set current) probe
          in if list_ex (\<lambda>node. node \<noteq> [] \<and> node \<notin> set effective) candidates then (ka1, False)
             else if filter (\<lambda>node. node \<in> set candidates) effective = [] then (ka1, False)
             else (ka1, \<not> (0 < desired \<and> active = [])))"

text \<open>What may be tried again.\<close>

datatype replica_lifecycle = ReplicaActive | FailedRetryable | FailedPermanent | ReplicaTerminal

definition build_replica_recovery_state :: "bool \<Rightarrow> bool \<Rightarrow> bool \<Rightarrow> replica_lifecycle" where
  "build_replica_recovery_state active terminal retryable =
    (if terminal then ReplicaTerminal else if active then ReplicaActive else if retryable then FailedRetryable else FailedPermanent)"

definition replica_error :: "string \<Rightarrow> keepalive \<Rightarrow> string" where
  "replica_error node ka = dget_or (mb_failures (ka_members ka)) node []"

definition recovery_state :: "string \<Rightarrow> keepalive \<Rightarrow> replica_lifecycle" where
  "recovery_state node ka = build_replica_recovery_state (node \<in> set (mb_active (ka_members ka))) (is_terminal_replica node ka)
     (replica_error node ka = [] \<or> is_retryable_compensation_failure (Message (replica_error node ka)) ''task_pool'')"

definition failed_replicas :: "keepalive \<Rightarrow> string list" where
  "failed_replicas ka = filter (\<lambda>node. node \<noteq> [] \<and> recovery_state node ka \<noteq> ReplicaActive)
     (remdups (dkeys (mb_pools (ka_members ka)) @ dkeys (mb_failures (ka_members ka))))"

definition retryable_replica :: "keepalive \<Rightarrow> string \<Rightarrow> bool" where
  "retryable_replica ka node \<longleftrightarrow> recovery_state node ka = FailedRetryable \<or>
     is_retryable_compensation_failure (Message (replica_error node ka)) ''task_pool''"

definition excluded_replicas :: "keepalive \<Rightarrow> string list" where
  "excluded_replicas ka = filter (\<lambda>node. node \<noteq> []) (mb_active (ka_members ka)) @ filter (\<lambda>node. \<not> retryable_replica ka node) (failed_replicas ka)"

definition remove_owner_replica :: "string \<Rightarrow> bool \<Rightarrow> keepalive \<Rightarrow> keepalive" where
  "remove_owner_replica node0 clear ka =
    (let node = strip node0
     in if node = [] then ka
        else
          let ka1 = upd_ka (\<lambda>m. m\<lparr>mb_pools := dpop node (mb_pools m), mb_nodes := dpop node (mb_nodes m), mb_breakers := dpop node (mb_breakers m)\<rparr>) ka;
              ka2 = discard_retry_probe_replica node (discard_active_replica node (ka1\<lparr>ka_sched_disabled := removeAll node (ka_sched_disabled ka1)\<rparr>))
          in if clear then upd_ka (\<lambda>m. m\<lparr>mb_failures := dpop node (mb_failures m)\<rparr>) ka2 else ka2)"

definition prune_stale_owner_replicas :: "string list \<Rightarrow> string list \<Rightarrow> string list \<Rightarrow> keepalive \<Rightarrow> keepalive" where
  "prune_stale_owner_replicas current current_ids active ka =
    fold (\<lambda>key ka.
      let node = strip key; logical = strip (case dget (mb_nodes (ka_members ka)) node of None \<Rightarrow> [] | Some v \<Rightarrow> nv_node_id v)
      in if node = [] \<or> node \<in> set current \<or> node \<in> set active \<or> logical = [] \<or> logical \<notin> set current_ids then ka
         else remove_owner_replica node False ka) (dkeys (mb_pools (ka_members ka))) ka"

definition create_failure_node_block_reason :: "string \<Rightarrow> keepalive \<Rightarrow> string" where
  "create_failure_node_block_reason node ka = (if node = [] then [] else dget_or (mb_owner_blacklist (ka_members ka)) node [])"

text \<open>
  The nodes an attempt creates replicas on, from those the info centre offers. The attempt looks at
  the session when it starts, and again when the offer is there.
\<close>

definition compensation_candidates :: "keepalive \<Rightarrow> (string \<times> node_view) list \<Rightarrow> keepalive \<Rightarrow> (string \<times> node_view) list" where
  "compensation_candidates start offered ka =
    (let active = filter (\<lambda>node. node \<noteq> []) (mb_active (ka_members start));
         ids = filter (\<lambda>i. i \<noteq> []) (map (\<lambda>node. strip (case dget (mb_nodes (ka_members ka)) node of None \<Rightarrow> [] | Some v \<Rightarrow> nv_node_id v)) active)
     in filter (\<lambda>(node, nv). node \<notin> set (excluded_replicas start) \<and> create_failure_node_block_reason node ka = [] \<and>
          strip (nv_node_id nv) \<notin> set ids) offered)"

definition compensation_choice :: "instant \<Rightarrow> keepalive \<Rightarrow> (string \<times> node_view) list \<Rightarrow> keepalive \<Rightarrow> keepalive \<times> (string \<times> node_view) list" where
  "compensation_choice now start offered ka =
    (let desired = (case ka_spec start of None \<Rightarrow> 0 | Some n \<Rightarrow> max 0 n); active = remdups (filter (\<lambda>node. node \<noteq> []) (mb_active (ka_members start)))
     in if desired \<le> 0 \<or> desired \<le> int (length active) then (ka, [])
        else
          let candidates = compensation_candidates start offered ka;
              current = filter (\<lambda>node. node \<noteq> []) (map fst offered); current_ids = filter (\<lambda>i. i \<noteq> []) (map (\<lambda>(_, nv). strip (nv_node_id nv)) offered);
              ka1 = prune_stale_owner_replicas current current_ids active ka;
              missing = nat (desired - int (length active))
          in (case compensation_deferred_by_retry_probe now active desired current (map fst candidates) ka1 of
               (ka2, deferred) \<Rightarrow> (ka2, if deferred then [] else take missing candidates)))"

fun category_value :: "error_category \<Rightarrow> string" where
  "category_value UnknownError = ''unknown''"
| "category_value ServiceTerminal = ''service_terminal''"
| "category_value TaskPoolTerminal = ''task_pool_terminal''"
| "category_value OldInstanceIdentityLost = ''old_instance_identity_lost''"
| "category_value IdentityMismatch = ''identity_mismatch''"
| "category_value HeartbeatCategory = ''heartbeat''"
| "category_value TransientNetwork = ''transient_network''"
| "category_value PermanentArtifact = ''permanent_artifact''"
| "category_value ImportError = ''import_error''"

definition format_replica_create_failure :: "keepalive_env \<Rightarrow> string \<Rightarrow> string \<Rightarrow> string" where
  "format_replica_create_failure env message kind =
    (let txt = strip message; module = ke_missing env txt
     in ''category='' @ category_value (classify_error (Message txt) kind) @
        (if module = [] then [] else '' missing_module='' @ module) @ (if txt = [] then [] else '' error='' @ txt))"

definition is_permanent_replica_create_failure :: "string \<Rightarrow> string \<Rightarrow> bool" where
  "is_permanent_replica_create_failure message kind \<longleftrightarrow> classify_error (Message message) kind \<in> {ImportError, PermanentArtifact}"

definition mark_create_failure_node_blacklisted :: "keepalive_env \<Rightarrow> string \<Rightarrow> string \<Rightarrow> keepalive \<Rightarrow> keepalive" where
  "mark_create_failure_node_blacklisted env node message ka =
    (if \<not> is_permanent_replica_create_failure message ''task_pool'' \<or> node = [] then ka
     else upd_ka (\<lambda>m. m\<lparr>mb_owner_blacklist := dset node (format_replica_create_failure env message ''task_pool'') (mb_owner_blacklist m)\<rparr>) ka)"

definition creation_failed :: "keepalive_env \<Rightarrow> string \<Rightarrow> string \<Rightarrow> keepalive \<Rightarrow> keepalive" where
  "creation_failed env node message ka =
    mark_create_failure_node_blacklisted env node message (upd_ka (\<lambda>m. m\<lparr>mb_failures := dset node message (mb_failures m)\<rparr>) ka)"

text \<open>A replica made by the compensation is installed once its first heartbeat has succeeded.\<close>

datatype installation = Installed | Extra | Duplicate | FirstHeartbeatFailed

definition install_replica ::
    "keepalive_env \<Rightarrow> instant \<Rightarrow> int \<Rightarrow> string list \<Rightarrow> string list \<Rightarrow> heartbeat_outcome \<Rightarrow> string \<Rightarrow> node_view \<Rightarrow> pool_handle \<Rightarrow> keepalive \<Rightarrow>
      keepalive \<times> installation" where
  "install_replica env now desired active retryable first node nv p ka =
    (let m = ka_members ka
     in if desired \<le> int (length (remdups (filter (\<lambda>node. node \<noteq> []) (mb_active m)))) then (ka, Extra)
        else if dget (mb_pools m) node \<noteq> None \<and> (node \<in> set active \<or> node \<notin> set retryable) then (ka, Duplicate)
        else
          let ka1 = upd_ka (\<lambda>m. m\<lparr>mb_pools := dpop node (mb_pools m)\<rparr>) ka
          in case first of
               BeatFails e \<Rightarrow> (record_heartbeat_failure now node (ph_handle p) e ka1, FirstHeartbeatFailed)
             | Beat r \<Rightarrow>
                 let ka2 = upd_ka (\<lambda>m. m\<lparr>mb_pools := dset node (apply_reply r p) (mb_pools m), mb_nodes := dset node nv (mb_nodes m)\<rparr>) ka1;
                     ka3 = mark_replica_heartbeat_success env now node (ph_handle p) True ka2
                 in (upd_ka (\<lambda>m. m\<lparr>mb_failures := dpop node (mb_failures m),
                       mb_breakers := (if dget (mb_breakers m) node = None then dset node fresh_breaker (mb_breakers m) else mb_breakers m)\<rparr>) ka3, Installed))"

text \<open>The keepalive starts with every replica active.\<close>

definition start_keepalive :: "keepalive \<Rightarrow> keepalive" where
  "start_keepalive ka =
    (upd_ka (\<lambda>m. m\<lparr>mb_active := dkeys (mb_pools m), mb_terminal := [], mb_probe := [],
        mb_pools := map (\<lambda>(node, p). (node, p\<lparr>ph_failed := False, ph_last_error := []\<rparr>)) (mb_pools m)\<rparr>) ka)
      \<lparr>ka_failed := False, ka_stopped := False, ka_counts := [], ka_cursor := 0, ka_probe_at := [], ka_zero_start := []\<rparr>"

end
