(* ===== verification/KeepaliveFacts.thy ===== *)
theory KeepaliveFacts
  imports Keepalive
begin

text \<open>
  What the keepalive of a session guarantees about its replicas: a blacklisted node does not come
  back, a replica given up stays given up, and a terminal one may still be polled.
\<close>

section \<open>Histories\<close>

text \<open>
  A session lives by the rounds of its keepalive, by what its client thread reports, and by the steps
  of its compensation. A node is lost to the client only when it polls it.
\<close>

datatype keepalive_event =
    Round instant rat
  | OwnerBlacklists string string
  | NodeLost string string
  | Choice instant keepalive "(string \<times> node_view) list"
  | CreationFails string string
  | Install instant int "string list" "string list" heartbeat_outcome string node_view pool_handle

definition lose_node :: "string \<Rightarrow> string \<Rightarrow> keepalive \<Rightarrow> keepalive" where
  "lose_node node err ka =
    (if strip node \<in> set (mb_active (ka_members ka)) \<or> strip node \<in> set (mb_probe (ka_members ka))
     then upd_ka (\<lambda>m. m\<lparr>mb_active := removeAll (strip node) (mb_active m), mb_failures := dset (strip node) err (mb_failures m)\<rparr>) ka else ka)"

fun keepalive_step :: "keepalive_env \<Rightarrow> keepalive_event \<Rightarrow> keepalive \<Rightarrow> keepalive" where
  "keepalive_step env (Round now interval) ka = fst (keepalive_round env now interval ka)"
| "keepalive_step env (OwnerBlacklists node reason) ka = blacklist_owner_node node reason ka"
| "keepalive_step env (NodeLost node err) ka = lose_node node err ka"
| "keepalive_step env (Choice now start offered) ka = fst (compensation_choice now start offered ka)"
| "keepalive_step env (CreationFails node message) ka = creation_failed env node message ka"
| "keepalive_step env (Install now desired active retryable first node nv p) ka =
    fst (install_replica env now desired active retryable first node nv p ka)"

lemma fold_keeps: "(\<And>x s. Q s \<Longrightarrow> Q (f x s)) \<Longrightarrow> Q s \<Longrightarrow> Q (fold f xs s)"
  by (induction xs arbitrary: s) auto

lemma upd_ka_simps [simp]:
  "ka_members (upd_ka f ka) = f (ka_members ka)" "ka_retry_forever (upd_ka f ka) = ka_retry_forever ka" "ka_pending (upd_ka f ka) = ka_pending ka"
  "ka_stale (upd_ka f ka) = ka_stale ka" "ka_method (upd_ka f ka) = ka_method ka"
  by (simp_all add: upd_ka_def)

section \<open>What concerns one node\<close>

definition node_blocked :: "string \<Rightarrow> keepalive \<Rightarrow> bool" where
  "node_blocked n ka \<longleftrightarrow> dget_or (mb_owner_blacklist (ka_members ka)) n [] \<noteq> []"

text \<open>An operation is \<open>elsewhere\<close> for a node it does not change, and \<open>calm\<close> when it lets no node in.\<close>

definition elsewhere :: "string \<Rightarrow> keepalive \<Rightarrow> keepalive \<Rightarrow> bool" where
  "elsewhere n ka ka' \<longleftrightarrow> (n \<in> set (mb_active (ka_members ka')) \<longleftrightarrow> n \<in> set (mb_active (ka_members ka))) \<and>
    (n \<in> set (mb_probe (ka_members ka')) \<longleftrightarrow> n \<in> set (mb_probe (ka_members ka))) \<and>
    dget (mb_owner_blacklist (ka_members ka')) n = dget (mb_owner_blacklist (ka_members ka)) n \<and>
    dget (mb_failures (ka_members ka')) n = dget (mb_failures (ka_members ka)) n \<and>
    ka_retry_forever ka' = ka_retry_forever ka"

definition calm :: "string \<Rightarrow> keepalive \<Rightarrow> keepalive \<Rightarrow> bool" where
  "calm n ka ka' \<longleftrightarrow> (n \<in> set (mb_active (ka_members ka')) \<longrightarrow> n \<in> set (mb_active (ka_members ka))) \<and>
    (node_blocked n ka \<longrightarrow> node_blocked n ka')"

lemma elsewhere_refl [simp]: "elsewhere n ka ka"
  by (simp add: elsewhere_def)

lemma elsewhere_trans: "elsewhere n a b \<Longrightarrow> elsewhere n b c \<Longrightarrow> elsewhere n a c"
  by (simp add: elsewhere_def)

lemma elsewhere_calm: "elsewhere n ka ka' \<Longrightarrow> calm n ka ka'"
  by (simp add: elsewhere_def calm_def node_blocked_def dget_or_def)

lemma calm_refl [simp]: "calm n ka ka"
  by (simp add: calm_def)

lemma calm_trans: "calm n a b \<Longrightarrow> calm n b c \<Longrightarrow> calm n a c"
  by (simp add: calm_def)

lemma elsewhere_fields [simp]:
  "elsewhere n ka (ka'\<lparr>ka_probe_at := x1\<rparr>) = elsewhere n ka ka'" "elsewhere n ka (ka'\<lparr>ka_zero_start := x1\<rparr>) = elsewhere n ka ka'"
  "elsewhere n ka (ka'\<lparr>ka_zero_last := x1\<rparr>) = elsewhere n ka ka'" "elsewhere n ka (ka'\<lparr>ka_disc_last := x1\<rparr>) = elsewhere n ka ka'"
  "elsewhere n ka (ka'\<lparr>ka_counts := x2\<rparr>) = elsewhere n ka ka'" "elsewhere n ka (ka'\<lparr>ka_pending := x3\<rparr>) = elsewhere n ka ka'"
  "elsewhere n ka (ka'\<lparr>ka_stale := x3\<rparr>) = elsewhere n ka ka'" "elsewhere n ka (ka'\<lparr>ka_cursor := x4\<rparr>) = elsewhere n ka ka'"
  "elsewhere n ka (ka'\<lparr>ka_calls := x4\<rparr>) = elsewhere n ka ka'" "elsewhere n ka (ka'\<lparr>ka_sched_disabled := x5\<rparr>) = elsewhere n ka ka'"
  "elsewhere n ka (ka'\<lparr>ka_last_attempt := x6\<rparr>) = elsewhere n ka ka'"
  by (simp_all add: elsewhere_def)

named_theorems ka_defs \<open>the operations on the sets of replicas\<close>

declare add_active_replica_def [ka_defs] discard_active_replica_def [ka_defs] mark_terminal_replica_def [ka_defs]
  discard_terminal_replica_def [ka_defs] mark_retry_probe_replica_def [ka_defs] discard_retry_probe_replica_def [ka_defs]
  upd_handle_def [ka_defs] blacklist_replica_node_def [ka_defs] blacklist_owner_node_def [ka_defs] blacklist_member_def [ka_defs]
  fail_handle_def [ka_defs] Let_def [ka_defs]

lemma elsewhere_small:
  assumes "node \<noteq> n"
  shows "elsewhere n ka (add_active_replica node ka)" "elsewhere n ka (discard_active_replica node ka)"
    "elsewhere n ka (mark_retry_probe_replica now node ka)" "elsewhere n ka (discard_retry_probe_replica node ka)"
  using assms by (simp_all add: elsewhere_def ka_defs)

lemma elsewhere_free [simp]:
  "elsewhere n ka (mark_terminal_replica node ka)" "elsewhere n ka (discard_terminal_replica node ka)" "elsewhere n ka (upd_handle node f ka)"
  by (simp_all add: elsewhere_def ka_defs)

lemma elsewhere_blacklists:
  assumes "strip node \<noteq> n"
  shows "elsewhere n ka (blacklist_replica_node node r ka)" "elsewhere n ka (blacklist_owner_node node r ka)"
  using assms by (simp_all add: elsewhere_def ka_defs dget_dset)

lemma elsewhere_failures:
  "node \<noteq> n \<Longrightarrow> elsewhere n ka (upd_ka (\<lambda>m. m\<lparr>mb_failures := dset node e (mb_failures m)\<rparr>) ka)"
  "node \<noteq> n \<Longrightarrow> elsewhere n ka (upd_ka (\<lambda>m. m\<lparr>mb_failures := dpop node (mb_failures m)\<rparr>) ka)"
  by (simp_all add: elsewhere_def dget_dset dget_dpop)

lemma calm_fields [simp]:
  "calm n ka (ka'\<lparr>ka_zero_start := x1\<rparr>) = calm n ka ka'" "calm n ka (ka'\<lparr>ka_zero_last := x1\<rparr>) = calm n ka ka'"
  "calm n ka (ka'\<lparr>ka_counts := x2\<rparr>) = calm n ka ka'" "calm n ka (ka'\<lparr>ka_pending := x3\<rparr>) = calm n ka ka'"
  "calm n ka (ka'\<lparr>ka_stale := x3\<rparr>) = calm n ka ka'" "calm n ka (ka'\<lparr>ka_cursor := x4\<rparr>) = calm n ka ka'"
  "calm n ka (ka'\<lparr>ka_calls := x4\<rparr>) = calm n ka ka'" "calm n ka (ka'\<lparr>ka_last_attempt := x6\<rparr>) = calm n ka ka'"
  by (simp_all add: calm_def node_blocked_def)

lemma calm_failures [simp]:
  "calm n ka (upd_ka (\<lambda>m. m\<lparr>mb_failures := f m\<rparr>) ka)"
  by (simp add: calm_def node_blocked_def)

lemma calm_small [simp]:
  "calm n ka (discard_active_replica node ka)" "calm n ka (mark_retry_probe_replica now node ka)" "calm n ka (discard_retry_probe_replica node ka)"
  "calm n ka (blacklist_replica_node node r ka)" "calm n ka (blacklist_owner_node node r ka)"
  by (simp_all add: calm_def node_blocked_def ka_defs dget_dset dget_or_def str_or_def)

section \<open>Heartbeats\<close>

lemma reported_elsewhere: "strip node \<noteq> n \<Longrightarrow> elsewhere n ka (on_method_failures_reported env node reported ka)"
  by (simp add: elsewhere_def ka_defs on_method_failures_reported_def dget_dset strip_idem)

lemma reported_calm [simp]: "calm n ka (on_method_failures_reported env node reported ka)"
  by (simp add: calm_def node_blocked_def ka_defs on_method_failures_reported_def dget_dset dget_or_def str_or_def)

lemma zero_alive_path:
  fixes node :: string and ka :: keepalive
  assumes refl: "\<And>a. R a a" and trans: "\<And>a b c. R a b \<Longrightarrow> R b c \<Longrightarrow> R a c"
    and fields: "\<And>a x. R a (a\<lparr>ka_zero_start := x\<rparr>)" "\<And>a x. R a (a\<lparr>ka_zero_last := x\<rparr>)" "\<And>a x. R a (a\<lparr>ka_counts := x\<rparr>)"
    and black: "\<And>a r. R a (blacklist_replica_node (strip node) r a)"
    and fails: "\<And>a r. R a (upd_ka (\<lambda>m. m\<lparr>mb_failures := dset (strip node) r (mb_failures m)\<rparr>) a)"
    and handle: "\<And>a f. R a (upd_handle (strip node) f a)"
    and leave: "\<And>a. R a (discard_active_replica (strip node) a)" "\<And>a. R a (discard_retry_probe_replica (strip node) a)"
      "\<And>a. R a (mark_terminal_replica (strip node) a)"
  shows "R ka (fst (handle_zero_alive env now node ka))"
proof (cases "dget (mb_pools (ka_members ka)) (strip node)")
  case None
  then show ?thesis by (simp add: handle_zero_alive_def refl)
next
  case (Some p)
  define again where "again = (0 < dget_or (ka_zero_last ka) (strip node) 0 \<and> now - dget_or (ka_zero_last ka) (strip node) 0 \<le> BLACKLIST_WINDOW_SEC)"
  define reason where "reason = ''alive_workers=0 for '' @ ke_fixed3 env (now - dget_or (ka_zero_start ka) (strip node) 0) @
    ''s; treating replica as disconnected'' @ (if again then ''; node_instance blacklisted: repeat zero-alive disconnect within 3600s'' else [])"
  define ka1 where "ka1 = ka\<lparr>ka_zero_last := dset (strip node) now (ka_zero_last ka)\<rparr>"
  define ka2 where "ka2 = (if again then blacklist_replica_node (strip node) ''repeat zero-alive disconnect within 3600s'' ka1 else ka1)"
  define ka3 where "ka3 = upd_handle (strip node) (\<lambda>p. p\<lparr>ph_failed := True, ph_last_error := reason\<rparr>)
    (upd_ka (\<lambda>m. m\<lparr>mb_failures := dset (strip node) reason (mb_failures m)\<rparr>) ka2)"
  define ka4 where "ka4 = ka3\<lparr>ka_counts := dset (strip node) (heartbeat_failure_threshold p) (ka_counts ka3), ka_zero_start := dpop (strip node) (ka_zero_start ka3)\<rparr>"
  have "R ka ka1" by (simp add: ka1_def fields)
  moreover have "R ka1 ka2" by (simp add: ka2_def refl black)
  moreover have "R ka2 ka3" unfolding ka3_def by (rule trans [OF fails handle])
  moreover have "R ka3 ka4" unfolding ka4_def by (rule trans [OF fields(3) fields(1)])
  moreover have "R ka4 (mark_terminal_replica (strip node) (discard_retry_probe_replica (strip node) (discard_active_replica (strip node) ka4)))"
    by (rule trans [OF trans [OF leave(1) leave(2)] leave(3)])
  ultimately have all: "R ka (mark_terminal_replica (strip node) (discard_retry_probe_replica (strip node) (discard_active_replica (strip node) ka4)))"
    by (meson trans)
  show ?thesis unfolding handle_zero_alive_def Let_def Some option.case again_def [symmetric] reason_def [symmetric]
      ka1_def [symmetric] ka2_def [symmetric] ka3_def [symmetric] ka4_def [symmetric]
    using all by (simp add: refl fields)
qed

lemma zero_alive_elsewhere:
  assumes "strip node \<noteq> n"
  shows "elsewhere n ka (fst (handle_zero_alive env now node ka))"
  by (rule zero_alive_path [where R = "elsewhere n"])
    (use assms in \<open>auto intro: elsewhere_trans elsewhere_failures elsewhere_small elsewhere_blacklists simp: strip_idem\<close>)

lemma zero_alive_calm [simp]: "calm n ka (fst (handle_zero_alive env now node ka))"
  by (rule zero_alive_path [where R = "calm n"]) (auto intro: calm_trans elsewhere_calm)

lemma disconnect_elsewhere: "strip node \<noteq> n \<Longrightarrow> elsewhere n ka (fst (record_replica_disconnect_failure now node h e ka))"
  by (simp add: elsewhere_def ka_defs record_replica_disconnect_failure_def dget_dset strip_idem)

lemma disconnect_calm [simp]: "calm n ka (fst (record_replica_disconnect_failure now node h e ka))"
  by (simp add: calm_def node_blocked_def ka_defs record_replica_disconnect_failure_def dget_dset dget_or_def str_or_def)

lemma failure_elsewhere: "node \<noteq> n \<Longrightarrow> elsewhere n ka (mark_replica_heartbeat_failure node h e ka)"
  by (simp add: elsewhere_def ka_defs mark_replica_heartbeat_failure_def dget_dset)

lemma failure_calm [simp]: "calm n ka (mark_replica_heartbeat_failure node h e ka)"
  by (simp add: calm_def node_blocked_def ka_defs mark_replica_heartbeat_failure_def)

lemma probe_failure_elsewhere: "node \<noteq> n \<Longrightarrow> elsewhere n ka (mark_replica_heartbeat_probe_failure now node h e ka)"
  by (simp add: elsewhere_def ka_defs mark_replica_heartbeat_probe_failure_def dget_dset)

lemma probe_failure_calm [simp]: "calm n ka (mark_replica_heartbeat_probe_failure now node h e ka)"
  by (simp add: calm_def node_blocked_def ka_defs mark_replica_heartbeat_probe_failure_def)

text \<open>A failure of another replica leaves the node alone, and no failure lets a node in.\<close>

lemma calm_counts: "calm n (ka\<lparr>ka_counts := c\<rparr>) ka' = calm n ka ka'"
  by (simp add: calm_def node_blocked_def)

lemma elsewhere_counts: "elsewhere n (ka\<lparr>ka_counts := c\<rparr>) ka' = elsewhere n ka ka'"
  by (simp add: elsewhere_def)

lemma strip_neq: "strip n = n \<Longrightarrow> strip node \<noteq> n \<Longrightarrow> node \<noteq> n"
  by auto

lemma record_failure_elsewhere:
  assumes n: "strip n = n" "strip node \<noteq> n"
  shows "elsewhere n ka (record_heartbeat_failure now node h e ka)"
proof -
  have ne: "node \<noteq> n" using n by auto
  define ka1 where "ka1 = ka\<lparr>ka_counts := dset node (dget_or (ka_counts ka) node 0 + 1) (ka_counts ka)\<rparr>"
  have e1: "elsewhere n ka ka1" by (simp add: ka1_def)
  obtain ka2 b where d: "record_replica_disconnect_failure now node h (he_repr e) ka1 = (ka2, b)" by fastforce
  have e2: "elsewhere n ka ka2" using disconnect_elsewhere [OF n(2), of ka1 now h "he_repr e"] d elsewhere_trans [OF e1] by simp
  have e3: "elsewhere n ka (mark_retry_probe_replica now node (mark_replica_heartbeat_probe_failure now node h (he_repr e) ka2))"
    by (rule elsewhere_trans [OF elsewhere_trans [OF e2 probe_failure_elsewhere [OF ne]] elsewhere_small(3) [OF ne]])
  show ?thesis unfolding record_heartbeat_failure_def Let_def ka1_def [symmetric] d
    using e1 e2 e3 elsewhere_trans [OF e1 failure_elsewhere [OF ne]] elsewhere_trans [OF e1 elsewhere_small(3) [OF ne]]
    by (simp split: bool.split)
qed

lemma record_failure_calm: "calm n ka (record_heartbeat_failure now node h e ka)"
proof -
  define ka1 where "ka1 = ka\<lparr>ka_counts := dset node (dget_or (ka_counts ka) node 0 + 1) (ka_counts ka)\<rparr>"
  have e1: "calm n ka ka1" by (simp add: ka1_def)
  obtain ka2 b where d: "record_replica_disconnect_failure now node h (he_repr e) ka1 = (ka2, b)" by fastforce
  have e2: "calm n ka ka2" using disconnect_calm [of n ka1 now node h "he_repr e"] d calm_trans [OF e1] by simp
  have e3: "calm n ka (mark_retry_probe_replica now node (mark_replica_heartbeat_probe_failure now node h (he_repr e) ka2))"
    by (rule calm_trans [OF calm_trans [OF e2 probe_failure_calm] calm_small(2)])
  show ?thesis unfolding record_heartbeat_failure_def Let_def ka1_def [symmetric] d
    using e1 e2 e3 calm_trans [OF e1 failure_calm] calm_trans [OF e1 calm_small(2)] by (simp split: bool.split)
qed

lemma exception_elsewhere:
  assumes n: "strip n = n" "strip node \<noteq> n"
  shows "elsewhere n ka (handle_heartbeat_exception now node h e ka)"
proof -
  have "elsewhere n ka (record_terminal_heartbeat_failure node h e ka)"
    unfolding record_terminal_heartbeat_failure_def
    using elsewhere_trans [OF failure_elsewhere [OF strip_neq [OF n], of "ka\<lparr>ka_counts := dset node (threshold_of node ka) (ka_counts ka)\<rparr>"] elsewhere_free(1)]
    by (simp add: elsewhere_counts)
  then show ?thesis by (simp add: handle_heartbeat_exception_def record_failure_elsewhere [OF n])
qed

lemma exception_calm: "calm n ka (handle_heartbeat_exception now node h e ka)"
proof -
  have "calm n ka (record_terminal_heartbeat_failure node h e ka)"
    unfolding record_terminal_heartbeat_failure_def
    using calm_trans [OF failure_calm [of n "ka\<lparr>ka_counts := dset node (threshold_of node ka) (ka_counts ka)\<rparr>"] elsewhere_calm [OF elsewhere_free(1)]]
    by (simp add: calm_counts)
  then show ?thesis by (simp add: handle_heartbeat_exception_def record_failure_calm)
qed

text \<open>A success lets in a node that is not blacklisted, and only that.\<close>

lemma success_elsewhere:
  assumes n: "strip n = n" "strip node \<noteq> n"
  shows "elsewhere n ka (mark_replica_heartbeat_success env now node h allow_new ka)"
proof -
  have ne: "node \<noteq> n" using n by auto
  define ka1 where "ka1 = on_method_failures_reported env node
    (case dget (mb_pools (ka_members ka)) (strip node) of None \<Rightarrow> [] | Some p \<Rightarrow> ph_method_failures p) ka"
  define ka2 where "ka2 = discard_retry_probe_replica node (discard_terminal_replica node (ka1\<lparr>ka_counts := dpop node (ka_counts ka1)\<rparr>))"
  define ka3 where "ka3 = upd_ka (\<lambda>m. m\<lparr>mb_failures := dpop node (mb_failures m)\<rparr>) (upd_handle (strip node) (\<lambda>p. p\<lparr>ph_failed := False, ph_last_error := []\<rparr>) ka2)"
  obtain ka4 gone where z: "handle_zero_alive env now node ka3 = (ka4, gone)" by fastforce
  have e1: "elsewhere n ka ka1" unfolding ka1_def by (rule reported_elsewhere [OF n(2)])
  have "elsewhere n ka1 ka2" unfolding ka2_def
    using elsewhere_trans [OF elsewhere_free(2) elsewhere_small(4) [OF ne]] by (metis elsewhere_counts)
  moreover have "elsewhere n ka2 ka3" unfolding ka3_def by (rule elsewhere_trans [OF elsewhere_free(3) elsewhere_failures(2) [OF ne]])
  moreover have "elsewhere n ka3 ka4" using zero_alive_elsewhere [OF n(2), of ka3 env now] z by simp
  ultimately have e4: "elsewhere n ka ka4" using e1 elsewhere_trans by blast
  show ?thesis unfolding mark_replica_heartbeat_success_def Let_def ka1_def [symmetric] ka2_def [symmetric] ka3_def [symmetric] z
    using e1 e4 elsewhere_trans [OF e4 elsewhere_small(1) [OF ne]] by simp
qed

lemma success_barred:
  assumes n: "strip n = n" and b: "node_blocked n ka"
  shows "calm n ka (mark_replica_heartbeat_success env now node h allow_new ka)"
proof (cases "strip node = n")
  case False
  then show ?thesis by (intro elsewhere_calm success_elsewhere n)
next
  case True
  define ka1 where "ka1 = on_method_failures_reported env node
    (case dget (mb_pools (ka_members ka)) (strip node) of None \<Rightarrow> [] | Some p \<Rightarrow> ph_method_failures p) ka"
  have e1: "calm n ka ka1" by (simp add: ka1_def)
  then have "node_blocked n ka1" using b by (simp add: calm_def)
  then have "dget (mb_owner_blacklist (ka_members ka1)) (strip node) \<noteq> None" using True by (auto simp: node_blocked_def dget_or_def split: option.splits)
  then show ?thesis unfolding mark_replica_heartbeat_success_def Let_def ka1_def [symmetric] using e1 by simp
qed

section \<open>Ticks\<close>

text \<open>A property of the sets of replicas that every answer preserves is preserved by a tick.\<close>

lemma submit_path:
  assumes gone: "\<And>node ka. P ka \<Longrightarrow> P (discard_active_replica node ka)"
    and fields: "\<And>ka x. P ka \<Longrightarrow> P (ka\<lparr>ka_calls := x\<rparr>)" "\<And>ka x. P ka \<Longrightarrow> P (ka\<lparr>ka_pending := x\<rparr>)"
    and "P ka"
  shows "P (fst (submit_heartbeats env now replicas slots nodes ka))"
  using \<open>P ka\<close>
  by (induction env now replicas slots nodes ka rule: submit_heartbeats.induct)
    (auto simp: gone fields Let_def case_prod_beta split: option.split)

lemma tick_path:
  assumes gone: "\<And>node ka. P ka \<Longrightarrow> P (discard_active_replica node ka)"
    and fields: "\<And>ka x. P ka \<Longrightarrow> P (ka\<lparr>ka_calls := x\<rparr>)" "\<And>ka x. P ka \<Longrightarrow> P (ka\<lparr>ka_pending := x\<rparr>)"
      "\<And>ka x. P ka \<Longrightarrow> P (ka\<lparr>ka_stale := x\<rparr>)" "\<And>ka x. P ka \<Longrightarrow> P (ka\<lparr>ka_cursor := x\<rparr>)"
    and fails: "\<And>node h e ka. P ka \<Longrightarrow> P (record_heartbeat_failure now node h e ka)"
    and answers: "\<And>node hp a ka. P ka \<Longrightarrow> P (collect_answer env now node hp a ka)"
    and "P ka"
  shows "P (run_heartbeat_tick env now interval ids ka)"
proof -
  define ka1 where "ka1 = cleanup_stale env now ka"
  define ka2 where "ka2 = fold (review_pending env now interval) (ka_pending ka1) ka1"
  have review: "P s \<Longrightarrow> P (review_pending env now interval x s)" for x s
    by (simp add: review_pending_def Let_def fields fails answers split: prod.split option.split)
  have collect: "P s \<Longrightarrow> P (collect_done env now x s)" for x s
    by (simp add: collect_done_def Let_def fields answers split: prod.split option.split)
  have clean: "P s \<Longrightarrow> P (cleanup_stale env now s)" for s by (simp add: cleanup_stale_def fields)
  have "P ka1" unfolding ka1_def by (rule clean [OF \<open>P ka\<close>])
  then have "P ka2" unfolding ka2_def by (rule fold_keeps [where Q = P, rotated]) (rule review)
  define cursor where "cursor = (if ascending ids = [] then ka_cursor ka2 else ka_cursor ka2 mod length (ascending ids))"
  obtain ka3 k where s: "submit_heartbeats env now (mb_pools (ka_members ka))
      (heartbeat_max_workers (length ids) - (length (ka_pending ka2) + length (ka_stale ka2))) (rotate cursor (ascending ids)) ka2 = (ka3, k)"
    by fastforce
  have "P ka3" using submit_path [where P = P, OF gone fields(1,2) \<open>P ka2\<close>] s by (metis fst_conv)
  then show ?thesis unfolding run_heartbeat_tick_def Let_def ka1_def [symmetric] ka2_def [symmetric] cursor_def [symmetric] s prod.case
    by (intro clean, intro fold_keeps [where Q = P] collect) (simp_all add: fields)
qed

lemma compensation_due_path:
  "(\<And>ka x. P ka \<Longrightarrow> P (ka\<lparr>ka_last_attempt := x\<rparr>)) \<Longrightarrow> P ka \<Longrightarrow> P (fst (compensation_due now ka))"
  by (simp add: compensation_due_def Let_def split: option.split)

lemma round_path:
  assumes tick: "\<And>ids. P (run_heartbeat_tick env now interval ids ka)"
    and fields: "\<And>ka x. P ka \<Longrightarrow> P (ka\<lparr>ka_last_attempt := x\<rparr>)" "\<And>ka. P ka \<Longrightarrow> P (ka\<lparr>ka_failed := True, ka_stopped := True\<rparr>)"
    and "P ka"
  shows "P (fst (keepalive_round env now interval ka))"
proof -
  define ka1 where "ka1 = run_heartbeat_tick env now interval (heartbeat_ids ka) ka"
  have "P ka1" by (simp add: ka1_def tick)
  then show ?thesis unfolding keepalive_round_def Let_def ka1_def [symmetric]
    using compensation_due_path [where P = P, OF fields(1), of ka1 now] fields(2) \<open>P ka\<close> by simp
qed

section \<open>Blacklisted nodes stay out\<close>

definition barred :: "string \<Rightarrow> keepalive \<Rightarrow> bool" where
  "barred n ka \<longleftrightarrow> node_blocked n ka \<and> n \<notin> set (mb_active (ka_members ka))"

lemma barred_calm: "barred n ka \<Longrightarrow> calm n ka ka' \<Longrightarrow> barred n ka'"
  by (simp add: barred_def calm_def)

lemma barred_fields [simp]:
  "barred n (ka\<lparr>ka_calls := x\<rparr>) = barred n ka" "barred n (ka\<lparr>ka_pending := y\<rparr>) = barred n ka" "barred n (ka\<lparr>ka_stale := y\<rparr>) = barred n ka"
  "barred n (ka\<lparr>ka_cursor := x\<rparr>) = barred n ka" "barred n (ka\<lparr>ka_last_attempt := z\<rparr>) = barred n ka"
  "barred n (ka\<lparr>ka_failed := b, ka_stopped := c\<rparr>) = barred n ka"
  by (simp_all add: barred_def node_blocked_def)

lemma barred_success:
  "strip n = n \<Longrightarrow> barred n ka \<Longrightarrow> barred n (mark_replica_heartbeat_success env now node h allow_new ka)"
  by (rule barred_calm, assumption, rule success_barred) (simp_all add: barred_def)

lemma barred_answer:
  assumes "strip n = n" "barred n ka"
  shows "barred n (collect_answer env now node hp a ka)"
  using barred_success [OF assms(1) barred_calm [OF assms(2) elsewhere_calm [OF elsewhere_free(3)]]] barred_calm [OF assms(2) exception_calm]
  by (simp add: collect_answer_def split: heartbeat_outcome.split)

lemma barred_round:
  assumes n: "strip n = n" and b: "barred n ka"
  shows "barred n (fst (keepalive_round env now interval ka))"
proof (rule round_path [where P = "barred n"])
  show "barred n (run_heartbeat_tick env now interval ids ka)" for ids
    using b by (rule tick_path [where P = "barred n", rotated -1])
      (auto intro: barred_calm [OF _ calm_small(1)] barred_calm [OF _ record_failure_calm] barred_answer [OF n])
qed (use b in simp_all)

lemma expire_path:
  "(\<And>node ka. P ka \<Longrightarrow> P (discard_retry_probe_replica node ka)) \<Longrightarrow> P ka \<Longrightarrow> P (expire_retry_probe_replicas now ka)"
  unfolding expire_retry_probe_replicas_def by (rule fold_keeps [where Q = P]) auto

lemma choice_path:
  assumes probe: "\<And>node ka. P ka \<Longrightarrow> P (discard_retry_probe_replica node ka)"
    and prune: "\<And>node ka. P ka \<Longrightarrow> P (remove_owner_replica node False ka)" and "P ka"
  shows "P (fst (compensation_choice now start offered ka))"
proof -
  have 1: "P (prune_stale_owner_replicas current ids active ka)" for current ids active
    unfolding prune_stale_owner_replicas_def using \<open>P ka\<close>
    by (rule fold_keeps [where Q = P, rotated]) (simp add: prune Let_def)
  have 2: "P s \<Longrightarrow> P (fst (compensation_deferred_by_retry_probe now active desired current candidates s))" for s active desired current candidates
    using expire_path [where P = P, OF probe] fold_keeps [where Q = P and f = discard_retry_probe_replica, OF probe]
    by (simp add: compensation_deferred_by_retry_probe_def Let_def)
  show ?thesis unfolding compensation_choice_def Let_def using 2 [OF 1] \<open>P ka\<close> by (simp add: fst_def split: prod.splits) (metis fst_conv 2 1)
qed

lemma barred_creation: "barred n ka \<Longrightarrow> barred n (creation_failed env node message ka)"
  by (auto simp: barred_def node_blocked_def creation_failed_def mark_create_failure_node_blacklisted_def format_replica_create_failure_def dget_dset dget_or_def Let_def)

lemma barred_install:
  assumes n: "strip n = n" and b: "barred n ka"
  shows "barred n (fst (install_replica env now desired active retryable first node nv p ka))"
proof -
  define ka1 where "ka1 = upd_ka (\<lambda>m. m\<lparr>mb_pools := dpop node (mb_pools m)\<rparr>) ka"
  have b1: "barred n ka1" using b by (simp add: barred_def node_blocked_def ka1_def)
  show ?thesis
  proof (cases first)
    case (Beat r)
    define ka2 where "ka2 = upd_ka (\<lambda>m. m\<lparr>mb_pools := dset node (apply_reply r p) (mb_pools m), mb_nodes := dset node nv (mb_nodes m)\<rparr>) ka1"
    have "barred n ka2" using b1 by (simp add: barred_def node_blocked_def ka2_def)
    from barred_success [OF n this, of env now node "ph_handle p" True] show ?thesis using b
      unfolding install_replica_def Let_def Beat heartbeat_outcome.case ka1_def [symmetric] ka2_def [symmetric] by (simp add: barred_def node_blocked_def)
  next
    case (BeatFails e)
    from barred_calm [OF b1 record_failure_calm, of now node "ph_handle p" e] show ?thesis using b
      unfolding install_replica_def Let_def BeatFails heartbeat_outcome.case ka1_def [symmetric] by simp
  qed
qed

lemma barred_step: "strip n = n \<Longrightarrow> barred n ka \<Longrightarrow> barred n (keepalive_step env ev ka)"
proof (cases ev)
  case (Choice now start offered)
  assume "barred n ka"
  then have "barred n (fst (compensation_choice now start offered ka))"
    by (rule choice_path [where P = "barred n", rotated -1])
      (auto intro: barred_calm [OF _ calm_small(3)] simp: barred_def node_blocked_def remove_owner_replica_def ka_defs)
  then show ?thesis by (simp add: Choice)
next
  case (NodeLost node err)
  assume "barred n ka"
  then show ?thesis by (simp add: NodeLost lose_node_def barred_def node_blocked_def)
qed (auto intro: barred_round barred_creation barred_install barred_calm [OF _ calm_small(5)])

lemma barred_history:
  "strip n = n \<Longrightarrow> barred n ka \<Longrightarrow> barred n (fold (keepalive_step env) evs ka)"
  by (rule fold_keeps [where Q = "barred n"]) (simp_all add: barred_step)

section \<open>Replicas given up\<close>

text \<open>Not active, not on probe, and blocked or failed for a reason that no other attempt cures.\<close>

definition given_up :: "string \<Rightarrow> keepalive \<Rightarrow> bool" where
  "given_up n ka \<longleftrightarrow> n \<notin> set (mb_active (ka_members ka)) \<and> n \<notin> set (mb_probe (ka_members ka)) \<and> \<not> ka_retry_forever ka \<and>
    (node_blocked n ka \<or> (\<exists>e. dget (mb_failures (ka_members ka)) n = Some e \<and> e \<noteq> [] \<and> \<not> is_retryable_compensation_failure (Message e) ''task_pool''))"

lemma given_up_elsewhere: "given_up n ka \<Longrightarrow> elsewhere n ka ka' \<Longrightarrow> given_up n ka'"
  by (simp add: given_up_def elsewhere_def node_blocked_def dget_or_def)

lemma given_up_fields [simp]:
  "given_up n (ka\<lparr>ka_calls := x\<rparr>) = given_up n ka" "given_up n (ka\<lparr>ka_pending := y\<rparr>) = given_up n ka" "given_up n (ka\<lparr>ka_stale := y\<rparr>) = given_up n ka"
  "given_up n (ka\<lparr>ka_cursor := x\<rparr>) = given_up n ka" "given_up n (ka\<lparr>ka_last_attempt := z\<rparr>) = given_up n ka"
  "given_up n (ka\<lparr>ka_failed := b, ka_stopped := c\<rparr>) = given_up n ka"
  by (simp_all add: given_up_def node_blocked_def)

text \<open>Its own late answers are turned away.\<close>

lemma given_up_rejects: "given_up n ka \<Longrightarrow> strip node = n \<Longrightarrow> \<not> can_accept_heartbeat_success node h False ka"
  by (simp add: given_up_def can_accept_heartbeat_success_def)

lemma given_up_ignores:
  assumes "given_up n ka" "strip node = n"
  shows "mark_replica_heartbeat_success env now node h False ka = ka" "record_heartbeat_failure now node h e ka = ka"
    "handle_heartbeat_exception now node h e ka = ka"
  using given_up_rejects [OF assms, of h]
  by (simp_all add: mark_replica_heartbeat_success_def record_heartbeat_failure_def handle_heartbeat_exception_def record_terminal_heartbeat_failure_def)

lemma given_up_failure:
  assumes n: "strip n = n" and g: "given_up n ka"
  shows "given_up n (record_heartbeat_failure now node h e ka)"
proof (cases "strip node = n")
  case True
  then show ?thesis using g by (simp add: given_up_ignores(2) [OF g True])
next
  case False
  show ?thesis by (rule given_up_elsewhere [OF g record_failure_elsewhere [OF n False]])
qed

lemma given_up_answer:
  assumes n: "strip n = n" and g: "given_up n ka"
  shows "given_up n (collect_answer env now node hp a ka)"
proof -
  have g1: "given_up n (upd_handle node f ka)" for f by (rule given_up_elsewhere [OF g elsewhere_free(3)])
  show ?thesis
  proof (cases "strip node = n")
    case True
    then show ?thesis using g g1
      by (simp add: collect_answer_def given_up_ignores(1) [OF g1 True] given_up_ignores(3) [OF g True] split: heartbeat_outcome.split)
  next
    case False
    then show ?thesis using given_up_elsewhere [OF g1 success_elsewhere [OF n False]] given_up_elsewhere [OF g exception_elsewhere [OF n False]]
      by (simp add: collect_answer_def split: heartbeat_outcome.split)
  qed
qed

lemma given_up_small [simp]:
  "given_up n ka \<Longrightarrow> given_up n (discard_active_replica node ka)" "given_up n ka \<Longrightarrow> given_up n (discard_retry_probe_replica node ka)"
  "given_up n ka \<Longrightarrow> given_up n (remove_owner_replica node False ka)"
  by (auto simp: given_up_def node_blocked_def ka_defs remove_owner_replica_def)

lemma given_up_round:
  assumes n: "strip n = n" and g: "given_up n ka"
  shows "given_up n (fst (keepalive_round env now interval ka))"
proof (rule round_path [where P = "given_up n"])
  show "given_up n (run_heartbeat_tick env now interval ids ka)" for ids
    using g by (rule tick_path [where P = "given_up n", rotated -1]) (auto intro: given_up_failure [OF n] given_up_answer [OF n])
qed (use g in simp_all)

lemma given_up_blacklist: "given_up n ka \<Longrightarrow> given_up n (blacklist_owner_node node r ka)"
  by (auto simp: given_up_def node_blocked_def ka_defs dget_dset dget_or_def str_or_def)

fun event_node :: "keepalive_event \<Rightarrow> string option" where
  "event_node (CreationFails node message) = Some (strip node)"
| "event_node (Install now desired active retryable first node nv p) = Some (strip node)"
| "event_node _ = None"

lemma given_up_creation:
  assumes n: "strip n = n" and g: "given_up n ka" and other: "strip node \<noteq> n"
  shows "given_up n (creation_failed env node message ka)"
  using n g other by (auto simp: given_up_def node_blocked_def creation_failed_def mark_create_failure_node_blacklisted_def dget_dset dget_or_def)

lemma given_up_install:
  assumes n: "strip n = n" and g: "given_up n ka" and other: "strip node \<noteq> n"
  shows "given_up n (fst (install_replica env now desired active retryable first node nv p ka))"
proof -
  have ne: "node \<noteq> n" using n other by auto
  define ka1 where "ka1 = upd_ka (\<lambda>m. m\<lparr>mb_pools := dpop node (mb_pools m)\<rparr>) ka"
  have g1: "given_up n ka1" using g by (simp add: given_up_def node_blocked_def ka1_def)
  show ?thesis
  proof (cases first)
    case (Beat r)
    define ka2 where "ka2 = upd_ka (\<lambda>m. m\<lparr>mb_pools := dset node (apply_reply r p) (mb_pools m), mb_nodes := dset node nv (mb_nodes m)\<rparr>) ka1"
    have "given_up n ka2" using g1 by (simp add: given_up_def node_blocked_def ka2_def)
    from given_up_elsewhere [OF this success_elsewhere [OF n other], of env now "ph_handle p" True] show ?thesis using g ne
      unfolding install_replica_def Let_def Beat heartbeat_outcome.case ka1_def [symmetric] ka2_def [symmetric]
      by (simp add: given_up_def node_blocked_def dget_dpop)
  next
    case (BeatFails e)
    from given_up_failure [OF n g1, of now node "ph_handle p" e] show ?thesis using g
      unfolding install_replica_def Let_def BeatFails heartbeat_outcome.case ka1_def [symmetric] by simp
  qed
qed

lemma given_up_step:
  assumes n: "strip n = n" and g: "given_up n ka" and ev: "event_node ev \<noteq> Some n"
  shows "given_up n (keepalive_step env ev ka)"
proof (cases ev)
  case (Round now interval)
  then show ?thesis using given_up_round [OF n g] by simp
next
  case (OwnerBlacklists node reason)
  then show ?thesis using given_up_blacklist [OF g] by simp
next
  case (NodeLost node err)
  then show ?thesis using g by (auto simp: lose_node_def given_up_def node_blocked_def dget_dset)
next
  case (Choice now start offered)
  have "given_up n (fst (compensation_choice now start offered ka))"
    using g by (rule choice_path [where P = "given_up n", rotated -1]) simp_all
  then show ?thesis by (simp add: Choice)
next
  case (CreationFails node message)
  then show ?thesis using given_up_creation [OF n g] ev by simp
next
  case (Install now desired active retryable first node nv p)
  then show ?thesis using given_up_install [OF n g] ev by simp
qed

lemma given_up_history:
  assumes "strip n = n" "given_up n ka" "\<forall>ev \<in> set evs. event_node ev \<noteq> Some n"
  shows "given_up n (fold (keepalive_step env) evs ka)"
  using assms by (induction evs arbitrary: ka) (simp_all add: given_up_step)

lemma given_up_silent: "given_up n ka \<Longrightarrow> n \<notin> set (heartbeat_ids ka)"
  by (simp add: given_up_def heartbeat_ids_def Let_def)

lemma given_up_excluded:
  assumes g: "given_up n ka" and "n \<noteq> []"
  shows "n \<notin> fst ` set (compensation_candidates ka offered ka)"
proof (cases "node_blocked n ka")
  case True
  then show ?thesis using \<open>n \<noteq> []\<close>
    by (auto simp: compensation_candidates_def Let_def node_blocked_def create_failure_node_block_reason_def)
next
  case False
  then obtain e where e: "dget (mb_failures (ka_members ka)) n = Some e" "e \<noteq> []" "\<not> is_retryable_compensation_failure (Message e) ''task_pool''"
    and a: "n \<notin> set (mb_active (ka_members ka))" using g by (auto simp: given_up_def)
  have r: "replica_error n ka = e" by (simp add: replica_error_def dget_or_def e(1))
  have s: "recovery_state n ka \<noteq> ReplicaActive" "recovery_state n ka \<noteq> FailedRetryable"
    using a e by (simp_all add: recovery_state_def build_replica_recovery_state_def r)
  have "n \<in> set (failed_replicas ka)"
    using s(1) \<open>n \<noteq> []\<close> dget_in [OF e(1)] by (auto simp: failed_replicas_def dkeys_def image_iff intro: rev_bexI)
  then have "n \<in> set (excluded_replicas ka)" using s(2) e(3) by (simp add: excluded_replicas_def retryable_replica_def r)
  then show ?thesis by (auto simp: compensation_candidates_def Let_def)
qed

lemma choice_candidates: "set (snd (compensation_choice now start offered ka)) \<subseteq> set (compensation_candidates start offered ka)"
  by (auto simp: compensation_choice_def Let_def split: prod.splits if_splits dest: in_set_takeD)

end
