(* ===== verification/KeepaliveGuarantees.thy ===== *)
theory KeepaliveGuarantees
  imports KeepaliveFacts ClientDemo
begin

text \<open>
  Properties of the keepalive over whole histories, and a session of one replica as an example.
\<close>

section \<open>Heartbeats under way\<close>

definition beats_in_flight :: "keepalive \<Rightarrow> nat" where
  "beats_in_flight ka = length (ka_pending ka) + length (ka_stale ka)"

definition same_calls :: "keepalive \<Rightarrow> keepalive \<Rightarrow> bool" where
  "same_calls a b \<longleftrightarrow> ka_pending b = ka_pending a \<and> ka_stale b = ka_stale a"

lemma same_calls_trans: "same_calls a b \<Longrightarrow> same_calls b c \<Longrightarrow> same_calls a c"
  by (simp add: same_calls_def)

lemma same_calls_fields [simp]:
  "same_calls a (b\<lparr>ka_zero_start := x\<rparr>) = same_calls a b" "same_calls a (b\<lparr>ka_zero_last := x\<rparr>) = same_calls a b"
  "same_calls a (b\<lparr>ka_counts := y\<rparr>) = same_calls a b" "same_calls (a\<lparr>ka_counts := y\<rparr>) b = same_calls a b"
  "same_calls a (upd_ka f b) = same_calls a b"
  by (simp_all add: same_calls_def)

lemma same_calls_small [simp]:
  "same_calls a (discard_active_replica node b) = same_calls a b" "same_calls a (mark_terminal_replica node b) = same_calls a b"
  "same_calls a (discard_retry_probe_replica node b) = same_calls a b" "same_calls a (mark_retry_probe_replica now node b) = same_calls a b"
  "same_calls a (discard_terminal_replica node b) = same_calls a b" "same_calls a (add_active_replica node b) = same_calls a b"
  "same_calls a (upd_handle node f b) = same_calls a b" "same_calls a (blacklist_replica_node node r b) = same_calls a b"
  "same_calls a (blacklist_owner_node node r b) = same_calls a b" "same_calls a a"
  by (simp_all add: same_calls_def ka_defs)

lemma zero_alive_calls: "same_calls ka (fst (handle_zero_alive env now node ka))"
  by (rule zero_alive_path [where R = same_calls]) (auto intro: same_calls_trans)

lemma disconnect_calls: "same_calls ka (fst (record_replica_disconnect_failure now node h e ka))"
  by (simp add: record_replica_disconnect_failure_def Let_def) (simp add: same_calls_def)

lemma failure_calls: "same_calls a b \<Longrightarrow> same_calls a (mark_replica_heartbeat_failure node h e b)"
  by (simp add: mark_replica_heartbeat_failure_def Let_def)

lemma probe_failure_calls: "same_calls a b \<Longrightarrow> same_calls a (mark_replica_heartbeat_probe_failure now node h e b)"
  by (simp add: mark_replica_heartbeat_probe_failure_def Let_def)

lemma reported_calls: "same_calls a b \<Longrightarrow> same_calls a (on_method_failures_reported env node reported b)"
  by (simp add: on_method_failures_reported_def Let_def)

lemma record_failure_calls: "same_calls ka (record_heartbeat_failure now node h e ka)"
proof -
  define ka1 where "ka1 = ka\<lparr>ka_counts := dset node (dget_or (ka_counts ka) node 0 + 1) (ka_counts ka)\<rparr>"
  have e1: "same_calls ka ka1" by (simp add: ka1_def)
  obtain ka2 b where d: "record_replica_disconnect_failure now node h (he_repr e) ka1 = (ka2, b)" by fastforce
  have e2: "same_calls ka ka2" using disconnect_calls [of ka1 now node h "he_repr e"] d same_calls_trans [OF e1] by simp
  show ?thesis unfolding record_heartbeat_failure_def Let_def ka1_def [symmetric] d
    using e1 e2 by (simp add: failure_calls probe_failure_calls split: bool.split)
qed

lemma success_calls: "same_calls ka (mark_replica_heartbeat_success env now node h allow_new ka)"
proof -
  define ka1 where "ka1 = on_method_failures_reported env node
    (case dget (mb_pools (ka_members ka)) (strip node) of None \<Rightarrow> [] | Some p \<Rightarrow> ph_method_failures p) ka"
  define ka2 where "ka2 = discard_retry_probe_replica node (discard_terminal_replica node (ka1\<lparr>ka_counts := dpop node (ka_counts ka1)\<rparr>))"
  define ka3 where "ka3 = upd_ka (\<lambda>m. m\<lparr>mb_failures := dpop node (mb_failures m)\<rparr>) (upd_handle (strip node) (\<lambda>p. p\<lparr>ph_failed := False, ph_last_error := []\<rparr>) ka2)"
  obtain ka4 gone where z: "handle_zero_alive env now node ka3 = (ka4, gone)" by fastforce
  have e1: "same_calls ka ka1" by (simp add: ka1_def reported_calls)
  then have e3: "same_calls ka ka3" by (simp add: ka3_def ka2_def)
  have e4: "same_calls ka ka4" using same_calls_trans [OF e3 zero_alive_calls [of ka3 env now node]] z by simp
  show ?thesis unfolding mark_replica_heartbeat_success_def Let_def ka1_def [symmetric] ka2_def [symmetric] ka3_def [symmetric] z
    using e1 e4 by simp
qed

lemma answer_calls: "same_calls ka (collect_answer env now node hp a ka)"
proof -
  have "same_calls ka (handle_heartbeat_exception now node h e ka)" for h e
    by (simp add: handle_heartbeat_exception_def record_terminal_heartbeat_failure_def record_failure_calls failure_calls)
  moreover have "same_calls ka (mark_replica_heartbeat_success env now node h b (upd_handle node f ka))" for h b f
    by (rule same_calls_trans [OF _ success_calls]) simp
  ultimately show ?thesis by (simp add: collect_answer_def split: heartbeat_outcome.split)
qed

lemma in_flight_same: "same_calls a b \<Longrightarrow> beats_in_flight b = beats_in_flight a"
  by (simp add: same_calls_def beats_in_flight_def)

lemma length_dset: "length (dset k v d) \<le> Suc (length d)"
  by (induction d) auto

lemma length_dpop: "length (dpop k d) \<le> length d"
  by (induction d) auto

lemma length_dpop_less: "dget d k \<noteq> None \<Longrightarrow> length (dpop k d) < length d"
  by (induction d) (auto simp: le_imp_less_Suc length_dpop split: if_splits)

text \<open>A heartbeat that has been looked at is at most moved, and the others stay as they are.\<close>

definition slimmer :: "string \<Rightarrow> keepalive \<Rightarrow> keepalive \<Rightarrow> bool" where
  "slimmer node ka ka' \<longleftrightarrow> beats_in_flight ka' \<le> beats_in_flight ka \<and> (dwf (ka_pending ka) \<longrightarrow> dwf (ka_pending ka')) \<and>
    (\<forall>k. k \<noteq> node \<longrightarrow> dget (ka_pending ka') k = dget (ka_pending ka) k)"

lemma slimmer_same: "same_calls ka ka' \<Longrightarrow> slimmer node ka ka'"
  by (simp add: slimmer_def same_calls_def beats_in_flight_def)

lemma slimmer_gone: "slimmer node ka (ka\<lparr>ka_pending := dpop node (ka_pending ka)\<rparr>)"
  by (simp add: slimmer_def beats_in_flight_def length_dpop dget_dpop)

lemma slimmer_stale:
  assumes "dget (ka_pending ka) node \<noteq> None"
  shows "slimmer node ka (ka\<lparr>ka_pending := dpop node (ka_pending ka), ka_stale := dset node hp (ka_stale ka)\<rparr>)"
  using length_dpop_less [OF assms] length_dset [of node hp "ka_stale ka"] by (simp add: slimmer_def beats_in_flight_def dget_dpop)

lemma slimmer_trans: "slimmer node a b \<Longrightarrow> slimmer node b c \<Longrightarrow> slimmer node a c"
  by (auto simp: slimmer_def)

lemma slimmer_if: "slimmer node ka a \<Longrightarrow> slimmer node ka b \<Longrightarrow> slimmer node ka (if c then a else b)"
  by simp

lemma review_slimmer:
  assumes p: "dget (ka_pending ka) node \<noteq> None"
  shows "slimmer node ka (review_pending env now interval (node, hp) ka)"
proof -
  define gone where "gone = ka\<lparr>ka_pending := dpop node (ka_pending ka)\<rparr>"
  have g: "slimmer node ka gone" unfolding gone_def by (rule slimmer_gone)
  have a: "slimmer node ka (collect_answer env now node hp x gone)" for x by (rule slimmer_trans [OF g slimmer_same [OF answer_calls]])
  have st: "slimmer node ka (gone\<lparr>ka_stale := dset node hp (ka_stale gone)\<rparr>)" using slimmer_stale [OF p] by (simp add: gone_def)
  have late: "slimmer node ka (let ka1 = record_heartbeat_failure now node h e ka; ka2 = ka1\<lparr>ka_pending := dpop node (ka_pending ka1)\<rparr>
      in if b then ka2\<lparr>ka_stale := dset node hp (ka_stale ka2)\<rparr> else ka2)" for h e b
  proof -
    define ka1 where "ka1 = record_heartbeat_failure now node h e ka"
    have s: "same_calls ka ka1" unfolding ka1_def by (rule record_failure_calls)
    then have "dget (ka_pending ka1) node \<noteq> None" using p by (simp add: same_calls_def)
    from slimmer_trans [OF slimmer_same [OF s] slimmer_stale [OF this]] slimmer_trans [OF slimmer_same [OF s] slimmer_gone]
    show ?thesis unfolding Let_def ka1_def [symmetric] by simp
  qed
  show ?thesis unfolding review_pending_def prod.case Let_def gone_def [symmetric]
    by (cases "ke_answer env (hp_call hp) now"; simp only: option.case; intro slimmer_if g a st late [unfolded Let_def] slimmer_same same_calls_small)
qed

lemma reviews_slim:
  assumes "distinct (map fst xs)" "\<forall>x \<in> set xs. dget (ka_pending ka) (fst x) \<noteq> None"
  shows "beats_in_flight (fold (review_pending env now interval) xs ka) \<le> beats_in_flight ka \<and>
    (dwf (ka_pending ka) \<longrightarrow> dwf (ka_pending (fold (review_pending env now interval) xs ka)))"
  using assms
proof (induction xs arbitrary: ka)
  case (Cons x xs)
  obtain node hp where x: "x = (node, hp)" by fastforce
  define ka1 where "ka1 = review_pending env now interval x ka"
  have s: "slimmer node ka ka1" unfolding ka1_def x by (rule review_slimmer) (use Cons.prems(2) x in simp)
  have "\<forall>y \<in> set xs. dget (ka_pending ka1) (fst y) \<noteq> None"
  proof
    fix y assume y: "y \<in> set xs"
    then have "fst y \<noteq> node" using Cons.prems(1) x by force
    then show "dget (ka_pending ka1) (fst y) \<noteq> None" using s Cons.prems(2) y by (simp add: slimmer_def)
  qed
  with Cons.IH [of ka1] Cons.prems(1) s show ?case by (auto simp: slimmer_def ka1_def [symmetric])
qed simp

lemma collect_slims:
  "beats_in_flight (fold (collect_done env now) xs ka) \<le> beats_in_flight ka \<and>
    (dwf (ka_pending ka) \<longrightarrow> dwf (ka_pending (fold (collect_done env now) xs ka)))"
proof (induction xs arbitrary: ka)
  case (Cons x xs)
  obtain node hp where x: "x = (node, hp)" by fastforce
  have "slimmer node ka (collect_done env now x ka)"
    unfolding collect_done_def x prod.case Let_def
    using slimmer_gone [of node ka] slimmer_trans [OF slimmer_gone slimmer_same [OF answer_calls], of node ka env now node hp] slimmer_same [of ka ka node]
    by (auto split: option.split)
  with Cons.IH [of "collect_done env now x ka"] show ?case by (auto simp: slimmer_def)
qed simp

lemma submit_bounded:
  "beats_in_flight (fst (submit_heartbeats env now replicas slots nodes ka)) \<le> beats_in_flight ka + slots \<and>
    (dwf (ka_pending ka) \<longrightarrow> dwf (ka_pending (fst (submit_heartbeats env now replicas slots nodes ka))))"
proof (induction env now replicas slots nodes ka rule: submit_heartbeats.induct)
  case (2 env now replicas slots node nodes ka)
  show ?case
  proof (cases "slots = 0 \<or> dget (ka_pending ka) node \<noteq> None \<or> dget (ka_stale ka) node \<noteq> None \<or> dget replicas node = None \<or> \<not> ke_slot env (ka_calls ka)")
    case True
    have d: "beats_in_flight (discard_active_replica node ka) = beats_in_flight ka" by (rule in_flight_same) simp
    have "ka_pending (discard_active_replica node ka) = ka_pending ka" by (simp add: ka_defs)
    with True 2 d show ?thesis by (auto simp: case_prod_beta beats_in_flight_def split: option.split)
  next
    case False
    then obtain p where p: "dget replicas node = Some p" by auto
    define ka1 where "ka1 = ka\<lparr>ka_pending := dset node \<lparr>hp_handle = ph_handle p, hp_call = ka_calls ka, hp_submitted = now, hp_reported = now\<rparr> (ka_pending ka),
      ka_calls := ka_calls ka + 1\<rparr>"
    have "beats_in_flight ka1 \<le> Suc (beats_in_flight ka)" using length_dset by (simp add: ka1_def beats_in_flight_def)
    moreover have "dwf (ka_pending ka) \<Longrightarrow> dwf (ka_pending ka1)" by (simp add: ka1_def)
    moreover have "beats_in_flight (fst (submit_heartbeats env now replicas (slots - 1) nodes ka1)) \<le> beats_in_flight ka1 + (slots - 1) \<and>
        (dwf (ka_pending ka1) \<longrightarrow> dwf (ka_pending (fst (submit_heartbeats env now replicas (slots - 1) nodes ka1))))"
      using 2(3) False p by (simp add: ka1_def)
    ultimately show ?thesis using False p by (simp add: case_prod_beta Let_def ka1_def [symmetric, simplified]) linarith
  qed
qed simp

definition calls_ok :: "keepalive \<Rightarrow> bool" where
  "calls_ok ka \<longleftrightarrow> beats_in_flight ka \<le> 128 \<and> dwf (ka_pending ka)"

lemma calls_ok_same: "same_calls a b \<Longrightarrow> calls_ok a \<Longrightarrow> calls_ok b"
  by (simp add: same_calls_def calls_ok_def beats_in_flight_def)

lemma max_workers_bound: "heartbeat_max_workers n \<le> 128"
  by (simp add: heartbeat_max_workers_def)

lemma cleanup_slims: "beats_in_flight (cleanup_stale env now ka) \<le> beats_in_flight ka" "ka_pending (cleanup_stale env now ka) = ka_pending ka"
  by (simp_all add: cleanup_stale_def beats_in_flight_def)

lemma tick_calls:
  assumes "calls_ok ka"
  shows "calls_ok (run_heartbeat_tick env now interval ids ka)"
proof -
  define ka1 where "ka1 = cleanup_stale env now ka"
  define ka2 where "ka2 = fold (review_pending env now interval) (ka_pending ka1) ka1"
  define cursor where "cursor = (if ascending ids = [] then ka_cursor ka2 else ka_cursor ka2 mod length (ascending ids))"
  define slots where "slots = heartbeat_max_workers (length ids) - (length (ka_pending ka2) + length (ka_stale ka2))"
  obtain ka3 k where s: "submit_heartbeats env now (mb_pools (ka_members ka)) slots (rotate cursor (ascending ids)) ka2 = (ka3, k)" by fastforce
  define ka4 where "ka4 = (if ascending ids \<noteq> [] \<and> 0 < k then ka3\<lparr>ka_cursor := (cursor + k) mod length (ascending ids)\<rparr> else ka3)"
  have i1: "calls_ok ka1" using assms cleanup_slims [of env now ka] by (auto simp: calls_ok_def ka1_def)
  have "\<forall>x \<in> set (ka_pending ka1). dget (ka_pending ka1) (fst x) \<noteq> None" by (auto simp: map_of_eq_None_iff simp del: not_None_eq)
  with i1 have "beats_in_flight ka2 \<le> beats_in_flight ka1 \<and> dwf (ka_pending ka2)"
    using reviews_slim [of "ka_pending ka1" ka1 env now interval] by (simp add: ka2_def calls_ok_def dwf_def)
  moreover have "beats_in_flight ka3 \<le> beats_in_flight ka2 + slots \<and> (dwf (ka_pending ka2) \<longrightarrow> dwf (ka_pending ka3))"
    using submit_bounded [of env now "mb_pools (ka_members ka)" slots "rotate cursor (ascending ids)" ka2] s by simp
  moreover have "slots + beats_in_flight ka2 \<le> max 128 (beats_in_flight ka2)"
    using max_workers_bound [of "length ids"] by (simp add: slots_def beats_in_flight_def)
  ultimately have "calls_ok ka3" using i1 by (auto simp: calls_ok_def)
  then have "calls_ok ka4" by (simp add: ka4_def calls_ok_def beats_in_flight_def)
  then have "calls_ok (fold (collect_done env now) (ka_pending ka4) ka4)"
    using collect_slims [of env now "ka_pending ka4" ka4] by (auto simp: calls_ok_def)
  then have "calls_ok (cleanup_stale env now (fold (collect_done env now) (ka_pending ka4) ka4))"
    using cleanup_slims [of env now "fold (collect_done env now) (ka_pending ka4) ka4"] by (auto simp: calls_ok_def)
  then show ?thesis unfolding run_heartbeat_tick_def Let_def ka1_def [symmetric] ka2_def [symmetric] cursor_def [symmetric] slots_def [symmetric] s prod.case
      ka4_def [symmetric] .
qed

lemma calls_ok_fields [simp]:
  "calls_ok (ka\<lparr>ka_last_attempt := z\<rparr>) = calls_ok ka" "calls_ok (ka\<lparr>ka_failed := b, ka_stopped := c\<rparr>) = calls_ok ka"
  by (simp_all add: calls_ok_def beats_in_flight_def)

lemma install_calls: "same_calls ka (fst (install_replica env now desired active retryable first node nv p ka))"
proof -
  have a: "same_calls ka (mark_replica_heartbeat_success env now node h True (upd_ka f (upd_ka g ka)))" for h f g
    by (rule same_calls_trans [OF _ success_calls]) simp
  have b: "same_calls ka (record_heartbeat_failure now node h e (upd_ka g ka))" for h e g
    by (rule same_calls_trans [OF _ record_failure_calls]) simp
  show ?thesis unfolding install_replica_def Let_def using a b by (cases first) simp_all
qed

lemma step_calls: "calls_ok ka \<Longrightarrow> calls_ok (keepalive_step env ev ka)"
proof (cases ev)
  case (Round now interval)
  assume c: "calls_ok ka"
  have "calls_ok (fst (keepalive_round env now interval ka))"
    by (rule round_path [where P = calls_ok]) (simp_all add: c tick_calls)
  then show ?thesis by (simp add: Round)
next
  case (Choice now start offered)
  assume c: "calls_ok ka"
  have "same_calls ka (fst (compensation_choice now start offered ka))"
    by (rule choice_path [where P = "same_calls ka"]) (simp_all add: remove_owner_replica_def Let_def, simp_all add: same_calls_def)
  then show ?thesis using c calls_ok_same by (simp add: Choice)
next
  case (Install now desired active retryable first node nv p)
  assume c: "calls_ok ka"
  show ?thesis using calls_ok_same [OF install_calls c] by (simp add: Install)
qed (auto intro: calls_ok_same [rotated] simp: lose_node_def creation_failed_def mark_create_failure_node_blacklisted_def)

section \<open>A session of two replicas\<close>

definition demo_keepalive :: "string list \<Rightarrow> (string, int) dict \<Rightarrow> keepalive" where
  "demo_keepalive probe counts = \<lparr>ka_members = (demo_members 0)\<lparr>mb_probe := probe\<rparr>, ka_method = ''run'', ka_sched_disabled = [], ka_probe_at = [],
     ka_zero_start = [], ka_zero_last = [], ka_disc_last = [], ka_counts = counts, ka_pending = [], ka_stale = [], ka_cursor = 0, ka_calls = 0,
     ka_failed = False, ka_stopped = False, ka_retry_forever = False, ka_deploying = False, ka_spec = Some 2, ka_last_attempt = 0\<rparr>"

definition demo_keepalive_env :: keepalive_env where
  "demo_keepalive_env = \<lparr>ke_started = (\<lambda>_ now. now), ke_answer = (\<lambda>_ _. Some (Beat PlainReply)), ke_cancels = (\<lambda>_ _. False), ke_slot = (\<lambda>_. True),
     ke_missing = (\<lambda>_. []), ke_fixed3 = (\<lambda>_. [])\<rparr>"

definition demo_view :: node_view where
  "demo_view = \<lparr>nv_node_id = ''n1'', nv_inflight = 0, nv_worker_available = 1, nv_credit = 1, nv_capability = []\<rparr>"

definition raised :: "string \<Rightarrow> string \<Rightarrow> heartbeat_error" where
  "raised cls txt = \<lparr>he_failure = Raised [\<lparr>lk_class = cls, lk_text = txt, lk_repr = cls @ ''('' @ txt @ '')'', lk_transient = False\<rparr>],
     he_repr = cls @ ''('' @ txt @ '')'', he_timeout = False\<rparr>"

section \<open>Properties\<close>

text \<open>
  once the owner blacklists a node, no history of heartbeats, reports, failed creations and new
  replicas makes it active again, and no compensation chooses it.
\<close>

theorem blacklisted_node_stays_out:
  assumes node: "strip node \<noteq> []" and history: "ka' = fold (keepalive_step env) evs (blacklist_owner_node node reason ka)"
  shows "strip node \<notin> set (mb_active (ka_members ka')) \<and> strip node \<notin> fst ` set (snd (compensation_choice now start offered ka'))"
proof -
  have "barred (strip node) (blacklist_owner_node node reason ka)"
    using node by (auto simp: barred_def node_blocked_def ka_defs dget_dset dget_or_def str_or_def)
  then have b: "barred (strip node) ka'" unfolding history by (rule barred_history [OF strip_idem])
  then have "strip node \<notin> fst ` set (compensation_candidates start offered ka')"
    using node by (auto simp: barred_def node_blocked_def compensation_candidates_def create_failure_node_block_reason_def Let_def)
  with b choice_candidates show ?thesis unfolding barred_def by blast
qed

theorem blacklisted_node_stays_out_witness:
  "strip '' n1'' \<notin> set (mb_active (ka_members (fold (keepalive_step demo_keepalive_env)
      [Round 10 1, Install 20 2 [] [''n1''] (Beat (AliveReply 2)) ''n1'' demo_view (demo_pool 0), Round 30 1]
      (blacklist_owner_node '' n1'' ''import'' (demo_keepalive [] [])))))"
  by (rule blacklisted_node_stays_out [THEN conjunct1, OF _ refl]) code_simp



text \<open>
  a terminal heartbeat error of a replica on retry probe does not take it off the probe: it is
  terminal and gets no heartbeat any more, while the client still takes results from it.
\<close>

theorem terminal_failure_stays_on_probe:
  assumes "strip n = n" "is_current_replica n h ka" "n \<in> set (mb_probe (ka_members ka))" "classify_heartbeat_error e = HeartbeatTerminal"
    and "ka' = handle_heartbeat_exception now n h e ka"
  shows "is_terminal_replica n ka' \<and> n \<notin> set (heartbeat_ids ka') \<and> n \<in> set (mb_probe (ka_members ka')) \<and>
    can_accept_result_from_node n (cl\<lparr>cl_members := ka_members ka'\<rparr>)"
  using assms by (simp add: handle_heartbeat_exception_def record_terminal_heartbeat_failure_def can_accept_heartbeat_success_def is_current_replica_def
      mark_replica_heartbeat_failure_def is_terminal_replica_def heartbeat_ids_def can_accept_result_from_node_def ka_defs dget_dset split: option.splits)

theorem terminal_failure_stays_on_probe_witness:
  "is_terminal_replica ''n1'' (handle_heartbeat_exception 5 ''n1'' 0 (raised ''RuntimeError'' ''task pool not found'') (demo_keepalive [''n1''] []))"
  by (rule terminal_failure_stays_on_probe [THEN conjunct1, OF _ _ _ _ refl]) code_simp+

text \<open>
  however long a session lives, at most 128 of its heartbeats are under way, those whose replica
  was replaced or whose answer is no longer awaited included.
\<close>

theorem heartbeats_under_way_bounded:
  assumes "ka_pending ka = []" "ka_stale ka = []"
  shows "beats_in_flight (fold (keepalive_step env) evs ka) \<le> 128"
proof -
  have "calls_ok ka" using assms by (simp add: calls_ok_def beats_in_flight_def)
  then have "calls_ok (fold (keepalive_step env) evs ka)" by (rule fold_keeps [where Q = calls_ok, rotated]) (rule step_calls)
  then show ?thesis by (simp add: calls_ok_def)
qed

theorem heartbeats_under_way_bounded_witness:
  "beats_in_flight (fold (keepalive_step demo_keepalive_env) [Round 10 1, Round 20 1] (demo_keepalive [] [])) \<le> 128"
  by (rule heartbeats_under_way_bounded) (simp_all add: demo_keepalive_def)

end
