(* ===== verification/DiscoveryCalls.thy ===== *)
theory DiscoveryCalls
  imports DiscoveryCache DataRefs
begin

text \<open>
  Calling a service through the route cache (controlplane/discovery_client.py,
  \<open>DiscoveryServiceClient.call\<close> and \<open>list_methods\<close>): a route is selected and called; on a failure that
  another route may cure the breaker of the route is told and the next one is tried. What the
  routes answer, the routes the info centre names, the clock, and what other callers do to the
  cache between two of its locked sections, are the environment's, each a function of the number of
  such moments so far. The state also keeps a log of the calls that went out.
\<close>

section \<open>State\<close>

text \<open>
  A route answers with a body, with an HTTP error, or preparing or sending the call raises. Of the
  data of an error the texts are kept.
\<close>

datatype route_reply = RouteAnswer payload | RouteRefuses int "(string, string) dict" | RouteRaises string

record discovery_env =
  dv_clock :: "nat \<Rightarrow> instant"
  dv_rows :: "nat \<Rightarrow> py_error + service_route list"
  dv_event :: "nat \<Rightarrow> bool"
  dv_others :: "nat \<Rightarrow> discovery_cache \<Rightarrow> discovery_cache"
  dv_reply :: "nat \<Rightarrow> service_route \<Rightarrow> route_reply"
  dv_target :: string
  dv_rep :: "pyval \<Rightarrow> string"

record service_call =
  sc_cache :: discovery_cache
  sc_moments :: nat
  sc_tried :: "string list"
  sc_attempts :: int
  sc_failed :: int
  sc_last_failed :: string
  sc_last_error :: "string option"
  sc_forced :: bool
  sc_log :: "(service_route \<times> route_reply) list"

definition new_call :: "discovery_cache \<Rightarrow> service_call" where
  "new_call c = \<lparr>sc_cache = c, sc_moments = 0, sc_tried = [], sc_attempts = 0, sc_failed = 0, sc_last_failed = [],
     sc_last_error = None, sc_forced = False, sc_log = []\<rparr>"

definition others_act :: "discovery_env \<Rightarrow> service_call \<Rightarrow> service_call" where
  "others_act env st = st\<lparr>sc_cache := dv_others env (sc_moments st) (sc_cache st), sc_moments := Suc (sc_moments st)\<rparr>"

definition clock :: "discovery_env \<Rightarrow> service_call \<Rightarrow> instant" where
  "clock env st = dv_clock env (sc_moments st)"

definition upd_cache_book :: "(route_book \<Rightarrow> route_book) \<Rightarrow> service_call \<Rightarrow> service_call" where
  "upd_cache_book f st = st\<lparr>sc_cache := (sc_cache st)\<lparr>dc_book := f (dc_book (sc_cache st))\<rparr>\<rparr>"

section \<open>The cache in use\<close>

definition refresh :: "discovery_env \<Rightarrow> string \<Rightarrow> bool \<Rightarrow> service_call \<Rightarrow> service_call \<times> (py_error + service_route list)" where
  "refresh env name force st =
    (if name = [] then (st, Inl (ValueError ''service_name is required'')) else
     let st0 = others_act env st in
     case refresh_begin name force (clock env st0) (sc_cache st0) of
       (c, Fresh rows) \<Rightarrow> (st0\<lparr>sc_cache := c\<rparr>, Inr rows)
     | (c, Waiter previous) \<Rightarrow>
         let st1 = others_act env (st0\<lparr>sc_cache := c\<rparr>)
         in (st1, refresh_wait name previous (dv_event env (sc_moments st1)) (sc_cache st1))
     | (c, Owner) \<Rightarrow>
         let st1 = others_act env (st0\<lparr>sc_cache := c\<rparr>)
         in (case refresh_finish name (dv_rows env (sc_moments st1)) (clock env st1) (sc_cache st1) of
               (c1, res) \<Rightarrow> (st1\<lparr>sc_cache := c1\<rparr>, res)))"

definition refresh_for_method ::
    "discovery_env \<Rightarrow> string \<Rightarrow> string \<Rightarrow> bool \<Rightarrow> service_call \<Rightarrow> service_call \<times> (py_error + service_route list)" where
  "refresh_for_method env name method force st =
    (case refresh env name force st of
       (st1, Inl e) \<Rightarrow> (st1, Inl e)
     | (st1, Inr rows) \<Rightarrow> (st1, Inr (routes_for_method method rows)))"

definition select_for ::
    "discovery_env \<Rightarrow> string \<Rightarrow> string list \<Rightarrow> string \<Rightarrow> string \<Rightarrow> service_call \<Rightarrow> service_call \<times> (py_error + service_route)" where
  "select_for env name excluded strategy method st =
    (case refresh_for_method env name method False st of
       (st1, Inl e) \<Rightarrow> (st1, Inl e)
     | (st1, Inr rows) \<Rightarrow>
         let st2 = others_act env st1
         in (case select_route name excluded strategy (clock env st2) (clock env st2) rows (sc_cache st2) of
               (c, res) \<Rightarrow> (st2\<lparr>sc_cache := c\<rparr>, res)))"

section \<open>Errors of a call\<close>

fun error_str :: "py_error \<Rightarrow> string" where
  "error_str (ValueError s) = s"
| "error_str (KeyError s) = s"
| "error_str (RuntimeError s) = s"
| "error_str (PermissionError s) = s"
| "error_str (TimeoutError s) = s"
| "error_str (OverflowError s) = s"
| "error_str (TypeError s) = s"
| "error_str (OtherError s) = s"

definition discovery_error_str :: "int \<Rightarrow> (string, string) dict \<Rightarrow> string" where
  "discovery_error_str status data =
    (let dflt = ''http '' @ str_int status; message = str_or (dget_or data ''error'' dflt) dflt;
         kind = strip (dget_or data ''error_type'' []); trace = strip (dget_or data ''traceback'' []);
         shown = (if kind \<noteq> [] \<and> \<not> contains kind message then message @ '' ('' @ kind @ '')'' else message)
     in if trace = [] then shown else shown @ [CHR 0x0A] @ trace)"

definition is_route_failure :: "int \<Rightarrow> (string, string) dict \<Rightarrow> bool" where
  "is_route_failure status data =
    (let msg = lower (dget_or data ''error'' []); kind = lower (dget_or data ''error_type'' []); both = kind @ '' '' @ msg
     in if list_ex (\<lambda>m. contains m both) [''usererror'', ''failed_user'', ''user error''] then False
        else if status \<in> {502, 503, 504} then True
        else if status \<notin> {404, 409, 500} then False
        else list_ex (\<lambda>m. contains m msg) [''service not found'', ''service not running'', ''service executor stopped'', ''artifact missing''])"

definition discovery_error_kind :: "int \<Rightarrow> (string, string) dict \<Rightarrow> string" where
  "discovery_error_kind status data = classify_service_error \<lparr>exc_message = discovery_error_str status data, exc_data = Some data\<rparr> (is_route_failure status data)"

section \<open>The loop\<close>

record call_args =
  ca_name :: string
  ca_method :: string
  ca_strategy :: string

datatype call_end = Returned payload | Raises py_error | CallGoing

definition observe :: "discovery_env \<Rightarrow> call_args \<Rightarrow> string \<Rightarrow> service_call \<Rightarrow> service_call" where
  "observe env args selected st = st\<lparr>sc_cache := record_call_observation (ca_name args)
     \<lparr>co_route_attempt_count = sc_attempts st, co_failed_route_count = sc_failed st, co_last_failed_route_id = sc_last_failed st,
      co_selected_route_id = selected, co_updated_at = clock env st\<rparr> (sc_cache st)\<rparr>"

definition untried :: "string list \<Rightarrow> service_route list \<Rightarrow> bool" where
  "untried tried rows = list_ex (\<lambda>r. rt_service_id r \<notin> set tried) rows"

definition has_untried_cached_route :: "discovery_env \<Rightarrow> call_args \<Rightarrow> service_call \<Rightarrow> service_call \<times> bool" where
  "has_untried_cached_route env args st =
    (case refresh_for_method env (ca_name args) (ca_method args) False st of
       (st1, Inl e) \<Rightarrow> (st1, False)
     | (st1, Inr rows) \<Rightarrow>
         if untried (sc_tried st1) rows then (st1, True)
         else if sc_forced st1 then (st1, False)
         else (case refresh_for_method env (ca_name args) (ca_method args) True (st1\<lparr>sc_forced := True\<rparr>) of
                 (st2, Inl e) \<Rightarrow> (st2, False)
               | (st2, Inr rows) \<Rightarrow> (st2, untried (sc_tried st2) rows)))"

text \<open>The handler of a failed attempt. An exception of the breaker leaves the handler.\<close>

definition attempt_failed :: "discovery_env \<Rightarrow> call_args \<Rightarrow> service_route \<Rightarrow> string \<Rightarrow> string \<Rightarrow> service_call \<Rightarrow> service_call \<times> call_end" where
  "attempt_failed env args r kind message st =
    (case has_untried_cached_route env args (st\<lparr>sc_last_error := Some message\<rparr>) of
       (st1, alternative) \<Rightarrow>
         let st2 = others_act env st1
         in if \<not> should_failover kind alternative
            then (observe env args [] (upd_cache_book (release_route r) st2), Raises (RuntimeError message))
            else
              let st3 = st2\<lparr>sc_failed := sc_failed st2 + 1, sc_last_failed := rt_service_id r\<rparr>
              in (case mark_failure (dc_open_sec (sc_cache st3)) message (clock env st3) r (dc_book (sc_cache st3)) of
                    (b, exc) \<Rightarrow> (upd_cache_book (\<lambda>_. b) st3, case exc of None \<Rightarrow> CallGoing | Some e \<Rightarrow> Raises e)))"

definition attach_controlplane_locator :: "discovery_env \<Rightarrow> service_route \<Rightarrow> payload \<Rightarrow> py_error + payload" where
  "attach_controlplane_locator env r response = (case dget response ''data'' of
     None \<Rightarrow> Inr response
   | Some v \<Rightarrow>
       let addr = strip (rt_control_addr r); base = strip (rt_http_base_url r)
       in ebind (if addr = [] \<and> base \<noteq> []
             then with_data_ref_locator (dv_rep env) v ''service_http'' base (rt_node_id r) (rt_node_instance_id r) []
             else with_data_ref_locator (dv_rep env) v (if addr \<noteq> [] then ''node_control'' else ''controlplane'')
               (str_or addr (dv_target env)) (rt_node_id r) (rt_node_instance_id r) addr)
           (\<lambda>updated. Inr (dset ''data'' updated response)))"

definition call_route :: "discovery_env \<Rightarrow> call_args \<Rightarrow> service_route \<Rightarrow> service_call \<Rightarrow> service_call \<times> call_end" where
  "call_route env args r st =
    (let st1 = others_act env st; reply = dv_reply env (sc_moments st1) r; st2 = st1\<lparr>sc_log := sc_log st1 @ [(r, reply)]\<rparr>
     in case reply of
          RouteAnswer body \<Rightarrow>
            let st3 = observe env args (rt_service_id r) (upd_cache_book (mark_success r) st2)
            in (case attach_controlplane_locator env r body of
                  Inr v \<Rightarrow> (st3, Returned v)
                | Inl e \<Rightarrow> attempt_failed env args r STAGING_FAILED (error_str e) st3)
        | RouteRefuses status data \<Rightarrow> attempt_failed env args r (discovery_error_kind status data) (discovery_error_str status data) st2
        | RouteRaises message \<Rightarrow> attempt_failed env args r STAGING_FAILED message st2)"

definition call_pass :: "discovery_env \<Rightarrow> call_args \<Rightarrow> service_call \<Rightarrow> service_call \<times> call_end" where
  "call_pass env args st =
    (case select_for env (ca_name args) (sc_tried st) (ca_strategy args) (ca_method args) st of
       (st1, Inl e) \<Rightarrow> (observe env args [] st1, Raises (RuntimeError (case sc_last_error st1 of Some m \<Rightarrow> m | None \<Rightarrow> error_str e)))
     | (st1, Inr r) \<Rightarrow>
         if rt_service_id r \<in> set (sc_tried st1)
         then (observe env args [] (upd_cache_book (release_route r) (others_act env st1)),
               Raises (RuntimeError (case sc_last_error st1 of Some m \<Rightarrow> m | None \<Rightarrow> ''no untried route for service_name='' @ ca_name args)))
         else call_route env args r (st1\<lparr>sc_tried := rt_service_id r # sc_tried st1, sc_attempts := sc_attempts st1 + 1\<rparr>))"

fun call_passes :: "discovery_env \<Rightarrow> call_args \<Rightarrow> nat \<Rightarrow> service_call \<Rightarrow> service_call \<times> call_end" where
  "call_passes env args 0 st = (st, CallGoing)"
| "call_passes env args (Suc fuel) st =
    (case call_pass env args st of (st1, CallGoing) \<Rightarrow> call_passes env args fuel st1 | ended \<Rightarrow> ended)"

definition discovery_call :: "discovery_env \<Rightarrow> string \<Rightarrow> string \<Rightarrow> string \<Rightarrow> nat \<Rightarrow> discovery_cache \<Rightarrow> service_call \<times> call_end" where
  "discovery_call env service_name method strategy fuel c =
    (let name = strip service_name; method_name = strip method; st = new_call c
     in if name = [] then (st, Raises (ValueError ''service_name is required''))
        else if method_name = [] then (st, Raises (ValueError ''method is required''))
        else call_passes env \<lparr>ca_name = name, ca_method = method_name, ca_strategy = strategy\<rparr> fuel st)"

section \<open>Listing methods\<close>

text \<open>The first failure, of the selection or of the route, is retried on another route after a refresh.\<close>

definition list_methods :: "discovery_env \<Rightarrow> (nat \<Rightarrow> service_route \<Rightarrow> py_error + 'm) \<Rightarrow> string \<Rightarrow> string \<Rightarrow> service_call \<Rightarrow> service_call \<times> (py_error + 'm)" where
  "list_methods env answer service_name strategy st =
    (let name = strip service_name;
         retry = (\<lambda>tried st. case refresh env name True st of
           (st1, Inl e) \<Rightarrow> (st1, Inl e)
         | (st1, Inr _) \<Rightarrow> (case select_for env name tried strategy [] st1 of
             (st2, Inl e) \<Rightarrow> (st2, Inl e)
           | (st2, Inr r) \<Rightarrow> let st3 = others_act env st2 in (case answer (sc_moments st3) r of
               Inl e \<Rightarrow> (st3, Inl e)
             | Inr methods \<Rightarrow> (upd_cache_book (mark_success r) st3, Inr methods))))
     in case select_for env name [] strategy [] st of
          (st1, Inl e) \<Rightarrow> retry [] st1
        | (st1, Inr r) \<Rightarrow> let st2 = others_act env st1 in (case answer (sc_moments st2) r of
            Inr methods \<Rightarrow> (upd_cache_book (mark_success r) st2, Inr methods)
          | Inl e \<Rightarrow> (case mark_failure (dc_open_sec (sc_cache st2)) (error_str e) (clock env st2) r (dc_book (sc_cache st2)) of
              (b, Some e') \<Rightarrow> (upd_cache_book (\<lambda>_. b) st2, Inl e')
            | (b, None) \<Rightarrow> retry [rt_service_id r] (upd_cache_book (\<lambda>_. b) st2))))"

end
