(* ===== verification/DiscoveryCallFacts.thy ===== *)
theory DiscoveryCallFacts
  imports DiscoveryCalls
begin

text \<open>
  What a call through the route cache guarantees: which failures it answers by calling another
  route, that it ends, and how a failed probe can keep a route out of use for good.
\<close>

section \<open>What the sections leave alone\<close>

text \<open>The parts of a call that only its own loop changes.\<close>

definition same_attempts :: "service_call \<Rightarrow> service_call \<Rightarrow> bool" where
  "same_attempts st st' \<longleftrightarrow> sc_tried st' = sc_tried st \<and> sc_log st' = sc_log st"

lemma same_attempts_refl [simp]: "same_attempts st st"
  by (simp add: same_attempts_def)

lemma same_attempts_trans: "same_attempts a b \<Longrightarrow> same_attempts b c \<Longrightarrow> same_attempts a c"
  by (simp add: same_attempts_def)

lemma same_attempts_fields [simp]:
  "same_attempts a (b\<lparr>sc_cache := x\<rparr>) = same_attempts a b" "same_attempts a (others_act env b) = same_attempts a b"
  "same_attempts a (upd_cache_book f b) = same_attempts a b" "same_attempts a (b\<lparr>sc_forced := y\<rparr>) = same_attempts a b"
  "same_attempts a (b\<lparr>sc_last_error := z\<rparr>) = same_attempts a b" "same_attempts a (b\<lparr>sc_failed := u, sc_last_failed := v\<rparr>) = same_attempts a b"
  "same_attempts a (observe env args sel b) = same_attempts a b"
  by (simp_all add: same_attempts_def others_act_def upd_cache_book_def observe_def)

lemma refresh_attempts: "same_attempts st (fst (refresh env name force st))"
  by (simp add: refresh_def Let_def split: prod.split refresh_role.split)

lemma refresh_for_method_attempts: "same_attempts st (fst (refresh_for_method env name meth force st))"
  using refresh_attempts [of st env name force] by (auto simp: refresh_for_method_def split: prod.split sum.split)

lemma select_for_attempts: "same_attempts st (fst (select_for env name excluded strategy meth st))"
  using refresh_for_method_attempts [of st env name meth False]
  by (auto simp: select_for_def Let_def split: prod.split sum.split)

lemma has_untried_attempts: "same_attempts st (fst (has_untried_cached_route env args st))"
proof -
  obtain st1 res where r: "refresh_for_method env (ca_name args) (ca_method args) False st = (st1, res)" by fastforce
  have a: "same_attempts st st1" using refresh_for_method_attempts [of st env "ca_name args" "ca_method args" False] r by simp
  have b: "same_attempts st (fst (refresh_for_method env name m f (st1\<lparr>sc_forced := x\<rparr>)))" for name m f x
    by (rule same_attempts_trans [OF _ refresh_for_method_attempts]) (simp add: a)
  show ?thesis unfolding has_untried_cached_route_def r prod.case
    using a b [of "ca_name args" "ca_method args" True True] by (auto split: sum.split prod.split)
qed

lemma attempt_failed_attempts: "same_attempts st (fst (attempt_failed env args r kind message st))"
proof -
  obtain st1 alt where h: "has_untried_cached_route env args (st\<lparr>sc_last_error := Some message\<rparr>) = (st1, alt)" by fastforce
  have "same_attempts st st1"
    using same_attempts_trans [OF _ has_untried_attempts [of "st\<lparr>sc_last_error := Some message\<rparr>" env args], of st] h by simp
  then show ?thesis unfolding attempt_failed_def h by (simp add: Let_def split: prod.split)
qed

text \<open>A failure is answered by another attempt only when its kind allows that.\<close>

lemma attempt_failed_goes_on: "snd (attempt_failed env args r kind message st) = CallGoing \<Longrightarrow> should_failover kind True"
  by (auto simp: attempt_failed_def Let_def should_failover_def split: prod.splits if_splits)

lemma attempt_failed_never_returns: "snd (attempt_failed env args r kind message st) \<noteq> Returned v"
  by (auto simp: attempt_failed_def Let_def split: prod.splits option.splits)

section \<open>The route selected\<close>

lemma probe_selected_mem: "probe_selected now sel rs b = (b', Some r) \<Longrightarrow> r \<in> set rs"
  by (induction now sel rs b rule: probe_selected.induct) (auto split: if_splits prod.splits bool.splits)

lemma choose_route_mem:
  assumes "choose_route name strategy profile idx now cands b = (b', Inr r)" "cands \<noteq> []"
  shows "r \<in> set cands"
  using assms round_robin_mem [OF assms(2), of idx] least_mem [OF assms(2)]
  by (auto simp: choose_route_def Let_def split: if_splits sum.splits prod.splits option.splits dest: probe_selected_mem)

lemma available_sub: "available_routes name now rs b = (b', oks) \<Longrightarrow> set oks \<subseteq> set rs"
  by (auto simp: available_scan)

lemma select_route_mem:
  assumes "select_route name excluded strategy now t rows c = (c', Inr r)"
  shows "r \<in> set rows \<and> rt_service_id r \<notin> set excluded"
proof -
  obtain cands where c: "unconflicted (call_candidates excluded rows) = Inr cands"
    using assms by (cases "unconflicted (call_candidates excluded rows)") (simp_all add: select_route_def)
  obtain b av where a: "available_routes (strip name) now cands (dc_book c) = (b, av)" by fastforce
  have ne: "av \<noteq> []" using assms by (auto simp: select_route_def c a)
  have "r \<in> set av" using assms choose_route_mem [OF _ ne] ne
    by (auto simp: select_route_def c a Let_def split: prod.splits)
  then have "r \<in> set (call_candidates excluded rows)" using available_sub [OF a] unconflicted_subset [OF c] by blast
  then show ?thesis by (auto simp: call_candidates_def)
qed

lemma routes_for_method_sub: "set (routes_for_method meth rows) \<subseteq> set rows"
  by (auto simp: routes_for_method_def)

lemma select_for_excluded: "select_for env name excluded strategy meth st = (st', Inr r) \<Longrightarrow> rt_service_id r \<notin> set excluded"
  using select_route_mem by (auto simp: select_for_def Let_def split: prod.splits sum.splits)

section \<open>Which failures are answered by another call\<close>

fun may_be_retried :: "route_reply \<Rightarrow> bool" where
  "may_be_retried (RouteAnswer body) = False"
| "may_be_retried (RouteRefuses status data) = (discovery_error_kind status data \<noteq> REMOTE_USER_FAILED)"
| "may_be_retried (RouteRaises message) = True"

lemma failover_user: "\<not> should_failover REMOTE_USER_FAILED alternative"
proof -
  have "upper (strip REMOTE_USER_FAILED) \<notin>
    {ROUTE_UNAVAILABLE, STAGING_FAILED, STATUS_LOOKUP_FAILED, CONTROLPLANE_UNAVAILABLE, SUBMIT_FAILED, REMOTE_INFRA_FAILED}" by code_simp
  then show ?thesis by (simp only: should_failover_def if_False) simp
qed

text \<open>References are made by their constructor, those in an answer too.\<close>

definition constructed :: "data_ref \<Rightarrow> bool" where
  "constructed x \<longleftrightarrow> (\<exists>z. data_ref_post_init z = Inr x)"

definition built_answers :: "discovery_env \<Rightarrow> bool" where
  "built_answers env \<longleftrightarrow> (\<forall>n r body x. dv_reply env n r = RouteAnswer body \<longrightarrow> dget body ''data'' = Some (PRef x) \<longrightarrow> constructed x)"

text \<open>Changing where a constructed reference is found constructs it again.\<close>

lemma relocate_total:
  assumes "constructed x"
  shows "\<exists>z. data_ref_post_init (x\<lparr>ref_locator_kind := k, ref_locator_token := t, ref_node_id := i, ref_node_instance_id := j, ref_control_addr := a\<rparr>) = Inr z"
proof -
  obtain r where r: "data_ref_post_init r = Inr x" using assms by (auto simp: constructed_def)
  note f = post_init_Inr [OF r]
  have id: "ref_id x \<noteq> []" "normalize_data_ref_id (ref_id x) = Inr (ref_id x)" using normalize_data_ref_id_Inr [OF f(1)] by blast+
  have sid: "normalize_storage_id (ref_storage_id x) (ref_id x) = Inr (ref_storage_id x)" using normalize_storage_id_Inr [OF f(2)] by blast
  have mat: "normalize_data_ref_materialize_as (ref_materialize_as x) ''auto'' = Inr (ref_materialize_as x)"
    using normalize_materialize_Inr [OF f(3)] by blast
  have lt: "infer_logical_type (ref_logical_type x) (ref_format x) (ref_materialize_as x) = Inr (ref_logical_type x)"
    using infer_logical_type_Inr [OF f(4)] by blast
  have fmt: "normalize_object_format (ref_format x) [] ''bin'' = ref_format x" by (simp add: f(5) normalize_object_format_idem)
  show ?thesis using id sid mat lt fmt by (simp add: data_ref_post_init_def Let_def)
qed

lemma coerced_constructed:
  assumes "maybe_data_ref rep v = Some x" "\<And>y. v = PRef y \<Longrightarrow> constructed y"
  shows "constructed x"
proof (cases v)
  case (PRef y)
  then show ?thesis using assms by simp
next
  case (PDict p)
  then show ?thesis using assms(1) unfolding constructed_def
    by (auto simp: maybe_data_ref_def coerce_data_ref_def data_ref_from_payload_def ebind_eq_Inr Let_def split: sum.splits if_splits pyval.splits list.splits prod.splits)
qed (use assms in \<open>auto simp: maybe_data_ref_def coerce_data_ref_def split: sum.splits\<close>)

lemma with_locator_total:
  assumes "\<And>y. v = PRef y \<Longrightarrow> constructed y"
  shows "\<exists>u. with_data_ref_locator rep v k t i j a = Inr u"
proof (cases "maybe_data_ref rep v")
  case (Some x)
  have "\<exists>u. as_value (data_ref_post_init (x\<lparr>ref_locator_kind := k', ref_locator_token := t', ref_node_id := i', ref_node_instance_id := j',
      ref_control_addr := a'\<rparr>)) = Inr u" for k' t' i' j' a'
    using relocate_total [OF coerced_constructed [OF Some assms], where k = k' and t = t' and i = i' and j = j' and a = a'] by (auto simp: as_value_def)
  then show ?thesis unfolding with_data_ref_locator_def Let_def Some option.case by (cases "lower (strip k) = [] \<or> strip t = []") (simp_all only: if_True if_False, simp)
qed (simp add: with_data_ref_locator_def Let_def)

lemma attach_total:
  assumes "\<And>y. dget body ''data'' = Some (PRef y) \<Longrightarrow> constructed y"
  shows "\<exists>v. attach_controlplane_locator env r body = Inr v"
proof (cases "dget body ''data''")
  case (Some v)
  have "\<exists>u. with_data_ref_locator rep v k t i j a = Inr u" for rep k t i j a
    by (rule with_locator_total) (use assms Some in blast)
  then show ?thesis by (simp add: attach_controlplane_locator_def Some Let_def) (metis ebind_simps(2))
qed (simp add: attach_controlplane_locator_def)

section \<open>The log of a call\<close>

definition log_ids :: "service_call \<Rightarrow> string list" where
  "log_ids st = map (\<lambda>(r, _). rt_service_id r) (sc_log st)"

definition log_ok :: "service_call \<Rightarrow> bool" where
  "log_ok st \<longleftrightarrow> distinct (log_ids st) \<and> set (log_ids st) \<subseteq> set (sc_tried st) \<and> (\<forall>(r, reply) \<in> set (sc_log st). may_be_retried reply)"

definition ended_well :: "discovery_env \<Rightarrow> service_call \<Rightarrow> call_end \<Rightarrow> bool" where
  "ended_well env st e \<longleftrightarrow> distinct (log_ids st) \<and> (\<forall>(r, reply) \<in> set (butlast (sc_log st)). may_be_retried reply) \<and>
    (case e of
       Returned v \<Rightarrow> \<exists>r body. sc_log st \<noteq> [] \<and> last (sc_log st) = (r, RouteAnswer body) \<and> attach_controlplane_locator env r body = Inr v
     | Raises err \<Rightarrow> \<forall>(r, reply) \<in> set (sc_log st). \<forall>body. reply \<noteq> RouteAnswer body
     | CallGoing \<Rightarrow> log_ok st)"

lemma log_ok_same: "same_attempts st st' \<Longrightarrow> log_ok st' = log_ok st"
  by (simp add: same_attempts_def log_ok_def log_ids_def)

lemma log_ok_ends: "log_ok st \<Longrightarrow> ended_well env st (Raises err)"
  by (auto simp: log_ok_def ended_well_def dest: in_set_butlastD)

text \<open>What an attempt adds to the log, and how it ends.\<close>

lemma attempt_ends:
  assumes log: "sc_log st = sc_log st0 @ [(r, reply)]" and tried: "sc_tried st = rt_service_id r # sc_tried st0"
    and ok: "log_ok st0" and new: "rt_service_id r \<notin> set (sc_tried st0)"
    and kind: "should_failover kind True \<Longrightarrow> may_be_retried reply" and "\<And>body. reply \<noteq> RouteAnswer body"
  shows "ended_well env (fst (attempt_failed env args r kind message st)) (snd (attempt_failed env args r kind message st))"
proof -
  obtain st' e where a: "attempt_failed env args r kind message st = (st', e)" by fastforce
  have s: "same_attempts st st'" using attempt_failed_attempts [of st env args r kind message] a by simp
  have d: "distinct (log_ids st')" "set (log_ids st') \<subseteq> set (sc_tried st')"
    using log tried ok new s by (auto simp: log_ok_def log_ids_def same_attempts_def)
  have old: "\<forall>(r, reply) \<in> set (butlast (sc_log st')). may_be_retried reply"
    using log ok s by (simp add: log_ok_def same_attempts_def)
  have "\<forall>(r, reply) \<in> set (sc_log st'). \<forall>body. reply \<noteq> RouteAnswer body"
    using log ok s assms(6) by (fastforce simp: log_ok_def same_attempts_def)
  moreover have "log_ok st'" if "e = CallGoing"
  proof -
    have "may_be_retried reply" using attempt_failed_goes_on [of env args r kind message st] a that kind by simp
    then show ?thesis using d log ok s by (auto simp: log_ok_def same_attempts_def)
  qed
  ultimately show ?thesis using d old attempt_failed_never_returns [of env args r kind message st] a
    by (simp add: ended_well_def split: call_end.split)
qed

lemma call_route_ends:
  assumes built: "built_answers env" and ok: "log_ok st0" and new: "rt_service_id r \<notin> set (sc_tried st0)"
    and st: "sc_log st = sc_log st0" "sc_tried st = rt_service_id r # sc_tried st0"
  shows "ended_well env (fst (call_route env args r st)) (snd (call_route env args r st))"
proof -
  define st1 where "st1 = others_act env st"
  define st2 where "st2 = st1\<lparr>sc_log := sc_log st1 @ [(r, dv_reply env (sc_moments st1) r)]\<rparr>"
  have log: "sc_log st2 = sc_log st0 @ [(r, dv_reply env (sc_moments st1) r)]" and tried: "sc_tried st2 = rt_service_id r # sc_tried st0"
    using st by (simp_all add: st2_def st1_def others_act_def)
  note fails = attempt_ends [OF log tried ok new]
  show ?thesis
  proof (cases "dv_reply env (sc_moments st1) r")
    case (RouteAnswer body)
    then obtain v where v: "attach_controlplane_locator env r body = Inr v"
      using attach_total [of body env r] built by (auto simp: built_answers_def)
    define st3 where "st3 = observe env args (rt_service_id r) (upd_cache_book (mark_success r) st2)"
    have s: "same_attempts st2 st3" by (simp add: st3_def)
    have "ended_well env st3 (Returned v)"
      using s log tried ok new v RouteAnswer by (auto simp: ended_well_def same_attempts_def log_ok_def log_ids_def)
    then show ?thesis unfolding call_route_def Let_def unfolding st1_def [symmetric]
      unfolding st2_def [symmetric] unfolding RouteAnswer route_reply.case v sum.case st3_def [symmetric] by simp
  next
    case (RouteRefuses status data)
    have "may_be_retried (dv_reply env (sc_moments st1) r)" if "should_failover (discovery_error_kind status data) True"
      using that RouteRefuses failover_user by auto
    from fails [OF this] show ?thesis unfolding call_route_def Let_def unfolding st1_def [symmetric]
      unfolding st2_def [symmetric] unfolding RouteRefuses route_reply.case using RouteRefuses by simp
  next
    case (RouteRaises message)
    then have "may_be_retried (dv_reply env (sc_moments st1) r)" by simp
    from fails [OF this] show ?thesis unfolding call_route_def Let_def unfolding st1_def [symmetric]
      unfolding st2_def [symmetric] unfolding RouteRaises route_reply.case using RouteRaises by simp
  qed
qed

lemma call_pass_ends:
  assumes built: "built_answers env" and ok: "log_ok st"
  shows "ended_well env (fst (call_pass env args st)) (snd (call_pass env args st))"
proof -
  obtain st1 res where sel: "select_for env (ca_name args) (sc_tried st) (ca_strategy args) (ca_method args) st = (st1, res)" by fastforce
  have s: "same_attempts st st1"
    using select_for_attempts [of st env "ca_name args" "sc_tried st" "ca_strategy args" "ca_method args"] sel by simp
  have same: "ended_well env st2 (Raises err)" if "same_attempts st1 st2" for st2 err
    using log_ok_ends log_ok_same [OF same_attempts_trans [OF s that]] ok by simp
  show ?thesis
  proof (cases res)
    case (Inl e)
    then show ?thesis using same by (simp add: call_pass_def sel)
  next
    case (Inr r)
    have new: "rt_service_id r \<notin> set (sc_tried st)" using select_for_excluded sel Inr by blast
    then have n1: "rt_service_id r \<notin> set (sc_tried st1)" using s by (simp add: same_attempts_def)
    have "ended_well env (fst (call_route env args r (st1\<lparr>sc_tried := rt_service_id r # sc_tried st1, sc_attempts := sc_attempts st1 + 1\<rparr>)))
        (snd (call_route env args r (st1\<lparr>sc_tried := rt_service_id r # sc_tried st1, sc_attempts := sc_attempts st1 + 1\<rparr>)))"
      by (rule call_route_ends [OF built ok new]) (use s in \<open>simp_all add: same_attempts_def\<close>)
    then show ?thesis using n1 Inr by (simp add: call_pass_def sel)
  qed
qed

lemma call_passes_end:
  "built_answers env \<Longrightarrow> log_ok st \<Longrightarrow> ended_well env (fst (call_passes env args fuel st)) (snd (call_passes env args fuel st))"
proof (induction fuel arbitrary: st)
  case 0
  then show ?case by (auto simp: ended_well_def log_ok_def dest: in_set_butlastD)
next
  case (Suc fuel)
  obtain st1 e where p: "call_pass env args st = (st1, e)" by fastforce
  have w: "ended_well env st1 e" using call_pass_ends [OF Suc.prems, of args] p by simp
  show ?case
  proof (cases e)
    case CallGoing
    then have "log_ok st1" using w by (simp add: ended_well_def)
    from Suc.IH [OF Suc.prems(1) this] show ?thesis by (simp add: p CallGoing)
  qed (use w p in simp_all)
qed

section \<open>The call ends\<close>

definition named :: "string set \<Rightarrow> service_route list \<Rightarrow> bool" where
  "named R rows \<longleftrightarrow> (\<forall>r \<in> set rows. rt_service_id r \<in> R)"

text \<open>All routes that are named, by the info centre or a snapshot, have an id in \<open>R\<close>.\<close>

definition snapshots_in :: "string set \<Rightarrow> discovery_cache \<Rightarrow> bool" where
  "snapshots_in R c \<longleftrightarrow> (\<forall>name sn. dget (dc_snapshots c) name = Some sn \<longrightarrow> named R (sn_routes sn))"

definition names_only :: "string set \<Rightarrow> discovery_env \<Rightarrow> bool" where
  "names_only R env \<longleftrightarrow> (\<forall>n rows. dv_rows env n = Inr rows \<longrightarrow> named R rows) \<and> (\<forall>n c. snapshots_in R c \<longrightarrow> snapshots_in R (dv_others env n c))"

lemma snapshots_others: "names_only R env \<Longrightarrow> snapshots_in R (sc_cache st) \<Longrightarrow> snapshots_in R (sc_cache (others_act env st))"
  by (simp add: names_only_def others_act_def)

lemma snapshots_small [simp]:
  "snapshots_in R (sc_cache (upd_cache_book f st)) = snapshots_in R (sc_cache st)"
  "snapshots_in R (sc_cache (observe env args sel st)) = snapshots_in R (sc_cache st)"
  "snapshots_in R (c\<lparr>dc_refreshing := x\<rparr>) = snapshots_in R c"
  by (simp_all add: snapshots_in_def upd_cache_book_def observe_def record_call_observation_def)

lemma begin_in:
  assumes "snapshots_in R c" "refresh_begin name force now c = (c', role)"
  shows "snapshots_in R c' \<and> (\<forall>rows. role = Fresh rows \<longrightarrow> named R rows)"
  using assms by (auto simp: refresh_begin_def Let_def snapshots_in_def split: option.splits if_splits)

lemma finish_in:
  assumes "snapshots_in R c" "refresh_finish name answer now c = (c', res)" "\<And>rows. answer = Inr rows \<Longrightarrow> named R rows"
  shows "snapshots_in R c' \<and> (\<forall>rows. res = Inr rows \<longrightarrow> named R rows)"
  using assms by (auto simp: refresh_finish_def snapshots_in_def dget_dset split: sum.splits if_splits)

lemma wait_in: "snapshots_in R c \<Longrightarrow> refresh_wait name previous finished c = Inr rows \<Longrightarrow> named R rows"
  by (auto simp: refresh_wait_def snapshots_in_def split: if_splits option.splits)

definition found_in :: "string set \<Rightarrow> service_call \<times> (py_error + service_route list) \<Rightarrow> bool" where
  "found_in R x \<longleftrightarrow> snapshots_in R (sc_cache (fst x)) \<and> (\<forall>rows. snd x = Inr rows \<longrightarrow> named R rows)"

lemma refresh_in:
  assumes R: "names_only R env" and s: "snapshots_in R (sc_cache st)"
  shows "found_in R (refresh env name force st)"
proof (cases "name = []")
  case False
  define st0 where "st0 = others_act env st"
  obtain c role where b: "refresh_begin name force (clock env st0) (sc_cache st0) = (c, role)" by fastforce
  have s0: "snapshots_in R (sc_cache st0)" unfolding st0_def by (rule snapshots_others [OF R s])
  have i: "snapshots_in R c" "\<And>rows. role = Fresh rows \<Longrightarrow> named R rows" using begin_in [OF s0 b] by auto
  define st1 where "st1 = others_act env (st0\<lparr>sc_cache := c\<rparr>)"
  have s1: "snapshots_in R (sc_cache st1)" unfolding st1_def by (rule snapshots_others [OF R]) (simp add: i)
  obtain c1 res where f: "refresh_finish name (dv_rows env (sc_moments st1)) (clock env st1) (sc_cache st1) = (c1, res)" by fastforce
  have fi: "snapshots_in R c1 \<and> (\<forall>rows. res = Inr rows \<longrightarrow> named R rows)"
    by (rule finish_in [OF s1 f]) (use R in \<open>auto simp: names_only_def\<close>)
  show ?thesis unfolding refresh_def if_not_P [OF False] Let_def st0_def [symmetric] b prod.case st1_def [symmetric] f
    using i s1 fi wait_in [OF s1] by (auto simp: found_in_def split: refresh_role.split)
qed (use s in \<open>simp add: refresh_def found_in_def\<close>)

lemma refresh_for_method_in:
  assumes "names_only R env" "snapshots_in R (sc_cache st)"
  shows "found_in R (refresh_for_method env name meth force st)"
proof -
  obtain st1 res where r: "refresh env name force st = (st1, res)" by fastforce
  have f: "found_in R (st1, res)" using refresh_in [OF assms, of name force] r by simp
  have "named R rows \<Longrightarrow> named R (routes_for_method meth rows)" for rows
    using routes_for_method_sub [of meth rows] by (auto simp: named_def)
  then show ?thesis using f by (simp add: refresh_for_method_def r found_in_def split: sum.split)
qed

lemma select_snapshots: "select_route name excluded strategy now t rows c = (c', res) \<Longrightarrow> dc_snapshots c' = dc_snapshots c"
  by (auto simp: select_route_def Let_def split: sum.splits prod.splits if_splits)

lemma select_for_in:
  assumes R: "names_only R env" and s: "snapshots_in R (sc_cache st)" and sel: "select_for env name excluded strategy meth st = (st', res)"
  shows "snapshots_in R (sc_cache st') \<and> (\<forall>r. res = Inr r \<longrightarrow> rt_service_id r \<in> R)"
proof -
  obtain st1 rows where r: "refresh_for_method env name meth False st = (st1, rows)" by fastforce
  have f: "found_in R (st1, rows)" using refresh_for_method_in [OF R s, of name meth False] r by simp
  show ?thesis
  proof (cases rows)
    case (Inl e)
    then show ?thesis using f sel r by (auto simp: select_for_def found_in_def)
  next
    case (Inr rs)
    define st2 where "st2 = others_act env st1"
    have s2: "snapshots_in R (sc_cache st2)" unfolding st2_def by (rule snapshots_others [OF R]) (use f in \<open>simp add: found_in_def\<close>)
    obtain c res' where c: "select_route name excluded strategy (clock env st2) (clock env st2) rs (sc_cache st2) = (c, res')" by fastforce
    have e: "st' = st2\<lparr>sc_cache := c\<rparr>" "res = res'"
      using sel unfolding select_for_def r prod.case Inr sum.case Let_def st2_def [symmetric] c by simp_all
    have "snapshots_in R c" using s2 select_snapshots [OF c] by (simp add: snapshots_in_def)
    moreover have "\<forall>x. res' = Inr x \<longrightarrow> rt_service_id x \<in> R"
      using select_route_mem c f Inr by (auto simp: found_in_def named_def)
    ultimately show ?thesis by (simp add: e)
  qed
qed

lemma has_untried_in:
  assumes R: "names_only R env" and s: "snapshots_in R (sc_cache st)"
  shows "snapshots_in R (sc_cache (fst (has_untried_cached_route env args st)))"
proof -
  obtain st1 rows where r: "refresh_for_method env (ca_name args) (ca_method args) False st = (st1, rows)" by fastforce
  have f: "snapshots_in R (sc_cache st1)" using refresh_for_method_in [OF R s, of "ca_name args" "ca_method args" False] r by (simp add: found_in_def)
  then have "found_in R (refresh_for_method env (ca_name args) (ca_method args) True (st1\<lparr>sc_forced := True\<rparr>))"
    by (intro refresh_for_method_in R) simp
  then show ?thesis using f by (auto simp: has_untried_cached_route_def r found_in_def split: sum.split prod.split)
qed

lemma attempt_failed_in:
  assumes R: "names_only R env" and s: "snapshots_in R (sc_cache st)"
  shows "snapshots_in R (sc_cache (fst (attempt_failed env args r kind message st)))"
proof -
  obtain st1 alt where h: "has_untried_cached_route env args (st\<lparr>sc_last_error := Some message\<rparr>) = (st1, alt)" by fastforce
  have "snapshots_in R (sc_cache st1)"
    using has_untried_in [OF R, of "st\<lparr>sc_last_error := Some message\<rparr>" args] h s by simp
  from snapshots_others [OF R this] show ?thesis unfolding attempt_failed_def h by (simp add: Let_def split: prod.split)
qed

text \<open>A pass that goes on has tried a new route.\<close>

lemma call_pass_tries:
  assumes R: "names_only R env" and s: "snapshots_in R (sc_cache st)" and p: "call_pass env args st = (st', CallGoing)"
  shows "\<exists>id \<in> R. id \<notin> set (sc_tried st) \<and> sc_tried st' = id # sc_tried st \<and> snapshots_in R (sc_cache st')"
proof -
  obtain st1 res where sel: "select_for env (ca_name args) (sc_tried st) (ca_strategy args) (ca_method args) st = (st1, res)" by fastforce
  have t1: "sc_tried st1 = sc_tried st"
    using select_for_attempts [of st env "ca_name args" "sc_tried st" "ca_strategy args" "ca_method args"] sel by (simp add: same_attempts_def)
  obtain r where r: "res = Inr r" using p sel by (cases res) (simp_all add: call_pass_def)
  note in1 = select_for_in [OF R s sel]
  have new: "rt_service_id r \<notin> set (sc_tried st)" using select_for_excluded sel r by blast
  define st2 where "st2 = others_act env (st1\<lparr>sc_tried := rt_service_id r # sc_tried st1, sc_attempts := sc_attempts st1 + 1\<rparr>)"
  define st3 where "st3 = st2\<lparr>sc_log := sc_log st2 @ [(r, dv_reply env (sc_moments st2) r)]\<rparr>"
  have s3: "snapshots_in R (sc_cache st3)" unfolding st3_def st2_def
    using snapshots_others [OF R, of "st1\<lparr>sc_tried := rt_service_id r # sc_tried st1, sc_attempts := sc_attempts st1 + 1\<rparr>"] in1 by simp
  have t3: "sc_tried st3 = rt_service_id r # sc_tried st" by (simp add: st3_def st2_def others_act_def t1)
  have "(st', CallGoing) = call_route env args r (st1\<lparr>sc_tried := rt_service_id r # sc_tried st1, sc_attempts := sc_attempts st1 + 1\<rparr>)"
    using p new t1 by (simp add: call_pass_def sel r)
  then obtain kind message st4 where st4: "st4 = st3 \<or> (\<exists>body. st4 = observe env args (rt_service_id r) (upd_cache_book (mark_success r) st3))"
    and a: "(st', CallGoing) = attempt_failed env args r kind message st4"
    unfolding call_route_def Let_def st2_def [symmetric] st3_def [symmetric] by (auto split: route_reply.splits sum.splits)
  have "snapshots_in R (sc_cache st4)" using st4 s3 by auto
  moreover have "sc_tried st4 = sc_tried st3" using st4 by (auto simp: observe_def upd_cache_book_def)
  ultimately have "snapshots_in R (sc_cache st')" "sc_tried st' = sc_tried st3"
    using attempt_failed_in [OF R, of st4 args r kind message] attempt_failed_attempts [of st4 env args r kind message]
    unfolding a [symmetric] fst_conv same_attempts_def by simp_all
  moreover have "rt_service_id r \<in> R" using in1 r by blast
  ultimately show ?thesis using new t3 by auto
qed

lemma call_passes_try:
  "names_only R env \<Longrightarrow> snapshots_in R (sc_cache st) \<Longrightarrow> distinct (sc_tried st) \<Longrightarrow> set (sc_tried st) \<subseteq> R \<Longrightarrow>
    call_passes env args fuel st = (st', CallGoing) \<Longrightarrow>
    distinct (sc_tried st') \<and> set (sc_tried st') \<subseteq> R \<and> length (sc_tried st') = fuel + length (sc_tried st)"
proof (induction fuel arbitrary: st)
  case (Suc fuel)
  obtain st1 e where p: "call_pass env args st = (st1, e)" by fastforce
  have e: "e = CallGoing" using Suc.prems(5) p by (cases e) simp_all
  from call_pass_tries [OF Suc.prems(1,2) p [unfolded e]] obtain id where
    id: "id \<in> R" "id \<notin> set (sc_tried st)" "sc_tried st1 = id # sc_tried st" "snapshots_in R (sc_cache st1)" by blast
  have "distinct (sc_tried st1)" "set (sc_tried st1) \<subseteq> R" using id Suc.prems(3,4) by auto
  from Suc.IH [OF Suc.prems(1) id(4) this] Suc.prems(5) show ?case by (simp add: p e id(3))
qed simp

end
