(* ===== verification/DiscoveryGuarantees.thy ===== *)
theory DiscoveryGuarantees
  imports DiscoveryCallFacts
begin

text \<open>
  Properties of a call through the route cache, and what becomes of a route whose probe is never
  answered.
\<close>

section \<open>A probe without an outcome\<close>

text \<open>The breaker is half-open and its one probe has been granted.\<close>

definition probe_taken :: "route_key \<Rightarrow> route_book \<Rightarrow> bool" where
  "probe_taken k b \<longleftrightarrow> (case dget (bk_breakers b) k of None \<Rightarrow> False | Some s \<Rightarrow> br_state s = ''half_open'' \<and> br_probe_in_flight s)"

lemma probe_taken_blocks: "probe_taken k b \<Longrightarrow> \<not> route_free t b k"
  by (auto simp: probe_taken_def route_free_code blocked_def split: option.splits)

lemma admit_taken: "br_state s = ''half_open'' \<Longrightarrow> br_probe_in_flight s \<Longrightarrow> candidate_allowed now s = (s, False)"
  by (simp add: candidate_allowed_def)

lemma probe_taken_available: "probe_taken k b \<Longrightarrow> probe_taken k (fst (available_routes name now rs b))"
proof (induction rs arbitrary: b)
  case (Cons r rs)
  have "probe_taken k (fst (route_available now (name, rt_service_id r) b))"
    using Cons.prems by (auto simp: probe_taken_def route_available_def dget_dset admit_taken split: option.splits)
  from Cons.IH [OF this] show ?case by (simp add: case_prod_beta)
qed simp

lemma probe_taken_small [simp]:
  "probe_taken k (reserve_route r b) = probe_taken k b" "probe_taken k (release_route r b) = probe_taken k b"
  by (simp_all add: probe_taken_def frame_simps)

lemma probe_taken_probe: "probe_taken k b \<Longrightarrow> probe_taken k (fst (probe_route now r b))"
  by (auto simp: probe_taken_def probe_route_def Let_def case_prod_beta dget_dset dget_or_def before_probe_def admit_taken split: option.splits)

lemma probe_taken_marks:
  assumes "breaker_key r \<noteq> k"
  shows "probe_taken k (mark_success r b) = probe_taken k b" "probe_taken k (fst (mark_failure o_sec msg now r b)) = probe_taken k b"
  using assms by (auto simp: mark_success_def mark_failure_def Let_def case_prod_beta probe_taken_def dget_dset frame_simps split: option.splits)

lemma probe_taken_refresh:
  "probe_taken k b \<Longrightarrow> snd k \<in> set ids \<Longrightarrow> probe_taken k (drop_stale_book name ids b)"
  by (auto simp: probe_taken_def drop_stale_book_def drop_stale_def dget_dpops)

lemma probe_taken_selected: "probe_taken k b \<Longrightarrow> probe_taken k (fst (probe_selected now sel rs b))"
proof (induction rs arbitrary: b)
  case (Cons r rs)
  note p = probe_taken_probe [OF Cons.prems, of now r]
  show ?case using p Cons.IH [OF p] Cons.IH [OF Cons.prems] by (auto simp: case_prod_beta split: prod.split bool.split)
qed simp

lemma probe_taken_choose: "probe_taken k b \<Longrightarrow> probe_taken k (fst (choose_route name strategy profile idx now cands b))"
  using probe_taken_selected [of k b now _ cands]
  by (auto simp: choose_route_def Let_def split: sum.split prod.splits option.split) (metis fst_conv)+

lemma select_route_taken:
  assumes taken: "probe_taken k (dc_book c)" and sel: "select_route name excluded strategy now t rows c = (c', res)"
  shows "probe_taken k (dc_book c') \<and> (\<forall>r. res = Inr r \<longrightarrow> (strip name, rt_service_id r) \<noteq> k)"
proof (cases "unconflicted (call_candidates excluded rows)")
  case (Inl e)
  then show ?thesis using assms by (auto simp: select_route_def)
next
  case (Inr cands)
  obtain b av where a: "available_routes (strip name) now cands (dc_book c) = (b, av)" by fastforce
  have b: "probe_taken k b" using probe_taken_available [OF taken, of "strip name" now cands] a by simp
  have av: "\<forall>r \<in> set av. (strip name, rt_service_id r) \<noteq> k"
    using a probe_taken_blocks [OF taken] by (auto simp: available_scan)
  show ?thesis
  proof (cases "av = []")
    case True
    then show ?thesis using sel b by (auto simp: select_route_def Inr a)
  next
    case False
    obtain st pr where s: "resolve_service_strategy strategy = (st, pr)" by fastforce
    define idx where "idx = dget_or (dc_route_index c) (strip name) 0"
    obtain b' res' where ch: "choose_route (strip name) st pr idx t av b = (b', res')" by fastforce
    have e: "c' = c\<lparr>dc_book := b', dc_route_index := dset (strip name) (idx + 1) (dc_route_index c)\<rparr>" "res = res'"
      using sel False ch by (simp_all add: select_route_def Inr a Let_def s idx_def)
    have "probe_taken k b'" using probe_taken_choose [OF b, of "strip name" st pr idx t av] ch by simp
    moreover have "\<forall>r. res' = Inr r \<longrightarrow> (strip name, rt_service_id r) \<noteq> k"
      using choose_route_mem ch False av by blast
    ultimately show ?thesis by (simp add: e)
  qed
qed

section \<open>Histories of a cache\<close>

datatype cache_event =
    Selects "string list" string instant instant "service_route list"
  | Refreshed "service_route list" instant
  | Succeeds service_route
  | Fails service_route string instant
  | Releases service_route

definition upd_book :: "(route_book \<Rightarrow> route_book) \<Rightarrow> discovery_cache \<Rightarrow> discovery_cache" where
  "upd_book f c = c\<lparr>dc_book := f (dc_book c)\<rparr>"

fun cache_step :: "string \<Rightarrow> cache_event \<Rightarrow> discovery_cache \<Rightarrow> discovery_cache" where
  "cache_step name (Selects excluded strategy now t rows) c = fst (select_route name excluded strategy now t rows c)"
| "cache_step name (Refreshed rows now) c = fst (refresh_finish name (Inr rows) now c)"
| "cache_step name (Succeeds r) c = upd_book (mark_success r) c"
| "cache_step name (Fails r msg now) c = upd_book (\<lambda>b. fst (mark_failure (dc_open_sec c) msg now r b)) c"
| "cache_step name (Releases r) c = upd_book (release_route r) c"

text \<open>No outcome of a call to the route is reported, and every answer of the info centre names it.\<close>

fun leaves_route :: "route_key \<Rightarrow> cache_event \<Rightarrow> bool" where
  "leaves_route k (Refreshed rows now) = (snd k \<in> rt_service_id ` set rows)"
| "leaves_route k (Succeeds r) = (breaker_key r \<noteq> k)"
| "leaves_route k (Fails r msg now) = (breaker_key r \<noteq> k)"
| "leaves_route k _ = True"

lemma cache_step_taken:
  assumes t: "probe_taken k (dc_book c)" and l: "leaves_route k ev"
  shows "probe_taken k (dc_book (cache_step name ev c))"
proof (cases ev)
  case (Selects excluded strategy now t' rows)
  obtain c' res where s: "select_route name excluded strategy now t' rows c = (c', res)" by fastforce
  from select_route_taken [OF t s] show ?thesis by (simp add: Selects s)
next
  case (Refreshed rows now)
  then show ?thesis using probe_taken_refresh [OF t] l by (simp add: refresh_finish_def)
qed (use t l in \<open>simp_all add: upd_book_def probe_taken_marks\<close>)

lemma history_taken:
  "probe_taken k (dc_book c) \<Longrightarrow> \<forall>ev \<in> set evs. leaves_route k ev \<Longrightarrow> probe_taken k (dc_book (fold (cache_step name) evs c))"
  by (induction evs arbitrary: c) (auto intro: cache_step_taken)

section \<open>A failed attempt keeps the probe\<close>

text \<open>Other callers, and the answers of the info centre, leave the probe as it is.\<close>

definition route_stays :: "route_key \<Rightarrow> discovery_env \<Rightarrow> bool" where
  "route_stays k env \<longleftrightarrow> (\<forall>n c. probe_taken k (dc_book c) \<longrightarrow> probe_taken k (dc_book (dv_others env n c))) \<and>
    (\<forall>n rows. dv_rows env n = Inr rows \<longrightarrow> snd k \<in> rt_service_id ` set rows)"

lemma taken_others: "route_stays k env \<Longrightarrow> probe_taken k (dc_book (sc_cache st)) \<Longrightarrow> probe_taken k (dc_book (sc_cache (others_act env st)))"
  by (simp add: route_stays_def others_act_def)

lemma begin_book: "refresh_begin name force now c = (c', role) \<Longrightarrow> dc_book c' = dc_book c"
  by (auto simp: refresh_begin_def Let_def split: option.splits if_splits)

lemma refresh_taken:
  assumes R: "route_stays k env" and t: "probe_taken k (dc_book (sc_cache st))"
  shows "probe_taken k (dc_book (sc_cache (fst (refresh env name force st))))"
proof (cases "name = []")
  case False
  define st0 where "st0 = others_act env st"
  obtain c role where b: "refresh_begin name force (clock env st0) (sc_cache st0) = (c, role)" by fastforce
  have t0: "probe_taken k (dc_book c)" using taken_others [OF R t] begin_book [OF b] by (simp add: st0_def)
  define st1 where "st1 = others_act env (st0\<lparr>sc_cache := c\<rparr>)"
  have t1: "probe_taken k (dc_book (sc_cache st1))" unfolding st1_def by (rule taken_others [OF R]) (simp add: t0)
  have f: "probe_taken k (dc_book (fst (refresh_finish name (dv_rows env (sc_moments st1)) (clock env st1) (sc_cache st1))))"
    using t1 R by (auto simp: refresh_finish_def route_stays_def intro: probe_taken_refresh split: sum.split)
  show ?thesis unfolding refresh_def if_not_P [OF False] Let_def st0_def [symmetric] b prod.case st1_def [symmetric]
    using t0 t1 f by (auto simp: case_prod_beta split: refresh_role.split)
qed (use t in \<open>simp add: refresh_def\<close>)

lemma refresh_for_method_taken:
  assumes "route_stays k env" "probe_taken k (dc_book (sc_cache st))"
  shows "probe_taken k (dc_book (sc_cache (fst (refresh_for_method env name method force st))))"
  using refresh_taken [OF assms, of name force] by (auto simp: refresh_for_method_def split: prod.split sum.split)

lemma has_untried_taken:
  assumes R: "route_stays k env" and t: "probe_taken k (dc_book (sc_cache st))"
  shows "probe_taken k (dc_book (sc_cache (fst (has_untried_cached_route env args st))))"
proof -
  obtain st1 rows where r: "refresh_for_method env (ca_name args) (ca_method args) False st = (st1, rows)" by fastforce
  have t1: "probe_taken k (dc_book (sc_cache st1))"
    using refresh_for_method_taken [OF R t, of "ca_name args" "ca_method args" False] r by simp
  have "probe_taken k (dc_book (sc_cache (fst (refresh_for_method env (ca_name args) (ca_method args) True (st1\<lparr>sc_forced := True\<rparr>)))))"
    by (rule refresh_for_method_taken [OF R]) (simp add: t1)
  then show ?thesis using t1 by (auto simp: has_untried_cached_route_def r split: sum.split prod.split)
qed

lemma observe_book [simp]: "dc_book (sc_cache (observe env args sel st)) = dc_book (sc_cache st)"
  by (simp add: observe_def record_call_observation_def)

lemma user_failure_ends:
  assumes R: "route_stays k env" and t: "probe_taken k (dc_book (sc_cache st))"
  shows "probe_taken k (dc_book (sc_cache (fst (attempt_failed env args r REMOTE_USER_FAILED message st)))) \<and>
    snd (attempt_failed env args r REMOTE_USER_FAILED message st) = Raises (RuntimeError message)"
proof -
  obtain st1 alt where h: "has_untried_cached_route env args (st\<lparr>sc_last_error := Some message\<rparr>) = (st1, alt)" by fastforce
  have "probe_taken k (dc_book (sc_cache st1))"
    using has_untried_taken [OF R, of "st\<lparr>sc_last_error := Some message\<rparr>" args] t h by simp
  from taken_others [OF R this] show ?thesis unfolding attempt_failed_def h by (simp add: Let_def failover_user upd_cache_book_def)
qed

section \<open>Properties\<close>

text \<open>
  C14: a call never calls a route twice, and calls another one only after a failure that is not the
  user's: a call that was answered, or whose function raised, is not repeated. It returns exactly
  the answer of the route it called last, and raises only when no route has answered.
\<close>

theorem call_repeats_infrastructure_failures_only:
  assumes built: "built_answers env" and "discovery_call env service_name method strategy fuel c = (st, e)"
  shows "distinct (map (\<lambda>(r, _). rt_service_id r) (sc_log st)) \<and>
    (\<forall>(r, reply) \<in> set (butlast (sc_log st)). may_be_retried reply) \<and>
    (case e of
       Returned v \<Rightarrow> \<exists>r body. sc_log st \<noteq> [] \<and> last (sc_log st) = (r, RouteAnswer body) \<and> attach_controlplane_locator env r body = Inr v
     | Raises err \<Rightarrow> \<forall>(r, reply) \<in> set (sc_log st). \<forall>body. reply \<noteq> RouteAnswer body
     | CallGoing \<Rightarrow> \<forall>(r, reply) \<in> set (sc_log st). may_be_retried reply)"
proof -
  have "log_ok (new_call c)" by (simp add: log_ok_def new_call_def log_ids_def)
  from call_passes_end [OF built this] log_ok_ends [OF this, of env] have "ended_well env st e"
    using assms(2) by (auto simp: discovery_call_def Let_def split: if_splits) (metis fst_conv snd_conv)
  then show ?thesis by (auto simp: ended_well_def log_ids_def log_ok_def split: call_end.splits)
qed

definition two_routes :: "service_route list" where
  "two_routes = [sample_route ''s1'' ''http://h1'', sample_route ''s2'' ''http://h2'']"

definition sample_env :: "service_route list \<Rightarrow> (service_route \<Rightarrow> route_reply) \<Rightarrow> discovery_env" where
  "sample_env rows reply = \<lparr>dv_clock = (\<lambda>n. 6), dv_rows = (\<lambda>_. Inr rows),
     dv_event = (\<lambda>_. True), dv_others = (\<lambda>_ c. c), dv_reply = (\<lambda>_. reply), dv_target = ''cp'', dv_rep = (\<lambda>_. [])\<rparr>"

definition user_fails :: "service_route \<Rightarrow> route_reply" where
  "user_fails r = RouteRefuses 500 [(''error'', ''bad argument''), (''error_type'', ''UserError'')]"

definition first_down :: "service_route \<Rightarrow> route_reply" where
  "first_down r = (if rt_service_id r = ''s1'' then RouteRefuses 502 [(''error'', ''refused'')] else RouteAnswer [(''ok'', PBool True), (''data'', PInt 7)])"

theorem call_repeats_infrastructure_failures_only_witness:
  "distinct (map (\<lambda>(r, _). rt_service_id r) (sc_log (fst (discovery_call (sample_env two_routes first_down) ''svc'' ''run'' [] 3 (new_discovery_cache 3 5)))))"
proof -
  have "built_answers (sample_env two_routes first_down)" by (auto simp: built_answers_def sample_env_def first_down_def)
  from call_repeats_infrastructure_failures_only [OF this surjective_pairing] show ?thesis by blast
qed

text \<open>
  C38: a call ends. When every route that is ever named, by the info centre or in a snapshot, has one
  of finitely many ids, the call has returned or raised after at most one attempt more than there are
  ids, whatever the routes answer and however often the routes change.
\<close>

theorem discovery_call_ends:
  assumes "finite R" "names_only R env" "snapshots_in R c" "card R < fuel"
  shows "snd (discovery_call env service_name method strategy fuel c) \<noteq> CallGoing"
proof
  assume going: "snd (discovery_call env service_name method strategy fuel c) = CallGoing"
  define args where "args = \<lparr>ca_name = strip service_name, ca_method = strip method, ca_strategy = strategy\<rparr>"
  have "snd (call_passes env args fuel (new_call c)) = CallGoing"
    using going by (auto simp: discovery_call_def Let_def args_def split: if_splits)
  then obtain st where p: "call_passes env args fuel (new_call c) = (st, CallGoing)" by (metis prod.collapse)
  have "distinct (sc_tried st) \<and> set (sc_tried st) \<subseteq> R \<and> length (sc_tried st) = fuel"
    using call_passes_try [OF assms(2) _ _ _ p] assms(3) by (simp add: new_call_def)
  then have "fuel \<le> card R" using assms(1) by (metis card_mono distinct_card)
  then show False using assms(4) by simp
qed

theorem discovery_call_ends_witness:
  "snd (discovery_call (sample_env two_routes user_fails) ''svc'' ''run'' [] 3 (new_discovery_cache 3 5)) \<noteq> CallGoing"
  by (rule discovery_call_ends [of "{''s1'', ''s2''}"])
    (simp_all add: names_only_def sample_env_def two_routes_def named_def sample_route_def snapshots_in_def new_discovery_cache_def)

text \<open>
  C39: when the probe of a half-open route meets a failure of the user's function, the call ends
  without telling the breaker: no later selection of any caller hands the route out again, although
  it works, until a call that was under way before reports an outcome or the info centre forgets it.
\<close>

theorem user_failure_keeps_route_out:
  assumes sel: "select_for env (ca_name args) (sc_tried st) (ca_strategy args) (ca_method args) st = (st1, Inr r)"
    and probed: "probe_taken (breaker_key r) (dc_book (sc_cache st1))" and name: "rt_service_name r = strip (ca_name args)"
    and reply: "dv_reply env (Suc (sc_moments st1)) r = RouteRefuses status data" and user: "discovery_error_kind status data = REMOTE_USER_FAILED"
    and stays: "route_stays (breaker_key r) env" and later: "\<forall>ev \<in> set evs. leaves_route (breaker_key r) ev"
    and pass: "call_pass env args st = (st', e)"
    and again: "snd (select_route (ca_name args) excluded strategy now t rows (fold (cache_step (ca_name args)) evs (sc_cache st'))) = Inr r'"
  shows "e = Raises (RuntimeError (discovery_error_str status data)) \<and> rt_service_id r' \<noteq> rt_service_id r"
proof -
  have s: "same_attempts st st1"
    using select_for_attempts [of st env "ca_name args" "sc_tried st" "ca_strategy args" "ca_method args"] sel by simp
  have new: "rt_service_id r \<notin> set (sc_tried st1)" using select_for_excluded [OF sel] s by (simp add: same_attempts_def)
  define st2 where "st2 = others_act env (st1\<lparr>sc_tried := rt_service_id r # sc_tried st1, sc_attempts := sc_attempts st1 + 1\<rparr>)"
  define st3 where "st3 = st2\<lparr>sc_log := sc_log st2 @ [(r, dv_reply env (sc_moments st2) r)]\<rparr>"
  have "probe_taken (breaker_key r) (dc_book (sc_cache st3))" unfolding st3_def st2_def
    using taken_others [OF stays, of "st1\<lparr>sc_tried := rt_service_id r # sc_tried st1, sc_attempts := sc_attempts st1 + 1\<rparr>"] probed by simp
  note ends = user_failure_ends [OF stays this, of args r "discovery_error_str status data"]
  have "dv_reply env (sc_moments st2) r = RouteRefuses status data" using reply by (simp add: st2_def others_act_def)
  then have p: "(st', e) = attempt_failed env args r REMOTE_USER_FAILED (discovery_error_str status data) st3"
    using pass new unfolding call_pass_def sel prod.case sum.case call_route_def Let_def st2_def [symmetric]
    unfolding st3_def [symmetric] by (simp add: user)
  then have "probe_taken (breaker_key r) (dc_book (sc_cache st'))" and e: "e = Raises (RuntimeError (discovery_error_str status data))"
    using ends by (metis fst_conv, metis snd_conv)
  from history_taken [OF this(1) later]
  have "probe_taken (breaker_key r) (dc_book (fold (cache_step (ca_name args)) evs (sc_cache st')))" .
  from select_route_taken [OF this surjective_pairing] again have "(strip (ca_name args), rt_service_id r') \<noteq> breaker_key r" by blast
  then show ?thesis using e name by (simp add: breaker_key_def)
qed

text \<open>The first route has failed before; it is selected for its probe, and its function raises.\<close>

definition sample_args :: call_args where
  "sample_args = \<lparr>ca_name = ''svc'', ca_method = ''run'', ca_strategy = ''predicted_busy''\<rparr>"

definition sample_pass :: "service_call" where
  "sample_pass = fst (call_pass (sample_env [sample_route ''s1'' ''http://h1''] user_fails) sample_args (new_call sample_cache))"

theorem user_failure_keeps_route_out_witness:
  "snd (select_route ''svc'' [] ''round_robin'' 100 100 two_routes
      (fold (cache_step ''svc'') [Refreshed two_routes 50] (sc_cache sample_pass))) = Inr (sample_route ''s2'' ''http://h2'') \<and>
   rt_service_id (sample_route ''s2'' ''http://h2'') \<noteq> ''s1''"
proof -
  let ?env = "sample_env [sample_route ''s1'' ''http://h1''] user_fails" and ?r = "sample_route ''s1'' ''http://h1''"
  let ?sel = "select_for ?env (ca_name sample_args) (sc_tried (new_call sample_cache)) (ca_strategy sample_args) (ca_method sample_args) (new_call sample_cache)"
  have "snd ?sel = Inr ?r" by code_simp
  then have sel: "?sel = (fst ?sel, Inr ?r)" by (simp add: prod_eq_iff)
  have probed: "probe_taken (breaker_key ?r) (dc_book (sc_cache (fst ?sel)))" by code_simp
  have again: "snd (select_route (ca_name sample_args) [] ''round_robin'' 100 100 two_routes (fold (cache_step (ca_name sample_args))
      [Refreshed two_routes 50] (sc_cache sample_pass))) = Inr (sample_route ''s2'' ''http://h2'')" by code_simp
  have "rt_service_id (sample_route ''s2'' ''http://h2'') \<noteq> rt_service_id ?r"
  proof (rule user_failure_keeps_route_out [THEN conjunct2, OF sel probed _ _ _ _ _ _ again])
    show "rt_service_name ?r = strip (ca_name sample_args)" by code_simp
    show "dv_reply ?env (Suc (sc_moments (fst ?sel))) ?r = RouteRefuses 500 [(''error'', ''bad argument''), (''error_type'', ''UserError'')]"
      by (simp add: sample_env_def user_fails_def)
    show "discovery_error_kind 500 [(''error'', ''bad argument''), (''error_type'', ''UserError'')] = REMOTE_USER_FAILED" by code_simp
    show "route_stays (breaker_key ?r) ?env" by (simp add: route_stays_def sample_env_def breaker_key_def)
    show "\<forall>ev \<in> set [Refreshed two_routes 50]. leaves_route (breaker_key ?r) ev" by code_simp
    show "call_pass ?env sample_args (new_call sample_cache) = (sample_pass, snd (call_pass ?env sample_args (new_call sample_cache)))"
      by (simp add: sample_pass_def)
  qed
  then show ?thesis using again by (simp add: sample_args_def sample_route_def)
qed

section \<open>A listing that fails twice\<close>

text \<open>
  The second attempt of \<open>list_methods\<close> has no handler: when it fails, the call in flight it has been
  counted for stays counted, although nobody waits for it any more.
\<close>

lemma failed_listing_stays_counted:
  "inflight_count (dc_book (sc_cache (fst (list_methods (sample_env two_routes user_fails)
      (\<lambda>_ _. Inl (RuntimeError ''down'') :: py_error + string list) ''svc'' ''round_robin'' (new_call (new_discovery_cache 3 5)))))) (''svc'', ''s2'') = 1"
  by code_simp

end
