(* ===== verification/Registrar.thy ===== *)
theory Registrar
  imports RegistryInvariants
begin

text \<open>
  How a node keeps itself in the registry of the info centre: \<open>controlplane/registrar.py\<close>, the two
  requests it sends through \<open>controlplane/infocenter_client.py\<close> and \<open>http_client.py\<close>, and the two
  handlers of \<open>controlplane/infocenter_http.py\<close> that answer them from the registry. A request is two
  steps, sending (the registry acts) and answering (the registrar reads the reply), so that the
  loop, the background heartbeat, the closing thread and the callers of \<open>request_sync\<close> interleave
  between them. What the node reports of itself and what the network does to a request are
  arguments of each step. Log lines and the fields only they use are left out.
\<close>

section \<open>Failures of a request\<close>

text \<open>An exception with the chain of its causes, outermost first. \<open>OSError\<close> and its subclasses, which
  include \<open>ConnectionError\<close>, \<open>TimeoutError\<close> and \<open>URLError\<close>, are one constructor.\<close>

datatype failure =
    SocketFailure string
  | RuntimeFailure string
  | OtherFailure string

fun failure_text :: "failure \<Rightarrow> string" where
  "failure_text (SocketFailure t) = t"
| "failure_text (RuntimeFailure t) = t"
| "failure_text (OtherFailure t) = t"

definition connect_markers :: "string list" where
  "connect_markers = [''cannot connect to '', ''connection refused'', ''connection reset'', ''connection to '',
    ''closed by the remote service'', ''http request to '', ''timed out'', ''temporarily unavailable'']"

fun is_expected_connect_failure :: "failure list \<Rightarrow> bool" where
  "is_expected_connect_failure (SocketFailure t # causes) = True"
| "is_expected_connect_failure (RuntimeFailure t # causes) = list_ex (\<lambda>m. contains m (lower (strip t))) connect_markers"
| "is_expected_connect_failure exc = False"

definition is_unknown_node_error :: "failure list \<Rightarrow> bool" where
  "is_unknown_node_error exc = list_ex (\<lambda>f. contains ''unknown node'' (lower (strip (failure_text f)))) exc"

datatype transport = Unreachable | TimeLimit | Hangup | Broken string

definition friendly_http_connect_error :: "string \<Rightarrow> transport \<Rightarrow> failure list" where
  "friendly_http_connect_error endpoint t =
    (case t of
       Unreachable \<Rightarrow> [RuntimeFailure (''cannot connect to '' @ endpoint @
         ''; check that the target is correct and the service is listening on that address''), SocketFailure ''connection refused'']
     | TimeLimit \<Rightarrow> [RuntimeFailure (''request to '' @ endpoint @
         '' timed out; check that the target is reachable and the service is responding''), SocketFailure ''timed out'']
     | Hangup \<Rightarrow> [RuntimeFailure (''connection to '' @ endpoint @
         '' was closed by the remote service; check that the target points to a healthy compatible server''),
         SocketFailure ''remote end closed connection without response'']
     | Broken text \<Rightarrow> [RuntimeFailure (''http request to '' @ endpoint @ '' failed: '' @ text), OtherFailure text])"

section \<open>Requests and replies\<close>

record inventory =
  iv_metadata :: "(string, string) dict"
  iv_python_version :: string
  iv_service_worker_capacity :: int
  iv_service_worker_used :: int
  iv_task_pool_worker_capacity :: int
  iv_task_pool_worker_used :: int
  iv_accept_service_deploy :: bool
  iv_services :: "node_service list"
  iv_task_pools :: "node_task_pool list"
  iv_active_runtimes :: "string list"

record register_payload =
  pl_node_id :: string
  pl_node_instance_id :: string
  pl_control_addr :: string
  pl_capacity :: int
  pl_queue_capacity :: int
  pl_tags :: "string list"
  pl_version :: string
  pl_inventory :: inventory

text \<open>A heartbeat carries the inventory or nothing of it.\<close>

record heartbeat_payload =
  bp_node_id :: string
  bp_node_instance_id :: string
  bp_healthy :: bool
  bp_credit :: int
  bp_inventory :: "inventory option"

record center_reply =
  ir_ok :: bool
  ir_accepted :: "bool option"
  ir_error :: string
  ir_heartbeat_interval_sec :: "int option"
  ir_next_heartbeat_in_sec :: "int option"
  ir_lease_ttl_sec :: "int option"
  ir_inventory_required :: bool

text \<open>A handler that raises closes the connection without an answer.\<close>

datatype answer = Answer int center_reply | NoAnswer

definition refusal :: "bool option \<Rightarrow> string \<Rightarrow> center_reply" where
  "refusal accepted text = \<lparr>ir_ok = False, ir_accepted = accepted, ir_error = text, ir_heartbeat_interval_sec = None,
     ir_next_heartbeat_in_sec = None, ir_lease_ttl_sec = None, ir_inventory_required = False\<rparr>"

definition client_inventory :: "inventory \<Rightarrow> inventory" where
  "client_inventory iv = iv\<lparr>iv_python_version := strip (iv_python_version iv),
     iv_service_worker_capacity := max 0 (iv_service_worker_capacity iv), iv_service_worker_used := max 0 (iv_service_worker_used iv),
     iv_task_pool_worker_capacity := max 0 (iv_task_pool_worker_capacity iv),
     iv_task_pool_worker_used := max 0 (iv_task_pool_worker_used iv),
     iv_active_runtimes := filter (\<lambda>s. s \<noteq> []) (map strip (iv_active_runtimes iv))\<rparr>"

definition register_body :: "register_payload \<Rightarrow> register_payload" where
  "register_body p = p\<lparr>pl_node_instance_id := strip (pl_node_instance_id p), pl_capacity := max 1 (pl_capacity p),
     pl_queue_capacity := max 1 (pl_queue_capacity p), pl_inventory := client_inventory (pl_inventory p)\<rparr>"

definition heartbeat_body :: "heartbeat_payload \<Rightarrow> heartbeat_payload" where
  "heartbeat_body p = p\<lparr>bp_node_instance_id := strip (bp_node_instance_id p),
     bp_inventory := map_option client_inventory (bp_inventory p)\<rparr>"

definition http_json_request :: "string \<Rightarrow> transport option \<Rightarrow> answer \<Rightarrow> failure list + center_reply" where
  "http_json_request endpoint broken ans =
    (case broken of Some t \<Rightarrow> Inl (friendly_http_connect_error endpoint t)
     | None \<Rightarrow> (case ans of NoAnswer \<Rightarrow> Inl (friendly_http_connect_error endpoint Hangup)
       | Answer status reply \<Rightarrow> if 400 \<le> status then Inl [RuntimeFailure (ir_error reply)] else Inr reply))"

section \<open>The handlers of the info centre\<close>

definition parse_services :: "node_service list \<Rightarrow> (string, node_service) dict" where
  "parse_services rows =
    fold (\<lambda>s out. let service_id = strip (ns_service_id s); service_name = strip (ns_service_name s) in
      if service_id = [] \<or> service_name = [] then out
      else dset service_id (s\<lparr>ns_status := max 0 (ns_status s), ns_service_name := service_name, ns_service_id := service_id,
        ns_policy_id := str_or (ns_policy_id s) ''default_safe'',
        ns_resource_health := str_or (ns_resource_health s) (if ns_degraded s then ''degraded'' else []),
        ns_worker_count := max 0 (ns_worker_count s), ns_alive_workers := max 0 (ns_alive_workers s),
        ns_in_flight := max 0 (ns_in_flight s), ns_received_count := max 0 (ns_received_count s),
        ns_returned_count := max 0 (ns_returned_count s), ns_ema_samples := max 0 (ns_ema_samples s)\<rparr>) out) rows []"

definition parse_task_pools :: "node_task_pool list \<Rightarrow> (string, node_task_pool) dict" where
  "parse_task_pools rows =
    fold (\<lambda>p out. let pool_id = strip (np_pool_id p) in
      if pool_id = [] then out else dset pool_id (p\<lparr>np_pool_id := pool_id\<rparr>) out) rows []"

definition registration_of :: "register_payload \<Rightarrow> registration" where
  "registration_of p =
    (let iv = pl_inventory p in
     \<lparr>rq_node_instance_id = str_or (strip (pl_node_instance_id p)) (strip (pl_node_id p)), rq_node_id = strip (pl_node_id p),
      rq_control_addr = strip (pl_control_addr p), rq_capacity = max 1 (num_or (pl_capacity p) 1),
      rq_queue_capacity = max 1 (num_or (pl_queue_capacity p) 1), rq_tags = pl_tags p, rq_version = pl_version p,
      rq_metadata = iv_metadata iv, rq_services = parse_services (iv_services iv), rq_task_pools = parse_task_pools (iv_task_pools iv),
      rq_active_runtimes = filter (\<lambda>s. s \<noteq> []) (map strip (iv_active_runtimes iv)),
      rq_service_worker_capacity = max 0 (iv_service_worker_capacity iv), rq_service_worker_used = max 0 (iv_service_worker_used iv),
      rq_task_pool_worker_capacity = max 0 (iv_task_pool_worker_capacity iv),
      rq_task_pool_worker_used = max 0 (iv_task_pool_worker_used iv),
      rq_accept_service_deploy = iv_accept_service_deploy iv, rq_python_version = iv_python_version iv\<rparr>)"

definition heartbeat_of :: "heartbeat_payload \<Rightarrow> heartbeat" where
  "heartbeat_of p =
    (let iv = bp_inventory p in
     \<lparr>hb_node_instance_id = str_or (strip (bp_node_instance_id p)) (strip (bp_node_id p)), hb_node_id = strip (bp_node_id p),
      hb_healthy = bp_healthy p, hb_credit = Some (max 0 (bp_credit p)), hb_metadata = map_option iv_metadata iv,
      hb_services = map_option (\<lambda>i. parse_services (iv_services i)) iv,
      hb_task_pools = map_option (\<lambda>i. parse_task_pools (iv_task_pools i)) iv,
      hb_active_runtimes = map_option (\<lambda>i. filter (\<lambda>s. s \<noteq> []) (map strip (iv_active_runtimes i))) iv,
      hb_service_worker_capacity = (case iv of None \<Rightarrow> 0 | Some i \<Rightarrow> max 0 (iv_service_worker_capacity i)),
      hb_service_worker_used = (case iv of None \<Rightarrow> 0 | Some i \<Rightarrow> max 0 (iv_service_worker_used i)),
      hb_task_pool_worker_capacity = (case iv of None \<Rightarrow> 0 | Some i \<Rightarrow> max 0 (iv_task_pool_worker_capacity i)),
      hb_task_pool_worker_used = (case iv of None \<Rightarrow> 0 | Some i \<Rightarrow> max 0 (iv_task_pool_worker_used i)),
      hb_accept_service_deploy = map_option iv_accept_service_deploy iv,
      hb_python_version = (case iv of None \<Rightarrow> [] | Some i \<Rightarrow> iv_python_version i)\<rparr>)"

text \<open>\<open>POST /nodes/register\<close>: only a \<open>ValueError\<close> of the registry is answered.\<close>

definition answer_register :: "int \<Rightarrow> instant \<Rightarrow> register_payload \<Rightarrow> registry \<Rightarrow> registry \<times> answer" where
  "answer_register interval now p r =
    (let rq = registration_of p in
     case control_addr_conflicting_instances (rq_node_instance_id rq) (rq_control_addr rq) r of
       Inl e \<Rightarrow> (r, NoAnswer)
     | Inr conflicts \<Rightarrow>
         (case register_node_record rq now r of
            (r1, Inl (ValueError text)) \<Rightarrow> (r1, Answer 400 (refusal None text))
          | (r1, Inl e) \<Rightarrow> (r1, NoAnswer)
          | (r1, Inr n) \<Rightarrow> (r1, Answer 200 \<lparr>ir_ok = True, ir_accepted = Some True, ir_error = [],
              ir_heartbeat_interval_sec = Some interval, ir_next_heartbeat_in_sec = None,
              ir_lease_ttl_sec = Some (rg_lease_ttl_sec r1), ir_inventory_required = False\<rparr>)))"

text \<open>\<open>POST /nodes/heartbeat\<close>: the listing that tells whether the node was known comes first.\<close>

definition answer_heartbeat :: "int \<Rightarrow> instant \<Rightarrow> heartbeat_payload \<Rightarrow> registry \<Rightarrow> registry \<times> answer" where
  "answer_heartbeat interval now p r =
    (let hb = heartbeat_of p in
     case list_nodes False [] 10000 now r of
       (r1, listed) \<Rightarrow>
         let was_known = list_ex (\<lambda>n. strip (nd_node_instance_id n) = hb_node_instance_id hb) listed in
         (case heartbeat_record hb now r1 of
            (r2, None) \<Rightarrow> (r2, Answer 400 (refusal (Some False) ''node identity is required''))
          | (r2, Some n) \<Rightarrow> (r2, Answer 200 \<lparr>ir_ok = True, ir_accepted = Some True, ir_error = [],
              ir_heartbeat_interval_sec = None, ir_next_heartbeat_in_sec = Some interval,
              ir_lease_ttl_sec = Some (rg_lease_ttl_sec r2),
              ir_inventory_required = (\<not> was_known \<and> bp_inventory p = None)\<rparr>)))"

text \<open>What becomes of one request.\<close>

datatype fate = Arrives | NeverArrives transport | AnswerLost transport

definition request :: "string \<Rightarrow> fate \<Rightarrow> (registry \<Rightarrow> registry \<times> answer) \<Rightarrow> registry \<Rightarrow> registry \<times> (failure list + center_reply)" where
  "request endpoint f handler r =
    (case f of
       Arrives \<Rightarrow> (case handler r of (r1, ans) \<Rightarrow> (r1, http_json_request endpoint None ans))
     | NeverArrives t \<Rightarrow> (r, http_json_request endpoint (Some t) NoAnswer)
     | AnswerLost t \<Rightarrow> (case handler r of (r1, ans) \<Rightarrow> (r1, http_json_request endpoint (Some t) ans)))"

section \<open>The registrar\<close>

text \<open>The background heartbeat: its thread has started, has sent its request, or is done.\<close>

datatype heartbeat_future =
    HbStarted
  | HbSent bool "failure list + center_reply"
  | HbDone "failure list + bool"

record registrar =
  gr_node_id :: string
  gr_node_instance_id :: string
  gr_control_addr :: string
  gr_capacity :: int
  gr_queue_capacity :: int
  gr_tags :: "string list"
  gr_version :: string
  gr_metadata :: "(string, string) dict"
  gr_fallback_heartbeat_sec :: int
  gr_rpc_timeout_sec :: rat
  gr_inventory_sync_interval_sec :: rat
  gr_stop :: bool
  gr_registered :: bool
  gr_next_hb_sec :: int
  gr_lease_ttl_sec :: int
  gr_last_successful_sync_at :: rat
  gr_last_inventory_sync_at :: rat
  gr_force_inventory_sync :: bool
  gr_closing :: bool
  gr_heartbeat_future :: "heartbeat_future option"
  gr_heartbeat_future_started_at :: rat
  gr_heartbeat_future_reported_at :: rat

definition new_registrar ::
  "string \<Rightarrow> string \<Rightarrow> string \<Rightarrow> string \<Rightarrow> int \<Rightarrow> int \<Rightarrow> string list \<Rightarrow> string \<Rightarrow> (string, string) dict \<Rightarrow> int \<Rightarrow> rat \<Rightarrow> rat \<Rightarrow> registrar" where
  "new_registrar node_id state_instance_id fresh control_addr capacity queue_capacity tags version metadata fallback rpc_timeout interval =
    (let fb = max 1 fallback in
     \<lparr>gr_node_id = node_id, gr_node_instance_id = str_or (strip state_instance_id) (str_or (strip (str_or node_id ''node'')) ''node'' @ ''-'' @ fresh),
      gr_control_addr = control_addr, gr_capacity = max 1 capacity, gr_queue_capacity = max 1 queue_capacity, gr_tags = tags,
      gr_version = version, gr_metadata = metadata, gr_fallback_heartbeat_sec = fb, gr_rpc_timeout_sec = max (1 / 10) rpc_timeout,
      gr_inventory_sync_interval_sec = max 1 (num_or interval 30), gr_stop = False, gr_registered = False, gr_next_hb_sec = fb,
      gr_lease_ttl_sec = max (fb * 3) (fb + 1), gr_last_successful_sync_at = 0, gr_last_inventory_sync_at = 0,
      gr_force_inventory_sync = True, gr_closing = False, gr_heartbeat_future = None, gr_heartbeat_future_started_at = 0,
      gr_heartbeat_future_reported_at = 0\<rparr>)"

text \<open>A report of a pool, with the times its place among the recent ones is decided by.\<close>

record pool_report =
  pt_pool :: node_task_pool
  pt_status :: string
  pt_last_heartbeat_at :: "instant option"
  pt_lease_expire_at :: "instant option"
  pt_created_at :: "instant option"

definition task_pool_report_sort_ts :: "pool_report \<Rightarrow> rat" where
  "task_pool_report_sort_ts p =
    (case pt_last_heartbeat_at p of Some t \<Rightarrow> t | None \<Rightarrow> (case pt_lease_expire_at p of Some t \<Rightarrow> t
     | None \<Rightarrow> (case pt_created_at p of Some t \<Rightarrow> t | None \<Rightarrow> 0)))"

definition limit_task_pool_reports :: "int \<Rightarrow> pool_report list \<Rightarrow> pool_report list" where
  "limit_task_pool_reports inactive_limit reports =
    (let running = (\<lambda>p. upper (strip (pt_status p)) = ''RUNNING'') in
     filter running reports @
       take (nat (max 0 inactive_limit)) (sort_key (\<lambda>p. - task_pool_report_sort_ts p) (filter (\<lambda>p. \<not> running p) reports)))"

definition MAX_RECENT_INACTIVE_TASK_POOL_REPORTS :: int where
  "MAX_RECENT_INACTIVE_TASK_POOL_REPORTS = 32"

text \<open>What \<open>NodeControlState.registrar_snapshot\<close> returns with the inventory; without it the
  lists and the timing metadata are empty.\<close>

record node_snapshot =
  sh_credit :: int
  sh_service_timing_metadata :: "(string, string) dict"
  sh_accept_service_deploy :: bool
  sh_deploy_health_reason :: string
  sh_task_pool_reports :: "pool_report list"
  sh_service_reports :: "node_service list"
  sh_active_runtimes :: "string list"
  sh_service_worker_capacity :: int
  sh_service_worker_used :: int
  sh_task_pool_worker_capacity :: int
  sh_task_pool_worker_used :: int
  sh_python_version :: string

definition registrar_snapshot :: "bool \<Rightarrow> node_snapshot \<Rightarrow> node_snapshot" where
  "registrar_snapshot include_inventory sh =
    (if include_inventory then sh
     else sh\<lparr>sh_service_timing_metadata := [], sh_task_pool_reports := [], sh_service_reports := [], sh_active_runtimes := []\<rparr>)"

definition reported_inventory :: "string \<Rightarrow> registrar \<Rightarrow> node_snapshot \<Rightarrow> inventory" where
  "reported_inventory pycloud_version g sh =
    (let reason = strip (sh_deploy_health_reason sh);
         metadata = fold (\<lambda>(k, v). dset k v) (sh_service_timing_metadata sh) (gr_metadata g);
         metadata = dset ''pycloud_version'' pycloud_version metadata;
         metadata = dset ''accept_service_deploy'' (if sh_accept_service_deploy sh then ''true'' else ''false'') metadata;
         metadata = (if reason \<noteq> [] then dset ''deploy_health_reason'' reason metadata else metadata)
     in \<lparr>iv_metadata = metadata, iv_python_version = sh_python_version sh, iv_service_worker_capacity = sh_service_worker_capacity sh,
       iv_service_worker_used = sh_service_worker_used sh, iv_task_pool_worker_capacity = sh_task_pool_worker_capacity sh,
       iv_task_pool_worker_used = sh_task_pool_worker_used sh, iv_accept_service_deploy = sh_accept_service_deploy sh,
       iv_services = sh_service_reports sh,
       iv_task_pools = map pt_pool (limit_task_pool_reports MAX_RECENT_INACTIVE_TASK_POOL_REPORTS (sh_task_pool_reports sh)),
       iv_active_runtimes = sh_active_runtimes sh\<rparr>)"

definition register_request :: "string \<Rightarrow> registrar \<Rightarrow> node_snapshot \<Rightarrow> register_payload" where
  "register_request pycloud_version g sh = register_body
    \<lparr>pl_node_id = gr_node_id g, pl_node_instance_id = gr_node_instance_id g, pl_control_addr = gr_control_addr g,
     pl_capacity = gr_capacity g, pl_queue_capacity = gr_queue_capacity g, pl_tags = gr_tags g, pl_version = gr_version g,
     pl_inventory = reported_inventory pycloud_version g (registrar_snapshot True sh)\<rparr>"

definition heartbeat_request :: "string \<Rightarrow> registrar \<Rightarrow> bool \<Rightarrow> node_snapshot \<Rightarrow> heartbeat_payload" where
  "heartbeat_request pycloud_version g include_inventory sh = heartbeat_body
    \<lparr>bp_node_id = gr_node_id g, bp_node_instance_id = gr_node_instance_id g, bp_healthy = True, bp_credit = sh_credit sh,
     bp_inventory = (if include_inventory
       then Some (reported_inventory pycloud_version g (registrar_snapshot True sh)) else None)\<rparr>"

definition wants_inventory :: "rat \<Rightarrow> bool \<Rightarrow> registrar \<Rightarrow> bool" where
  "wants_inventory tick force_inventory g \<longleftrightarrow> force_inventory \<or> gr_force_inventory_sync g \<or>
     gr_inventory_sync_interval_sec g \<le> tick - gr_last_inventory_sync_at g"

text \<open>A field of the reply, in seconds: \<open>max(1, int(resp.get(key, fallback) or fallback))\<close>.\<close>

definition reply_sec :: "int option \<Rightarrow> int \<Rightarrow> int" where
  "reply_sec v fallback = max 1 (num_or (opt_or v fallback) fallback)"

definition register_answered :: "rat \<Rightarrow> failure list + center_reply \<Rightarrow> registrar \<Rightarrow> registrar \<times> (failure list + bool)" where
  "register_answered tick res g =
    (case res of
       Inl exc \<Rightarrow> (g, Inl exc)
     | Inr reply \<Rightarrow>
         if \<not> opt_or (ir_accepted reply) (ir_ok reply) then (g, Inr False)
         else (g\<lparr>gr_registered := True,
           gr_next_hb_sec := reply_sec (ir_heartbeat_interval_sec reply) (gr_fallback_heartbeat_sec g),
           gr_lease_ttl_sec := reply_sec (ir_lease_ttl_sec reply) (gr_lease_ttl_sec g),
           gr_last_successful_sync_at := tick, gr_last_inventory_sync_at := tick, gr_force_inventory_sync := False\<rparr>, Inr True))"

definition heartbeat_answered ::
  "rat \<Rightarrow> bool \<Rightarrow> failure list + center_reply \<Rightarrow> registrar \<Rightarrow> registrar \<times> (failure list + bool)" where
  "heartbeat_answered tick include_inventory res g =
    (case res of
       Inl exc \<Rightarrow> (g, Inl exc)
     | Inr reply \<Rightarrow>
         if \<not> opt_or (ir_accepted reply) False then (g, Inr False)
         else
           let g1 = g\<lparr>gr_next_hb_sec := reply_sec (ir_next_heartbeat_in_sec reply) (gr_fallback_heartbeat_sec g),
                 gr_lease_ttl_sec := reply_sec (ir_lease_ttl_sec reply) (gr_lease_ttl_sec g), gr_last_successful_sync_at := tick\<rparr>
           in (if ir_inventory_required reply then g1\<lparr>gr_force_inventory_sync := True, gr_last_inventory_sync_at := 0\<rparr>
               else if include_inventory then g1\<lparr>gr_last_inventory_sync_at := tick, gr_force_inventory_sync := False\<rparr>
               else g1, Inr True))"

text \<open>Whether the lease has run out by the node's own clock; then it is no longer registered.\<close>

definition registration_lease_expired :: "rat \<Rightarrow> registrar \<Rightarrow> bool" where
  "registration_lease_expired tick g \<longleftrightarrow> gr_last_successful_sync_at g \<noteq> 0 \<and>
     max 1 (of_int (num_or (gr_lease_ttl_sec g) (gr_fallback_heartbeat_sec g))) < tick - gr_last_successful_sync_at g"

definition mark_registration_stale :: "rat \<Rightarrow> registrar \<Rightarrow> registrar" where
  "mark_registration_stale tick g = (if registration_lease_expired tick g then g\<lparr>gr_registered := False\<rparr> else g)"

text \<open>\<open>_handle_sync_exception\<close> up to its registration: true when a registration is to follow.\<close>

definition handle_sync_exception :: "rat \<Rightarrow> failure list \<Rightarrow> bool \<Rightarrow> registrar \<Rightarrow> registrar \<times> bool" where
  "handle_sync_exception tick exc was_registered g =
    (let g1 = g\<lparr>gr_registered := False\<rparr> in
     if was_registered \<and> is_unknown_node_error exc then (g1, True)
     else (if is_expected_connect_failure exc then mark_registration_stale tick g1 else g1, False))"

text \<open>The end of that registration.\<close>

definition reregister_answered :: "rat \<Rightarrow> failure list + center_reply \<Rightarrow> registrar \<Rightarrow> registrar" where
  "reregister_answered tick res g =
    (case register_answered tick res g of
       (g1, Inl exc) \<Rightarrow> if is_expected_connect_failure exc then mark_registration_stale tick g1 else g1
     | (g1, Inr ok) \<Rightarrow> g1)"

text \<open>\<open>_drain_heartbeat_future\<close> on a heartbeat that is not done.\<close>

definition report_pending :: "rat \<Rightarrow> registrar \<Rightarrow> registrar" where
  "report_pending tick g =
    (let elapsed = max 0 (tick - num_or (gr_heartbeat_future_started_at g) tick);
         report_after = max (1 / 10) (num_or (gr_rpc_timeout_sec g) (1 / 10)) in
     if report_after \<le> elapsed \<and> report_after \<le> tick - gr_heartbeat_future_reported_at g
     then mark_registration_stale tick (g\<lparr>gr_heartbeat_future_reported_at := tick\<rparr>) else g)"

definition forget_heartbeat :: "registrar \<Rightarrow> registrar" where
  "forget_heartbeat g = g\<lparr>gr_heartbeat_future := None, gr_heartbeat_future_started_at := 0, gr_heartbeat_future_reported_at := 0\<rparr>"

text \<open>The drain that \<open>_submit_heartbeat_async\<close> begins with finds what the caller's drain left.\<close>

definition submit_heartbeat_async :: "rat \<Rightarrow> registrar \<Rightarrow> registrar" where
  "submit_heartbeat_async tick g =
    (if gr_heartbeat_future g \<noteq> None then g
     else g\<lparr>gr_heartbeat_future_started_at := tick, gr_heartbeat_future_reported_at := 0, gr_heartbeat_future := Some HbStarted\<rparr>)"

definition loop_wait_sec :: "registrar \<Rightarrow> int" where
  "loop_wait_sec g = max 1 (if gr_registered g then gr_next_hb_sec g else gr_fallback_heartbeat_sec g)"

section \<open>The threads\<close>

text \<open>What the loop waits for: the registration or heartbeat of its round, the registration after a
  heartbeat that met an unknown node, or that registration for the background heartbeat it
  drained, after which the round goes on with what it had read.\<close>

datatype sending = Registering | Beating bool | Reregistering | Draining bool bool bool

datatype closer_state = CloserIdle | CloserWaits "failure list + center_reply" | CloserStops

datatype loop_state = LoopIdle | LoopWaits sending "failure list + center_reply"

record registrar_sys =
  rx_registrar :: registrar
  rx_alive :: bool
  rx_loop :: loop_state
  rx_closer :: closer_state
  rx_registry :: registry

text \<open>The circumstances of a step: the node's monotonic clock, the clock of the info centre, what the
  node has to report and the fate of the request.\<close>

record circumstances =
  cx_mono :: rat
  cx_now :: instant
  cx_snapshot :: node_snapshot
  cx_fate :: fate

record registrar_env =
  re_pycloud_version :: string
  re_endpoint :: string
  re_heartbeat_interval_sec :: int

definition register_sent ::
  "registrar_env \<Rightarrow> circumstances \<Rightarrow> registrar \<Rightarrow> registry \<Rightarrow> registry \<times> (failure list + center_reply)" where
  "register_sent env cx g r = request (re_endpoint env) (cx_fate cx)
    (answer_register (re_heartbeat_interval_sec env) (cx_now cx) (register_request (re_pycloud_version env) g (cx_snapshot cx))) r"

definition heartbeat_sent ::
  "registrar_env \<Rightarrow> circumstances \<Rightarrow> bool \<Rightarrow> registrar \<Rightarrow> registry \<Rightarrow> registry \<times> (failure list + center_reply)" where
  "heartbeat_sent env cx include_inventory g r = request (re_endpoint env) (cx_fate cx)
    (answer_heartbeat (re_heartbeat_interval_sec env) (cx_now cx)
      (heartbeat_request (re_pycloud_version env) g include_inventory (cx_snapshot cx))) r"

definition loop_registers :: "registrar_env \<Rightarrow> circumstances \<Rightarrow> sending \<Rightarrow> registrar \<Rightarrow> registrar_sys \<Rightarrow> registrar_sys" where
  "loop_registers env cx sending g s =
    (case register_sent env cx g (rx_registry s) of
       (r, res) \<Rightarrow> s\<lparr>rx_registrar := g, rx_registry := r, rx_loop := LoopWaits sending res\<rparr>)"

text \<open>\<open>_sync_now\<close> after its drain, with what it read before.\<close>

definition sync_rest ::
  "registrar_env \<Rightarrow> circumstances \<Rightarrow> bool \<Rightarrow> bool \<Rightarrow> bool \<Rightarrow> registrar \<Rightarrow> registrar_sys \<Rightarrow> registrar_sys" where
  "sync_rest env cx was_registered force_inventory sync_heartbeat g s =
    (if was_registered \<and> \<not> force_inventory \<and> \<not> sync_heartbeat
     then s\<lparr>rx_registrar := submit_heartbeat_async (cx_mono cx) g, rx_loop := LoopIdle\<rparr>
     else if \<not> was_registered then loop_registers env cx Registering g s
     else
       let include_inventory = wants_inventory (cx_mono cx) False g in
       (case heartbeat_sent env cx include_inventory g (rx_registry s) of
          (r, res) \<Rightarrow> s\<lparr>rx_registrar := g, rx_registry := r, rx_loop := LoopWaits (Beating include_inventory) res\<rparr>))"

definition sync_now :: "registrar_env \<Rightarrow> circumstances \<Rightarrow> bool \<Rightarrow> registrar_sys \<Rightarrow> registrar_sys" where
  "sync_now env cx sync_heartbeat s =
    (let g = rx_registrar s; was_registered = gr_registered g; force_inventory = gr_force_inventory_sync g in
     case gr_heartbeat_future g of
       None \<Rightarrow> sync_rest env cx was_registered force_inventory sync_heartbeat g s
     | Some (HbDone (Inr ok)) \<Rightarrow> sync_rest env cx was_registered force_inventory sync_heartbeat (forget_heartbeat g) s
     | Some (HbDone (Inl exc)) \<Rightarrow>
         (case handle_sync_exception (cx_mono cx) exc True (forget_heartbeat g) of
            (g1, True) \<Rightarrow> loop_registers env cx (Draining was_registered force_inventory sync_heartbeat) g1 s
          | (g1, False) \<Rightarrow> sync_rest env cx was_registered force_inventory sync_heartbeat g1 s)
     | Some f \<Rightarrow> sync_rest env cx was_registered force_inventory sync_heartbeat (report_pending (cx_mono cx) g) s)"

definition loop_answered :: "registrar_env \<Rightarrow> circumstances \<Rightarrow> sending \<Rightarrow> failure list + center_reply \<Rightarrow> registrar_sys \<Rightarrow> registrar_sys" where
  "loop_answered env cx sending res s =
    (let g = rx_registrar s; tick = cx_mono cx; idle = (\<lambda>g1. s\<lparr>rx_registrar := g1, rx_loop := LoopIdle\<rparr>) in
     case sending of
       Registering \<Rightarrow> (case register_answered tick res g of
           (g1, Inr ok) \<Rightarrow> idle g1
         | (g1, Inl exc) \<Rightarrow> idle (fst (handle_sync_exception tick exc False g1)))
     | Beating include_inventory \<Rightarrow> (case heartbeat_answered tick include_inventory res g of
           (g1, Inr ok) \<Rightarrow> idle g1
         | (g1, Inl exc) \<Rightarrow> (case handle_sync_exception tick exc True g1 of
               (g2, True) \<Rightarrow> loop_registers env cx Reregistering g2 s
             | (g2, False) \<Rightarrow> idle g2))
     | Reregistering \<Rightarrow> idle (reregister_answered tick res g)
     | Draining was_registered force_inventory sync_heartbeat \<Rightarrow>
         sync_rest env cx was_registered force_inventory sync_heartbeat (reregister_answered tick res g) s)"

text \<open>The thread of the background heartbeat.\<close>

definition background_sends :: "registrar_env \<Rightarrow> circumstances \<Rightarrow> registrar_sys \<Rightarrow> registrar_sys" where
  "background_sends env cx s =
    (let g = rx_registrar s in
     case gr_heartbeat_future g of
       Some HbStarted \<Rightarrow>
         let include_inventory = wants_inventory (cx_mono cx) False g in
         (case heartbeat_sent env cx include_inventory g (rx_registry s) of
            (r, res) \<Rightarrow> s\<lparr>rx_registrar := g\<lparr>gr_heartbeat_future := Some (HbSent include_inventory res)\<rparr>, rx_registry := r\<rparr>)
     | _ \<Rightarrow> s)"

definition background_answered :: "rat \<Rightarrow> registrar_sys \<Rightarrow> registrar_sys" where
  "background_answered tick s =
    (let g = rx_registrar s in
     case gr_heartbeat_future g of
       Some (HbSent include_inventory res) \<Rightarrow>
         (case heartbeat_answered tick include_inventory res g of
            (g1, out) \<Rightarrow> s\<lparr>rx_registrar := g1\<lparr>gr_heartbeat_future := Some (HbDone out)\<rparr>\<rparr>)
     | _ \<Rightarrow> s)"

text \<open>\<open>close\<close>: the last heartbeat of \<open>_mark_lost_before_close\<close>, the end of the registration, and only
  then the stop of the loop. One thread at a time closes; another call meanwhile stops the loop.\<close>

definition close_called :: "registrar_env \<Rightarrow> circumstances \<Rightarrow> bool \<Rightarrow> registrar_sys \<Rightarrow> registrar_sys" where
  "close_called env cx mark_lost s =
    (let g = rx_registrar s in
     case rx_closer s of
       CloserIdle \<Rightarrow>
         if mark_lost \<and> gr_registered g
         then (case heartbeat_sent env cx (wants_inventory (cx_mono cx) True g) g (rx_registry s) of
           (r, res) \<Rightarrow> s\<lparr>rx_registrar := g\<lparr>gr_closing := True\<rparr>, rx_registry := r, rx_closer := CloserWaits res\<rparr>)
         else s\<lparr>rx_closer := CloserStops\<rparr>
     | CloserWaits res \<Rightarrow> s\<lparr>rx_registrar := g\<lparr>gr_stop := True\<rparr>\<rparr>
     | CloserStops \<Rightarrow> s)"

definition close_answered :: "rat \<Rightarrow> registrar_sys \<Rightarrow> registrar_sys" where
  "close_answered tick s =
    (case rx_closer s of
       CloserWaits res \<Rightarrow> s\<lparr>rx_registrar := (fst (heartbeat_answered tick True res (rx_registrar s)))
         \<lparr>gr_registered := False, gr_closing := False\<rparr>, rx_closer := CloserStops\<rparr>
     | _ \<Rightarrow> s)"

definition close_stops :: "registrar_sys \<Rightarrow> registrar_sys" where
  "close_stops s =
    (case rx_closer s of
       CloserStops \<Rightarrow> s\<lparr>rx_registrar := (rx_registrar s)\<lparr>gr_stop := True\<rparr>, rx_closer := CloserIdle\<rparr>
     | _ \<Rightarrow> s)"

definition request_sync :: "registrar \<Rightarrow> registrar" where
  "request_sync g = g\<lparr>gr_force_inventory_sync := True\<rparr>"

text \<open>What is left of the fencing of a node: the advice of the info centre to reset is not followed.\<close>

definition reset_state_after_fence :: "registrar \<Rightarrow> registrar" where
  "reset_state_after_fence g = g\<lparr>gr_registered := False\<rparr>"

definition self_fence_if_lease_expired :: "rat \<Rightarrow> registrar \<Rightarrow> registrar \<times> bool" where
  "self_fence_if_lease_expired tick g =
    (if registration_lease_expired tick g then (mark_registration_stale tick (g\<lparr>gr_registered := False\<rparr>), False) else (g, False))"

definition start_loop :: "registrar_sys \<Rightarrow> registrar_sys" where
  "start_loop s = (if rx_alive s then s else s\<lparr>rx_alive := True, rx_registrar := (rx_registrar s)\<lparr>gr_stop := False\<rparr>\<rparr>)"

section \<open>Steps\<close>

text \<open>The last two: another party acts on the registry, and the info centre starts anew.\<close>

datatype registrar_event =
    LoopStart
  | LoopSync circumstances
  | LoopAnswer circumstances
  | LoopExit
  | BeatSend circumstances
  | BeatAnswer rat
  | RequestSync
  | CloseCall bool circumstances
  | CloseAnswer rat
  | CloseStop
  | Elsewhere registry_event
  | CenterRestart int "(string, node_profile) dict"

fun registrar_step :: "registrar_env \<Rightarrow> registrar_event \<Rightarrow> registrar_sys \<Rightarrow> registrar_sys" where
  "registrar_step env LoopStart s = start_loop s"
| "registrar_step env (LoopSync cx) s =
    (if rx_alive s \<and> \<not> gr_stop (rx_registrar s) \<and> rx_loop s = LoopIdle then sync_now env cx False s else s)"
| "registrar_step env (LoopAnswer cx) s =
    (case rx_loop s of LoopIdle \<Rightarrow> s | LoopWaits sending res \<Rightarrow> loop_answered env cx sending res s)"
| "registrar_step env LoopExit s =
    (if gr_stop (rx_registrar s) \<and> rx_loop s = LoopIdle then s\<lparr>rx_alive := False\<rparr> else s)"
| "registrar_step env (BeatSend cx) s = background_sends env cx s"
| "registrar_step env (BeatAnswer tick) s = background_answered tick s"
| "registrar_step env RequestSync s = s\<lparr>rx_registrar := request_sync (rx_registrar s)\<rparr>"
| "registrar_step env (CloseCall mark_lost cx) s = close_called env cx mark_lost s"
| "registrar_step env (CloseAnswer tick) s = close_answered tick s"
| "registrar_step env CloseStop s = close_stops s"
| "registrar_step env (Elsewhere e) s = s\<lparr>rx_registry := registry_step e (rx_registry s)\<rparr>"
| "registrar_step env (CenterRestart ttl profiles) s = s\<lparr>rx_registry := new_registry ttl profiles\<rparr>"

definition registrar_run :: "registrar_env \<Rightarrow> registrar_event list \<Rightarrow> registrar_sys \<Rightarrow> registrar_sys" where
  "registrar_run env evs s = fold (registrar_step env) evs s"

end
