(* ===== verification/RegistrarGuarantees.thy ===== *)
theory RegistrarGuarantees
  imports Registrar RegistryGuarantees
begin

text \<open>
  What the registrar and the registry of the info centre do together: a registration puts the node
  and its address into the registry; a heartbeat cannot, so a node that the registry lost while the
  registrar counts it as registered has no address from then on; and a request to report the
  inventory is forgotten when a report is under way.
\<close>

section \<open>Where an address comes from\<close>

definition registration_key :: "registration \<Rightarrow> string" where
  "registration_key rq = strip (str_or (rq_node_instance_id rq) (rq_node_id rq))"

definition address_at :: "string \<Rightarrow> registry \<Rightarrow> string option" where
  "address_at k r = map_option nd_control_addr (dget (rg_nodes r) k)"

text \<open>At a key, the address stays, or the node goes.\<close>

definition keeps_address :: "string \<Rightarrow> registry \<Rightarrow> registry \<Rightarrow> bool" where
  "keeps_address k r r' \<longleftrightarrow> address_at k r' = None \<or> address_at k r' = address_at k r"

lemma keeps_address_refl [intro, simp]: "keeps_address k r r"
  by (simp add: keeps_address_def)

lemma keeps_address_trans: "keeps_address k r r1 \<Longrightarrow> keeps_address k r1 r2 \<Longrightarrow> keeps_address k r r2"
  unfolding keeps_address_def by auto

lemma drop_keeps_address: "keeps_address k r (drop_node key r)"
  by (auto simp: keeps_address_def address_at_def drop_node_def dict_simps split: option.split)

lemma drops_keep_address: "keeps_address k r (fold drop_node ks r)"
  by (induction ks arbitrary: r) (auto intro: keeps_address_trans [OF drop_keeps_address])

lemma dmap_keeps_address: "(\<And>n. nd_control_addr (f k n) = nd_control_addr n) \<Longrightarrow> address_at k (r\<lparr>rg_nodes := dmap f (rg_nodes r)\<rparr>) = address_at k r"
  by (cases "dget (rg_nodes r) k") (simp_all add: address_at_def dict_simps)

lemma address_at_put:
  "address_at k (put_node key n prev r) = (if k = key then Some (nd_control_addr n) else address_at k r)"
  "address_at k (r\<lparr>rg_nodes := dset key n (rg_nodes r)\<rparr>) = (if k = key then Some (nd_control_addr n) else address_at k r)"
  by (auto simp: address_at_def put_node_def dict_simps)

lemma other_registration_keeps_address:
  assumes "registration_key rq \<noteq> k"
  shows "keeps_address k r (fst (register_node_record rq now r))"
proof -
  let ?i = "strip (str_or (rq_node_instance_id rq) (rq_node_id rq))"
  obtain r1 e1 where p: "prune_replaced_nodes ?i (rq_control_addr rq) r = (r1, e1)" by fastforce
  obtain r2 e2 where v: "validate_startup_service_names ?i (rq_control_addr rq) (rq_metadata rq) (rq_services rq) now r1 = (r2, e2)" by fastforce
  have k1: "keeps_address k r r1"
    using p by (auto simp: prune_replaced_nodes_def Let_def drops_keep_address split: if_splits sum.splits)
  obtain ks where "r2 = fold drop_node ks r1"
    using validate_shape [of ?i "rq_control_addr rq" "rq_metadata rq" "rq_services rq" now r1] v by auto
  then have k2: "keeps_address k r r2" using k1 keeps_address_trans drops_keep_address by blast
  have "?i \<noteq> k" using assms by (simp add: registration_key_def)
  then have put: "keeps_address k r (put_node ?i n prev r2)" for n prev using k2 by (simp add: keeps_address_def address_at_put)
  show ?thesis using k1 k2 put p v by (cases e1; cases e2) (simp_all add: register_node_record_def Let_def)
qed

lemma heartbeat_address:
  "address_at k (fst (heartbeat_record hb now r)) = address_at k r \<or>
    (address_at k r = None \<and> address_at k (fst (heartbeat_record hb now r)) = Some [])"
proof -
  let ?i = "strip (str_or (hb_node_instance_id hb) (hb_node_id hb))"
  let ?old = "case dget (rg_nodes r) ?i of Some n \<Rightarrow> n | None \<Rightarrow> fresh_node ?i (hb_node_id hb) [] 1 1 (strip (hb_python_version hb)) now"
  have "address_at k (fst (heartbeat_record hb now r)) =
      (if ?i = [] \<or> k \<noteq> ?i then address_at k r else Some (nd_control_addr ?old))"
    by (cases "hb_services hb") (auto simp: heartbeat_record_def Let_def address_at_put frame_simps)
  then show ?thesis by (cases "dget (rg_nodes r) k") (auto simp: address_at_def)
qed

text \<open>Only a registration under its key gives a node an address.\<close>

lemma addressless_step:
  assumes "address_at k r \<in> {None, Some []}" and "\<And>rq now. e = Register rq now \<Longrightarrow> registration_key rq \<noteq> k"
  shows "address_at k (registry_step e r) \<in> {None, Some []}"
proof -
  have kept: "keeps_address k r r' \<Longrightarrow> address_at k r' \<in> {None, Some []}" for r' using assms(1) by (auto simp: keeps_address_def)
  show ?thesis
  proof (cases e)
    case (Register rq now)
    then show ?thesis using kept [OF other_registration_keeps_address] assms(2) by simp
  next
    case (Heartbeat hb now)
    then show ?thesis using heartbeat_address [of k hb now r] assms(1) by auto
  next
    case (Lost key reason now)
    have "keeps_address k r (fst (mark_node_lost key reason now r))"
      by (cases "dget (rg_nodes r) key") (auto simp: mark_node_lost_def Let_def keeps_address_def address_at_put frame_simps, auto simp: address_at_def)
    then show ?thesis using kept Lost by simp
  next
    case (Schedule key s d rs)
    have "keeps_address k r (fst (update_node_schedule_state key s d rs r))"
      by (cases "dget (rg_nodes r) key")
        (auto simp: update_node_schedule_state_def Let_def keeps_address_def address_at_put frame_simps, auto simp: address_at_def)
    then show ?thesis using kept Schedule by simp
  next
    case (Profile endpoint u saved)
    have "address_at k (fst (update_node_profile endpoint u saved r)) = address_at k r"
      by (cases "dget (rg_nodes r) k")
        (auto simp: update_node_profile_def Let_def address_at_def dict_simps frame_simps split: sum.split option.split)
    then show ?thesis using assms(1) Profile by simp
  next
    case (Read keys now)
    then show ?thesis using assms(1) by (cases "dget (rg_nodes r) k") (auto simp: read_nodes_def fence_nodes_def address_at_def dict_simps frame_simps)
  qed
qed

section \<open>A heartbeat that arrives\<close>

definition registrar_key :: "registrar \<Rightarrow> string" where
  "registrar_key g = strip (gr_node_instance_id g)"

lemma heartbeat_sent_arrives:
  assumes "registrar_key g \<noteq> []" and "cx_fate cx = Arrives"
  obtains hb keys reply where "heartbeat_sent env cx include_inventory g r =
      (registry_step (Heartbeat hb (cx_now cx)) (read_nodes keys (cx_now cx) r), Inr reply)"
    and "ir_accepted reply = Some True"
proof -
  let ?p = "heartbeat_request (re_pycloud_version env) g include_inventory (cx_snapshot cx)"
  obtain r1 listed where l: "list_nodes False [] 10000 (cx_now cx) r = (r1, listed)" by fastforce
  have r1: "r1 = read_nodes (dkeys (rg_nodes r)) (cx_now cx) r" using queries_read(3) [of False "[]" 10000 "cx_now cx" r] l by simp
  obtain r2 n where h: "heartbeat_record (heartbeat_of ?p) (cx_now cx) r1 = (r2, Some n)"
    using assms(1)
    by (simp add: heartbeat_record_def Let_def heartbeat_of_def heartbeat_request_def heartbeat_body_def registrar_key_def str_or_def)
  then have "\<exists>reply. heartbeat_sent env cx include_inventory g r = (r2, Inr reply) \<and> ir_accepted reply = Some True"
    by (simp add: heartbeat_sent_def request_def assms(2) answer_heartbeat_def Let_def l http_json_request_def)
  moreover have "r2 = registry_step (Heartbeat (heartbeat_of ?p) (cx_now cx)) (read_nodes (dkeys (rg_nodes r)) (cx_now cx) r)"
    using h by (simp add: r1)
  ultimately show ?thesis using that by blast
qed

section \<open>A node the registry lost\<close>

text \<open>Every request arrives and is answered, the lease does not run out by the node's clock when the
  loop looks, nobody closes the registrar, and no other party registers the node's key.\<close>

definition calm :: "registrar_event \<Rightarrow> registrar_sys \<Rightarrow> bool" where
  "calm e s \<longleftrightarrow>
    (case e of
       LoopSync cx \<Rightarrow> cx_fate cx = Arrives \<and> \<not> registration_lease_expired (cx_mono cx) (rx_registrar s)
     | BeatSend cx \<Rightarrow> cx_fate cx = Arrives
     | CloseCall mark_lost cx \<Rightarrow> False
     | Elsewhere (Register rq now) \<Rightarrow> registration_key rq \<noteq> registrar_key (rx_registrar s)
     | _ \<Rightarrow> True)"

fun calm_run :: "registrar_env \<Rightarrow> registrar_event list \<Rightarrow> registrar_sys \<Rightarrow> bool" where
  "calm_run env [] s = True"
| "calm_run env (e # es) s \<longleftrightarrow> calm e s \<and> calm_run env es (registrar_step env e s)"

definition accepted :: "failure list + center_reply \<Rightarrow> bool" where
  "accepted res = (case res of Inl exc \<Rightarrow> False | Inr reply \<Rightarrow> ir_accepted reply = Some True)"

definition heartbeats_only :: "registrar_sys \<Rightarrow> bool" where
  "heartbeats_only s \<longleftrightarrow> gr_registered (rx_registrar s) \<and> rx_closer s = CloserIdle \<and>
    (case rx_loop s of LoopIdle \<Rightarrow> True | LoopWaits (Beating inc) res \<Rightarrow> accepted res | _ \<Rightarrow> False) \<and>
    (case gr_heartbeat_future (rx_registrar s) of
       Some (HbSent inc res) \<Rightarrow> accepted res | Some (HbDone (Inl exc)) \<Rightarrow> False | _ \<Rightarrow> True)"

definition forgotten :: "string \<Rightarrow> registrar_sys \<Rightarrow> bool" where
  "forgotten k s \<longleftrightarrow> heartbeats_only s \<and> registrar_key (rx_registrar s) = k \<and> k \<noteq> [] \<and>
     address_at k (rx_registry s) \<in> {None, Some []}"

lemma heartbeat_answered_accepted:
  assumes "accepted res"
  obtains g1 where "heartbeat_answered tick inc res g = (g1, Inr True)"
    and "gr_registered g1 = gr_registered g" "registrar_key g1 = registrar_key g" "gr_heartbeat_future g1 = gr_heartbeat_future g"
proof -
  obtain reply where "res = Inr reply" "ir_accepted reply = Some True" using assms by (cases res) (simp_all add: accepted_def)
  then show ?thesis using that by (simp add: heartbeat_answered_def Let_def opt_or_def registrar_key_def)
qed

lemma report_pending_registered:
  assumes "\<not> registration_lease_expired tick g"
  shows "gr_registered (report_pending tick g) = gr_registered g" "registrar_key (report_pending tick g) = registrar_key g"
    "gr_heartbeat_future (report_pending tick g) = gr_heartbeat_future g"
  using assms by (auto simp: report_pending_def Let_def mark_registration_stale_def registration_lease_expired_def registrar_key_def)

lemma heartbeat_sent_forgotten:
  assumes "registrar_key g = k" "k \<noteq> []" "cx_fate cx = Arrives" "address_at k r \<in> {None, Some []}"
  obtains r' res where "heartbeat_sent env cx inc g r = (r', res)" "accepted res" "address_at k r' \<in> {None, Some []}"
proof -
  obtain hb keys reply where h: "heartbeat_sent env cx inc g r =
      (registry_step (Heartbeat hb (cx_now cx)) (read_nodes keys (cx_now cx) r), Inr reply)" "ir_accepted reply = Some True"
    using heartbeat_sent_arrives [of g cx env inc r] assms(1-3) by metis
  have "address_at k (read_nodes keys (cx_now cx) r) \<in> {None, Some []}"
    using addressless_step [OF assms(4), of "Read keys (cx_now cx)"] by simp
  then have "address_at k (registry_step (Heartbeat hb (cx_now cx)) (read_nodes keys (cx_now cx) r)) \<in> {None, Some []}"
    by (rule addressless_step) simp
  then show ?thesis using that h by (simp add: accepted_def)
qed

lemma sync_rest_forgotten:
  assumes "forgotten k s" "rx_loop s = LoopIdle" "cx_fate cx = Arrives"
    and g: "gr_registered g" "registrar_key g = k" "\<And>f. gr_heartbeat_future g = Some f \<Longrightarrow> gr_heartbeat_future (rx_registrar s) = Some f"
  shows "forgotten k (sync_rest env cx True force False g s)"
proof (cases force)
  case False
  then show ?thesis using assms
    by (auto simp: sync_rest_def forgotten_def heartbeats_only_def submit_heartbeat_async_def registrar_key_def)
next
  case True
  have k: "k \<noteq> []" "address_at k (rx_registry s) \<in> {None, Some []}" using assms(1) by (simp_all add: forgotten_def)
  obtain r' res where "heartbeat_sent env cx (wants_inventory (cx_mono cx) False g) g (rx_registry s) = (r', res)"
      "accepted res" "address_at k r' \<in> {None, Some []}"
    using heartbeat_sent_forgotten [OF g(2) k(1) assms(3) k(2)] by metis
  then show ?thesis using True assms
    by (cases "gr_heartbeat_future g") (auto simp: sync_rest_def forgotten_def heartbeats_only_def Let_def)
qed

lemma forgotten_idle:
  assumes "forgotten k s" "gr_registered g" "registrar_key g = k" "gr_heartbeat_future g = gr_heartbeat_future (rx_registrar s)"
  shows "forgotten k (s\<lparr>rx_registrar := g, rx_loop := LoopIdle\<rparr>)"
  using assms by (simp add: forgotten_def heartbeats_only_def)

lemma forgotten_sync:
  assumes f: "forgotten k s" and idle: "rx_loop s = LoopIdle" and c: "calm (LoopSync cx) s"
  shows "forgotten k (sync_now env cx False s)"
proof -
  let ?g = "rx_registrar s"
  have ar: "cx_fate cx = Arrives" "\<not> registration_lease_expired (cx_mono cx) ?g" using c by (simp_all add: calm_def)
  have g: "gr_registered ?g" "registrar_key ?g = k" using f by (simp_all add: forgotten_def heartbeats_only_def)
  show ?thesis
  proof (cases "gr_heartbeat_future ?g")
    case None
    then show ?thesis using sync_rest_forgotten [OF f idle ar(1) g] g by (simp add: sync_now_def Let_def)
  next
    case (Some b)
    have pending: "forgotten k (sync_rest env cx True force False (report_pending (cx_mono cx) ?g) s)" for force
      by (rule sync_rest_forgotten [OF f idle ar(1)]) (use g in \<open>simp_all add: report_pending_registered [OF ar(2)]\<close>)
    show ?thesis
    proof (cases b)
      case (HbDone out)
      then obtain ok where out: "out = Inr ok" using f Some by (cases out) (simp_all add: forgotten_def heartbeats_only_def)
      have "forgotten k (sync_rest env cx True force False (forget_heartbeat ?g) s)" for force
        by (rule sync_rest_forgotten [OF f idle ar(1)]) (use g in \<open>simp_all add: forget_heartbeat_def registrar_key_def\<close>)
      then show ?thesis using Some HbDone out g by (simp add: sync_now_def Let_def)
    qed (use Some g pending in \<open>simp_all add: sync_now_def Let_def\<close>)
  qed
qed

lemma forgotten_loop_answered:
  assumes f: "forgotten k s" and w: "rx_loop s = LoopWaits sending res"
  shows "forgotten k (loop_answered env cx sending res s)"
proof -
  obtain inc where s: "sending = Beating inc" "accepted res"
    using f w by (cases sending) (simp_all add: forgotten_def heartbeats_only_def)
  obtain g1 where g1: "heartbeat_answered (cx_mono cx) inc res (rx_registrar s) = (g1, Inr True)"
      "gr_registered g1 = gr_registered (rx_registrar s)" "registrar_key g1 = registrar_key (rx_registrar s)"
      "gr_heartbeat_future g1 = gr_heartbeat_future (rx_registrar s)"
    by (rule heartbeat_answered_accepted [OF s(2)])
  have "forgotten k (s\<lparr>rx_registrar := g1, rx_loop := LoopIdle\<rparr>)"
    by (rule forgotten_idle [OF f]) (use f g1 in \<open>simp_all add: forgotten_def heartbeats_only_def\<close>)
  then show ?thesis using s g1(1) by (simp add: loop_answered_def Let_def)
qed

lemma forgotten_background:
  assumes f: "forgotten k s"
  shows "cx_fate cx = Arrives \<Longrightarrow> forgotten k (background_sends env cx s)" and "forgotten k (background_answered tick s)"
proof -
  let ?g = "rx_registrar s"
  have k: "registrar_key ?g = k" "k \<noteq> []" "address_at k (rx_registry s) \<in> {None, Some []}" using f by (simp_all add: forgotten_def)
  show "forgotten k (background_sends env cx s)" if ar: "cx_fate cx = Arrives"
  proof (cases "gr_heartbeat_future ?g = Some HbStarted")
    case True
    obtain r' res where "heartbeat_sent env cx (wants_inventory (cx_mono cx) False ?g) ?g (rx_registry s) = (r', res)"
        "accepted res" "address_at k r' \<in> {None, Some []}"
      using heartbeat_sent_forgotten [OF k(1,2) ar k(3)] by metis
    then show ?thesis using True f
      by (simp add: background_sends_def Let_def forgotten_def heartbeats_only_def registrar_key_def)
  next
    case False
    then show ?thesis using f by (simp add: background_sends_def Let_def split: option.split heartbeat_future.split)
  qed
  show "forgotten k (background_answered tick s)"
  proof (cases "\<exists>inc res. gr_heartbeat_future ?g = Some (HbSent inc res)")
    case True
    then obtain inc res where h: "gr_heartbeat_future ?g = Some (HbSent inc res)" by blast
    have "accepted res" using f h by (simp add: forgotten_def heartbeats_only_def)
    then obtain g1 where "heartbeat_answered tick inc res ?g = (g1, Inr True)" "gr_registered g1 = gr_registered ?g"
        "registrar_key g1 = registrar_key ?g"
      by (rule heartbeat_answered_accepted)
    then show ?thesis using h f
      by (simp add: background_answered_def Let_def forgotten_def heartbeats_only_def registrar_key_def)
  next
    case False
    then show ?thesis using f by (simp add: background_answered_def Let_def split: option.split heartbeat_future.split)
  qed
qed

lemma forgotten_registry: "forgotten k s \<Longrightarrow> address_at k r \<in> {None, Some []} \<Longrightarrow> forgotten k (s\<lparr>rx_registry := r\<rparr>)"
  by (simp add: forgotten_def heartbeats_only_def)

lemma forgotten_step:
  assumes f: "forgotten k s" and c: "calm e s"
  shows "forgotten k (registrar_step env e s)"
proof (cases e)
  case (LoopSync cx)
  then show ?thesis using forgotten_sync [OF f] f c by simp
next
  case (LoopAnswer cx)
  then show ?thesis using forgotten_loop_answered [OF f] f by (simp split: loop_state.split)
next
  case (BeatSend cx)
  then show ?thesis using forgotten_background(1) [OF f] c by (simp add: calm_def)
next
  case (BeatAnswer tick)
  then show ?thesis using forgotten_background(2) [OF f] by simp
next
  case (Elsewhere ev)
  have "address_at k (registry_step ev (rx_registry s)) \<in> {None, Some []}"
    by (rule addressless_step) (use f c Elsewhere in \<open>auto simp: forgotten_def calm_def\<close>)
  then show ?thesis using forgotten_registry [OF f] Elsewhere by simp
next
  case (CenterRestart ttl profiles)
  have "address_at k (new_registry ttl profiles) \<in> {None, Some []}" by (simp add: address_at_def new_registry_def)
  then show ?thesis using forgotten_registry [OF f] CenterRestart by simp
qed (use f c in \<open>simp_all add: forgotten_def heartbeats_only_def registrar_key_def start_loop_def request_sync_def calm_def
    close_answered_def close_stops_def\<close>)

text \<open>C40: A registered node that the registry has lost, by a restart of the info centre or a
  registration at its address, never gets its address back while its requests are answered: its
  heartbeats are accepted and recreate the node, and the registrar, still registered, does not
  register it.\<close>

theorem forgotten_node_keeps_no_address:
  assumes "gr_registered (rx_registrar s)" and "gr_heartbeat_future (rx_registrar s) = None" and "rx_loop s = LoopIdle"
    and "rx_closer s = CloserIdle" and "registrar_key (rx_registrar s) = k" and "k \<noteq> []"
    and "dget (rg_nodes (rx_registry s)) k = None" and "calm_run env evs s" and "s' = registrar_run env evs s"
  shows "gr_registered (rx_registrar s') \<and>
    (\<forall>n. dget (rg_nodes (rx_registry s')) k = Some n \<longrightarrow> nd_control_addr n = [])"
proof -
  have "forgotten k s" using assms by (simp add: forgotten_def heartbeats_only_def address_at_def)
  then have "forgotten k (registrar_run env evs s)"
    using assms(8) unfolding registrar_run_def by (induction evs arbitrary: s) (simp_all add: forgotten_step)
  then show ?thesis using assms(9) by (auto simp: forgotten_def heartbeats_only_def address_at_def)
qed

section \<open>A registration\<close>

definition reported_registration :: "registrar_env \<Rightarrow> circumstances \<Rightarrow> registrar \<Rightarrow> registration" where
  "reported_registration env cx g = registration_of (register_request (re_pycloud_version env) g (cx_snapshot cx))"

lemma reported_registration_sels:
  "rq_control_addr (reported_registration env cx g) = strip (gr_control_addr g)"
  "registrar_key g \<noteq> [] \<Longrightarrow> registration_key (reported_registration env cx g) = registrar_key g"
  "rq_services (reported_registration env cx g) = parse_services (sh_service_reports (cx_snapshot cx))"
  by (simp_all add: reported_registration_def registration_of_def register_request_def register_body_def Let_def registrar_key_def
      registration_key_def str_or_def client_inventory_def reported_inventory_def registrar_snapshot_def)

lemma registered_node_record:
  assumes "register_node_record rq now r = (r', Inr n)"
  shows "dget (rg_nodes r') (registration_key rq) = Some n" "nd_control_addr n = rq_control_addr rq" "nd_healthy n"
    "nd_last_seen_at n = now" "dkeys (nd_services n) = dkeys (rq_services rq)"
    "\<not> is_error (control_addr_conflicting_instances (registration_key rq) (rq_control_addr rq) r)"
proof -
  let ?i = "strip (str_or (rq_node_instance_id rq) (rq_node_id rq))"
  obtain r1 e1 where p: "prune_replaced_nodes ?i (rq_control_addr rq) r = (r1, e1)" by fastforce
  obtain r2 e2 where v: "validate_startup_service_names ?i (rq_control_addr rq) (rq_metadata rq) (rq_services rq) now r1 = (r2, e2)" by fastforce
  have ne: "?i \<noteq> []" and e: "e1 = None" "e2 = None"
    using assms p v by (auto simp: register_node_record_def Let_def split: if_splits option.splits)
  obtain old where n: "n = registered_node rq ?i now (rg_profiles r2) old" "r' = put_node ?i n (service_names old) r2"
    using assms p v e ne by (auto simp: register_node_record_def Let_def)
  show "dget (rg_nodes r') (registration_key rq) = Some n" using n(2) by (simp add: registration_key_def put_node_def dict_simps)
  show "nd_control_addr n = rq_control_addr rq" by (simp add: n(1) frame_simps)
  show "nd_healthy n" "nd_last_seen_at n = now" "dkeys (nd_services n) = dkeys (rq_services rq)"
    by (simp_all add: n(1) registered_node_def Let_def case_prod_beta frame_simps with_failure_timestamps_def dkeys_def dmap_def comp_def)
  show "\<not> is_error (control_addr_conflicting_instances (registration_key rq) (rq_control_addr rq) r)"
    using p e ne by (auto simp: control_addr_conflicting_instances_def prune_replaced_nodes_def registration_key_def Let_def
        split: if_splits sum.splits option.splits)
qed

text \<open>The same node, with the same identity and configuration.\<close>

definition same_node :: "registrar \<Rightarrow> registrar \<Rightarrow> bool" where
  "same_node g g' \<longleftrightarrow> gr_node_id g' = gr_node_id g \<and> gr_node_instance_id g' = gr_node_instance_id g \<and>
     gr_control_addr g' = gr_control_addr g \<and> gr_capacity g' = gr_capacity g \<and> gr_queue_capacity g' = gr_queue_capacity g \<and>
     gr_tags g' = gr_tags g \<and> gr_version g' = gr_version g \<and> gr_metadata g' = gr_metadata g"

lemma same_node_registration: "same_node g g' \<Longrightarrow> reported_registration env cx g' = reported_registration env cx g"
  by (simp add: same_node_def reported_registration_def register_request_def reported_inventory_def Let_def)

lemma register_sent_accepted:
  assumes "registrar_key g \<noteq> []" and "cx_fate cx = Arrives"
    and "register_node_record (reported_registration env cx g) (cx_now cx) r = (r', Inr n)"
  obtains reply where "register_sent env cx g r = (r', Inr reply)" "ir_accepted reply = Some True"
    "ir_heartbeat_interval_sec reply = Some (re_heartbeat_interval_sec env)" "ir_lease_ttl_sec reply = Some (rg_lease_ttl_sec r')"
proof -
  let ?rq = "reported_registration env cx g"
  have key: "rq_node_instance_id ?rq = registrar_key g"
    using assms(1) by (simp add: reported_registration_def registration_of_def register_request_def register_body_def Let_def registrar_key_def str_or_def)
  obtain cs where cs: "control_addr_conflicting_instances (rq_node_instance_id ?rq) (rq_control_addr ?rq) r = Inr cs"
    using registered_node_record(6) [OF assms(3)] reported_registration_sels(2) [OF assms(1)] key by (metis not_is_errorE)
  show ?thesis
    using that cs assms(3) unfolding register_sent_def request_def answer_register_def Let_def reported_registration_def [symmetric]
    by (simp add: assms(2) http_json_request_def)
qed

lemma sync_now_registers:
  assumes "\<not> gr_registered (rx_registrar s)"
    and "\<And>exc. gr_heartbeat_future (rx_registrar s) = Some (HbDone (Inl exc)) \<Longrightarrow> \<not> is_unknown_node_error exc"
  obtains g where "sync_now env cx False s = loop_registers env cx Registering g s" "same_node (rx_registrar s) g"
proof -
  let ?g = "rx_registrar s"
  have rest: "sync_rest env cx False force False g s = loop_registers env cx Registering g s" for force g by (simp add: sync_rest_def)
  have pending: "same_node ?g (report_pending (cx_mono cx) ?g)"
    by (simp add: same_node_def report_pending_def Let_def mark_registration_stale_def)
  show ?thesis
  proof (cases "gr_heartbeat_future ?g")
    case None
    then show ?thesis using that [of ?g] assms(1) rest by (simp add: sync_now_def Let_def same_node_def)
  next
    case (Some b)
    show ?thesis
    proof (cases b)
      case (HbDone out)
      show ?thesis
      proof (cases out)
        case (Inl exc)
        let ?h = "handle_sync_exception (cx_mono cx) exc True (forget_heartbeat ?g)"
        have "snd ?h = False" "same_node ?g (fst ?h)" using assms(2) Some HbDone Inl
          by (simp_all add: handle_sync_exception_def Let_def same_node_def forget_heartbeat_def mark_registration_stale_def)
        moreover obtain g1 b1 where "?h = (g1, b1)" by fastforce
        ultimately show ?thesis using that [of g1] Some HbDone Inl assms(1) rest by (simp add: sync_now_def Let_def)
      next
        case (Inr ok)
        have "same_node ?g (forget_heartbeat ?g)" by (simp add: same_node_def forget_heartbeat_def)
        then show ?thesis using that [of "forget_heartbeat ?g"] Some HbDone Inr assms(1) rest by (simp add: sync_now_def Let_def)
      qed
    qed (use that [OF _ pending] Some assms(1) rest in \<open>simp_all add: sync_now_def Let_def\<close>)
  qed
qed


section \<open>A request to report that is forgotten\<close>

text \<open>\<open>request_sync\<close> while a heartbeat with the inventory is under way is forgotten when that
  heartbeat, whose inventory is older, is accepted: for the whole interval after it no heartbeat
  carries the inventory of its own accord.\<close>

theorem sync_request_forgotten:
  assumes "gr_heartbeat_future (rx_registrar s) = Some (HbSent True (Inr reply))" and "ir_accepted reply = Some True"
    and "\<not> ir_inventory_required reply" and "s' = registrar_run env [RequestSync, BeatAnswer tick] s"
    and "tick' < tick + gr_inventory_sync_interval_sec (rx_registrar s)"
  shows "\<not> gr_force_inventory_sync (rx_registrar s') \<and> \<not> wants_inventory tick' False (rx_registrar s')"
  using assms
  by (simp add: registrar_run_def request_sync_def background_answered_def Let_def heartbeat_answered_def opt_or_def wants_inventory_def)

text \<open>Under a heartbeat without the inventory, and unless that is accepted, the request stays.\<close>

lemma sync_request_kept:
  assumes "gr_heartbeat_future (rx_registrar s) = Some (HbSent inc res)" and "inc \<longrightarrow> \<not> accepted res"
    and "\<And>reply. res = Inr reply \<Longrightarrow> ir_accepted reply \<noteq> None"
  shows "gr_force_inventory_sync (rx_registrar (registrar_run env [RequestSync, BeatAnswer tick] s))"
  using assms
  by (cases res) (auto simp: registrar_run_def request_sync_def background_answered_def Let_def heartbeat_answered_def opt_or_def accepted_def)

section \<open>A closed node that registers again\<close>

text \<open>Between the end of the registration and the stop of the loop, the loop may begin a round; the
  node that was just taken out of the registrar's care is registered anew as healthy.\<close>

lemma closing_node_registers_again:
  assumes "rx_closer s = CloserWaits res" and "rx_alive s" and "\<not> gr_stop (rx_registrar s)" and "rx_loop s = LoopIdle"
    and "gr_heartbeat_future (rx_registrar s) = None" and "registrar_key (rx_registrar s) \<noteq> []" and "cx_fate cx = Arrives"
    and "register_node_record (reported_registration env cx (rx_registrar s)) (cx_now cx) (rx_registry s) = (r', Inr n)"
    and "s' = registrar_run env [CloseAnswer tick, LoopSync cx, LoopAnswer cx', CloseStop] s"
  shows "gr_stop (rx_registrar s') \<and> gr_registered (rx_registrar s') \<and> rx_registry s' = r' \<and> nd_healthy n"
proof -
  let ?s1 = "close_answered tick s"
  have same: "same_node (rx_registrar s) (rx_registrar ?s1)" and fut: "gr_heartbeat_future (rx_registrar ?s1) = None"
    and st: "\<not> gr_stop (rx_registrar ?s1)" and s1: "rx_alive ?s1" "rx_loop ?s1 = LoopIdle" "rx_registry ?s1 = rx_registry s"
      "\<not> gr_registered (rx_registrar ?s1)" "rx_closer ?s1 = CloserStops"
    using assms(1-5) by (auto simp: close_answered_def same_node_def heartbeat_answered_def Let_def split: sum.split)
  have key: "registrar_key (rx_registrar ?s1) = registrar_key (rx_registrar s)" using same by (simp add: same_node_def registrar_key_def)
  have rec: "register_node_record (reported_registration env cx (rx_registrar ?s1)) (cx_now cx) (rx_registry ?s1) = (r', Inr n)"
    using assms(8) same_node_registration [OF same] s1(3) by simp
  obtain g where g: "sync_now env cx False ?s1 = loop_registers env cx Registering g ?s1" "same_node (rx_registrar ?s1) g"
    by (rule sync_now_registers [OF s1(4)]) (simp add: fut)
  have rec': "register_node_record (reported_registration env cx g) (cx_now cx) (rx_registry ?s1) = (r', Inr n)"
    using rec same_node_registration [OF g(2)] by simp
  obtain reply where reply: "register_sent env cx g (rx_registry ?s1) = (r', Inr reply)" "ir_accepted reply = Some True"
    by (rule register_sent_accepted [OF _ assms(7) rec']) (use g(2) key assms(6) in \<open>simp_all add: same_node_def registrar_key_def\<close>)
  have "s' = close_stops (loop_answered env cx' Registering (Inr reply)
      (?s1\<lparr>rx_registrar := g, rx_registry := r', rx_loop := LoopWaits Registering (Inr reply)\<rparr>))"
    using assms(9) s1 st g(1) reply(1) by (simp add: registrar_run_def loop_registers_def)
  then show ?thesis using reply(2) s1(5) registered_node_record(3) [OF assms(8)]
    by (simp add: loop_answered_def Let_def register_answered_def opt_or_def close_stops_def)
qed

section \<open>Witnesses\<close>

definition sample_registrar :: registrar where
  "sample_registrar = new_registrar ''n1'' ''i1'' [] ''h:1'' 4 16 [] ''v'' [] 10 1 30"

definition sample_snapshot :: node_snapshot where
  "sample_snapshot = \<lparr>sh_credit = 16, sh_service_timing_metadata = [], sh_accept_service_deploy = True, sh_deploy_health_reason = [],
     sh_task_pool_reports = [], sh_service_reports = [sample_service ''svc''], sh_active_runtimes = [], sh_service_worker_capacity = 4,
     sh_service_worker_used = 2, sh_task_pool_worker_capacity = 0, sh_task_pool_worker_used = 0, sh_python_version = ''3.11''\<rparr>"

definition sample_circumstances :: "rat \<Rightarrow> circumstances" where
  "sample_circumstances t = \<lparr>cx_mono = t, cx_now = t, cx_snapshot = sample_snapshot, cx_fate = Arrives\<rparr>"

definition sample_registrar_env :: registrar_env where
  "sample_registrar_env = \<lparr>re_pycloud_version = ''1'', re_endpoint = ''c:1'', re_heartbeat_interval_sec = 10\<rparr>"

definition sample_sys :: registrar_sys where
  "sample_sys = \<lparr>rx_registrar = sample_registrar, rx_alive = True, rx_loop = LoopIdle, rx_closer = CloserIdle,
     rx_registry = new_registry 30 []\<rparr>"

text \<open>The node registers, the info centre starts anew, and the node beats: first without, then with
  the inventory.\<close>

definition registered_sys :: registrar_sys where
  "registered_sys = registrar_run sample_registrar_env [LoopSync (sample_circumstances 1), LoopAnswer (sample_circumstances 1)] sample_sys"

definition restarted_sys :: registrar_sys where
  "restarted_sys = registrar_step sample_registrar_env (CenterRestart 30 []) registered_sys"

definition beats :: "registrar_event list" where
  "beats = [LoopSync (sample_circumstances 11), BeatSend (sample_circumstances 11), BeatAnswer 11,
     LoopSync (sample_circumstances 21), LoopAnswer (sample_circumstances 21)]"


theorem forgotten_node_keeps_no_address_witness:
  "gr_registered (rx_registrar (registrar_run sample_registrar_env beats restarted_sys)) \<and>
   map_option nd_control_addr (dget (rg_nodes (rx_registry (registrar_run sample_registrar_env beats restarted_sys))) ''i1'') = Some []"
proof -
  have reg: "gr_registered (rx_registrar restarted_sys)" and idle: "gr_heartbeat_future (rx_registrar restarted_sys) = None"
    "rx_loop restarted_sys = LoopIdle" "rx_closer restarted_sys = CloserIdle" and k: "registrar_key (rx_registrar restarted_sys) = ''i1''"
    and gone: "dget (rg_nodes (rx_registry restarted_sys)) ''i1'' = None"
    by code_simp+
  have calm: "calm_run sample_registrar_env beats restarted_sys" by code_simp
  have there: "dget (rg_nodes (rx_registry (registrar_run sample_registrar_env beats restarted_sys))) ''i1'' \<noteq> None" by code_simp
  show ?thesis
    using forgotten_node_keeps_no_address [OF reg idle k _ gone calm refl] there by auto
qed

text \<open>The second heartbeat is under way when the node is asked to report.\<close>

definition beating_sys :: registrar_sys where
  "beating_sys = registrar_run sample_registrar_env [LoopSync (sample_circumstances 40), BeatSend (sample_circumstances 40)] registered_sys"

theorem sync_request_forgotten_witness:
  "\<not> wants_inventory 60 False (rx_registrar (registrar_run sample_registrar_env [RequestSync, BeatAnswer 41] beating_sys))"
proof -
  have "case gr_heartbeat_future (rx_registrar beating_sys) of
      Some (HbSent True (Inr reply)) \<Rightarrow> ir_accepted reply = Some True \<and> \<not> ir_inventory_required reply | _ \<Rightarrow> False"
    by code_simp
  then obtain reply where "gr_heartbeat_future (rx_registrar beating_sys) = Some (HbSent True (Inr reply))"
      "ir_accepted reply = Some True" "\<not> ir_inventory_required reply"
    by (auto split: option.splits heartbeat_future.splits bool.splits sum.splits)
  moreover have "60 < 41 + gr_inventory_sync_interval_sec (rx_registrar beating_sys)" by code_simp
  ultimately show ?thesis using sync_request_forgotten [OF _ _ _ refl] by blast
qed

end
