(* ===== verification/Spec2Isabelle.thy ===== *)
theory Spec2Isabelle
  imports Scheduler Breaker DataRefs Policy JobGuarantees JobRuns JobOrder JobFailures DiscoveryCache GatewayCache RegistryGuarantees DataRegistry PoolGuarantees ExecutorPools ClientGuarantees ClientCollect KeepaliveGuarantees DiscoveryGuarantees RegistrarGuarantees
begin

text \<open>
  Verification library for pycloud (src/src/pycloud_parallel), a Python system that runs services, task
  pools and queued jobs on the nodes of a cluster.

  The program. An info centre (controlplane/infocenter_state.py) keeps the registered nodes, the services
  they report and the references to large objects. A node (controlplane/nodecontrol_state.py) owns task
  pools; it hands tasks to an executor core in a process of its own (controlplane/executor_core.py), keeps
  their results for each client (controlplane/hooks.py) and a log of what happened to its resources
  (controlplane/resource_signals.py). Clients find routes by a cache, their own
  (controlplane/discovery_route_cache.py) or the gateway's (controlplane/gateway_cache.py), and choose among
  candidates by a score (execution/scheduler.py) under circuit breakers (execution/failover.py). The owner of
  a task pool session (execution/task_pool.py, execution/base.py) spreads payloads over its replicas, keeps
  them alive by heartbeats and replaces lost ones. The job queue (controlplane/job_queue.py) runs one job at
  a time on a pool of its own.

  How it is modelled. A state is a record with the fields of the class; a dict is an association list in
  insertion order (\<open>dict\<close> of Prelude), a float an exact rational, an instant a rational. An operation is a
  function of the state, and of what it reads from outside: the clock, the answers of remote calls, random
  ids and hashes are arguments or fields of an environment record. An exception is a value of \<open>py_error\<close>, on
  the left of a sum. What a lock protects is one step; a method that takes its lock several times is several
  definitions, and the step relation or the event type of the component lets other callers run in between.
  A theorem about histories speaks of every list of such steps. Log lines are left out.

  Shared theories. Prelude: dicts, Python values, \<open>strip\<close>, numbers in text, rounding, and the locale
  \<open>py_dict\<close> of lookup tables. Urls: host and port of an address, as urllib parses them. Routes: the route record, its
  sort keys and the book of breakers and counts that both route caches keep. The other locales are
  \<open>selector\<close> (Scheduler), \<open>circuit_breaker\<close> (Breaker), \<open>mode_policy\<close> (Policy) and \<open>ledger\<close> (Ledger).

  Choosing a candidate. Scheduler: \<open>filter_candidates\<close>, scoring and \<open>select_one_candidate\<close>, which is optimal up
  to 1e-9. Breaker: the state machine of a breaker, its invariant, its single probe. DiscoveryCache and
  GatewayCache: refreshing by one caller and selection; a selection of the discovery cache is one section,
  one of the gateway is a scan and a choice with others in between. DiscoveryCalls: the loop of a call to a
  service over its routes (controlplane/discovery_client.py); DiscoveryCallFacts: what it logs and that it
  ends; DiscoveryGuarantees: what it repeats, and how a probe gets lost. Policy: serialization modes, profiles and
  effective policies (controlplane/serialization_mode.py, policy_profile.py, effective_policy.py).

  References. DataRefs (data/ref.py): construction, payload form, locators. DataRegistry: their registry at
  the info centre, and how long an entry lives.

  Info centre. NodeRegistry: registration, heartbeats, commands of an operator, the index of service names.
  RegistryQueries: nodes and routes as they are listed. RegistryInvariants, RegistryGuarantees: histories, by
  which the index is exact, no two nodes share an endpoint, and the routes of a call are the right ones.
  Registrar: the loop by which a node keeps itself registered (controlplane/registrar.py), its two requests
  (infocenter_client.py, http_client.py) and the handlers that answer them from the registry
  (infocenter_http.py); sending and answering are two steps, between which the other threads, the other nodes
  and a restart of the info centre act. RegistrarGuarantees: a round registers the node at its address; a
  node the registry has lost does not get its address back by heartbeats.

  Node. NodePools: the locked sections of a pool's life, of submission and of completion. PoolTasks: the books
  of its queue, PoolAnswers: every task is answered at most once, and by its result; PoolGuarantees: what a
  caller of submit, close and cancel is told. ResultHook, ResourceSignals: bounded logs that refine lists.
  CreateRequests: repeated create calls. ExecutorCore: the process pools and the calls in flight;
  ExecutorAnswers: every request is answered once; ExecutorPools: no process pool leaks.

  Job queue. JobPayload: references in a payload. JobQueue: the sections of the queue. JobScheduler: the step
  relation of the scheduler threads and its invariant. JobGuarantees, JobRuns, JobOrder, JobFailures: one job
  at a time, outcomes, the order of starts, and how the scheduler is lost. JobDemo: jobs for the examples.

  Client of a task pool. ErrorClassifier (execution/error_classifier.py): errors by their text. Inflight: the
  window. ClientPool, ClientTasks: choice of nodes, submission in batches, replay records, results.
  ClientImap, ClientLoop: the rounds of \<open>imap_unordered\<close>. Its properties rest on an account of where each
  index is (unread, out, completed, ready, yielded): Ledger holds the generic sums, ClientFacts and
  ClientMoves what the operations do to the tables, ClientOnce the account, ClientDelivery and ClientRounds
  its preservation by a fill, a poll and a round, ClientGuarantees the theorems and ClientCollect a failing
  of \<open>collect_results\<close>. ClientDemo: a session for the examples.

  Keepalive of a session. Keepalive: heartbeats, the sets of active, probed and terminal replicas, and
  compensation. KeepaliveFacts: what a history leaves alone for one node. KeepaliveGuarantees: a blacklisted
  node stays out, the number of heartbeats is bounded, a replica given up stays so.

  Fuel and bounds. \<open>imap_rounds\<close> runs for a number of rounds given as an argument, since a node may stay silent
  for ever: safety is proved for every number, and of the normal end it is said what it has yielded. Decimal
  numerals (\<open>digits_of\<close>) get their value plus one as fuel, at least the number of their digits. Everything else is
  structural recursion, a fold, or a function that ends by a measure (\<open>plan_within\<close>). Capacities (256 workers and
  half of them for one session, 100 s, 3600 s, 1024 openings of a breaker) are those of the code.

  Not modelled. Services of a node and service sessions, but for what they share with task pools. The other
  HTTP handlers and clients, the gateway's call loop among them, and the pages: they parse requests and render
  the states above, and the choice of routes they rest on is modelled. Threads, processes, sockets and files.
  Packaging, dependencies, execution of user code and encodings of values, which third-party libraries define.
  The overflow of floats other than the breaker's; the order of a Python set, for which the order of insertion
  stands.
\<close>

end
